(* ===== verification/Prelude.thy ===== *)
theory Prelude
  imports Main "HOL-Library.List_Lexorder" "HOL-Library.Char_ord"
begin

text \<open>
  What every component shares: the result type of the fallible operations, the Rust
  iterator and string helpers the components use, 32- and 64-bit unsigned arithmetic
  written out over \<open>nat\<close>, and decimal printing and parsing.

  \<^item> A fallible operation returns \<open>'a res\<close>, that is \<open>err + 'a\<close>: \<open>Inl (Bail m)\<close> stands
    for the \<open>anyhow\<close> error whose message starts with the fixed text \<open>m\<close> of the source,
    and \<open>Inr x\<close> for \<open>Ok(x)\<close>.
  \<^item> A Rust \<open>String\<close> is its UTF-8 byte list, so \<open>length\<close> is \<open>len()\<close>. The code inspects
    ASCII bytes only; \<open>str_trim\<close> removes the ASCII part of Rust's white space.
  \<^item> A \<open>u32\<close> or \<open>u64\<close> is a \<open>nat\<close> and every operation that can leave the width says
    what happens there: \<open>wrapping\<close> (release arithmetic), \<open>saturating\<close> or \<open>checked\<close>.
\<close>

section \<open>Results\<close>

datatype err = Bail string

type_synonym 'a res = "err + 'a"

named_theorems res_simps \<open>unfolding rules for the result combinators\<close>

definition bind_res :: "'a res \<Rightarrow> ('a \<Rightarrow> 'b res) \<Rightarrow> 'b res" where
  "bind_res m f = (case m of Inl e \<Rightarrow> Inl e | Inr x \<Rightarrow> f x)"

definition ok_or :: "'a option \<Rightarrow> string \<Rightarrow> 'a res" where
  "ok_or x m = (case x of None \<Rightarrow> Inl (Bail m) | Some y \<Rightarrow> Inr y)"

definition bail_if :: "bool \<Rightarrow> string \<Rightarrow> 'a res \<Rightarrow> 'a res" where
  "bail_if b m k = (if b then Inl (Bail m) else k)"

definition is_ok :: "'a res \<Rightarrow> bool" where
  "is_ok m = (case m of Inl _ \<Rightarrow> False | Inr _ \<Rightarrow> True)"

text \<open>\<open>collect::<Result<Vec<_>>>\<close>: the first error wins.\<close>

fun map_res :: "('a \<Rightarrow> 'b res) \<Rightarrow> 'a list \<Rightarrow> 'b list res" where
  "map_res f [] = Inr []"
| "map_res f (x # xs) = bind_res (f x) (\<lambda>y. bind_res (map_res f xs) (\<lambda>ys. Inr (y # ys)))"

text \<open>A loop over a list that threads a state and stops at the first error.\<close>

fun fold_res :: "('s \<Rightarrow> 'a \<Rightarrow> 's res) \<Rightarrow> 's \<Rightarrow> 'a list \<Rightarrow> 's res" where
  "fold_res f s [] = Inr s"
| "fold_res f s (x # xs) = bind_res (f s x) (\<lambda>s'. fold_res f s' xs)"

lemma bind_res_simps [simp, res_simps]:
  "bind_res (Inl e) f = Inl e"
  "bind_res (Inr x) f = f x"
  by (simp_all add: bind_res_def)

lemma bind_res_Inr [res_simps]: "bind_res m f = Inr y \<longleftrightarrow> (\<exists>x. m = Inr x \<and> f x = Inr y)"
  by (cases m) (auto simp: bind_res_def)

lemma ok_or_simps [simp, res_simps]:
  "ok_or None m = Inl (Bail m)"
  "ok_or (Some x) m = Inr x"
  by (simp_all add: ok_or_def)

lemma ok_or_Inr [simp]: "ok_or x m = Inr y \<longleftrightarrow> x = Some y"
  by (cases x) auto

lemma bail_if_simps [simp, res_simps]:
  "bail_if True m k = Inl (Bail m)"
  "bail_if False m k = k"
  by (simp_all add: bail_if_def)

lemma bail_if_Inr [simp]: "bail_if b m k = Inr y \<longleftrightarrow> \<not> b \<and> k = Inr y"
  by (simp add: bail_if_def)

lemma is_ok_simps [simp]: "is_ok (Inr x)" "\<not> is_ok (Inl e)"
  by (simp_all add: is_ok_def)

lemma map_res_length: "map_res f xs = Inr ys \<Longrightarrow> length ys = length xs"
  by (induction xs arbitrary: ys) (auto simp: bind_res_Inr)

lemma fold_res_append:
  "fold_res f s (xs @ ys) = bind_res (fold_res f s xs) (\<lambda>s'. fold_res f s' ys)"
proof (induction xs arbitrary: s)
  case Nil
  then show ?case by simp
next
  case (Cons x xs)
  then show ?case by (cases "f s x") auto
qed

text \<open>The loop rule: what every successful step keeps holds of the loop's result.\<close>

lemma fold_res_invariant:
  assumes "fold_res f s xs = Inr s'" and "P s"
    and "\<And>s x s'. x \<in> set xs \<Longrightarrow> P s \<Longrightarrow> f s x = Inr s' \<Longrightarrow> P s'"
  shows "P s'"
  using assms
proof (induction xs arbitrary: s)
  case Nil
  then show ?case by simp
next
  case (Cons x xs)
  from Cons.prems(1) obtain t where t: "f s x = Inr t" and rest: "fold_res f t xs = Inr s'"
    by (auto simp: bind_res_Inr)
  from Cons.prems(2,3) t have "P t" by auto
  with rest Cons.prems(3) show ?case by (auto intro: Cons.IH)
qed

section \<open>Iterator helpers\<close>

fun find_map :: "('a \<Rightarrow> 'b option) \<Rightarrow> 'a list \<Rightarrow> 'b option" where
  "find_map f [] = None"
| "find_map f (x # xs) = (case f x of Some y \<Rightarrow> Some y | None \<Rightarrow> find_map f xs)"

fun position :: "('a \<Rightarrow> bool) \<Rightarrow> 'a list \<Rightarrow> nat option" where
  "position p [] = None"
| "position p (x # xs) = (if p x then Some 0 else map_option Suc (position p xs))"

definition last_opt :: "'a list \<Rightarrow> 'a option" where
  "last_opt xs = (if xs = [] then None else Some (last xs))"

definition first_opt :: "'a list \<Rightarrow> 'a option" where
  "first_opt xs = (case xs of [] \<Rightarrow> None | x # _ \<Rightarrow> Some x)"

definition option_all :: "('a \<Rightarrow> bool) \<Rightarrow> 'a option \<Rightarrow> bool" where
  "option_all p x = (case x of None \<Rightarrow> True | Some y \<Rightarrow> p y)"

lemma last_opt_simps [simp]:
  "last_opt [] = None" "last_opt (xs @ [x]) = Some x"
  by (simp_all add: last_opt_def)

lemma first_opt_simps [simp]: "first_opt [] = None" "first_opt (x # xs) = Some x"
  by (simp_all add: first_opt_def)

lemma option_all_simps [simp]: "option_all p None" "option_all p (Some x) = p x"
  by (simp_all add: option_all_def)

lemma find_map_append:
  "find_map f (xs @ ys) = (case find_map f xs of Some y \<Rightarrow> Some y | None \<Rightarrow> find_map f ys)"
  by (induction xs) (auto split: option.splits)

lemma find_map_Some: "find_map f xs = Some y \<Longrightarrow> \<exists>x \<in> set xs. f x = Some y"
  by (induction xs) (auto split: option.splits)

lemma find_map_None: "find_map f xs = None \<longleftrightarrow> (\<forall>x \<in> set xs. f x = None)"
  by (induction xs) (auto split: option.splits)

lemma find_Some: "List.find p xs = Some x \<Longrightarrow> x \<in> set xs \<and> p x"
  by (induction xs) (auto split: if_splits)

lemma find_None: "List.find p xs = None \<longleftrightarrow> (\<forall>x \<in> set xs. \<not> p x)"
  by (induction xs) auto

lemma find_append:
  "List.find p (xs @ ys) = (case List.find p xs of Some y \<Rightarrow> Some y | None \<Rightarrow> List.find p ys)"
  by (induction xs) auto

lemma position_Some:
  "position p xs = Some i \<Longrightarrow> i < length xs \<and> p (xs ! i) \<and> (\<forall>j < i. \<not> p (xs ! j))"
proof (induction xs arbitrary: i)
  case Nil
  then show ?case by simp
next
  case (Cons x xs)
  show ?case
  proof (cases "p x")
    case True
    with Cons.prems show ?thesis by simp
  next
    case False
    with Cons.prems obtain k where k: "position p xs = Some k" "i = Suc k" by auto
    from Cons.IH [OF k(1)] k(2) False show ?thesis
      by (auto simp: less_Suc_eq_0_disj)
  qed
qed

lemma position_None: "position p xs = None \<longleftrightarrow> (\<forall>x \<in> set xs. \<not> p x)"
  by (induction xs) auto

section \<open>Unsigned machine arithmetic\<close>

type_synonym u32 = nat
type_synonym u64 = nat

abbreviation u32_limit :: nat where "u32_limit \<equiv> 4294967296"
abbreviation u64_limit :: nat where "u64_limit \<equiv> 18446744073709551616"

definition u32_wrapping_add :: "u32 \<Rightarrow> u32 \<Rightarrow> u32" where
  "u32_wrapping_add a b = (a + b) mod u32_limit"

definition u32_wrapping_sub :: "u32 \<Rightarrow> u32 \<Rightarrow> u32" where
  "u32_wrapping_sub a b = (a + u32_limit - b) mod u32_limit"

definition u32_wrapping_mul :: "u32 \<Rightarrow> u32 \<Rightarrow> u32" where
  "u32_wrapping_mul a b = (a * b) mod u32_limit"

definition u32_saturating_add :: "u32 \<Rightarrow> u32 \<Rightarrow> u32" where
  "u32_saturating_add a b = min (a + b) (u32_limit - 1)"

definition u32_saturating_mul :: "u32 \<Rightarrow> u32 \<Rightarrow> u32" where
  "u32_saturating_mul a b = min (a * b) (u32_limit - 1)"

definition u32_saturating_sub :: "u32 \<Rightarrow> u32 \<Rightarrow> u32" where
  "u32_saturating_sub a b = a - b"

definition u64_checked_add :: "u64 \<Rightarrow> u64 \<Rightarrow> u64 option" where
  "u64_checked_add a b = (if a + b < u64_limit then Some (a + b) else None)"

definition u64_wrapping_add :: "u64 \<Rightarrow> u64 \<Rightarrow> u64" where
  "u64_wrapping_add a b = (a + b) mod u64_limit"

definition u32_checked_add :: "u32 \<Rightarrow> u32 \<Rightarrow> u32 option" where
  "u32_checked_add a b = (if a + b < u32_limit then Some (a + b) else None)"

named_theorems u32_simps \<open>unfolding rules for the machine operations\<close>

declare u32_wrapping_add_def [u32_simps] u32_wrapping_sub_def [u32_simps]
  u32_wrapping_mul_def [u32_simps] u32_saturating_add_def [u32_simps]
  u32_saturating_mul_def [u32_simps] u32_saturating_sub_def [u32_simps]
  u64_checked_add_def [u32_simps] u32_checked_add_def [u32_simps]

lemma u32_wrapping_add_exact: "a + b < u32_limit \<Longrightarrow> u32_wrapping_add a b = a + b"
  by (simp add: u32_wrapping_add_def)

lemma u32_wrapping_sub_exact: "b \<le> a \<Longrightarrow> a < u32_limit \<Longrightarrow> u32_wrapping_sub a b = a - b"
proof -
  assume "b \<le> a" and "a < u32_limit"
  then have "a + u32_limit - b = (a - b) + u32_limit" and "a - b < u32_limit" by arith+
  then show ?thesis by (simp only: u32_wrapping_sub_def mod_add_self2 mod_less)
qed

lemma u64_wrapping_add_exact: "a + b < u64_limit \<Longrightarrow> u64_wrapping_add a b = a + b"
  by (simp add: u64_wrapping_add_def)

section \<open>ASCII strings\<close>

definition ord_of :: "char \<Rightarrow> nat" where
  "ord_of c = of_char c"

definition is_digit :: "char \<Rightarrow> bool" where
  "is_digit c = (48 \<le> ord_of c \<and> ord_of c \<le> 57)"

definition is_upper :: "char \<Rightarrow> bool" where
  "is_upper c = (65 \<le> ord_of c \<and> ord_of c \<le> 90)"

definition is_lower :: "char \<Rightarrow> bool" where
  "is_lower c = (97 \<le> ord_of c \<and> ord_of c \<le> 122)"

definition is_alpha :: "char \<Rightarrow> bool" where
  "is_alpha c = (is_upper c \<or> is_lower c)"

definition is_alnum :: "char \<Rightarrow> bool" where
  "is_alnum c = (is_alpha c \<or> is_digit c)"

definition is_hexdigit :: "char \<Rightarrow> bool" where
  "is_hexdigit c = (is_digit c \<or> (65 \<le> ord_of c \<and> ord_of c \<le> 70) \<or> (97 \<le> ord_of c \<and> ord_of c \<le> 102))"

definition to_upper :: "char \<Rightarrow> char" where
  "to_upper c = (if is_lower c then char_of (ord_of c - 32) else c)"

definition to_lower :: "char \<Rightarrow> char" where
  "to_lower c = (if is_upper c then char_of (ord_of c + 32) else c)"

definition is_space :: "char \<Rightarrow> bool" where
  "is_space c = (ord_of c = 32 \<or> (9 \<le> ord_of c \<and> ord_of c \<le> 13))"

definition str_trim :: "string \<Rightarrow> string" where
  "str_trim s = rev (dropWhile is_space (rev (dropWhile is_space s)))"

definition starts_with :: "string \<Rightarrow> string \<Rightarrow> bool" where
  "starts_with s p = (take (length p) s = p)"

definition ends_with :: "string \<Rightarrow> string \<Rightarrow> bool" where
  "ends_with s p = starts_with (rev s) (rev p)"

definition strip_prefix :: "string \<Rightarrow> string \<Rightarrow> string option" where
  "strip_prefix s p = (if starts_with s p then Some (drop (length p) s) else None)"

definition strip_suffix :: "string \<Rightarrow> string \<Rightarrow> string option" where
  "strip_suffix s p = map_option rev (strip_prefix (rev s) (rev p))"

text \<open>\<open>str::find\<close> of a character class and \<open>str::split_once\<close>/\<open>rsplit_once\<close> at a character.\<close>

fun split_once :: "char \<Rightarrow> string \<Rightarrow> (string \<times> string) option" where
  "split_once c [] = None"
| "split_once c (x # xs) =
     (if x = c then Some ([], xs) else map_option (\<lambda>(a, b). (x # a, b)) (split_once c xs))"

definition rsplit_once :: "char \<Rightarrow> string \<Rightarrow> (string \<times> string) option" where
  "rsplit_once c s = map_option (\<lambda>(b, a). (rev a, rev b)) (split_once c (rev s))"

fun split_on :: "char \<Rightarrow> string \<Rightarrow> string list" where
  "split_on c [] = [[]]"
| "split_on c (x # xs) =
     (if x = c then [] # split_on c xs
      else (case split_on c xs of [] \<Rightarrow> [[x]] | y # ys \<Rightarrow> (x # y) # ys))"

fun join_with :: "string \<Rightarrow> string list \<Rightarrow> string" where
  "join_with sep [] = []"
| "join_with sep [x] = x"
| "join_with sep (x # y # zs) = x @ sep @ join_with sep (y # zs)"

fun contains_str :: "string \<Rightarrow> string \<Rightarrow> bool" where
  "contains_str [] p = (p = [])"
| "contains_str (x # xs) p = (starts_with (x # xs) p \<or> contains_str xs p)"

lemma split_once_append:
  "c \<notin> set a \<Longrightarrow> split_once c (a @ c # b) = Some (a, b)"
  by (induction a) auto

lemma split_once_None: "split_once c s = None \<longleftrightarrow> c \<notin> set s"
  by (induction s) auto

lemma split_once_Some: "split_once c s = Some (a, b) \<Longrightarrow> s = a @ c # b \<and> c \<notin> set a"
  by (induction s arbitrary: a b) (auto split: if_splits)

lemma split_on_free: "c \<notin> set s \<Longrightarrow> split_on c s = [s]"
  by (induction s) auto

lemma split_on_nonempty [simp]: "split_on c s \<noteq> []"
  by (induction s) (auto split: list.splits)

lemma split_on_append: "c \<notin> set a \<Longrightarrow> split_on c (a @ c # b) = a # split_on c b"
  by (induction a) auto

lemma split_on_append_sep: "split_on c (a @ c # b) = split_on c a @ split_on c b"
proof (induction a)
  case (Cons x a)
  obtain y ys where "split_on c a = y # ys" by (cases "split_on c a") auto
  with Cons show ?case by simp
qed simp

text \<open>\<open>BufRead::lines\<close> drops one carriage return before the line break.\<close>

definition strip_cr :: "string \<Rightarrow> string" where
  "strip_cr s = (case strip_suffix s [CHR 0x0D] of None \<Rightarrow> s | Some t \<Rightarrow> t)"

lemma strip_cr_id:
  assumes "e \<noteq> []" and "last e \<noteq> CHR 0x0D"
  shows "strip_cr e = e"
proof -
  obtain d c where "e = d @ [c]" using assms(1) by (metis append_butlast_last_id)
  with assms(2) show ?thesis
    by (simp add: strip_cr_def strip_suffix_def strip_prefix_def starts_with_def)
qed

lemma map_res_snoc:
  "map_res f (xs @ [x]) = bind_res (map_res f xs) (\<lambda>ys. bind_res (f x) (\<lambda>y. Inr (ys @ [y])))"
proof (induction xs)
  case (Cons a xs)
  then show ?case by (cases "f a"; cases "map_res f xs"; cases "f x") auto
qed simp

section \<open>Decimal numbers\<close>

definition digit_char :: "nat \<Rightarrow> char" where
  "digit_char d = char_of (48 + d)"

definition digit_val :: "char \<Rightarrow> nat" where
  "digit_val c = ord_of c - 48"

fun show_nat :: "nat \<Rightarrow> string" where
  "show_nat n = (if n < 10 then [digit_char n] else show_nat (n div 10) @ [digit_char (n mod 10)])"

declare show_nat.simps [simp del]

definition digits_val :: "string \<Rightarrow> nat" where
  "digits_val s = foldl (\<lambda>a c. a * 10 + digit_val c) 0 s"

text \<open>
  \<open>str::parse\<close> for an unsigned width: one optional \<open>+\<close>, at least one digit, only digits,
  no overflow.
\<close>

definition parse_unsigned :: "nat \<Rightarrow> string \<Rightarrow> nat option" where
  "parse_unsigned limit s =
     (let t = (case s of c # cs \<Rightarrow> if c = CHR ''+'' then cs else s | [] \<Rightarrow> [])
      in if t = [] \<or> \<not> list_all is_digit t then None
         else if digits_val t < limit then Some (digits_val t) else None)"

abbreviation parse_u32 :: "string \<Rightarrow> u32 option" where
  "parse_u32 \<equiv> parse_unsigned u32_limit"

abbreviation parse_u64 :: "string \<Rightarrow> u64 option" where
  "parse_u64 \<equiv> parse_unsigned u64_limit"

lemma ord_of_char_of [simp]: "n < 256 \<Longrightarrow> ord_of (char_of n) = n"
  by (simp add: ord_of_def)

lemma digit_char_props [simp]:
  assumes "d < 10"
  shows "is_digit (digit_char d)" and "digit_val (digit_char d) = d"
  using assms by (simp_all add: is_digit_def digit_val_def digit_char_def)

lemma show_nat_nonempty [simp]: "show_nat n \<noteq> []"
  by (subst show_nat.simps) simp

lemma show_nat_digits: "list_all is_digit (show_nat n)"
proof (induction n rule: show_nat.induct)
  case (1 n)
  then show ?case by (subst show_nat.simps) (auto simp: list_all_iff)
qed

lemma digits_val_snoc [simp]: "digits_val (s @ [c]) = digits_val s * 10 + digit_val c"
  by (simp add: digits_val_def)

lemma digits_val_show_nat [simp]: "digits_val (show_nat n) = n"
proof (induction n rule: show_nat.induct)
  case (1 n)
  show ?case
  proof (cases "n < 10")
    case True
    then show ?thesis by (subst show_nat.simps) (simp add: digits_val_def)
  next
    case False
    with 1 show ?thesis by (subst show_nat.simps) simp
  qed
qed

lemma not_digit_plus [simp]: "\<not> is_digit CHR ''+''"
  by (simp add: is_digit_def ord_of_def)

lemma parse_show_nat [simp]: "n < limit \<Longrightarrow> parse_unsigned limit (show_nat n) = Some n"
proof -
  assume n: "n < limit"
  obtain c cs where c: "show_nat n = c # cs" by (cases "show_nat n") auto
  with show_nat_digits [of n] have "is_digit c" by simp
  then have "c \<noteq> CHR ''+''" by auto
  with n c show_nat_digits [of n] digits_val_show_nat [of n] show ?thesis
    by (simp add: parse_unsigned_def)
qed

lemma parse_unsigned_bound: "parse_unsigned limit s = Some n \<Longrightarrow> n < limit"
  by (auto simp: parse_unsigned_def Let_def split: if_splits)

lemma show_nat_inj: "show_nat m = show_nat n \<Longrightarrow> m = n"
  using digits_val_show_nat by metis

text \<open>Evaluation of the string helpers on literals: \<open>simp add: str_eval\<close>.\<close>

named_theorems str_eval \<open>evaluation of string functions on literals\<close>

lemmas str_eval_prelude [str_eval] = is_digit_def is_upper_def is_lower_def is_alpha_def
  is_alnum_def is_hexdigit_def to_upper_def to_lower_def is_space_def str_trim_def
  starts_with_def ends_with_def strip_prefix_def strip_suffix_def rsplit_once_def ord_of_def
  digit_val_def digits_val_def parse_unsigned_def digit_char_def show_nat.simps Let_def

end
