(* ===== verification/Addresses.thy ===== *)
theory Addresses
  imports Prelude "HOL-Library.Word"
begin

text \<open>
  A1 addresses and identifiers: the two column-name printers (\<open>utils.rs\<close>,
  \<open>core/write_planner.rs\<close>), the diff engine's \<open>CellAddress\<close> (\<open>diff/address.rs\<close>), the
  planner's coordinate and region parsers, the field validators of the canonical write
  request (\<open>canonical_write.rs\<close>) and the workbook id encoder (\<open>utils.rs\<close>).

  The umya-spreadsheet function \<open>column_index_from_string\<close> is third party: it is the
  argument \<open>cidx\<close> of the validators.
\<close>

unbundle bit_operations_syntax

section \<open>Printing columns and cells\<close>

text \<open>\<open>utils.rs\<close>: the loop inserts each letter at the front.\<close>

fun column_name_loop :: "u32 \<Rightarrow> string \<Rightarrow> string" where
  "column_name_loop column name =
     (if 0 < column
      then column_name_loop ((column - 1) div 26) (char_of (65 + (column - 1) mod 26) # name)
      else name)"

declare column_name_loop.simps [simp del]

definition column_number_to_name :: "u32 \<Rightarrow> string" where
  "column_number_to_name column = column_name_loop column []"

definition cell_address :: "u32 \<Rightarrow> u32 \<Rightarrow> string" where
  "cell_address column row = column_number_to_name column @ show_nat row"

text \<open>\<open>core/write_planner.rs\<close>: the letters are pushed and reversed at the end.\<close>

fun planner_column_chars :: "u32 \<Rightarrow> string \<Rightarrow> string" where
  "planner_column_chars col chars =
     (if 0 < col
      then planner_column_chars ((col - 1) div 26) (chars @ [char_of (65 + (col - 1) mod 26)])
      else chars)"

declare planner_column_chars.simps [simp del]

definition planner_column_number_to_name :: "u32 \<Rightarrow> string" where
  "planner_column_number_to_name col = rev (planner_column_chars col [])"

definition format_a1_range :: "u32 \<Rightarrow> u32 \<Rightarrow> u32 \<Rightarrow> u32 \<Rightarrow> string" where
  "format_a1_range start_col end_col start_row end_row =
     (let start = planner_column_number_to_name start_col @ show_nat start_row;
          fin = planner_column_number_to_name end_col @ show_nat end_row
      in if start = fin then start else start @ '':'' @ fin)"

section \<open>The diff engine's cell address\<close>

record cell_addr =
  ca_col :: u32
  ca_row :: u32
  ca_original :: string

fun col_from_letters_loop :: "u32 \<Rightarrow> string \<Rightarrow> u32 option" where
  "col_from_letters_loop col [] = Some col"
| "col_from_letters_loop col (c # cs) =
     (if \<not> is_alpha c then None
      else col_from_letters_loop
             (u32_wrapping_add (u32_wrapping_mul col 26) (ord_of (to_upper c) - 65 + 1)) cs)"

definition col_from_letters :: "string \<Rightarrow> u32 option" where
  "col_from_letters s = col_from_letters_loop 0 s"

definition cell_addr_parse :: "string \<Rightarrow> cell_addr option" where
  "cell_addr_parse s =
     (if \<not> list_ex is_digit s then None
      else let col_str = takeWhile (\<lambda>c. \<not> is_digit c) s;
               row_str = dropWhile (\<lambda>c. \<not> is_digit c) s
           in case parse_u32 row_str of
                None \<Rightarrow> None
              | Some row \<Rightarrow> (case col_from_letters col_str of
                  None \<Rightarrow> None
                | Some col \<Rightarrow> Some \<lparr>ca_col = col, ca_row = row, ca_original = s\<rparr>))"

datatype ordering = Less | Equal | Greater

definition u32_cmp :: "u32 \<Rightarrow> u32 \<Rightarrow> ordering" where
  "u32_cmp a b = (if a < b then Less else if a = b then Equal else Greater)"

definition cell_addr_cmp :: "cell_addr \<Rightarrow> cell_addr \<Rightarrow> ordering" where
  "cell_addr_cmp a b =
     (case u32_cmp (ca_row a) (ca_row b) of
        Equal \<Rightarrow> u32_cmp (ca_col a) (ca_col b)
      | ord \<Rightarrow> ord)"

section \<open>The planner's coordinates\<close>

fun append_coord_scan :: "string \<Rightarrow> string \<Rightarrow> string \<Rightarrow> (string \<times> string) option" where
  "append_coord_scan letters digits [] = Some (letters, digits)"
| "append_coord_scan letters digits (ch # cs) =
     (if ch = CHR ''$'' then append_coord_scan letters digits cs
      else if is_alpha ch then
        (if digits \<noteq> [] then None
         else append_coord_scan (letters @ [to_upper ch]) digits cs)
      else if is_digit ch then append_coord_scan letters (digits @ [ch]) cs
      else None)"

definition letters_col :: "string \<Rightarrow> u32" where
  "letters_col letters =
     foldl (\<lambda>col ch. u32_saturating_add (u32_saturating_mul col 26) (ord_of ch - 65 + 1)) 0 letters"

definition parse_append_coord :: "string \<Rightarrow> (u32 \<times> u32) option" where
  "parse_append_coord raw =
     (let coord = dropWhile (\<lambda>c. c = CHR ''$'') (str_trim raw)
      in if coord = [] then None
         else case append_coord_scan [] [] coord of
           None \<Rightarrow> None
         | Some (letters, digits) \<Rightarrow>
             if letters = [] \<or> digits = [] then None
             else let col = letters_col letters
                  in case parse_u32 digits of
                       None \<Rightarrow> None
                     | Some row \<Rightarrow> if 0 < col \<and> 0 < row then Some (col, row) else None)"

record append_bounds =
  ab_start_col :: u32
  ab_end_col :: u32
  ab_start_row :: u32
  ab_end_row :: u32

definition parse_append_region_bounds :: "string \<Rightarrow> append_bounds option" where
  "parse_append_region_bounds raw =
     (let (left, right) = (case split_once CHR '':'' raw of None \<Rightarrow> (raw, raw) | Some p \<Rightarrow> p)
      in case parse_append_coord left of
           None \<Rightarrow> None
         | Some (start_col, start_row) \<Rightarrow> (case parse_append_coord right of
             None \<Rightarrow> None
           | Some (end_col, end_row) \<Rightarrow>
               Some \<lparr>ab_start_col = min start_col end_col, ab_end_col = max start_col end_col,
                     ab_start_row = min start_row end_row, ab_end_row = max start_row end_row\<rparr>))"

section \<open>Field validators of the write request\<close>

text \<open>The number of characters of a UTF-8 string: its bytes less the continuation bytes.\<close>

definition utf8_count :: "string \<Rightarrow> nat" where
  "utf8_count s = length (filter (\<lambda>c. \<not> (128 \<le> ord_of c \<and> ord_of c < 192)) s)"

definition trim_matches :: "char \<Rightarrow> string \<Rightarrow> string" where
  "trim_matches c s = rev (dropWhile (\<lambda>x. x = c) (rev (dropWhile (\<lambda>x. x = c) s)))"

definition validate_sheet_name :: "string \<Rightarrow> unit res" where
  "validate_sheet_name value =
     (if value = [] \<or> 31 < utf8_count value
         \<or> list_ex (\<lambda>ch. ch \<in> set (CHR 0x5C # ''[]:*?/'')) value
         \<or> starts_with value [CHR 0x27] \<or> ends_with value [CHR 0x27]
      then Inl (Bail ''invalid sheet name'') else Inr ())"

definition parse_cell_ref :: "(string \<Rightarrow> u32) \<Rightarrow> string \<Rightarrow> (u32 \<times> u32) res" where
  "parse_cell_ref cidx raw =
     (let value = filter (\<lambda>c. c \<noteq> CHR ''$'') (str_trim raw)
      in if \<not> list_ex is_digit value then Inl (Bail ''invalid cell reference'')
         else let column = takeWhile (\<lambda>c. \<not> is_digit c) value;
                  row = dropWhile (\<lambda>c. \<not> is_digit c) value
              in if column = [] \<or> row = [] \<or> \<not> list_all is_alpha column
                 then Inl (Bail ''invalid cell reference'')
                 else case parse_u32 row of
                        None \<Rightarrow> Inl (Bail ''invalid cell reference'')
                      | Some r \<Rightarrow>
                          if cidx column = 0 \<or> r = 0 then Inl (Bail ''invalid cell reference'')
                          else Inr (cidx column, r))"

definition validate_cell :: "(string \<Rightarrow> u32) \<Rightarrow> string \<Rightarrow> unit res" where
  "validate_cell cidx value =
     bind_res (parse_cell_ref cidx value) (\<lambda>(column, row).
       if 16384 < column \<or> 1048576 < row
       then Inl (Bail ''cell reference exceeds XLSX grid bounds'') else Inr ())"

definition validate_column :: "(string \<Rightarrow> u32) \<Rightarrow> string \<Rightarrow> unit res" where
  "validate_column cidx raw =
     (let value = trim_matches CHR ''$'' (str_trim raw)
      in if value = [] \<or> \<not> list_all is_alpha value then Inl (Bail ''invalid column'')
         else let index = cidx value
              in if index = 0 \<or> 16384 < index
                 then Inl (Bail ''column exceeds XLSX grid bounds'') else Inr ())"

definition validate_column_range :: "(string \<Rightarrow> u32) \<Rightarrow> string \<Rightarrow> unit res" where
  "validate_column_range cidx value =
     (let (start, fin) = (case split_once CHR '':'' value of None \<Rightarrow> (value, value) | Some p \<Rightarrow> p)
      in bind_res (validate_column cidx start) (\<lambda>_.
         bind_res (validate_column cidx fin) (\<lambda>_.
           if cidx (trim_matches CHR ''$'' fin) < cidx (trim_matches CHR ''$'' start)
           then Inl (Bail ''column range must be ascending'') else Inr ())))"

definition validate_range :: "(string \<Rightarrow> u32) \<Rightarrow> string \<Rightarrow> unit res" where
  "validate_range cidx value =
     (let bare = (case rsplit_once CHR ''!'' value of None \<Rightarrow> value | Some (_, rng) \<Rightarrow> rng);
          parts = split_on CHR '':'' bare
      in if list_all (\<lambda>part. list_all is_alpha (trim_matches CHR ''$'' part)) parts
         then validate_column_range cidx bare
         else let start = hd parts;
                  fin = (case tl parts of [] \<Rightarrow> start | e # _ \<Rightarrow> e)
              in if 2 < length parts then Inl (Bail ''invalid A1 range'')
                 else bind_res (validate_cell cidx start) (\<lambda>_.
                      bind_res (validate_cell cidx fin) (\<lambda>_.
                      bind_res (parse_cell_ref cidx start) (\<lambda>(start_col, start_row).
                      bind_res (parse_cell_ref cidx fin) (\<lambda>(end_col, end_row).
                        if end_col < start_col \<or> end_row < start_row
                        then Inl (Bail ''range must be ascending'') else Inr ())))))"

definition validate_defined_name :: "(string \<Rightarrow> u32) \<Rightarrow> string \<Rightarrow> unit res" where
  "validate_defined_name cidx raw =
     (let value = str_trim raw
      in if value = [] \<or> 255 < length value
         then Inl (Bail ''defined name must contain 1..=255 bytes'')
         else let first = hd value; chars = tl value
              in if \<not> (is_alpha first \<or> first = CHR ''_'' \<or> first = CHR 0x5C)
                    \<or> \<not> list_all (\<lambda>ch. is_alnum ch \<or> ch = CHR ''_'' \<or> ch = CHR ''.'' \<or> ch = CHR 0x5C) chars
                    \<or> is_ok (parse_cell_ref cidx value)
                 then Inl (Bail ''invalid defined name'') else Inr ())"

definition validate_row_range :: "string \<Rightarrow> unit res" where
  "validate_row_range value =
     bind_res (ok_or (split_once CHR '':'' value) ''row range must use START:END notation'') (\<lambda>(s, e).
     bind_res (ok_or (parse_u32 s) ''invalid digit'') (\<lambda>start.
     bind_res (ok_or (parse_u32 e) ''invalid digit'') (\<lambda>fin.
       if start = 0 \<or> fin < start \<or> 1048576 < fin
       then Inl (Bail ''invalid row range'') else Inr ())))"

section \<open>Workbook identifiers\<close>

definition short_id_alphabet :: string where
  "short_id_alphabet = ''23456789abcdefghijkmnpqrstuvwxyz''"

text \<open>The shift amount is a \<open>usize\<close>; the caller asks for ten characters.\<close>

definition encode_base32_u64_prefix :: "64 word \<Rightarrow> nat \<Rightarrow> string" where
  "encode_base32_u64_prefix value len =
     map (\<lambda>i. short_id_alphabet ! unat (drop_bit (64 - (i + 1) * 5) value AND 31)) [0..<len]"

definition workbook_id_from_digest :: "64 word \<Rightarrow> string" where
  "workbook_id_from_digest value = ''wb-'' @ encode_base32_u64_prefix value 10"

definition make_short_workbook_id :: "string \<Rightarrow> string \<Rightarrow> string" where
  "make_short_workbook_id slug canonical_id =
     (case strip_prefix canonical_id ''wb-'' of None \<Rightarrow> canonical_id | Some rest \<Rightarrow> rest)"

definition path_to_forward_slashes :: "string \<Rightarrow> string" where
  "path_to_forward_slashes raw =
     (if CHR 0x5C \<in> set raw then map (\<lambda>c. if c = CHR 0x5C then CHR ''/'' else c) raw else raw)"

section \<open>Column names: one value, two printers, three readers\<close>

text \<open>The bijective base-26 value of a string of capital letters.\<close>

definition col_value :: "string \<Rightarrow> nat" where
  "col_value s = foldl (\<lambda>a c. a * 26 + (ord_of c - 65 + 1)) 0 s"

lemma col_value_snoc [simp]: "col_value (s @ [c]) = col_value s * 26 + (ord_of c - 65 + 1)"
  by (simp add: col_value_def)

text \<open>The reference definition both printers implement.\<close>

fun col_name :: "nat \<Rightarrow> string" where
  "col_name n = (if 0 < n then col_name ((n - 1) div 26) @ [char_of (65 + (n - 1) mod 26)] else [])"

declare col_name.simps [simp del]

lemma col_name_pos:
  "0 < n \<Longrightarrow> col_name n = col_name ((n - 1) div 26) @ [char_of (65 + (n - 1) mod 26)]"
  by (simp add: col_name.simps [of n])

lemma col_name_0 [simp]: "col_name 0 = []"
  by (simp add: col_name.simps)

lemma column_name_loop_eq: "column_name_loop n acc = col_name n @ acc"
proof (induction n acc rule: column_name_loop.induct)
  case (1 n acc)
  then show ?case
    by (cases "0 < n")
      (simp_all add: column_name_loop.simps [of n acc] column_name_loop.simps [of 0 acc] col_name_pos)
qed

lemma planner_column_chars_eq: "planner_column_chars n acc = acc @ rev (col_name n)"
proof (induction n acc rule: planner_column_chars.induct)
  case (1 n acc)
  then show ?case
    by (cases "0 < n")
      (simp_all add: planner_column_chars.simps [of n acc] planner_column_chars.simps [of 0 acc]
        col_name_pos)
qed

lemma column_number_to_name_eq [simp]: "column_number_to_name n = col_name n"
  by (simp add: column_number_to_name_def column_name_loop_eq)

lemma planner_column_number_to_name_eq [simp]: "planner_column_number_to_name n = col_name n"
  by (simp add: planner_column_number_to_name_def planner_column_chars_eq)

lemma letter_ord [simp]: "d < 26 \<Longrightarrow> ord_of (char_of (65 + d)) = 65 + d"
  by simp

lemma col_name_upper: "list_all is_upper (col_name n)"
proof (induction n rule: col_name.induct)
  case (1 n)
  show ?case
  proof (cases "0 < n")
    case True
    have "(n - 1) mod 26 < 26" by simp
    then have "is_upper (char_of (65 + (n - 1) mod 26))" by (simp add: is_upper_def)
    with 1 True show ?thesis by (simp add: col_name_pos)
  qed simp
qed

lemma col_value_col_name [simp]: "col_value (col_name n) = n"
proof (induction n rule: col_name.induct)
  case (1 n)
  show ?case
  proof (cases "0 < n")
    case True
    have m: "(n - 1) mod 26 < 26" by simp
    have "col_value (col_name n) = ((n - 1) div 26) * 26 + ((n - 1) mod 26 + 1)"
      using 1 True m by (simp add: col_name_pos)
    also have "\<dots> = n" using True div_mult_mod_eq [of "n - 1" 26] by linarith
    finally show ?thesis .
  qed (simp add: col_value_def)
qed

lemma col_name_eq_Nil [simp]: "col_name n = [] \<longleftrightarrow> n = 0"
  by (cases "n = 0") (simp_all add: col_name_pos)

lemma col_name_inj: "col_name m = col_name n \<Longrightarrow> m = n"
  by (metis col_value_col_name)

subsection \<open>Character classes\<close>

lemma upper_alpha: "is_upper c \<Longrightarrow> is_alpha c"
  by (simp add: is_alpha_def)

lemma upper_not_digit: "is_upper c \<Longrightarrow> \<not> is_digit c"
  by (simp add: is_upper_def is_digit_def)

lemma alpha_not_digit: "is_alpha c \<Longrightarrow> \<not> is_digit c"
  by (auto simp: is_alpha_def is_upper_def is_lower_def is_digit_def)

lemma to_upper_upper [simp]: "is_upper c \<Longrightarrow> to_upper c = c"
  by (simp add: is_upper_def is_lower_def to_upper_def)

lemma class_of_special [simp]:
  "\<not> is_alpha CHR ''$''" "\<not> is_digit CHR ''$''" "\<not> is_alpha CHR '':''" "\<not> is_digit CHR '':''"
  "\<not> is_space CHR ''$''" "\<not> is_upper CHR ''$''" "\<not> is_upper CHR '':''"
  by (simp_all add: is_alpha_def is_upper_def is_lower_def is_digit_def is_space_def ord_of_def)

lemma upper_not_space: "is_upper c \<Longrightarrow> \<not> is_space c"
  by (simp add: is_upper_def is_space_def)

lemma digit_not_space: "is_digit c \<Longrightarrow> \<not> is_space c"
  by (simp add: is_digit_def is_space_def)

lemma dropWhile_none: "list_all (\<lambda>c. \<not> p c) s \<Longrightarrow> dropWhile p s = s"
  by (cases s) auto

lemma str_trim_none: "list_all (\<lambda>c. \<not> is_space c) s \<Longrightarrow> str_trim s = s"
  by (simp add: str_trim_def dropWhile_none list_all_iff)

lemma takeWhile_col_name_digits:
  assumes "list_all is_digit ds" and "ds \<noteq> []"
  shows "takeWhile (\<lambda>c. \<not> is_digit c) (col_name n @ ds) = col_name n"
    and "dropWhile (\<lambda>c. \<not> is_digit c) (col_name n @ ds) = ds"
proof -
  have "\<forall>c \<in> set (col_name n). \<not> is_digit c"
    using col_name_upper [of n] by (auto simp: list_all_iff upper_not_digit)
  moreover obtain d ds' where "ds = d # ds'" and "is_digit d" using assms by (cases ds) auto
  ultimately show "takeWhile (\<lambda>c. \<not> is_digit c) (col_name n @ ds) = col_name n"
    and "dropWhile (\<lambda>c. \<not> is_digit c) (col_name n @ ds) = ds"
    by auto
qed

subsection \<open>Reading a printed column back\<close>

abbreviation letter_step :: "nat \<Rightarrow> char \<Rightarrow> nat" where
  "letter_step a c \<equiv> a * 26 + (ord_of c - 65 + 1)"

lemma letter_step_mod: "letter_step (a mod m) c mod m = letter_step a c mod m"
  by (metis mod_add_left_eq mod_mult_left_eq)

lemma foldl_letter_mod: "foldl letter_step (a mod m) s mod m = foldl letter_step a s mod m"
proof (induction s rule: rev_induct)
  case (snoc x xs)
  then show ?case by (simp only: foldl_append foldl_Cons foldl_Nil) (metis letter_step_mod)
qed simp

lemma u32_letter_step:
  "u32_wrapping_add (u32_wrapping_mul a 26) d = (a * 26 + d) mod u32_limit"
  by (simp only: u32_wrapping_add_def u32_wrapping_mul_def mod_add_left_eq)

lemma col_from_letters_loop_mod:
  assumes "list_all is_upper s" and "a < u32_limit"
  shows "col_from_letters_loop a s = Some (foldl letter_step a s mod u32_limit)"
  using assms
proof (induction s arbitrary: a)
  case Nil
  then show ?case by simp
next
  case (Cons c s)
  have "col_from_letters_loop a (c # s)
      = col_from_letters_loop (letter_step a c mod u32_limit) s"
    using Cons.prems by (simp only: col_from_letters_loop.simps list.pred_inject u32_letter_step
        to_upper_upper upper_alpha not_True_eq_False if_False)
  also have "\<dots> = Some (foldl letter_step (letter_step a c mod u32_limit) s mod u32_limit)"
    using Cons.prems(1) by (intro Cons.IH) simp_all
  finally show ?case by (simp only: foldl_letter_mod foldl_Cons)
qed

lemma col_from_letters_col_name:
  "n < u32_limit \<Longrightarrow> col_from_letters (col_name n) = Some n"
  using col_from_letters_loop_mod [OF col_name_upper, of 0 n] col_value_col_name [of n]
  by (simp add: col_from_letters_def col_value_def)

lemma letters_col_exact: "col_value s < u32_limit \<Longrightarrow> letters_col s = col_value s"
proof (induction s rule: rev_induct)
  case Nil
  then show ?case by (simp add: letters_col_def col_value_def)
next
  case (snoc c s)
  then have "col_value s < u32_limit" by simp
  with snoc have "letters_col s = col_value s" by simp
  with snoc.prems show ?case
    by (simp add: letters_col_def u32_saturating_add_def u32_saturating_mul_def)
qed

lemma letters_col_name: "n < u32_limit \<Longrightarrow> letters_col (col_name n) = n"
  by (simp add: letters_col_exact)

lemma append_coord_scan_digits:
  "list_all is_digit ds \<Longrightarrow> append_coord_scan letters digits ds = Some (letters, digits @ ds)"
proof (induction ds arbitrary: digits)
  case (Cons d ds)
  then have "d \<noteq> CHR ''$''" and "\<not> is_alpha d"
    using alpha_not_digit class_of_special(2) by auto
  with Cons show ?case by simp
qed simp

lemma append_coord_scan_letters:
  "list_all is_upper ls \<Longrightarrow>
   append_coord_scan letters [] (ls @ rest) = append_coord_scan (letters @ ls) [] rest"
proof (induction ls arbitrary: letters)
  case (Cons c ls)
  then have "c \<noteq> CHR ''$''" and "is_alpha c"
    using upper_alpha class_of_special(1) by auto
  with Cons show ?case by simp
qed simp

lemma cell_text_not_space: "list_all (\<lambda>c. \<not> is_space c) (col_name c @ show_nat r)"
  using col_name_upper [of c] show_nat_digits [of r]
  by (auto simp: list_all_iff upper_not_space digit_not_space)

lemma cell_text_no_sep: "CHR '':'' \<notin> set (col_name c @ show_nat r)"
  and cell_text_no_lock: "CHR ''$'' \<notin> set (col_name c @ show_nat r)"
  using col_name_upper [of c] show_nat_digits [of r] class_of_special
  by (auto simp: list_all_iff dest: upper_alpha)

lemma parse_append_coord_cell:
  assumes "0 < c" "c < u32_limit" "0 < r" "r < u32_limit"
  shows "parse_append_coord (col_name c @ show_nat r) = Some (c, r)"
proof -
  let ?s = "col_name c @ show_nat r"
  have trim: "str_trim ?s = ?s" by (rule str_trim_none [OF cell_text_not_space])
  have unlocked: "dropWhile (\<lambda>c. c = CHR ''$'') ?s = ?s"
    using cell_text_no_lock [of c r] by (intro dropWhile_none) (auto simp: list_all_iff)
  have scan: "append_coord_scan [] [] ?s = Some (col_name c, show_nat r)"
    by (simp add: append_coord_scan_letters [OF col_name_upper]
        append_coord_scan_digits [OF show_nat_digits])
  show ?thesis using assms
    by (simp add: parse_append_coord_def Let_def trim unlocked scan letters_col_name)
qed

lemma cell_addr_parse_cell:
  assumes "c < u32_limit" "r < u32_limit"
  shows "cell_addr_parse (col_name c @ show_nat r)
    = Some \<lparr>ca_col = c, ca_row = r, ca_original = col_name c @ show_nat r\<rparr>"
proof -
  have "list_ex is_digit (col_name c @ show_nat r)"
    using show_nat_digits [of r] show_nat_nonempty [of r] by (cases "show_nat r") auto
  with assms show ?thesis
    by (simp add: cell_addr_parse_def takeWhile_col_name_digits [OF show_nat_digits show_nat_nonempty]
        col_from_letters_col_name)
qed



lemma region_of_corners:
  assumes a: "parse_append_coord a = Some (sc, sr)" and b: "parse_append_coord b = Some (ec, er)"
    and sep: "CHR '':'' \<notin> set a" and "sc \<le> ec" "sr \<le> er"
  shows "parse_append_region_bounds (if a = b then a else a @ CHR '':'' # b)
    = Some \<lparr>ab_start_col = sc, ab_end_col = ec, ab_start_row = sr, ab_end_row = er\<rparr>"
proof (cases "a = b")
  case True
  with a b have "sc = ec" "sr = er" by auto
  with True a sep show ?thesis
    by (simp add: parse_append_region_bounds_def split_once_None [THEN iffD2])
next
  case False
  with assms show ?thesis
    by (simp add: parse_append_region_bounds_def split_once_append min_def max_def)
qed

text \<open>A region printed by \<open>format_a1_range\<close> from ordered corners is read back by
  \<open>parse_append_region_bounds\<close> as the same rectangle, also when the two corners coincide and
  only one cell is printed.\<close>

theorem region_bounds_roundtrip:
  assumes "0 < sc" "sc \<le> ec" "ec < u32_limit" "0 < sr" "sr \<le> er" "er < u32_limit"
  shows "parse_append_region_bounds (format_a1_range sc ec sr er)
    = Some \<lparr>ab_start_col = sc, ab_end_col = ec, ab_start_row = sr, ab_end_row = er\<rparr>"
proof -
  have "format_a1_range sc ec sr er =
    (if col_name sc @ show_nat sr = col_name ec @ show_nat er then col_name sc @ show_nat sr
     else (col_name sc @ show_nat sr) @ CHR '':'' # col_name ec @ show_nat er)"
    by (simp add: format_a1_range_def)
  moreover have "parse_append_coord (col_name sc @ show_nat sr) = Some (sc, sr)"
    and "parse_append_coord (col_name ec @ show_nat er) = Some (ec, er)"
    using assms by (auto intro!: parse_append_coord_cell)
  ultimately show ?thesis
    using assms(2,5) by (simp only: region_of_corners [OF _ _ cell_text_no_sep])
qed

lemma region_bounds_roundtrip_witness:
  "parse_append_region_bounds (format_a1_range 2 28 3 40)
    = Some \<lparr>ab_start_col = 2, ab_end_col = 28, ab_start_row = 3, ab_end_row = 40\<rparr>"
  by (rule region_bounds_roundtrip) simp_all

section \<open>What an accepted range means\<close>

lemma validate_cell_ok:
  "validate_cell cidx v = Inr () \<longleftrightarrow>
     (\<exists>c r. parse_cell_ref cidx v = Inr (c, r) \<and> c \<le> 16384 \<and> r \<le> 1048576)"
  by (cases "parse_cell_ref cidx v") (auto simp: validate_cell_def split: if_splits)

lemma parse_cell_ref_pos: "parse_cell_ref cidx v = Inr (c, r) \<Longrightarrow> 0 < c \<and> 0 < r"
  by (auto simp: parse_cell_ref_def Let_def split: if_splits option.splits)

text \<open>C37: when the write validator accepts an A1 range that is not a pure column range, the
  range has one or two corners, both parse to positive coordinates inside the XLSX grid
  (16384 columns, 1048576 rows), and they are in ascending order, whatever the third-party
  column index function returns.\<close>

theorem validate_range_sound:
  assumes "validate_range cidx value = Inr ()"
    and "parts = split_on CHR '':'' (case rsplit_once CHR ''!'' value of None \<Rightarrow> value | Some (_, rng) \<Rightarrow> rng)"
    and "\<not> list_all (\<lambda>part. list_all is_alpha (trim_matches CHR ''$'' part)) parts"
  shows "\<exists>c1 r1 c2 r2. parse_cell_ref cidx (hd parts) = Inr (c1, r1)
    \<and> parse_cell_ref cidx (last parts) = Inr (c2, r2) \<and> length parts \<le> 2
    \<and> 0 < c1 \<and> c1 \<le> c2 \<and> c2 \<le> 16384 \<and> 0 < r1 \<and> r1 \<le> r2 \<and> r2 \<le> 1048576"
proof -
  define fin where "fin = (case tl parts of [] \<Rightarrow> hd parts | e # _ \<Rightarrow> e)"
  from assms have len: "length parts \<le> 2"
    and start: "validate_cell cidx (hd parts) = Inr ()" and last: "validate_cell cidx fin = Inr ()"
    and asc: "bind_res (parse_cell_ref cidx (hd parts)) (\<lambda>(start_col, start_row).
              bind_res (parse_cell_ref cidx fin) (\<lambda>(end_col, end_row).
                if end_col < start_col \<or> end_row < start_row
                then Inl (Bail ''range must be ascending'') else Inr ())) = Inr ()"
    unfolding validate_range_def Let_def fin_def
    by (auto simp: bind_res_Inr split: if_splits)
  have "parts \<noteq> []" using assms(2) by simp
  with len have "fin = last parts"
    by (cases parts; cases "tl parts") (auto simp: fin_def)
  with start last asc show ?thesis
    by (auto simp: validate_cell_ok bind_res_Inr len dest: parse_cell_ref_pos split: if_splits)
qed

lemma validate_range_sound_witness:
  "\<exists>c1 r1 c2 r2. parse_cell_ref col_value (hd [''B2'', ''C10'']) = Inr (c1, r1)
    \<and> parse_cell_ref col_value (last [''B2'', ''C10'']) = Inr (c2, r2) \<and> length [''B2'', ''C10''] \<le> 2
    \<and> 0 < c1 \<and> c1 \<le> c2 \<and> c2 \<le> 16384 \<and> 0 < r1 \<and> r1 \<le> r2 \<and> r2 \<le> 1048576"
proof (rule validate_range_sound [of col_value "''Data!B2:C10''"])
  show "validate_range col_value ''Data!B2:C10'' = Inr ()"
    by (simp add: validate_range_def validate_cell_def parse_cell_ref_def trim_matches_def
        col_value_def str_eval)
  show "[''B2'', ''C10''] = split_on CHR '':''
    (case rsplit_once CHR ''!'' ''Data!B2:C10'' of None \<Rightarrow> ''Data!B2:C10'' | Some (_, rng) \<Rightarrow> rng)"
    by code_simp
  show "\<not> list_all (\<lambda>part. list_all is_alpha (trim_matches CHR ''$'' part)) [''B2'', ''C10'']"
    by code_simp
qed

section \<open>Workbook identifiers name the top fifty bits of the digest\<close>

lemma alphabet_length: "length short_id_alphabet = 32"
  and alphabet_distinct: "distinct short_id_alphabet"
  by (simp_all add: short_id_alphabet_def)

lemma alphabet_nth_inj:
  fixes x y :: "64 word"
  shows "short_id_alphabet ! unat (x AND 31) = short_id_alphabet ! unat (y AND 31)
    \<longleftrightarrow> x AND 31 = y AND 31"
proof -
  have "unat (z AND 31) < 32" for z :: "64 word"
    using word_and_le1 [of z 31] by (simp add: word_le_nat_alt)
  then show ?thesis
    using nth_eq_iff_index_eq [OF alphabet_distinct]
    by (simp add: alphabet_length word_unat_eq_iff)
qed

lemma mask5_bit: "bit (x AND 31 :: 64 word) j \<longleftrightarrow> j < 5 \<and> bit x j"
proof -
  have "(31 :: 64 word) = mask 5" by (simp add: mask_eq_exp_minus_1)
  then have "bit (x AND 31) j = bit (x AND mask 5) j" by (simp only:)
  then show ?thesis
    by (simp only: bit_and_iff bit_mask_iff possible_bit_word) (auto dest: bit_imp_le_length)
qed

text \<open>Two workbook digests get the same \<open>wb-\<close> identifier exactly when their first fifty
  bits agree: the ten base-32 characters lose nothing of the bits they encode, and the short
  form strips the prefix again.\<close>

theorem workbook_id_from_digest_eq_iff:
  "(workbook_id_from_digest v = workbook_id_from_digest w
     \<longleftrightarrow> drop_bit 14 v = drop_bit 14 w)
   \<and> make_short_workbook_id slug (workbook_id_from_digest v) = encode_base32_u64_prefix v 10"
proof -
  have chars: "workbook_id_from_digest v = workbook_id_from_digest w \<longleftrightarrow>
      (\<forall>i < 10. drop_bit (64 - (i + 1) * 5) v AND 31 = drop_bit (64 - (i + 1) * 5) w AND 31)"
    by (simp only: workbook_id_from_digest_def encode_base32_u64_prefix_def same_append_eq
        map_eq_conv alphabet_nth_inj set_upt atLeast0LessThan Ball_def lessThan_iff)
  have bits: "(\<forall>i < 10. drop_bit (64 - (i + 1) * 5) v AND 31 = drop_bit (64 - (i + 1) * 5) w AND 31)
      \<longleftrightarrow> drop_bit 14 v = drop_bit 14 w"
  proof
    assume eq: "\<forall>i < 10. drop_bit (64 - (i + 1) * 5) v AND 31 = drop_bit (64 - (i + 1) * 5) w AND 31"
    show "drop_bit 14 v = drop_bit 14 w"
    proof (rule bit_word_eqI)
      fix n assume "n < LENGTH(64)"
      show "bit (drop_bit 14 v) n = bit (drop_bit 14 w) n"
      proof (cases "n < 50")
        case True
        define q where "q = n div 5"
        define j where "j = n mod 5"
        define i where "i = 9 - q"
        have n: "n = 5 * q + j" and j: "j < 5" by (simp_all add: q_def j_def)
        with True have "q \<le> 9" by simp
        then have i: "i < 10" and pos: "64 - (i + 1) * 5 + j = 14 + n"
          by (simp_all add: i_def n)
        from eq i have "bit (drop_bit (64 - (i + 1) * 5) v AND 31) j
            = bit (drop_bit (64 - (i + 1) * 5) w AND 31) j" by simp
        with j pos show ?thesis by (simp add: mask5_bit bit_drop_bit_eq)
      next
        case False
        then show ?thesis by (auto simp: bit_drop_bit_eq dest: bit_imp_le_length)
      qed
    qed
  next
    assume eq: "drop_bit 14 v = drop_bit 14 w"
    have same: "bit v m = bit w m" if "14 \<le> m" for m
      using arg_cong [OF eq, of "\<lambda>x. bit x (m - 14)"] that by (simp add: bit_drop_bit_eq)
    show "\<forall>i < 10. drop_bit (64 - (i + 1) * 5) v AND 31 = drop_bit (64 - (i + 1) * 5) w AND 31"
      by (auto intro!: bit_word_eqI simp: mask5_bit bit_drop_bit_eq same)
  qed
  have "make_short_workbook_id slug (workbook_id_from_digest v) = encode_base32_u64_prefix v 10"
    by (simp add: make_short_workbook_id_def workbook_id_from_digest_def strip_prefix_def
        starts_with_def)
  with chars bits show ?thesis by simp
qed

end
