(* ===== verification/BTree.thy ===== *)
theory BTree
  imports Prelude "HOL-Library.Product_Lexorder"
begin

text \<open>
  Rust's \<open>BTreeMap<K, V>\<close> as a list of entries in strictly ascending key order (byte-wise for
  strings, lexicographic for tuples), so that equality, length and iteration order are those of the
  map. The laws the components use are collected in the locale \<open>ordered_map\<close>, which is
  interpreted on these operations.
\<close>

type_synonym 'v btree = "(string \<times> 'v) list"

definition bt_get :: "('k \<times> 'v) list \<Rightarrow> 'k \<Rightarrow> 'v option" where
  "bt_get m k = map_of m k"

fun bt_insert :: "'k::linorder \<Rightarrow> 'v \<Rightarrow> ('k \<times> 'v) list \<Rightarrow> ('k \<times> 'v) list" where
  "bt_insert k v [] = [(k, v)]"
| "bt_insert k v ((k', v') # m) =
     (if k = k' then (k, v) # m
      else if k < k' then (k, v) # (k', v') # m
      else (k', v') # bt_insert k v m)"

definition bt_remove :: "'k \<Rightarrow> ('k \<times> 'v) list \<Rightarrow> ('k \<times> 'v) list" where
  "bt_remove k m = filter (\<lambda>(k', _). k' \<noteq> k) m"

definition bt_contains :: "('k \<times> 'v) list \<Rightarrow> 'k \<Rightarrow> bool" where
  "bt_contains m k = (bt_get m k \<noteq> None)"

definition bt_keys :: "('k \<times> 'v) list \<Rightarrow> 'k list" where
  "bt_keys m = map fst m"

definition bt_wf :: "('k::linorder \<times> 'v) list \<Rightarrow> bool" where
  "bt_wf m = sorted_wrt (<) (map fst m)"

section \<open>The interface\<close>

locale ordered_map =
  fixes get :: "'m \<Rightarrow> 'k::linorder \<Rightarrow> 'v option"
    and ins :: "'k \<Rightarrow> 'v \<Rightarrow> 'm \<Rightarrow> 'm"
    and del :: "'k \<Rightarrow> 'm \<Rightarrow> 'm"
    and keys :: "'m \<Rightarrow> 'k list"
    and wf :: "'m \<Rightarrow> bool"
  assumes get_ins: "get (ins k v m) = (get m)(k \<mapsto> v)"
    and get_del: "get (del k m) = (get m)(k := None)"
    and keys_dom: "set (keys m) = dom (get m)"
    and keys_sorted: "wf m \<Longrightarrow> sorted_wrt (<) (keys m)"
    and wf_ins: "wf m \<Longrightarrow> wf (ins k v m)"
    and wf_del: "wf m \<Longrightarrow> wf (del k m)"
    and ext: "wf m \<Longrightarrow> wf m' \<Longrightarrow> get m = get m' \<Longrightarrow> m = m'"
begin

lemma dom_ins: "dom (get (ins k v m)) = insert k (dom (get m))"
  by (simp add: get_ins)

lemma dom_del: "dom (get (del k m)) = dom (get m) - {k}"
  by (auto simp: get_del)

lemma ins_same: "wf m \<Longrightarrow> get m k = Some v \<Longrightarrow> ins k v m = m"
  by (rule ext) (auto simp: get_ins wf_ins)

lemma del_absent: "wf m \<Longrightarrow> get m k = None \<Longrightarrow> del k m = m"
  by (rule ext) (auto simp: get_del wf_del)

lemma del_ins: "wf m \<Longrightarrow> get m k = None \<Longrightarrow> del k (ins k v m) = m"
  by (rule ext) (auto simp: get_ins get_del wf_ins wf_del)

end

section \<open>The entry list keeps the laws\<close>

lemma map_of_bt_insert: "map_of (bt_insert k v m) = (map_of m)(k \<mapsto> v)"
  by (induction m rule: bt_insert.induct) (auto simp: fun_eq_iff)

lemma map_of_bt_remove: "map_of (bt_remove k m) = (map_of m)(k := None)"
  by (induction m) (auto simp: bt_remove_def fun_eq_iff)

lemma fst_set_bt_insert: "fst ` set (bt_insert k v m) = insert k (fst ` set m)"
  by (induction m rule: bt_insert.induct) auto

lemma bt_wf_Cons: "bt_wf ((k, v) # m) \<longleftrightarrow> (\<forall>x \<in> fst ` set m. k < x) \<and> bt_wf m"
  by (auto simp: bt_wf_def)

lemma bt_wf_insert: "bt_wf m \<Longrightarrow> bt_wf (bt_insert k v m)"
  by (induction m rule: bt_insert.induct)
    (auto simp: bt_wf_Cons fst_set_bt_insert bt_wf_def [of "[]"] dest: less_trans
      simp del: image_iff)

lemma bt_wf_remove: "bt_wf m \<Longrightarrow> bt_wf (bt_remove k m)"
  by (induction m) (auto simp: bt_wf_def bt_remove_def)

lemma bt_wf_distinct: "bt_wf m \<Longrightarrow> distinct (map fst m)"
  by (simp add: bt_wf_def strict_sorted_iff)

lemma bt_wf_ext:
  assumes "bt_wf m" "bt_wf m'" and "map_of m = map_of m'"
  shows "m = m'"
proof -
  from assms have same: "set m = set m'"
    by (simp add: map_of_inject_set [symmetric] bt_wf_distinct)
  have inj: "inj_on fst (set m)"
    using bt_wf_distinct [OF assms(1)] by (simp add: distinct_map)
  show ?thesis
    using assms(1,2) same inj
    by (intro map_sorted_distinct_set_unique [of fst])
      (auto simp: bt_wf_def strict_sorted_iff)
qed

interpretation bt: ordered_map bt_get bt_insert bt_remove bt_keys bt_wf
proof
  show "bt_get (bt_insert k v m) = (bt_get m)(k \<mapsto> v)" for k v and m :: "('k::linorder \<times> 'v) list"
    by (simp add: bt_get_def map_of_bt_insert fun_eq_iff)
  show "bt_get (bt_remove k m) = (bt_get m)(k := None)" for k and m :: "('k::linorder \<times> 'v) list"
    by (simp add: bt_get_def map_of_bt_remove fun_eq_iff)
  show "set (bt_keys m) = dom (bt_get m)" for m :: "('k::linorder \<times> 'v) list"
    by (simp add: bt_keys_def bt_get_def dom_map_of_conv_image_fst fun_eq_iff dom_def
        flip: dom_map_of_conv_image_fst)
  show "sorted_wrt (<) (bt_keys m)" if "bt_wf m" for m :: "('k::linorder \<times> 'v) list"
    using that by (simp add: bt_wf_def bt_keys_def)
  show "bt_wf (bt_insert k v m)" if "bt_wf m" for k v and m :: "('k::linorder \<times> 'v) list"
    using that by (rule bt_wf_insert)
  show "bt_wf (bt_remove k m)" if "bt_wf m" for k and m :: "('k::linorder \<times> 'v) list"
    using that by (rule bt_wf_remove)
  show "m = m'" if "bt_wf m" "bt_wf m'" "bt_get m = bt_get m'" for m m' :: "('k::linorder \<times> 'v) list"
    using that by (intro bt_wf_ext) (simp_all add: bt_get_def fun_eq_iff)
qed

lemma bt_get_simps [simp]:
  "bt_get [] k = None"
  "bt_get (bt_insert k v m) = (bt_get m)(k \<mapsto> v)"
  "bt_get (bt_remove k m) = (bt_get m)(k := None)"
  by (simp_all add: bt.get_ins bt.get_del) (simp add: bt_get_def)

lemma bt_get_Cons: "bt_get ((k, v) # m) k' = (if k' = k then Some v else bt_get m k')"
  by (simp add: bt_get_def)

lemma bt_contains_iff [simp]: "bt_contains m k \<longleftrightarrow> k \<in> dom (bt_get m)"
  by (auto simp: bt_contains_def)

lemma bt_finite_dom [simp]: "finite (dom (bt_get m))"
  by (simp add: bt_get_def [abs_def] finite_dom_map_of)

text \<open>A walk that only visits fresh keys of a map ends.\<close>

lemma measure_unseen:
  assumes "bt_get ps cid = Some q" and "cid \<notin> seen"
  shows "card (dom (bt_get ps) - insert cid seen) < card (dom (bt_get ps) - seen)"
proof (rule psubset_card_mono)
  show "finite (dom (bt_get ps) - seen)" by simp
  from assms show "dom (bt_get ps) - insert cid seen \<subset> dom (bt_get ps) - seen" by blast
qed

text \<open>Evaluation of the map operations on literal keys: \<open>simp add: bt_eval\<close>.\<close>

lemma string_less_eval:
  "(c # cs :: string) < d # ds \<longleftrightarrow> ord_of c < ord_of d \<or> (c = d \<and> cs < ds)"
  "([] :: string) < d # ds" "\<not> (s :: string) < []"
  by (auto simp: ord_of_def less_char_def)

lemmas bt_eval = bt_get_def bt_remove_def bt_keys_def string_less_eval ord_of_def

end
