(* ===== verification/Json.thy ===== *)
theory Json
  imports BTree "HOL-Library.Multiset"
begin

text \<open>
  JSON values as the program manipulates them (\<open>serde_json::Value\<close> and the accessors the
  code calls on it), the canonical payload text of \<open>core/events.rs\<close> and the response pruner of
  \<open>response_prune.rs\<close>.

  A number is an integer or the text of a float; printing scalars and object keys is
  \<open>serde_json\<close>'s and is the argument \<open>ser\<close> of \<open>canonical_json\<close>.
\<close>

datatype json =
    JNull
  | JBool bool
  | JInt int
  | JFloat string
  | JStr string
  | JArr "json list"
  | JObj "(string \<times> json) list"

section \<open>Accessors\<close>

fun json_get :: "json \<Rightarrow> string \<Rightarrow> json option" where
  "json_get (JObj m) k = map_of m k"
| "json_get _ k = None"

fun json_str :: "json \<Rightarrow> string option" where
  "json_str (JStr s) = Some s"
| "json_str _ = None"

fun json_bool :: "json \<Rightarrow> bool option" where
  "json_bool (JBool b) = Some b"
| "json_bool _ = None"

fun json_u64 :: "json \<Rightarrow> nat option" where
  "json_u64 (JInt i) = (if 0 \<le> i then Some (nat i) else None)"
| "json_u64 _ = None"

text \<open>\<open>Value::pointer\<close> on the tokens of the pointer: object members and array indexes.\<close>

definition json_index_token :: "string \<Rightarrow> nat option" where
  "json_index_token s =
     (if starts_with s ''+'' \<or> (starts_with s ''0'' \<and> length s \<noteq> 1) then None
      else parse_unsigned u64_limit s)"

fun json_pointer :: "json \<Rightarrow> string list \<Rightarrow> json option" where
  "json_pointer j [] = Some j"
| "json_pointer (JObj m) (k # ks) =
     (case map_of m k of None \<Rightarrow> None | Some j \<Rightarrow> json_pointer j ks)"
| "json_pointer (JArr xs) (k # ks) =
     (case json_index_token k of
        None \<Rightarrow> None
      | Some i \<Rightarrow> if i < length xs then json_pointer (xs ! i) ks else None)"
| "json_pointer _ (k # ks) = None"

text \<open>An object of exactly one member: \<open>as_object().is_none_or(|o| o.len() != 1)\<close> negated.\<close>

fun json_members :: "json \<Rightarrow> nat option" where
  "json_members (JObj m) = Some (length m)"
| "json_members _ = None"

section \<open>The canonical payload text\<close>

fun canonical_json :: "(json \<Rightarrow> string) \<Rightarrow> json \<Rightarrow> string"
  and canonical_items :: "(json \<Rightarrow> string) \<Rightarrow> json list \<Rightarrow> string list"
  and canonical_entries :: "(json \<Rightarrow> string) \<Rightarrow> (string \<times> json) list \<Rightarrow> (string \<times> string) list" where
  "canonical_json ser (JObj m) =
     ''{'' @ join_with '','' (map (\<lambda>(k, t). ser (JStr k) @ '':'' @ t)
       (sort_key fst (canonical_entries ser m))) @ ''}''"
| "canonical_json ser (JArr xs) = ''['' @ join_with '','' (canonical_items ser xs) @ '']''"
| "canonical_json ser j = ser j"
| "canonical_items ser [] = []"
| "canonical_items ser (x # xs) = canonical_json ser x # canonical_items ser xs"
| "canonical_entries ser [] = []"
| "canonical_entries ser ((k, v) # m) = (k, canonical_json ser v) # canonical_entries ser m"

section \<open>Pruning responses\<close>

definition preserve_empty_array_for_key :: "string \<Rightarrow> bool" where
  "preserve_empty_array_for_key key =
     (key \<in> {''warnings'', ''matches'', ''context'', ''changes'', ''target_deltas'',
       ''changed_targets'', ''new_errors'', ''resolved_errors'', ''preexisting_errors'',
       ''named_range_deltas'', ''formula_targets'', ''likely_patch_targets'',
       ''adjacent_sum_targets'', ''merged_ranges_fully_contained'',
       ''merged_ranges_crossing_boundary''})"

fun prune_removes :: "string \<Rightarrow> json \<Rightarrow> bool" where
  "prune_removes key JNull = True"
| "prune_removes key (JObj m) = (m = [])"
| "prune_removes key (JArr xs) = (xs = [] \<and> \<not> preserve_empty_array_for_key key)"
| "prune_removes key _ = False"

fun prune_non_structural_empties :: "json \<Rightarrow> json"
  and prune_items :: "json list \<Rightarrow> json list"
  and prune_members :: "(string \<times> json) list \<Rightarrow> (string \<times> json) list" where
  "prune_non_structural_empties (JObj m) =
     JObj (filter (\<lambda>(key, child). \<not> prune_removes key child) (prune_members m))"
| "prune_non_structural_empties (JArr items) = JArr (prune_items items)"
| "prune_non_structural_empties j = j"
| "prune_items [] = []"
| "prune_items (x # xs) = prune_non_structural_empties x # prune_items xs"
| "prune_members [] = []"
| "prune_members ((k, v) # m) = (k, prune_non_structural_empties v) # prune_members m"

text \<open>No member of any object below is one the pruner removes.\<close>

fun json_pruned :: "json \<Rightarrow> bool"
  and items_pruned :: "json list \<Rightarrow> bool"
  and members_pruned :: "(string \<times> json) list \<Rightarrow> bool" where
  "json_pruned (JObj m) = members_pruned m"
| "json_pruned (JArr xs) = items_pruned xs"
| "json_pruned _ = True"
| "items_pruned [] = True"
| "items_pruned (x # xs) = (json_pruned x \<and> items_pruned xs)"
| "members_pruned [] = True"
| "members_pruned ((k, v) # m) = (\<not> prune_removes k v \<and> json_pruned v \<and> members_pruned m)"

section \<open>Canonicalisation forgets the order of members and nothing else\<close>

lemma canonical_entries_map:
  "canonical_entries ser m = map (\<lambda>(k, v). (k, canonical_json ser v)) m"
  by (induction m) auto

lemma sort_key_fst_perm:
  assumes "mset xs = mset ys" and "distinct (map fst xs)"
  shows "sort_key fst xs = sort_key fst (ys :: (string \<times> 'a) list)"
proof (rule map_sorted_distinct_set_unique [of fst])
  from assms have eq: "set xs = set ys" by (metis set_mset_mset)
  with assms(2) show "inj_on fst (set (sort_key fst xs) \<union> set (sort_key fst ys))"
    by (simp add: distinct_map)
  have "distinct (map fst ys)" using assms by (metis mset_map mset_eq_imp_distinct_iff)
  then show "distinct (map fst (sort_key fst ys))" and "set (sort_key fst xs) = set (sort_key fst ys)"
    using eq by (simp_all add: distinct_map)
  show "distinct (map fst (sort_key fst xs))"
    using assms(2) by (simp add: distinct_map)
qed simp_all

text \<open>The canonical payload text, and with it the payload hash of an event, does not
  depend on the order in which the members of an object were written: two objects with the
  same distinct members in any order print identically.\<close>

theorem canonical_json_member_order:
  assumes "mset m = mset m'" and "distinct (map fst m)"
  shows "canonical_json ser (JObj m) = canonical_json ser (JObj m')"
proof -
  have "sort_key fst (canonical_entries ser m) = sort_key fst (canonical_entries ser m')"
  proof (rule sort_key_fst_perm)
    show "mset (canonical_entries ser m) = mset (canonical_entries ser m')"
      using assms(1) by (simp add: canonical_entries_map)
    have "map fst (canonical_entries ser m) = map fst m"
      by (simp add: canonical_entries_map case_prod_beta comp_def)
    with assms(2) show "distinct (map fst (canonical_entries ser m))" by simp
  qed
  then show ?thesis by simp
qed

lemma canonical_json_member_order_witness:
  "canonical_json (\<lambda>_. ''s'') (JObj [(''b'', JBool True), (''a'', JArr [JNull])])
    = canonical_json (\<lambda>_. ''s'') (JObj [(''a'', JArr [JNull]), (''b'', JBool True)])"
  by (rule canonical_json_member_order) simp_all

section \<open>Pruning is idempotent and removes exactly the empties\<close>

lemma pruned_fixpoint:
  "json_pruned j \<Longrightarrow> prune_non_structural_empties j = j"
  "items_pruned xs \<Longrightarrow> prune_items xs = xs"
  "members_pruned m \<Longrightarrow> prune_members m = m \<and> filter (\<lambda>(k, v). \<not> prune_removes k v) m = m"
  by (induction j and xs and m rule: json_pruned_items_pruned_members_pruned.induct) auto

lemma members_pruned_filter:
  "(\<forall>(k, v) \<in> set m. json_pruned v) \<Longrightarrow> members_pruned (filter (\<lambda>(k, v). \<not> prune_removes k v) m)"
  by (induction m) auto

lemma prune_pruned:
  "json_pruned (prune_non_structural_empties j)"
  "items_pruned (prune_items xs)"
  "\<forall>(k, v) \<in> set (prune_members m). json_pruned v"
proof (induction j and xs and m
    rule: prune_non_structural_empties_prune_items_prune_members.induct)
  case (1 m)
  then show ?case by (simp add: members_pruned_filter)
qed auto

text \<open>A pruned response carries no member that is null, an empty object or an empty array
  outside the contract's list of preserved keys, at any depth; pruning it again changes
  nothing; and a response without such members passes through unchanged.\<close>

theorem prune_non_structural_empties_normal:
  "json_pruned (prune_non_structural_empties j)
   \<and> prune_non_structural_empties (prune_non_structural_empties j) = prune_non_structural_empties j
   \<and> (json_pruned j \<longleftrightarrow> prune_non_structural_empties j = j)"
  using prune_pruned(1) pruned_fixpoint(1) by metis

end
