(* ===== verification/Events.thy ===== *)
theory Events
  imports Json
begin

text \<open>
  The event envelope of the legacy sessions (\<open>core/events.rs\<close>): the record \<open>OpEvent\<close>, its
  namespaced kinds, the canonical payload hash, sealing and integrity checking. SHA-256, the
  JSON text of scalars and of a whole event and its parser are fields of \<open>event_codec\<close>; a
  time stamp is its text.
\<close>

definition event_schema_version :: string where
  "event_schema_version = ''ops.v1''"

record actor =
  ac_id :: string
  ac_run_id :: "string option"
  ac_source :: string

record cell_match =
  cm_address :: string
  cm_value :: json

record preconditions =
  pr_cell_matches :: "cell_match list"
  pr_workbook_hash_before :: "string option"
  pr_head_at_stage :: "string option"

record event_shifted_span =
  es_op_index :: nat
  es_sheet_name :: string
  es_axis :: string
  es_at :: u32
  es_count :: u32
  es_direction :: string
  es_description :: string

record dry_run_impact =
  di_cells_changed :: u64
  di_formulas_rewritten :: u64
  di_shifted_spans :: "event_shifted_span list"
  di_ref_errors_generated :: u64
  di_warnings :: "string list"
  di_boundary_warnings :: "string list"

datatype apply_status = AsApplied | AsRejected | AsSuperseded

record apply_result =
  ar_status :: apply_status
  ar_duration_ms :: u64
  ar_warnings :: "string list"
  ar_workbook_hash_after :: "string option"

record op_event =
  ev_schema_version :: string
  ev_op_id :: string
  ev_parent_id :: "string option"
  ev_session_id :: string
  ev_timestamp :: string
  ev_actor :: actor
  ev_kind :: string
  ev_payload :: json
  ev_canonical_payload_hash :: string
  ev_preconditions :: "preconditions option"
  ev_dry_run_impact :: "dry_run_impact option"
  ev_apply_result :: "apply_result option"
  ev_prev_event_hash :: "string option"
  ev_event_hash :: "string option"
  ev_extra :: "json btree"

record event_codec =
  evc_sha256 :: "string \<Rightarrow> string"
  evc_scalar :: "json \<Rightarrow> string"
  evc_line :: "op_event \<Rightarrow> string"
  evc_parse :: "string \<Rightarrow> op_event res"

section \<open>Kinds\<close>

definition op_kind_new :: "string \<Rightarrow> string \<Rightarrow> string" where
  "op_kind_new ns action = ns @ ''.'' @ action"

definition op_kind_namespace :: "string \<Rightarrow> string" where
  "op_kind_namespace k = hd (split_on CHR ''.'' k)"

definition op_kind_action :: "string \<Rightarrow> string" where
  "op_kind_action k =
     (case split_on CHR ''.'' k of _ # a # _ \<Rightarrow> a | _ \<Rightarrow> [])"

definition op_kinds :: "string list" where
  "op_kinds =
     map (op_kind_new ''structure'') [''insert_rows'', ''delete_rows'', ''insert_cols'',
       ''delete_cols'', ''clone_row'', ''merge_cells'', ''unmerge_cells'', ''rename_sheet'',
       ''create_sheet'', ''delete_sheet'', ''copy_range'', ''move_range'']
     @ map (op_kind_new ''transform'') [''clear_range'', ''fill_range'', ''replace_in_range'',
       ''write_matrix'']
     @ [op_kind_new ''style'' ''apply'']
     @ map (op_kind_new ''formula'') [''apply_pattern'', ''replace_in_formulas'']
     @ [op_kind_new ''column'' ''size'', op_kind_new ''layout'' ''apply'',
        op_kind_new ''rules'' ''apply'']
     @ map (op_kind_new ''name'') [''define'', ''update'', ''delete'']
     @ [op_kind_new ''edit'' ''batch'']
     @ map (op_kind_new ''import'') [''range'', ''grid'']
     @ [op_kind_new ''session'' ''materialize'']"

section \<open>Hashes\<close>

definition prefixed_sha256 :: "event_codec \<Rightarrow> string \<Rightarrow> string" where
  "prefixed_sha256 ec bytes = ''sha256:'' @ evc_sha256 ec bytes"

definition canonical_payload_hash :: "event_codec \<Rightarrow> json \<Rightarrow> string" where
  "canonical_payload_hash ec payload = prefixed_sha256 ec (canonical_json (evc_scalar ec) payload)"

text \<open>\<open>OpEvent::new\<close>; the generated identifier and the clock are arguments.\<close>

definition event_new ::
    "event_codec \<Rightarrow> string \<Rightarrow> string \<Rightarrow> string \<Rightarrow> string option \<Rightarrow> actor \<Rightarrow> string \<Rightarrow> json \<Rightarrow> op_event" where
  "event_new ec op_id now session_id parent_id actor kind payload =
     \<lparr> ev_schema_version = event_schema_version, ev_op_id = op_id, ev_parent_id = parent_id,
       ev_session_id = session_id, ev_timestamp = now, ev_actor = actor, ev_kind = kind,
       ev_payload = payload, ev_canonical_payload_hash = canonical_payload_hash ec payload,
       ev_preconditions = None, ev_dry_run_impact = None, ev_apply_result = None,
       ev_prev_event_hash = None, ev_event_hash = None, ev_extra = [] \<rparr>"

definition event_seal :: "event_codec \<Rightarrow> op_event \<Rightarrow> op_event" where
  "event_seal ec e = e \<lparr> ev_event_hash := Some (prefixed_sha256 ec (evc_line ec e)) \<rparr>"

definition verify_integrity :: "event_codec \<Rightarrow> op_event \<Rightarrow> bool" where
  "verify_integrity ec e =
     (if ev_canonical_payload_hash e \<noteq> canonical_payload_hash ec (ev_payload e) then False
      else (case ev_event_hash e of
              None \<Rightarrow> False
            | Some expected \<Rightarrow>
                prefixed_sha256 ec (evc_line ec (e \<lparr> ev_event_hash := None \<rparr>)) = expected))"

definition validate_version :: "op_event \<Rightarrow> unit res" where
  "validate_version e =
     bail_if (ev_schema_version e \<noteq> event_schema_version) ''unsupported schema version'' (Inr ())"

section \<open>Properties\<close>

lemma op_kind_split:
  assumes "CHR ''.'' \<notin> set ns" and "CHR ''.'' \<notin> set action"
  shows "op_kind_namespace (op_kind_new ns action) = ns \<and> op_kind_action (op_kind_new ns action) = action"
  using split_on_append [OF assms(1), of action] split_on_free [OF assms(2)]
  by (simp add: op_kind_new_def op_kind_namespace_def op_kind_action_def)

text \<open>Every registered kind is distinct and splits back into its namespace and action.\<close>

theorem op_kinds_registered:
  "distinct op_kinds
   \<and> list_all (\<lambda>k. op_kind_new (op_kind_namespace k) (op_kind_action k) = k) op_kinds"
  by (simp add: op_kinds_def op_kind_new_def op_kind_namespace_def op_kind_action_def)

text \<open>Sealing an unsealed event with its payload hash intact makes it verify.\<close>

lemma seal_verifies:
  assumes "ev_event_hash e = None"
    and "ev_canonical_payload_hash e = canonical_payload_hash ec (ev_payload e)"
  shows "verify_integrity ec (event_seal ec e)"
proof -
  have "e \<lparr> ev_event_hash := None \<rparr> = e" using assms(1) by simp
  then show ?thesis using assms(2) by (simp add: verify_integrity_def event_seal_def)
qed

text \<open>An event that verifies carries the digest of its own text: a changed event must collide.\<close>

lemma verify_forged:
  assumes "verify_integrity ec e" and "verify_integrity ec e'"
    and "ev_event_hash e' = ev_event_hash e" and "inj (evc_sha256 ec)"
  shows "evc_line ec (e' \<lparr> ev_event_hash := None \<rparr>) = evc_line ec (e \<lparr> ev_event_hash := None \<rparr>)"
  using assms
  by (auto simp: verify_integrity_def prefixed_sha256_def inj_def split: option.splits if_split_asm)

end
