(* ===== verification/Binlog.thy ===== *)
theory Binlog
  imports Events
begin

text \<open>
  The append-only event log of a legacy session (\<open>core/binlog.rs\<close>): writer and reader over the
  text of the log file, the snapshot manifest and the branch table.
\<close>

section \<open>The log file\<close>

text \<open>\<open>BufRead::lines\<close>: the text after the last line break is a line when it is not empty, and a
  carriage return before a line break is dropped.\<close>

definition file_lines :: "string \<Rightarrow> string list" where
  "file_lines raw =
     (let parts = split_on (CHR 0x0A) raw
      in map strip_cr (butlast parts) @ (if last parts = [] then [] else [last parts]))"

definition binlog_append :: "event_codec \<Rightarrow> string \<Rightarrow> op_event \<Rightarrow> string" where
  "binlog_append ec raw e = raw @ evc_line ec e @ [CHR 0x0A]"

definition binlog_read_all :: "event_codec \<Rightarrow> string \<Rightarrow> op_event list res" where
  "binlog_read_all ec raw =
     map_res (\<lambda>line. evc_parse ec (str_trim line))
       (filter (\<lambda>line. str_trim line \<noteq> []) (file_lines raw))"

definition binlog_read_after :: "event_codec \<Rightarrow> string \<Rightarrow> string \<Rightarrow> op_event list res" where
  "binlog_read_after ec raw after_op_id =
     bind_res (binlog_read_all ec raw) (\<lambda>all.
     let start_index = (case position (\<lambda>e. ev_op_id e = after_op_id) all of
           None \<Rightarrow> 0 | Some i \<Rightarrow> i + 1)
     in Inr (drop start_index all))"

definition binlog_read_until :: "event_codec \<Rightarrow> string \<Rightarrow> string \<Rightarrow> op_event list res" where
  "binlog_read_until ec raw until_op_id =
     bind_res (binlog_read_all ec raw) (\<lambda>all.
     bind_res (ok_or (position (\<lambda>e. ev_op_id e = until_op_id) all) ''op_id not found in binlog'')
       (\<lambda>end_index. Inr (take (end_index + 1) all)))"

definition binlog_tip :: "event_codec \<Rightarrow> string \<Rightarrow> op_event option res" where
  "binlog_tip ec raw = bind_res (binlog_read_all ec raw) (\<lambda>events. Inr (last_opt events))"

definition binlog_count :: "string \<Rightarrow> nat" where
  "binlog_count raw = length (filter (\<lambda>line. str_trim line \<noteq> []) (file_lines raw))"

section \<open>Diagnostics\<close>

fun lineage_warnings :: "nat \<Rightarrow> string option \<Rightarrow> op_event list \<Rightarrow> string list" where
  "lineage_warnings i expected [] = []"
| "lineage_warnings i expected (e # es) =
     (case expected of
        None \<Rightarrow>
          (case ev_parent_id e of
             None \<Rightarrow> []
           | Some _ \<Rightarrow> [''first event '' @ ev_op_id e @ '' has parent_id but is the first in the log''])
      | Some expected_parent \<Rightarrow>
          (case ev_parent_id e of
             Some parent \<Rightarrow>
               if parent \<noteq> expected_parent
               then [''event '' @ ev_op_id e @ '' has parent_id '' @ parent @ '' but expected ''
                     @ expected_parent] else []
           | None \<Rightarrow> [''event '' @ ev_op_id e @ '' at position '' @ show_nat i @ '' has no parent_id'']))
     @ lineage_warnings (i + 1) (Some (ev_op_id e)) es"

definition validate_lineage :: "event_codec \<Rightarrow> string \<Rightarrow> string list res" where
  "validate_lineage ec raw =
     bind_res (binlog_read_all ec raw) (\<lambda>events. Inr (lineage_warnings 0 None events))"

fun hash_chain_warnings :: "op_event list \<Rightarrow> string list" where
  "hash_chain_warnings (p # e # es) =
     (case (ev_event_hash p, ev_prev_event_hash e) of
        (Some prev_hash, Some expected_prev) \<Rightarrow>
          if prev_hash \<noteq> expected_prev
          then [''hash chain broken at event '' @ ev_op_id e] else []
      | _ \<Rightarrow> [])
     @ hash_chain_warnings (e # es)"
| "hash_chain_warnings _ = []"

definition validate_hash_chain :: "event_codec \<Rightarrow> string \<Rightarrow> string list res" where
  "validate_hash_chain ec raw =
     bind_res (binlog_read_all ec raw) (\<lambda>events. Inr (hash_chain_warnings events))"

section \<open>Snapshots and branches\<close>

record snapshot_entry =
  sn_op_id :: string
  sn_file_name :: string
  sn_file_hash :: string
  sn_created_at :: string
  sn_event_count :: nat

record snapshot_manifest =
  sm_session_id :: string
  sm_entries :: "snapshot_entry list"

definition manifest_new :: "string \<Rightarrow> snapshot_manifest" where
  "manifest_new session_id = \<lparr> sm_session_id = session_id, sm_entries = [] \<rparr>"

definition manifest_add_entry :: "snapshot_manifest \<Rightarrow> snapshot_entry \<Rightarrow> snapshot_manifest" where
  "manifest_add_entry m e = m \<lparr> sm_entries := sm_entries m @ [e] \<rparr>"

text \<open>\<open>Iterator::max_by_key\<close>: the last of the maximal elements.\<close>

fun max_by_key :: "('a \<Rightarrow> nat) \<Rightarrow> 'a list \<Rightarrow> 'a option" where
  "max_by_key key [] = None"
| "max_by_key key (x # xs) =
     (case max_by_key key xs of
        None \<Rightarrow> Some x
      | Some y \<Rightarrow> if key x \<le> key y then Some y else Some x)"

definition nearest_snapshot ::
    "snapshot_manifest \<Rightarrow> string \<Rightarrow> string list \<Rightarrow> snapshot_entry option" where
  "nearest_snapshot m target_op_id event_order =
     (case position (\<lambda>k. k = target_op_id) event_order of
        None \<Rightarrow> None
      | Some target_pos \<Rightarrow>
          map_option snd (max_by_key fst (List.map_filter (\<lambda>entry.
            (case position (\<lambda>k. k = sn_op_id entry) event_order of
               None \<Rightarrow> None
             | Some pos \<Rightarrow> if pos \<le> target_pos then Some (pos, entry) else None))
            (sm_entries m))))"

record branch_info =
  bi_name :: string
  bi_tip_op_id :: "string option"
  bi_fork_point :: "string option"
  bi_label :: "string option"
  bi_created_at :: string

definition branches_new :: "string \<Rightarrow> branch_info list" where
  "branches_new now = [\<lparr> bi_name = ''main'', bi_tip_op_id = None, bi_fork_point = None,
     bi_label = None, bi_created_at = now \<rparr>]"

definition get_branch :: "branch_info list \<Rightarrow> string \<Rightarrow> branch_info option" where
  "get_branch bs name = List.find (\<lambda>b. bi_name b = name) bs"

text \<open>\<open>get_branch_mut(name)\<close> followed by setting the tip: the first branch of that name.\<close>

fun set_branch_tip :: "branch_info list \<Rightarrow> string \<Rightarrow> string option \<Rightarrow> branch_info list" where
  "set_branch_tip [] name tip = []"
| "set_branch_tip (b # bs) name tip =
     (if bi_name b = name then b \<lparr> bi_tip_op_id := tip \<rparr> # bs
      else b # set_branch_tip bs name tip)"

section \<open>Reading back what was written\<close>

text \<open>The documented behaviour of the JSON printer and parser on an event: a compact object on one
  line, without surrounding white space, that parses back.\<close>

definition event_codec_ok :: "event_codec \<Rightarrow> op_event \<Rightarrow> bool" where
  "event_codec_ok ec e =
     (evc_parse ec (evc_line ec e) = Inr e \<and> CHR 0x0A \<notin> set (evc_line ec e)
      \<and> evc_line ec e \<noteq> [] \<and> str_trim (evc_line ec e) = evc_line ec e)"

definition closed_log :: "string \<Rightarrow> bool" where
  "closed_log raw = (raw = [] \<or> last raw = CHR 0x0A)"

lemma trimmed_last:
  assumes "str_trim s = s" and "s \<noteq> []"
  shows "\<not> is_space (last s)"
proof -
  define d where "d = dropWhile is_space (rev (dropWhile is_space s))"
  from assms(1) have s: "rev d = s" by (simp add: str_trim_def d_def)
  with assms(2) have "d \<noteq> []" by auto
  then have "\<not> is_space (hd d)" unfolding d_def by (rule hd_dropWhile)
  moreover have "last s = hd d" using s \<open>d \<noteq> []\<close> by (metis last_rev)
  ultimately show ?thesis by simp
qed

lemma file_lines_append:
  assumes "closed_log raw" and "CHR 0x0A \<notin> set line" and "line \<noteq> []" and "\<not> is_space (last line)"
  shows "file_lines (raw @ line @ [CHR 0x0A]) = file_lines raw @ [line]"
proof -
  have "last line \<noteq> CHR 0x0D" using assms(4) by (auto simp: is_space_def ord_of_def)
  then have cr: "strip_cr line = line" using assms(3) by (intro strip_cr_id)
  have line: "split_on (CHR 0x0A) (line @ [CHR 0x0A]) = [line, []]"
    using split_on_append [OF assms(2), of "[]"] by simp
  show ?thesis
  proof (cases "raw = []")
    case True
    then show ?thesis by (simp add: file_lines_def line cr Let_def)
  next
    case False
    with assms(1) obtain q where q: "raw = q @ [CHR 0x0A]"
      by (metis append_butlast_last_id closed_log_def)
    have "split_on (CHR 0x0A) (raw @ line @ [CHR 0x0A]) = split_on (CHR 0x0A) q @ [line, []]"
      using split_on_append_sep [of "CHR 0x0A" q "line @ [CHR 0x0A]"] by (simp add: q line)
    moreover have "split_on (CHR 0x0A) raw = split_on (CHR 0x0A) q @ [[]]"
      using split_on_append_sep [of "CHR 0x0A" q "[]"] by (simp add: q)
    ultimately show ?thesis by (simp add: file_lines_def Let_def butlast_append cr)
  qed
qed

lemma read_append:
  assumes "event_codec_ok ec e" and "closed_log raw"
  shows "binlog_read_all ec (binlog_append ec raw e)
      = bind_res (binlog_read_all ec raw) (\<lambda>es. Inr (es @ [e]))"
    and "closed_log (binlog_append ec raw e)"
    and "binlog_count (binlog_append ec raw e) = binlog_count raw + 1"
proof -
  have ok: "evc_parse ec (evc_line ec e) = Inr e" "CHR 0x0A \<notin> set (evc_line ec e)"
    "evc_line ec e \<noteq> []" "str_trim (evc_line ec e) = evc_line ec e"
    using assms(1) by (auto simp: event_codec_ok_def)
  have lines: "file_lines (binlog_append ec raw e) = file_lines raw @ [evc_line ec e]"
    unfolding binlog_append_def
    using file_lines_append [OF assms(2) ok(2,3) trimmed_last [OF ok(4,3)]] .
  then show "binlog_read_all ec (binlog_append ec raw e)
      = bind_res (binlog_read_all ec raw) (\<lambda>es. Inr (es @ [e]))"
    by (simp add: binlog_read_all_def map_res_snoc ok)
  show "closed_log (binlog_append ec raw e)" by (simp add: closed_log_def binlog_append_def)
  show "binlog_count (binlog_append ec raw e) = binlog_count raw + 1"
    by (simp add: binlog_count_def lines ok)
qed

section \<open>The nearest snapshot\<close>

lemma max_by_key_None: "max_by_key key xs = None \<longleftrightarrow> xs = []"
  by (cases xs) (auto split: option.splits)

lemma max_by_key_Some:
  "max_by_key key xs = Some x \<Longrightarrow> x \<in> set xs \<and> (\<forall>y \<in> set xs. key y \<le> key x)"
proof (induction xs arbitrary: x)
  case (Cons a xs)
  then show ?case
    by (cases "max_by_key key xs") (auto simp: max_by_key_None split: if_splits)
qed simp

text \<open>The snapshot chosen to start a replay from is the best one: it is an entry of the
  manifest whose event stands at or before the target in the event order, no other entry at or
  before the target stands later, and none is chosen only when the target is unknown or no
  entry qualifies.\<close>

theorem nearest_snapshot_correct:
  "case nearest_snapshot m target order of
     Some s \<Rightarrow> (\<exists>t p. position (\<lambda>k. k = target) order = Some t
         \<and> position (\<lambda>k. k = sn_op_id s) order = Some p \<and> p \<le> t \<and> s \<in> set (sm_entries m)
         \<and> (\<forall>e \<in> set (sm_entries m). \<forall>q. position (\<lambda>k. k = sn_op_id e) order = Some q
              \<longrightarrow> q \<le> t \<longrightarrow> q \<le> p))
   | None \<Rightarrow> (\<forall>t. position (\<lambda>k. k = target) order = Some t \<longrightarrow>
         (\<forall>e \<in> set (sm_entries m). \<forall>q. position (\<lambda>k. k = sn_op_id e) order = Some q \<longrightarrow> t < q))"
proof -
  define found where "found t = List.map_filter (\<lambda>entry.
      (case position (\<lambda>k. k = sn_op_id entry) order of
         None \<Rightarrow> None | Some pos \<Rightarrow> if pos \<le> t then Some (pos, entry) else None)) (sm_entries m)" for t
  have mem: "(q, e) \<in> set (found t) \<longleftrightarrow> e \<in> set (sm_entries m)
      \<and> position (\<lambda>k. k = sn_op_id e) order = Some q \<and> q \<le> t" for q e t
    by (force simp: found_def List.map_filter_def split: option.splits if_splits)
  show ?thesis
  proof (cases "position (\<lambda>k. k = target) order")
    case None
    then show ?thesis by (simp add: nearest_snapshot_def)
  next
    case (Some t)
    have near: "nearest_snapshot m target order = map_option snd (max_by_key fst (found t))"
      by (simp add: nearest_snapshot_def Some found_def)
    show ?thesis
    proof (cases "max_by_key fst (found t)")
      case None
      then have "found t = []" by (simp add: max_by_key_None)
      with mem [of _ _ t] show ?thesis by (auto simp: near None Some not_le [symmetric])
    next
      case (Some best)
      obtain p s where best: "best = (p, s)" by (cases best)
      from max_by_key_Some [OF Some] best have "(p, s) \<in> set (found t)"
        and "\<And>q e. (q, e) \<in> set (found t) \<Longrightarrow> q \<le> p" by auto
      with mem [of _ _ t] \<open>position (\<lambda>k. k = target) order = Some t\<close> show ?thesis
        by (simp add: near Some best)
    qed
  qed
qed

theorem nearest_snapshot_correct_witness:
  "let entry = \<lambda>k n. \<lparr> sn_op_id = k, sn_file_name = k, sn_file_hash = [], sn_created_at = [],
         sn_event_count = n \<rparr>;
       m = \<lparr> sm_session_id = ''s'', sm_entries = [entry ''c'' 3, entry ''a'' 1, entry ''b'' 2] \<rparr>
   in nearest_snapshot m ''b'' [''a'', ''b'', ''c''] = Some (entry ''b'' 2)
      \<and> (\<forall>e \<in> set (sm_entries m). \<forall>q. position (\<lambda>k. k = sn_op_id e) [''a'', ''b'', ''c''] = Some q
            \<longrightarrow> q \<le> 1 \<longrightarrow> q \<le> 1)"
  using nearest_snapshot_correct [where m = "\<lparr> sm_session_id = ''s'', sm_entries =
      [\<lparr> sn_op_id = ''c'', sn_file_name = ''c'', sn_file_hash = [], sn_created_at = [],
         sn_event_count = 3 \<rparr>, \<lparr> sn_op_id = ''a'', sn_file_name = ''a'', sn_file_hash = [],
         sn_created_at = [], sn_event_count = 1 \<rparr>, \<lparr> sn_op_id = ''b'', sn_file_name = ''b'',
         sn_file_hash = [], sn_created_at = [], sn_event_count = 2 \<rparr>] \<rparr>" and target = "''b''"
      and order = "[''a'', ''b'', ''c'']"]
  by (simp add: nearest_snapshot_def List.map_filter_def)

end
