(* ===== verification/Ancestry.thy ===== *)
theory Ancestry
  imports BTree
begin

text \<open>
  Parent chains. Both history stores keep, for every commit, the commit it was made on
  (\<open>None\<close> for the base) and walk these links with a set of visited identities that turns a
  cycle into an error. The interface \<open>ancestry\<close> says when such a structure is a forest; the
  lemmas proved inside it say that the walks never meet their error branches and what they
  return. \<open>grown\<close> is the way the stores build the links: one fresh commit at a time.
\<close>

section \<open>Paths\<close>

text \<open>\<open>xs\<close> lists the commits from \<open>head\<close> back to the base.\<close>

fun path_to :: "(string \<Rightarrow> string option option) \<Rightarrow> string option \<Rightarrow> string list \<Rightarrow> bool" where
  "path_to par None xs = (xs = [])"
| "path_to par (Some h) [] = False"
| "path_to par (Some h) (x # xs) =
     (x = h \<and> (case par h of None \<Rightarrow> False | Some q \<Rightarrow> path_to par q xs))"

lemma path_to_unique: "path_to par h xs \<Longrightarrow> path_to par h ys \<Longrightarrow> xs = ys"
proof (induction xs arbitrary: h ys)
  case Nil
  then show ?case by (cases h) auto
next
  case (Cons x xs)
  then show ?case by (cases h; cases ys) (auto split: option.splits)
qed

lemma path_to_known: "path_to par h xs \<Longrightarrow> x \<in> set xs \<Longrightarrow> par x \<noteq> None"
proof (induction xs arbitrary: h)
  case (Cons a xs)
  then show ?case by (cases h) (auto split: option.splits)
qed simp

lemma path_to_suffix:
  "path_to par h (xs @ y # ys) \<Longrightarrow> path_to par (Some y) (y # ys)"
proof (induction xs arbitrary: h)
  case Nil
  then show ?case by (cases h) auto
next
  case (Cons a xs)
  from Cons.prems obtain q where "path_to par q (xs @ y # ys)"
    by (cases h) (auto split: option.splits)
  then show ?case by (rule Cons.IH)
qed

lemma path_to_parent:
  assumes "path_to par h (xs @ y # ys)" and "par y = Some q"
  shows "path_to par q ys"
  using path_to_suffix [OF assms(1)] assms(2) by simp

text \<open>On a path without repetition the commit below a given one is unique.\<close>

lemma find_child_on_path:
  assumes "path_to par h xs" and "distinct xs" and "y \<in> set xs" and "par y = Some q"
  shows "List.find (\<lambda>x. par x = Some q) xs = Some y"
  using assms(1-3)
proof (induction xs arbitrary: h)
  case (Cons a xs)
  show ?case
  proof (cases "y = a")
    case True
    with assms(4) show ?thesis by simp
  next
    case False
    from Cons.prems(1) obtain r where r: "par a = Some r" and rest: "path_to par r xs"
      by (cases h) (auto split: option.splits)
    from False Cons.prems(3) obtain us vs where xs: "xs = us @ y # vs"
      by (auto dest: split_list)
    have tail: "path_to par q vs"
      using path_to_parent [of par r us y vs q] rest xs assms(4) by simp
    have "r \<noteq> q"
    proof
      assume "r = q"
      with rest have "path_to par q xs" by simp
      with tail have "xs = vs" using path_to_unique by blast
      with xs show False by simp
    qed
    with r Cons.IH [OF rest] Cons.prems False show ?thesis by simp
  qed
qed simp

section \<open>The interface\<close>

locale ancestry =
  fixes par :: "'s \<Rightarrow> string \<Rightarrow> string option option"
    and inv :: "'s \<Rightarrow> bool"
  assumes ranked: "inv s \<Longrightarrow> \<exists>rank :: string \<Rightarrow> nat. \<forall>x y. par s x = Some (Some y) \<longrightarrow>
      par s y \<noteq> None \<and> rank y < rank x"
begin

lemma path_exists:
  assumes "inv s" and "h = None \<or> (\<exists>x. h = Some x \<and> par s x \<noteq> None)"
  shows "\<exists>xs. path_to (par s) h xs \<and> distinct xs"
proof -
  from ranked [OF assms(1)] obtain rank :: "string \<Rightarrow> nat"
    where rank: "\<And>x y. par s x = Some (Some y) \<Longrightarrow> par s y \<noteq> None \<and> rank y < rank x" by blast
  have "par s x \<noteq> None \<Longrightarrow>
      \<exists>xs. path_to (par s) (Some x) xs \<and> distinct xs \<and> (\<forall>y \<in> set xs. rank y \<le> rank x)" for x
  proof (induction x rule: measure_induct_rule [of rank])
    case (less x)
    then obtain q where q: "par s x = Some q" by auto
    show ?case
    proof (cases q)
      case None
      with q have "path_to (par s) (Some x) [x]" by simp
      then show ?thesis by (intro exI [of _ "[x]"]) simp
    next
      case (Some y)
      with q rank have y: "par s y \<noteq> None" "rank y < rank x" by auto
      with less.IH obtain xs where xs: "path_to (par s) (Some y) xs" "distinct xs"
        "\<forall>z \<in> set xs. rank z \<le> rank y" by blast
      with q Some y(2) have "path_to (par s) (Some x) (x # xs)" "distinct (x # xs)"
        "\<forall>z \<in> set (x # xs). rank z \<le> rank x" by auto
      then show ?thesis by blast
    qed
  qed
  with assms(2) show ?thesis
    by (metis distinct.simps(1) path_to.simps(1))
qed

lemma path_distinct:
  assumes "inv s" and "path_to (par s) h xs"
  shows "distinct xs"
proof -
  have "h = None \<or> (\<exists>x. h = Some x \<and> par s x \<noteq> None)"
    using assms(2) by (cases h; cases xs) (auto split: option.splits)
  from path_exists [OF assms(1) this] assms(2) show ?thesis
    using path_to_unique by blast
qed

lemma redo_child:
  assumes "inv s" and "path_to (par s) h xs" and "y \<in> set xs" and "par s y = Some q"
  shows "List.find (\<lambda>x. par s x = Some q) xs = Some y"
  using find_child_on_path [OF assms(2) path_distinct [OF assms(1,2)] assms(3,4)] .

lemma no_self_parent: "inv s \<Longrightarrow> par s x \<noteq> Some (Some x)"
  using ranked by blast

end

section \<open>Growing the links one fresh commit at a time\<close>

inductive grown :: "string option btree \<Rightarrow> bool" where
  grown_Nil: "grown []"
| grown_insert: "grown m \<Longrightarrow> bt_get m k = None
    \<Longrightarrow> (case p of None \<Rightarrow> True | Some q \<Rightarrow> bt_get m q \<noteq> None)
    \<Longrightarrow> grown (bt_insert k p m)"

lemma grown_wf: "grown m \<Longrightarrow> bt_wf m"
  by (induction rule: grown.induct) (auto simp: bt_wf_insert bt_wf_def [of "[]"])

lemma grown_ranked:
  "grown m \<Longrightarrow> \<exists>rank :: string \<Rightarrow> nat. \<forall>x y. bt_get m x = Some (Some y) \<longrightarrow>
      bt_get m y \<noteq> None \<and> rank y < rank x"
proof (induction rule: grown.induct)
  case grown_Nil
  then show ?case by simp
next
  case (grown_insert m k p)
  then obtain rank :: "string \<Rightarrow> nat" where rank: "\<And>x y. bt_get m x = Some (Some y) \<Longrightarrow>
      bt_get m y \<noteq> None \<and> rank y < rank x" by blast
  define rank' where "rank' = rank(k := (case p of None \<Rightarrow> 0 | Some q \<Rightarrow> Suc (rank q)))"
  have "bt_get (bt_insert k p m) y \<noteq> None \<and> rank' y < rank' x"
    if "bt_get (bt_insert k p m) x = Some (Some y)" for x y
  proof (cases "x = k")
    case True
    with that have p: "p = Some y" by simp
    with grown_insert.hyps have "bt_get m y \<noteq> None" "y \<noteq> k" by auto
    with True p show ?thesis by (simp add: rank'_def)
  next
    case False
    with that have "bt_get m x = Some (Some y)" by simp
    with rank [of x y] grown_insert.hyps False show ?thesis by (auto simp: rank'_def)
  qed
  then show ?case by blast
qed

text \<open>Parents themselves are a forest, which is what the interface asks for.\<close>

interpretation links: ancestry bt_get grown
  by unfold_locales (rule grown_ranked)

end
