(* ===== verification/SessionStore.thy ===== *)
theory SessionStore
  imports Ancestry Binlog
begin

text \<open>
  The legacy session store (\<open>core/session_store.rs\<close>): a session directory as a record of its
  files, the validated reading of the log, appending with compare-and-swap on the head and
  preconditions, undo, redo, checkout, branches, snapshots and materialisation by replay.

  The workbook engine behind \<open>WorkbookSession\<close> and the file rewriting tools is the parameter
  \<open>workbook_api\<close>; generated identifiers and the clock are arguments. The session lock makes
  every operation one step, and a failing operation leaves the directory as it was, so an
  operation returns the new directory or an error.
\<close>

section \<open>The session directory\<close>

record session_dir =
  sd_session_id :: string
  sd_is_dir :: bool
  sd_frozen :: bool
  sd_base :: string
  sd_log :: string
  sd_head :: string
  sd_current_branch :: string
  sd_branches :: "branch_info list"
  sd_manifest :: "snapshot_manifest option"
  sd_snapshots :: "string btree"

definition snapshot_interval :: nat where
  "snapshot_interval = 10"

definition max_sessions :: nat where
  "max_sessions = 50"

definition validate_session_id :: "string \<Rightarrow> unit res" where
  "validate_session_id s =
     bail_if (s = [] \<or> \<not> list_all (\<lambda>c. is_alnum c \<or> c = CHR ''_'' \<or> c = CHR ''-'') s)
       ''invalid session id'' (Inr ())"

definition ensure_legacy_writable :: "session_dir \<Rightarrow> unit res" where
  "ensure_legacy_writable sd =
     bail_if (\<not> sd_is_dir sd) ''legacy session path is fenced or invalid'' (
     bail_if (sd_frozen sd) ''legacy session is frozen for resident import; mutation refused''
       (Inr ()))"

definition read_head :: "session_dir \<Rightarrow> string option" where
  "read_head sd = (let trimmed = str_trim (sd_head sd) in if trimmed = [] then None else Some trimmed)"

definition write_head :: "session_dir \<Rightarrow> string \<Rightarrow> session_dir res" where
  "write_head sd op_id =
     bind_res (ensure_legacy_writable sd) (\<lambda>_. Inr (sd \<lparr> sd_head := op_id \<rparr>))"

definition clear_head :: "session_dir \<Rightarrow> session_dir res" where
  "clear_head sd = bind_res (ensure_legacy_writable sd) (\<lambda>_. Inr (sd \<lparr> sd_head := [] \<rparr>))"

definition current_branch :: "session_dir \<Rightarrow> string" where
  "current_branch sd = str_trim (sd_current_branch sd)"

definition switch_branch :: "session_dir \<Rightarrow> string \<Rightarrow> session_dir res" where
  "switch_branch sd branch_name =
     bind_res (ensure_legacy_writable sd) (\<lambda>_.
     bind_res (ok_or (get_branch (sd_branches sd) branch_name) ''branch not found'') (\<lambda>b.
     let sd = sd \<lparr> sd_current_branch := branch_name \<rparr> in
     case bi_tip_op_id b of
       Some op_id \<Rightarrow> write_head sd op_id
     | None \<Rightarrow> clear_head sd))"

definition create_branch ::
    "string \<Rightarrow> session_dir \<Rightarrow> string \<Rightarrow> string option \<Rightarrow> string option \<Rightarrow> session_dir res" where
  "create_branch now sd name fork_point label =
     bind_res (ensure_legacy_writable sd) (\<lambda>_.
     bail_if (get_branch (sd_branches sd) name \<noteq> None) ''branch already exists''
       (Inr (sd \<lparr> sd_branches := sd_branches sd @
          [\<lparr> bi_name = name, bi_tip_op_id = fork_point, bi_fork_point = fork_point,
             bi_label = label, bi_created_at = now \<rparr>] \<rparr>)))"

section \<open>Reading the log\<close>

fun check_events ::
    "event_codec \<Rightarrow> string \<Rightarrow> op_event btree \<Rightarrow> string option \<Rightarrow> op_event list \<Rightarrow> op_event btree res"
  where
  "check_events ec sid by_id previous_hash [] = Inr by_id"
| "check_events ec sid by_id previous_hash (e # es) =
     bind_res (validate_session_id (ev_op_id e)) (\<lambda>_.
     bail_if (ev_session_id e \<noteq> sid \<or> \<not> verify_integrity ec e)
       ''legacy event failed session/payload/hash validation'' (
     bail_if (ev_prev_event_hash e \<noteq> previous_hash)
       ''legacy event append hash chain is corrupt'' (
     bail_if (bt_contains by_id (ev_op_id e)) ''duplicate legacy event id''
       (check_events ec sid (bt_insert (ev_op_id e) e by_id) (ev_event_hash e) es))))"

definition check_parents :: "op_event btree \<Rightarrow> op_event list \<Rightarrow> unit res" where
  "check_parents by_id events =
     bail_if (list_ex (\<lambda>e. case ev_parent_id e of
          None \<Rightarrow> False | Some parent \<Rightarrow> \<not> bt_contains by_id parent) events)
       ''legacy event references missing parent'' (Inr ())"

function commit_walk ::
    "op_event btree \<Rightarrow> string set \<Rightarrow> string option \<Rightarrow> string set res" where
  "commit_walk by_id committed cursor =
     (case cursor of
        None \<Rightarrow> Inr committed
      | Some k \<Rightarrow>
          if k \<in> committed then Inr committed
          else (case bt_get by_id k of
                  None \<Rightarrow> Inl (Bail ''legacy projection references missing event'')
                | Some e \<Rightarrow> commit_walk by_id (insert k committed) (ev_parent_id e)))"
  by pat_completeness auto
termination
  by (relation "measure (\<lambda>(by_id, committed, _). card (dom (bt_get by_id) - committed))")
    (auto intro: measure_unseen)

declare commit_walk.simps [simp del]

definition read_events :: "event_codec \<Rightarrow> session_dir \<Rightarrow> op_event list res" where
  "read_events ec sd =
     bind_res (binlog_read_all ec (sd_log sd)) (\<lambda>events.
     bind_res (check_events ec (sd_session_id sd) [] None events) (\<lambda>by_id.
     bind_res (check_parents by_id events) (\<lambda>_.
     let tips = List.map_filter bi_tip_op_id (sd_branches sd)
           @ (case read_head sd of None \<Rightarrow> [] | Some h \<Rightarrow> [h]) in
     bind_res (fold_res (\<lambda>committed tip. commit_walk by_id committed (Some tip)) {} tips)
       (\<lambda>committed. Inr (filter (\<lambda>e. ev_op_id e \<in> committed) events)))))"

section \<open>Replaying an event\<close>

text \<open>Where the list of typed operations is read from: the member \<open>ops\<close>, or the payload as the
  only operation.\<close>

datatype ops_source = OpsArray json | OpsSingle json

datatype op_family =
    FamStructure | FamTransform | FamStyle | FamFormulaPattern | FamReplaceInFormulas
  | FamColumnSize string | FamLayout | FamRules

record 'w workbook_api =
  wa_from_bytes :: "string \<Rightarrow> 'w res"
  wa_to_bytes :: "'w \<Rightarrow> string res"
  wa_write_matrix :: "'w \<Rightarrow> string \<Rightarrow> string \<Rightarrow> json option list list \<Rightarrow> bool \<Rightarrow> 'w res"
  wa_apply_file_ops :: "op_family \<Rightarrow> ops_source \<Rightarrow> 'w \<Rightarrow> 'w res"
  wa_define_name :: "'w \<Rightarrow> string \<Rightarrow> string \<Rightarrow> string option \<Rightarrow> string option \<Rightarrow> 'w res"
  wa_update_name :: "'w \<Rightarrow> string \<Rightarrow> string option \<Rightarrow> string option \<Rightarrow> string option \<Rightarrow> 'w res"
  wa_delete_name :: "'w \<Rightarrow> string \<Rightarrow> string option \<Rightarrow> string option \<Rightarrow> 'w res"
  wa_has_sheet :: "'w \<Rightarrow> string \<Rightarrow> bool"
  wa_cell :: "'w \<Rightarrow> string \<Rightarrow> string \<Rightarrow> string option"
  wa_parse_f64 :: "string \<Rightarrow> json option"
  wa_close :: "json \<Rightarrow> json \<Rightarrow> bool"

definition deserialize_ops_array :: "json \<Rightarrow> ops_source" where
  "deserialize_ops_array payload =
     (case json_get payload ''ops'' of Some v \<Rightarrow> OpsArray v | None \<Rightarrow> OpsSingle payload)"

definition member_str :: "json \<Rightarrow> string \<Rightarrow> string option" where
  "member_str j k = Option.bind (json_get j k) json_str"

definition str_or :: "string option \<Rightarrow> string \<Rightarrow> string" where
  "str_or x d = (case x of None \<Rightarrow> d | Some s \<Rightarrow> s)"

fun matrix_rows :: "json \<Rightarrow> json option list list res" where
  "matrix_rows (JArr rows) =
     map_res (\<lambda>row. case row of
         JArr cells \<Rightarrow> Inr (map (\<lambda>cell. if cell = JNull then None else Some cell) cells)
       | _ \<Rightarrow> Inl (Bail ''legacy write_matrix row must be an array'')) rows"
| "matrix_rows _ = Inl (Bail ''legacy write_matrix rows must be an array'')"

definition replay_event_on_session ::
    "'w workbook_api \<Rightarrow> 'w \<Rightarrow> op_event \<Rightarrow> 'w res" where
  "replay_event_on_session api w e =
     (let kind = ev_kind e; payload = ev_payload e;
          ops = deserialize_ops_array payload;
          scope = member_str payload ''scope'';
          scope_sheet = member_str payload ''scope_sheet_name'' in
      if kind \<in> {''transform.write_matrix'', ''edit.batch''} then
        (case json_get payload ''rows'' of
           None \<Rightarrow> Inr w
         | Some rows_val \<Rightarrow> bind_res (matrix_rows rows_val) (\<lambda>rows.
             wa_write_matrix api w (str_or (member_str payload ''sheet_name'') [])
               (str_or (member_str payload ''anchor'') ''A1'') rows
               (case Option.bind (json_get payload ''overwrite_formulas'') json_bool of
                  None \<Rightarrow> False | Some b \<Rightarrow> b)))
      else if starts_with kind ''structure.'' then wa_apply_file_ops api FamStructure ops w
      else if kind \<in> {''transform.clear_range'', ''transform.fill_range'',
                       ''transform.replace_in_range''} then wa_apply_file_ops api FamTransform ops w
      else if kind = ''style.apply'' then wa_apply_file_ops api FamStyle ops w
      else if kind = ''formula.apply_pattern'' then wa_apply_file_ops api FamFormulaPattern ops w
      else if kind = ''formula.replace_in_formulas''
        then wa_apply_file_ops api FamReplaceInFormulas (OpsSingle payload) w
      else if kind = ''column.size''
        then wa_apply_file_ops api (FamColumnSize (str_or (member_str payload ''sheet_name'') [])) ops w
      else if kind = ''layout.apply'' then wa_apply_file_ops api FamLayout ops w
      else if kind = ''rules.apply'' then wa_apply_file_ops api FamRules ops w
      else if kind = ''name.define''
        then wa_define_name api w (str_or (member_str payload ''name'') [])
          (str_or (member_str payload ''refers_to'') []) scope scope_sheet
      else if kind = ''name.update''
        then wa_update_name api w (str_or (member_str payload ''name'') [])
          (member_str payload ''refers_to'') scope scope_sheet
      else if kind = ''name.delete''
        then wa_delete_name api w (str_or (member_str payload ''name'') []) scope scope_sheet
      else Inr w)"

section \<open>Materialisation\<close>

definition events_by_id :: "op_event list \<Rightarrow> op_event btree" where
  "events_by_id events = foldl (\<lambda>m e. bt_insert (ev_op_id e) e m) [] events"

function ancestry_walk ::
    "op_event btree \<Rightarrow> string set \<Rightarrow> string option \<Rightarrow> op_event list \<Rightarrow> op_event list res" where
  "ancestry_walk by_id seen cursor acc =
     (case cursor of
        None \<Rightarrow> Inr acc
      | Some k \<Rightarrow>
          if k \<in> seen then Inl (Bail ''legacy event ancestry cycle'')
          else (case bt_get by_id k of
                  None \<Rightarrow> Inl (Bail ''target event is absent from committed legacy history'')
                | Some e \<Rightarrow> ancestry_walk by_id (insert k seen) (ev_parent_id e) (e # acc)))"
  by pat_completeness auto
termination
  by (relation "measure (\<lambda>(by_id, seen, _, _). card (dom (bt_get by_id) - seen))")
    (auto intro: measure_unseen)

declare ancestry_walk.simps [simp del]

definition materialize_at ::
    "event_codec \<Rightarrow> 'w workbook_api \<Rightarrow> session_dir \<Rightarrow> string \<Rightarrow> string res" where
  "materialize_at ec api sd target_op_id =
     bind_res (read_events ec sd) (\<lambda>events.
     bind_res (ancestry_walk (events_by_id events) {} (Some target_op_id) []) (\<lambda>ancestry.
     bind_res (wa_from_bytes api (sd_base sd)) (\<lambda>session.
     bind_res (fold_res (replay_event_on_session api) session ancestry) (wa_to_bytes api))))"

definition materialize :: "event_codec \<Rightarrow> 'w workbook_api \<Rightarrow> session_dir \<Rightarrow> string res" where
  "materialize ec api sd =
     (case read_head sd of
        Some op_id \<Rightarrow> materialize_at ec api sd op_id
      | None \<Rightarrow> Inr (sd_base sd))"

section \<open>Preconditions\<close>

definition cell_value_json :: "'w workbook_api \<Rightarrow> string \<Rightarrow> json" where
  "cell_value_json api val =
     (if val = [] then JNull
      else (case wa_parse_f64 api val of
              Some n \<Rightarrow> n
            | None \<Rightarrow>
                if val = ''TRUE'' \<or> val = ''true'' then JBool True
                else if val = ''FALSE'' \<or> val = ''false'' then JBool False
                else JStr val))"

fun is_number :: "json \<Rightarrow> bool" where
  "is_number (JInt _) = True"
| "is_number (JFloat _) = True"
| "is_number _ = False"

definition value_matches :: "'w workbook_api \<Rightarrow> json \<Rightarrow> json \<Rightarrow> bool" where
  "value_matches api expected actual =
     (if is_number expected \<and> is_number actual then wa_close api expected actual
      else expected = actual)"

definition cell_violation :: "'w workbook_api \<Rightarrow> 'w \<Rightarrow> cell_match \<Rightarrow> string list res" where
  "cell_violation api w cm =
     bind_res (ok_or (rsplit_once CHR 0x21 (cm_address cm))
         ''cell_matches address missing Sheet!Cell notation'') (\<lambda>(sheet_name, cell_ref).
     if \<not> wa_has_sheet api w sheet_name then Inr [cm_address cm @ '': sheet '' @ [CHR 0x27] @ sheet_name @ [CHR 0x27] @ '' not found'']
     else let actual = (case wa_cell api w sheet_name cell_ref of
                          None \<Rightarrow> JNull | Some val \<Rightarrow> cell_value_json api val)
          in Inr (if value_matches api (cm_value cm) actual then []
                  else [cm_address cm @ '': expected'']))"

definition evaluate_cell_matches ::
    "'w workbook_api \<Rightarrow> 'w \<Rightarrow> cell_match list \<Rightarrow> string list res" where
  "evaluate_cell_matches api w cell_matches =
     bind_res (map_res (cell_violation api w) cell_matches) (\<lambda>vs. Inr (concat vs))"

definition compute_workbook_hash :: "event_codec \<Rightarrow> string \<Rightarrow> string" where
  "compute_workbook_hash ec bytes = prefixed_sha256 ec bytes"

definition check_preconditions ::
    "event_codec \<Rightarrow> 'w workbook_api \<Rightarrow> session_dir \<Rightarrow> op_event \<Rightarrow> unit res" where
  "check_preconditions ec api sd e =
     (case ev_preconditions e of
        None \<Rightarrow> Inr ()
      | Some pre \<Rightarrow>
          if pr_cell_matches pre \<noteq> [] \<or> pr_workbook_hash_before pre \<noteq> None then
            bind_res (materialize ec api sd) (\<lambda>wb_bytes.
            bail_if (\<not> option_all (\<lambda>expected. compute_workbook_hash ec wb_bytes = expected)
                (pr_workbook_hash_before pre))
              ''precondition failed: workbook_hash_before mismatch'' (
            if pr_cell_matches pre \<noteq> [] then
              bind_res (wa_from_bytes api wb_bytes) (\<lambda>w.
              bind_res (evaluate_cell_matches api w (pr_cell_matches pre)) (\<lambda>violations.
              bail_if (violations \<noteq> []) ''precondition failed'' (Inr ())))
            else Inr ()))
          else Inr ())"

section \<open>Appending\<close>

definition create_snapshot ::
    "event_codec \<Rightarrow> 'w workbook_api \<Rightarrow> string \<Rightarrow> session_dir \<Rightarrow> string \<Rightarrow> nat \<Rightarrow> session_dir res" where
  "create_snapshot ec api now sd op_id event_count =
     bind_res (materialize_at ec api sd op_id) (\<lambda>bytes.
     let sd = sd \<lparr> sd_snapshots := bt_insert op_id bytes (sd_snapshots sd) \<rparr>;
         manifest = (case sd_manifest sd of
           None \<Rightarrow> manifest_new (sd_session_id sd) | Some m \<Rightarrow> m)
     in Inr (sd \<lparr> sd_manifest := Some (manifest_add_entry manifest
          \<lparr> sn_op_id = op_id, sn_file_name = op_id @ ''.xlsx'',
            sn_file_hash = prefixed_sha256 ec bytes, sn_created_at = now,
            sn_event_count = event_count \<rparr>) \<rparr>))"

text \<open>The hash the new event is chained to: that of the last event of the log, but none when the
  head is at the base.\<close>

definition append_prev_hash :: "event_codec \<Rightarrow> session_dir \<Rightarrow> string option res" where
  "append_prev_hash ec sd =
     (if read_head sd \<noteq> None
      then bind_res (binlog_tip ec (sd_log sd)) (\<lambda>tip. Inr (Option.bind tip ev_event_hash))
      else Inr None)"

definition append_event ::
    "event_codec \<Rightarrow> 'w workbook_api \<Rightarrow> string \<Rightarrow> session_dir \<Rightarrow> op_event \<Rightarrow> session_dir res" where
  "append_event ec api now sd e =
     bind_res (validate_session_id (ev_op_id e)) (\<lambda>_.
     bail_if (ev_session_id e \<noteq> sd_session_id sd) ''event belongs to a different session'' (
     bind_res (ensure_legacy_writable sd) (\<lambda>_.
     bail_if (ev_parent_id e \<noteq> read_head sd) ''CAS conflict'' (
     bind_res (check_preconditions ec api sd e) (\<lambda>_.
     bind_res (append_prev_hash ec sd) (\<lambda>prev_hash.
     let e = event_seal ec (e \<lparr> ev_prev_event_hash := prev_hash \<rparr>);
         sd = sd \<lparr> sd_log := binlog_append ec (sd_log sd) e \<rparr> in
     bind_res (write_head sd (ev_op_id e)) (\<lambda>sd.
     let sd = sd \<lparr> sd_branches :=
           set_branch_tip (sd_branches sd) (current_branch sd) (Some (ev_op_id e)) \<rparr>;
         event_count = binlog_count (sd_log sd)
     in Inr (if event_count > 0 \<and> event_count mod snapshot_interval = 0
             then (case create_snapshot ec api now sd (ev_op_id e) event_count of
                     Inl _ \<Rightarrow> sd | Inr sd' \<Rightarrow> sd')
             else sd))))))))"

section \<open>Moving the head\<close>

definition undo_event :: "event_codec \<Rightarrow> session_dir \<Rightarrow> (session_dir \<times> string option) res" where
  "undo_event ec sd =
     bind_res (ok_or (read_head sd) ''already at base: nothing to undo'') (\<lambda>head_id.
     bind_res (read_events ec sd) (\<lambda>events.
     bind_res (ok_or (List.find (\<lambda>e. ev_op_id e = head_id) events) ''HEAD event not found in binlog'')
       (\<lambda>head_event.
     case ev_parent_id head_event of
       Some parent \<Rightarrow> bind_res (write_head sd parent) (\<lambda>sd. Inr (sd, Some parent))
     | None \<Rightarrow> bind_res (clear_head sd) (\<lambda>sd. Inr (sd, None)))))"

definition redo_event :: "event_codec \<Rightarrow> session_dir \<Rightarrow> (session_dir \<times> string option) res" where
  "redo_event ec sd =
     bind_res (read_events ec sd) (\<lambda>events.
     bind_res (ok_or
         (case read_head sd of
            Some head_id \<Rightarrow> List.find (\<lambda>e. ev_parent_id e = Some head_id) events
          | None \<Rightarrow> first_opt events)
         ''nothing to redo'') (\<lambda>e.
     bind_res (write_head sd (ev_op_id e)) (\<lambda>sd. Inr (sd, Some (ev_op_id e)))))"

definition checkout_event :: "event_codec \<Rightarrow> session_dir \<Rightarrow> string \<Rightarrow> session_dir res" where
  "checkout_event ec sd op_id =
     bind_res (read_events ec sd) (\<lambda>events.
     bail_if (\<not> list_ex (\<lambda>e. ev_op_id e = op_id) events) ''op_id not found in event log''
       (write_head sd op_id))"

section \<open>The store\<close>

type_synonym session_store = "session_dir btree"

definition list_sessions :: "session_store \<Rightarrow> string list" where
  "list_sessions st = filter (\<lambda>k. starts_with k ''sess_'') (bt_keys st)"

text \<open>\<open>create_session\<close>: the base workbook's bytes (none when the file does not exist), the
  generated session id and the clock are arguments.\<close>

definition create_session ::
    "string \<Rightarrow> string \<Rightarrow> session_store \<Rightarrow> string option \<Rightarrow> (session_store \<times> session_dir) res" where
  "create_session session_id now st base =
     bail_if (length (list_sessions st) \<ge> max_sessions) ''session limit reached'' (
     bind_res (ok_or base ''base file not found'') (\<lambda>bytes.
     let sd = \<lparr> sd_session_id = session_id, sd_is_dir = True, sd_frozen = False,
           sd_base = bytes, sd_log = [], sd_head = [], sd_current_branch = ''main'',
           sd_branches = branches_new now, sd_manifest = Some (manifest_new session_id),
           sd_snapshots = [] \<rparr>
     in Inr (bt_insert session_id sd st, sd)))"

definition open_session :: "session_store \<Rightarrow> string \<Rightarrow> session_dir res" where
  "open_session st session_id =
     bind_res (validate_session_id session_id) (\<lambda>_.
     bind_res (ok_or (bt_get st session_id) ''session not found'') (\<lambda>sd.
     bind_res (ensure_legacy_writable sd) (\<lambda>_. Inr sd)))"

definition open_frozen_import :: "session_store \<Rightarrow> string \<Rightarrow> session_dir res" where
  "open_frozen_import st session_id =
     bind_res (validate_session_id session_id) (\<lambda>_.
     bind_res (ok_or (bt_get st session_id) ''session not found'') (\<lambda>sd.
     bail_if (\<not> sd_frozen sd) ''legacy import requires an explicitly frozen copy'' (Inr sd)))"

definition delete_session :: "session_store \<Rightarrow> string \<Rightarrow> session_store res" where
  "delete_session st session_id =
     bind_res (validate_session_id session_id) (\<lambda>_.
     bind_res (ok_or (bt_get st session_id) ''session not found'') (\<lambda>sd.
     bail_if (sd_frozen sd) ''legacy session is frozen for resident import; deletion refused''
       (Inr (bt_remove session_id st))))"

section \<open>Well-formed logs\<close>

text \<open>Every event passes the validation of the reader and was made on the base or on an event
  that precedes it in the log.\<close>

definition parents_precede :: "op_event list \<Rightarrow> bool" where
  "parents_precede es = (\<forall>xs e ys. es = xs @ e # ys \<longrightarrow>
     (case ev_parent_id e of None \<Rightarrow> True | Some p \<Rightarrow> p \<in> ev_op_id ` set xs))"

definition log_ok :: "event_codec \<Rightarrow> string \<Rightarrow> op_event list \<Rightarrow> bool" where
  "log_ok ec sid es = (is_ok (check_events ec sid [] None es) \<and> parents_precede es)"

definition op_known :: "op_event list \<Rightarrow> string option \<Rightarrow> bool" where
  "op_known es h = (case h of None \<Rightarrow> True | Some k \<Rightarrow> k \<in> ev_op_id ` set es)"

definition session_ok :: "event_codec \<Rightarrow> session_dir \<Rightarrow> op_event list \<Rightarrow> bool" where
  "session_ok ec sd es =
     (closed_log (sd_log sd) \<and> binlog_read_all ec (sd_log sd) = Inr es
      \<and> log_ok ec (sd_session_id sd) es \<and> op_known es (read_head sd)
      \<and> (\<forall>b \<in> set (sd_branches sd). op_known es (bi_tip_op_id b)))"

lemma is_ok_Inr: "is_ok m \<longleftrightarrow> (\<exists>x. m = Inr x)"
  by (cases m) auto

lemma parents_precede_snoc:
  "parents_precede (es @ [e]) \<longleftrightarrow> parents_precede es \<and> op_known es (ev_parent_id e)"
proof -
  have split: "es @ [e] = xs @ x # ys \<longleftrightarrow>
      (ys = [] \<and> xs = es \<and> x = e) \<or> (\<exists>zs. ys = zs @ [e] \<and> es = xs @ x # zs)" for xs x ys
    by (cases ys rule: rev_cases) auto
  show ?thesis unfolding parents_precede_def split op_known_def by (auto split: option.splits)
qed

lemma check_events_snoc:
  "check_events ec sid m prev (es @ [e]) =
     bind_res (check_events ec sid m prev es) (\<lambda>m'.
       check_events ec sid m' (case last_opt es of None \<Rightarrow> prev | Some x \<Rightarrow> ev_event_hash x) [e])"
proof (induction es arbitrary: m prev)
  case Nil
  then show ?case by simp
next
  case (Cons x es)
  show ?case
    by (cases "validate_session_id (ev_op_id x)"; cases "es = []")
      (auto simp: Cons.IH last_opt_def bail_if_def)
qed

lemma check_events_map:
  assumes "check_events ec sid m prev es = Inr m'"
  shows "distinct (map ev_op_id es) \<and> (\<forall>e \<in> set es. bt_get m (ev_op_id e) = None)
    \<and> bt_get m' = (\<lambda>k. case List.find (\<lambda>e. ev_op_id e = k) es of Some e \<Rightarrow> Some e | None \<Rightarrow> bt_get m k)"
  using assms
proof (induction es arbitrary: m prev)
  case Nil
  then show ?case by simp
next
  case (Cons x es)
  then have fresh: "bt_get m (ev_op_id x) = None"
    and rest: "check_events ec sid (bt_insert (ev_op_id x) x m) (ev_event_hash x) es = Inr m'"
    by (auto simp: bind_res_Inr)
  from Cons.IH [OF rest] fresh show ?case
    by (fastforce simp: fun_eq_iff find_None split: option.splits if_splits dest: find_Some)
qed

lemma check_events_all:
  "check_events ec sid m prev es = Inr m' \<Longrightarrow> e \<in> set es \<Longrightarrow>
     validate_session_id (ev_op_id e) = Inr () \<and> ev_session_id e = sid \<and> verify_integrity ec e"
  by (induction es arbitrary: m prev) (auto simp: bind_res_Inr)

lemma find_id:
  assumes "distinct (map ev_op_id es)"
  shows "List.find (\<lambda>e. ev_op_id e = k) es = Some e \<longleftrightarrow> e \<in> set es \<and> ev_op_id e = k"
  using assms
proof (induction es)
  case (Cons x es)
  then show ?case by auto
qed simp

lemma log_ok_distinct: "log_ok ec sid es \<Longrightarrow> distinct (map ev_op_id es)"
  by (auto simp: log_ok_def is_ok_Inr dest: check_events_map)

lemma log_ok_by_id:
  assumes "log_ok ec sid es" and "check_events ec sid [] None es = Inr m"
  shows "bt_get m k = Some e \<longleftrightarrow> e \<in> set es \<and> ev_op_id e = k"
proof -
  have "bt_get m k = List.find (\<lambda>e. ev_op_id e = k) es"
    using check_events_map [OF assms(2)] by (simp add: fun_eq_iff split: option.splits)
  then show ?thesis by (simp add: find_id [OF log_ok_distinct [OF assms(1)]])
qed

section \<open>The event history is a forest\<close>

definition event_parent :: "op_event list \<Rightarrow> string \<Rightarrow> string option option" where
  "event_parent es k = map_option ev_parent_id (List.find (\<lambda>e. ev_op_id e = k) es)"

definition event_rank :: "op_event list \<Rightarrow> string \<Rightarrow> nat" where
  "event_rank es k = (case position (\<lambda>e. ev_op_id e = k) es of None \<Rightarrow> 0 | Some i \<Rightarrow> i)"

lemma position_prefix:
  "k \<in> ev_op_id ` set xs \<Longrightarrow> \<exists>i. position (\<lambda>e. ev_op_id e = k) (xs @ ys) = Some i \<and> i < length xs"
  by (induction xs) auto

lemma position_split:
  "ev_op_id e \<notin> ev_op_id ` set xs \<Longrightarrow>
     position (\<lambda>x. ev_op_id x = ev_op_id e) (xs @ e # ys) = Some (length xs)"
  by (induction xs) auto

lemma event_parent_ranked:
  assumes "parents_precede es" and "distinct (map ev_op_id es)"
    and "event_parent es x = Some (Some y)"
  shows "event_parent es y \<noteq> None \<and> event_rank es y < event_rank es x"
proof -
  from assms(3) obtain e where e: "e \<in> set es" "ev_op_id e = x" "ev_parent_id e = Some y"
    by (auto simp: event_parent_def find_id [OF assms(2)])
  from e(1) obtain xs ys where es: "es = xs @ e # ys" by (auto dest: split_list)
  from assms(1) [unfolded parents_precede_def, rule_format, OF es] e(3)
  have y: "y \<in> ev_op_id ` set xs" by simp
  from assms(2) es have fresh: "ev_op_id e \<notin> ev_op_id ` set xs" by auto
  from position_prefix [OF y, of "e # ys"] position_split [OF fresh, of ys] e(2) es
  have "event_rank es y < event_rank es x" by (auto simp: event_rank_def)
  moreover have "event_parent es y \<noteq> None"
    using y es by (auto simp: event_parent_def find_None)
  ultimately show ?thesis by simp
qed

interpretation events: ancestry event_parent "\<lambda>es. parents_precede es \<and> distinct (map ev_op_id es)"
proof
  fix es
  assume "parents_precede es \<and> distinct (map ev_op_id es)"
  then show "\<exists>rank :: string \<Rightarrow> nat. \<forall>x y. event_parent es x = Some (Some y) \<longrightarrow>
      event_parent es y \<noteq> None \<and> rank y < rank x"
    using event_parent_ranked by (intro exI [of _ "event_rank es"]) blast
qed

lemma log_ok_forest: "log_ok ec sid es \<Longrightarrow> parents_precede es \<and> distinct (map ev_op_id es)"
  by (simp add: log_ok_distinct) (simp add: log_ok_def)

lemma known_path:
  assumes "log_ok ec sid es" and "op_known es h"
  obtains xs where "path_to (event_parent es) h xs" and "distinct xs"
proof -
  have "h = None \<or> (\<exists>x. h = Some x \<and> event_parent es x \<noteq> None)"
    using assms(2) by (cases h) (auto simp: op_known_def event_parent_def find_None)
  from events.path_exists [OF log_ok_forest [OF assms(1)] this] that show ?thesis by blast
qed

section \<open>What reading a session returns\<close>

lemma event_parent_Some:
  assumes "distinct (map ev_op_id es)"
  shows "event_parent es k = Some q \<longleftrightarrow> (\<exists>e \<in> set es. ev_op_id e = k \<and> ev_parent_id e = q)"
  by (auto simp: event_parent_def find_id [OF assms])

definition links_closed :: "op_event list \<Rightarrow> string set \<Rightarrow> string option \<Rightarrow> bool" where
  "links_closed es C cur = (\<forall>x \<in> C. \<forall>y. event_parent es x = Some (Some y) \<longrightarrow> y \<in> C \<or> cur = Some y)"

definition ancestors :: "op_event list \<Rightarrow> string list \<Rightarrow> string set" where
  "ancestors es tips =
     {k. \<exists>t \<in> set tips. \<exists>xs. path_to (event_parent es) (Some t) xs \<and> k \<in> set xs}"

lemma path_to_SomeE:
  assumes "path_to par (Some h) xs"
  obtains q ys where "xs = h # ys" and "par h = Some q" and "path_to par q ys"
  using assms by (cases xs) (auto split: option.splits)

lemma path_to_Cons:
  "path_to par (Some h) (x # xs) \<longleftrightarrow> x = h \<and> (\<exists>q. par h = Some q \<and> path_to par q xs)"
  by (auto split: option.splits)

lemma closed_path:
  assumes "links_closed es C None"
  shows "path_to (event_parent es) (Some x) xs \<Longrightarrow> x \<in> C \<Longrightarrow> set xs \<subseteq> C"
proof (induction xs arbitrary: x)
  case (Cons a xs)
  from Cons.prems(1) obtain q where q: "a = x" "event_parent es x = Some q"
    "path_to (event_parent es) q xs" unfolding path_to_Cons by blast
  show ?case
  proof (cases q)
    case None
    with q Cons.prems(2) show ?thesis by simp
  next
    case (Some y)
    with assms q(2) Cons.prems(2) have "y \<in> C" by (auto simp: links_closed_def)
    with Cons.IH [of y] q Some Cons.prems(2) show ?thesis by simp
  qed
qed simp

lemma path_closed:
  assumes "path_to (event_parent es) h xs"
  shows "links_closed es (set xs) None"
proof -
  have "y \<in> set xs" if "x \<in> set xs" and "event_parent es x = Some (Some y)" for x y
  proof -
    from that(1) obtain us vs where xs: "xs = us @ x # vs" by (auto dest: split_list)
    from path_to_parent [OF assms [unfolded xs] that(2)] have "y \<in> set vs"
      by (auto elim: path_to_SomeE)
    with xs show ?thesis by simp
  qed
  then show ?thesis by (auto simp: links_closed_def)
qed

lemma commit_walk_path:
  assumes by_id: "\<And>k e. bt_get m k = Some e \<longleftrightarrow> e \<in> set es \<and> ev_op_id e = k"
    and distinct: "distinct (map ev_op_id es)"
  shows "path_to (event_parent es) cur xs \<Longrightarrow> links_closed es C cur \<Longrightarrow>
    commit_walk m C cur = Inr (C \<union> set xs)"
proof (induction xs arbitrary: cur C)
  case Nil
  then have "cur = None" by (cases cur) auto
  then show ?case by (simp add: commit_walk.simps)
next
  case (Cons x xs)
  then obtain q where cur: "cur = Some x" and q: "event_parent es x = Some q"
    and rest: "path_to (event_parent es) q xs"
    by (cases cur) (auto simp: path_to_Cons simp del: path_to.simps(3))
  from q obtain e where e: "e \<in> set es" "ev_op_id e = x" "ev_parent_id e = q"
    using event_parent_Some [OF distinct] by auto
  show ?case
  proof (cases "x \<in> C")
    case True
    with Cons.prems(2) cur have "links_closed es C None" by (auto simp: links_closed_def)
    from closed_path [OF this _ True, of "x # xs"] Cons.prems(1) cur have "set (x # xs) \<subseteq> C" by simp
    then have "C \<union> set (x # xs) = C" by blast
    moreover have "commit_walk m C (Some x) = Inr C"
      using True by (subst commit_walk.simps) simp
    ultimately show ?thesis by (simp add: cur)
  next
    case False
    from Cons.prems(2) cur q have "links_closed es (insert x C) q"
      by (auto simp: links_closed_def)
    from Cons.IH [OF rest this] False e by_id [of x e] show ?thesis
      by (simp add: commit_walk.simps [of _ _ "Some x"] cur)
  qed
qed

lemma commit_fold:
  assumes by_id: "\<And>k e. bt_get m k = Some e \<longleftrightarrow> e \<in> set es \<and> ev_op_id e = k"
    and ok: "log_ok ec sid es"
  shows "\<forall>t \<in> set tips. op_known es (Some t) \<Longrightarrow> links_closed es C None \<Longrightarrow>
    fold_res (\<lambda>c t. commit_walk m c (Some t)) C tips = Inr (C \<union> ancestors es tips)"
proof (induction tips arbitrary: C)
  case Nil
  then show ?case by (simp add: ancestors_def)
next
  case (Cons t tips)
  obtain xs where xs: "path_to (event_parent es) (Some t) xs" "distinct xs"
    using known_path [OF ok, of "Some t"] Cons.prems(1) by auto
  from Cons.prems(2) have "links_closed es C (Some t)" by (auto simp: links_closed_def)
  note walk = commit_walk_path [OF by_id log_ok_distinct [OF ok] xs(1) this]
  have closed: "links_closed es (C \<union> set xs) None"
    using Cons.prems(2) path_closed [OF xs(1)] by (auto simp: links_closed_def)
  have "{k. \<exists>ys. path_to (event_parent es) (Some t) ys \<and> k \<in> set ys} = set xs"
    using xs(1) path_to_unique [OF xs(1)] by blast
  then have "ancestors es (t # tips) = set xs \<union> ancestors es tips"
    unfolding ancestors_def by auto
  with Cons.IH [OF _ closed] Cons.prems(1) walk show ?case by (simp add: Un_assoc)
qed

definition session_tips :: "session_dir \<Rightarrow> string list" where
  "session_tips sd = List.map_filter bi_tip_op_id (sd_branches sd)
     @ (case read_head sd of None \<Rightarrow> [] | Some h \<Rightarrow> [h])"

text \<open>Reading a well-formed session succeeds and returns, in log order, the events some branch
  tip or the head descends from.\<close>

lemma read_events_ok:
  assumes "session_ok ec sd es"
  shows "read_events ec sd = Inr (filter (\<lambda>e. ev_op_id e \<in> ancestors es (session_tips sd)) es)"
proof -
  from assms have raw: "binlog_read_all ec (sd_log sd) = Inr es"
    and log: "log_ok ec (sd_session_id sd) es" by (simp_all add: session_ok_def)
  then obtain m where m: "check_events ec (sd_session_id sd) [] None es = Inr m"
    by (auto simp: log_ok_def is_ok_Inr)
  note by_id = log_ok_by_id [OF log m]
  have "bt_get m p \<noteq> None" if "e \<in> set es" and "ev_parent_id e = Some p" for e p
    using event_parent_ranked [of es "ev_op_id e" p] log_ok_forest [OF log] that
    by (auto simp: event_parent_Some by_id event_parent_def find_id)
  then have parents: "check_parents m es = Inr ()"
    by (force simp: check_parents_def list_ex_iff bail_if_def split: option.splits)
  have "\<forall>t \<in> set (session_tips sd). op_known es (Some t)"
    using assms by (force simp: session_ok_def session_tips_def List.map_filter_def op_known_def
        split: option.splits)
  from commit_fold [OF by_id log this, of "{}"] show ?thesis
    by (simp add: read_events_def raw m parents session_tips_def [symmetric] links_closed_def)
qed

section \<open>Materialisation replays the lineage of the head\<close>

text \<open>\<open>evs\<close> are the events from \<open>h\<close> back to the base.\<close>

definition lineage :: "op_event list \<Rightarrow> string option \<Rightarrow> op_event list \<Rightarrow> bool" where
  "lineage es h evs = (path_to (event_parent es) h (map ev_op_id evs) \<and> set evs \<subseteq> set es)"

lemma events_by_id_snoc: "events_by_id (es @ [e]) = bt_insert (ev_op_id e) e (events_by_id es)"
  by (simp add: events_by_id_def)

lemma events_by_id_get:
  "distinct (map ev_op_id es) \<Longrightarrow>
     bt_get (events_by_id es) k = Some e \<longleftrightarrow> e \<in> set es \<and> ev_op_id e = k"
proof (induction es rule: rev_induct)
  case Nil
  then show ?case by (simp add: events_by_id_def)
next
  case (snoc x es)
  then have IH: "bt_get (events_by_id es) k = Some e \<longleftrightarrow> e \<in> set es \<and> ev_op_id e = k" by simp
  from snoc.prems have "ev_op_id x \<notin> ev_op_id ` set es" by simp
  then have "e \<in> set es \<Longrightarrow> ev_op_id e \<noteq> ev_op_id x" by (metis imageI)
  with IH show ?case by (cases "k = ev_op_id x") (auto simp: events_by_id_snoc)
qed

lemma ancestry_walk_path:
  assumes by_id: "\<And>k e. bt_get m k = Some e \<longleftrightarrow> e \<in> set fs \<and> ev_op_id e = k"
    and sub: "set fs \<subseteq> set es" and distinct: "distinct (map ev_op_id es)"
  shows "path_to (event_parent es) cur (map ev_op_id evs) \<Longrightarrow> distinct (map ev_op_id evs) \<Longrightarrow>
    seen \<inter> ev_op_id ` set evs = {} \<Longrightarrow> set evs \<subseteq> set fs \<Longrightarrow>
    ancestry_walk m seen cur acc = Inr (rev evs @ acc)"
proof (induction evs arbitrary: cur seen acc)
  case Nil
  then have "cur = None" by (cases cur) auto
  then show ?case by (simp add: ancestry_walk.simps)
next
  case (Cons e evs)
  then obtain q where cur: "cur = Some (ev_op_id e)" and q: "event_parent es (ev_op_id e) = Some q"
    and rest: "path_to (event_parent es) q (map ev_op_id evs)"
    by (cases cur) (auto simp: path_to_Cons simp del: path_to.simps(3))
  from Cons.prems(4) sub have "e \<in> set es" by auto
  then have "List.find (\<lambda>x. ev_op_id x = ev_op_id e) es = Some e" by (simp add: find_id [OF distinct])
  with q have "ev_parent_id e = q" by (simp add: event_parent_def)
  moreover have "bt_get m (ev_op_id e) = Some e" using Cons.prems(4) by (simp add: by_id)
  moreover have "insert (ev_op_id e) seen \<inter> ev_op_id ` set evs = {}"
    using Cons.prems(2,3) by auto
  ultimately show ?case using Cons.IH [OF rest] Cons.prems(2-4)
    by (simp add: ancestry_walk.simps [of _ _ "Some (ev_op_id e)"] cur)
qed

lemma lineage_exists:
  assumes "log_ok ec sid es" and "op_known es h"
  obtains evs where "lineage es h evs"
proof -
  from known_path [OF assms] obtain xs where xs: "path_to (event_parent es) h xs" by blast
  have "\<exists>evs. map ev_op_id evs = ys \<and> set evs \<subseteq> set es"
    if "\<forall>x \<in> set ys. event_parent es x \<noteq> None" for ys
    using that
  proof (induction ys)
    case (Cons y ys)
    from Cons.prems obtain e where e: "e \<in> set es" "ev_op_id e = y"
      by (auto simp: event_parent_def dest: find_Some)
    from Cons obtain evs where "map ev_op_id evs = ys" "set evs \<subseteq> set es" by auto
    with e show ?case by (intro exI [of _ "e # evs"]) simp
  qed simp
  from this [of xs] path_to_known [OF xs] that xs show ?thesis by (force simp: lineage_def)
qed

lemma lineage_distinct:
  "log_ok ec sid es \<Longrightarrow> lineage es h evs \<Longrightarrow> distinct (map ev_op_id evs)"
  using events.path_distinct [OF log_ok_forest] by (auto simp: lineage_def)

lemma read_head_tip: "read_head sd = Some h \<Longrightarrow> h \<in> set (session_tips sd)"
  by (simp add: session_tips_def)

lemma materialize_at_lineage:
  assumes ok: "session_ok ec sd es" and tip: "t \<in> set (session_tips sd)"
    and lin: "lineage es (Some t) evs"
  shows "materialize_at ec api sd t = bind_res (wa_from_bytes api (sd_base sd)) (\<lambda>w.
    bind_res (fold_res (replay_event_on_session api) w (rev evs)) (wa_to_bytes api))"
proof -
  from ok have log: "log_ok ec (sd_session_id sd) es" by (simp add: session_ok_def)
  note dist = log_ok_distinct [OF log]
  define fs where "fs = filter (\<lambda>e. ev_op_id e \<in> ancestors es (session_tips sd)) es"
  from dist have dist_fs: "distinct (map ev_op_id fs)" by (simp add: fs_def distinct_map_filter)
  have sub: "set fs \<subseteq> set es" by (auto simp: fs_def)
  have "set evs \<subseteq> set fs" using lin tip by (force simp: fs_def lineage_def ancestors_def)
  from ancestry_walk_path [OF events_by_id_get [OF dist_fs] sub dist _ lineage_distinct [OF log lin] _ this,
      of "Some t" "{}" "[]"] lin
  have "ancestry_walk (events_by_id fs) {} (Some t) [] = Inr (rev evs)" by (simp add: lineage_def)
  then show ?thesis by (simp add: materialize_at_def read_events_ok [OF ok] fs_def [symmetric])
qed

text \<open>C35: materialising a well-formed session replays, on the base workbook and in the order they
  were made, exactly the events from the base to the head.\<close>

theorem materialize_replays_lineage:
  assumes "session_ok ec sd es" and "lineage es (read_head sd) evs"
  shows "materialize ec api sd =
    (if read_head sd = None then Inr (sd_base sd)
     else bind_res (wa_from_bytes api (sd_base sd)) (\<lambda>w.
       bind_res (fold_res (replay_event_on_session api) w (rev evs)) (wa_to_bytes api)))"
proof (cases "read_head sd")
  case None
  then show ?thesis by (simp add: materialize_def)
next
  case (Some h)
  from materialize_at_lineage [OF assms(1) read_head_tip [OF Some]] assms(2) Some
  show ?thesis by (simp add: materialize_def)
qed

section \<open>Appending\<close>

lemma validate_session_id_ok:
  assumes "validate_session_id s = Inr ()"
  shows "s \<noteq> []" and "str_trim s = s"
proof -
  from assms show ne: "s \<noteq> []" by (simp add: validate_session_id_def)
  from assms have all: "list_all (\<lambda>c. is_alnum c \<or> c = CHR ''_'' \<or> c = CHR ''-'') s"
    by (simp add: validate_session_id_def)
  have "\<not> is_space c" if "c \<in> set s" for c
    using all that by (auto simp: list_all_iff is_alnum_def is_alpha_def is_upper_def is_lower_def
        is_digit_def is_space_def ord_of_def)
  then have "dropWhile is_space ys = ys" if "set ys = set s" for ys
    using that by (cases ys) auto
  from this [of s] this [of "rev s"] show "str_trim s = s" by (simp add: str_trim_def)
qed

lemma set_branch_tip_mem:
  "b \<in> set (set_branch_tip bs name tip) \<Longrightarrow> bi_tip_op_id b = tip \<or> b \<in> set bs"
  by (induction bs) (auto split: if_splits)

lemma create_snapshot_frame:
  "create_snapshot ec api now sd op_id n = Inr sd' \<Longrightarrow>
     sd' = sd \<lparr> sd_manifest := sd_manifest sd', sd_snapshots := sd_snapshots sd' \<rparr>"
  by (auto simp: create_snapshot_def bind_res_Inr Let_def)

definition sealed_as :: "event_codec \<Rightarrow> string option \<Rightarrow> op_event \<Rightarrow> op_event" where
  "sealed_as ec prev e = event_seal ec (e \<lparr> ev_prev_event_hash := prev \<rparr>)"

lemma sealed_as_simps [simp]:
  "ev_op_id (sealed_as ec prev e) = ev_op_id e"
  "ev_parent_id (sealed_as ec prev e) = ev_parent_id e"
  "ev_session_id (sealed_as ec prev e) = ev_session_id e"
  "ev_prev_event_hash (sealed_as ec prev e) = prev"
  "ev_event_hash (sealed_as ec prev e) \<noteq> None"
  by (simp_all add: sealed_as_def event_seal_def)

lemma sealed_as_verifies:
  "ev_event_hash e = None \<Longrightarrow>
   ev_canonical_payload_hash e = canonical_payload_hash ec (ev_payload e) \<Longrightarrow>
   verify_integrity ec (sealed_as ec prev e)"
  unfolding sealed_as_def by (rule seal_verifies) simp_all

text \<open>What a successful append checked and which files it wrote.\<close>

lemma append_event_shape:
  assumes "append_event ec api now sd e = Inr sd'"
  obtains prev m snaps where
    "validate_session_id (ev_op_id e) = Inr ()" and "ev_session_id e = sd_session_id sd"
    and "sd_is_dir sd" and "\<not> sd_frozen sd" and "ev_parent_id e = read_head sd"
    and "check_preconditions ec api sd e = Inr ()" and "append_prev_hash ec sd = Inr prev"
    and "sd' = sd \<lparr> sd_log := binlog_append ec (sd_log sd) (sealed_as ec prev e),
          sd_head := ev_op_id e,
          sd_branches := set_branch_tip (sd_branches sd) (current_branch sd) (Some (ev_op_id e)),
          sd_manifest := m, sd_snapshots := snaps \<rparr>"
proof -
  from assms obtain prev where checks: "validate_session_id (ev_op_id e) = Inr ()"
    "ev_session_id e = sd_session_id sd" "sd_is_dir sd" "\<not> sd_frozen sd"
    "ev_parent_id e = read_head sd" "check_preconditions ec api sd e = Inr ()"
    and prev: "append_prev_hash ec sd = Inr prev"
    by (auto simp: append_event_def bind_res_Inr ensure_legacy_writable_def)
  define base where "base = sd \<lparr> sd_log := binlog_append ec (sd_log sd) (sealed_as ec prev e),
      sd_head := ev_op_id e,
      sd_branches := set_branch_tip (sd_branches sd) (current_branch sd) (Some (ev_op_id e)) \<rparr>"
  have "sd' = base \<or> (\<exists>n. create_snapshot ec api now base (ev_op_id e) n = Inr sd')"
    using assms checks prev
    by (auto simp: append_event_def ensure_legacy_writable_def write_head_def Let_def base_def
        sealed_as_def [symmetric] current_branch_def split: if_splits sum.splits)
  then have "\<exists>m snaps. sd' = base \<lparr> sd_manifest := m, sd_snapshots := snaps \<rparr>"
  proof
    assume "sd' = base"
    then have "sd' = base \<lparr> sd_manifest := sd_manifest base, sd_snapshots := sd_snapshots base \<rparr>"
      by simp
    then show ?thesis by blast
  qed (use create_snapshot_frame in blast)
  with that [OF checks prev] show ?thesis unfolding base_def by blast
qed

text \<open>The hash the code chains the event to, when the log reads as \<open>es\<close>.\<close>

lemma append_prev_hash_value:
  assumes "binlog_read_all ec (sd_log sd) = Inr es"
  shows "append_prev_hash ec sd =
    Inr (if read_head sd = None then None else Option.bind (last_opt es) ev_event_hash)"
  by (simp add: append_prev_hash_def binlog_tip_def assms)

lemma check_events_last:
  assumes "check_events ec sid [] None es = Inr m"
  shows "check_events ec sid [] None (es @ [e]) =
    check_events ec sid m (Option.bind (last_opt es) ev_event_hash) [e]"
  using assms by (cases "last_opt es") (auto simp: check_events_snoc)

text \<open>The conditions on the event under which \<open>append_event\<close> is called: a fresh identifier, not
  yet sealed, its payload hash intact, and its text readable.\<close>

definition appendable :: "event_codec \<Rightarrow> op_event list \<Rightarrow> string option \<Rightarrow> op_event \<Rightarrow> bool" where
  "appendable ec es prev e =
     (ev_op_id e \<notin> ev_op_id ` set es \<and> ev_event_hash e = None
      \<and> ev_canonical_payload_hash e = canonical_payload_hash ec (ev_payload e)
      \<and> event_codec_ok ec (sealed_as ec prev e))"

lemma op_known_mono: "op_known es h \<Longrightarrow> op_known (es @ xs) h"
  by (auto simp: op_known_def split: option.splits)

lemma append_session_ok:
  assumes ok: "session_ok ec sd es" and run: "append_event ec api now sd e = Inr sd'"
    and prev: "prev = Option.bind (last_opt es) ev_event_hash"
    and fresh: "appendable ec es prev e" and chained: "read_head sd \<noteq> None \<or> es = []"
  shows "session_ok ec sd' (es @ [sealed_as ec prev e])" and "read_head sd' = Some (ev_op_id e)"
    and "ev_parent_id e = read_head sd" and "sd_base sd' = sd_base sd"
proof -
  from ok have raw: "binlog_read_all ec (sd_log sd) = Inr es" and closed: "closed_log (sd_log sd)"
    and log: "log_ok ec (sd_session_id sd) es" by (simp_all add: session_ok_def)
  have hash: "append_prev_hash ec sd = Inr prev"
    using chained by (auto simp: append_prev_hash_value [OF raw] prev)
  from run obtain m snaps where v: "validate_session_id (ev_op_id e) = Inr ()"
    and sid: "ev_session_id e = sd_session_id sd" and parent: "ev_parent_id e = read_head sd"
    and sd': "sd' = sd \<lparr> sd_log := binlog_append ec (sd_log sd) (sealed_as ec prev e),
          sd_head := ev_op_id e,
          sd_branches := set_branch_tip (sd_branches sd) (current_branch sd) (Some (ev_op_id e)),
          sd_manifest := m, sd_snapshots := snaps \<rparr>"
    by (rule append_event_shape) (use hash in auto)
  show "ev_parent_id e = read_head sd" by (rule parent)
  show "sd_base sd' = sd_base sd" by (simp add: sd')
  show head: "read_head sd' = Some (ev_op_id e)"
    using validate_session_id_ok [OF v] by (simp add: read_head_def sd')
  from fresh have codec: "event_codec_ok ec (sealed_as ec prev e)"
    and verifies: "verify_integrity ec (sealed_as ec prev e)"
    by (auto simp: appendable_def sealed_as_verifies)
  from log obtain by_id where by_id: "check_events ec (sd_session_id sd) [] None es = Inr by_id"
    by (auto simp: log_ok_def is_ok_Inr)
  have "bt_get by_id (ev_op_id e) = None"
  proof (cases "bt_get by_id (ev_op_id e)")
    case (Some x)
    with log_ok_by_id [OF log by_id] have "x \<in> set es" "ev_op_id x = ev_op_id e" by blast+
    then have "ev_op_id e \<in> ev_op_id ` set es" by (metis imageI)
    with fresh show ?thesis by (simp add: appendable_def)
  qed
  then have "is_ok (check_events ec (sd_session_id sd) [] None (es @ [sealed_as ec prev e]))"
    by (simp add: check_events_last [OF by_id] v sid verifies prev [symmetric] domIff)
  moreover have "parents_precede (es @ [sealed_as ec prev e])"
    using log ok by (simp add: parents_precede_snoc parent log_ok_def session_ok_def)
  ultimately have "log_ok ec (sd_session_id sd') (es @ [sealed_as ec prev e])"
    by (simp add: log_ok_def sd')
  moreover have "op_known (es @ [sealed_as ec prev e]) (bi_tip_op_id b)"
    if "b \<in> set (sd_branches sd')" for b
  proof -
    from that have "bi_tip_op_id b = Some (ev_op_id e) \<or> b \<in> set (sd_branches sd)"
      by (auto simp: sd' dest: set_branch_tip_mem)
    then show ?thesis
    proof
      assume "b \<in> set (sd_branches sd)"
      with ok show ?thesis by (simp add: session_ok_def op_known_mono)
    qed (simp add: op_known_def)
  qed
  moreover have "op_known (es @ [sealed_as ec prev e]) (read_head sd')"
    by (simp add: head op_known_def)
  ultimately show "session_ok ec sd' (es @ [sealed_as ec prev e])"
    using read_append [OF codec closed] by (simp add: session_ok_def raw sd')
qed


lemma event_parent_append:
  "event_parent es k \<noteq> None \<Longrightarrow> event_parent (es @ xs) k = event_parent es k"
  by (auto simp: event_parent_def find_append)

lemma path_to_append:
  "path_to (event_parent es) h ys \<Longrightarrow> path_to (event_parent (es @ xs)) h ys"
proof (induction ys arbitrary: h)
  case Nil
  then show ?case by (cases h) auto
next
  case (Cons y ys)
  then show ?case
    by (cases h) (auto simp: path_to_Cons event_parent_append simp del: path_to.simps(3))
qed

lemma lineage_snoc:
  assumes "lineage es (ev_parent_id e) evs" and "ev_op_id e \<notin> ev_op_id ` set es"
  shows "lineage (es @ [e]) (Some (ev_op_id e)) (e # evs)"
proof -
  have "List.find (\<lambda>x. ev_op_id x = ev_op_id e) es = None"
    using assms(2) unfolding find_None by (metis imageI)
  then have "event_parent (es @ [e]) (ev_op_id e) = Some (ev_parent_id e)"
    by (simp add: event_parent_def find_append)
  with assms(1) path_to_append [of es _ _ "[e]"] show ?thesis
    by (auto simp: lineage_def path_to_Cons simp del: path_to.simps(3))
qed

lemma fold_res_snoc:
  "bind_res (fold_res f w (xs @ [x])) g = bind_res (fold_res f w xs) (\<lambda>w. bind_res (f w x) g)"
  by (cases "fold_res f w xs"; cases "f (projr (fold_res f w xs)) x") (auto simp: fold_res_append)

text \<open>Event sourcing: materialising after an append is replaying the lineage of the old head
  and then the appended event; nothing else in the log, not even the other branches, matters.\<close>

theorem append_then_materialize:
  assumes "session_ok ec sd es" and "append_event ec api now sd e = Inr sd'"
    and "prev = Option.bind (last_opt es) ev_event_hash" and "appendable ec es prev e"
    and "read_head sd \<noteq> None \<or> es = []" and "lineage es (read_head sd) evs"
  shows "materialize ec api sd' = bind_res (wa_from_bytes api (sd_base sd)) (\<lambda>w.
    bind_res (fold_res (replay_event_on_session api) w (rev evs)) (\<lambda>w.
    bind_res (replay_event_on_session api w (sealed_as ec prev e)) (wa_to_bytes api)))"
proof -
  note new = append_session_ok [OF assms(1-5)]
  have "lineage (es @ [sealed_as ec prev e]) (Some (ev_op_id e)) (sealed_as ec prev e # evs)"
    using lineage_snoc [of es "sealed_as ec prev e" evs] assms(4,6) new(3)
    by (simp add: appendable_def)
  from materialize_at_lineage [OF new(1) read_head_tip [OF new(2)] this] new(2,4)
  have "materialize ec api sd' = bind_res (wa_from_bytes api (sd_base sd)) (\<lambda>w.
    bind_res (fold_res (replay_event_on_session api) w (rev evs @ [sealed_as ec prev e]))
      (wa_to_bytes api))" by (simp add: materialize_def)
  then show ?thesis by (simp add: fold_res_snoc)
qed

section \<open>Appending on the base of a non-empty log\<close>

text \<open>C38: when the head is at the base and the log is not empty (the state after undoing the
  first event), an append succeeds and makes the session unreadable: the new event is chained to
  no hash although an event precedes it, so the reader, and with it materialising, undo, redo
  and checkout, rejects the log from then on.\<close>

theorem append_at_base_breaks_log:
  assumes "session_ok ec sd es" and "es \<noteq> []" and "read_head sd = None"
    and "append_event ec api now sd e = Inr sd'" and "appendable ec es None e"
  shows "read_events ec sd' = Inl (Bail ''legacy event append hash chain is corrupt'')
    \<and> \<not> is_ok (materialize ec api sd') \<and> \<not> is_ok (undo_event ec sd') \<and> \<not> is_ok (redo_event ec sd')
    \<and> \<not> is_ok (checkout_event ec sd' k)"
proof -
  from assms(1) have raw: "binlog_read_all ec (sd_log sd) = Inr es"
    and closed: "closed_log (sd_log sd)" and log: "log_ok ec (sd_session_id sd) es"
    by (simp_all add: session_ok_def)
  have hash: "append_prev_hash ec sd = Inr None" by (simp add: append_prev_hash_value [OF raw] assms(3))
  from assms(4) obtain m snaps where v: "validate_session_id (ev_op_id e) = Inr ()"
    and sid: "ev_session_id e = sd_session_id sd"
    and sd': "sd' = sd \<lparr> sd_log := binlog_append ec (sd_log sd) (sealed_as ec None e),
          sd_head := ev_op_id e,
          sd_branches := set_branch_tip (sd_branches sd) (current_branch sd) (Some (ev_op_id e)),
          sd_manifest := m, sd_snapshots := snaps \<rparr>"
    by (rule append_event_shape) (use hash in auto)
  from assms(5) have codec: "event_codec_ok ec (sealed_as ec None e)"
    and verifies: "verify_integrity ec (sealed_as ec None e)"
    by (auto simp: appendable_def sealed_as_verifies)
  from log obtain by_id where by_id: "check_events ec (sd_session_id sd) [] None es = Inr by_id"
    by (auto simp: log_ok_def is_ok_Inr)
  have "verify_integrity ec (last es)" using check_events_all [OF by_id, of "last es"] assms(2) by simp
  then have "Option.bind (last_opt es) ev_event_hash \<noteq> None"
    using assms(2) by (auto simp: last_opt_def verify_integrity_def split: option.splits if_splits)
  then have "check_events ec (sd_session_id sd) [] None (es @ [sealed_as ec None e])
      = Inl (Bail ''legacy event append hash chain is corrupt'')"
    by (auto simp: check_events_last [OF by_id] v sid verifies bail_if_def)
  then have broken: "read_events ec sd' = Inl (Bail ''legacy event append hash chain is corrupt'')"
    using read_append(1) [OF codec closed] by (simp add: read_events_def raw sd')
  have "read_head sd' = Some (ev_op_id e)"
    using validate_session_id_ok [OF v] by (simp add: read_head_def sd')
  with broken show ?thesis
    by (simp add: materialize_def materialize_at_def undo_event_def redo_event_def checkout_event_def)
qed

section \<open>Undo and redo\<close>

lemma ancestors_closed: "links_closed es (ancestors es tips) None"
proof -
  have "y \<in> ancestors es tips"
    if "x \<in> ancestors es tips" and "event_parent es x = Some (Some y)" for x y
  proof -
    from that(1) obtain t xs where t: "t \<in> set tips" "path_to (event_parent es) (Some t) xs"
      "x \<in> set xs" by (auto simp: ancestors_def)
    with path_closed [OF t(2)] that(2) have "y \<in> set xs" by (auto simp: links_closed_def)
    with t show ?thesis by (auto simp: ancestors_def)
  qed
  then show ?thesis by (auto simp: links_closed_def)
qed

lemma parents_precede_at: "parents_precede (us @ f # vs) \<Longrightarrow> op_known us (ev_parent_id f)"
  unfolding parents_precede_def op_known_def by blast

lemma first_committed_is_root:
  assumes log: "log_ok ec sid es" and C: "links_closed es C None"
    and first: "first_opt (filter (\<lambda>e. ev_op_id e \<in> C) es) = Some f"
  shows "ev_parent_id f = None"
proof (rule ccontr)
  assume "ev_parent_id f \<noteq> None"
  then obtain q where q: "ev_parent_id f = Some q" by blast
  from first obtain fs where "filter (\<lambda>e. ev_op_id e \<in> C) es = f # fs"
    by (auto simp: first_opt_def split: list.splits)
  then obtain us vs where es: "es = us @ f # vs" and none: "\<forall>u \<in> set us. ev_op_id u \<notin> C"
    and f: "ev_op_id f \<in> C" by (auto simp: filter_eq_Cons_iff)
  have "event_parent es (ev_op_id f) = Some (Some q)"
    by (subst event_parent_Some [OF log_ok_distinct [OF log]]) (use es q in auto)
  with C f have "q \<in> C" by (auto simp: links_closed_def)
  moreover have "q \<in> ev_op_id ` set us"
    using log parents_precede_at [of us f vs] q by (simp add: log_ok_def es op_known_def)
  ultimately show False using none by auto
qed

lemma find_filter_first:
  "List.find p es = Some x \<Longrightarrow> c x \<Longrightarrow> List.find p (filter c es) = Some x"
  by (induction es) (auto split: if_splits)

lemma first_opt_find: "first_opt es = Some f \<Longrightarrow> p f \<Longrightarrow> List.find p es = Some f"
  by (cases es) auto

lemma undo_event_shape:
  assumes "session_ok ec sd es" and "undo_event ec sd = Inr (sd', p)"
  obtains h e where "read_head sd = Some h" and "e \<in> set es" and "ev_op_id e = h"
    and "ev_parent_id e = p" and "sd' = sd \<lparr> sd_head := str_or p [] \<rparr>"
  using assms(2) read_events_ok [OF assms(1)]
  by (auto simp: undo_event_def bind_res_Inr write_head_def clear_head_def str_or_def
      ensure_legacy_writable_def split: option.splits dest!: find_Some)

lemma session_ids_valid:
  assumes "log_ok ec sid es" and "k \<in> ev_op_id ` set es"
  shows "validate_session_id k = Inr ()"
proof -
  from assms(1) obtain m where "check_events ec sid [] None es = Inr m"
    by (auto simp: log_ok_def is_ok_Inr)
  from check_events_all [OF this] assms(2) show ?thesis by auto
qed

lemma parent_known:
  assumes "parents_precede es" and "e \<in> set es"
  shows "op_known es (ev_parent_id e)"
proof -
  from assms(2) obtain us vs where es: "es = us @ e # vs" by (auto dest: split_list)
  from assms(1) [unfolded parents_precede_def, rule_format, OF es] es show ?thesis
    by (auto simp: op_known_def split: option.splits)
qed

lemma undo_keeps_session:
  assumes ok: "session_ok ec sd es" and undo: "undo_event ec sd = Inr (sd', p)"
  shows "session_ok ec sd' es" and "read_head sd' = p"
proof -
  from undo_event_shape [OF ok undo] obtain h e where e: "e \<in> set es" "ev_parent_id e = p"
    and sd': "sd' = sd \<lparr> sd_head := str_or p [] \<rparr>" by metis
  from ok have log: "log_ok ec (sd_session_id sd) es" by (simp add: session_ok_def)
  have known: "op_known es p"
    using parent_known [of es e] log e by (simp add: log_ok_def)
  show head: "read_head sd' = p"
  proof (cases p)
    case None
    then show ?thesis by (simp add: sd' read_head_def str_or_def str_trim_def)
  next
    case (Some k)
    with known have "validate_session_id k = Inr ()"
      by (intro session_ids_valid [OF log]) (simp add: op_known_def)
    with Some validate_session_id_ok show ?thesis by (simp add: sd' read_head_def str_or_def)
  qed
  from ok known head show "session_ok ec sd' es"
    by (simp add: session_ok_def) (simp add: sd')
qed

text \<open>Undo then redo returns to the event that was undone, provided it is the first event of
  the log with its parent and some branch tip still descends from it.\<close>

theorem redo_after_undo:
  assumes "session_ok ec sd es" and "read_head sd = Some h" and "undo_event ec sd = Inr (sd', p)"
    and "List.find (\<lambda>e. ev_parent_id e = p) es = Some e" and "ev_op_id e = h"
    and "b \<in> set (sd_branches sd)" and "bi_tip_op_id b = Some t"
    and "path_to (event_parent es) (Some t) xs" and "h \<in> set xs"
  shows "redo_event ec sd' = Inr (sd' \<lparr> sd_head := h \<rparr>, Some h)"
proof -
  note new = undo_keeps_session [OF assms(1,3)]
  from assms(1) have log: "log_ok ec (sd_session_id sd) es" by (simp add: session_ok_def)
  from undo_event_shape [OF assms(1,3)] have sd': "sd' = sd \<lparr> sd_head := str_or p [] \<rparr>" by metis
  define C where "C = ancestors es (session_tips sd')"
  have "t \<in> set (session_tips sd')"
    using assms(6,7) by (force simp: session_tips_def sd' List.map_filter_def)
  then have e: "ev_op_id e \<in> C" using assms(5,8,9) by (auto simp: C_def ancestors_def)
  define fs where "fs = filter (\<lambda>e. ev_op_id e \<in> C) es"
  have read: "read_events ec sd' = Inr fs" unfolding fs_def C_def by (rule read_events_ok [OF new(1)])
  have find: "List.find (\<lambda>e. ev_parent_id e = p) fs = Some e"
    unfolding fs_def using assms(4) e by (rule find_filter_first)
  have "first_opt fs = Some e" if "p = None"
  proof -
    from find obtain f where f: "first_opt fs = Some f" by (cases fs) auto
    then have "ev_parent_id f = p"
      using first_committed_is_root [OF log ancestors_closed] that by (simp add: fs_def C_def)
    from first_opt_find [where p = "\<lambda>e. ev_parent_id e = p", OF f this] find f show ?thesis by simp
  qed
  moreover have "sd_is_dir sd' \<and> \<not> sd_frozen sd'"
    using assms(3) by (auto simp: undo_event_def bind_res_Inr write_head_def clear_head_def sd'
        ensure_legacy_writable_def split: option.splits)
  ultimately show ?thesis using find assms(5) new(2)
    by (cases p) (simp_all add: redo_event_def read write_head_def ensure_legacy_writable_def)
qed

text \<open>No operation changes a frozen session: writing and clearing the head, switching and
  creating branches, appending, undo, redo and checkout all fail, and it cannot be deleted or
  opened for writing.\<close>

theorem frozen_session_immutable:
  assumes "sd_frozen sd"
  shows "\<not> is_ok (write_head sd k) \<and> \<not> is_ok (clear_head sd) \<and> \<not> is_ok (switch_branch sd name)
    \<and> \<not> is_ok (create_branch now sd name fp label) \<and> \<not> is_ok (append_event ec api now sd e)
    \<and> \<not> is_ok (undo_event ec sd) \<and> \<not> is_ok (redo_event ec sd) \<and> \<not> is_ok (checkout_event ec sd k)
    \<and> \<not> is_ok (delete_session (bt_insert sid sd st) sid) \<and> \<not> is_ok (open_session (bt_insert sid sd st) sid)"
proof -
  have refused: "\<exists>m. ensure_legacy_writable sd = Inl (Bail m)"
    using assms by (simp add: ensure_legacy_writable_def bail_if_def)
  then have w: "\<And>k. \<not> is_ok (write_head sd k)" "\<not> is_ok (clear_head sd)"
    by (auto simp: write_head_def clear_head_def)
  show ?thesis
    using refused w
    by (auto simp: is_ok_Inr switch_branch_def create_branch_def append_event_def undo_event_def
        redo_event_def checkout_event_def delete_session_def open_session_def bind_res_Inr assms
        split: option.splits)
qed

text \<open>Redo does not look at the current branch: switching it changes neither the event redo
  moves to nor whether there is one, so with two branches from one event redo always takes the
  child that was logged first.\<close>

theorem redo_ignores_current_branch:
  "redo_event ec (sd \<lparr> sd_current_branch := name \<rparr>) =
     bind_res (redo_event ec sd) (\<lambda>(sd', r). Inr (sd' \<lparr> sd_current_branch := name \<rparr>, r))"
proof -
  have "read_events ec (sd \<lparr> sd_current_branch := name \<rparr>) = read_events ec sd"
    by (simp add: read_events_def read_head_def)
  then show ?thesis
    by (cases "read_events ec sd"; cases "read_head sd")
      (simp_all add: redo_event_def read_head_def write_head_def ensure_legacy_writable_def ok_or_def
        bail_if_def bind_res_def split: option.splits)
qed

text \<open>Creating a branch at an event the log does not hold succeeds and makes every later read
  of the session fail.\<close>

theorem create_branch_unknown_fork:
  assumes "session_ok ec sd es" and "create_branch now sd name (Some k) label = Inr sd'"
    and "k \<notin> ev_op_id ` set es"
  shows "read_events ec sd' = Inl (Bail ''legacy projection references missing event'')"
proof -
  from assms(1) have raw: "binlog_read_all ec (sd_log sd) = Inr es"
    and log: "log_ok ec (sd_session_id sd) es" by (simp_all add: session_ok_def)
  then obtain m where m: "check_events ec (sd_session_id sd) [] None es = Inr m"
    by (auto simp: log_ok_def is_ok_Inr)
  note by_id = log_ok_by_id [OF log m]
  define tips where "tips = List.map_filter bi_tip_op_id (sd_branches sd)"
  have sd': "sd' = sd \<lparr> sd_branches := sd_branches sd @ [\<lparr> bi_name = name, bi_tip_op_id = Some k,
      bi_fork_point = Some k, bi_label = label, bi_created_at = now \<rparr>] \<rparr>"
    using assms(2) by (simp add: create_branch_def bind_res_Inr)
  have known: "\<forall>t \<in> set tips. op_known es (Some t)"
    using assms(1) by (force simp: session_ok_def tips_def List.map_filter_def op_known_def)
  have "k \<notin> ancestors es tips"
    using assms(3) path_to_known [of "event_parent es"]
    by (fastforce simp: ancestors_def event_parent_def dest: find_Some)
  moreover have "bt_get m k = None" using assms(3) by_id [of k] by (cases "bt_get m k") force+
  ultimately have "commit_walk m (ancestors es tips) (Some k)
      = Inl (Bail ''legacy projection references missing event'')"
    by (simp add: commit_walk.simps [of _ _ "Some k"])
  moreover have "List.map_filter bi_tip_op_id (sd_branches sd') = tips @ [k]"
    by (simp add: sd' tips_def List.map_filter_def)
  moreover have "check_parents m es = Inr ()"
    using read_events_ok [OF assms(1)] by (auto simp: read_events_def raw m bind_res_Inr)
  ultimately show ?thesis
    using commit_fold [OF by_id log known, of "{}"] raw m
    by (simp add: read_events_def fold_res_append links_closed_def) (simp add: sd')
qed

section \<open>A concrete session\<close>

definition demo_event :: "string \<Rightarrow> string option \<Rightarrow> op_event" where
  "demo_event k parent =
     \<lparr> ev_schema_version = event_schema_version, ev_op_id = k, ev_parent_id = parent,
       ev_session_id = ''s1'', ev_timestamp = ''t'',
       ev_actor = \<lparr> ac_id = ''a'', ac_run_id = None, ac_source = ''cli'' \<rparr>,
       ev_kind = ''structure.insert_rows'', ev_payload = JNull,
       ev_canonical_payload_hash = ''sha256:null'', ev_preconditions = None,
       ev_dry_run_impact = None, ev_apply_result = None, ev_prev_event_hash = None,
       ev_event_hash = None, ev_extra = [] \<rparr>"

definition demo_line :: "op_event \<Rightarrow> string" where
  "demo_line e = ev_op_id e @ (if ev_event_hash e = None then ''u'' else ''s'')"

definition demo_sealed :: "string \<Rightarrow> string option \<Rightarrow> string option \<Rightarrow> op_event" where
  "demo_sealed k parent prev = (demo_event k parent)
     \<lparr> ev_prev_event_hash := prev, ev_event_hash := Some (''sha256:'' @ k @ ''u'') \<rparr>"

definition demo_parse :: "string \<Rightarrow> op_event res" where
  "demo_parse s =
     (if s = ''e1s'' then Inr (demo_sealed ''e1'' None None)
      else if s = ''e2s'' then Inr (demo_sealed ''e2'' (Some ''e1'') (Some ''sha256:e1u''))
      else if s = ''e3s'' then Inr (demo_sealed ''e3'' None None)
      else Inl (Bail ''corrupted binlog''))"

definition demo_codec :: event_codec where
  "demo_codec = \<lparr> evc_sha256 = (\<lambda>s. s), evc_scalar = (\<lambda>_. ''null''), evc_line = demo_line,
     evc_parse = demo_parse \<rparr>"

definition demo_api :: "string workbook_api" where
  "demo_api = \<lparr> wa_from_bytes = Inr, wa_to_bytes = Inr, wa_write_matrix = (\<lambda>w _ _ _ _. Inr w),
     wa_apply_file_ops = (\<lambda>_ _ w. Inr (w @ ''+'')), wa_define_name = (\<lambda>w _ _ _ _. Inr w),
     wa_update_name = (\<lambda>w _ _ _ _. Inr w), wa_delete_name = (\<lambda>w _ _ _. Inr w),
     wa_has_sheet = (\<lambda>_ _. True), wa_cell = (\<lambda>_ _ _. None), wa_parse_f64 = (\<lambda>_. None),
     wa_close = (=) \<rparr>"

definition demo_dir :: "string \<Rightarrow> string \<Rightarrow> string option \<Rightarrow> session_dir" where
  "demo_dir log head tip = \<lparr> sd_session_id = ''s1'', sd_is_dir = True, sd_frozen = False,
     sd_base = ''B'', sd_log = log, sd_head = head, sd_current_branch = ''main'',
     sd_branches = [\<lparr> bi_name = ''main'', bi_tip_op_id = tip, bi_fork_point = None,
       bi_label = None, bi_created_at = ''t'' \<rparr>],
     sd_manifest = Some (manifest_new ''s1''), sd_snapshots = [] \<rparr>"

abbreviation "demo0 \<equiv> demo_dir [] [] None"
abbreviation "demo1 \<equiv> demo_dir (''e1s'' @ [CHR 0x0A]) ''e1'' (Some ''e1'')"
abbreviation "demo2 \<equiv> demo_dir (''e1s'' @ CHR 0x0A # ''e2s'' @ [CHR 0x0A]) ''e2'' (Some ''e2'')"
abbreviation "demo1_undone \<equiv> demo_dir (''e1s'' @ [CHR 0x0A]) [] (Some ''e1'')"

lemma demo_create: "create_session ''s1'' ''t'' [] (Some ''B'') = Inr ([(''s1'', demo0)], demo0)"
  by code_simp

lemma demo_sealed_as:
  "sealed_as demo_codec prev (demo_event k parent) = demo_sealed k parent prev"
  by (simp add: sealed_as_def event_seal_def demo_codec_def demo_sealed_def demo_event_def
      prefixed_sha256_def demo_line_def)

lemma demo_append1: "append_event demo_codec demo_api ''t'' demo0 (demo_event ''e1'' None) = Inr demo1"
  by code_simp

lemma demo_append2:
  "append_event demo_codec demo_api ''t'' demo1 (demo_event ''e2'' (Some ''e1'')) = Inr demo2"
  by code_simp

lemma demo_undo1: "undo_event demo_codec demo1 = Inr (demo1_undone, None)"
  by code_simp

lemma demo_appendable:
  "appendable demo_codec [] None (demo_event ''e1'' None)"
  "appendable demo_codec [demo_sealed ''e1'' None None] (Some ''sha256:e1u'') (demo_event ''e2'' (Some ''e1''))"
  "appendable demo_codec [demo_sealed ''e1'' None None] None (demo_event ''e3'' None)"
  by code_simp+

lemma demo_ok0: "session_ok demo_codec demo0 []"
  by (simp add: session_ok_def demo_dir_def closed_log_def binlog_read_all_def file_lines_def
      log_ok_def parents_precede_def op_known_def read_head_def str_trim_def)

lemma demo_ok1: "session_ok demo_codec demo1 [demo_sealed ''e1'' None None]"
  using append_session_ok(1) [OF demo_ok0 demo_append1 _ demo_appendable(1)]
  by (simp add: demo_sealed_as)

lemma demo_fields:
  "read_head (demo_dir l ''e1'' t) = Some ''e1''" "read_head (demo_dir l ''e2'' t) = Some ''e2''"
  "read_head (demo_dir l [] t) = None" "sd_base (demo_dir l h t) = ''B''"
  "sd_branches (demo_dir l h t) = [\<lparr> bi_name = ''main'', bi_tip_op_id = t, bi_fork_point = None,
     bi_label = None, bi_created_at = ''t'' \<rparr>]"
  "ev_event_hash (demo_sealed k parent prev) = Some (''sha256:'' @ k @ ''u'')"
  "ev_op_id (demo_sealed k parent prev) = k" "ev_parent_id (demo_sealed k parent prev) = parent"
  by code_simp+

lemma demo_replay:
  "replay_event_on_session demo_api w (demo_sealed k p h) = Inr (w @ ''+'')"
  "wa_from_bytes demo_api = Inr" "wa_to_bytes demo_api = Inr"
  by (simp_all add: demo_api_def replay_event_on_session_def demo_sealed_def demo_event_def
      starts_with_def)

lemma demo_ok2:
  "session_ok demo_codec demo2 [demo_sealed ''e1'' None None,
     demo_sealed ''e2'' (Some ''e1'') (Some ''sha256:e1u'')]"
  using append_session_ok(1) [OF demo_ok1 demo_append2, of "Some ''sha256:e1u''"] demo_appendable(2)
  by (simp add: demo_sealed_as demo_fields last_opt_def)

lemma demo_lineage1: "lineage [demo_sealed ''e1'' None None] (Some ''e1'') [demo_sealed ''e1'' None None]"
  by (simp add: lineage_def event_parent_def demo_fields)


theorem materialize_replays_lineage_witness:
  "materialize demo_codec demo_api demo1 = Inr ''B+''"
proof -
  have "lineage [demo_sealed ''e1'' None None] (read_head demo1) [demo_sealed ''e1'' None None]"
    by (simp add: demo_lineage1 demo_fields)
  from materialize_replays_lineage [OF demo_ok1 this, of demo_api] show ?thesis
    by (simp add: demo_fields demo_replay)
qed

theorem append_then_materialize_witness:
  "materialize demo_codec demo_api demo2 = Inr ''B++''"
proof -
  have "lineage [demo_sealed ''e1'' None None] (read_head demo1) [demo_sealed ''e1'' None None]"
    by (simp add: demo_lineage1 demo_fields)
  from append_then_materialize [OF demo_ok1 demo_append2 _ _ _ this, of "Some ''sha256:e1u''"]
    demo_appendable(2) show ?thesis
    by (simp add: demo_fields last_opt_def demo_sealed_as demo_replay)
qed

lemma demo_undone_ok: "session_ok demo_codec demo1_undone [demo_sealed ''e1'' None None]"
  by (rule undo_keeps_session [OF demo_ok1 demo_undo1])

theorem append_at_base_breaks_log_witness:
  "read_events demo_codec (projr (append_event demo_codec demo_api ''t'' demo1_undone
      (demo_event ''e3'' None))) = Inl (Bail ''legacy event append hash chain is corrupt'')"
proof -
  have "append_event demo_codec demo_api ''t'' demo1_undone (demo_event ''e3'' None)
      = Inr (demo_dir (''e1s'' @ CHR 0x0A # ''e3s'' @ [CHR 0x0A]) ''e3'' (Some ''e3''))"
    by code_simp
  from append_at_base_breaks_log [OF demo_undone_ok _ _ this demo_appendable(3)] this show ?thesis
    by (simp add: demo_fields)
qed

theorem redo_after_undo_witness:
  "redo_event demo_codec demo1_undone = Inr (demo1_undone \<lparr> sd_head := ''e1'' \<rparr>, Some ''e1'')"
  by (rule redo_after_undo [OF demo_ok1 _ demo_undo1, where t = "''e1''" and xs = "[''e1'']"
        and e = "demo_sealed ''e1'' None None" and b = "hd (sd_branches demo1)"])
    (simp_all add: demo_fields event_parent_def)

theorem frozen_session_immutable_witness:
  "\<not> is_ok (append_event demo_codec demo_api ''t'' (demo1 \<lparr> sd_frozen := True \<rparr>)
      (demo_event ''e2'' (Some ''e1'')))
   \<and> \<not> is_ok (undo_event demo_codec (demo1 \<lparr> sd_frozen := True \<rparr>))"
  using frozen_session_immutable [where sd = "demo1 \<lparr> sd_frozen := True \<rparr>" and api = demo_api] by simp

theorem create_branch_unknown_fork_witness:
  "read_events demo_codec (projr (create_branch ''t'' demo1 ''alt'' (Some ''zz'') None))
     = Inl (Bail ''legacy projection references missing event'')"
proof -
  obtain sd' where run: "create_branch ''t'' demo1 ''alt'' (Some ''zz'') None = Inr sd'"
    by (simp add: create_branch_def ensure_legacy_writable_def demo_dir_def get_branch_def)
  from create_branch_unknown_fork [OF demo_ok1 run] run show ?thesis by (simp add: demo_fields)
qed

end
