(* ===== verification/ResidentTypes.thy ===== *)
theory ResidentTypes
  imports Json
begin

text \<open>
  The data of the durable resident history: the commit record and the replayed history state
  (\<open>core/resident_storage.rs\<close>), file export plans (\<open>resident_export.rs\<close>), evaluation coverage
  (\<open>model/mod.rs\<close>), the write response (\<open>canonical_write.rs\<close>), the lifecycle requests and
  responses (\<open>canonical_lifecycle.rs\<close>, \<open>operations.rs\<close>, \<open>session_history.rs\<close>) and the
  validation of the prepared transaction a record carries.

  The derived \<open>serde\<close> readers and writers and SHA-256 are generated or third-party code: they
  are the fields of the parameter \<open>codec\<close>.
\<close>

section \<open>Evaluation coverage\<close>

datatype evaluation_state = Clean | ErrorsFound | PartialState | NotEvaluated

datatype evaluation_source = Formualizer | TrustedCache | NoSource

datatype evaluation_freshness = CurrentRevision | Unknown

record evaluation_coverage =
  ec_formula_cells :: u64
  ec_evaluated_formula_cells :: u64
  ec_unsupported_formula_cells :: u64
  ec_error_formula_cells :: u64
  ec_source :: evaluation_source
  ec_freshness :: evaluation_freshness
  ec_revision_id :: string

definition is_trusted :: "evaluation_source \<Rightarrow> bool" where
  "is_trusted s = (s \<in> {Formualizer, TrustedCache})"

definition has_valid_counts :: "evaluation_coverage \<Rightarrow> bool" where
  "has_valid_counts c =
     (ec_evaluated_formula_cells c \<le> ec_formula_cells c
      \<and> ec_unsupported_formula_cells c \<le> ec_formula_cells c
      \<and> ec_error_formula_cells c \<le> ec_evaluated_formula_cells c)"

definition coverage_state :: "evaluation_coverage \<Rightarrow> evaluation_state" where
  "coverage_state c =
     (if ec_error_formula_cells c > 0 then ErrorsFound
      else if ec_formula_cells c = 0 then Clean
      else if ec_freshness c \<noteq> CurrentRevision then
        (if ec_evaluated_formula_cells c > 0
            \<and> ec_evaluated_formula_cells c < ec_formula_cells c
         then PartialState else NotEvaluated)
      else if ec_evaluated_formula_cells c = 0 then NotEvaluated
      else if ec_evaluated_formula_cells c < ec_formula_cells c
            \<or> ec_unsupported_formula_cells c > 0 then PartialState
      else Clean)"

definition is_complete_and_fresh :: "evaluation_coverage \<Rightarrow> bool" where
  "is_complete_and_fresh c =
     (has_valid_counts c
      \<and> ec_freshness c = CurrentRevision
      \<and> ec_evaluated_formula_cells c = ec_formula_cells c
      \<and> ec_unsupported_formula_cells c = 0
      \<and> (ec_formula_cells c = 0 \<or> is_trusted (ec_source c)))"

section \<open>Write responses\<close>

datatype write_mode = Preview | Stage | Apply

datatype operation_risk = Low | Moderate | High | Destructive

datatype write_op_status = StPreviewed | StStaged | StApplied | StFailed | StSkipped | StRolledBack

record write_op_error =
  we_code :: string
  we_message :: string
  we_path :: string
  we_retryable :: bool

record write_op_result =
  wr_index :: nat
  wr_kind :: string
  wr_status :: write_op_status
  wr_detail :: "json option"
  wr_error :: "write_op_error option"

record write_diff =
  wd_change_count :: nat
  wd_exact :: bool
  wd_precision :: string
  wd_changes :: "json list"
  wd_effects :: "json list"

record write_impact =
  wi_op_kinds :: "string list"
  wi_risk :: operation_risk

datatype write_response_data =
    Previewed write_mode bool string string nat write_diff write_impact "write_op_result list"
  | Staged write_mode bool string string nat string write_diff write_impact "write_op_result list"
  | Applied write_mode bool string string nat write_diff write_impact "write_op_result list"
  | Partial write_mode bool string string nat write_diff write_impact "write_op_result list"
  | Failed write_mode bool string string nat write_diff write_impact "write_op_result list"
  | RolledBack write_mode bool string string nat bool write_diff write_impact
      "write_op_result list"

fun response_revision_before :: "write_response_data \<Rightarrow> string" where
  "response_revision_before (Previewed _ _ before _ _ _ _ _) = before"
| "response_revision_before (Staged _ _ before _ _ _ _ _ _) = before"
| "response_revision_before (Applied _ _ before _ _ _ _ _) = before"
| "response_revision_before (Partial _ _ before _ _ _ _ _) = before"
| "response_revision_before (Failed _ _ before _ _ _ _ _) = before"
| "response_revision_before (RolledBack _ _ before _ _ _ _ _ _) = before"

fun response_revision_after :: "write_response_data \<Rightarrow> string" where
  "response_revision_after (Previewed _ _ _ after _ _ _ _) = after"
| "response_revision_after (Staged _ _ _ after _ _ _ _ _) = after"
| "response_revision_after (Applied _ _ _ after _ _ _ _) = after"
| "response_revision_after (Partial _ _ _ after _ _ _ _) = after"
| "response_revision_after (Failed _ _ _ after _ _ _ _) = after"
| "response_revision_after (RolledBack _ _ _ after _ _ _ _ _) = after"

section \<open>Commit records\<close>

datatype resident_transition =
    Mutation | StageApply | CatalogStage | CatalogDiscard | CalculationPublish
  | CalculationInvalidate | Undo | Redo | Checkout | BranchCreate | BranchSwitch
  | Checkpoint | CheckpointDelete | Receipt | Restart

text \<open>\<open>serde(rename_all = "snake_case")\<close> on the unit variants.\<close>

fun transition_name :: "resident_transition \<Rightarrow> string" where
  "transition_name Mutation = ''mutation''"
| "transition_name StageApply = ''stage_apply''"
| "transition_name CatalogStage = ''catalog_stage''"
| "transition_name CatalogDiscard = ''catalog_discard''"
| "transition_name CalculationPublish = ''calculation_publish''"
| "transition_name CalculationInvalidate = ''calculation_invalidate''"
| "transition_name Undo = ''undo''"
| "transition_name Redo = ''redo''"
| "transition_name Checkout = ''checkout''"
| "transition_name BranchCreate = ''branch_create''"
| "transition_name BranchSwitch = ''branch_switch''"
| "transition_name Checkpoint = ''checkpoint''"
| "transition_name CheckpointDelete = ''checkpoint_delete''"
| "transition_name Receipt = ''receipt''"
| "transition_name Restart = ''restart''"

definition transitions :: "resident_transition list" where
  "transitions = [Mutation, StageApply, CatalogStage, CatalogDiscard, CalculationPublish,
     CalculationInvalidate, Undo, Redo, Checkout, BranchCreate, BranchSwitch, Checkpoint,
     CheckpointDelete, Receipt, Restart]"

definition transition_of_json :: "json \<Rightarrow> resident_transition res" where
  "transition_of_json j =
     (case j of
        JStr s \<Rightarrow> ok_or (List.find (\<lambda>t. transition_name t = s) transitions) ''unknown variant''
      | _ \<Rightarrow> Inl (Bail ''invalid type''))"

text \<open>\<open>from_value::<Option<String>>\<close>.\<close>

fun opt_string_of_json :: "json \<Rightarrow> string option res" where
  "opt_string_of_json JNull = Inr None"
| "opt_string_of_json (JStr s) = Inr (Some s)"
| "opt_string_of_json _ = Inl (Bail ''invalid type'')"

definition resident_commit_schema :: string where
  "resident_commit_schema = ''resident.commit.v1''"

record prepared_commit =
  pc_schema_version :: string
  pc_session_id :: string
  pc_commit_id :: string
  pc_parent_commit_id :: "string option"
  pc_history_parent_commit_id :: "string option"
  pc_base_sha256 :: string
  pc_request_id :: string
  pc_request_fingerprint :: string
  pc_transition :: resident_transition
  pc_effects :: "json list"
  pc_resulting_head :: "string option"
  pc_resulting_branch :: string
  pc_resulting_branches :: "string option btree"
  pc_catalog_generation :: u64
  pc_state_revision :: string

record durable_commit_outcome =
  dc_commit_id :: string
  dc_sequence :: u64

text \<open>
  The readings of the effects the code repeats: \<open>effects.iter().find_map(|e| e.get(key))\<close>,
  the same with a pointer, and \<open>effects.iter().any(|e| e.get(key).is_some())\<close>.
\<close>

definition effect_get :: "prepared_commit \<Rightarrow> string \<Rightarrow> json option" where
  "effect_get r k = find_map (\<lambda>e. json_get e k) (pc_effects r)"

definition effect_pointer :: "prepared_commit \<Rightarrow> string list \<Rightarrow> json option" where
  "effect_pointer r ks = find_map (\<lambda>e. json_pointer e ks) (pc_effects r)"

definition has_effect :: "prepared_commit \<Rightarrow> string \<Rightarrow> bool" where
  "has_effect r k = list_ex (\<lambda>e. json_get e k \<noteq> None) (pc_effects r)"

definition effect_str :: "prepared_commit \<Rightarrow> string \<Rightarrow> string option" where
  "effect_str r k = Option.bind (effect_get r k) json_str"

lemma has_effect_iff: "has_effect r k \<longleftrightarrow> effect_get r k \<noteq> None"
  by (auto simp: has_effect_def effect_get_def find_map_None list_ex_iff)

section \<open>File export plans\<close>

record file_export_intent =
  fi_resource_id :: string
  fi_request_id :: string
  fi_expected_revision :: "string option"
  fi_destination :: "string option"
  fi_force :: bool

record artifact_metadata =
  am_artifact_id :: string
  am_media_type :: string
  am_bytes :: u64
  am_sha256 :: string

record file_export_plan =
  fp_head :: "string option"
  fp_events_replayed :: nat
  fp_intent :: file_export_intent
  fp_revision_id :: string
  fp_artifact :: artifact_metadata
  fp_source_sha256 :: string
  fp_destination :: string
  fp_destination_generation :: "string option"

record file_export_result =
  fr_head :: "string option"
  fr_events_replayed :: nat
  fr_request_id :: string
  fr_resource_id :: string
  fr_revision_id :: string
  fr_output_path :: string
  fr_artifact :: artifact_metadata

definition xlsx_media_type :: string where
  "xlsx_media_type = ''application/vnd.openxmlformats-officedocument.spreadsheetml.sheet''"

text \<open>\<open>hash.len() == 64 && hash.bytes().all(|b| b.is_ascii_hexdigit())\<close>\<close>

definition is_sha256_hex :: "string \<Rightarrow> bool" where
  "is_sha256_hex s = (length s = 64 \<and> list_all is_hexdigit s)"

definition plan_result :: "file_export_plan \<Rightarrow> file_export_result" where
  "plan_result p = \<lparr> fr_head = fp_head p, fr_events_replayed = fp_events_replayed p,
     fr_request_id = fi_request_id (fp_intent p), fr_resource_id = fi_resource_id (fp_intent p),
     fr_revision_id = fp_revision_id p, fr_output_path = fp_destination p,
     fr_artifact = fp_artifact p \<rparr>"

definition plan_validate :: "file_export_plan \<Rightarrow> string \<Rightarrow> unit res" where
  "plan_validate p session_id =
     bail_if (\<not> (case split_once CHR '':'' (fi_resource_id (fp_intent p)) of
          None \<Rightarrow> False
        | Some (kind, key) \<Rightarrow> kind \<in> {''fork'', ''session''} \<and> key = session_id))
       ''file export resource mismatch'' (
     bail_if (fi_request_id (fp_intent p) = [] \<or> length (fi_request_id (fp_intent p)) > 256)
       ''invalid file export request identity'' (
     bail_if (\<not> option_all (\<lambda>revision. revision = fp_revision_id p)
          (fi_expected_revision (fp_intent p)))
       ''file export named revision mismatch'' (
     bail_if (\<not> option_all (\<lambda>generation. generation = ''missing''
          \<or> (case strip_prefix generation ''sha256:'' of
               None \<Rightarrow> False | Some hash \<Rightarrow> is_sha256_hex hash))
          (fp_destination_generation p))
       ''invalid export destination generation'' (
     bail_if (fp_destination p = [] \<or> length (fp_destination p) > 4096)
       ''invalid export destination'' (
     bail_if (\<not> option_all (\<lambda>path. path = fp_destination p) (fi_destination (fp_intent p)))
       ''export destination differs from explicit intent'' (
     bail_if (\<not> (am_bytes (fp_artifact p) \<le> 64 * 1024 * 1024
          \<and> is_sha256_hex (am_sha256 (fp_artifact p))
          \<and> am_artifact_id (fp_artifact p) = ''artifact-'' @ am_sha256 (fp_artifact p)))
       ''invalid capture metadata'' (
     bail_if (\<not> is_sha256_hex (fp_source_sha256 p)) ''invalid source binding'' (
     bail_if (am_media_type (fp_artifact p) \<noteq> xlsx_media_type)
       ''invalid export media type'' (Inr ())))))))))"

definition plan_id :: "(string \<Rightarrow> string) \<Rightarrow> string \<Rightarrow> string" where
  "plan_id sha256 identity = ''file_export_plan_'' @ sha256 identity"

section \<open>Prepared transactions\<close>

datatype resident_calculation_effect = Preserve | Invalidate

datatype materialized_value =
    MvEmpty | MvString string | MvRichText string | MvLazy string
  | MvNumber string | MvBool bool | MvError string

record materialized_cell =
  mc_value :: materialized_value
  mc_formula :: "string option"

record prepared_cell_effect =
  ce_sheet_name :: string
  ce_column :: u32
  ce_row :: u32
  ce_source_op_indices :: "nat list"
  ce_expected_before :: "materialized_cell option"
  ce_after :: materialized_cell

datatype prepared_publication =
    PubNone
  | PubCells "prepared_cell_effect list"
  | PubSnapshot string string string resident_calculation_effect

record 'op staged_bundle =
  sb_base_revision :: string
  sb_max_risk :: operation_risk
  sb_atomic :: bool
  sb_ops :: "'op list"
  sb_label :: "string option"
  sb_formula_parse_policy :: "string option"

record 'op prepared_transaction =
  pt_base_sha256 :: string
  pt_response :: write_response_data
  pt_publication :: prepared_publication
  pt_staged :: "(string \<times> 'op staged_bundle) option"
  pt_consume_staged :: "string option"

section \<open>Requests and responses the canonical outcome binds\<close>

text \<open>A \<open>ResourceId\<close> is a validated string; \<open>to_workbook_id\<close> is what follows the colon.\<close>

definition resource_validate :: "string \<Rightarrow> string res" where
  "resource_validate v =
     bail_if (\<not> (4 \<le> length v \<and> length v \<le> 256))
       ''resource_id must contain 4 to 256 bytes'' (
     case split_once CHR '':'' v of
       None \<Rightarrow> Inl (Bail ''resource_id must use a typed wb:, fork:, or session: prefix'')
     | Some (prefix, opaque) \<Rightarrow>
         bail_if (prefix \<notin> {''wb'', ''fork'', ''session''})
           ''resource_id must use a typed wb:, fork:, or session: prefix'' (
         bail_if (\<not> (opaque \<noteq> [] \<and> length opaque \<le> 244
              \<and> is_alnum (hd opaque)
              \<and> list_all (\<lambda>c. is_alnum c \<or> c = CHR ''_'' \<or> c = CHR ''-'') opaque))
           ''resource_id must be an opaque typed identifier'' (Inr v)))"

definition bind_workbook :: "string \<Rightarrow> string res" where
  "bind_workbook wid =
     resource_validate
       ((if starts_with wid ''fork-'' then ''fork''
         else if starts_with wid ''session-'' then ''session'' else ''wb'') @ '':'' @ wid)"

definition to_workbook_id :: "string \<Rightarrow> string" where
  "to_workbook_id rid = (case split_once CHR '':'' rid of None \<Rightarrow> [] | Some (_, key) \<Rightarrow> key)"

record canonical_response =
  cr_schema_version :: string
  cr_operation :: string
  cr_resource_id :: "string option"
  cr_revision_id :: "string option"
  cr_data :: json

definition canonical_schema_version :: string where
  "canonical_schema_version = ''1''"

record canonical_outcome =
  co_input_sha256 :: string
  co_core_fingerprint :: string
  co_response :: canonical_response

record create_fork_request =
  cf_resource_id :: string
  cf_expected_revision :: string
  cf_label :: "string option"

record create_fork_data =
  cd_label :: "string option"
  cd_base_resource_id :: string
  cd_base_revision_id :: string
  cd_fork_resource_id :: string
  cd_revision_id :: string
  cd_ttl_seconds :: "u64 option"
  cd_warnings :: "json list"

record discard_fork_request =
  dr_resource_id :: string
  dr_expected_revision :: string

record discard_fork_data =
  dd_revision_before :: string
  dd_revision_after :: string
  dd_discarded :: bool

record export_fork_request =
  er_resource_id :: string
  er_expected_revision :: string
  er_destination_name :: string

record export_fork_data =
  ed_revision_before :: string
  ed_revision_after :: string
  ed_destination_name :: string
  ed_artifact :: artifact_metadata

record recalculate_data =
  rd_revision_before :: string
  rd_revision_after :: string
  rd_duration_ms :: u64
  rd_backend :: string
  rd_state :: evaluation_state
  rd_evaluation_coverage :: evaluation_coverage
  rd_status :: string
  rd_error_count :: "nat option"
  rd_cells_evaluated :: "u64 option"
  rd_eval_errors :: "string list option"
  rd_warnings :: "json list"

record checkpoint_descriptor =
  ck_checkpoint_id :: string
  ck_created_at :: "string option"
  ck_label :: "string option"
  ck_snapshot_revision :: string
  ck_recalc_needed :: bool

text \<open>
  The variants of the tagged lifecycle responses, their fields in the order of the source.
  A warning and a staged change descriptor are JSON values, which the code here only carries.
\<close>

datatype checkpoint_data =
    CkCreate string string checkpoint_descriptor nat "json list"
  | CkList string "checkpoint_descriptor list" "json list"
  | CkRestore string string checkpoint_descriptor nat nat "string list" "string list" bool
      "json list"
  | CkDelete string string string bool "json list"

datatype staged_change_data =
    ScList string "json list" "json list"
  | ScApply "string option" string string string nat "string list" bool "json list"
  | ScDiscard string string string bool "json list"

datatype session_history_data =
    ShStatus json
  | ShOutcome json
  | ShList json
  | ShMutation resident_transition string string "string option" string

section \<open>The generated readers and writers\<close>

record 'op codec =
  sha256_hex :: "string \<Rightarrow> string"
  export_fingerprint :: "prepared_commit \<Rightarrow> string"
  read_prepared :: "json \<Rightarrow> 'op prepared_transaction res"
  read_plan :: "json \<Rightarrow> file_export_plan res"
  read_result :: "json \<Rightarrow> file_export_result res"
  write_result :: "file_export_result \<Rightarrow> json"
  read_coverage :: "json \<Rightarrow> evaluation_coverage res"
  write_coverage :: "evaluation_coverage \<Rightarrow> json"
  read_outcome :: "json \<Rightarrow> canonical_outcome res"
  write_outcome :: "canonical_outcome \<Rightarrow> json"
  read_create_request :: "json \<Rightarrow> create_fork_request res"
  create_input :: "create_fork_request \<Rightarrow> string"
  read_create_data :: "json \<Rightarrow> create_fork_data res"
  read_discard_request :: "json \<Rightarrow> discard_fork_request res"
  discard_input :: "discard_fork_request \<Rightarrow> string"
  read_discard_data :: "json \<Rightarrow> discard_fork_data res"
  read_export_request :: "json \<Rightarrow> export_fork_request res"
  export_input :: "export_fork_request \<Rightarrow> string"
  read_export_data :: "json \<Rightarrow> export_fork_data res"
  write_artifact :: "artifact_metadata \<Rightarrow> json"
  read_recalculate_data :: "json \<Rightarrow> recalculate_data res"
  read_strings :: "json \<Rightarrow> string list res"
  read_checkpoint_data :: "json \<Rightarrow> checkpoint_data res"
  read_staged_data :: "json \<Rightarrow> staged_change_data res"
  read_history_data :: "json \<Rightarrow> session_history_data res"

section \<open>Validating the prepared transaction of a record\<close>

definition prepared_transaction_from_record ::
    "'op codec \<Rightarrow> prepared_commit \<Rightarrow> 'op prepared_transaction res option" where
  "prepared_transaction_from_record cd r =
     map_option (read_prepared cd) (effect_get r ''prepared_transaction'')"

fun cell_targets_valid :: "(string \<times> u32 \<times> u32) set \<Rightarrow> prepared_cell_effect list \<Rightarrow> bool" where
  "cell_targets_valid seen [] = True"
| "cell_targets_valid seen (e # es) =
     (if ce_sheet_name e = [] \<or> ce_row e = 0 \<or> ce_column e = 0
         \<or> ce_row e > 1048576 \<or> ce_column e > 16384
         \<or> (ce_sheet_name e, ce_row e, ce_column e) \<in> seen
      then False
      else cell_targets_valid (insert (ce_sheet_name e, ce_row e, ce_column e) seen) es)"

definition publication_valid :: "'op codec \<Rightarrow> prepared_publication \<Rightarrow> unit res" where
  "publication_valid cd p =
     (case p of
        PubSnapshot _ bytes sha _ \<Rightarrow>
          bail_if (sha256_hex cd bytes \<noteq> sha) ''prepared snapshot content identity mismatch''
            (Inr ())
      | PubCells effects \<Rightarrow>
          bail_if (effects = []) ''document publication has no cell effects'' (
          bail_if (\<not> cell_targets_valid {} effects)
            ''prepared cell target is invalid or duplicated'' (Inr ()))
      | PubNone \<Rightarrow> Inr ())"

definition validate_portable_prepared_record ::
    "'op codec \<Rightarrow> prepared_commit \<Rightarrow> string option \<Rightarrow> unit res" where
  "validate_portable_prepared_record cd r previous_revision =
     (case prepared_transaction_from_record cd r of
        None \<Rightarrow>
          bail_if (pc_transition r \<in> {Mutation, StageApply, CatalogStage})
            ''transition requires prepared transaction'' (Inr ())
      | Some decoded \<Rightarrow> bind_res decoded (\<lambda>prepared.
          bail_if (pt_base_sha256 prepared \<noteq> pc_base_sha256 r
              \<or> response_revision_after (pt_response prepared) \<noteq> pc_state_revision r)
            ''prepared transaction identity/result mismatch'' (
          bail_if (\<not> option_all (\<lambda>revision.
                revision = response_revision_before (pt_response prepared)) previous_revision)
            ''prepared transaction before revision mismatch'' (
          bind_res (publication_valid cd (pt_publication prepared)) (\<lambda>_.
          let publishes_document = (pt_publication prepared \<noteq> PubNone) in
          bail_if ((publishes_document \<and> pc_transition r \<notin> {Mutation, StageApply})
              \<or> (\<not> publishes_document \<and> pc_transition r = Mutation)
              \<or> (pt_staged prepared \<noteq> None) \<noteq> (pc_transition r = CatalogStage)
              \<or> (pt_consume_staged prepared \<noteq> None) \<noteq> (pc_transition r = StageApply))
            ''prepared publication/control relationship mismatch'' (
          bail_if (pc_transition r \<notin> {Mutation, StageApply, CatalogStage, Receipt})
            ''control cannot carry prepared document transaction'' (Inr ())))))))"

section \<open>The history state\<close>

record resident_checkpoint =
  rc_id :: string
  rc_head :: "string option"
  rc_state_revision :: string
  rc_label :: "string option"

record history_state =
  hs_session_id :: string
  hs_base_sha256 :: string
  hs_stream_tip :: "string option"
  hs_head :: "string option"
  hs_current_branch :: string
  hs_branches :: "string option btree"
  hs_branch_labels :: "string btree"
  hs_file_export_plans :: "file_export_plan btree"
  hs_file_export_results :: "file_export_result btree"
  hs_catalog_generation :: u64
  hs_state_revision :: "string option"
  hs_checkpoints :: "resident_checkpoint btree"
  hs_calculation_current :: bool
  hs_discarded :: bool
  hs_history_parents :: "string option btree"
  hs_catalog_ids :: "unit btree"

text \<open>
  A codec for concrete runs: every reader refuses, the digests are the text itself. Runs
  replace the readers they use.
\<close>

definition plain_codec :: "'op codec" where
  "plain_codec = \<lparr> sha256_hex = (\<lambda>s. s), export_fingerprint = pc_request_fingerprint,
     read_prepared = (\<lambda>_. Inl (Bail [])), read_plan = (\<lambda>_. Inl (Bail [])),
     read_result = (\<lambda>_. Inl (Bail [])), write_result = (\<lambda>_. JNull),
     read_coverage = (\<lambda>_. Inl (Bail [])), write_coverage = (\<lambda>_. JNull),
     read_outcome = (\<lambda>_. Inl (Bail [])), write_outcome = (\<lambda>_. JNull),
     read_create_request = (\<lambda>_. Inl (Bail [])), create_input = (\<lambda>_. []),
     read_create_data = (\<lambda>_. Inl (Bail [])),
     read_discard_request = (\<lambda>_. Inl (Bail [])), discard_input = (\<lambda>_. []),
     read_discard_data = (\<lambda>_. Inl (Bail [])),
     read_export_request = (\<lambda>_. Inl (Bail [])), export_input = (\<lambda>_. []),
     read_export_data = (\<lambda>_. Inl (Bail [])), write_artifact = (\<lambda>_. JNull),
     read_recalculate_data = (\<lambda>_. Inl (Bail [])), read_strings = (\<lambda>_. Inl (Bail [])),
     read_checkpoint_data = (\<lambda>_. Inl (Bail [])), read_staged_data = (\<lambda>_. Inl (Bail [])),
     read_history_data = (\<lambda>_. Inl (Bail [])) \<rparr>"

section \<open>Properties of coverage, identifiers and prepared transactions\<close>

text \<open>A coverage that counts as complete and fresh is reported clean unless a cell has an
  evaluation error, and a trusted current coverage with valid counts is reported clean exactly
  when it is complete and fresh without errors.\<close>

theorem coverage_clean_iff:
  assumes "has_valid_counts c" and "ec_freshness c = CurrentRevision" and "is_trusted (ec_source c)"
  shows "coverage_state c = Clean
    \<longleftrightarrow> is_complete_and_fresh c \<and> ec_error_formula_cells c = 0"
  using assms by (auto simp: coverage_state_def is_complete_and_fresh_def has_valid_counts_def)

lemma coverage_clean_iff_witness:
  "coverage_state \<lparr> ec_formula_cells = 2, ec_evaluated_formula_cells = 2,
     ec_unsupported_formula_cells = 0, ec_error_formula_cells = 0, ec_source = Formualizer,
     ec_freshness = CurrentRevision, ec_revision_id = ''r'' \<rparr> = Clean"
  by (subst coverage_clean_iff)
    (simp_all add: has_valid_counts_def is_trusted_def is_complete_and_fresh_def)

lemma resource_validate_Inr:
  "resource_validate v = Inr w \<Longrightarrow>
     w = v \<and> (\<exists>prefix opaque. split_once CHR '':'' v = Some (prefix, opaque)
       \<and> prefix \<in> {''wb'', ''fork'', ''session''} \<and> opaque \<noteq> []
       \<and> list_all (\<lambda>c. is_alnum c \<or> c = CHR ''_'' \<or> c = CHR ''-'') opaque)"
  by (auto simp: resource_validate_def split: option.splits)

lemma no_colon_in_opaque:
  "list_all (\<lambda>c. is_alnum c \<or> c = CHR ''_'' \<or> c = CHR ''-'') s \<Longrightarrow> CHR '':'' \<notin> set s"
  by (induction s) (auto simp: str_eval)

text \<open>Binding a workbook id to a typed resource id and reading the workbook id back is the
  identity, whichever of the three kinds the id belongs to.\<close>

theorem bind_workbook_roundtrip:
  assumes "bind_workbook wid = Inr rid"
  shows "to_workbook_id rid = wid"
proof -
  define kind where "kind = (if starts_with wid ''fork-'' then ''fork''
    else if starts_with wid ''session-'' then ''session'' else ''wb'')"
  have rid: "rid = kind @ CHR '':'' # wid"
    using resource_validate_Inr [OF assms [unfolded bind_workbook_def]] by (simp add: kind_def)
  have "CHR '':'' \<notin> set kind" by (auto simp: kind_def)
  then show ?thesis by (simp add: rid to_workbook_id_def split_once_append)
qed

lemma bind_workbook_roundtrip_witness:
  "bind_workbook ''fork-ab1'' = Inr ''fork:fork-ab1'' \<and> to_workbook_id ''fork:fork-ab1'' = ''fork-ab1''"
  using bind_workbook_roundtrip [of "''fork-ab1''" "''fork:fork-ab1''"]
  by (simp add: bind_workbook_def resource_validate_def str_eval)

end
