(* ===== verification/CanonicalOutcome.thy ===== *)
theory CanonicalOutcome
  imports ResidentTypes
begin

text \<open>
  The check of a canonical outcome against the record that carries it
  (\<open>canonical_outcome.rs\<close>, function \<open>validate\<close>), one definition per operation, and the
  destination name rule it shares with the export operation.
\<close>

section \<open>Helpers of the check\<close>

text \<open>\<open>data["key"]\<close>: a missing member reads as null.\<close>

definition json_index :: "json \<Rightarrow> string \<Rightarrow> json" where
  "json_index j k = (case json_get j k of None \<Rightarrow> JNull | Some v \<Rightarrow> v)"

text \<open>Some effect has the member \<open>k\<close> but is not an object of that one member.\<close>

definition not_separate :: "prepared_commit \<Rightarrow> string \<Rightarrow> bool" where
  "not_separate r k =
     list_ex (\<lambda>e. json_get e k \<noteq> None \<and> json_members e \<noteq> Some 1) (pc_effects r)"

text \<open>
  \<open>sanitize_filename_component\<close> of \<open>security.rs\<close> on UTF-8 bytes: C0 controls, DEL and the
  two-byte C1 controls, the slash and the backslash become an underscore.
\<close>

fun replace_unsafe :: "string \<Rightarrow> string" where
  "replace_unsafe [] = []"
| "replace_unsafe [c] =
     [if ord_of c < 32 \<or> ord_of c = 127 \<or> c = CHR ''/'' \<or> ord_of c = 92 then CHR ''_'' else c]"
| "replace_unsafe (c # d # cs) =
     (if ord_of c = 194 \<and> 128 \<le> ord_of d \<and> ord_of d < 160 then CHR ''_'' # replace_unsafe cs
      else (if ord_of c < 32 \<or> ord_of c = 127 \<or> c = CHR ''/'' \<or> ord_of c = 92
            then CHR ''_'' else c) # replace_unsafe (d # cs))"

definition sanitize_filename_component :: "string \<Rightarrow> string" where
  "sanitize_filename_component s =
     (let out = replace_unsafe s in if out = ''.'' \<or> out = ''..'' then ''_'' else out)"

definition export_destination_name :: "string \<Rightarrow> string res" where
  "export_destination_name name =
     bail_if (sanitize_filename_component name \<noteq> name
         \<or> \<not> ends_with (map to_lower name) ''.xlsx'')
       ''invalid request: destination name must be a safe .xlsx filename'' (Inr name)"

section \<open>The identity binding\<close>

definition outcome_identity :: "prepared_commit \<Rightarrow> canonical_outcome \<Rightarrow> unit res" where
  "outcome_identity r oc =
     (let response = co_response oc in
      bail_if (\<not> (case cr_resource_id response of None \<Rightarrow> False
                  | Some rid \<Rightarrow> starts_with rid ''session:'' \<or> starts_with rid ''fork:'')
          \<or> co_core_fingerprint oc \<noteq> pc_request_fingerprint r
          \<or> \<not> is_sha256_hex (co_input_sha256 oc)
          \<or> cr_schema_version response \<noteq> canonical_schema_version
          \<or> cr_revision_id response \<noteq> Some
              (if cr_operation response = ''discard_fork''
               then (case json_str (json_index (cr_data response) ''revision_after'') of
                       None \<Rightarrow> [] | Some s \<Rightarrow> s)
               else pc_state_revision r)
          \<or> map_option to_workbook_id (cr_resource_id response) \<noteq> Some (pc_session_id r))
        ''canonical outcome identity binding mismatch'' (Inr ()))"

definition outcome_metadata :: "prepared_commit \<Rightarrow> canonical_response \<Rightarrow> unit res" where
  "outcome_metadata r response =
     bail_if (not_separate r ''resource_export'')
       ''export metadata must be a separate typed effect'' (
     bail_if (not_separate r ''resource_discard'')
       ''discard metadata must be a separate typed effect'' (
     bail_if (effect_get r ''resource_discard'' \<noteq> None \<and> cr_operation response \<noteq> ''discard_fork'')
       ''discard receipt requires a discard outcome'' (
     bail_if (effect_get r ''resource_export'' \<noteq> None \<and> cr_operation response \<noteq> ''export_fork'')
       ''export receipt requires an export outcome'' (
     bail_if (effect_get r ''resource_creation'' \<noteq> None \<and> cr_operation response \<noteq> ''create_fork'')
       ''creation receipt requires a creation outcome'' (
     bail_if (not_separate r ''resource_creation'')
       ''creation metadata must be a separate typed effect'' (Inr ()))))))"

text \<open>The revision before the operation, recovered from the record and the state.\<close>

definition expected_before ::
    "prepared_commit \<Rightarrow> history_state \<Rightarrow> string res" where
  "expected_before r st =
     (case (case Option.bind (Option.bind (effect_get r ''prepared_transaction'')
                   (\<lambda>p. json_pointer p [''response'', ''revision_before''])) json_str of
              Some s \<Rightarrow> Some s
            | None \<Rightarrow> hs_state_revision st) of
        Some e \<Rightarrow> Inr e
      | None \<Rightarrow>
          if pc_transition r \<in> {CalculationPublish, BranchCreate}
          then bind_res (ok_or (rsplit_once CHR '':'' (pc_state_revision r))
                  ''invalid calculation revision'') (\<lambda>(prefix, counter).
               bind_res (ok_or (parse_u64 counter) ''invalid digit'') (\<lambda>n.
               bail_if (n = 0) ''invalid calculation counter''
                 (Inr (prefix @ '':'' @ show_nat (n - 1)))))
          else Inr (pc_state_revision r))"

definition outcome_before ::
    "prepared_commit \<Rightarrow> history_state \<Rightarrow> canonical_response \<Rightarrow> unit res" where
  "outcome_before r st response =
     (case Option.bind (json_get (cr_data response) ''revision_before'') json_str of
        None \<Rightarrow> Inr ()
      | Some before \<Rightarrow> bind_res (expected_before r st) (\<lambda>expected.
          bail_if (before \<noteq> expected) ''canonical outcome before revision mismatch'' (Inr ())))"

section \<open>One check per operation\<close>

definition outcome_create_fork ::
    "'op codec \<Rightarrow> prepared_commit \<Rightarrow> canonical_outcome \<Rightarrow> unit res" where
  "outcome_create_fork cd r oc =
     bind_res (ok_or (effect_get r ''resource_creation'') ''creation lacks prepared request'')
       (\<lambda>v. bind_res (read_create_request cd v) (\<lambda>request.
     bind_res (read_create_data cd (cr_data (co_response oc))) (\<lambda>data.
     bail_if (pc_transition r \<noteq> Receipt
         \<or> pc_parent_commit_id r \<noteq> None
         \<or> length (pc_effects r) \<noteq> 2
         \<or> \<not> (starts_with (cf_resource_id request) ''wb:''
             \<or> starts_with (cf_resource_id request) ''fork:''
             \<or> starts_with (cf_resource_id request) ''session:'')
         \<or> cf_expected_revision request = []
         \<or> (starts_with (cf_resource_id request) ''wb:''
             \<and> cf_expected_revision request \<noteq> pc_base_sha256 r)
         \<or> effect_get r ''receipt_operation'' \<noteq> None
         \<or> effect_get r ''prepared_transaction'' \<noteq> None
         \<or> cd_label data \<noteq> cf_label request
         \<or> \<not> option_all (\<lambda>label. length label \<le> 1024) (cf_label request)
         \<or> cd_base_resource_id data \<noteq> cf_resource_id request
         \<or> cd_base_revision_id data \<noteq> cf_expected_revision request
         \<or> Some (cd_fork_resource_id data) \<noteq> cr_resource_id (co_response oc)
         \<or> cd_revision_id data \<noteq> pc_state_revision r
         \<or> cd_ttl_seconds data \<noteq> None
         \<or> co_input_sha256 oc \<noteq> create_input cd request
         \<or> cd_warnings data \<noteq> [])
       ''canonical creation outcome differs from prepared activation'' (Inr ()))))"

definition outcome_discard_fork ::
    "'op codec \<Rightarrow> prepared_commit \<Rightarrow> canonical_outcome \<Rightarrow> unit res" where
  "outcome_discard_fork cd r oc =
     bind_res (ok_or (effect_get r ''resource_discard'') ''discard lacks prepared request'')
       (\<lambda>v. bind_res (read_discard_request cd v) (\<lambda>request.
     bind_res (read_discard_data cd (cr_data (co_response oc))) (\<lambda>data.
     bail_if (pc_transition r \<noteq> Receipt
         \<or> length (pc_effects r) \<noteq> 2
         \<or> Some (dr_resource_id request) \<noteq> cr_resource_id (co_response oc)
         \<or> dr_expected_revision request \<noteq> pc_state_revision r
         \<or> dd_revision_before data \<noteq> pc_state_revision r
         \<or> dd_revision_after data \<noteq> ''discarded:'' @ pc_commit_id r
         \<or> \<not> dd_discarded data
         \<or> co_input_sha256 oc \<noteq> discard_input cd request)
       ''canonical discard outcome differs from prepared tombstone'' (Inr ()))))"

definition outcome_export_fork ::
    "'op codec \<Rightarrow> prepared_commit \<Rightarrow> canonical_outcome \<Rightarrow> unit res" where
  "outcome_export_fork cd r oc =
     bind_res (ok_or (effect_get r ''resource_export'') ''export lacks prepared artifact'')
       (\<lambda>prepared. bind_res (read_export_request cd (json_index prepared ''request'')) (\<lambda>request.
     bind_res (read_export_data cd (cr_data (co_response oc))) (\<lambda>data.
     bind_res (export_destination_name (er_destination_name request)) (\<lambda>name.
     bail_if (pc_transition r \<noteq> Receipt
         \<or> length (pc_effects r) \<noteq> 2
         \<or> json_members prepared \<noteq> Some 2
         \<or> Some (er_resource_id request) \<noteq> cr_resource_id (co_response oc)
         \<or> er_expected_revision request \<noteq> pc_state_revision r
         \<or> ed_revision_before data \<noteq> pc_state_revision r
         \<or> ed_revision_after data \<noteq> pc_state_revision r
         \<or> json_index prepared ''artifact'' \<noteq> write_artifact cd (ed_artifact data)
         \<or> ed_destination_name data \<noteq> name
         \<or> \<not> is_sha256_hex (am_sha256 (ed_artifact data))
         \<or> am_artifact_id (ed_artifact data) \<noteq> ''artifact-'' @ am_sha256 (ed_artifact data)
         \<or> am_media_type (ed_artifact data) \<noteq> xlsx_media_type
         \<or> co_input_sha256 oc \<noteq> export_input cd request)
       ''canonical export outcome differs from prepared artifact'' (Inr ())))))"

definition outcome_write :: "prepared_commit \<Rightarrow> canonical_outcome \<Rightarrow> unit res" where
  "outcome_write r oc =
     bail_if (effect_get r ''receipt_operation'' \<noteq> None
         \<or> pc_transition r \<notin> {Mutation, CatalogStage, Receipt}
         \<or> Option.bind (effect_get r ''prepared_transaction'') (\<lambda>p. json_get p ''response'')
             \<noteq> Some (cr_data (co_response oc)))
       ''canonical write outcome differs from prepared transaction'' (Inr ())"

definition external_fields_valid ::
    "json \<Rightarrow> json \<Rightarrow> canonical_outcome \<Rightarrow> recalculate_data \<Rightarrow> bool" where
  "external_fields_valid proof_effect external oc data =
     (external = cr_data (co_response oc)
      \<and> rd_backend data = ''libreoffice''
      \<and> Option.bind (json_get proof_effect ''backend'') json_str = Some ''libreoffice''
      \<and> ec_source (rd_evaluation_coverage data) = TrustedCache
      \<and> rd_status data =
          (if rd_state data = Clean then ''completed'' else ''completed_with_errors'')
      \<and> rd_eval_errors data = None
      \<and> rd_error_count data = None
      \<and> rd_cells_evaluated data = None)"

definition internal_fields_valid ::
    "json option \<Rightarrow> string list \<Rightarrow> recalculate_data \<Rightarrow> bool" where
  "internal_fields_valid proof_effect errors data =
     (rd_backend data = ''formualizer''
      \<and> rd_status data =
          (if ec_error_formula_cells (rd_evaluation_coverage data) > 0 \<or> errors \<noteq> []
           then ''completed_with_errors'' else ''success'')
      \<and> rd_eval_errors data = (if errors \<noteq> [] then Some errors else None)
      \<and> rd_error_count data = Some (ec_error_formula_cells (rd_evaluation_coverage data))
      \<and> rd_cells_evaluated data \<noteq> None
      \<and> rd_cells_evaluated data =
          Option.bind (Option.bind proof_effect (\<lambda>p. json_get p ''cells_evaluated'')) json_u64)"

definition outcome_recalculate ::
    "'op codec \<Rightarrow> prepared_commit \<Rightarrow> canonical_outcome \<Rightarrow> unit res" where
  "outcome_recalculate cd r oc =
     bind_res (read_recalculate_data cd (cr_data (co_response oc))) (\<lambda>data.
     let proof_effect = effect_get r ''calculation_proof'' in
     bind_res
       (case Option.bind proof_effect (\<lambda>p. json_get p ''external_result'') of
          Some external \<Rightarrow> Inr (external_fields_valid (the proof_effect) external oc data)
        | None \<Rightarrow>
            bind_res (read_strings cd
                (case Option.bind proof_effect (\<lambda>p. json_get p ''eval_errors'') of
                   None \<Rightarrow> JArr [] | Some v \<Rightarrow> v))
              (\<lambda>errors. Inr (internal_fields_valid proof_effect errors data)))
       (\<lambda>backend_fields_valid.
     bail_if (pc_transition r \<noteq> CalculationPublish
         \<or> Option.bind proof_effect (\<lambda>p. json_get p ''coverage'')
             \<noteq> Some (write_coverage cd (rd_evaluation_coverage data))
         \<or> rd_revision_after data \<noteq> pc_state_revision r
         \<or> rd_state data \<noteq> coverage_state (rd_evaluation_coverage data)
         \<or> \<not> backend_fields_valid
         \<or> Option.bind (Option.bind proof_effect
               (\<lambda>p. json_get p ''evaluation_duration_ms'')) json_u64
             \<noteq> Some (rd_duration_ms data)
         \<or> rd_warnings data \<noteq> [])
       ''canonical calculation outcome differs from proof'' (Inr ())))"

definition outcome_checkpoint ::
    "'op codec \<Rightarrow> prepared_commit \<Rightarrow> history_state \<Rightarrow> canonical_outcome \<Rightarrow> unit res" where
  "outcome_checkpoint cd r st oc =
     bind_res (read_checkpoint_data cd (cr_data (co_response oc))) (\<lambda>data.
     case data of
       CkCreate _ revision_after checkpoint total_checkpoints _ \<Rightarrow>
         if pc_transition r = Checkpoint then
           bind_res (ok_or (bt_get (hs_checkpoints st) (pc_request_id r))
             ''checkpoint outcome references missing checkpoint'') (\<lambda>expected.
           bail_if (ck_checkpoint_id checkpoint \<noteq> rc_id expected
               \<or> ck_snapshot_revision checkpoint \<noteq> rc_state_revision expected
               \<or> ck_label checkpoint \<noteq> rc_label expected
               \<or> ck_created_at checkpoint \<noteq> None
               \<or> \<not> ck_recalc_needed checkpoint
               \<or> total_checkpoints \<noteq> length (hs_checkpoints st)
               \<or> revision_after \<noteq> pc_state_revision r)
             ''canonical checkpoint outcome mismatch'' (Inr ()))
         else Inl (Bail ''canonical checkpoint action/transition mismatch'')
     | CkDelete _ revision_after checkpoint_id deleted _ \<Rightarrow>
         if pc_transition r = CheckpointDelete then
           bail_if (effect_str r ''checkpoint_id'' \<noteq> Some checkpoint_id
               \<or> \<not> deleted
               \<or> revision_after \<noteq> pc_state_revision r)
             ''canonical checkpoint deletion mismatch'' (Inr ())
         else Inl (Bail ''canonical checkpoint action/transition mismatch'')
     | CkRestore _ revision_after restored operations_removed staged_changes_discarded
         retained_checkpoint_ids invalidated_checkpoint_ids recalc_needed _ \<Rightarrow>
         if pc_transition r = Checkout then
           bind_res (ok_or (bt_get (hs_checkpoints st) (ck_checkpoint_id restored))
             ''restored checkpoint outcome references missing checkpoint'') (\<lambda>expected.
           bail_if (ck_snapshot_revision restored \<noteq> rc_state_revision expected
               \<or> ck_label restored \<noteq> rc_label expected
               \<or> ck_created_at restored \<noteq> None
               \<or> \<not> ck_recalc_needed restored
               \<or> effect_str r ''checkpoint_id'' \<noteq> Some (ck_checkpoint_id restored)
               \<or> revision_after \<noteq> pc_state_revision r
               \<or> operations_removed \<noteq> 0
               \<or> staged_changes_discarded \<noteq> 0
               \<or> invalidated_checkpoint_ids \<noteq> []
               \<or> \<not> recalc_needed
               \<or> retained_checkpoint_ids \<noteq> bt_keys (hs_checkpoints st))
             ''canonical checkpoint restoration mismatch'' (Inr ()))
         else Inl (Bail ''canonical checkpoint action/transition mismatch'')
     | CkList _ _ _ \<Rightarrow> Inl (Bail ''canonical checkpoint action/transition mismatch''))"

definition outcome_staged_change ::
    "'op codec \<Rightarrow> prepared_commit \<Rightarrow> history_state \<Rightarrow> canonical_outcome \<Rightarrow> unit res" where
  "outcome_staged_change cd r st oc =
     bind_res (read_staged_data cd (cr_data (co_response oc))) (\<lambda>data.
     case data of
       ScApply head revision_before revision_after change_id ops_applied op_kinds
         recalc_needed _ \<Rightarrow>
         if pc_transition r = StageApply then
           bind_res (ok_or (effect_get r ''prepared_transaction'')
             ''stage apply lacks prepared transaction'') (\<lambda>prepared.
           bail_if (head \<noteq> None \<and> head \<noteq> pc_resulting_head r)
             ''staged apply head differs from committed history'' (
           let response = json_index prepared ''response'' in
           bail_if (recalc_needed = hs_calculation_current st
               \<or> json_str (json_index prepared ''consume_staged'') \<noteq> Some change_id
               \<or> json_str (json_index response ''revision_before'') \<noteq> Some revision_before
               \<or> revision_after \<noteq> pc_state_revision r
               \<or> json_u64 (json_index response ''ops_applied'') \<noteq> Some ops_applied
               \<or> json_index (json_index response ''impact'') ''op_kinds''
                   \<noteq> JArr (map JStr op_kinds))
             ''canonical staged apply outcome mismatch'' (Inr ())))
         else Inl (Bail ''canonical staging action/transition mismatch'')
     | ScDiscard _ revision_after change_id discarded _ \<Rightarrow>
         if pc_transition r \<in> {CatalogDiscard, Receipt} then
           bail_if ((pc_transition r = Receipt
                 \<and> effect_get r ''receipt_operation''
                     \<noteq> Some (JStr (transition_name CatalogDiscard)))
               \<or> effect_str r ''discard_staged_change_id'' \<noteq> Some change_id
               \<or> revision_after \<noteq> pc_state_revision r
               \<or> discarded \<noteq> (pc_transition r = CatalogDiscard))
             ''canonical staged discard mismatch'' (Inr ())
         else Inl (Bail ''canonical staging action/transition mismatch'')
     | ScList _ _ _ \<Rightarrow> Inl (Bail ''canonical staging action/transition mismatch''))"

definition outcome_session_history ::
    "'op codec \<Rightarrow> prepared_commit \<Rightarrow> canonical_outcome \<Rightarrow> unit res" where
  "outcome_session_history cd r oc =
     bind_res (read_history_data cd (cr_data (co_response oc))) (\<lambda>data.
     case data of
       ShMutation transition _ revision_after head branch \<Rightarrow>
         bind_res
           (if pc_transition r = Receipt then
              bind_res (ok_or (effect_get r ''receipt_operation'') ''history receipt lacks action'')
                transition_of_json
            else Inr (pc_transition r)) (\<lambda>expected.
         bail_if (expected \<notin> {Undo, Redo, Checkout, BranchCreate, BranchSwitch}
             \<or> transition \<noteq> expected
             \<or> revision_after \<noteq> pc_state_revision r
             \<or> head \<noteq> pc_resulting_head r
             \<or> branch \<noteq> pc_resulting_branch r)
           ''canonical history outcome/transition mismatch'' (Inr ()))
     | _ \<Rightarrow> Inl (Bail ''read-only history cannot authorize a transition''))"

section \<open>The whole check\<close>

definition outcome_operation ::
    "'op codec \<Rightarrow> prepared_commit \<Rightarrow> history_state \<Rightarrow> canonical_outcome \<Rightarrow> unit res" where
  "outcome_operation cd r st oc =
     (let operation = cr_operation (co_response oc) in
      if operation = ''create_fork'' then outcome_create_fork cd r oc
      else if operation = ''discard_fork'' then outcome_discard_fork cd r oc
      else if operation = ''export_fork'' then outcome_export_fork cd r oc
      else if operation = ''write'' then outcome_write r oc
      else if operation = ''recalculate'' then outcome_recalculate cd r oc
      else if operation = ''checkpoint'' then outcome_checkpoint cd r st oc
      else if operation = ''staged_change'' then outcome_staged_change cd r st oc
      else if operation = ''session_history'' then outcome_session_history cd r oc
      else Inl (Bail ''canonical outcome cannot authorize this transition''))"

definition outcome_validate ::
    "'op codec \<Rightarrow> prepared_commit \<Rightarrow> history_state \<Rightarrow> unit res" where
  "outcome_validate cd r st =
     (case List.map_filter (\<lambda>e. json_get e ''canonical_outcome'') (pc_effects r) of
        [] \<Rightarrow> Inr ()
      | v # vs \<Rightarrow>
          bail_if (vs \<noteq> []) ''duplicate canonical outcome metadata'' (
          bail_if (not_separate r ''canonical_outcome'')
            ''canonical metadata must be a separate typed effect'' (
          bind_res (read_outcome cd v) (\<lambda>oc.
          bind_res (outcome_identity r oc) (\<lambda>_.
          bind_res (outcome_metadata r (co_response oc)) (\<lambda>_.
          bind_res (outcome_before r st (co_response oc)) (\<lambda>_.
          bail_if (cr_operation (co_response oc) \<noteq> ''write''
              \<and> cr_operation (co_response oc) \<noteq> ''session_history''
              \<and> json_index (cr_data (co_response oc)) ''warnings'' \<noteq> JArr [])
            ''canonical outcome contains unprepared warnings''
            (outcome_operation cd r st oc))))))))"

section \<open>What an accepted outcome guarantees\<close>

text \<open>The transitions each operation may be recorded as.\<close>

definition authorised_transitions :: "string \<Rightarrow> resident_transition set" where
  "authorised_transitions operation =
     (if operation \<in> {''create_fork'', ''discard_fork'', ''export_fork''} then {Receipt}
      else if operation = ''write'' then {Mutation, CatalogStage, Receipt}
      else if operation = ''recalculate'' then {CalculationPublish}
      else if operation = ''checkpoint'' then {Checkpoint, CheckpointDelete, Checkout}
      else if operation = ''staged_change'' then {StageApply, CatalogDiscard, Receipt}
      else if operation = ''session_history''
      then {Undo, Redo, Checkout, BranchCreate, BranchSwitch, Receipt}
      else {})"

lemma outcome_checkpoint_transition:
  "outcome_checkpoint cd r st oc = Inr u \<Longrightarrow>
     pc_transition r \<in> {Checkpoint, CheckpointDelete, Checkout}"
  by (cases "read_checkpoint_data cd (cr_data (co_response oc))"; cases "projr (read_checkpoint_data cd (cr_data (co_response oc)))")
    (auto simp: outcome_checkpoint_def bind_res_Inr split: if_split_asm)

lemma outcome_staged_change_transition:
  "outcome_staged_change cd r st oc = Inr u \<Longrightarrow>
     pc_transition r \<in> {StageApply, CatalogDiscard, Receipt}"
  by (cases "read_staged_data cd (cr_data (co_response oc))"; cases "projr (read_staged_data cd (cr_data (co_response oc)))")
    (auto simp: outcome_staged_change_def bind_res_Inr split: if_split_asm)

lemma outcome_session_history_transition:
  "outcome_session_history cd r oc = Inr u \<Longrightarrow>
     pc_transition r \<in> {Undo, Redo, Checkout, BranchCreate, BranchSwitch, Receipt}"
  by (cases "read_history_data cd (cr_data (co_response oc))"; cases "projr (read_history_data cd (cr_data (co_response oc)))")
    (auto simp: outcome_session_history_def bind_res_Inr split: if_split_asm)

lemma outcome_operation_transition:
  assumes "outcome_operation cd r st oc = Inr u"
  shows "pc_transition r \<in> authorised_transitions (cr_operation (co_response oc))"
  using assms
    outcome_checkpoint_transition [of cd r st oc u] outcome_staged_change_transition [of cd r st oc u]
    outcome_session_history_transition [of cd r oc u]
  by (auto simp: outcome_operation_def authorised_transitions_def Let_def outcome_create_fork_def
      outcome_discard_fork_def outcome_export_fork_def outcome_write_def outcome_recalculate_def
      bind_res_Inr split: if_splits)

lemma map_filter_head:
  "List.map_filter f xs = v # vs \<Longrightarrow> find_map f xs = Some v"
  by (induction xs) (auto simp: List.map_filter_simps split: option.splits)

lemma outcome_validate_cases:
  assumes "outcome_validate cd r st = Inr u" and "effect_get r ''canonical_outcome'' = Some v"
  obtains oc where "read_outcome cd v = Inr oc"
    and "List.map_filter (\<lambda>e. json_get e ''canonical_outcome'') (pc_effects r) = [v]"
    and "\<not> not_separate r ''canonical_outcome''"
    and "outcome_identity r oc = Inr ()" and "outcome_metadata r (co_response oc) = Inr ()"
    and "outcome_before r st (co_response oc) = Inr ()"
    and "outcome_operation cd r st oc = Inr ()"
proof (cases "List.map_filter (\<lambda>e. json_get e ''canonical_outcome'') (pc_effects r)")
  case Nil
  with assms(2) have False
    by (auto simp: effect_get_def List.map_filter_def filter_empty_conv dest: find_map_Some)
  then show ?thesis ..
next
  case (Cons w ws)
  from map_filter_head [OF Cons] assms(2) have "w = v" by (simp add: effect_get_def)
  with Cons assms(1) that show ?thesis
    by (auto simp: outcome_validate_def bind_res_Inr)
qed


text \<open>The digest of the concrete run: 64 zeros.\<close>

definition zero_digest :: string where
  "zero_digest = replicate 64 CHR ''0''"

definition write_run_outcome :: canonical_outcome where
  "write_run_outcome = \<lparr> co_input_sha256 = zero_digest, co_core_fingerprint = ''fp'',
     co_response = \<lparr> cr_schema_version = ''1'', cr_operation = ''write'',
       cr_resource_id = Some ''session:s1'', cr_revision_id = Some ''resident:e:1:1'',
       cr_data = JObj [(''revision_before'', JStr ''resident:e:0:0'')] \<rparr> \<rparr>"

definition write_run_record :: prepared_commit where
  "write_run_record = \<lparr> pc_schema_version = resident_commit_schema, pc_session_id = ''s1'',
     pc_commit_id = ''c1'', pc_parent_commit_id = None, pc_history_parent_commit_id = None,
     pc_base_sha256 = ''b'', pc_request_id = ''q1'', pc_request_fingerprint = ''fp'',
     pc_transition = Mutation,
     pc_effects = [JObj [(''prepared_transaction'',
         JObj [(''response'', JObj [(''revision_before'', JStr ''resident:e:0:0'')])])],
       JObj [(''canonical_outcome'', JNull)]],
     pc_resulting_head = Some ''c1'', pc_resulting_branch = ''main'',
     pc_resulting_branches = [(''main'', Some ''c1'')], pc_catalog_generation = 0,
     pc_state_revision = ''resident:e:1:1'' \<rparr>"


end
