(* ===== verification/ResidentHistory.thy ===== *)
theory ResidentHistory
  imports Ancestry CanonicalOutcome
begin

text \<open>
  The replay of a resident commit stream (\<open>core/resident_storage.rs\<close>,
  \<open>PortableHistoryState\<close>). \<open>replay_step\<close> is the body of the loop of
  \<open>replay_validated_identity\<close>: the checks before the transition, one definition per arm of
  the transition, the check of the resulting state, of the revision progression and of
  observable ABA, the calculation proof flag, and the canonical outcome. The state of the loop
  is the history state together with the three sets of identities seen so far.
\<close>

section \<open>The state of the replay\<close>

definition history_empty :: "string \<Rightarrow> string \<Rightarrow> history_state" where
  "history_empty session_id base_sha256 = \<lparr> hs_session_id = session_id,
     hs_base_sha256 = base_sha256, hs_stream_tip = None, hs_head = None,
     hs_current_branch = ''main'', hs_branches = [(''main'', None)], hs_branch_labels = [],
     hs_file_export_plans = [], hs_file_export_results = [], hs_catalog_generation = 0,
     hs_state_revision = None, hs_checkpoints = [], hs_calculation_current = False,
     hs_discarded = False, hs_history_parents = [], hs_catalog_ids = [] \<rparr>"

record replay_state =
  rs_history :: history_state
  rs_commit_ids :: "string set"
  rs_request_ids :: "string set"
  rs_visible_states :: "(string \<times> u64) set"

section \<open>Walking the document history\<close>

definition staged_change_count :: "history_state \<Rightarrow> nat" where
  "staged_change_count st = length (hs_catalog_ids st)"

definition history_parent :: "history_state \<Rightarrow> string \<Rightarrow> string option res" where
  "history_parent st cid =
     ok_or (bt_get (hs_history_parents st) cid) ''unknown document-history commit''"

function active_walk ::
    "string option btree \<Rightarrow> string set \<Rightarrow> string option \<Rightarrow> string list \<Rightarrow> string list res" where
  "active_walk ps seen cursor acc =
     (case cursor of
        None \<Rightarrow> Inr acc
      | Some cid \<Rightarrow>
          if cid \<in> seen then Inl (Bail ''resident document ancestry cycle'')
          else (case bt_get ps cid of
                  None \<Rightarrow> Inl (Bail ''resident ancestry references unknown parent'')
                | Some next_cursor \<Rightarrow> active_walk ps (insert cid seen) next_cursor (cid # acc)))"
  by pat_completeness auto
termination
  by (relation "measure (\<lambda>(ps, seen, _, _). card (dom (bt_get ps) - seen))")
    (auto intro: measure_unseen)

declare active_walk.simps [simp del]

text \<open>The accumulator grows at the front: it is the reversed vector of the code.\<close>

definition active_ancestry :: "history_state \<Rightarrow> string list res" where
  "active_ancestry st = active_walk (hs_history_parents st) {} (hs_head st) []"

function redo_walk ::
    "string option btree \<Rightarrow> string option \<Rightarrow> string set \<Rightarrow> string \<Rightarrow> string \<Rightarrow> string option res" where
  "redo_walk ps head seen cursor child =
     (if cursor \<in> seen then Inl (Bail ''resident redo ancestry cycle'')
      else (case bt_get ps cursor of
              None \<Rightarrow> Inl (Bail ''resident redo ancestry references unknown commit'')
            | Some parent \<Rightarrow>
                if parent = head then Inr (Some child)
                else (case parent of
                        None \<Rightarrow> Inr None
                      | Some p \<Rightarrow> redo_walk ps head (insert cursor seen) p p)))"
  by pat_completeness auto
termination
  by (relation "measure (\<lambda>(ps, _, seen, _, _). card (dom (bt_get ps) - seen))")
    (auto intro: measure_unseen)

declare redo_walk.simps [simp del]

definition redo_target :: "history_state \<Rightarrow> string option res" where
  "redo_target st =
     (case Option.bind (bt_get (hs_branches st) (hs_current_branch st)) (\<lambda>tip. tip) of
        None \<Rightarrow> Inr None
      | Some cursor \<Rightarrow> redo_walk (hs_history_parents st) (hs_head st) {} cursor cursor)"

section \<open>Checks before the transition\<close>

definition publishes_document :: "prepared_commit \<Rightarrow> bool" where
  "publishes_document r =
     (case Option.bind (effect_pointer r
             [''prepared_transaction'', ''publication'', ''kind'']) json_str of
        None \<Rightarrow> False | Some kind \<Rightarrow> kind \<noteq> ''none'')"

definition check_identity :: "replay_state \<Rightarrow> prepared_commit \<Rightarrow> unit res" where
  "check_identity rs r =
     bail_if (hs_discarded (rs_history rs))
       ''resident journal contains a transition after resource discard'' (
     bail_if (pc_schema_version r \<noteq> resident_commit_schema)
       ''unsupported required resident commit schema'' (
     bail_if (pc_session_id r \<noteq> hs_session_id (rs_history rs)
         \<or> pc_base_sha256 r \<noteq> hs_base_sha256 (rs_history rs))
       ''resident history session/base identity mismatch'' (
     bail_if (pc_commit_id r = [] \<or> pc_commit_id r \<in> rs_commit_ids rs)
       ''duplicate or empty resident commit id'' (
     bail_if (pc_request_id r = [] \<or> pc_request_id r \<in> rs_request_ids rs)
       ''duplicate or empty resident request id in stream'' (
     bail_if (pc_parent_commit_id r \<noteq> hs_stream_tip (rs_history rs))
       ''resident linear predecessor mismatch'' (Inr ()))))))"

definition check_control :: "prepared_commit \<Rightarrow> unit res" where
  "check_control r =
     bail_if (pc_history_parent_commit_id r \<noteq> None
         \<and> pc_transition r \<notin> {Mutation, StageApply})
       ''control transition cannot have document ancestry'' (
     bind_res
       (if pc_transition r \<in> {Undo, Redo, Checkout} then
          bind_res (ok_or (effect_get r ''target_head'') ''history control lacks prepared target'')
            (\<lambda>target. bind_res (opt_string_of_json target) (\<lambda>head.
          bail_if (head \<noteq> pc_resulting_head r)
            ''history control target/result mismatch'' (Inr ())))
        else Inr ()) (\<lambda>_.
     bail_if (pc_transition r = Restart
         \<and> \<not> list_ex (\<lambda>e. Option.bind (json_get e ''restart_boundary'') json_bool = Some True)
               (pc_effects r))
       ''restart lacks explicit boundary'' (Inr ())))"

text \<open>An export effect is the only effect of a receipt and the only member of that effect.\<close>

definition single_typed_effect :: "prepared_commit \<Rightarrow> bool" where
  "single_typed_effect r =
     (case pc_effects r of [e] \<Rightarrow> json_members e = Some 1 | _ \<Rightarrow> False)"

definition check_file_export ::
    "'op codec \<Rightarrow> history_state \<Rightarrow> prepared_commit \<Rightarrow> unit res" where
  "check_file_export cd st r =
     bail_if (bt_contains (hs_file_export_plans st) (pc_request_id r)
         \<and> \<not> has_effect r ''file_export_result'')
       ''request identity reserved by a pending file export'' (
     bail_if ((has_effect r ''file_export_plan'' \<or> has_effect r ''file_export_result'')
         \<and> (pc_transition r \<noteq> Receipt \<or> \<not> single_typed_effect r))
       ''file export must be a separate typed receipt'' (
     bail_if ((has_effect r ''file_export_plan'' \<or> has_effect r ''file_export_result'')
         \<and> export_fingerprint cd r \<noteq> pc_request_fingerprint r)
       ''file export request fingerprint mismatch'' (Inr ())))"

section \<open>Receipts\<close>

definition receipt_noop :: "history_state \<Rightarrow> prepared_commit \<Rightarrow> json \<Rightarrow> unit res" where
  "receipt_noop st r operation =
     bind_res (transition_of_json operation) (\<lambda>t.
     case t of
       Undo \<Rightarrow> bail_if (hs_head st \<noteq> None) ''invalid no-op receipt operation/state'' (Inr ())
     | Redo \<Rightarrow> bind_res (redo_target st) (\<lambda>target.
         bail_if (target \<noteq> None) ''invalid no-op receipt operation/state'' (Inr ()))
     | CatalogDiscard \<Rightarrow>
         bind_res (ok_or (effect_str r ''discard_staged_change_id'')
             ''discard receipt lacks identity'') (\<lambda>cid.
         bail_if (bt_contains (hs_catalog_ids st) cid)
           ''discard receipt would have catalog effects'' (Inr ()))
     | CalculationInvalidate \<Rightarrow> Inr ()
     | _ \<Rightarrow> Inl (Bail ''invalid no-op receipt operation/state''))"

definition receipt_export_plan ::
    "'op codec \<Rightarrow> string set \<Rightarrow> history_state \<Rightarrow> prepared_commit \<Rightarrow> json \<Rightarrow> history_state res" where
  "receipt_export_plan cd request_ids st r v =
     bind_res (read_plan cd v) (\<lambda>plan.
     bind_res (plan_validate plan (hs_session_id st)) (\<lambda>_.
     let identity = fi_request_id (fp_intent plan) in
     bail_if (\<not> single_typed_effect r
         \<or> pc_request_id r \<noteq> plan_id (sha256_hex cd) identity
         \<or> identity \<in> request_ids
         \<or> fp_revision_id plan \<noteq> pc_state_revision r
         \<or> fp_head plan \<noteq> hs_head st)
       ''invalid or duplicate file export plan'' (
     bind_res (active_ancestry st) (\<lambda>path.
     bail_if (fp_events_replayed plan \<noteq> length path
         \<or> 128 \<le> length (hs_file_export_plans st)
         \<or> bt_contains (hs_file_export_plans st) identity)
       ''invalid or duplicate file export plan''
       (Inr (st \<lparr> hs_file_export_plans := bt_insert identity plan (hs_file_export_plans st) \<rparr>))))))"

definition receipt_export_result ::
    "'op codec \<Rightarrow> history_state \<Rightarrow> prepared_commit \<Rightarrow> json \<Rightarrow> history_state res" where
  "receipt_export_result cd st r v =
     bind_res (read_result cd v) (\<lambda>result.
     bind_res (ok_or (bt_get (hs_file_export_plans st) (fr_request_id result))
         ''file export result lacks plan'') (\<lambda>plan.
     bail_if (\<not> single_typed_effect r
         \<or> pc_request_id r \<noteq> fr_request_id result
         \<or> write_result cd (plan_result plan) \<noteq> v
         \<or> bt_contains (hs_file_export_results st) (fr_request_id result))
       ''invalid file export result''
       (Inr (st \<lparr> hs_file_export_results :=
          bt_insert (fr_request_id result) result (hs_file_export_results st) \<rparr>))))"

definition step_receipt ::
    "'op codec \<Rightarrow> string set \<Rightarrow> history_state \<Rightarrow> prepared_commit \<Rightarrow> history_state res" where
  "step_receipt cd request_ids st r =
     (case effect_get r ''receipt_operation'' of
        Some operation \<Rightarrow> bind_res (receipt_noop st r operation) (\<lambda>_. Inr st)
      | None \<Rightarrow>
     if has_effect r ''resource_creation'' then
       bail_if (hs_stream_tip st \<noteq> None \<or> pc_parent_commit_id r \<noteq> None
           \<or> \<not> has_effect r ''canonical_outcome'')
         ''creation receipt must be the initial canonical outcome'' (Inr st)
     else if has_effect r ''resource_discard'' then
       bail_if (\<not> has_effect r ''canonical_outcome'')
         ''discard receipt requires its canonical outcome''
         (Inr (st \<lparr> hs_discarded := True \<rparr>))
     else if has_effect r ''resource_export'' then
       bail_if (\<not> has_effect r ''canonical_outcome'')
         ''export receipt requires its canonical outcome'' (Inr st)
     else (case effect_get r ''file_export_plan'' of
        Some v \<Rightarrow> receipt_export_plan cd request_ids st r v
      | None \<Rightarrow>
     (case effect_get r ''file_export_result'' of
        Some v \<Rightarrow> receipt_export_result cd st r v
      | None \<Rightarrow>
     bail_if (\<not> has_effect r ''prepared_transaction'')
       ''receipt lacks persisted outcome'' (Inr st))))"

section \<open>The other transitions\<close>

definition bump_catalog :: "history_state \<Rightarrow> history_state" where
  "bump_catalog st =
     st \<lparr> hs_catalog_generation := u64_wrapping_add (hs_catalog_generation st) 1 \<rparr>"

definition mutation_publish :: "history_state \<Rightarrow> prepared_commit \<Rightarrow> history_state res" where
  "mutation_publish st r =
     (if publishes_document r then
        bail_if (pc_history_parent_commit_id r \<noteq> hs_head st)
          ''resident document-history parent mismatch''
          (Inr (st \<lparr> hs_history_parents :=
                bt_insert (pc_commit_id r) (pc_history_parent_commit_id r) (hs_history_parents st),
              hs_head := Some (pc_commit_id r),
              hs_branches :=
                bt_insert (hs_current_branch st) (Some (pc_commit_id r)) (hs_branches st) \<rparr>))
      else
        bail_if (pc_history_parent_commit_id r \<noteq> None)
          ''catalog-only staged apply cannot have document ancestry'' (Inr st))"

definition mutation_consume :: "history_state \<Rightarrow> prepared_commit \<Rightarrow> history_state res" where
  "mutation_consume st r =
     bind_res (ok_or (Option.bind (effect_pointer r
           [''prepared_transaction'', ''consume_staged'']) json_str)
       ''stage-apply lacks consumed staged identity'') (\<lambda>change_id.
     bail_if (\<not> bt_contains (hs_catalog_ids st) change_id)
       ''stage-apply references missing staged change''
       (Inr (bump_catalog
         (st \<lparr> hs_catalog_ids := bt_remove change_id (hs_catalog_ids st) \<rparr>))))"

definition step_mutation :: "history_state \<Rightarrow> prepared_commit \<Rightarrow> history_state res" where
  "step_mutation st r =
     bail_if (\<not> has_effect r ''prepared_transaction'') ''mutation lacks prepared transaction'' (
     bind_res (mutation_publish st r) (\<lambda>st.
     if pc_transition r = StageApply then mutation_consume st r else Inr st))"

definition step_catalog_stage :: "history_state \<Rightarrow> prepared_commit \<Rightarrow> history_state res" where
  "step_catalog_stage st r =
     bail_if (pc_history_parent_commit_id r \<noteq> None)
       ''catalog transition cannot have a history parent'' (
     bind_res (ok_or (Option.bind (effect_pointer r
           [''prepared_transaction'', ''staged'', ''0'']) json_str)
         ''catalog-stage lacks staged identity'') (\<lambda>change_id.
     bail_if (bt_contains (hs_catalog_ids st) change_id) ''duplicate staged change identity''
       (Inr (bump_catalog
         (st \<lparr> hs_catalog_ids := bt_insert change_id () (hs_catalog_ids st) \<rparr>)))))"

definition step_catalog_discard :: "history_state \<Rightarrow> prepared_commit \<Rightarrow> history_state res" where
  "step_catalog_discard st r =
     bail_if (pc_history_parent_commit_id r \<noteq> None)
       ''catalog transition cannot have a history parent'' (
     bind_res (ok_or (effect_str r ''discard_staged_change_id'')
         ''catalog-discard lacks staged identity'') (\<lambda>change_id.
     bail_if (\<not> bt_contains (hs_catalog_ids st) change_id)
       ''catalog-discard references missing staged change''
       (Inr (bump_catalog
         (st \<lparr> hs_catalog_ids := bt_remove change_id (hs_catalog_ids st) \<rparr>)))))"

definition step_calculation_publish ::
    "'op codec \<Rightarrow> history_state \<Rightarrow> prepared_commit \<Rightarrow> history_state res" where
  "step_calculation_publish cd st r =
     bail_if (pc_history_parent_commit_id r \<noteq> None)
       ''non-mutation transition cannot have a history parent'' (
     bind_res (ok_or (effect_get r ''calculation_proof'')
         ''calculation publication lacks snapshot'') (\<lambda>snapshot.
     bind_res (ok_or (json_get snapshot ''coverage'')
         ''calculation publication lacks coverage'') (\<lambda>v.
     bind_res (read_coverage cd v) (\<lambda>coverage.
     bail_if (ec_revision_id coverage \<noteq> pc_state_revision r
         \<or> ec_evaluated_formula_cells coverage \<noteq> ec_formula_cells coverage
         \<or> ec_unsupported_formula_cells coverage \<noteq> 0)
       ''calculation proof is not complete for the resulting revision'' (Inr st)))))"

definition step_calculation_invalidate ::
    "history_state \<Rightarrow> prepared_commit \<Rightarrow> history_state res" where
  "step_calculation_invalidate st r =
     bail_if (pc_history_parent_commit_id r \<noteq> None
         \<or> \<not> list_ex (\<lambda>e. Option.bind (json_get e ''reason'') json_str \<noteq> None) (pc_effects r))
       ''invalid calculation-proof revocation'' (Inr st)"

definition step_checkpoint :: "history_state \<Rightarrow> prepared_commit \<Rightarrow> history_state res" where
  "step_checkpoint st r =
     Inr (bump_catalog (st \<lparr> hs_checkpoints := bt_insert (pc_request_id r)
       \<lparr> rc_id = pc_request_id r, rc_head = hs_head st,
         rc_state_revision = pc_state_revision r, rc_label = effect_str r ''label'' \<rparr>
       (hs_checkpoints st) \<rparr>))"

definition step_checkpoint_delete :: "history_state \<Rightarrow> prepared_commit \<Rightarrow> history_state res" where
  "step_checkpoint_delete st r =
     bind_res (ok_or (effect_str r ''checkpoint_id'') ''checkpoint delete lacks identity'')
       (\<lambda>cid.
     bail_if (\<not> bt_contains (hs_checkpoints st) cid) ''unknown checkpoint''
       (Inr (bump_catalog (st \<lparr> hs_checkpoints := bt_remove cid (hs_checkpoints st) \<rparr>))))"

definition step_restart :: "history_state \<Rightarrow> prepared_commit \<Rightarrow> history_state res" where
  "step_restart st r =
     bail_if (pc_history_parent_commit_id r \<noteq> None)
       ''non-mutation transition cannot have a history parent'' (Inr st)"

text \<open>\<open>head.and_then(|head| parents.get(head)).cloned().flatten()\<close>\<close>

definition parent_of :: "history_state \<Rightarrow> string option \<Rightarrow> string option" where
  "parent_of st head =
     (case head of
        None \<Rightarrow> None
      | Some h \<Rightarrow> (case bt_get (hs_history_parents st) h of None \<Rightarrow> None | Some p \<Rightarrow> p))"

definition step_undo :: "history_state \<Rightarrow> prepared_commit \<Rightarrow> history_state res" where
  "step_undo st r =
     (let expected = parent_of st (hs_head st) in
      bail_if (pc_resulting_head r \<noteq> expected) ''invalid undo target''
        (Inr (st \<lparr> hs_head := expected \<rparr>)))"

definition step_redo_checkout :: "history_state \<Rightarrow> prepared_commit \<Rightarrow> history_state res" where
  "step_redo_checkout st r =
     (let target = pc_resulting_head r in
      bail_if (\<not> option_all (\<lambda>t. bt_contains (hs_history_parents st) t) target)
        ''history move references unknown mutation'' (
      bind_res
        (if pc_transition r = Redo then
           bail_if (parent_of st target \<noteq> hs_head st)
             ''redo target is not the selected branch successor'' (
           bind_res (redo_target st) (\<lambda>successor.
           bail_if (target \<noteq> successor)
             ''redo target is not the selected branch successor'' (Inr ())))
         else Inr ()) (\<lambda>_.
      Inr (st \<lparr> hs_head := target \<rparr>))))"

definition branch_create_target ::
    "history_state \<Rightarrow> prepared_commit \<Rightarrow> string option res" where
  "branch_create_target st r =
     (case effect_get r ''branch_target'' of
        None \<Rightarrow> Inr (hs_head st)
      | Some JNull \<Rightarrow> Inr None
      | Some (JStr target) \<Rightarrow>
          bail_if (\<not> bt_contains (hs_history_parents st) target)
            ''branch-create references an invalid mutation target'' (Inr (Some target))
      | _ \<Rightarrow> Inl (Bail ''branch-create references an invalid mutation target''))"

definition requested_target_matches ::
    "history_state \<Rightarrow> string option \<Rightarrow> json \<Rightarrow> bool" where
  "requested_target_matches st target requested =
     (case requested of
        JNull \<Rightarrow> target = hs_head st
      | JStr v \<Rightarrow> (if v = ''base'' then target = None else target = Some v)
      | _ \<Rightarrow> False)"

definition branch_create_label ::
    "history_state \<Rightarrow> prepared_commit \<Rightarrow> string \<Rightarrow> history_state res" where
  "branch_create_label st r name =
     (case effect_get r ''branch_label'' of
        None \<Rightarrow> Inr st
      | Some JNull \<Rightarrow> Inr st
      | Some (JStr label) \<Rightarrow>
          bail_if (length label > 1024) ''branch-create has invalid label''
            (Inr (st \<lparr> hs_branch_labels := bt_insert name label (hs_branch_labels st) \<rparr>))
      | _ \<Rightarrow> Inl (Bail ''branch-create has invalid label''))"

definition step_branch_create :: "history_state \<Rightarrow> prepared_commit \<Rightarrow> history_state res" where
  "step_branch_create st r =
     bind_res (ok_or (effect_str r ''branch_name'') ''branch-create lacks branch_name'') (\<lambda>name.
     bail_if (bt_contains (hs_branches st) name) ''branch already exists'' (
     bind_res (branch_create_target st r) (\<lambda>target.
     bail_if (\<not> option_all (requested_target_matches st target) (effect_get r ''requested_target''))
       ''branch-create target differs from request'' (
     bind_res (branch_create_label st r name) (\<lambda>st.
     Inr (st \<lparr> hs_branches := bt_insert name target (hs_branches st) \<rparr>))))))"

definition step_branch_switch :: "history_state \<Rightarrow> prepared_commit \<Rightarrow> history_state res" where
  "step_branch_switch st r =
     bind_res (ok_or (effect_str r ''branch_name'') ''branch-switch lacks branch_name'') (\<lambda>name.
     bind_res (ok_or (bt_get (hs_branches st) name) ''branch-switch references unknown branch'')
       (\<lambda>target.
     Inr (st \<lparr> hs_current_branch := name, hs_head := target \<rparr>)))"

definition step_transition ::
    "'op codec \<Rightarrow> string set \<Rightarrow> history_state \<Rightarrow> prepared_commit \<Rightarrow> history_state res" where
  "step_transition cd request_ids st r =
     (case pc_transition r of
        Receipt \<Rightarrow> step_receipt cd request_ids st r
      | Mutation \<Rightarrow> step_mutation st r
      | StageApply \<Rightarrow> step_mutation st r
      | CatalogStage \<Rightarrow> step_catalog_stage st r
      | CatalogDiscard \<Rightarrow> step_catalog_discard st r
      | CalculationPublish \<Rightarrow> step_calculation_publish cd st r
      | CalculationInvalidate \<Rightarrow> step_calculation_invalidate st r
      | Checkpoint \<Rightarrow> step_checkpoint st r
      | CheckpointDelete \<Rightarrow> step_checkpoint_delete st r
      | Restart \<Rightarrow> step_restart st r
      | Undo \<Rightarrow> step_undo st r
      | Redo \<Rightarrow> step_redo_checkout st r
      | Checkout \<Rightarrow> step_redo_checkout st r
      | BranchCreate \<Rightarrow> step_branch_create st r
      | BranchSwitch \<Rightarrow> step_branch_switch st r)"

section \<open>Checks after the transition\<close>

definition parse_revision :: "string \<Rightarrow> (string \<times> u64 \<times> u64) res" where
  "parse_revision revision =
     (case split_on CHR '':'' revision of
        [scheme, epoch, document, state] \<Rightarrow>
          bail_if (scheme \<noteq> ''resident'' \<or> epoch = []) ''invalid resident revision identity'' (
          bind_res (ok_or (parse_u64 document) ''invalid digit'') (\<lambda>d.
          bind_res (ok_or (parse_u64 state) ''invalid digit'') (\<lambda>s.
          Inr (epoch, d, s))))
      | _ \<Rightarrow> Inl (Bail ''invalid resident revision identity''))"

definition is_catalog_only :: "prepared_commit \<Rightarrow> bool" where
  "is_catalog_only r =
     (pc_transition r \<in> {CatalogStage, CatalogDiscard, Checkpoint, CheckpointDelete, Receipt}
      \<or> (pc_transition r = StageApply \<and> \<not> publishes_document r))"

definition is_document_change :: "string option \<Rightarrow> prepared_commit \<Rightarrow> bool" where
  "is_document_change head_before r =
     (publishes_document r
      \<or> pc_transition r \<in> {Undo, Redo, Checkout}
      \<or> (pc_transition r = BranchSwitch \<and> head_before \<noteq> pc_resulting_head r))"

definition previous_revision :: "history_state \<Rightarrow> prepared_commit \<Rightarrow> string option" where
  "previous_revision st r =
     (case hs_state_revision st of
        Some p \<Rightarrow> Some p
      | None \<Rightarrow> Option.bind (effect_pointer r
          [''prepared_transaction'', ''response'', ''revision_before'']) json_str)"

definition check_revision ::
    "string option \<Rightarrow> history_state \<Rightarrow> prepared_commit \<Rightarrow> unit res" where
  "check_revision head_before st r =
     bind_res (parse_revision (pc_state_revision r)) (\<lambda>(epoch, document, state).
     case previous_revision st r of
       None \<Rightarrow> Inr ()
     | Some p \<Rightarrow> bind_res (parse_revision p) (\<lambda>(epoch', document', state').
         bail_if (epoch \<noteq> epoch'
             \<or> document \<noteq> u64_wrapping_add document' (of_bool (is_document_change head_before r))
             \<or> state \<noteq> u64_wrapping_add state' (of_bool (\<not> is_catalog_only r)))
           ''invalid transition-specific resident revision progression'' (Inr ())))"

definition calculation_flag ::
    "string option \<Rightarrow> prepared_commit \<Rightarrow> bool \<Rightarrow> bool" where
  "calculation_flag head_before r current =
     (case pc_transition r of
        CalculationPublish \<Rightarrow> True
      | CalculationInvalidate \<Rightarrow> False
      | Restart \<Rightarrow> False
      | Undo \<Rightarrow> False
      | Redo \<Rightarrow> False
      | Checkout \<Rightarrow> False
      | BranchSwitch \<Rightarrow> (if head_before \<noteq> pc_resulting_head r then False else current)
      | _ \<Rightarrow>
          if pc_transition r \<in> {Mutation, StageApply} \<and> publishes_document r
             \<and> Option.bind (effect_pointer r
                 [''prepared_transaction'', ''publication'', ''calculation_effect'']) json_str
               \<noteq> Some ''Preserve''
          then False else current)"

definition check_result :: "history_state \<Rightarrow> prepared_commit \<Rightarrow> unit res" where
  "check_result st r =
     bail_if (pc_resulting_head r \<noteq> hs_head st
         \<or> pc_resulting_branch r \<noteq> hs_current_branch st
         \<or> pc_resulting_branches r \<noteq> hs_branches st
         \<or> pc_catalog_generation r \<noteq> hs_catalog_generation st)
       ''resident transition resulting state is inconsistent'' (Inr ())"

section \<open>The loop\<close>

definition replay_step ::
    "'op codec \<Rightarrow> replay_state \<Rightarrow> prepared_commit \<Rightarrow> replay_state res" where
  "replay_step cd rs r =
     bind_res (check_identity rs r) (\<lambda>_.
     let before = rs_history rs;
         request_ids = insert (pc_request_id r) (rs_request_ids rs);
         visible = (pc_state_revision r, pc_catalog_generation r)
     in
     bind_res (validate_portable_prepared_record cd r (hs_state_revision before)) (\<lambda>_.
     bind_res (check_control r) (\<lambda>_.
     bind_res (check_file_export cd before r) (\<lambda>_.
     bind_res (step_transition cd request_ids before r) (\<lambda>st.
     bind_res (check_result st r) (\<lambda>_.
     bind_res (check_revision (hs_head before) st r) (\<lambda>_.
     bail_if (pc_transition r \<noteq> Receipt \<and> visible \<in> rs_visible_states rs)
       ''resident observable state ABA detected'' (
     let st = st \<lparr> hs_calculation_current :=
           calculation_flag (hs_head before) r (hs_calculation_current st) \<rparr>
     in
     bind_res (outcome_validate cd r st) (\<lambda>_.
     Inr \<lparr> rs_history = st \<lparr> hs_stream_tip := Some (pc_commit_id r),
             hs_state_revision := Some (pc_state_revision r) \<rparr>,
           rs_commit_ids = insert (pc_commit_id r) (rs_commit_ids rs),
           rs_request_ids = request_ids,
           rs_visible_states =
             (if pc_transition r \<noteq> Receipt then insert visible (rs_visible_states rs)
              else rs_visible_states rs) \<rparr>)))))))))"

definition replay_start :: "string \<Rightarrow> string \<Rightarrow> replay_state" where
  "replay_start session_id base_sha256 = \<lparr> rs_history = history_empty session_id base_sha256,
     rs_commit_ids = {}, rs_request_ids = {}, rs_visible_states = {} \<rparr>"

definition replay_validated_identity ::
    "'op codec \<Rightarrow> prepared_commit list \<Rightarrow> history_state res" where
  "replay_validated_identity cd records =
     bind_res (ok_or (first_opt records) ''history stream is empty'') (\<lambda>r.
     map_sum (\<lambda>e. e) rs_history
       (fold_res (replay_step cd) (replay_start (pc_session_id r) (pc_base_sha256 r)) records))"

definition replay_bound ::
    "'op codec \<Rightarrow> prepared_commit list \<Rightarrow> string \<Rightarrow> string \<Rightarrow> history_state res" where
  "replay_bound cd records session_id base_sha256 =
     bail_if (list_ex (\<lambda>r. pc_session_id r \<noteq> session_id \<or> pc_base_sha256 r \<noteq> base_sha256) records)
       ''resident history expected session/base identity mismatch'' (
     if records = [] then Inr (history_empty session_id base_sha256)
     else replay_validated_identity cd records)"

definition replay :: "'op codec \<Rightarrow> prepared_commit list \<Rightarrow> history_state res" where
  "replay cd records =
     bind_res (ok_or (first_opt records) ''history stream is empty'') (\<lambda>r.
     replay_bound cd records (pc_session_id r) (pc_base_sha256 r))"

section \<open>The invariant of the history\<close>

text \<open>A head is the base or a commit of the document history.\<close>

definition known :: "string option btree \<Rightarrow> string option \<Rightarrow> bool" where
  "known ps h = (h = None \<or> (\<exists>x. h = Some x \<and> bt_get ps x \<noteq> None))"

definition history_wf :: "history_state \<Rightarrow> bool" where
  "history_wf st =
     (grown (hs_history_parents st)
      \<and> known (hs_history_parents st) (hs_head st)
      \<and> (\<forall>b t. bt_get (hs_branches st) b = Some t \<longrightarrow> known (hs_history_parents st) t)
      \<and> bt_get (hs_branches st) (hs_current_branch st) \<noteq> None
      \<and> (\<forall>c k. bt_get (hs_checkpoints st) c = Some k \<longrightarrow> known (hs_history_parents st) (rc_head k))
      \<and> bt_wf (hs_branches st) \<and> bt_wf (hs_checkpoints st) \<and> bt_wf (hs_catalog_ids st)
      \<and> bt_wf (hs_file_export_plans st) \<and> length (hs_file_export_plans st) \<le> 128
      \<and> (\<forall>q. bt_get (hs_file_export_plans st) q = None \<longrightarrow>
            bt_get (hs_file_export_results st) q = None))"

lemma known_simps [simp]: "known ps None" "known ps (Some x) \<longleftrightarrow> bt_get ps x \<noteq> None"
  by (simp_all add: known_def)

lemma known_insert: "known ps h \<Longrightarrow> known (bt_insert k p ps) h"
  by (cases h) auto

lemma known_parent: "grown ps \<Longrightarrow> bt_get ps x = Some p \<Longrightarrow> known ps p"
  using links.ranked [of ps] by (cases p) auto

lemma known_parent_of:
  "history_wf st \<Longrightarrow> known (hs_history_parents st) (parent_of st h)"
  by (auto simp: parent_of_def history_wf_def split: option.splits intro: known_parent)

lemma length_bt_insert: "length (bt_insert k v m) \<le> Suc (length m)"
  by (induction m rule: bt_insert.induct) auto

lemma history_wf_empty: "history_wf (history_empty s b)"
  by (auto simp: history_wf_def history_empty_def grown.grown_Nil bt_wf_def bt_get_def
      split: if_split_asm)

lemma history_wf_simple_updates [simp]:
  "history_wf (st \<lparr> hs_calculation_current := c \<rparr>) = history_wf st"
  "history_wf (st \<lparr> hs_discarded := d \<rparr>) = history_wf st"
  "history_wf (st \<lparr> hs_stream_tip := t \<rparr>) = history_wf st"
  "history_wf (st \<lparr> hs_state_revision := v \<rparr>) = history_wf st"
  "history_wf (st \<lparr> hs_branch_labels := l \<rparr>) = history_wf st"
  "history_wf (bump_catalog st) = history_wf st"
  by (simp_all add: history_wf_def bump_catalog_def)

lemma history_wf_head:
  "history_wf st \<Longrightarrow> known (hs_history_parents st) h \<Longrightarrow> history_wf (st \<lparr> hs_head := h \<rparr>)"
  by (simp add: history_wf_def)

lemma history_wf_catalog:
  "history_wf st \<Longrightarrow> bt_wf c \<Longrightarrow> history_wf (st \<lparr> hs_catalog_ids := c \<rparr>)"
  by (simp add: history_wf_def)

lemma history_wf_commit:
  assumes "history_wf st" and "bt_get (hs_history_parents st) c = None"
  shows "history_wf (st \<lparr> hs_history_parents := bt_insert c (hs_head st) (hs_history_parents st),
      hs_head := Some c,
      hs_branches := bt_insert (hs_current_branch st) (Some c) (hs_branches st) \<rparr>)"
  using assms
  by (auto simp: history_wf_def bt_wf_insert split: option.splits if_split_asm
      intro!: grown.grown_insert intro: known_insert)

lemma step_receipt_wf:
  "history_wf st \<Longrightarrow> step_receipt cd ids st r = Inr st' \<Longrightarrow> history_wf st'"
  by (auto simp: step_receipt_def receipt_export_plan_def receipt_export_result_def bind_res_Inr
      Let_def history_wf_def bt_wf_insert le_Suc_eq split: option.split_asm if_split_asm
      intro!: le_trans [OF length_bt_insert])

lemma mutation_publish_wf:
  "history_wf st \<Longrightarrow> bt_get (hs_history_parents st) (pc_commit_id r) = None
    \<Longrightarrow> mutation_publish st r = Inr st' \<Longrightarrow> history_wf st'"
  by (auto simp: mutation_publish_def intro: history_wf_commit split: if_split_asm)

lemma mutation_consume_wf:
  "history_wf st \<Longrightarrow> mutation_consume st r = Inr st' \<Longrightarrow> history_wf st'"
  by (auto simp: mutation_consume_def bind_res_Inr history_wf_def bump_catalog_def bt_wf_remove)

lemma step_mutation_wf:
  "history_wf st \<Longrightarrow> bt_get (hs_history_parents st) (pc_commit_id r) = None
    \<Longrightarrow> step_mutation st r = Inr st' \<Longrightarrow> history_wf st'"
  by (auto simp: step_mutation_def bind_res_Inr split: if_split_asm
      dest: mutation_publish_wf mutation_consume_wf)

lemma step_catalog_wf:
  "history_wf st \<Longrightarrow> step_catalog_stage st r = Inr st' \<Longrightarrow> history_wf st'"
  "history_wf st \<Longrightarrow> step_catalog_discard st r = Inr st' \<Longrightarrow> history_wf st'"
  by (auto simp: step_catalog_stage_def step_catalog_discard_def bind_res_Inr history_wf_def
      bump_catalog_def bt_wf_insert bt_wf_remove)

lemma step_checkpoint_wf:
  "history_wf st \<Longrightarrow> step_checkpoint st r = Inr st' \<Longrightarrow> history_wf st'"
  "history_wf st \<Longrightarrow> step_checkpoint_delete st r = Inr st' \<Longrightarrow> history_wf st'"
  by (auto simp: step_checkpoint_def step_checkpoint_delete_def bind_res_Inr history_wf_def
      bump_catalog_def bt_wf_insert bt_wf_remove split: if_split_asm)

lemma step_move_wf:
  "history_wf st \<Longrightarrow> step_undo st r = Inr st' \<Longrightarrow> history_wf st'"
  "history_wf st \<Longrightarrow> step_redo_checkout st r = Inr st' \<Longrightarrow> history_wf st'"
  by (auto simp: step_undo_def step_redo_checkout_def bind_res_Inr Let_def option_all_def
      split: option.split_asm if_split_asm intro!: history_wf_head known_parent_of)

lemma branch_create_target_known:
  "history_wf st \<Longrightarrow> branch_create_target st r = Inr t \<Longrightarrow> known (hs_history_parents st) t"
  by (auto simp: branch_create_target_def history_wf_def split: option.split_asm json.split_asm)

lemma branch_create_label_wf:
  "history_wf st \<Longrightarrow> branch_create_label st r name = Inr st' \<Longrightarrow>
     history_wf st' \<and> hs_history_parents st' = hs_history_parents st"
  by (auto simp: branch_create_label_def split: option.split_asm json.split_asm)

lemma history_wf_branch:
  "history_wf st \<Longrightarrow> known (hs_history_parents st) t \<Longrightarrow>
     history_wf (st \<lparr> hs_branches := bt_insert name t (hs_branches st) \<rparr>)"
  by (auto simp: history_wf_def bt_wf_insert split: if_split_asm)

lemma step_branch_switch_wf:
  "history_wf st \<Longrightarrow> step_branch_switch st r = Inr st' \<Longrightarrow> history_wf st'"
  by (auto simp: step_branch_switch_def bind_res_Inr history_wf_def)

lemma step_branch_create_wf:
  assumes wf: "history_wf st" and step: "step_branch_create st r = Inr st'"
  shows "history_wf st'"
proof -
  from step obtain name target st1 where t: "branch_create_target st r = Inr target"
    and l: "branch_create_label st r name = Inr st1"
    and st': "st' = st1 \<lparr> hs_branches := bt_insert name target (hs_branches st1) \<rparr>"
    by (auto simp: step_branch_create_def bind_res_Inr)
  from branch_create_target_known [OF wf t] branch_create_label_wf [OF wf l] show ?thesis
    by (simp add: st' history_wf_branch)
qed

lemmas step_branch_wf = step_branch_switch_wf step_branch_create_wf

lemma step_calculation_wf:
  "history_wf st \<Longrightarrow> step_calculation_publish cd st r = Inr st' \<Longrightarrow> history_wf st'"
  "history_wf st \<Longrightarrow> step_calculation_invalidate st r = Inr st' \<Longrightarrow> history_wf st'"
  "history_wf st \<Longrightarrow> step_restart st r = Inr st' \<Longrightarrow> history_wf st'"
  by (auto simp: step_calculation_publish_def step_calculation_invalidate_def step_restart_def
      bind_res_Inr)

lemmas step_wf = step_receipt_wf step_mutation_wf step_catalog_wf step_checkpoint_wf step_move_wf
  step_branch_wf step_calculation_wf

lemma step_transition_wf:
  assumes wf: "history_wf st" and fresh: "bt_get (hs_history_parents st) (pc_commit_id r) = None"
    and step: "step_transition cd ids st r = Inr st'"
  shows "history_wf st'"
  using step
  by (cases "pc_transition r"; simp only: step_transition_def resident_transition.case)
    (rule step_wf [OF wf]; (assumption | rule fresh))+

text \<open>What no transition touches: the identity, the stream tip and the revision; the document
  history grows by at most the record's own commit and never loses a link.\<close>

definition framed :: "prepared_commit \<Rightarrow> history_state \<Rightarrow> history_state \<Rightarrow> bool" where
  "framed r st st' =
     (hs_session_id st' = hs_session_id st \<and> hs_base_sha256 st' = hs_base_sha256 st
      \<and> hs_stream_tip st' = hs_stream_tip st \<and> hs_state_revision st' = hs_state_revision st
      \<and> hs_calculation_current st' = hs_calculation_current st
      \<and> (hs_history_parents st' = hs_history_parents st
         \<or> hs_history_parents st' =
             bt_insert (pc_commit_id r) (hs_head st) (hs_history_parents st)))"

lemma framed_refl [simp]: "framed r st st"
  by (simp add: framed_def)

lemma framed_receipt: "step_receipt cd ids st r = Inr st' \<Longrightarrow> framed r st st'"
  by (auto simp: step_receipt_def receipt_export_plan_def receipt_export_result_def bind_res_Inr
      Let_def framed_def split: option.split_asm if_split_asm)

lemma framed_mutation: "step_mutation st r = Inr st' \<Longrightarrow> framed r st st'"
  by (auto simp: step_mutation_def mutation_publish_def mutation_consume_def bump_catalog_def
      bind_res_Inr framed_def split: if_split_asm)

lemma framed_catalog:
  "step_catalog_stage st r = Inr st' \<Longrightarrow> framed r st st'"
  "step_catalog_discard st r = Inr st' \<Longrightarrow> framed r st st'"
  "step_checkpoint st r = Inr st' \<Longrightarrow> framed r st st'"
  "step_checkpoint_delete st r = Inr st' \<Longrightarrow> framed r st st'"
  by (auto simp: step_catalog_stage_def step_catalog_discard_def step_checkpoint_def
      step_checkpoint_delete_def bump_catalog_def bind_res_Inr framed_def)

lemma framed_move:
  "step_undo st r = Inr st' \<Longrightarrow> framed r st st'"
  "step_redo_checkout st r = Inr st' \<Longrightarrow> framed r st st'"
  "step_branch_switch st r = Inr st' \<Longrightarrow> framed r st st'"
  by (auto simp: step_undo_def step_redo_checkout_def step_branch_switch_def bind_res_Inr
      framed_def Let_def)

lemma framed_branch_label: "branch_create_label st r name = Inr st' \<Longrightarrow> framed r st st'"
  by (auto simp: branch_create_label_def framed_def split: option.split_asm json.split_asm)

lemma framed_branch_create: "step_branch_create st r = Inr st' \<Longrightarrow> framed r st st'"
  by (auto simp: step_branch_create_def bind_res_Inr dest!: framed_branch_label)
    (simp add: framed_def)

lemma framed_calculation:
  "step_calculation_publish cd st r = Inr st' \<Longrightarrow> framed r st st'"
  "step_calculation_invalidate st r = Inr st' \<Longrightarrow> framed r st st'"
  "step_restart st r = Inr st' \<Longrightarrow> framed r st st'"
  by (auto simp: step_calculation_publish_def step_calculation_invalidate_def step_restart_def
      bind_res_Inr)

lemmas step_framed = framed_receipt framed_mutation framed_catalog framed_move
  framed_branch_create framed_calculation

lemma step_transition_framed:
  assumes "step_transition cd ids st r = Inr st'"
  shows "framed r st st'"
  using assms
  by (cases "pc_transition r"; simp only: step_transition_def resident_transition.case)
    (rule step_framed, assumption)+

text \<open>The parts of an accepted step.\<close>

lemma replay_step_cases:
  assumes "replay_step cd rs r = Inr rs'"
  obtains st where
    "check_identity rs r = Inr ()"
    "validate_portable_prepared_record cd r (hs_state_revision (rs_history rs)) = Inr ()"
    "check_control r = Inr ()"
    "check_file_export cd (rs_history rs) r = Inr ()"
    "step_transition cd (insert (pc_request_id r) (rs_request_ids rs)) (rs_history rs) r = Inr st"
    "check_result st r = Inr ()"
    "check_revision (hs_head (rs_history rs)) st r = Inr ()"
    "pc_transition r = Receipt
       \<or> (pc_state_revision r, pc_catalog_generation r) \<notin> rs_visible_states rs"
    "outcome_validate cd r (st \<lparr> hs_calculation_current :=
       calculation_flag (hs_head (rs_history rs)) r (hs_calculation_current st) \<rparr>) = Inr ()"
    "rs_history rs' = st \<lparr> hs_calculation_current :=
         calculation_flag (hs_head (rs_history rs)) r (hs_calculation_current st),
       hs_stream_tip := Some (pc_commit_id r), hs_state_revision := Some (pc_state_revision r) \<rparr>"
    "rs_commit_ids rs' = insert (pc_commit_id r) (rs_commit_ids rs)"
    "rs_request_ids rs' = insert (pc_request_id r) (rs_request_ids rs)"
    "rs_visible_states rs' = (if pc_transition r \<noteq> Receipt
       then insert (pc_state_revision r, pc_catalog_generation r) (rs_visible_states rs)
       else rs_visible_states rs)"
  using assms by (auto simp: replay_step_def bind_res_Inr Let_def)

definition replay_inv :: "replay_state \<Rightarrow> bool" where
  "replay_inv rs =
     (history_wf (rs_history rs)
      \<and> (\<forall>x. bt_get (hs_history_parents (rs_history rs)) x \<noteq> None \<longrightarrow> x \<in> rs_commit_ids rs))"

lemma replay_inv_start: "replay_inv (replay_start s b)"
  by (auto simp: replay_inv_def replay_start_def history_wf_empty)
    (simp add: history_empty_def)

lemma replay_inv_step:
  assumes inv: "replay_inv rs" and step: "replay_step cd rs r = Inr rs'"
  shows "replay_inv rs'"
proof -
  from step obtain st where ident: "check_identity rs r = Inr ()"
    and st: "step_transition cd (insert (pc_request_id r) (rs_request_ids rs)) (rs_history rs) r = Inr st"
    and hist: "rs_history rs' = st \<lparr> hs_calculation_current :=
         calculation_flag (hs_head (rs_history rs)) r (hs_calculation_current st),
       hs_stream_tip := Some (pc_commit_id r), hs_state_revision := Some (pc_state_revision r) \<rparr>"
    and ids: "rs_commit_ids rs' = insert (pc_commit_id r) (rs_commit_ids rs)"
    by (rule replay_step_cases)
  from ident have "pc_commit_id r \<notin> rs_commit_ids rs" by (simp add: check_identity_def)
  with inv have fresh: "bt_get (hs_history_parents (rs_history rs)) (pc_commit_id r) = None"
    by (auto simp: replay_inv_def)
  from inv have "history_wf (rs_history rs)" by (simp add: replay_inv_def)
  from step_transition_wf [OF this fresh st] have "history_wf (rs_history rs')"
    by (simp add: hist)
  with step_transition_framed [OF st] inv show ?thesis
    by (auto simp: hist ids framed_def replay_inv_def split: if_split_asm)
qed

section \<open>Accepted streams\<close>

definition accepts ::
    "'op codec \<Rightarrow> string \<Rightarrow> string \<Rightarrow> prepared_commit list \<Rightarrow> replay_state \<Rightarrow> bool" where
  "accepts cd s b records rs = (fold_res (replay_step cd) (replay_start s b) records = Inr rs)"

lemma accepts_Nil [simp]: "accepts cd s b [] rs \<longleftrightarrow> rs = replay_start s b"
  by (auto simp: accepts_def)

lemma accepts_snoc:
  "accepts cd s b (xs @ [r]) rs'
    \<longleftrightarrow> (\<exists>rs. accepts cd s b xs rs \<and> replay_step cd rs r = Inr rs')"
  by (auto simp: accepts_def fold_res_append bind_res_Inr)

lemma accepts_append:
  "accepts cd s b (xs @ ys) rs' \<Longrightarrow> \<exists>rs. accepts cd s b xs rs"
  by (auto simp: accepts_def fold_res_append bind_res_Inr)

text \<open>Induction along an accepted stream.\<close>

lemma accepts_induct [consumes 1, case_names Nil snoc]:
  assumes "accepts cd s b records rs"
    and "P [] (replay_start s b)"
    and "\<And>xs r rs rs'. accepts cd s b xs rs \<Longrightarrow> P xs rs \<Longrightarrow> replay_step cd rs r = Inr rs'
      \<Longrightarrow> P (xs @ [r]) rs'"
  shows "P records rs"
  using assms(1)
proof (induction records arbitrary: rs rule: rev_induct)
  case Nil
  with assms(2) show ?case by simp
next
  case (snoc r xs)
  from snoc.prems obtain rs1 where "accepts cd s b xs rs1" "replay_step cd rs1 r = Inr rs"
    by (auto simp: accepts_snoc)
  with snoc.IH assms(3) show ?case by blast
qed

lemma accepts_inv: "accepts cd s b records rs \<Longrightarrow> replay_inv rs"
  by (induction rule: accepts_induct) (auto intro: replay_inv_start replay_inv_step)

text \<open>The identities of the stream and the sets of the replay.\<close>

lemma accepts_identity:
  assumes "accepts cd s b records rs"
  shows "hs_session_id (rs_history rs) = s \<and> hs_base_sha256 (rs_history rs) = b
    \<and> (\<forall>r \<in> set records. pc_session_id r = s \<and> pc_base_sha256 r = b)
    \<and> rs_commit_ids rs = set (map pc_commit_id records) \<and> distinct (map pc_commit_id records)
    \<and> rs_request_ids rs = set (map pc_request_id records) \<and> distinct (map pc_request_id records)
    \<and> hs_stream_tip (rs_history rs) = map_option pc_commit_id (last_opt records)
    \<and> hs_state_revision (rs_history rs) = map_option pc_state_revision (last_opt records)"
  using assms
proof (induction rule: accepts_induct)
  case Nil
  then show ?case by (simp add: replay_start_def history_empty_def)
next
  case (snoc xs r rs rs')
  from snoc.hyps(2) obtain st where ident: "check_identity rs r = Inr ()"
    and st: "step_transition cd (insert (pc_request_id r) (rs_request_ids rs)) (rs_history rs) r = Inr st"
    and hist: "rs_history rs' = st \<lparr> hs_calculation_current :=
         calculation_flag (hs_head (rs_history rs)) r (hs_calculation_current st),
       hs_stream_tip := Some (pc_commit_id r), hs_state_revision := Some (pc_state_revision r) \<rparr>"
    and ids: "rs_commit_ids rs' = insert (pc_commit_id r) (rs_commit_ids rs)"
      "rs_request_ids rs' = insert (pc_request_id r) (rs_request_ids rs)"
    by (rule replay_step_cases)
  from step_transition_framed [OF st] snoc.IH ident show ?case
    by (auto simp: hist ids framed_def check_identity_def)
qed

lemma replay_bound_accepts:
  "replay_bound cd records s b = Inr st
    \<longleftrightarrow> (\<exists>rs. accepts cd s b records rs \<and> st = rs_history rs)"
proof (cases records)
  case Nil
  then show ?thesis by (auto simp: replay_bound_def replay_start_def)
next
  case (Cons r rest)
  let ?bad = "list_ex (\<lambda>r. pc_session_id r \<noteq> s \<or> pc_base_sha256 r \<noteq> b) records"
  have acc: "\<not> ?bad" if "accepts cd s b records rs" for rs
    using accepts_identity [OF that] by (auto simp: list_ex_iff)
  show ?thesis
  proof (cases ?bad)
    case True
    then show ?thesis using acc by (auto simp: replay_bound_def)
  next
    case False
    with Cons have "pc_session_id r = s" "pc_base_sha256 r = b" by auto
    with False Cons show ?thesis
      by (cases "fold_res (replay_step cd) (replay_start s b) records")
        (auto simp: replay_bound_def replay_validated_identity_def accepts_def)
  qed
qed

lemma replay_bound_wf: "replay_bound cd records s b = Inr st \<Longrightarrow> history_wf st"
  by (auto simp: replay_bound_accepts replay_inv_def dest!: accepts_inv)

lemma replay_bound_requests:
  "replay_bound cd records s b = Inr st \<Longrightarrow> distinct (map pc_request_id records)"
  by (auto simp: replay_bound_accepts dest!: accepts_identity)

lemma replay_bound_session:
  "replay_bound cd records s b = Inr st \<Longrightarrow> r \<in> set records \<Longrightarrow>
     pc_session_id r = s \<and> pc_base_sha256 r = b"
  by (auto simp: replay_bound_accepts dest!: accepts_identity)

lemma replay_bound_parent:
  assumes "replay_bound cd (xs @ [r]) s b = Inr st"
  shows "pc_parent_commit_id r = map_option pc_commit_id (last_opt xs)"
proof -
  from assms obtain rs1 rs2 where "accepts cd s b xs rs1" "replay_step cd rs1 r = Inr rs2"
    by (auto simp: replay_bound_accepts accepts_snoc)
  with accepts_identity [OF this(1)] show ?thesis
    by (auto elim!: replay_step_cases simp: check_identity_def)
qed

section \<open>The walks over the document history\<close>

text \<open>The history of an accepted stream is a forest in the sense of the interface.\<close>

interpretation history: ancestry "\<lambda>st. bt_get (hs_history_parents st)" history_wf
  by unfold_locales (unfold history_wf_def, elim conjE, rule links.ranked)

lemma active_walk_path:
  "path_to (bt_get ps) cursor xs \<Longrightarrow> distinct xs \<Longrightarrow> set xs \<inter> seen = {}
    \<Longrightarrow> active_walk ps seen cursor acc = Inr (rev xs @ acc)"
proof (induction xs arbitrary: cursor seen acc)
  case Nil
  then show ?case by (cases cursor) (simp_all add: active_walk.simps)
next
  case (Cons x xs)
  from Cons.prems(1) obtain q where x: "cursor = Some x" "bt_get ps x = Some q"
    and rest: "path_to (bt_get ps) q xs"
    by (cases cursor) (auto split: option.splits)
  from Cons.IH [OF rest, of "insert x seen" "x # acc"] Cons.prems x show ?case
    by (subst active_walk.simps) auto
qed

lemma redo_walk_path:
  "path_to (bt_get ps) (Some c) xs \<Longrightarrow> distinct xs \<Longrightarrow> set xs \<inter> seen = {}
    \<Longrightarrow> redo_walk ps head seen c c = Inr (List.find (\<lambda>x. bt_get ps x = Some head) xs)"
proof (induction xs arbitrary: c seen)
  case (Cons x xs)
  from Cons.prems(1) obtain q where x: "c = x" "bt_get ps x = Some q"
    and rest: "path_to (bt_get ps) q xs"
    by (auto split: option.splits)
  show ?case
  proof (cases q)
    case None
    with rest x Cons.prems show ?thesis by (subst redo_walk.simps) simp
  next
    case (Some p)
    with rest have "path_to (bt_get ps) (Some p) xs" by simp
    from Cons.IH [OF this, of "insert x seen"] Cons.prems x Some show ?thesis
      by (subst redo_walk.simps) auto
  qed
qed simp

lemma active_ancestry_path:
  assumes "history_wf st"
  obtains xs where "active_ancestry st = Inr (rev xs)" and "distinct xs"
    and "path_to (bt_get (hs_history_parents st)) (hs_head st) xs"
proof -
  from assms have "hs_head st = None
      \<or> (\<exists>x. hs_head st = Some x \<and> bt_get (hs_history_parents st) x \<noteq> None)"
    by (auto simp: history_wf_def known_def)
  from history.path_exists [OF assms this] obtain xs where
    xs: "path_to (bt_get (hs_history_parents st)) (hs_head st) xs" "distinct xs" by blast
  with active_walk_path [OF xs, of "{}" "[]"] that show ?thesis
    by (simp add: active_ancestry_def)
qed

lemma branch_tip_path:
  assumes "history_wf st" and "bt_get (hs_branches st) b = Some t"
  obtains xs where "path_to (bt_get (hs_history_parents st)) t xs" and "distinct xs"
proof -
  from assms have "t = None \<or> (\<exists>x. t = Some x \<and> bt_get (hs_history_parents st) x \<noteq> None)"
    by (auto simp: history_wf_def known_def)
  from history.path_exists [OF assms(1) this] that show ?thesis by blast
qed

lemma redo_target_path:
  assumes "history_wf st" and "bt_get (hs_branches st) (hs_current_branch st) = Some t"
    and "path_to (bt_get (hs_history_parents st)) t xs" and "distinct xs"
  shows "redo_target st =
    Inr (List.find (\<lambda>x. bt_get (hs_history_parents st) x = Some (hs_head st)) xs)"
proof (cases t)
  case None
  with assms show ?thesis by (simp add: redo_target_def)
next
  case (Some c)
  with assms show ?thesis by (simp add: redo_target_def redo_walk_path)
qed

section \<open>A concrete stream\<close>

text \<open>Two mutations and an undo, with a reader that takes the two revisions from the effect.\<close>

definition run_prepared :: "json \<Rightarrow> unit prepared_transaction res" where
  "run_prepared j =
     (case (json_pointer j [''response'', ''revision_before''],
            json_pointer j [''response'', ''revision_after'']) of
        (Some (JStr before), Some (JStr after)) \<Rightarrow>
          Inr \<lparr> pt_base_sha256 = ''b'',
            pt_response = Applied Apply True before after 1
              \<lparr> wd_change_count = 1, wd_exact = True, wd_precision = [], wd_changes = [],
                wd_effects = [] \<rparr>
              \<lparr> wi_op_kinds = [''set_cells''], wi_risk = Moderate \<rparr> [],
            pt_publication = PubCells [\<lparr> ce_sheet_name = ''S'', ce_column = 1, ce_row = 1,
              ce_source_op_indices = [0], ce_expected_before = None,
              ce_after = \<lparr> mc_value = MvEmpty, mc_formula = None \<rparr> \<rparr>],
            pt_staged = None, pt_consume_staged = None \<rparr>
      | _ \<Rightarrow> Inl (Bail ''missing field''))"

definition run_codec :: "unit codec" where
  "run_codec = plain_codec \<lparr> read_prepared := run_prepared \<rparr>"

definition run_record ::
    "string \<Rightarrow> string option \<Rightarrow> string \<Rightarrow> resident_transition \<Rightarrow> json list \<Rightarrow> string option
      \<Rightarrow> string option \<Rightarrow> string option \<Rightarrow> string \<Rightarrow> prepared_commit" where
  "run_record commit parent request transition effects hparent head tip revision =
     \<lparr> pc_schema_version = ''resident.commit.v1'', pc_session_id = ''s1'',
       pc_commit_id = commit, pc_parent_commit_id = parent,
       pc_history_parent_commit_id = hparent, pc_base_sha256 = ''b'',
       pc_request_id = request, pc_request_fingerprint = ''fp'', pc_transition = transition,
       pc_effects = effects, pc_resulting_head = head, pc_resulting_branch = ''main'',
       pc_resulting_branches = [(''main'', tip)], pc_catalog_generation = 0,
       pc_state_revision = revision \<rparr>"

definition run_mutation_effect :: "string \<Rightarrow> string \<Rightarrow> json" where
  "run_mutation_effect before after =
     JObj [(''prepared_transaction'', JObj
       [(''publication'', JObj [(''kind'', JStr ''cells'')]),
        (''response'', JObj [(''revision_before'', JStr before), (''revision_after'', JStr after)])])]"

definition run_stream :: "prepared_commit list" where
  "run_stream =
     [run_record ''c1'' None ''q1'' Mutation [run_mutation_effect ''resident:e:0:0'' ''resident:e:1:1'']
        None (Some ''c1'') (Some ''c1'') ''resident:e:1:1'',
      run_record ''c2'' (Some ''c1'') ''q2'' Mutation
        [run_mutation_effect ''resident:e:1:1'' ''resident:e:2:2'']
        (Some ''c1'') (Some ''c2'') (Some ''c2'') ''resident:e:2:2'',
      run_record ''c3'' (Some ''c2'') ''q3'' Undo [JObj [(''target_head'', JStr ''c1'')]]
        None (Some ''c1'') (Some ''c2'') ''resident:e:3:3'']"

definition run_result :: replay_state where
  "run_result = \<lparr> rs_history = (history_empty ''s1'' ''b'') \<lparr> hs_stream_tip := Some ''c3'',
       hs_head := Some ''c1'', hs_branches := [(''main'', Some ''c2'')],
       hs_state_revision := Some ''resident:e:3:3'',
       hs_history_parents := [(''c1'', None), (''c2'', Some ''c1'')] \<rparr>,
     rs_commit_ids = {''c3'', ''c2'', ''c1''}, rs_request_ids = {''q3'', ''q2'', ''q1''},
     rs_visible_states =
       {(''resident:e:3:3'', 0), (''resident:e:2:2'', 0), (''resident:e:1:1'', 0)} \<rparr>"

lemma u64_wrapping_add_small:
  "u64_wrapping_add 0 0 = 0" "u64_wrapping_add 0 1 = 1" "u64_wrapping_add 1 1 = 2"
  "u64_wrapping_add 2 1 = 3" "u64_wrapping_add 0 (Suc 0) = 1"
  "u64_wrapping_add (Suc 0) (Suc 0) = 2" "u64_wrapping_add 2 (Suc 0) = 3"
  by (simp_all add: u64_wrapping_add_def)

lemmas run_unfold = check_identity_def resident_commit_schema_def
  validate_portable_prepared_record_def prepared_transaction_from_record_def run_prepared_def
  run_mutation_effect_def run_record_def publication_valid_def check_control_def
  check_file_export_def has_effect_def step_transition_def step_mutation_def mutation_publish_def
  publishes_document_def effect_get_def effect_pointer_def step_undo_def parent_of_def
  check_result_def check_revision_def parse_revision_def previous_revision_def
  is_document_change_def is_catalog_only_def calculation_flag_def outcome_validate_def
  List.map_filter_simps json_index_token_def

lemma run_accepts: "accepts run_codec ''s1'' ''b'' run_stream run_result"
  by (simp add: accepts_def run_stream_def replay_start_def history_empty_def replay_step_def
      run_unfold run_codec_def run_result_def bt_eval str_eval u64_wrapping_add_small Let_def
      bt_contains_def del: bt_contains_iff)

lemma run_replay: "replay_bound run_codec run_stream ''s1'' ''b'' = Inr (rs_history run_result)"
  using run_accepts replay_bound_accepts by blast

section \<open>Properties of accepted streams\<close>

text \<open>C3: replaying a stream the journal accepts ends in a well-formed history: the document
  links form a forest grown one commit at a time, the head, every branch tip and every
  checkpoint name a known commit, the current branch exists and the export plans stay within
  their quota. On such a history the ancestry walk and the search for a redo target always
  succeed: their cycle and unknown-parent errors cannot occur, and the active ancestry is the
  path from the base to the head, without repetition.\<close>

theorem replay_history_wf:
  assumes "replay_bound cd records s b = Inr st"
  shows "history_wf st
    \<and> (\<exists>path. active_ancestry st = Inr path \<and> distinct path
         \<and> path_to (bt_get (hs_history_parents st)) (hs_head st) (rev path))
    \<and> (\<exists>target. redo_target st = Inr target)"
proof -
  have wf: "history_wf st" using replay_bound_wf [OF assms] .
  obtain xs where xs: "active_ancestry st = Inr (rev xs)" "distinct xs"
    "path_to (bt_get (hs_history_parents st)) (hs_head st) xs"
    using active_ancestry_path [OF wf] by blast
  from wf obtain t where t: "bt_get (hs_branches st) (hs_current_branch st) = Some t"
    by (auto simp: history_wf_def)
  obtain ys where "path_to (bt_get (hs_history_parents st)) t ys" "distinct ys"
    using branch_tip_path [OF wf t] by blast
  from redo_target_path [OF wf t this] wf xs show ?thesis by auto
qed

lemma replay_history_wf_witness:
  "\<exists>path. active_ancestry (rs_history run_result) = Inr path \<and> distinct path"
  using replay_history_wf [OF run_replay] by blast

text \<open>C2: undo is undone by redo. In a replayed history whose head lies on the line of the
  current branch tip, moving the head to its parent makes the abandoned commit the redo
  target, so the redo record that names it is accepted and restores the state before the
  undo.\<close>

theorem undo_redo_roundtrip:
  assumes "replay_bound cd records s b = Inr st"
    and "hs_head st = Some h"
    and "bt_get (hs_branches st) (hs_current_branch st) = Some (Some tip)"
    and "path_to (bt_get (hs_history_parents st)) (Some tip) line" and "h \<in> set line"
    and "pc_resulting_head r = parent_of st (Some h)"
    and "pc_transition r' = Redo" and "pc_resulting_head r' = Some h"
  shows "\<exists>st'. step_undo st r = Inr st' \<and> redo_target st' = Inr (Some h)
    \<and> step_redo_checkout st' r' = Inr st"
proof -
  have wf: "history_wf st" using replay_bound_wf [OF assms(1)] .
  from wf assms(2) obtain q where q: "bt_get (hs_history_parents st) h = Some q"
    by (auto simp: history_wf_def)
  then have parent: "parent_of st (Some h) = q" by (simp add: parent_of_def)
  define st' where "st' = st \<lparr> hs_head := q \<rparr>"
  have undo: "step_undo st r = Inr st'"
    using assms(2,6) parent by (simp add: step_undo_def st'_def Let_def)
  have wf': "history_wf st'"
    using wf known_parent [of "hs_history_parents st" h q] q
    by (auto simp: st'_def history_wf_def)
  have "redo_target st' = Inr (List.find (\<lambda>x. bt_get (hs_history_parents st) x = Some q) line)"
    using redo_target_path [OF wf', of "Some tip" line] assms(3,4)
      history.path_distinct [OF wf assms(4)]
    by (simp add: st'_def)
  also have "\<dots> = Inr (Some h)"
    using history.redo_child [OF wf assms(4,5) q] by simp
  finally have redo: "redo_target st' = Inr (Some h)" .
  moreover have "step_redo_checkout st' r' = Inr st"
    using redo q assms(2,7,8)
    by (simp add: step_redo_checkout_def Let_def parent_of_def domIff st'_def)
  ultimately show ?thesis using undo by blast
qed

lemma undo_redo_roundtrip_witness:
  "\<exists>st'. step_undo (rs_history run_result)
       (run_record ''c4'' (Some ''c3'') ''q4'' Undo [] None None (Some ''c2'') []) = Inr st'
     \<and> redo_target st' = Inr (Some ''c1'')
     \<and> step_redo_checkout st'
       (run_record ''c5'' (Some ''c4'') ''q5'' Redo [] None (Some ''c1'') (Some ''c2'') [])
       = Inr (rs_history run_result)"
proof (rule undo_redo_roundtrip [OF run_replay])
  show "path_to (bt_get (hs_history_parents (rs_history run_result))) (Some ''c2'') [''c2'', ''c1'']"
    by (simp add: run_result_def bt_eval)
qed (simp_all add: run_result_def run_record_def parent_of_def bt_eval history_empty_def)

text \<open>An accepted stream belongs to one session and base, its commit and request
  identities never repeat, and every record names the record before it: the last record is the
  stream tip and its revision the revision of the state. A stream containing two records of
  one request, or a record spliced in from another session, is never accepted.\<close>

theorem replay_stream_identity:
  assumes "replay_bound cd records s b = Inr st"
  shows "(\<forall>r \<in> set records. pc_session_id r = s \<and> pc_base_sha256 r = b)
    \<and> distinct (map pc_commit_id records) \<and> distinct (map pc_request_id records)
    \<and> hs_stream_tip st = map_option pc_commit_id (last_opt records)
    \<and> hs_state_revision st = map_option pc_state_revision (last_opt records)
    \<and> (\<forall>xs r ys. records = xs @ r # ys \<longrightarrow>
         pc_parent_commit_id r = map_option pc_commit_id (last_opt xs))"
proof -
  from assms obtain rs where acc: "accepts cd s b records rs" and st: "st = rs_history rs"
    by (auto simp: replay_bound_accepts)
  have "pc_parent_commit_id r = map_option pc_commit_id (last_opt xs)"
    if "records = xs @ r # ys" for xs r ys
  proof -
    from acc that have "accepts cd s b ((xs @ [r]) @ ys) rs" by simp
    from accepts_append [OF this] obtain rs1 rs2
      where "accepts cd s b xs rs1" "replay_step cd rs1 r = Inr rs2"
      by (auto simp: accepts_snoc)
    with accepts_identity [OF this(1)] show ?thesis
      by (auto elim!: replay_step_cases simp: check_identity_def)
  qed
  with accepts_identity [OF acc] st show ?thesis by blast
qed

lemma replay_stream_identity_witness:
  "distinct (map pc_commit_id run_stream) \<and> distinct (map pc_request_id run_stream)"
  using replay_stream_identity [OF run_replay] by blast

text \<open>The replay at a cut of an accepted stream.\<close>

lemma replay_bound_cut:
  assumes "replay_bound cd (xs @ r # ys) s b = Inr st"
  obtains rs1 rs2 where "accepts cd s b xs rs1" and "replay_step cd rs1 r = Inr rs2"
    and "accepts cd s b (xs @ [r]) rs2"
proof -
  from assms obtain rs where "accepts cd s b ((xs @ [r]) @ ys) rs"
    by (auto simp: replay_bound_accepts)
  from accepts_append [OF this] that show ?thesis by (auto simp: accepts_snoc)
qed

text \<open>Every prefix of an accepted stream is accepted, and the state it replays to is not
  discarded: a discard tombstone can only be the last record, nothing is ever accepted
  after it.\<close>

theorem replay_prefix_alive:
  assumes "replay_bound cd (xs @ r # ys) s b = Inr st"
  shows "\<exists>st1. replay_bound cd xs s b = Inr st1 \<and> \<not> hs_discarded st1"
proof -
  from assms obtain rs1 rs2 where "accepts cd s b xs rs1" "replay_step cd rs1 r = Inr rs2"
    by (rule replay_bound_cut)
  then show ?thesis
    by (auto simp: replay_bound_accepts check_identity_def elim!: replay_step_cases)
qed

lemma replay_prefix_alive_witness:
  "\<exists>st1. replay_bound run_codec (take 2 run_stream) ''s1'' ''b'' = Inr st1 \<and> \<not> hs_discarded st1"
proof -
  have "run_stream = take 2 run_stream @ run_stream ! 2 # []" by (simp add: run_stream_def)
  with run_replay have
    "replay_bound run_codec (take 2 run_stream @ run_stream ! 2 # []) ''s1'' ''b''
      = Inr (rs_history run_result)" by metis
  then show ?thesis by (rule replay_prefix_alive)
qed

text \<open>C30: observable states are never reused (no ABA): in an accepted stream the pairs of
  revision and catalog generation of the records that are not receipts are pairwise distinct,
  so a client that compares this pair cannot mistake a later state for the one it read.\<close>

theorem replay_no_aba:
  assumes "replay_bound cd records s b = Inr st"
  shows "distinct (map (\<lambda>r. (pc_state_revision r, pc_catalog_generation r))
    (filter (\<lambda>r. pc_transition r \<noteq> Receipt) records))"
proof -
  from assms obtain rs where "accepts cd s b records rs"
    by (auto simp: replay_bound_accepts)
  then have "rs_visible_states rs = set (map (\<lambda>r. (pc_state_revision r, pc_catalog_generation r))
      (filter (\<lambda>r. pc_transition r \<noteq> Receipt) records))
    \<and> distinct (map (\<lambda>r. (pc_state_revision r, pc_catalog_generation r))
      (filter (\<lambda>r. pc_transition r \<noteq> Receipt) records))"
  proof (induction rule: accepts_induct)
    case Nil
    then show ?case by (simp add: replay_start_def)
  next
    case (snoc xs r rs rs')
    from snoc.hyps(2) have vis: "pc_transition r = Receipt
         \<or> (pc_state_revision r, pc_catalog_generation r) \<notin> rs_visible_states rs"
      and new: "rs_visible_states rs' = (if pc_transition r \<noteq> Receipt
         then insert (pc_state_revision r, pc_catalog_generation r) (rs_visible_states rs)
         else rs_visible_states rs)"
      by (auto elim!: replay_step_cases)
    show ?case
      using snoc.IH vis by (cases "pc_transition r = Receipt") (auto simp: new)
  qed
  then show ?thesis by blast
qed

lemma replay_no_aba_witness:
  "distinct (map (\<lambda>r. (pc_state_revision r, pc_catalog_generation r))
    (filter (\<lambda>r. pc_transition r \<noteq> Receipt) run_stream))"
  using replay_no_aba [OF run_replay] .

text \<open>Revisions move exactly as the transition says. Between two neighbouring records the
  epoch is the same, the document counter advances by one precisely when the document changed
  (a published mutation, an undo, redo or checkout, a switch to another head), and the state
  counter by one precisely when the transition is more than a catalog entry or a receipt.\<close>

theorem replay_revision_progress:
  assumes "replay_bound cd (xs @ p # r # ys) s b = Inr st"
  shows "\<exists>epoch d n. parse_revision (pc_state_revision p) = Inr (epoch, d, n)
    \<and> parse_revision (pc_state_revision r) = Inr (epoch,
        u64_wrapping_add d (of_bool (is_document_change (pc_resulting_head p) r)),
        u64_wrapping_add n (of_bool (\<not> is_catalog_only r)))"
proof -
  from assms have "replay_bound cd ((xs @ [p]) @ r # ys) s b = Inr st" by simp
  then obtain rs1 rs2 where acc: "accepts cd s b (xs @ [p]) rs1"
    and step: "replay_step cd rs1 r = Inr rs2"
    by (rule replay_bound_cut)
  from step obtain st1 where rev: "check_revision (hs_head (rs_history rs1)) st1 r = Inr ()"
    and st1: "step_transition cd (insert (pc_request_id r) (rs_request_ids rs1))
      (rs_history rs1) r = Inr st1"
    by (rule replay_step_cases)
  from acc obtain rs0 where "replay_step cd rs0 p = Inr rs1" by (auto simp: accepts_snoc)
  then have head: "hs_head (rs_history rs1) = pc_resulting_head p"
    by (auto elim!: replay_step_cases simp: check_result_def)
  have "hs_state_revision st1 = Some (pc_state_revision p)"
    using step_transition_framed [OF st1] accepts_identity [OF acc] by (simp add: framed_def)
  with rev show ?thesis
    by (auto simp: check_revision_def previous_revision_def bind_res_Inr head)
qed

lemma replay_revision_progress_witness:
  "\<exists>epoch d n. parse_revision ''resident:e:2:2'' = Inr (epoch, d, n)
     \<and> parse_revision ''resident:e:3:3'' = Inr (epoch, u64_wrapping_add d 1, u64_wrapping_add n 1)"
proof -
  have "run_stream = take 1 run_stream @ run_stream ! 1 # run_stream ! 2 # []"
    by (simp add: run_stream_def)
  with run_replay have "replay_bound run_codec
      (take 1 run_stream @ run_stream ! 1 # run_stream ! 2 # []) ''s1'' ''b''
      = Inr (rs_history run_result)" by metis
  from replay_revision_progress [OF this] show ?thesis
    by (simp add: run_stream_def run_record_def is_document_change_def is_catalog_only_def)
qed

text \<open>Records that revoke the calculation proof.\<close>

definition revokes_calculation :: "prepared_commit \<Rightarrow> bool" where
  "revokes_calculation r =
     (pc_transition r \<in> {CalculationInvalidate, Restart, Undo, Redo, Checkout}
      \<or> (pc_transition r \<in> {Mutation, StageApply} \<and> publishes_document r
         \<and> Option.bind (effect_pointer r
             [''prepared_transaction'', ''publication'', ''calculation_effect'']) json_str
           \<noteq> Some ''Preserve''))"

definition complete_proof :: "'op codec \<Rightarrow> prepared_commit \<Rightarrow> bool" where
  "complete_proof cd r =
     (pc_transition r = CalculationPublish
      \<and> (\<exists>snapshot v c. effect_get r ''calculation_proof'' = Some snapshot
          \<and> json_get snapshot ''coverage'' = Some v \<and> read_coverage cd v = Inr c
          \<and> ec_revision_id c = pc_state_revision r
          \<and> ec_evaluated_formula_cells c = ec_formula_cells c
          \<and> ec_unsupported_formula_cells c = 0))"

lemma calculation_flag_True:
  assumes "calculation_flag h r c"
  shows "pc_transition r = CalculationPublish \<or> (c \<and> \<not> revokes_calculation r)"
  using assms
  by (cases "pc_transition r")
    (simp_all add: calculation_flag_def revokes_calculation_def split: if_split_asm)

text \<open>A history is marked as calculated only on the strength of a complete proof that
  still stands: the stream contains a published calculation whose coverage is complete for
  that very revision, and no later record revokes it, be it an explicit invalidation, a
  restart, a history move or a published change without the preserve effect.\<close>

theorem calculation_current_sound:
  assumes "replay_bound cd records s b = Inr st" and "hs_calculation_current st"
  shows "\<exists>xs r ys. records = xs @ r # ys \<and> complete_proof cd r
    \<and> (\<forall>y \<in> set ys. \<not> revokes_calculation y)"
proof -
  from assms(1) obtain rs where acc: "accepts cd s b records rs" and st: "st = rs_history rs"
    by (auto simp: replay_bound_accepts)
  from acc have "hs_calculation_current (rs_history rs) \<longrightarrow> (\<exists>xs r ys. records = xs @ r # ys
      \<and> complete_proof cd r \<and> (\<forall>y \<in> set ys. \<not> revokes_calculation y))"
  proof (induction rule: accepts_induct)
    case Nil
    then show ?case by (simp add: replay_start_def history_empty_def)
  next
    case (snoc xs r rs rs')
    from snoc.hyps(2) obtain st1 where
      st1: "step_transition cd (insert (pc_request_id r) (rs_request_ids rs)) (rs_history rs) r
        = Inr st1"
      and cur: "hs_calculation_current (rs_history rs') =
        calculation_flag (hs_head (rs_history rs)) r (hs_calculation_current st1)"
      by (auto elim!: replay_step_cases)
    show ?case
    proof
      assume "hs_calculation_current (rs_history rs')"
      with cur have "pc_transition r = CalculationPublish
          \<or> (hs_calculation_current (rs_history rs) \<and> \<not> revokes_calculation r)"
        using calculation_flag_True step_transition_framed [OF st1] by (simp add: framed_def)
      then show "\<exists>us q vs. xs @ [r] = us @ q # vs \<and> complete_proof cd q
          \<and> (\<forall>y \<in> set vs. \<not> revokes_calculation y)"
      proof
        assume t: "pc_transition r = CalculationPublish"
        with st1 have "complete_proof cd r"
          by (auto simp: complete_proof_def step_transition_def step_calculation_publish_def
              bind_res_Inr)
        then show ?thesis by (intro exI [of _ xs] exI [of _ r] exI [of _ "[]"]) simp
      next
        assume keep: "hs_calculation_current (rs_history rs) \<and> \<not> revokes_calculation r"
        with snoc.IH obtain us q vs where "xs = us @ q # vs" "complete_proof cd q"
          "\<forall>y \<in> set vs. \<not> revokes_calculation y" by blast
        with keep show ?thesis
          by (intro exI [of _ us] exI [of _ q] exI [of _ "vs @ [r]"]) auto
      qed
    qed
  qed
  with assms(2) st show ?thesis by simp
qed

definition calc_codec :: "unit codec" where
  "calc_codec = plain_codec \<lparr> read_coverage := (\<lambda>_. Inr \<lparr> ec_formula_cells = 3,
     ec_evaluated_formula_cells = 3, ec_unsupported_formula_cells = 0,
     ec_error_formula_cells = 0, ec_source = Formualizer, ec_freshness = CurrentRevision,
     ec_revision_id = ''resident:e:0:1'' \<rparr>) \<rparr>"

definition calc_record :: prepared_commit where
  "calc_record = run_record ''c1'' None ''q1'' CalculationPublish
     [JObj [(''calculation_proof'', JObj [(''coverage'', JNull)])]] None None None ''resident:e:0:1''"

lemma calculation_current_sound_witness:
  "\<exists>xs r ys. [calc_record] = xs @ r # ys \<and> complete_proof calc_codec r
    \<and> (\<forall>y \<in> set ys. \<not> revokes_calculation y)"
proof -
  have "\<exists>st. replay_bound calc_codec [calc_record] ''s1'' ''b'' = Inr st \<and> hs_calculation_current st"
    by (simp add: replay_bound_def replay_validated_identity_def calc_record_def replay_start_def
        history_empty_def replay_step_def run_unfold calc_codec_def plain_codec_def
        step_calculation_publish_def bt_eval str_eval Let_def bt_contains_def
        del: bt_contains_iff)
  then obtain st where "replay_bound calc_codec [calc_record] ''s1'' ''b'' = Inr st"
    and "hs_calculation_current st" by blast
  then show ?thesis by (rule calculation_current_sound)
qed

end
