(* ===== verification/ResidentJournal.thy ===== *)
theory ResidentJournal
  imports ResidentHistory "HOL-Library.Countable"
begin

text \<open>
  The durable commit streams. The interface \<open>commit_storage\<close> is the contract of the trait
  \<open>ResidentCommitStorage\<close> (\<open>core/resident_storage.rs\<close>): what a client may conclude from the
  answers of \<open>load\<close>, \<open>commit\<close> and \<open>reconcile\<close> about the log behind them. It is interpreted on
  the native file journal (the module \<open>native\<close> of the same file) and on the volatile journal
  of the browser build (\<open>agent-spreadsheet-wasm/src/storage.rs\<close>).

  A journal file is its bytes and its kind and mode; the exclusive lock makes every operation
  one step. The injected faults of the code are the failures modelled. Reading and printing an
  envelope line is \<open>serde_json\<close> and a parameter; \<open>line_codec_ok\<close> states its documented round
  trip and that a compact JSON line holds no line break.
\<close>

datatype reconcile_outcome = Committed durable_commit_outcome | NotFound

section \<open>The contract\<close>

text \<open>What any client may do: commit, with whatever answer, and reconcile.\<close>

inductive storage_reaches ::
    "('s \<Rightarrow> prepared_commit \<Rightarrow> 's \<times> durable_commit_outcome res)
      \<Rightarrow> ('s \<Rightarrow> string \<Rightarrow> string \<Rightarrow> string \<Rightarrow> 's \<times> reconcile_outcome res) \<Rightarrow> 's \<Rightarrow> 's \<Rightarrow> bool"
  for commit reconcile where
  reaches_refl: "storage_reaches commit reconcile s s"
| reaches_commit: "storage_reaches commit reconcile s t \<Longrightarrow> commit t r = (t', x)
    \<Longrightarrow> storage_reaches commit reconcile s t'"
| reaches_reconcile: "storage_reaches commit reconcile s t \<Longrightarrow> reconcile t sid q fp = (t', y)
    \<Longrightarrow> storage_reaches commit reconcile s t'"

locale commit_storage =
  fixes log :: "'s \<Rightarrow> string \<Rightarrow> prepared_commit list"
    and load :: "'s \<Rightarrow> string \<Rightarrow> prepared_commit list res"
    and commit :: "'s \<Rightarrow> prepared_commit \<Rightarrow> 's \<times> durable_commit_outcome res"
    and reconcile :: "'s \<Rightarrow> string \<Rightarrow> string \<Rightarrow> string \<Rightarrow> 's \<times> reconcile_outcome res"
    and inv :: "'s \<Rightarrow> bool"
  assumes load_log: "inv s \<Longrightarrow> load s sid = Inr records \<Longrightarrow> records = log s sid"
    and requests_distinct: "inv s \<Longrightarrow> distinct (map pc_request_id (log s sid))"
    and commit_inv: "inv s \<Longrightarrow> commit s r = (s', x) \<Longrightarrow> inv s'"
    and commit_log: "inv s \<Longrightarrow> commit s r = (s', x) \<Longrightarrow>
      log s' = log s
      \<or> log s' = (log s)(pc_session_id r := log s (pc_session_id r) @ [r])
        \<and> pc_parent_commit_id r = map_option pc_commit_id (last_opt (log s (pc_session_id r)))"
    and commit_ok: "inv s \<Longrightarrow> commit s r = (s', Inr outcome) \<Longrightarrow>
      \<exists>i e. i < length (log s' (pc_session_id r)) \<and> e = log s' (pc_session_id r) ! i
        \<and> pc_request_id e = pc_request_id r
        \<and> pc_request_fingerprint e = pc_request_fingerprint r
        \<and> outcome = \<lparr> dc_commit_id = pc_commit_id e, dc_sequence = i + 1 \<rparr>"
    and reconcile_inv: "inv s \<Longrightarrow> reconcile s sid q fp = (s', y) \<Longrightarrow> inv s' \<and> log s' = log s"
    and reconcile_committed: "inv s \<Longrightarrow> reconcile s sid q fp = (s', Inr (Committed outcome)) \<Longrightarrow>
      \<exists>i e. i < length (log s sid) \<and> e = log s sid ! i \<and> pc_request_id e = q
        \<and> pc_request_fingerprint e = fp
        \<and> outcome = \<lparr> dc_commit_id = pc_commit_id e, dc_sequence = i + 1 \<rparr>"
    and reconcile_not_found: "inv s \<Longrightarrow> reconcile s sid q fp = (s', Inr NotFound) \<Longrightarrow>
      q \<notin> set (map pc_request_id (log s sid))"
begin

lemma reaches_inv_log:
  "storage_reaches commit reconcile s t \<Longrightarrow> inv s \<Longrightarrow> inv t \<and> (\<exists>more. log t sid = log s sid @ more)"
proof (induction rule: storage_reaches.induct)
  case (reaches_refl s)
  then show ?case by simp
next
  case (reaches_commit s t r t' x)
  then obtain more where t: "inv t" "log t sid = log s sid @ more" by auto
  from commit_log [OF t(1) reaches_commit.hyps(2)] commit_inv [OF t(1) reaches_commit.hyps(2)] t(2)
  show ?case by (cases "sid = pc_session_id r") auto
next
  case (reaches_reconcile s t sid' q fp t' y)
  then show ?case using reconcile_inv by fastforce
qed

text \<open>The position of a request in the log is unique and never moves.\<close>

lemma request_position:
  assumes "inv s" and "i < length (log s sid)" and "j < length (log s sid)"
    and "pc_request_id (log s sid ! i) = pc_request_id (log s sid ! j)"
  shows "i = j"
  using requests_distinct [OF assms(1), of sid] assms(2-4)
  by (simp add: distinct_conv_nth) metis

lemma position_stable:
  assumes "inv s" "storage_reaches commit reconcile s t" and "i < length (log s sid)" and "j < length (log t sid)"
    and "pc_request_id (log s sid ! i) = pc_request_id (log t sid ! j)"
  shows "i = j \<and> log t sid ! j = log s sid ! i"
proof -
  from reaches_inv_log [OF assms(2,1), of sid] obtain more
    where t: "inv t" "log t sid = log s sid @ more" by auto
  with assms(3) have same: "log t sid ! i = log s sid ! i" "i < length (log t sid)"
    by (auto simp: nth_append)
  with assms(4,5) request_position [OF t(1), of i sid j] show ?thesis by auto
qed

text \<open>Retrying a committed request gives the same outcome, however much happened in between.\<close>

lemma retry_same_outcome:
  assumes "inv s" and "commit s r = (s1, Inr first)" and "storage_reaches commit reconcile s1 s2"
    and "commit s2 r' = (s3, Inr second)"
    and "pc_session_id r' = pc_session_id r" and "pc_request_id r' = pc_request_id r"
  shows "second = first"
proof -
  let ?sid = "pc_session_id r"
  have inv1: "inv s1" using commit_inv [OF assms(1,2)] .
  have inv2: "inv s2" using reaches_inv_log [OF assms(3) inv1] by blast
  have reach: "storage_reaches commit reconcile s1 s3" using assms(3,4) by (rule reaches_commit)
  from commit_ok [OF assms(1,2)] obtain i where i: "i < length (log s1 ?sid)"
    "pc_request_id (log s1 ?sid ! i) = pc_request_id r"
    "first = \<lparr> dc_commit_id = pc_commit_id (log s1 ?sid ! i), dc_sequence = i + 1 \<rparr>" by blast
  from commit_ok [OF inv2 assms(4)] assms(5,6) obtain j where j: "j < length (log s3 ?sid)"
    "pc_request_id (log s3 ?sid ! j) = pc_request_id r"
    "second = \<lparr> dc_commit_id = pc_commit_id (log s3 ?sid ! j), dc_sequence = j + 1 \<rparr>" by auto
  from position_stable [OF inv1 reach i(1) j(1)] i(2,3) j(2,3) show ?thesis by simp
qed

lemma reconcile_after_commit:
  assumes "inv s" and "commit s r = (s1, Inr first)" and "storage_reaches commit reconcile s1 s2"
    and "reconcile s2 (pc_session_id r) (pc_request_id r) fp = (s3, Inr answer)"
  shows "answer = Committed first"
proof -
  let ?sid = "pc_session_id r"
  have inv1: "inv s1" using commit_inv [OF assms(1,2)] .
  from reaches_inv_log [OF assms(3) inv1, of ?sid] obtain more
    where s2: "inv s2" "log s2 ?sid = log s1 ?sid @ more" by auto
  from commit_ok [OF assms(1,2)] obtain i where i: "i < length (log s1 ?sid)"
    "pc_request_id (log s1 ?sid ! i) = pc_request_id r"
    "first = \<lparr> dc_commit_id = pc_commit_id (log s1 ?sid ! i), dc_sequence = i + 1 \<rparr>" by blast
  have mem: "pc_request_id r \<in> set (map pc_request_id (log s2 ?sid))"
    using i(1,2) s2(2) by (metis length_map nth_map nth_mem Un_iff map_append set_append)
  show ?thesis
  proof (cases answer)
    case NotFound
    with reconcile_not_found [OF s2(1)] assms(4) mem show ?thesis by blast
  next
    case (Committed outcome)
    with reconcile_committed [OF s2(1)] assms(4) obtain j where j: "j < length (log s2 ?sid)"
      "pc_request_id (log s2 ?sid ! j) = pc_request_id r"
      "outcome = \<lparr> dc_commit_id = pc_commit_id (log s2 ?sid ! j), dc_sequence = j + 1 \<rparr>" by blast
    from position_stable [OF inv1 assms(3) i(1) j(1)] i(2,3) j(2,3) Committed show ?thesis by simp
  qed
qed

text \<open>Compare-and-swap on the tip: of two commits with one parent only one is appended.\<close>

lemma competing_commit:
  assumes "inv s" and "commit s r = (s1, x)"
    and "log s1 (pc_session_id r) = log s (pc_session_id r) @ [r]"
    and "commit s1 r' = (s2, y)" and "pc_session_id r' = pc_session_id r"
    and "pc_parent_commit_id r' = pc_parent_commit_id r"
    and "pc_parent_commit_id r \<noteq> Some (pc_commit_id r)"
  shows "log s2 = log s1"
  using commit_log [OF commit_inv [OF assms(1,2)] assms(4)] commit_log [OF assms(1,2)] assms(3,5-7)
  by auto

end

section \<open>The volatile journal of the browser build\<close>

record memory_journal =
  mj_session_id :: string
  mj_base_sha256 :: string
  mj_records :: "prepared_commit list"
  mj_bytes :: nat

definition memory_new :: "string \<Rightarrow> string \<Rightarrow> memory_journal" where
  "memory_new session_id base_sha256 = \<lparr> mj_session_id = session_id,
     mj_base_sha256 = base_sha256, mj_records = [], mj_bytes = 2 \<rparr>"

definition memory_bound :: "memory_journal \<Rightarrow> string \<Rightarrow> unit res" where
  "memory_bound mj session_id =
     bail_if (session_id \<noteq> mj_session_id mj) ''journal resource binding mismatch'' (Inr ())"

definition memory_load :: "memory_journal \<Rightarrow> string \<Rightarrow> prepared_commit list res" where
  "memory_load mj session_id = bind_res (memory_bound mj session_id) (\<lambda>_. Inr (mj_records mj))"

fun memory_find :: "nat \<Rightarrow> prepared_commit list \<Rightarrow> string \<Rightarrow> string \<Rightarrow> reconcile_outcome res" where
  "memory_find index [] request_id fingerprint = Inr NotFound"
| "memory_find index (r # rs) request_id fingerprint =
     (if pc_request_id r = request_id then
        bail_if (pc_request_fingerprint r \<noteq> fingerprint)
          ''request identity reuse with different input''
          (Inr (Committed \<lparr> dc_commit_id = pc_commit_id r, dc_sequence = index + 1 \<rparr>))
      else memory_find (index + 1) rs request_id fingerprint)"

definition memory_reconcile ::
    "memory_journal \<Rightarrow> string \<Rightarrow> string \<Rightarrow> string \<Rightarrow> memory_journal \<times> reconcile_outcome res" where
  "memory_reconcile mj session_id request_id fingerprint =
     (mj, bind_res (memory_bound mj session_id) (\<lambda>_.
       memory_find 0 (mj_records mj) request_id fingerprint))"

text \<open>\<open>json_len\<close> is the length of a record's JSON text.\<close>

definition memory_commit ::
    "'op codec \<Rightarrow> (prepared_commit \<Rightarrow> nat) \<Rightarrow> memory_journal \<Rightarrow> prepared_commit
      \<Rightarrow> memory_journal \<times> durable_commit_outcome res" where
  "memory_commit cd json_len mj prepared =
     (case bind_res (memory_bound mj (pc_session_id prepared)) (\<lambda>_.
        snd (memory_reconcile mj (pc_session_id prepared) (pc_request_id prepared)
          (pc_request_fingerprint prepared))) of
        Inl e \<Rightarrow> (mj, Inl e)
      | Inr (Committed outcome) \<Rightarrow> (mj, Inr outcome)
      | Inr NotFound \<Rightarrow>
          let next_bytes = mj_bytes mj + (json_len prepared + 1);
              records = mj_records mj @ [prepared]
          in
          (case bail_if (next_bytes > 32 * 1024 * 1024)
              ''volatile journal exceeds its 32 MiB limit; record was not appended''
              (replay_bound cd records (mj_session_id mj) (mj_base_sha256 mj)) of
             Inl e \<Rightarrow> (mj, Inl e)
           | Inr _ \<Rightarrow>
               (mj \<lparr> mj_records := records, mj_bytes := next_bytes \<rparr>,
                Inr \<lparr> dc_commit_id = pc_commit_id prepared, dc_sequence = length records \<rparr>)))"

definition memory_log :: "memory_journal \<Rightarrow> string \<Rightarrow> prepared_commit list" where
  "memory_log mj sid = (if sid = mj_session_id mj then mj_records mj else [])"

definition memory_inv :: "'op codec \<Rightarrow> memory_journal \<Rightarrow> bool" where
  "memory_inv cd mj =
     is_ok (replay_bound cd (mj_records mj) (mj_session_id mj) (mj_base_sha256 mj))"

lemma is_ok_iff: "is_ok m \<longleftrightarrow> (\<exists>x. m = Inr x)"
  by (cases m) auto

lemma memory_find_Committed:
  "memory_find k rs q fp = Inr (Committed outcome) \<Longrightarrow>
     \<exists>i. i < length rs \<and> pc_request_id (rs ! i) = q \<and> pc_request_fingerprint (rs ! i) = fp
       \<and> outcome = \<lparr> dc_commit_id = pc_commit_id (rs ! i), dc_sequence = k + i + 1 \<rparr>"
proof (induction k rs q fp rule: memory_find.induct)
  case (2 k r rs q fp)
  show ?case
  proof (cases "pc_request_id r = q")
    case True
    with 2(2) show ?thesis by (intro exI [of _ 0]) auto
  next
    case False
    with 2 obtain i where "i < length rs" "pc_request_id (rs ! i) = q"
      "pc_request_fingerprint (rs ! i) = fp"
      "outcome = \<lparr> dc_commit_id = pc_commit_id (rs ! i), dc_sequence = k + 1 + i + 1 \<rparr>" by auto
    then show ?thesis by (intro exI [of _ "Suc i"]) auto
  qed
qed simp

lemma memory_find_NotFound:
  "memory_find k rs q fp = Inr NotFound \<Longrightarrow> q \<notin> set (map pc_request_id rs)"
  by (induction k rs q fp rule: memory_find.induct) (auto split: if_split_asm)

lemma memory_commit_cases:
  assumes "memory_commit cd json_len mj r = (mj', x)"
  obtains e where "x = Inl e" "mj' = mj"
  | outcome where "x = Inr outcome" "mj' = mj" "pc_session_id r = mj_session_id mj"
      "memory_find 0 (mj_records mj) (pc_request_id r) (pc_request_fingerprint r)
        = Inr (Committed outcome)"
  | st where "mj' = mj \<lparr> mj_records := mj_records mj @ [r],
        mj_bytes := mj_bytes mj + (json_len r + 1) \<rparr>"
      "x = Inr \<lparr> dc_commit_id = pc_commit_id r, dc_sequence = length (mj_records mj) + 1 \<rparr>"
      "pc_session_id r = mj_session_id mj"
      "replay_bound cd (mj_records mj @ [r]) (mj_session_id mj) (mj_base_sha256 mj) = Inr st"
proof (cases "pc_session_id r = mj_session_id mj")
  case False
  with assms that(1) show ?thesis by (auto simp: memory_commit_def memory_bound_def)
next
  case True
  then show ?thesis
    using assms that
    by (cases "memory_find 0 (mj_records mj) (pc_request_id r) (pc_request_fingerprint r)")
      (auto simp: memory_commit_def memory_reconcile_def memory_bound_def Let_def bail_if_def
        split: sum.split_asm reconcile_outcome.split_asm if_split_asm)
qed

interpretation memory: commit_storage memory_log memory_load "memory_commit cd json_len"
  memory_reconcile "memory_inv cd" for cd :: "'op codec" and json_len
proof
  fix s s' :: memory_journal and sid q fp and r :: prepared_commit and x y records outcome
  show "records = memory_log s sid" if "memory_load s sid = Inr records"
    using that by (auto simp: memory_load_def memory_bound_def memory_log_def bind_res_Inr)
  show "distinct (map pc_request_id (memory_log s sid))" if inv: "memory_inv cd s"
    using inv by (auto simp: memory_inv_def is_ok_iff memory_log_def dest: replay_bound_requests)
  show "memory_inv cd s'" if "memory_inv cd s" "memory_commit cd json_len s r = (s', x)"
    by (rule memory_commit_cases [OF that(2)]) (use that(1) in \<open>auto simp: memory_inv_def is_ok_iff\<close>)
  show "memory_log s' = memory_log s
      \<or> memory_log s' = (memory_log s)(pc_session_id r := memory_log s (pc_session_id r) @ [r])
        \<and> pc_parent_commit_id r
          = map_option pc_commit_id (last_opt (memory_log s (pc_session_id r)))"
    if "memory_inv cd s" "memory_commit cd json_len s r = (s', x)"
    using that(2) by (rule memory_commit_cases)
      (auto simp: memory_log_def fun_eq_iff dest: replay_bound_parent)
  show "\<exists>i e. i < length (memory_log s' (pc_session_id r))
      \<and> e = memory_log s' (pc_session_id r) ! i \<and> pc_request_id e = pc_request_id r
      \<and> pc_request_fingerprint e = pc_request_fingerprint r
      \<and> outcome = \<lparr> dc_commit_id = pc_commit_id e, dc_sequence = i + 1 \<rparr>"
    if "memory_inv cd s" "memory_commit cd json_len s r = (s', Inr outcome)"
    using that(2) by (rule memory_commit_cases)
      (auto simp: memory_log_def dest: memory_find_Committed
        intro: exI [of _ "length (mj_records s)"])
  show "memory_inv cd s' \<and> memory_log s' = memory_log s"
    if "memory_inv cd s" "memory_reconcile s sid q fp = (s', y)"
    using that by (auto simp: memory_reconcile_def)
  show "\<exists>i e. i < length (memory_log s sid) \<and> e = memory_log s sid ! i \<and> pc_request_id e = q
      \<and> pc_request_fingerprint e = fp
      \<and> outcome = \<lparr> dc_commit_id = pc_commit_id e, dc_sequence = i + 1 \<rparr>"
    if "memory_inv cd s" "memory_reconcile s sid q fp = (s', Inr (Committed outcome))"
    using that by (auto simp: memory_reconcile_def memory_bound_def memory_log_def bind_res_Inr
        dest!: memory_find_Committed)
  show "q \<notin> set (map pc_request_id (memory_log s sid))"
    if "memory_inv cd s" "memory_reconcile s sid q fp = (s', Inr NotFound)"
    using that by (auto simp: memory_reconcile_def memory_bound_def memory_log_def bind_res_Inr
        dest!: memory_find_NotFound)
qed

section \<open>The native file journal\<close>

record journal_envelope =
  je_sequence :: u64
  je_record :: prepared_commit
  je_previous_hash :: "string option"
  je_hash :: string

text \<open>A file of the journal directory: not a symbolic link but a regular file, without group
  and other permissions, and its bytes.\<close>

record journal_file =
  jf_regular :: bool
  jf_private :: bool
  jf_raw :: string

record native_journal =
  nj_files :: "journal_file btree"
  nj_max_bytes :: u64
  nj_fail_before_write_once :: bool
  nj_fail_sync_once :: bool
  nj_fail_after_commit_once :: bool
  nj_fail_file_sync :: bool
  nj_fail_directory_sync :: bool

record 'op journal_codec =
  jc_codec :: "'op codec"
  jc_read_line :: "string \<Rightarrow> journal_envelope res"
  jc_write_line :: "journal_envelope \<Rightarrow> string"
  jc_hash_bytes :: "u64 \<Rightarrow> prepared_commit \<Rightarrow> string option \<Rightarrow> string"

definition native_open :: "native_journal" where
  "native_open = \<lparr> nj_files = [], nj_max_bytes = 128 * 1024 * 1024,
     nj_fail_before_write_once = False, nj_fail_sync_once = False,
     nj_fail_after_commit_once = False, nj_fail_file_sync = False,
     nj_fail_directory_sync = False \<rparr>"

definition envelope_hash ::
    "'op journal_codec \<Rightarrow> u64 \<Rightarrow> prepared_commit \<Rightarrow> string option \<Rightarrow> string" where
  "envelope_hash jc sequence record previous =
     ''sha256:'' @ sha256_hex (jc_codec jc) (jc_hash_bytes jc sequence record previous)"

definition session_path_ok :: "string \<Rightarrow> bool" where
  "session_path_ok session_id =
     (session_id \<noteq> []
      \<and> list_all (\<lambda>c. is_alnum c \<or> c = CHR ''_'' \<or> c = CHR ''-'') session_id)"

definition validate_private_file :: "native_journal \<Rightarrow> string \<Rightarrow> unit res" where
  "validate_private_file nj session_id =
     (case bt_get (nj_files nj) session_id of
        None \<Rightarrow> Inr ()
      | Some f \<Rightarrow>
          bail_if (\<not> jf_regular f) ''resident journal path must be a regular file'' (
          bail_if (\<not> jf_private f) ''resident journal files must be private'' (Inr ())))"

text \<open>Everything up to and including the last line break.\<close>

definition complete_part :: "string \<Rightarrow> string" where
  "complete_part raw = rev (dropWhile (\<lambda>c. c \<noteq> CHR 0x0A) (rev raw))"

text \<open>\<open>BufRead::lines\<close> on a text that is empty or ends in a line break.\<close>

definition journal_lines :: "string \<Rightarrow> string list" where
  "journal_lines s = map strip_cr (butlast (split_on (CHR 0x0A) s))"

definition load_line ::
    "'op journal_codec \<Rightarrow> string \<Rightarrow> journal_envelope list \<times> string option \<Rightarrow> string
      \<Rightarrow> (journal_envelope list \<times> string option) res" where
  "load_line jc session_id acc line =
     (let (envelopes, previous_hash) = acc in
      if str_trim line = [] then Inr acc
      else bind_res (jc_read_line jc line) (\<lambda>envelope.
        bail_if (pc_schema_version (je_record envelope) \<noteq> resident_commit_schema)
          ''unsupported required resident commit schema'' (
        bail_if (pc_session_id (je_record envelope) \<noteq> session_id)
          ''journal record belongs to a different session'' (
        bail_if (je_sequence envelope \<noteq> length envelopes + 1
            \<or> je_previous_hash envelope \<noteq> previous_hash
            \<or> je_hash envelope \<noteq> envelope_hash jc (je_sequence envelope) (je_record envelope)
                 (je_previous_hash envelope))
          ''resident journal integrity failure''
          (Inr (envelopes @ [envelope], Some (je_hash envelope)))))))"

definition load_envelopes_with_boundary ::
    "'op journal_codec \<Rightarrow> native_journal \<Rightarrow> string \<Rightarrow> (journal_envelope list \<times> u64 \<times> u64) res" where
  "load_envelopes_with_boundary jc nj session_id =
     bail_if (\<not> session_path_ok session_id) ''invalid session id for journal path'' (
     bind_res (validate_private_file nj session_id) (\<lambda>_.
     case bt_get (nj_files nj) session_id of
       None \<Rightarrow> Inr ([], 0, 0)
     | Some f \<Rightarrow>
         let complete = complete_part (jf_raw f) in
         bind_res (fold_res (load_line jc session_id) ([], None) (journal_lines complete))
           (\<lambda>(envelopes, _).
         bind_res (if envelopes = [] then Inr (history_empty [] [])
                   else replay (jc_codec jc) (map je_record envelopes)) (\<lambda>_.
         Inr (envelopes, length complete, length (jf_raw f))))))"

definition native_load ::
    "'op journal_codec \<Rightarrow> native_journal \<Rightarrow> string \<Rightarrow> prepared_commit list res" where
  "native_load jc nj session_id =
     bind_res (load_envelopes_with_boundary jc nj session_id) (\<lambda>(envelopes, _).
     let records = map je_record envelopes in
     bind_res (if records = [] then Inr (history_empty [] []) else replay (jc_codec jc) records)
       (\<lambda>_. Inr records))"

text \<open>\<open>set_len\<close> on the session's file and the two durability barriers.\<close>

definition truncate_file :: "native_journal \<Rightarrow> string \<Rightarrow> u64 \<Rightarrow> native_journal" where
  "truncate_file nj session_id n =
     (case bt_get (nj_files nj) session_id of
        None \<Rightarrow> nj
      | Some f \<Rightarrow> nj \<lparr> nj_files :=
          bt_insert session_id (f \<lparr> jf_raw := take n (jf_raw f) \<rparr>) (nj_files nj) \<rparr>)"

definition sync_file :: "native_journal \<Rightarrow> unit res" where
  "sync_file nj =
     bail_if (nj_fail_file_sync nj) ''persistent file sync failure; outcome uncertain'' (Inr ())"

definition sync_directory :: "native_journal \<Rightarrow> unit res" where
  "sync_directory nj =
     bail_if (nj_fail_directory_sync nj)
       ''persistent directory sync failure; outcome uncertain'' (Inr ())"

text \<open>The retry branch of \<open>commit\<close>: re-establish durability, then report the stored outcome.\<close>

definition commit_existing ::
    "native_journal \<Rightarrow> string \<Rightarrow> u64 \<Rightarrow> u64 \<Rightarrow> journal_envelope
      \<Rightarrow> native_journal \<times> durable_commit_outcome res" where
  "commit_existing nj session_id complete_len physical_len existing =
     (case validate_private_file nj session_id of
        Inl e \<Rightarrow> (nj, Inl e)
      | Inr _ \<Rightarrow>
          let nj = (if physical_len \<noteq> complete_len then truncate_file nj session_id complete_len
                    else nj)
          in (nj, bind_res (sync_file nj) (\<lambda>_. bind_res (sync_directory nj) (\<lambda>_.
                Inr \<lparr> dc_commit_id = pc_commit_id (je_record existing),
                      dc_sequence = je_sequence existing \<rparr>))))"

text \<open>\<open>writeln!\<close> at the end of the file, which is created private when it is missing.\<close>

definition append_line :: "native_journal \<Rightarrow> string \<Rightarrow> string \<Rightarrow> native_journal" where
  "append_line nj session_id encoded =
     (let f = (case bt_get (nj_files nj) session_id of
                 Some f \<Rightarrow> f | None \<Rightarrow> \<lparr> jf_regular = True, jf_private = True, jf_raw = [] \<rparr>)
      in nj \<lparr> nj_files := bt_insert session_id
           (f \<lparr> jf_raw := jf_raw f @ encoded @ [CHR 0x0A] \<rparr>) (nj_files nj) \<rparr>)"

definition write_envelope ::
    "native_journal \<Rightarrow> prepared_commit \<Rightarrow> string \<Rightarrow> u64 \<Rightarrow> u64 \<Rightarrow> u64
      \<Rightarrow> native_journal \<times> durable_commit_outcome res" where
  "write_envelope nj prepared encoded sequence complete_len physical_len =
     (let sid = pc_session_id prepared;
          torn = (physical_len \<noteq> complete_len);
          nj = (if torn then truncate_file nj sid complete_len else nj)
      in case (if torn then sync_file nj else Inr ()) of
           Inl e \<Rightarrow> (nj, Inl e)
         | Inr _ \<Rightarrow>
           let nj = append_line nj sid encoded in
           if nj_fail_sync_once nj
           then (nj \<lparr> nj_fail_sync_once := False \<rparr>,
                 Inl (Bail ''injected journal fsync failure; outcome uncertain''))
           else (case bind_res (sync_file nj) (\<lambda>_. sync_directory nj) of
                   Inl e \<Rightarrow> (nj, Inl e)
                 | Inr _ \<Rightarrow>
                     if nj_fail_after_commit_once nj
                     then (nj \<lparr> nj_fail_after_commit_once := False \<rparr>, Inl (Bail
                       ''commit outcome unknown after durable append; reconcile request identity''))
                     else (nj, Inr \<lparr> dc_commit_id = pc_commit_id prepared,
                                     dc_sequence = sequence \<rparr>)))"

text \<open>The append branch: CAS on the tip, replay of the extended stream, quota, write.\<close>

definition commit_new ::
    "'op journal_codec \<Rightarrow> native_journal \<Rightarrow> prepared_commit \<Rightarrow> journal_envelope list \<Rightarrow> u64 \<Rightarrow> u64
      \<Rightarrow> native_journal \<times> durable_commit_outcome res" where
  "commit_new jc nj prepared entries complete_len physical_len =
     (let parent = map_option (\<lambda>e. pc_commit_id (je_record e)) (last_opt entries);
          records = map je_record entries @ [prepared];
          sequence = length entries + 1;
          previous_hash = map_option je_hash (last_opt entries);
          envelope = \<lparr> je_sequence = sequence, je_record = prepared,
            je_previous_hash = previous_hash,
            je_hash = envelope_hash jc sequence prepared previous_hash \<rparr>;
          encoded = jc_write_line jc envelope
      in
      case bail_if (pc_parent_commit_id prepared \<noteq> parent) ''journal CAS conflict''
          (replay_bound (jc_codec jc) records (pc_session_id prepared) (pc_base_sha256 prepared)) of
        Inl e \<Rightarrow> (nj, Inl e)
      | Inr _ \<Rightarrow>
          if nj_fail_before_write_once nj
          then (nj \<lparr> nj_fail_before_write_once := False \<rparr>,
                Inl (Bail ''injected failure before journal write''))
          else if (case u64_checked_add complete_len (length encoded + 1) of
                     None \<Rightarrow> True | Some n \<Rightarrow> n > nj_max_bytes nj)
          then (nj, Inl (Bail ''resident journal lifetime byte quota reached''))
          else (case validate_private_file nj (pc_session_id prepared) of
                  Inl e \<Rightarrow> (nj, Inl e)
                | Inr _ \<Rightarrow> write_envelope nj prepared encoded sequence complete_len physical_len))"

definition native_commit ::
    "'op journal_codec \<Rightarrow> native_journal \<Rightarrow> prepared_commit
      \<Rightarrow> native_journal \<times> durable_commit_outcome res" where
  "native_commit jc nj prepared =
     (case bail_if (pc_schema_version prepared \<noteq> resident_commit_schema)
          ''unsupported resident commit schema: prepare refused''
          (load_envelopes_with_boundary jc nj (pc_session_id prepared)) of
        Inl e \<Rightarrow> (nj, Inl e)
      | Inr (entries, complete_len, physical_len) \<Rightarrow>
          if list_ex (\<lambda>e. pc_base_sha256 (je_record e) \<noteq> pc_base_sha256 prepared) entries
          then (nj, Inl (Bail ''journal expected base identity mismatch''))
          else (case List.find (\<lambda>e. pc_request_id (je_record e) = pc_request_id prepared) entries of
             Some existing \<Rightarrow>
               if pc_request_fingerprint (je_record existing) \<noteq> pc_request_fingerprint prepared
               then (nj, Inl (Bail ''request identity reuse with a different fingerprint''))
               else commit_existing nj (pc_session_id prepared) complete_len physical_len existing
           | None \<Rightarrow> commit_new jc nj prepared entries complete_len physical_len))"

definition native_reconcile ::
    "'op journal_codec \<Rightarrow> native_journal \<Rightarrow> string \<Rightarrow> string \<Rightarrow> string
      \<Rightarrow> native_journal \<times> reconcile_outcome res" where
  "native_reconcile jc nj session_id request_id request_fingerprint =
     (case load_envelopes_with_boundary jc nj session_id of
        Inl e \<Rightarrow> (nj, Inl e)
      | Inr (entries, complete_len, physical_len) \<Rightarrow>
          let present = (bt_get (nj_files nj) session_id \<noteq> None);
              nj = (if present \<and> physical_len \<noteq> complete_len
                    then truncate_file nj session_id complete_len else nj)
          in (nj, bind_res (if present then bind_res (sync_file nj) (\<lambda>_. sync_directory nj)
                            else Inr ()) (\<lambda>_.
                case List.find (\<lambda>e. pc_request_id (je_record e) = request_id) entries of
                  None \<Rightarrow> Inr NotFound
                | Some entry \<Rightarrow>
                    bail_if (pc_request_fingerprint (je_record entry) \<noteq> request_fingerprint)
                      ''request identity fingerprint mismatch''
                      (Inr (Committed \<lparr> dc_commit_id = pc_commit_id (je_record entry),
                                        dc_sequence = je_sequence entry \<rparr>)))))"

section \<open>The file as a log\<close>

text \<open>The documented behaviour of the line reader and printer the journal relies on.\<close>

definition line_codec_ok :: "'op journal_codec \<Rightarrow> bool" where
  "line_codec_ok jc =
     (\<forall>e. jc_read_line jc (jc_write_line jc e) = Inr e
        \<and> CHR 0x0A \<notin> set (jc_write_line jc e)
        \<and> str_trim (jc_write_line jc e) \<noteq> []
        \<and> last (jc_write_line jc e) \<noteq> CHR 0x0D)"

definition native_log :: "'op journal_codec \<Rightarrow> native_journal \<Rightarrow> string \<Rightarrow> prepared_commit list" where
  "native_log jc nj sid =
     (case load_envelopes_with_boundary jc nj sid of
        Inl _ \<Rightarrow> [] | Inr (envelopes, _) \<Rightarrow> map je_record envelopes)"

lemma complete_part_closed [simp]: "complete_part (complete_part raw) = complete_part raw"
  by (simp add: complete_part_def dropWhile_idem)

lemma complete_part_prefix: "complete_part raw = take (length (complete_part raw)) raw"
proof -
  have "raw = complete_part raw @ rev (takeWhile (\<lambda>c. c \<noteq> CHR 0x0A) (rev raw))"
    by (simp add: complete_part_def flip: rev_append)
  then show ?thesis by (metis append_eq_conv_conj)
qed

lemma complete_part_shape: "complete_part raw = [] \<or> (\<exists>p. complete_part raw = p @ [CHR 0x0A])"
proof (cases "dropWhile (\<lambda>c. c \<noteq> CHR 0x0A) (rev raw)")
  case Nil
  then show ?thesis by (simp add: complete_part_def)
next
  case (Cons c cs)
  with hd_dropWhile [of "\<lambda>c. c \<noteq> CHR 0x0A" "rev raw"] have "c = CHR 0x0A" by simp
  with Cons show ?thesis by (auto simp: complete_part_def)
qed

lemma complete_part_append_line: "complete_part (p @ [CHR 0x0A]) = p @ [CHR 0x0A]"
  by (simp add: complete_part_def)

lemma journal_lines_append:
  assumes "p = [] \<or> (\<exists>q. p = q @ [CHR 0x0A])" and "CHR 0x0A \<notin> set e"
  shows "journal_lines (p @ e @ [CHR 0x0A]) = journal_lines p @ [strip_cr e]"
proof -
  have e: "split_on (CHR 0x0A) (e @ [CHR 0x0A]) = [e, []]"
    using split_on_append [OF assms(2), of "[]"] by simp
  from assms(1) show ?thesis
  proof
    assume "p = []"
    with e show ?thesis by (simp add: journal_lines_def)
  next
    assume "\<exists>q. p = q @ [CHR 0x0A]"
    then obtain q where p: "p = q @ [CHR 0x0A]" by blast
    have "split_on (CHR 0x0A) (p @ e @ [CHR 0x0A]) = split_on (CHR 0x0A) q @ [e, []]"
      using split_on_append_sep [of "CHR 0x0A" q "e @ [CHR 0x0A]"] e by (simp add: p)
    moreover have "split_on (CHR 0x0A) p = split_on (CHR 0x0A) q @ [[]]"
      using split_on_append_sep [of "CHR 0x0A" q "[]"] by (simp add: p)
    ultimately show ?thesis by (simp add: journal_lines_def butlast_append)
  qed
qed

text \<open>The log only depends on the files.\<close>

lemma load_files_cong:
  "nj_files nj = nj_files nj' \<Longrightarrow>
     load_envelopes_with_boundary jc nj sid = load_envelopes_with_boundary jc nj' sid"
  by (simp add: load_envelopes_with_boundary_def validate_private_file_def)

lemma log_files_cong: "nj_files nj = nj_files nj' \<Longrightarrow> native_log jc nj = native_log jc nj'"
  by (simp add: native_log_def fun_eq_iff load_files_cong [of nj nj'])

definition entries_of ::
    "'op journal_codec \<Rightarrow> string \<Rightarrow> string \<Rightarrow> (journal_envelope list \<times> string option) res" where
  "entries_of jc sid raw =
     fold_res (load_line jc sid) ([], None) (journal_lines (complete_part raw))"

lemma entries_of_sound:
  assumes "entries_of jc sid raw = Inr (es, prev)"
  shows "(\<forall>i < length es. je_sequence (es ! i) = i + 1) \<and> prev = map_option je_hash (last_opt es)"
proof -
  let ?P = "\<lambda>(es, prev). (\<forall>i < length es. je_sequence (es ! i) = i + 1)
      \<and> prev = map_option je_hash (last_opt es)"
  from assms [unfolded entries_of_def] have "?P (es, prev)"
  proof (rule fold_res_invariant)
    show "?P ([], None)" by simp
    fix s x s'
    assume "?P s" and "load_line jc sid s x = Inr s'"
    then show "?P s'"
      by (auto simp: load_line_def bind_res_Inr nth_append less_Suc_eq split: if_split_asm)
  qed
  then show ?thesis by simp
qed

lemma load_cases:
  assumes "load_envelopes_with_boundary jc nj sid = Inr (es, c, p)"
  obtains "bt_get (nj_files nj) sid = None" "es = []" "c = 0" "p = 0" "session_path_ok sid"
  | f prev where "bt_get (nj_files nj) sid = Some f" "jf_regular f" "jf_private f"
      "entries_of jc sid (jf_raw f) = Inr (es, prev)" "c = length (complete_part (jf_raw f))"
      "p = length (jf_raw f)" "session_path_ok sid"
      "es = [] \<or> is_ok (replay (jc_codec jc) (map je_record es))"
  using assms
  by (auto simp: load_envelopes_with_boundary_def validate_private_file_def entries_of_def Let_def
      bind_res_Inr is_ok_iff split: option.split_asm if_split_asm)

lemma load_intro:
  assumes "bt_get (nj_files nj) sid = Some f" "jf_regular f" "jf_private f" "session_path_ok sid"
    and "entries_of jc sid (jf_raw f) = Inr (es, prev)"
    and "es = [] \<or> is_ok (replay (jc_codec jc) (map je_record es))"
  shows "load_envelopes_with_boundary jc nj sid
    = Inr (es, length (complete_part (jf_raw f)), length (jf_raw f))"
  using assms
  by (auto simp: load_envelopes_with_boundary_def validate_private_file_def entries_of_def Let_def
      is_ok_iff)

text \<open>Cutting a torn tail does not change the log.\<close>

lemma complete_part_take [simp]:
  "complete_part (take (length (complete_part raw)) raw) = complete_part raw"
  using complete_part_prefix [of raw] by (metis complete_part_closed)

lemma load_other:
  "bt_get (nj_files nj) sid = bt_get (nj_files nj') sid \<Longrightarrow>
     load_envelopes_with_boundary jc nj sid = load_envelopes_with_boundary jc nj' sid"
  by (simp add: load_envelopes_with_boundary_def validate_private_file_def)

lemma load_truncate:
  assumes "load_envelopes_with_boundary jc nj sid = Inr (es, c, p)"
  shows "\<exists>p'. load_envelopes_with_boundary jc (truncate_file nj sid c) sid = Inr (es, c, p')"
  using assms
proof (cases rule: load_cases)
  case 1
  with assms show ?thesis by (auto simp: truncate_file_def)
next
  case (2 f prev)
  have "bt_get (nj_files (truncate_file nj sid c)) sid
      = Some (f \<lparr> jf_raw := take c (jf_raw f) \<rparr>)"
    by (simp add: truncate_file_def 2(1))
  from load_intro [OF this, of jc es prev] 2 show ?thesis
    by (simp add: entries_of_def)
qed

lemma log_truncate:
  assumes "load_envelopes_with_boundary jc nj sid = Inr (es, c, p)"
  shows "native_log jc (truncate_file nj sid c) = native_log jc nj"
proof
  fix sid'
  show "native_log jc (truncate_file nj sid c) sid' = native_log jc nj sid'"
  proof (cases "sid' = sid")
    case True
    with load_truncate [OF assms] assms show ?thesis by (auto simp: native_log_def)
  next
    case False
    then have "bt_get (nj_files (truncate_file nj sid c)) sid' = bt_get (nj_files nj) sid'"
      by (simp add: truncate_file_def split: option.split)
    from load_other [OF this, of jc] show ?thesis by (simp add: native_log_def)
  qed
qed

lemma replay_of_bound:
  "replay_bound cd (xs @ [r]) (pc_session_id r) (pc_base_sha256 r) = Inr st
    \<Longrightarrow> replay cd (xs @ [r]) = Inr st"
  using replay_bound_session [of cd "xs @ [r]" "pc_session_id r" "pc_base_sha256 r" st "hd (xs @ [r])"]
  by (cases xs) (auto simp: replay_def)

text \<open>Appending the line of a fresh envelope appends its record to the log.\<close>

lemma load_append:
  assumes codec: "line_codec_ok jc"
    and load: "load_envelopes_with_boundary jc nj sid = Inr (es, c, p)"
    and whole: "\<And>f. bt_get (nj_files nj) sid = Some f \<Longrightarrow> complete_part (jf_raw f) = jf_raw f"
    and sid: "sid = pc_session_id r" and schema: "pc_schema_version r = resident_commit_schema"
    and env: "env = \<lparr> je_sequence = length es + 1, je_record = r,
        je_previous_hash = map_option je_hash (last_opt es),
        je_hash = envelope_hash jc (length es + 1) r (map_option je_hash (last_opt es)) \<rparr>"
    and replay: "replay_bound (jc_codec jc) (map je_record es @ [r]) (pc_session_id r)
        (pc_base_sha256 r) = Inr st"
  shows "\<exists>c' p'. load_envelopes_with_boundary jc (append_line nj sid (jc_write_line jc env)) sid
    = Inr (es @ [env], c', p')"
proof -
  let ?line = "jc_write_line jc env"
  define raw where "raw = (case bt_get (nj_files nj) sid of None \<Rightarrow> [] | Some f \<Rightarrow> jf_raw f)"
  have raw: "complete_part raw = raw"
    using whole by (auto simp: raw_def complete_part_def split: option.split)
  have path: "session_path_ok sid" using load by (rule load_cases)
  have "entries_of jc sid raw = Inr (es, map_option je_hash (last_opt es))"
    using load
  proof (cases rule: load_cases)
    case 1
    then show ?thesis
      by (simp add: raw_def entries_of_def complete_part_def journal_lines_def)
  next
    case (2 f prev)
    with entries_of_sound [OF 2(4)] show ?thesis by (simp add: raw_def)
  qed
  then have old: "fold_res (load_line jc sid) ([], None) (journal_lines raw)
      = Inr (es, map_option je_hash (last_opt es))" by (simp add: entries_of_def raw)
  from codec have line: "jc_read_line jc ?line = Inr env" "CHR 0x0A \<notin> set ?line"
    "str_trim ?line \<noteq> []" "last ?line \<noteq> CHR 0x0D" by (auto simp: line_codec_ok_def)
  then have "?line \<noteq> []" by (auto simp: str_trim_def)
  have lines: "journal_lines (raw @ ?line @ [CHR 0x0A]) = journal_lines raw @ [?line]"
    using journal_lines_append [OF complete_part_shape line(2), of raw]
      strip_cr_id [OF \<open>?line \<noteq> []\<close> line(4)] by (simp add: raw)
  have "complete_part (raw @ ?line @ [CHR 0x0A]) = raw @ ?line @ [CHR 0x0A]"
    using complete_part_append_line [of "raw @ ?line"] by simp
  moreover have "je_sequence env = length es + 1" "je_record env = r"
    "je_previous_hash env = map_option je_hash (last_opt es)"
    "je_hash env = envelope_hash jc (length es + 1) r (map_option je_hash (last_opt es))"
    by (simp_all add: env)
  then have step: "load_line jc sid (es, map_option je_hash (last_opt es)) ?line
      = Inr (es @ [env], Some (je_hash env))"
    by (simp add: load_line_def line(1,3) schema sid)
  ultimately have new: "entries_of jc sid (raw @ ?line @ [CHR 0x0A])
      = Inr (es @ [env], Some (je_hash env))"
    by (simp add: entries_of_def lines fold_res_append old step)
  have "\<exists>f. bt_get (nj_files (append_line nj sid ?line)) sid = Some f \<and> jf_regular f
      \<and> jf_private f \<and> jf_raw f = raw @ ?line @ [CHR 0x0A]"
    using load by (cases rule: load_cases) (auto simp: append_line_def raw_def Let_def)
  then obtain f where f: "bt_get (nj_files (append_line nj sid ?line)) sid = Some f"
    "jf_regular f" "jf_private f" "jf_raw f = raw @ ?line @ [CHR 0x0A]" by blast
  from replay_of_bound [OF replay] have "is_ok (replay (jc_codec jc) (map je_record (es @ [env])))"
    by (auto simp: env is_ok_iff)
  with load_intro [OF f(1-3) path, of jc "es @ [env]"] f(4) new show ?thesis by auto
qed

lemma find_position:
  assumes "List.find q xs = Some x"
  obtains i where "i < length xs" "xs ! i = x" "q x"
  using assms that by (metis find_Some in_set_conv_nth)

lemma log_of_load:
  "load_envelopes_with_boundary jc nj sid = Inr (es, c, p) \<Longrightarrow> native_log jc nj sid = map je_record es"
  by (simp add: native_log_def)

lemma load_sequence:
  assumes "load_envelopes_with_boundary jc nj sid = Inr (es, c, p)" and "i < length es"
  shows "je_sequence (es ! i) = i + 1"
  using assms by (auto elim!: load_cases dest: entries_of_sound)

lemma write_envelope_cases:
  assumes "write_envelope nj r line n c p = (nj', x)"
  obtains e where "x = Inl e"
      "nj_files nj' = nj_files (if p \<noteq> c then truncate_file nj (pc_session_id r) c else nj)"
  | "nj_files nj' = nj_files (append_line
        (if p \<noteq> c then truncate_file nj (pc_session_id r) c else nj) (pc_session_id r) line)"
      "(\<exists>e. x = Inl e) \<or> x = Inr \<lparr> dc_commit_id = pc_commit_id r, dc_sequence = n \<rparr>"
  using assms
  by (auto simp: write_envelope_def Let_def split: sum.split_asm if_split_asm)

text \<open>The three outcomes of a commit: refused, already there, appended.\<close>

definition commit_effect ::
    "'op journal_codec \<Rightarrow> native_journal \<Rightarrow> prepared_commit \<Rightarrow> native_journal
      \<Rightarrow> durable_commit_outcome res \<Rightarrow> bool" where
  "commit_effect jc nj r nj' x =
     (let before = native_log jc nj (pc_session_id r) in
      native_log jc nj' = native_log jc nj
        \<and> ((\<exists>e. x = Inl e)
           \<or> (\<exists>i. i < length before \<and> pc_request_id (before ! i) = pc_request_id r
                \<and> pc_request_fingerprint (before ! i) = pc_request_fingerprint r
                \<and> x = Inr \<lparr> dc_commit_id = pc_commit_id (before ! i), dc_sequence = i + 1 \<rparr>))
      \<or> native_log jc nj' = (native_log jc nj)(pc_session_id r := before @ [r])
        \<and> pc_parent_commit_id r = map_option pc_commit_id (last_opt before)
        \<and> ((\<exists>e. x = Inl e)
           \<or> x = Inr \<lparr> dc_commit_id = pc_commit_id r, dc_sequence = length before + 1 \<rparr>))"

lemma commit_existing_effect:
  assumes load: "load_envelopes_with_boundary jc nj (pc_session_id r) = Inr (es, c, p)"
    and found: "List.find (\<lambda>e. pc_request_id (je_record e) = pc_request_id r) es = Some existing"
    and fp: "pc_request_fingerprint (je_record existing) = pc_request_fingerprint r"
    and "commit_existing nj (pc_session_id r) c p existing = (nj', x)"
  shows "commit_effect jc nj r nj' x"
proof -
  from found obtain i where i: "i < length es" "es ! i = existing"
    "pc_request_id (je_record existing) = pc_request_id r" by (rule find_position)
  have log: "native_log jc nj (pc_session_id r) = map je_record es" using log_of_load [OF load] .
  have seq: "je_sequence existing = i + 1" using load_sequence [OF load i(1)] i(2) by simp
  from assms(4) have "native_log jc nj' = native_log jc nj"
    by (auto simp: commit_existing_def Let_def log_truncate [OF load] split: sum.split_asm if_split_asm)
  moreover from assms(4) have "(\<exists>e. x = Inl e)
      \<or> x = Inr \<lparr> dc_commit_id = pc_commit_id (je_record existing), dc_sequence = i + 1 \<rparr>"
    by (auto simp: commit_existing_def Let_def seq sync_file_def sync_directory_def bail_if_def
        split: sum.split_asm if_split_asm)
  ultimately show ?thesis
    using i fp by (auto simp: commit_effect_def log)
qed

lemma log_append:
  assumes "load_envelopes_with_boundary jc nj sid = Inr (es, c, p)"
    and "load_envelopes_with_boundary jc (append_line nj sid line) sid = Inr (es @ [env], c', p')"
  shows "native_log jc (append_line nj sid line)
    = (native_log jc nj)(sid := native_log jc nj sid @ [je_record env])"
proof
  fix sid'
  show "native_log jc (append_line nj sid line) sid'
      = ((native_log jc nj)(sid := native_log jc nj sid @ [je_record env])) sid'"
  proof (cases "sid' = sid")
    case True
    then show ?thesis using assms by (simp add: native_log_def)
  next
    case False
    then have "bt_get (nj_files (append_line nj sid line)) sid' = bt_get (nj_files nj) sid'"
      by (simp add: append_line_def Let_def)
    from load_other [OF this, of jc] False show ?thesis by (simp add: native_log_def)
  qed
qed

lemma truncated_whole:
  assumes "load_envelopes_with_boundary jc nj sid = Inr (es, c, p)"
    and "bt_get (nj_files (if p \<noteq> c then truncate_file nj sid c else nj)) sid = Some f"
  shows "complete_part (jf_raw f) = jf_raw f"
  using assms(1)
proof (cases rule: load_cases)
  case 1
  with assms(2) show ?thesis by (auto simp: truncate_file_def split: if_split_asm)
next
  case (2 g prev)
  show ?thesis
  proof (cases "p = c")
    case True
    with 2 assms(2) have "f = g" "length (complete_part (jf_raw g)) = length (jf_raw g)" by auto
    with complete_part_prefix [of "jf_raw g"] show ?thesis by simp
  next
    case False
    with 2 assms(2) show ?thesis
      using complete_part_prefix [of "jf_raw g"] by (auto simp: truncate_file_def)
  qed
qed

lemma commit_new_effect:
  assumes codec: "line_codec_ok jc" and schema: "pc_schema_version r = resident_commit_schema"
    and load: "load_envelopes_with_boundary jc nj (pc_session_id r) = Inr (es, c, p)"
    and step: "commit_new jc nj r es c p = (nj', x)"
  shows "commit_effect jc nj r nj' x"
proof -
  let ?sid = "pc_session_id r"
  let ?prev = "map_option je_hash (last_opt es)"
  let ?n = "length es + 1"
  define env where "env = \<lparr> je_sequence = ?n, je_record = r, je_previous_hash = ?prev,
    je_hash = envelope_hash jc ?n r ?prev \<rparr>"
  define nj1 where "nj1 = (if p \<noteq> c then truncate_file nj ?sid c else nj)"
  have log: "native_log jc nj ?sid = map je_record es" using log_of_load [OF load] .
  have log1: "native_log jc nj1 = native_log jc nj" by (simp add: nj1_def log_truncate [OF load])
  obtain p1 where load1: "load_envelopes_with_boundary jc nj1 ?sid = Inr (es, c, p1)"
    using load_truncate [OF load] load that by (cases "p = c") (auto simp: nj1_def)
  from step consider (refused) e where "x = Inl e" "nj_files nj' = nj_files nj"
    | (written) st where
      "replay_bound (jc_codec jc) (map je_record es @ [r]) ?sid (pc_base_sha256 r) = Inr st"
      "pc_parent_commit_id r = map_option (\<lambda>e. pc_commit_id (je_record e)) (last_opt es)"
      "write_envelope nj r (jc_write_line jc env) ?n c p = (nj', x)"
    by (auto simp: commit_new_def Let_def env_def [symmetric] bail_if_def
        simp del: One_nat_def split: sum.split_asm if_split_asm)
  then show ?thesis
  proof cases
    case refused
    from log_files_cong [OF refused(2)] refused(1) show ?thesis
      by (auto simp: commit_effect_def Let_def)
  next
    case written
    have "\<exists>c' p'. load_envelopes_with_boundary jc (append_line nj1 ?sid (jc_write_line jc env)) ?sid
        = Inr (es @ [env], c', p')"
      by (rule load_append [OF codec load1 _ refl schema env_def written(1)])
        (use truncated_whole [OF load] in \<open>auto simp: nj1_def\<close>)
    then obtain c' p' where "load_envelopes_with_boundary jc
        (append_line nj1 ?sid (jc_write_line jc env)) ?sid = Inr (es @ [env], c', p')" by blast
    from log_append [OF load1 this] have appended:
      "native_log jc (append_line nj1 ?sid (jc_write_line jc env))
        = (native_log jc nj)(?sid := map je_record es @ [r])"
      by (simp add: log1 log env_def)
    have parent: "pc_parent_commit_id r = map_option pc_commit_id (last_opt (map je_record es))"
      using written(2) by (simp add: last_opt_def last_map)
    from written(3) show ?thesis
    proof (cases rule: write_envelope_cases)
      case (1 e)
      then have "native_log jc nj' = native_log jc nj"
        using log_files_cong [of nj' nj1 jc] log1 by (simp add: nj1_def)
      with 1(1) show ?thesis by (simp add: commit_effect_def Let_def)
    next
      case 2
      then have "native_log jc nj' = (native_log jc nj)(?sid := map je_record es @ [r])"
        using log_files_cong [of nj' "append_line nj1 ?sid (jc_write_line jc env)" jc] appended
        by (simp add: nj1_def)
      with 2(2) parent show ?thesis by (auto simp: commit_effect_def log)
    qed
  qed
qed

lemma native_commit_effect:
  assumes "line_codec_ok jc" and "native_commit jc nj r = (nj', x)"
  shows "commit_effect jc nj r nj' x"
  using assms
  by (auto simp: native_commit_def bail_if_def commit_effect_def [of jc nj' r nj' "Inl e" for e]
      intro: commit_existing_effect commit_new_effect
      split: sum.split_asm if_split_asm option.split_asm)

lemma native_log_distinct: "distinct (map pc_request_id (native_log jc nj sid))"
proof (cases "load_envelopes_with_boundary jc nj sid")
  case (Inr a)
  then obtain es c p where load: "load_envelopes_with_boundary jc nj sid = Inr (es, c, p)"
    by (cases a) auto
  from load have "es = [] \<or> is_ok (replay (jc_codec jc) (map je_record es))"
    by (auto elim!: load_cases)
  then have "distinct (map pc_request_id (map je_record es))"
    by (auto simp: is_ok_iff replay_def bind_res_Inr simp del: map_map dest!: replay_bound_requests)
  then show ?thesis by (simp add: native_log_def load)
qed (simp add: native_log_def)

lemma native_reconcile_cases:
  assumes "native_reconcile jc nj sid q fp = (nj', y)"
  shows "native_log jc nj' = native_log jc nj
    \<and> (\<forall>outcome. y = Inr (Committed outcome) \<longrightarrow>
         (\<exists>i. i < length (native_log jc nj sid) \<and> pc_request_id (native_log jc nj sid ! i) = q
            \<and> pc_request_fingerprint (native_log jc nj sid ! i) = fp
            \<and> outcome = \<lparr> dc_commit_id = pc_commit_id (native_log jc nj sid ! i),
                dc_sequence = i + 1 \<rparr>))
    \<and> (y = Inr NotFound \<longrightarrow> q \<notin> set (map pc_request_id (native_log jc nj sid)))"
proof (cases "load_envelopes_with_boundary jc nj sid")
  case (Inl e)
  with assms show ?thesis by (auto simp: native_reconcile_def)
next
  case (Inr a)
  then obtain es c p where load: "load_envelopes_with_boundary jc nj sid = Inr (es, c, p)"
    by (cases a) auto
  have log: "native_log jc nj sid = map je_record es" using log_of_load [OF load] .
  from assms load have same: "native_log jc nj' = native_log jc nj"
    by (auto simp: native_reconcile_def Let_def log_truncate [OF load] split: if_split_asm)
  show ?thesis
  proof (cases "List.find (\<lambda>e. pc_request_id (je_record e) = q) es")
    case None
    with assms load same show ?thesis
      by (auto simp: native_reconcile_def Let_def log find_None bind_res_Inr)
  next
    case (Some entry)
    then obtain i where i: "i < length es" "es ! i = entry" "pc_request_id (je_record entry) = q"
      by (rule find_position)
    have "je_sequence entry = i + 1" using load_sequence [OF load i(1)] i(2) by simp
    with Some assms load same i show ?thesis
      by (auto simp: native_reconcile_def Let_def log bind_res_Inr)
  qed
qed

interpretation native: commit_storage "native_log jc" "native_load jc" "native_commit jc"
  "native_reconcile jc" "\<lambda>_. line_codec_ok jc" for jc :: "'op journal_codec"
proof
  fix s s' :: native_journal and sid q fp and r :: prepared_commit and x y records outcome
  show "records = native_log jc s sid" if "native_load jc s sid = Inr records"
    using that by (auto simp: native_load_def native_log_def bind_res_Inr Let_def)
  show "distinct (map pc_request_id (native_log jc s sid))"
    by (rule native_log_distinct)
  show "native_log jc s' = native_log jc s
      \<or> native_log jc s' = (native_log jc s)(pc_session_id r := native_log jc s (pc_session_id r) @ [r])
        \<and> pc_parent_commit_id r
          = map_option pc_commit_id (last_opt (native_log jc s (pc_session_id r)))"
    if "line_codec_ok jc" "native_commit jc s r = (s', x)"
    using native_commit_effect [OF that] by (auto simp: commit_effect_def Let_def)
  show "\<exists>i e. i < length (native_log jc s' (pc_session_id r))
      \<and> e = native_log jc s' (pc_session_id r) ! i \<and> pc_request_id e = pc_request_id r
      \<and> pc_request_fingerprint e = pc_request_fingerprint r
      \<and> outcome = \<lparr> dc_commit_id = pc_commit_id e, dc_sequence = i + 1 \<rparr>"
    if "line_codec_ok jc" "native_commit jc s r = (s', Inr outcome)"
    using native_commit_effect [OF that] by (auto simp: commit_effect_def Let_def)
  show "line_codec_ok jc \<and> native_log jc s' = native_log jc s"
    if "line_codec_ok jc" "native_reconcile jc s sid q fp = (s', y)"
    using that native_reconcile_cases [OF that(2)] by blast
  show "\<exists>i e. i < length (native_log jc s sid) \<and> e = native_log jc s sid ! i
      \<and> pc_request_id e = q \<and> pc_request_fingerprint e = fp
      \<and> outcome = \<lparr> dc_commit_id = pc_commit_id e, dc_sequence = i + 1 \<rparr>"
    if "native_reconcile jc s sid q fp = (s', Inr (Committed outcome))"
    using native_reconcile_cases [OF that] by auto
  show "q \<notin> set (map pc_request_id (native_log jc s sid))"
    if "native_reconcile jc s sid q fp = (s', Inr NotFound)"
    using native_reconcile_cases [OF that] by auto
qed auto

section \<open>A torn write is no write\<close>

definition raw_of :: "native_journal \<Rightarrow> string \<Rightarrow> string" where
  "raw_of nj sid = (case bt_get (nj_files nj) sid of None \<Rightarrow> [] | Some f \<Rightarrow> jf_raw f)"

lemma complete_part_torn:
  assumes "p = [] \<or> (\<exists>q. p = q @ [CHR 0x0A])" and "CHR 0x0A \<notin> set t"
  shows "complete_part (p @ t) = p"
proof -
  have "dropWhile (\<lambda>c. c \<noteq> CHR 0x0A) (rev t @ rev p) = dropWhile (\<lambda>c. c \<noteq> CHR 0x0A) (rev p)"
    using assms(2) by (intro dropWhile_append2) auto
  with assms(1) show ?thesis by (auto simp: complete_part_def)
qed

lemma complete_part_take_length [simp]: "take (length (complete_part raw)) raw = complete_part raw"
  using complete_part_prefix [of raw] by (rule sym)

lemma complete_part_whole: "length (complete_part raw) = length raw \<Longrightarrow> complete_part raw = raw"
  using complete_part_take_length [of raw] by simp

lemma append_after_truncate:
  assumes load: "load_envelopes_with_boundary jc nj sid = Inr (es, c, p)"
    and files: "nj_files nj' = nj_files (append_line
        (if p \<noteq> c then truncate_file nj sid c else nj) sid line)"
  shows "\<exists>f. bt_get (nj_files nj') sid = Some f \<and> jf_regular f \<and> jf_private f
    \<and> jf_raw f = complete_part (raw_of nj sid) @ line @ [CHR 0x0A]"
  using load
proof (cases rule: load_cases)
  case 1
  then show ?thesis
    by (simp add: files append_line_def truncate_file_def raw_of_def complete_part_def Let_def)
next
  case (2 f prev)
  show ?thesis
  proof (cases "p = c")
    case True
    with 2 have "complete_part (jf_raw f) = jf_raw f" by (intro complete_part_whole) simp
    with 2 True show ?thesis by (simp add: files append_line_def raw_of_def Let_def)
  next
    case False
    with 2 show ?thesis by (simp add: files append_line_def truncate_file_def raw_of_def Let_def)
  qed
qed

lemma commit_appended_file:
  assumes "line_codec_ok jc" and "native_commit jc nj r = (nj', x)"
    and "native_log jc nj' (pc_session_id r) \<noteq> native_log jc nj (pc_session_id r)"
  shows "\<exists>es c p f line. load_envelopes_with_boundary jc nj (pc_session_id r) = Inr (es, c, p)
    \<and> bt_get (nj_files nj') (pc_session_id r) = Some f \<and> jf_regular f \<and> jf_private f
    \<and> jf_raw f = complete_part (raw_of nj (pc_session_id r)) @ line @ [CHR 0x0A]
    \<and> CHR 0x0A \<notin> set line"
proof -
  let ?sid = "pc_session_id r"
  have changed: "nj_files nj' \<noteq> nj_files nj" using assms(3) log_files_cong [of nj' nj jc] by metis
  with assms(2) obtain es c p where load: "load_envelopes_with_boundary jc nj ?sid = Inr (es, c, p)"
    by (auto simp: native_commit_def bail_if_def split: sum.split_asm if_split_asm)
  have trunc: "native_log jc (if p \<noteq> c then truncate_file nj ?sid c else nj) = native_log jc nj"
    by (simp add: log_truncate [OF load])
  have existing: "commit_existing nj ?sid c p e \<noteq> (nj', x)" for e
    using assms(3) trunc by (auto simp: commit_existing_def Let_def split: sum.split_asm)
  with assms(2) load changed have "commit_new jc nj r es c p = (nj', x)"
    by (auto simp: native_commit_def bail_if_def split: if_split_asm option.split_asm)
  with changed obtain env n where
    w: "write_envelope nj r (jc_write_line jc env) n c p = (nj', x)"
    by (auto simp: commit_new_def Let_def bail_if_def split: sum.split_asm if_split_asm)
  from w have "nj_files nj' = nj_files (append_line
      (if p \<noteq> c then truncate_file nj ?sid c else nj) ?sid (jc_write_line jc env))"
  proof (cases rule: write_envelope_cases)
    case (1 e)
    with trunc assms(3) log_files_cong [OF 1(2), of jc] show ?thesis by simp
  qed simp
  from append_after_truncate [OF load this] assms(1) load show ?thesis
    by (auto simp: line_codec_ok_def)
qed

section \<open>A concrete line codec\<close>

text \<open>
  Envelopes are countable, so they have a faithful one-line printer: a fixed short line for
  one chosen envelope and a decimal number for every other.
\<close>

instance json :: countable by countable_datatype
instance resident_transition :: countable by countable_datatype

definition record_key :: "prepared_commit \<Rightarrow> _" where
  "record_key r = (pc_schema_version r, pc_session_id r, pc_commit_id r, pc_parent_commit_id r,
     pc_history_parent_commit_id r, pc_base_sha256 r, pc_request_id r, pc_request_fingerprint r,
     pc_transition r, pc_effects r, pc_resulting_head r, pc_resulting_branch r,
     pc_resulting_branches r, pc_catalog_generation r, pc_state_revision r)"

definition envelope_key :: "journal_envelope \<Rightarrow> nat" where
  "envelope_key e =
     to_nat (je_sequence e, je_previous_hash e, je_hash e, record_key (je_record e))"

lemma envelope_key_inject: "envelope_key e = envelope_key e' \<Longrightarrow> e = e'"
proof -
  assume "envelope_key e = envelope_key e'"
  then have "je_sequence e = je_sequence e'" "je_previous_hash e = je_previous_hash e'"
    "je_hash e = je_hash e'" "record_key (je_record e) = record_key (je_record e')"
    by (simp_all add: envelope_key_def)
  moreover from this(4) have "je_record e = je_record e'" by (simp add: record_key_def)
  ultimately show ?thesis by simp
qed

definition run_line_codec :: "'op codec \<Rightarrow> journal_envelope \<Rightarrow> 'op journal_codec" where
  "run_line_codec cd e0 = \<lparr> jc_codec = cd,
     jc_read_line = (\<lambda>s. if s = ''x'' then Inr e0
        else case parse_unsigned (Suc (digits_val s)) s of
               None \<Rightarrow> Inl (Bail ''expected value'')
             | Some n \<Rightarrow> Inr (inv envelope_key n)),
     jc_write_line = (\<lambda>e. if e = e0 then ''x'' else show_nat (envelope_key e)),
     jc_hash_bytes = (\<lambda>_ r _. pc_commit_id r) \<rparr>"

lemma show_nat_line:
  "CHR 0x0A \<notin> set (show_nat n) \<and> str_trim (show_nat n) \<noteq> [] \<and> last (show_nat n) \<noteq> CHR 0x0D
    \<and> show_nat n \<noteq> ''x''"
proof -
  have digits: "is_digit c" if "c \<in> set (show_nat n)" for c
    using show_nat_digits [of n] that by (simp add: list_all_iff)
  have bad: "\<not> is_digit (CHR 0x0A)" "\<not> is_digit (CHR 0x0D)" "\<not> is_digit CHR ''x''"
    by (simp_all add: is_digit_def ord_of_def)
  have space: "\<not> is_space c" if "is_digit c" for c
    using that by (auto simp: is_digit_def is_space_def)
  obtain c s where cs: "show_nat n = c # s" by (cases "show_nat n") auto
  have c: "is_digit c" "is_digit (last (show_nat n))"
    using digits [of c] digits [of "last (show_nat n)"] cs by auto
  have "str_trim (show_nat n) \<noteq> []"
    using space [OF c(1)] by (auto simp: str_trim_def cs dropWhile_eq_Nil_conv)
  moreover have "CHR 0x0A \<notin> set (show_nat n)" using digits bad(1) by blast
  moreover have "last (show_nat n) \<noteq> CHR 0x0D" using c(2) bad(2) by auto
  moreover have "show_nat n \<noteq> ''x''" using c(1) bad(3) cs by auto
  ultimately show ?thesis by blast
qed

lemma run_line_codec_ok: "line_codec_ok (run_line_codec cd e0)"
  unfolding line_codec_ok_def
proof
  fix e
  have "inv envelope_key (envelope_key e) = e"
    by (rule inv_f_f) (simp add: inj_def envelope_key_inject)
  then show "jc_read_line (run_line_codec cd e0) (jc_write_line (run_line_codec cd e0) e) = Inr e
      \<and> CHR 0x0A \<notin> set (jc_write_line (run_line_codec cd e0) e)
      \<and> str_trim (jc_write_line (run_line_codec cd e0) e) \<noteq> []
      \<and> last (jc_write_line (run_line_codec cd e0) e) \<noteq> CHR 0x0D"
    using show_nat_line [of "envelope_key e"]
    by (simp add: run_line_codec_def) (simp add: str_trim_def is_space_def ord_of_def)
qed

section \<open>A concrete run\<close>

definition first_record :: prepared_commit where
  "first_record = run_record ''c1'' None ''q1'' Mutation
     [run_mutation_effect ''resident:e:0:0'' ''resident:e:1:1'']
     None (Some ''c1'') (Some ''c1'') ''resident:e:1:1''"

definition first_envelope :: journal_envelope where
  "first_envelope = \<lparr> je_sequence = 1, je_record = first_record, je_previous_hash = None,
     je_hash = ''sha256:c1'' \<rparr>"

definition run_journal :: "unit journal_codec" where
  "run_journal = run_line_codec run_codec first_envelope"

definition after_first :: native_journal where
  "after_first = native_open \<lparr> nj_files :=
     [(''s1'', \<lparr> jf_regular = True, jf_private = True, jf_raw = ''x'' @ [CHR 0x0A] \<rparr>)] \<rparr>"

lemma run_journal_ok: "line_codec_ok run_journal"
  by (simp add: run_journal_def run_line_codec_ok)

lemma first_replay: "\<exists>st. replay_bound run_codec [first_record] ''s1'' ''b'' = Inr st"
proof -
  have "replay_bound run_codec ([first_record] @ run_stream ! 1 # [run_stream ! 2]) ''s1'' ''b''
      = Inr (rs_history run_result)"
    using run_replay by (simp add: run_stream_def first_record_def)
  then show ?thesis by (rule replay_bound_cut) (auto simp: replay_bound_accepts)
qed

lemma session_s1: "session_path_ok ''s1''"
  by (simp add: session_path_ok_def str_eval)

lemma first_commit:
  "native_commit run_journal native_open first_record
    = (after_first, Inr \<lparr> dc_commit_id = ''c1'', dc_sequence = 1 \<rparr>)"
proof -
  obtain st where "replay_bound run_codec [first_record] ''s1'' ''b'' = Inr st"
    using first_replay by blast
  moreover have "pc_session_id first_record = ''s1''" "pc_base_sha256 first_record = ''b''"
    "pc_parent_commit_id first_record = None" "pc_commit_id first_record = ''c1''"
    "pc_schema_version first_record = resident_commit_schema"
    by (simp_all add: first_record_def run_record_def resident_commit_schema_def)
  moreover have "run_codec = jc_codec run_journal"
    by (simp add: run_journal_def run_line_codec_def)
  moreover have "envelope_hash run_journal (Suc 0) first_record None = ''sha256:c1''"
    by (simp add: envelope_hash_def run_journal_def run_line_codec_def run_codec_def
        plain_codec_def first_record_def run_record_def)
  moreover have "jc_write_line run_journal first_envelope = ''x''"
    by (simp add: run_journal_def run_line_codec_def)
  ultimately show ?thesis
    by (simp add: native_commit_def load_envelopes_with_boundary_def session_s1 native_open_def
        validate_private_file_def commit_new_def Let_def u64_checked_add_def write_envelope_def
        append_line_def sync_file_def sync_directory_def after_first_def
        first_envelope_def)
qed

lemma after_first_load:
  "load_envelopes_with_boundary run_journal after_first ''s1'' = Inr ([first_envelope], 2, 2)"
proof -
  obtain st where st: "replay_bound run_codec [first_record] ''s1'' ''b'' = Inr st"
    using first_replay by blast
  have lines: "complete_part (''x'' @ [CHR 0x0A]) = ''x'' @ [CHR 0x0A]"
    "journal_lines (''x'' @ [CHR 0x0A]) = [''x'']"
    by (simp_all add: complete_part_def journal_lines_def strip_cr_def str_eval)
  have f: "bt_get (nj_files after_first) ''s1'' =
      Some \<lparr> jf_regular = True, jf_private = True, jf_raw = ''x'' @ [CHR 0x0A] \<rparr>"
    by (simp add: after_first_def bt_get_def)
  have "load_line run_journal ''s1'' ([], None) ''x'' = Inr ([first_envelope], Some ''sha256:c1'')"
    by (simp add: load_line_def run_journal_def run_line_codec_def first_envelope_def
        envelope_hash_def run_codec_def plain_codec_def first_record_def run_record_def
        resident_commit_schema_def str_eval)
  then have "entries_of run_journal ''s1'' (''x'' @ [CHR 0x0A])
      = Inr ([first_envelope], Some ''sha256:c1'')"
    by (simp only: entries_of_def lines fold_res.simps bind_res_simps)
  moreover have "is_ok (replay (jc_codec run_journal) (map je_record [first_envelope]))"
    using st by (simp add: replay_def run_journal_def run_line_codec_def first_envelope_def)
      (simp add: first_record_def run_record_def)
  ultimately show ?thesis
    using load_intro [OF f, of run_journal] session_s1 lines(1) by simp
qed

lemma after_first_ok:
  "validate_private_file after_first ''s1'' = Inr ()" "sync_file after_first = Inr ()"
  "sync_directory after_first = Inr ()"
  by (simp_all add: validate_private_file_def sync_file_def sync_directory_def after_first_def
      native_open_def bt_get_def)

lemma first_retry:
  "\<exists>nj3 outcome. native_commit run_journal after_first first_record = (nj3, Inr outcome)"
proof -
  have "pc_session_id first_record = ''s1''" "pc_base_sha256 first_record = ''b''"
    "pc_schema_version first_record = resident_commit_schema" "je_record first_envelope = first_record"
    by (simp_all add: first_record_def run_record_def resident_commit_schema_def first_envelope_def)
  then show ?thesis
    by (simp add: native_commit_def after_first_load commit_existing_def after_first_ok Let_def)
qed

section \<open>Properties of the journals\<close>

text \<open>C4: a commit takes effect at most once. Once the native journal has acknowledged a
  request of a session, every later acknowledged commit of the same request, whatever commits,
  failures and reconciliations happened in between, returns the same commit identity and
  sequence.\<close>

theorem native_exactly_once:
  assumes "line_codec_ok jc" and "native_commit jc nj r = (nj1, Inr first)"
    and "storage_reaches (native_commit jc) (native_reconcile jc) nj1 nj2"
    and "native_commit jc nj2 r' = (nj3, Inr second)"
    and "pc_session_id r' = pc_session_id r" and "pc_request_id r' = pc_request_id r"
  shows "second = first"
  using assms by (rule native.retry_same_outcome)

lemma native_exactly_once_witness:
  "\<exists>nj1 nj3 outcome. native_commit run_journal native_open first_record = (nj1, Inr outcome)
    \<and> native_commit run_journal nj1 first_record = (nj3, Inr outcome)"
proof -
  obtain nj3 outcome where retry:
    "native_commit run_journal after_first first_record = (nj3, Inr outcome)"
    using first_retry by blast
  have "outcome = \<lparr> dc_commit_id = ''c1'', dc_sequence = 1 \<rparr>"
    using native_exactly_once [OF run_journal_ok first_commit reaches_refl retry] by simp
  with first_commit retry show ?thesis by blast
qed

text \<open>C9: an uncertain commit can be settled. Whatever the commit answered, an error after the
  write included, a later answer of reconcile tells the truth about the log: not found means
  that no record of the request is there, committed means that the log holds a record with this
  request and fingerprint at exactly the reported position, and an acknowledged commit is never
  reported as anything else.\<close>

theorem native_reconcile_truthful:
  assumes "line_codec_ok jc" and "native_commit jc nj r = (nj1, x)"
    and "storage_reaches (native_commit jc) (native_reconcile jc) nj1 nj2"
    and "native_reconcile jc nj2 (pc_session_id r) (pc_request_id r) fp = (nj3, Inr answer)"
  shows "(answer = NotFound \<longrightarrow>
      pc_request_id r \<notin> set (map pc_request_id (native_log jc nj3 (pc_session_id r))))
    \<and> (\<forall>outcome. answer = Committed outcome \<longrightarrow>
        (\<exists>i e. i < length (native_log jc nj3 (pc_session_id r))
          \<and> e = native_log jc nj3 (pc_session_id r) ! i \<and> pc_request_id e = pc_request_id r
          \<and> pc_request_fingerprint e = fp
          \<and> outcome = \<lparr> dc_commit_id = pc_commit_id e, dc_sequence = i + 1 \<rparr>))
    \<and> (\<forall>first. x = Inr first \<longrightarrow> answer = Committed first)"
proof -
  have same: "native_log jc nj3 = native_log jc nj2"
    using native.reconcile_inv [OF assms(1,4)] by blast
  show ?thesis
    using native.reconcile_not_found [OF assms(1)] native.reconcile_committed [OF assms(1)]
      native.reconcile_after_commit [OF assms(1) _ assms(3,4)] assms(2,4)
    unfolding same by blast
qed

lemma native_reconcile_truthful_witness:
  "\<exists>nj3. native_reconcile run_journal after_first ''s1'' ''q1'' ''fp''
    = (nj3, Inr (Committed \<lparr> dc_commit_id = ''c1'', dc_sequence = 1 \<rparr>))"
proof -
  have r: "pc_session_id first_record = ''s1''" "pc_request_id first_record = ''q1''"
    "pc_request_fingerprint first_record = ''fp''" "je_record first_envelope = first_record"
    by (simp_all add: first_record_def run_record_def first_envelope_def)
  have "\<exists>answer. snd (native_reconcile run_journal after_first ''s1'' ''q1'' ''fp'') = Inr answer"
    by (auto simp: native_reconcile_def after_first_load Let_def r after_first_ok)
  then obtain nj3 answer where a: "native_reconcile run_journal after_first ''s1'' ''q1'' ''fp''
      = (nj3, Inr answer)" by (metis prod.collapse)
  from native_reconcile_truthful [OF run_journal_ok first_commit reaches_refl, of "''fp''" nj3 answer] a
  show ?thesis by (simp add: r)
qed

text \<open>C8: the append of a record is atomic under a crash. When a commit adds its record to the
  log, every file that a crash can leave behind, that is the new file cut anywhere after the
  old complete lines, still reads as the old log: the record is there with its last byte and
  not before, and a torn tail never makes the journal unreadable.\<close>

theorem native_crash_atomic:
  assumes "line_codec_ok jc" and "native_commit jc nj r = (nj', x)"
    and "native_log jc nj' (pc_session_id r) \<noteq> native_log jc nj (pc_session_id r)"
    and "length (complete_part (raw_of nj (pc_session_id r))) \<le> n"
    and "n < length (raw_of nj' (pc_session_id r))"
  shows "native_log jc (truncate_file nj' (pc_session_id r) n) (pc_session_id r)
    = native_log jc nj (pc_session_id r)"
proof -
  let ?sid = "pc_session_id r"
  let ?old = "complete_part (raw_of nj ?sid)"
  obtain es c p f line where load: "load_envelopes_with_boundary jc nj ?sid = Inr (es, c, p)"
    and f: "bt_get (nj_files nj') ?sid = Some f" "jf_regular f" "jf_private f"
    and raw: "jf_raw f = ?old @ line @ [CHR 0x0A]" and line: "CHR 0x0A \<notin> set line"
    using commit_appended_file [OF assms(1-3)] by blast
  from assms(4,5) f(1) raw have "take n (jf_raw f) = ?old @ take (n - length ?old) line"
    by (simp add: raw_of_def)
  moreover have "CHR 0x0A \<notin> set (take (n - length ?old) line)"
    using line by (auto dest: in_set_takeD)
  ultimately have torn: "complete_part (take n (jf_raw f)) = ?old"
    using complete_part_torn [OF complete_part_shape] by simp
  let ?cut = "f \<lparr> jf_raw := take n (jf_raw f) \<rparr>"
  have cut: "bt_get (nj_files (truncate_file nj' ?sid n)) ?sid = Some ?cut"
    by (simp add: truncate_file_def f(1))
  have old: "\<exists>prev. entries_of jc ?sid (raw_of nj ?sid) = Inr (es, prev)"
    and ok: "es = [] \<or> is_ok (replay (jc_codec jc) (map je_record es))"
    and path: "session_path_ok ?sid"
    using load by (auto elim!: load_cases
        simp: raw_of_def entries_of_def complete_part_def journal_lines_def)
  then obtain prev where "entries_of jc ?sid (jf_raw ?cut) = Inr (es, prev)"
    by (auto simp: entries_of_def torn)
  from load_intro [OF cut _ _ path this ok] f(2,3) load show ?thesis
    by (simp add: native_log_def)
qed

lemma native_crash_atomic_witness:
  "native_log run_journal (truncate_file after_first ''s1'' 1) ''s1'' = []"
proof -
  have r: "pc_session_id first_record = ''s1''"
    by (simp add: first_record_def run_record_def)
  have before: "native_log run_journal native_open ''s1'' = []"
    by (simp add: native_log_def load_envelopes_with_boundary_def session_s1 native_open_def
        validate_private_file_def)
  have "native_log run_journal after_first ''s1'' = [first_record]"
    by (simp add: native_log_def after_first_load first_envelope_def)
  then show ?thesis
    using native_crash_atomic [OF run_journal_ok first_commit, of 1] before
    by (simp add: r raw_of_def native_open_def complete_part_def) (simp add: after_first_def bt_get_def)
qed

text \<open>Two clients that prepared a commit on the same tip cannot both append: once one of
  them is in the log, the commit of the other leaves every log as it is.\<close>

theorem native_competing_commits:
  assumes "line_codec_ok jc" and "native_commit jc nj r = (nj1, x)"
    and "native_log jc nj1 (pc_session_id r) = native_log jc nj (pc_session_id r) @ [r]"
    and "native_commit jc nj1 r' = (nj2, y)" and "pc_session_id r' = pc_session_id r"
    and "pc_parent_commit_id r' = pc_parent_commit_id r"
    and "pc_parent_commit_id r \<noteq> Some (pc_commit_id r)"
  shows "native_log jc nj2 = native_log jc nj1"
  using assms by (rule native.competing_commit)

lemma native_competing_commits_witness:
  "\<exists>nj2 y. native_commit run_journal after_first (first_record \<lparr> pc_request_id := ''q9'' \<rparr>) = (nj2, y)
    \<and> native_log run_journal nj2 ''s1'' = [first_record]"
proof -
  have r: "pc_session_id first_record = ''s1''" "pc_parent_commit_id first_record = None"
    by (simp_all add: first_record_def run_record_def)
  have before: "native_log run_journal native_open ''s1'' = []"
    by (simp add: native_log_def load_envelopes_with_boundary_def session_s1 native_open_def
        validate_private_file_def)
  have after: "native_log run_journal after_first ''s1'' = [first_record]"
    by (simp add: native_log_def after_first_load first_envelope_def)
  obtain nj2 y where c: "native_commit run_journal after_first
      (first_record \<lparr> pc_request_id := ''q9'' \<rparr>) = (nj2, y)" by fastforce
  have "native_log run_journal nj2 = native_log run_journal after_first"
    by (rule native_competing_commits [OF run_journal_ok first_commit _ c]) (simp_all add: r before after)
  with c after show ?thesis by auto
qed

text \<open>The volatile journal keeps the same contract: an acknowledged request is acknowledged
  again with the same commit identity and sequence.\<close>

theorem memory_exactly_once:
  assumes "memory_inv cd mj" and "memory_commit cd json_len mj r = (mj1, Inr first)"
    and "storage_reaches (memory_commit cd json_len) memory_reconcile mj1 mj2"
    and "memory_commit cd json_len mj2 r' = (mj3, Inr second)"
    and "pc_session_id r' = pc_session_id r" and "pc_request_id r' = pc_request_id r"
  shows "second = first"
  using assms by (rule memory.retry_same_outcome)

lemma memory_exactly_once_witness:
  "\<exists>mj1 mj3 outcome. memory_commit run_codec (\<lambda>_. 5) (memory_new ''s1'' ''b'') first_record
      = (mj1, Inr outcome)
    \<and> memory_commit run_codec (\<lambda>_. 5) mj1 first_record = (mj3, Inr outcome)"
proof -
  let ?mj = "memory_new ''s1'' ''b''"
  let ?mj1 = "?mj \<lparr> mj_records := [first_record], mj_bytes := 8 \<rparr>"
  have inv: "memory_inv run_codec ?mj"
    by (simp add: memory_inv_def memory_new_def replay_bound_def)
  have r: "pc_session_id first_record = ''s1''"
    by (simp add: first_record_def run_record_def)
  have first: "memory_commit run_codec (\<lambda>_. 5) ?mj first_record
      = (?mj1, Inr \<lparr> dc_commit_id = pc_commit_id first_record, dc_sequence = 1 \<rparr>)"
    using first_replay
    by (auto simp: memory_commit_def memory_bound_def memory_reconcile_def memory_new_def r Let_def)
  obtain mj3 second where retry:
    "memory_commit run_codec (\<lambda>_. 5) ?mj1 first_record = (mj3, Inr second)"
    by (simp add: memory_commit_def memory_bound_def memory_reconcile_def memory_new_def r)
  from memory_exactly_once [OF inv first reaches_refl retry] first retry show ?thesis by auto
qed

end
