(* ===== verification/Csv.thy ===== *)
theory Csv
  imports Json
begin

text \<open>
  Delimited text. Two readers (\<open>csv_records\<close> of \<open>canonical_write.rs\<close>, for the operation
  \<open>import_csv\<close>, and \<open>parse_csv_records\<close> of \<open>cli/commands/write.rs\<close>) and two writers
  (\<open>csv_escape_field\<close>/\<open>push_csv_row\<close> of \<open>tools/mod.rs\<close> and \<open>escape_csv\<close> of
  \<open>core/session.rs\<close>), and the typing of a field. The locale \<open>csv_reader\<close> is what a reader has to
  do so that the text of the writers reads back; both readers do it.
\<close>

abbreviation quote :: char where "quote \<equiv> CHR 0x22"
abbreviation newline :: char where "newline \<equiv> CHR 0x0A"
abbreviation creturn :: char where "creturn \<equiv> CHR 0x0D"

section \<open>Readers\<close>

fun csv_finish :: "string \<Rightarrow> string list \<Rightarrow> string list list \<Rightarrow> string list list" where
  "csv_finish field row records =
     (if field \<noteq> [] \<or> row \<noteq> [] then records @ [row @ [field]] else records)"

fun csv_scan ::
    "bool \<Rightarrow> string \<Rightarrow> string list \<Rightarrow> string list list \<Rightarrow> string \<Rightarrow> string list list res" where
  "csv_scan quoted field row records [] =
     bail_if quoted ''unterminated quoted CSV field'' (Inr (csv_finish field row records))"
| "csv_scan True field row records (ch # chars) =
     (if ch = quote then
        (case chars of
           c # rest \<Rightarrow>
             if c = quote then csv_scan True (field @ [quote]) row records rest
             else csv_scan False field row records chars
         | [] \<Rightarrow> csv_scan False field row records [])
      else csv_scan True (field @ [ch]) row records chars)"
| "csv_scan False field row records (ch # chars) =
     (if ch = quote \<and> field = [] then csv_scan True field row records chars
      else if ch = CHR '','' then csv_scan False [] (row @ [field]) records chars
      else if ch = newline then csv_scan False [] [] (records @ [row @ [field]]) chars
      else if ch = creturn then
        (if first_opt chars = Some newline then csv_scan False field row records chars
         else csv_scan False [] [] (records @ [row @ [field]]) chars)
      else csv_scan False (field @ [ch]) row records chars)"

definition csv_records :: "string \<Rightarrow> string list list res" where
  "csv_records raw = csv_scan False [] [] [] raw"

fun cli_csv_scan ::
    "bool \<Rightarrow> string \<Rightarrow> string list \<Rightarrow> string list list \<Rightarrow> string \<Rightarrow> string list list res" where
  "cli_csv_scan in_quotes field row records [] =
     bail_if in_quotes ''unterminated quoted field'' (Inr (csv_finish field row records))"
| "cli_csv_scan True field row records (ch # chars) =
     (if ch = quote then
        (case chars of
           c # rest \<Rightarrow>
             if c = quote then cli_csv_scan True (field @ [quote]) row records rest
             else cli_csv_scan False field row records chars
         | [] \<Rightarrow> cli_csv_scan False field row records [])
      else cli_csv_scan True (field @ [ch]) row records chars)"
| "cli_csv_scan False field row records (ch # chars) =
     (if ch = quote then cli_csv_scan True field row records chars
      else if ch = CHR '','' then cli_csv_scan False [] (row @ [field]) records chars
      else if ch = newline then cli_csv_scan False [] [] (records @ [row @ [field]]) chars
      else if ch = creturn then
        (case chars of
           c # rest \<Rightarrow>
             if c = newline then cli_csv_scan False [] [] (records @ [row @ [field]]) rest
             else cli_csv_scan False [] [] (records @ [row @ [field]]) chars
         | [] \<Rightarrow> cli_csv_scan False [] [] (records @ [row @ [field]]) [])
      else cli_csv_scan False (field @ [ch]) row records chars)"

definition parse_csv_records :: "string \<Rightarrow> string list list res" where
  "parse_csv_records raw = cli_csv_scan False [] [] [] raw"

section \<open>The type of a field\<close>

definition eq_ignore_ascii_case :: "string \<Rightarrow> string \<Rightarrow> bool" where
  "eq_ignore_ascii_case a b = (map to_lower a = map to_lower b)"

text \<open>\<open>str::parse::<i64>\<close>: an optional sign and decimal digits within the range.\<close>

definition parse_i64 :: "string \<Rightarrow> int option" where
  "parse_i64 s =
     (case s of
        [] \<Rightarrow> None
      | c # cs \<Rightarrow>
          let neg = (c = CHR ''-''); digits = (if c = CHR ''-'' \<or> c = CHR ''+'' then cs else s)
          in if digits = [] \<or> \<not> list_all is_digit digits then None
             else let n = foldl (\<lambda>a d. a * 10 + (int (ord_of d) - 48)) 0 digits;
                      v = (if neg then - n else n)
                  in if - (2 ^ 63) \<le> v \<and> v < 2 ^ 63 then Some v else None)"

text \<open>\<open>parse_f64\<close> is the standard library's float parser: \<open>Some (Some t)\<close> is a finite number with its
  text, \<open>Some None\<close> a number that is not finite (\<open>inf\<close>, \<open>nan\<close>), whose JSON is null.\<close>

definition float_json :: "string option \<Rightarrow> json" where
  "float_json x = (case x of None \<Rightarrow> JNull | Some t \<Rightarrow> JFloat t)"

definition csv_value :: "(string \<Rightarrow> string option option) \<Rightarrow> string \<Rightarrow> json" where
  "csv_value parse_f64 s =
     (if s = [] then JNull
      else if eq_ignore_ascii_case s ''true'' then JBool True
      else if eq_ignore_ascii_case s ''false'' then JBool False
      else case parse_i64 s of
             Some n \<Rightarrow> JInt n
           | None \<Rightarrow> (case parse_f64 s of Some x \<Rightarrow> float_json x | None \<Rightarrow> JStr s))"

definition csv_field_to_json :: "(string \<Rightarrow> string option option) \<Rightarrow> string \<Rightarrow> json" where
  "csv_field_to_json parse_f64 field =
     (let trimmed = str_trim field in
      if trimmed = [] then JNull
      else if eq_ignore_ascii_case trimmed ''true'' then JBool True
      else if eq_ignore_ascii_case trimmed ''false'' then JBool False
      else case parse_i64 trimmed of
             Some n \<Rightarrow> JInt n
           | None \<Rightarrow> (case parse_f64 trimmed of Some x \<Rightarrow> float_json x | None \<Rightarrow> JStr field))"

section \<open>Writers\<close>

definition csv_special :: "string \<Rightarrow> bool" where
  "csv_special s = list_ex (\<lambda>c. c \<in> {CHR '','', quote, newline, creturn}) s"

definition double_quotes :: "string \<Rightarrow> string" where
  "double_quotes s = concat (map (\<lambda>c. if c = quote then [quote, c] else [c]) s)"

definition csv_escape_field :: "string \<Rightarrow> string" where
  "csv_escape_field field =
     (if csv_special field then [quote] @ double_quotes field @ [quote] else field)"

definition push_csv_row :: "string \<Rightarrow> string list \<Rightarrow> string" where
  "push_csv_row buffer fields = buffer @ join_with '','' (map csv_escape_field fields) @ [newline]"

datatype cell_value = CvText string | CvNumber string | CvBool bool | CvError string | CvDate string

text \<open>\<open>CellValue\<close> with the printed text of a number.\<close>

fun cell_value_to_plain_string :: "cell_value \<Rightarrow> string" where
  "cell_value_to_plain_string (CvText s) = s"
| "cell_value_to_plain_string (CvNumber n) = n"
| "cell_value_to_plain_string (CvBool b) = (if b then ''true'' else ''false'')"
| "cell_value_to_plain_string (CvError e) = e"
| "cell_value_to_plain_string (CvDate d) = d"

type_synonym table_row = "cell_value option btree"

definition table_rows_to_csv :: "string list \<Rightarrow> table_row list \<Rightarrow> bool \<Rightarrow> string" where
  "table_rows_to_csv headers rows include_headers =
     foldl (\<lambda>csv row. push_csv_row csv
         (map (\<lambda>header. case bt_get row header of
                 Some (Some v) \<Rightarrow> cell_value_to_plain_string v | _ \<Rightarrow> []) headers))
       (if include_headers then push_csv_row [] headers else []) rows"

fun build_csv_cell :: "cell_value option \<Rightarrow> string" where
  "build_csv_cell (Some (CvText s)) = csv_escape_field s"
| "build_csv_cell (Some (CvNumber n)) = n"
| "build_csv_cell (Some (CvBool b)) = (if b then ''true'' else ''false'')"
| "build_csv_cell (Some (CvError e)) = csv_escape_field e"
| "build_csv_cell (Some (CvDate d)) = csv_escape_field d"
| "build_csv_cell None = []"

definition build_csv_payload ::
    "string list \<Rightarrow> cell_value option list list \<Rightarrow> bool \<Rightarrow> string" where
  "build_csv_payload headers rows include_headers =
     (if include_headers then join_with '','' (map csv_escape_field headers) @ [newline] else [])
     @ concat (map (\<lambda>row. join_with '','' (map build_csv_cell row) @ [newline]) rows)"

section \<open>What a reader has to do\<close>

locale csv_reader =
  fixes scan :: "bool \<Rightarrow> string \<Rightarrow> string list \<Rightarrow> string list list \<Rightarrow> string \<Rightarrow> string list list res"
  assumes scan_end: "scan False [] [] records [] = Inr records"
    and scan_comma: "scan False field row records (CHR '','' # cs)
        = scan False [] (row @ [field]) records cs"
    and scan_newline: "scan False field row records (newline # cs)
        = scan False [] [] (records @ [row @ [field]]) cs"
    and scan_plain: "c \<notin> {CHR '','', quote, newline, creturn} \<Longrightarrow>
        scan False field row records (c # cs) = scan False (field @ [c]) row records cs"
    and scan_open: "scan False [] row records (quote # cs) = scan True [] row records cs"
    and scan_inside: "c \<noteq> quote \<Longrightarrow>
        scan True field row records (c # cs) = scan True (field @ [c]) row records cs"
    and scan_doubled: "scan True field row records (quote # quote # cs)
        = scan True (field @ [quote]) row records cs"
    and scan_close: "c \<noteq> quote \<Longrightarrow>
        scan True field row records (quote # c # cs) = scan False field row records (c # cs)"
begin

lemma scan_unquoted:
  "\<not> csv_special s \<Longrightarrow> scan False field row records (s @ cs) = scan False (field @ s) row records cs"
  by (induction s arbitrary: field) (auto simp: csv_special_def scan_plain)

lemma scan_quoted:
  "c \<noteq> quote \<Longrightarrow> scan True field row records (double_quotes s @ quote # c # cs)
     = scan False (field @ s) row records (c # cs)"
proof (induction s arbitrary: field)
  case Nil
  then show ?case by (simp add: double_quotes_def scan_close)
next
  case (Cons a s)
  then show ?case by (cases "a = quote") (simp_all add: double_quotes_def scan_doubled scan_inside)
qed

lemma scan_field:
  "c \<noteq> quote \<Longrightarrow> scan False [] row records (csv_escape_field s @ c # cs)
     = scan False s row records (c # cs)"
  using scan_unquoted [of s "[]"] scan_quoted [of c "[]"]
  by (simp add: csv_escape_field_def scan_open)

lemma scan_row:
  "fields \<noteq> [] \<Longrightarrow>
   scan False [] row records (join_with '','' (map csv_escape_field fields) @ newline # cs)
     = scan False [] [] (records @ [row @ fields]) cs"
proof (induction fields arbitrary: row)
  case (Cons f fields)
  show ?case
  proof (cases fields)
    case Nil
    then show ?thesis by (simp add: scan_field scan_newline)
  next
    case (Cons g gs)
    then show ?thesis using Cons.IH by (simp add: scan_field scan_comma)
  qed
qed simp

lemma scan_rows:
  "\<forall>fields \<in> set rows. fields \<noteq> [] \<Longrightarrow>
   scan False [] [] records (concat (map (push_csv_row []) rows)) = Inr (records @ rows)"
  by (induction rows arbitrary: records) (simp_all add: push_csv_row_def scan_end scan_row)

end

interpretation lib_csv: csv_reader csv_scan
  by unfold_locales auto

interpretation cli_csv: csv_reader cli_csv_scan
  by unfold_locales auto

section \<open>What the program writes, it reads back\<close>

definition plain_row :: "string list \<Rightarrow> table_row \<Rightarrow> string list" where
  "plain_row headers row =
     map (\<lambda>header. case bt_get row header of
         Some (Some v) \<Rightarrow> cell_value_to_plain_string v | _ \<Rightarrow> []) headers"

lemma push_csv_row_append: "push_csv_row buffer fields = buffer @ push_csv_row [] fields"
  by (simp add: push_csv_row_def)

lemma table_rows_to_csv_rows:
  "table_rows_to_csv headers rows include_headers = concat (map (push_csv_row [])
     ((if include_headers then [headers] else []) @ map (plain_row headers) rows))"
proof -
  have "foldl (\<lambda>csv row. push_csv_row csv (plain_row headers row)) acc rows
      = acc @ concat (map (push_csv_row []) (map (plain_row headers) rows))" for acc
    by (induction rows arbitrary: acc) (simp_all add: push_csv_row_append [of "_ @ _"] push_csv_row_def)
  then show ?thesis by (simp add: table_rows_to_csv_def plain_row_def)
qed

text \<open>C39: a table exported as delimited text is read back field by field, by the reader of the
  write operation \<open>import_csv\<close> as well as by that of the command line, whatever separators,
  quotes and line breaks its texts contain.\<close>

theorem table_csv_roundtrip:
  assumes "headers \<noteq> []"
  shows "csv_records (table_rows_to_csv headers rows True)
      = Inr (headers # map (plain_row headers) rows)
    \<and> parse_csv_records (table_rows_to_csv headers rows True)
      = Inr (headers # map (plain_row headers) rows)"
proof -
  let ?all = "headers # map (plain_row headers) rows"
  have "\<forall>fields \<in> set ?all. fields \<noteq> []" using assms by (auto simp: plain_row_def)
  from lib_csv.scan_rows [OF this] cli_csv.scan_rows [OF this] show ?thesis
    by (simp add: table_rows_to_csv_rows csv_records_def parse_csv_records_def)
qed

theorem table_csv_roundtrip_witness:
  "csv_records (table_rows_to_csv [''a'', ''b''] [[(''a'', Some (CvText [quote, CHR '','', newline]))]] True)
     = Inr [[''a'', ''b''], [[quote, CHR '','', newline], []]]"
  using table_csv_roundtrip [of "[''a'', ''b'']" "[[(''a'', Some (CvText [quote, CHR '','', newline]))]]"]
  by (simp add: plain_row_def bt_get_def)

text \<open>The two readers differ on a quote inside an unquoted field, which no writer produces.\<close>

lemma readers_differ:
  "csv_records [CHR ''a'', quote, CHR ''b''] = Inr [[[CHR ''a'', quote, CHR ''b'']]]
   \<and> parse_csv_records [CHR ''a'', quote, CHR ''b''] = Inl (Bail ''unterminated quoted field'')"
  by (simp add: csv_records_def parse_csv_records_def)

text \<open>A last record that is one quoted empty field is lost when no line break follows.\<close>

lemma lone_empty_field_lost:
  "csv_records [quote, quote] = Inr [] \<and> csv_records [quote, quote, newline] = Inr [[[]]]"
  by (simp add: csv_records_def)

text \<open>A text that the float parser reads as infinite or not a number becomes null.\<close>

lemma nonfinite_text_null:
  assumes "parse_f64 ''inf'' = Some None"
  shows "csv_value parse_f64 ''inf'' = JNull"
  using assms by (simp add: csv_value_def eq_ignore_ascii_case_def to_lower_def is_upper_def ord_of_def
      parse_i64_def is_digit_def float_json_def)

end
