(* ===== verification/WriteOps.thy ===== *)
theory WriteOps
  imports Complex_Main Addresses Csv ResidentTypes
begin

text \<open>
  The operations of a canonical write (\<open>canonical_write.rs\<close>, with the operation types it takes
  from \<open>tools/fork.rs\<close>, \<open>tools/sheet_layout.rs\<close> and \<open>tools/rules_batch.rs\<close>): their data, kinds
  and risks. Their validation is in the theory \<open>WriteValidate\<close>.

  A 64-bit float is a rational or not finite, which is all the validation looks at. Style
  patches and the JSON values of cells are passed through. The formula parser, the regular
  expression compiler, the column index of the spreadsheet library, and \<open>serde\<close>'s writers of a
  request and of an operation are the parameter \<open>write_lib\<close>.
\<close>

section \<open>Data\<close>

datatype f64 = Finite rat | NonFinite

datatype cell_value_primitive = PrimText string | PrimNumber f64 | PrimBool bool

datatype cell_content = ContentValue cell_value_primitive | ContentFormula string

record set_cells_op =
  sc_sheet_name :: string
  sc_cells :: "cell_content btree"
  sc_overwrite_formulas :: bool

datatype canonical_structure_op =
    MergeCells string string
  | UnmergeCells string string
  | InsertRows string u32 u32 bool
  | DeleteRows string u32 u32
  | InsertCols string string u32
  | DeleteCols string string u32
  | RenameSheet string string
  | CreateSheet string "u32 option"
  | DeleteSheet string
  | CopyRange string "string option" string string bool bool
  | MoveRange string "string option" string string bool bool

datatype style_target = StyleRange string | StyleRegion u32 | StyleCells "string list"

datatype style_patch_mode = PatchMerge | PatchSet | PatchClear

datatype style_write_op = Style string style_target json "style_patch_mode option"

datatype column_target = Columns string

datatype column_size_spec = AutoWidth "f64 option" "f64 option" | Width f64

datatype column_write_op = ColumnSize string column_target column_size_spec

datatype fill_direction = FillDown | FillRight | FillBoth

datatype formula_relative_mode = ModeExcel | ModeAbsCols | ModeAbsRows

datatype formula_write_op =
    FormulaPattern string string string string "fill_direction option" "formula_relative_mode option"
  | ReplaceInFormulas string string string "string option" bool bool

datatype name_scope = ScopeWorkbook | ScopeSheet

datatype name_write_op =
    DefineName string string name_scope "string option"
  | UpdateName string "string option" "name_scope option" "string option"
  | DeleteName string "name_scope option" "string option"

datatype matrix_cell = MatrixValue json | MatrixFormula string

record grid_column_hint =
  gh_offset :: u32
  gh_width_chars :: f64

record grid_cell =
  gc_row_offset :: u32
  gc_col_offset :: u32
  gc_v :: "json option"
  gc_f :: "string option"
  gc_fmt :: "string option"
  gc_style :: "json option"

record grid_payload =
  gp_sheet :: string
  gp_anchor :: string
  gp_columns :: "grid_column_hint list"
  gp_merges :: "string list"
  gp_rows :: "grid_cell list list"

datatype append_footer_policy = FooterAuto | BeforeFooter | AppendAtEnd

datatype clone_patch_targets = LikelyInputs | AllNonFormula | NoTargets

datatype clone_merge_policy = MergeSafe | MergeStrict

text \<open>The anchors of a clone are the rows \<open>before\<close>, \<open>after\<close> and \<open>insert_at\<close>.\<close>

datatype import_and_helper_op =
    ImportGrid string string grid_payload bool
  | ImportCsv string string string bool bool
  | AppendRows string "u32 option" "string option" "matrix_cell option list list" append_footer_policy
  | CloneRow string u32 "u32 option" "u32 option" "u32 option" u32 bool clone_patch_targets
      clone_merge_policy
  | CloneRowBand string string "u32 option" "u32 option" "u32 option" u32 bool clone_patch_targets
      clone_merge_policy

datatype transform_target = TargetRange string | TargetRegion u32 | TargetCells "string list"

datatype replace_match_mode = MatchExact | MatchContains

datatype transform_op =
    ClearRange string transform_target bool bool
  | FillRange string transform_target string bool bool
  | ReplaceInRange string transform_target string string replace_match_mode bool bool
  | WriteMatrix string string "matrix_cell option list list" bool

datatype page_orientation = Portrait | Landscape

datatype sheet_layout_op =
    FreezePanes string u32 u32 "string option"
  | SetZoom string u32
  | SetGridlines string bool
  | SetPageMargins string f64 f64 f64 f64 "f64 option" "f64 option"
  | SetPageSetup string page_orientation "u32 option" "u32 option" "u32 option"
  | SetPrintArea string string
  | SetPageBreaks string "u32 list" "u32 list"

datatype data_validation_kind = DvList | DvWhole | DvDecimal | DvDate | DvCustom

record data_validation_spec =
  dv_kind :: data_validation_kind
  dv_formula1 :: string
  dv_formula2 :: "string option"
  dv_allow_blank :: "bool option"
  dv_prompt :: "(string \<times> string) option"
  dv_error :: "(string \<times> string) option"

datatype conditional_format_operator =
    LessThan | LessThanOrEqual | GreaterThan | GreaterThanOrEqual | EqualTo | NotEqual | Between
  | NotBetween

datatype conditional_format_rule_spec =
    CellIs conditional_format_operator string
  | Expression string

record conditional_format_style_spec =
  cf_fill_color :: "string option"
  cf_font_color :: "string option"
  cf_bold :: "bool option"

datatype rules_op =
    SetDataValidation string string data_validation_spec
  | AddConditionalFormat string string conditional_format_rule_spec conditional_format_style_spec
  | SetConditionalFormat string string conditional_format_rule_spec conditional_format_style_spec
  | ClearConditionalFormats string string

datatype write_op =
    SetCells set_cells_op
  | Structure canonical_structure_op
  | StyleOp style_write_op
  | Column column_write_op
  | FormulaOp formula_write_op
  | NameOp name_write_op
  | ImportAndHelper import_and_helper_op
  | Transform transform_op
  | Layout sheet_layout_op
  | Rules rules_op

datatype formula_parse_policy = PolicyFail | PolicyWarn | PolicyOff

record write_request =
  wq_resource_id :: string
  wq_expected_revision :: string
  wq_mode :: write_mode
  wq_atomic :: bool
  wq_ops :: "write_op list"
  wq_label :: "string option"
  wq_formula_parse_policy :: "formula_parse_policy option"

section \<open>Kinds and risks\<close>

fun op_kind :: "write_op \<Rightarrow> string" where
  "op_kind (SetCells _) = ''set_cells''"
| "op_kind (Structure s) =
     (case s of
        MergeCells _ _ \<Rightarrow> ''merge_cells''
      | UnmergeCells _ _ \<Rightarrow> ''unmerge_cells''
      | InsertRows _ _ _ _ \<Rightarrow> ''insert_rows''
      | DeleteRows _ _ _ \<Rightarrow> ''delete_rows''
      | InsertCols _ _ _ \<Rightarrow> ''insert_cols''
      | DeleteCols _ _ _ \<Rightarrow> ''delete_cols''
      | RenameSheet _ _ \<Rightarrow> ''rename_sheet''
      | CreateSheet _ _ \<Rightarrow> ''create_sheet''
      | DeleteSheet _ \<Rightarrow> ''delete_sheet''
      | CopyRange _ _ _ _ _ _ \<Rightarrow> ''copy_range''
      | MoveRange _ _ _ _ _ _ \<Rightarrow> ''move_range'')"
| "op_kind (StyleOp _) = ''style''"
| "op_kind (Column _) = ''column_size''"
| "op_kind (FormulaOp f) =
     (case f of
        FormulaPattern _ _ _ _ _ _ \<Rightarrow> ''formula_pattern''
      | ReplaceInFormulas _ _ _ _ _ _ \<Rightarrow> ''replace_in_formulas'')"
| "op_kind (NameOp n) =
     (case n of
        DefineName _ _ _ _ \<Rightarrow> ''define_name''
      | UpdateName _ _ _ _ \<Rightarrow> ''update_name''
      | DeleteName _ _ _ \<Rightarrow> ''delete_name'')"
| "op_kind (ImportAndHelper h) =
     (case h of
        ImportGrid _ _ _ _ \<Rightarrow> ''import_grid''
      | ImportCsv _ _ _ _ _ \<Rightarrow> ''import_csv''
      | AppendRows _ _ _ _ _ \<Rightarrow> ''append_rows''
      | CloneRow _ _ _ _ _ _ _ _ _ \<Rightarrow> ''clone_row''
      | CloneRowBand _ _ _ _ _ _ _ _ _ \<Rightarrow> ''clone_row_band'')"
| "op_kind (Transform t) =
     (case t of
        ClearRange _ _ _ _ \<Rightarrow> ''clear_range''
      | FillRange _ _ _ _ _ \<Rightarrow> ''fill_range''
      | ReplaceInRange _ _ _ _ _ _ _ \<Rightarrow> ''replace_in_range''
      | WriteMatrix _ _ _ _ \<Rightarrow> ''write_matrix'')"
| "op_kind (Layout l) =
     (case l of
        FreezePanes _ _ _ _ \<Rightarrow> ''freeze_panes''
      | SetZoom _ _ \<Rightarrow> ''set_zoom''
      | SetGridlines _ _ \<Rightarrow> ''set_gridlines''
      | SetPageMargins _ _ _ _ _ _ _ \<Rightarrow> ''set_page_margins''
      | SetPageSetup _ _ _ _ _ \<Rightarrow> ''set_page_setup''
      | SetPrintArea _ _ \<Rightarrow> ''set_print_area''
      | SetPageBreaks _ _ _ \<Rightarrow> ''set_page_breaks'')"
| "op_kind (Rules r) =
     (case r of
        SetDataValidation _ _ _ \<Rightarrow> ''set_data_validation''
      | AddConditionalFormat _ _ _ _ \<Rightarrow> ''add_conditional_format''
      | SetConditionalFormat _ _ _ _ \<Rightarrow> ''set_conditional_format''
      | ClearConditionalFormats _ _ \<Rightarrow> ''clear_conditional_formats'')"

definition op_risk :: "write_op \<Rightarrow> operation_risk" where
  "op_risk op =
     (case op of
        Structure (DeleteRows _ _ _) \<Rightarrow> Destructive
      | Structure (DeleteCols _ _ _) \<Rightarrow> Destructive
      | Structure (DeleteSheet _) \<Rightarrow> Destructive
      | Structure (MoveRange _ _ _ _ _ _) \<Rightarrow> Destructive
      | NameOp (DeleteName _ _ _) \<Rightarrow> Destructive
      | FormulaOp (ReplaceInFormulas _ _ _ _ _ _) \<Rightarrow> Destructive
      | Transform (ClearRange _ _ _ True) \<Rightarrow> Destructive
      | ImportAndHelper (ImportGrid _ _ _ True) \<Rightarrow> Destructive
      | ImportAndHelper (ImportCsv _ _ _ _ True) \<Rightarrow> Destructive
      | Structure _ \<Rightarrow> High
      | ImportAndHelper _ \<Rightarrow> High
      | _ \<Rightarrow> Moderate)"

fun risk_rank :: "operation_risk \<Rightarrow> nat" where
  "risk_rank Low = 0"
| "risk_rank Moderate = 1"
| "risk_rank High = 2"
| "risk_rank Destructive = 3"

text \<open>\<open>max_by_key\<close> on the rank: the last of the operations of the highest rank.\<close>

fun worst_risk_from :: "operation_risk \<Rightarrow> write_op list \<Rightarrow> operation_risk" where
  "worst_risk_from best [] = best"
| "worst_risk_from best (op # ops) =
     worst_risk_from (if risk_rank best \<le> risk_rank (op_risk op) then op_risk op else best) ops"

definition worst_risk :: "write_op list \<Rightarrow> operation_risk" where
  "worst_risk ops =
     (case ops of [] \<Rightarrow> Low | op # rest \<Rightarrow> worst_risk_from (op_risk op) rest)"

end
