(* ===== verification/WriteValidate.thy ===== *)
theory WriteValidate
  imports WriteOps
begin

text \<open>
  \<open>validate_request\<close> of \<open>canonical_write.rs\<close>: the checks of a write request before its workbook
  is opened. \<open>op_in_grid\<close> is the meaning the checks are for, over unbounded numbers.
\<close>

record write_lib =
  wl_column_index :: "string \<Rightarrow> u32"
  wl_formula :: "string \<Rightarrow> unit res"
  wl_regex :: "string \<Rightarrow> unit res"
  wl_request_len :: "write_request \<Rightarrow> nat"
  wl_op_value :: "write_op \<Rightarrow> json"

definition max_write_ops :: nat where
  "max_write_ops = 128"

definition max_write_cells :: nat where
  "max_write_cells = 100000"

definition max_write_payload_bytes :: nat where
  "max_write_payload_bytes = 1048576"

definition invalid_request :: "string \<Rightarrow> 'a res" where
  "invalid_request message = Inl (Bail (''invalid request: '' @ message))"

text \<open>\<open>map_err\<close> with a function of the text of the error.\<close>

definition map_err :: "(string \<Rightarrow> string) \<Rightarrow> 'a res \<Rightarrow> 'a res" where
  "map_err f r = (case r of Inl (Bail m) \<Rightarrow> Inl (Bail (f m)) | Inr x \<Rightarrow> Inr x)"

definition usize_saturating_add :: "nat \<Rightarrow> nat \<Rightarrow> nat" where
  "usize_saturating_add a b = min (a + b) (u64_limit - 1)"

text \<open>\<open>as u32\<close>.\<close>

definition as_u32 :: "nat \<Rightarrow> u32" where
  "as_u32 n = n mod u32_limit"

definition validate_formula :: "write_lib \<Rightarrow> string \<Rightarrow> unit res" where
  "validate_formula lib formula = map_err (\<lambda>e. ''invalid formula: '' @ e) (wl_formula lib formula)"

section \<open>Fields by name\<close>

definition static_member :: "write_lib \<Rightarrow> string \<Rightarrow> json \<Rightarrow> unit res" where
  "static_member lib key val =
     (let cidx = wl_column_index lib in
      case val of
        JStr s \<Rightarrow>
          if key \<in> {''sheet'', ''sheet_name'', ''dest_sheet_name'', ''scope_sheet_name'',
                    ''old_name'', ''new_name''} then validate_sheet_name s
          else if key \<in> {''anchor'', ''dest_anchor'', ''anchor_cell'', ''top_left_cell''}
            then validate_cell cidx s
          else if key \<in> {''range'', ''target_range'', ''src_range''} then validate_range cidx s
          else if key \<in> {''at_col'', ''start_col''} then validate_column cidx s
          else if key = ''source_rows'' then validate_row_range s
          else if key = ''columns'' then validate_column_range cidx s
          else Inr ()
      | JObj m \<Rightarrow>
          if key = ''cells'' then fold_res (\<lambda>_ a. validate_cell cidx a) () (map fst m) else Inr ()
      | JArr xs \<Rightarrow>
          if key = ''cells''
          then fold_res (\<lambda>_ a. validate_cell cidx a) () (List.map_filter json_str xs) else Inr ()
      | _ \<Rightarrow> Inr ())"

fun validate_static_fields :: "write_lib \<Rightarrow> json \<Rightarrow> unit res"
  and static_items :: "write_lib \<Rightarrow> json list \<Rightarrow> unit res"
  and static_members :: "write_lib \<Rightarrow> (string \<times> json) list \<Rightarrow> unit res" where
  "validate_static_fields lib (JArr xs) = static_items lib xs"
| "validate_static_fields lib (JObj m) = static_members lib m"
| "validate_static_fields lib _ = Inr ()"
| "static_items lib [] = Inr ()"
| "static_items lib (x # xs) =
     bind_res (validate_static_fields lib x) (\<lambda>_. static_items lib xs)"
| "static_members lib [] = Inr ()"
| "static_members lib ((k, v) # m) =
     bind_res (static_member lib k v) (\<lambda>_.
     bind_res (validate_static_fields lib v) (\<lambda>_. static_members lib m))"

section \<open>One operation\<close>

text \<open>Every case returns the number of cells the operation adds to the request's budget.\<close>

definition f64_outside :: "rat \<Rightarrow> f64 \<Rightarrow> bool" where
  "f64_outside hi x = (case x of NonFinite \<Rightarrow> True | Finite r \<Rightarrow> r < 0 \<or> hi < r)"

definition f64_negative :: "f64 \<Rightarrow> bool" where
  "f64_negative x = (case x of NonFinite \<Rightarrow> True | Finite r \<Rightarrow> r < 0)"

fun f64_gt :: "f64 option \<Rightarrow> f64 option \<Rightarrow> bool" where
  "f64_gt (Some (Finite a)) (Some (Finite b)) = (b < a)"
| "f64_gt _ _ = False"

definition opt_blank :: "string option \<Rightarrow> bool" where
  "opt_blank x = (case x of None \<Rightarrow> False | Some s \<Rightarrow> str_trim s = [])"

definition row_lengths :: "'a list list \<Rightarrow> nat" where
  "row_lengths rows = sum_list (map length rows)"

definition max_length :: "'a list list \<Rightarrow> nat" where
  "max_length rows = foldr max (map length rows) 0"

definition check_formulas :: "write_lib \<Rightarrow> matrix_cell option list list \<Rightarrow> unit res" where
  "check_formulas lib rows =
     fold_res (\<lambda>_ f. validate_formula lib f) ()
       (List.map_filter (\<lambda>c. case c of Some (MatrixFormula f) \<Rightarrow> Some f | _ \<Rightarrow> None) (concat rows))"

definition anchors :: "u32 option \<Rightarrow> u32 option \<Rightarrow> u32 option \<Rightarrow> u32 list" where
  "anchors before after insert_at = List.map_filter (\<lambda>x. x) [before, after, insert_at]"

definition check_scope :: "name_scope option \<Rightarrow> string option \<Rightarrow> unit res" where
  "check_scope scope scope_sheet_name =
     bail_if (scope = Some ScopeSheet \<and> scope_sheet_name = None)
       ''sheet-scoped names require scope_sheet_name'' (Inr ())"

definition then_cells :: "'a res \<Rightarrow> nat \<Rightarrow> nat res" where
  "then_cells r n = bind_res r (\<lambda>_. Inr n)"

fun validate_structure :: "canonical_structure_op \<Rightarrow> unit res" where
  "validate_structure (InsertRows _ at_row n _) =
     bail_if (at_row = 0 \<or> n = 0 \<or> 1048577 < u32_saturating_add at_row n)
       ''row and count values exceed XLSX bounds'' (Inr ())"
| "validate_structure (DeleteRows _ start_row n) =
     bail_if (start_row = 0 \<or> n = 0 \<or> 1048577 < u32_saturating_add start_row n)
       ''row and count values exceed XLSX bounds'' (Inr ())"
| "validate_structure (InsertCols _ _ n) =
     bail_if (n = 0 \<or> 16384 < n) ''column count exceeds XLSX bounds'' (Inr ())"
| "validate_structure (DeleteCols _ _ n) =
     bail_if (n = 0 \<or> 16384 < n) ''column count exceeds XLSX bounds'' (Inr ())"
| "validate_structure (RenameSheet old_name new_name) =
     bind_res (validate_sheet_name old_name) (\<lambda>_.
     bind_res (validate_sheet_name new_name) (\<lambda>_.
     bail_if (old_name = new_name) ''old_name and new_name must differ'' (Inr ())))"
| "validate_structure (CreateSheet name pos) =
     bind_res (validate_sheet_name name) (\<lambda>_.
     bail_if (\<not> option_all (\<lambda>p. p \<le> 1000) pos) ''sheet position exceeds planner bound'' (Inr ()))"
| "validate_structure (DeleteSheet name) = validate_sheet_name name"
| "validate_structure _ = Inr ()"

fun validate_import_and_helper :: "write_lib \<Rightarrow> import_and_helper_op \<Rightarrow> nat res" where
  "validate_import_and_helper lib (AppendRows _ region_id table_name rows _) =
     bail_if ((region_id \<noteq> None) = (table_name \<noteq> None) \<or> rows = [] \<or> [] \<in> set rows)
       ''append_rows requires non-empty rows and exactly one of region_id or table_name'' (
     bail_if (opt_blank table_name) ''table_name must not be empty''
       (then_cells (check_formulas lib rows) (row_lengths rows)))"
| "validate_import_and_helper lib (CloneRow _ source_row before after insert_at n _ _ _) =
     (let selected = anchors before after insert_at in
      bail_if (source_row = 0 \<or> n = 0 \<or> length selected \<noteq> 1 \<or> hd selected = 0
          \<or> 1048577 < u32_saturating_add (hd selected) n)
        ''clone row fields exceed XLSX bounds or do not select exactly one anchor'' (Inr 0))"
| "validate_import_and_helper lib (CloneRowBand _ source_rows before after insert_at rep _ _ _) =
     (let selected = anchors before after insert_at in
      bail_if (length selected \<noteq> 1 \<or> hd selected = 0 \<or> rep = 0)
        ''exactly one positive clone anchor and repeat are required'' (
      bind_res (validate_row_range source_rows) (\<lambda>_.
      bind_res (ok_or (split_once CHR '':'' source_rows) ''validated row range'') (\<lambda>(start, fin).
      bind_res (ok_or (parse_u32 fin) ''validated end'') (\<lambda>fin.
      bind_res (ok_or (parse_u32 start) ''validated start'') (\<lambda>start.
      let band = u32_wrapping_add (u32_wrapping_sub fin start) 1 in
      bail_if (\<not> (case u32_checked_add (hd selected) (u32_saturating_mul band rep) of
                 None \<Rightarrow> False | Some e \<Rightarrow> e \<le> 1048577))
        ''cloned row band exceeds XLSX bounds'' (Inr 0)))))))"
| "validate_import_and_helper lib (ImportCsv _ anchor csv header _) =
     bind_res (csv_records csv) (\<lambda>records.
     bind_res (parse_cell_ref (wl_column_index lib) anchor) (\<lambda>(anchor_col, anchor_row).
     let data_rows = length records - (if header then 1 else 0);
         width = max_length records in
     bail_if (1048577 < u32_saturating_add anchor_row (as_u32 data_rows)
         \<or> 16385 < u32_saturating_add anchor_col (as_u32 width))
       ''CSV exceeds XLSX grid bounds'' (Inr (row_lengths records))))"
| "validate_import_and_helper lib (ImportGrid _ anchor grid _) =
     bind_res (validate_cell (wl_column_index lib) (gp_anchor grid)) (\<lambda>_.
     bind_res (fold_res (\<lambda>_ merge. validate_range (wl_column_index lib) merge) () (gp_merges grid)) (\<lambda>_.
     bind_res (parse_cell_ref (wl_column_index lib) anchor) (\<lambda>(target_col, target_row).
     bail_if (list_ex (\<lambda>cell.
           \<not> (case u32_checked_add target_row (gc_row_offset cell) of
               None \<Rightarrow> False | Some row \<Rightarrow> row \<le> 1048576)
           \<or> \<not> (case u32_checked_add target_col (gc_col_offset cell) of
               None \<Rightarrow> False | Some col \<Rightarrow> col \<le> 16384)) (concat (gp_rows grid)))
       ''grid cell offset exceeds XLSX bounds'' (
     bail_if (list_ex (\<lambda>column.
           \<not> (case u32_checked_add target_col (gh_offset column) of
               None \<Rightarrow> False | Some col \<Rightarrow> col \<le> 16384)
           \<or> f64_outside 255 (gh_width_chars column)) (gp_columns grid))
       ''grid column hint is invalid'' (Inr (row_lengths (gp_rows grid)))))))"

fun validate_formula_op :: "write_lib \<Rightarrow> formula_write_op \<Rightarrow> unit res" where
  "validate_formula_op lib (ReplaceInFormulas _ pat _ _ regex _) =
     bail_if (pat = []) ''find must not be empty''
       (if regex then map_err (\<lambda>e. ''invalid regex: '' @ e) (wl_regex lib pat) else Inr ())"
| "validate_formula_op lib (FormulaPattern _ _ _ base_formula _ _) = validate_formula lib base_formula"

fun validate_name :: "write_lib \<Rightarrow> name_write_op \<Rightarrow> unit res" where
  "validate_name lib (DefineName name refers_to scope scope_sheet_name) =
     bind_res (validate_defined_name (wl_column_index lib) name) (\<lambda>_.
     bail_if (str_trim refers_to = []) ''refers_to must not be empty''
       (check_scope (Some scope) scope_sheet_name))"
| "validate_name lib (UpdateName name refers_to scope scope_sheet_name) =
     bind_res (validate_defined_name (wl_column_index lib) name) (\<lambda>_.
     bind_res (check_scope scope scope_sheet_name) (\<lambda>_.
     bail_if (opt_blank refers_to) ''refers_to must not be empty'' (Inr ())))"
| "validate_name lib (DeleteName name scope scope_sheet_name) =
     bind_res (validate_defined_name (wl_column_index lib) name) (\<lambda>_.
     check_scope scope scope_sheet_name)"

definition no_target_cells :: "transform_target \<Rightarrow> bool" where
  "no_target_cells t = (t = TargetCells [])"

fun validate_transform :: "write_lib \<Rightarrow> transform_op \<Rightarrow> nat res" where
  "validate_transform lib (ClearRange _ target _ _) =
     bail_if (no_target_cells target) ''target cells must not be empty'' (Inr 0)"
| "validate_transform lib (FillRange _ target val is_formula _) =
     bail_if (no_target_cells target) ''target cells must not be empty''
       (then_cells (if is_formula then validate_formula lib val else Inr ()) 0)"
| "validate_transform lib (ReplaceInRange _ target pat _ _ _ _) =
     bail_if (no_target_cells target) ''target cells must not be empty'' (
     bail_if (pat = []) ''find must not be empty'' (Inr 0))"
| "validate_transform lib (WriteMatrix _ anchor rows _) =
     bail_if (rows = [] \<or> [] \<in> set rows) ''matrix rows must not be empty'' (
     bind_res (parse_cell_ref (wl_column_index lib) anchor) (\<lambda>(anchor_col, anchor_row).
     let width = as_u32 (max_length rows) in
     bail_if (1048577 < u32_saturating_add anchor_row (as_u32 (length rows))
         \<or> 16385 < u32_saturating_add anchor_col width)
       ''matrix exceeds XLSX grid bounds''
       (then_cells (check_formulas lib rows) (row_lengths rows))))"

fun validate_column_size :: "column_size_spec \<Rightarrow> unit res" where
  "validate_column_size (Width w) =
     bail_if (f64_outside 255 w) ''width_chars must be finite and between 0 and 255'' (Inr ())"
| "validate_column_size (AutoWidth lo hi) =
     bail_if (\<not> option_all (\<lambda>v. \<not> f64_outside 255 v) lo \<or> \<not> option_all (\<lambda>v. \<not> f64_outside 255 v) hi
         \<or> f64_gt lo hi)
       ''auto width bounds must be finite, ordered, and between 0 and 255'' (Inr ())"

fun validate_layout :: "sheet_layout_op \<Rightarrow> unit res" where
  "validate_layout (FreezePanes _ freeze_rows freeze_cols _) =
     bail_if (1048576 < freeze_rows \<or> 16384 < freeze_cols)
       ''freeze panes exceed XLSX grid bounds'' (Inr ())"
| "validate_layout (SetZoom _ zoom_percent) =
     bail_if (\<not> (10 \<le> zoom_percent \<and> zoom_percent \<le> 400))
       ''zoom_percent must be between 10 and 400'' (Inr ())"
| "validate_layout (SetPageMargins _ left right upper bottom header footer) =
     bail_if (list_ex f64_negative (List.map_filter (\<lambda>x. x)
         [Some left, Some right, Some upper, Some bottom, header, footer]))
       ''page margins must be finite and non-negative'' (Inr ())"
| "validate_layout (SetPageSetup _ _ fit_to_width fit_to_height scale_percent) =
     bail_if (fit_to_width = Some 0 \<or> fit_to_height = Some 0
         \<or> \<not> option_all (\<lambda>v. 10 \<le> v \<and> v \<le> 400) scale_percent)
       ''invalid page setup fit or scale value'' (Inr ())"
| "validate_layout (SetPageBreaks _ row_breaks col_breaks) =
     bail_if (list_ex (\<lambda>v. v = 0 \<or> 1048576 < v) row_breaks
         \<or> list_ex (\<lambda>v. v = 0 \<or> 16384 < v) col_breaks)
       ''page break exceeds XLSX grid bounds'' (Inr ())"
| "validate_layout _ = Inr ()"

definition rule_formula :: "conditional_format_rule_spec \<Rightarrow> string" where
  "rule_formula rule = (case rule of CellIs _ formula \<Rightarrow> formula | Expression formula \<Rightarrow> formula)"

fun validate_rules :: "rules_op \<Rightarrow> unit res" where
  "validate_rules (AddConditionalFormat _ _ rule _) =
     bail_if (str_trim (rule_formula rule) = [])
       ''conditional format formula must not be empty'' (Inr ())"
| "validate_rules (SetConditionalFormat _ _ rule _) =
     bail_if (str_trim (rule_formula rule) = [])
       ''conditional format formula must not be empty'' (Inr ())"
| "validate_rules _ = Inr ()"

fun validate_op :: "write_lib \<Rightarrow> write_op \<Rightarrow> nat res" where
  "validate_op lib (SetCells sc) =
     bail_if (sc_cells sc = []) ''cells must not be empty''
       (then_cells (fold_res (\<lambda>_ content. case content of
              ContentFormula f \<Rightarrow> validate_formula lib f | _ \<Rightarrow> Inr ()) () (map snd (sc_cells sc)))
          (length (sc_cells sc)))"
| "validate_op lib (Structure s) = then_cells (validate_structure s) 0"
| "validate_op lib (StyleOp (Style _ target _ _)) =
     bail_if (target = StyleCells []) ''style cells must not be empty'' (Inr 0)"
| "validate_op lib (Column (ColumnSize _ _ sz)) = then_cells (validate_column_size sz) 0"
| "validate_op lib (FormulaOp f) = then_cells (validate_formula_op lib f) 0"
| "validate_op lib (NameOp n) = then_cells (validate_name lib n) 0"
| "validate_op lib (ImportAndHelper h) = validate_import_and_helper lib h"
| "validate_op lib (Transform t) = validate_transform lib t"
| "validate_op lib (Layout l) = then_cells (validate_layout l) 0"
| "validate_op lib (Rules r) = then_cells (validate_rules r) 0"

section \<open>The request\<close>

definition op_error :: "nat \<Rightarrow> write_op \<Rightarrow> string \<Rightarrow> string" where
  "op_error index op message =
     ''invalid request: ops['' @ show_nat index @ ''] ('' @ op_kind op @ ''): '' @ message"

fun validate_ops :: "write_lib \<Rightarrow> nat \<Rightarrow> nat \<Rightarrow> write_op list \<Rightarrow> unit res" where
  "validate_ops lib index cells [] = Inr ()"
| "validate_ops lib index cells (op # ops) =
     bind_res (map_err (op_error index op) (validate_static_fields lib (wl_op_value lib op))) (\<lambda>_.
     bind_res (map_err (op_error index op) (validate_op lib op)) (\<lambda>added.
     let cells = usize_saturating_add cells added in
     bail_if (max_write_cells < cells) (op_error index op ''request exceeds 100000 cells'')
       (validate_ops lib (index + 1) cells ops)))"

definition validate_request :: "write_lib \<Rightarrow> write_request \<Rightarrow> unit res" where
  "validate_request lib request =
     (if wq_ops request = [] \<or> max_write_ops < length (wq_ops request)
      then invalid_request ''ops must contain 1..=128 operations''
      else if str_trim (wq_expected_revision request) = []
      then invalid_request ''expected_revision must not be empty''
      else if max_write_payload_bytes < wl_request_len lib request
      then invalid_request ''request exceeds 1048576 bytes''
      else if wq_mode request = Stage \<and> \<not> wq_atomic request
      then invalid_request ''stage requires atomic:true; non-atomic staged replay is unsupported''
      else validate_ops lib 0 0 (wq_ops request))"

section \<open>What the checks are for\<close>

text \<open>The cells an operation writes, and the grid it has to stay in.\<close>

definition op_cells :: "write_op \<Rightarrow> nat" where
  "op_cells op =
     (case op of
        SetCells sc \<Rightarrow> length (sc_cells sc)
      | Transform (WriteMatrix _ _ rows _) \<Rightarrow> row_lengths rows
      | ImportAndHelper (AppendRows _ _ _ rows _) \<Rightarrow> row_lengths rows
      | ImportAndHelper (ImportGrid _ _ grid _) \<Rightarrow> row_lengths (gp_rows grid)
      | ImportAndHelper (ImportCsv _ _ csv _ _) \<Rightarrow>
          (case csv_records csv of Inr records \<Rightarrow> row_lengths records | Inl _ \<Rightarrow> 0)
      | _ \<Rightarrow> 0)"

definition cell_in_grid :: "nat \<Rightarrow> nat \<Rightarrow> bool" where
  "cell_in_grid col row = (1 \<le> col \<and> col \<le> 16384 \<and> 1 \<le> row \<and> row \<le> 1048576)"

definition block_in_grid :: "nat \<Rightarrow> nat \<Rightarrow> 'a list list \<Rightarrow> bool" where
  "block_in_grid col row rows =
     (\<forall>i < length rows. \<forall>j < length (rows ! i). cell_in_grid (col + j) (row + i))"

definition anchored :: "(string \<Rightarrow> u32) \<Rightarrow> string \<Rightarrow> (nat \<Rightarrow> nat \<Rightarrow> bool) \<Rightarrow> bool" where
  "anchored cidx anchor P = (case parse_cell_ref cidx anchor of Inr (col, row) \<Rightarrow> P col row | Inl _ \<Rightarrow> False)"

definition op_in_grid :: "(string \<Rightarrow> u32) \<Rightarrow> write_op \<Rightarrow> bool" where
  "op_in_grid cidx op =
     (case op of
        Structure (InsertRows _ at_row n _) \<Rightarrow> 1 \<le> at_row \<and> 1 \<le> n \<and> at_row + n \<le> 1048577
      | Structure (DeleteRows _ at_row n) \<Rightarrow> 1 \<le> at_row \<and> 1 \<le> n \<and> at_row + n \<le> 1048577
      | Structure (InsertCols _ _ n) \<Rightarrow> 1 \<le> n \<and> n \<le> 16384
      | Structure (DeleteCols _ _ n) \<Rightarrow> 1 \<le> n \<and> n \<le> 16384
      | Transform (WriteMatrix _ anchor rows _) \<Rightarrow>
          anchored cidx anchor (\<lambda>col row. block_in_grid col row rows)
      | ImportAndHelper (ImportCsv _ anchor csv header _) \<Rightarrow>
          anchored cidx anchor (\<lambda>col row. case csv_records csv of
             Inr records \<Rightarrow> block_in_grid col row (drop (if header then 1 else 0) records)
           | Inl _ \<Rightarrow> False)
      | ImportAndHelper (ImportGrid _ anchor grid _) \<Rightarrow>
          anchored cidx anchor (\<lambda>col row. \<forall>cell \<in> set (concat (gp_rows grid)).
            cell_in_grid (col + gc_col_offset cell) (row + gc_row_offset cell))
      | ImportAndHelper (CloneRow _ _ before after insert_at n _ _ _) \<Rightarrow>
          (\<exists>a. anchors before after insert_at = [a] \<and> 1 \<le> a \<and> 1 \<le> n \<and> a + n \<le> 1048577)
      | ImportAndHelper (CloneRowBand _ rows before after insert_at rep _ _ _) \<Rightarrow>
          (\<exists>a s e. anchors before after insert_at = [a] \<and> 1 \<le> a \<and> 1 \<le> rep
             \<and> map_option (\<lambda>(x, y). (parse_u32 x, parse_u32 y)) (split_once CHR '':'' rows)
                 = Some (Some s, Some e)
             \<and> 1 \<le> s \<and> s \<le> e \<and> a + (e + 1 - s) * rep \<le> 1048577)
      | Layout (FreezePanes _ rows cols _) \<Rightarrow> rows \<le> 1048576 \<and> cols \<le> 16384
      | Layout (SetPageBreaks _ rows cols) \<Rightarrow>
          (\<forall>r \<in> set rows. 1 \<le> r \<and> r \<le> 1048576) \<and> (\<forall>c \<in> set cols. 1 \<le> c \<and> c \<le> 16384)
      | _ \<Rightarrow> True)"

section \<open>Soundness of the checks\<close>

lemma then_cells_Inr: "then_cells r n = Inr m \<longleftrightarrow> is_ok r \<and> m = n"
  by (cases r) (auto simp: then_cells_def)

lemma map_err_Inr [simp]: "map_err f r = Inr x \<longleftrightarrow> r = Inr x"
  by (auto simp: map_err_def split: sum.splits err.splits)

lemma map_err_ok [simp]: "map_err f (Inr x) = Inr x"
  by (simp add: map_err_def)

lemma csv_scan_nonempty:
  "csv_scan quoted field row records raw = Inr out \<Longrightarrow> [] \<notin> set records \<Longrightarrow> [] \<notin> set out"
  by (induction quoted field row records raw rule: csv_scan.induct)
    (auto split: if_splits list.splits)

lemma csv_records_nonempty: "csv_records raw = Inr records \<Longrightarrow> [] \<notin> set records"
  unfolding csv_records_def by (erule csv_scan_nonempty) simp

lemma max_length_upper: "xs \<in> set rows \<Longrightarrow> length xs \<le> max_length rows"
  by (induction rows) (auto simp: max_length_def)

lemma max_length_row_lengths: "max_length rows \<le> row_lengths rows"
  by (induction rows) (auto simp: max_length_def row_lengths_def)

lemma length_row_lengths: "[] \<notin> set rows \<Longrightarrow> length rows \<le> row_lengths rows"
proof (induction rows)
  case (Cons r rows)
  then show ?case by (cases r) (auto simp: row_lengths_def)
qed simp

lemma parse_cell_ref_positive:
  "parse_cell_ref cidx s = Inr (col, row) \<Longrightarrow> 1 \<le> col \<and> 1 \<le> row"
  by (auto simp: parse_cell_ref_def Let_def split: if_splits option.splits)

text \<open>The saturating bounds check of a block of rows is exact.\<close>

lemma block_fits:
  assumes "parse_cell_ref cidx anchor = Inr (col, row)"
    and "length rows \<le> n" and "n \<le> max_write_cells" and "max_length rows \<le> w" and "w \<le> max_write_cells"
    and "\<not> 1048577 < u32_saturating_add row (as_u32 n)"
    and "\<not> 16385 < u32_saturating_add col (as_u32 w)"
  shows "block_in_grid col row rows"
proof -
  from assms(3,5-7) have "row + n \<le> 1048577" "col + w \<le> 16385"
    by (auto simp: u32_saturating_add_def as_u32_def max_write_cells_def)
  moreover have "length (rows ! i) \<le> w" if "i < length rows" for i
    using max_length_upper [of "rows ! i" rows] that assms(4) by auto
  ultimately show ?thesis
    using assms(2) parse_cell_ref_positive [OF assms(1)]
    by (fastforce simp: block_in_grid_def cell_in_grid_def)
qed

lemma validate_op_cells: "validate_op lib op = Inr n \<Longrightarrow> n = op_cells op"
proof (induction lib op rule: validate_op.induct)
  case (7 lib h)
  then show ?case
    by (cases h) (auto simp: op_cells_def then_cells_Inr bind_res_Inr Let_def split: prod.splits)
next
  case (8 lib t)
  then show ?case
    by (cases t) (auto simp: op_cells_def then_cells_Inr bind_res_Inr Let_def)
qed (auto simp: op_cells_def then_cells_Inr)

lemma anchors_one: "length xs = 1 \<Longrightarrow> xs = [hd xs]"
  by (cases xs) auto

lemma in_grid_structure: "is_ok (validate_structure s) \<Longrightarrow> op_in_grid cidx (Structure s)"
  by (cases s) (auto simp: op_in_grid_def u32_saturating_add_def bail_if_def split: if_splits)

lemma in_grid_layout: "is_ok (validate_layout l) \<Longrightarrow> op_in_grid cidx (Layout l)"
  by (cases l) (auto simp: op_in_grid_def bail_if_def list_ex_iff not_less Suc_le_eq split: if_splits)

lemma in_grid_transform:
  assumes "validate_transform lib t = Inr n" and "n \<le> max_write_cells"
  shows "op_in_grid (wl_column_index lib) (Transform t)"
proof (cases t)
  case (WriteMatrix sheet anchor rows ov)
  with assms(1) obtain col row where rows: "[] \<notin> set rows" "n = row_lengths rows"
    and anchor: "parse_cell_ref (wl_column_index lib) anchor = Inr (col, row)"
    and fits: "\<not> 1048577 < u32_saturating_add row (as_u32 (length rows))"
      "\<not> 16385 < u32_saturating_add col (as_u32 (max_length rows))"
    by (auto simp: bind_res_Inr then_cells_Inr Let_def)
  have "length rows \<le> max_write_cells" "max_length rows \<le> max_write_cells"
    using length_row_lengths [OF rows(1)] max_length_row_lengths [of rows] rows(2) assms(2) by auto
  from block_fits [OF anchor order_refl this(1) order_refl this(2) fits] anchor WriteMatrix
  show ?thesis by (simp add: op_in_grid_def anchored_def)
qed (simp_all add: op_in_grid_def)

lemma in_grid_csv:
  assumes "validate_import_and_helper lib (ImportCsv sheet anchor csv header clear) = Inr n"
    and "n \<le> max_write_cells"
  shows "op_in_grid (wl_column_index lib) (ImportAndHelper (ImportCsv sheet anchor csv header clear))"
proof -
  from assms(1) obtain col row records where records: "csv_records csv = Inr records"
    "n = row_lengths records"
    and anchor: "parse_cell_ref (wl_column_index lib) anchor = Inr (col, row)"
    and fits: "\<not> 1048577 < u32_saturating_add row (as_u32 (length records - (if header then 1 else 0)))"
      "\<not> 16385 < u32_saturating_add col (as_u32 (max_length records))"
    by (auto simp: bind_res_Inr Let_def)
  let ?data = "drop (if header then 1 else 0) records"
  have "length records - (if header then 1 else 0) \<le> max_write_cells" "max_length records \<le> max_write_cells"
    using length_row_lengths [OF csv_records_nonempty [OF records(1)]] max_length_row_lengths [of records]
      records(2) assms(2) by auto
  moreover have "max_length ?data \<le> max_length records"
    by (cases records) (auto simp: max_length_def)
  moreover have "length ?data \<le> length records - (if header then 1 else 0)" by simp
  ultimately have "block_in_grid col row ?data" using block_fits [OF anchor _ _ _ _ fits, of ?data] by blast
  with anchor records(1) show ?thesis by (simp add: op_in_grid_def anchored_def)
qed

lemma in_grid_grid:
  assumes "validate_import_and_helper lib (ImportGrid sheet anchor grid clear) = Inr n"
  shows "op_in_grid (wl_column_index lib) (ImportAndHelper (ImportGrid sheet anchor grid clear))"
proof -
  from assms obtain col row where anchor: "parse_cell_ref (wl_column_index lib) anchor = Inr (col, row)"
    and cells: "\<not> list_ex (\<lambda>cell.
           \<not> (case u32_checked_add row (gc_row_offset cell) of
               None \<Rightarrow> False | Some row \<Rightarrow> row \<le> 1048576)
           \<or> \<not> (case u32_checked_add col (gc_col_offset cell) of
               None \<Rightarrow> False | Some col \<Rightarrow> col \<le> 16384)) (concat (gp_rows grid))"
    by (auto simp: bind_res_Inr)
  have "cell_in_grid (col + gc_col_offset cell) (row + gc_row_offset cell)"
    if "cell \<in> set (concat (gp_rows grid))" for cell
    using cells that parse_cell_ref_positive [OF anchor]
    by (auto simp: list_ex_iff cell_in_grid_def u32_checked_add_def split: if_splits)
  with anchor show ?thesis by (auto simp: op_in_grid_def anchored_def)
qed

lemma in_grid_band:
  assumes "validate_import_and_helper lib
      (CloneRowBand sheet rows before after insert_at rep ex pt mp) = Inr n"
  shows "op_in_grid cidx (ImportAndHelper (CloneRowBand sheet rows before after insert_at rep ex pt mp))"
proof -
  from assms obtain x y s e where anch: "length (anchors before after insert_at) = 1"
      "hd (anchors before after insert_at) \<noteq> 0" "rep \<noteq> 0"
    and valid: "validate_row_range rows = Inr ()"
    and parts: "split_once CHR '':'' rows = Some (x, y)" "parse_u32 x = Some s" "parse_u32 y = Some e"
    and fits: "\<exists>t. u32_checked_add (hd (anchors before after insert_at))
        (u32_saturating_mul (u32_wrapping_add (u32_wrapping_sub e s) 1) rep) = Some t \<and> t \<le> 1048577"
    by (auto simp: bind_res_Inr Let_def split: prod.splits option.splits)
  from valid parts have range: "1 \<le> s" "s \<le> e" "e \<le> 1048576"
    by (auto simp: validate_row_range_def split: if_splits)
  then have "u32_wrapping_add (u32_wrapping_sub e s) 1 = e + 1 - s"
    by (simp add: u32_wrapping_sub_exact u32_wrapping_add_exact)
  with fits have "hd (anchors before after insert_at) + (e + 1 - s) * rep \<le> 1048577"
    by (auto simp: u32_checked_add_def u32_saturating_mul_def split: if_splits)
  with anchors_one [OF anch(1)] anch parts range show ?thesis
    by (auto simp: op_in_grid_def)
qed

lemma in_grid_clone:
  assumes "validate_import_and_helper lib
      (CloneRow sheet src before after insert_at n ex pt mp) = Inr m"
  shows "op_in_grid cidx (ImportAndHelper (CloneRow sheet src before after insert_at n ex pt mp))"
proof -
  from assms have "length (anchors before after insert_at) = 1" "hd (anchors before after insert_at) \<noteq> 0"
    "n \<noteq> 0" "hd (anchors before after insert_at) + n \<le> 1048577"
    by (auto simp: Let_def u32_saturating_add_def split: if_splits)
  with anchors_one [of "anchors before after insert_at"] show ?thesis by (auto simp: op_in_grid_def)
qed

lemma validate_op_in_grid:
  assumes "validate_op lib op = Inr n" and "n \<le> max_write_cells"
  shows "op_in_grid (wl_column_index lib) op"
proof (cases op)
  case (Structure s)
  with assms in_grid_structure show ?thesis by (simp add: then_cells_Inr)
next
  case (Layout l)
  with assms in_grid_layout show ?thesis by (simp add: then_cells_Inr)
next
  case (Transform t)
  with assms in_grid_transform show ?thesis by simp
next
  case (ImportAndHelper h)
  with assms in_grid_csv in_grid_grid in_grid_band in_grid_clone show ?thesis
    by (cases h) (simp_all add: op_in_grid_def del: validate_import_and_helper.simps)
qed (simp_all add: op_in_grid_def)

text \<open>The validation of the fields by name reaches every member of every object below.\<close>

inductive json_member :: "json \<Rightarrow> string \<Rightarrow> json \<Rightarrow> bool" where
  here: "(k, v) \<in> set m \<Longrightarrow> json_member (JObj m) k v"
| in_member: "(k', j) \<in> set m \<Longrightarrow> json_member j k v \<Longrightarrow> json_member (JObj m) k v"
| in_item: "j \<in> set xs \<Longrightarrow> json_member j k v \<Longrightarrow> json_member (JArr xs) k v"

inductive_simps json_member_simps [simp]:
  "json_member (JObj m) k v" "json_member (JArr xs) k v" "json_member JNull k v"
  "json_member (JBool b) k v" "json_member (JInt i) k v" "json_member (JFloat f) k v"
  "json_member (JStr s) k v"

lemma validate_static_fields_iff:
  "validate_static_fields lib j = Inr () \<longleftrightarrow> (\<forall>k v. json_member j k v \<longrightarrow> static_member lib k v = Inr ())"
  "static_items lib xs = Inr () \<longleftrightarrow>
     (\<forall>j \<in> set xs. \<forall>k v. json_member j k v \<longrightarrow> static_member lib k v = Inr ())"
  "static_members lib m = Inr () \<longleftrightarrow>
     (\<forall>(k', j) \<in> set m. static_member lib k' j = Inr ()
        \<and> (\<forall>k v. json_member j k v \<longrightarrow> static_member lib k v = Inr ()))"
  by (induction lib j and lib xs and lib m rule: validate_static_fields_static_items_static_members.induct)
    (auto simp: bind_res_Inr)

lemma validate_ops_sound:
  assumes "validate_ops lib index cells ops = Inr ()" and "cells \<le> max_write_cells"
  shows "cells + sum_list (map op_cells ops) \<le> max_write_cells
    \<and> (\<forall>op \<in> set ops. op_in_grid (wl_column_index lib) op
         \<and> validate_static_fields lib (wl_op_value lib op) = Inr ())"
  using assms
proof (induction ops arbitrary: index cells)
  case (Cons op ops)
  then obtain n where n: "validate_op lib op = Inr n"
    and static: "validate_static_fields lib (wl_op_value lib op) = Inr ()"
    and budget: "usize_saturating_add cells n \<le> max_write_cells"
    and rest: "validate_ops lib (index + 1) (usize_saturating_add cells n) ops = Inr ()"
    by (auto simp: bind_res_Inr Let_def)
  from budget have sum: "usize_saturating_add cells n = cells + n"
    by (auto simp: usize_saturating_add_def max_write_cells_def min_def split: if_splits)
  with budget have "n \<le> max_write_cells" by simp
  with validate_op_in_grid [OF n] validate_op_cells [OF n] static Cons.IH [OF rest budget] sum
  show ?case by (auto simp: add.assoc)
qed simp


definition demo_lib :: write_lib where
  "demo_lib = \<lparr> wl_column_index = letters_col, wl_formula = (\<lambda>_. Inr ()), wl_regex = (\<lambda>_. Inr ()),
     wl_request_len = (\<lambda>_. 100),
     wl_op_value = (\<lambda>op. JObj [(''kind'', JStr (op_kind op)), (''sheet_name'', JStr ''Data'')]) \<rparr>"

definition demo_write :: "write_mode \<Rightarrow> bool \<Rightarrow> write_op list \<Rightarrow> write_request" where
  "demo_write mode atomic ops = \<lparr> wq_resource_id = ''session:s1'', wq_expected_revision = ''r1'',
     wq_mode = mode, wq_atomic = atomic, wq_ops = ops, wq_label = None,
     wq_formula_parse_policy = None \<rparr>"

definition demo_ops :: "write_op list" where
  "demo_ops = [Structure (InsertRows ''Data'' 5 2 False),
     Transform (WriteMatrix ''Data'' ''B2'' [[None, Some (MatrixValue (JInt 1))], [None]] True)]"

lemmas demo_eval = letters_col_def parse_cell_ref_def is_digit_def is_alpha_def is_upper_def
  is_lower_def ord_of_def str_trim_def is_space_def

lemma demo_anchor: "parse_cell_ref letters_col ''B2'' = Inr (2, 2)"
  by (simp add: demo_eval parse_unsigned_def Let_def digits_val_def digit_val_def u32_saturating_add_def
      u32_saturating_mul_def)

lemma demo_static: "validate_static_fields demo_lib (wl_op_value demo_lib op) = Inr ()"
  by (simp add: demo_lib_def static_member_def validate_sheet_name_def utf8_count_def ord_of_def
      starts_with_def ends_with_def)

lemma demo_request_valid: "validate_request demo_lib (demo_write Apply True demo_ops) = Inr ()"
proof -
  have col: "wl_column_index demo_lib = letters_col" by (simp add: demo_lib_def)
  show ?thesis
    by (simp add: validate_request_def demo_write_def demo_ops_def max_write_ops_def
        max_write_payload_bytes_def demo_static col demo_anchor then_cells_def check_formulas_def
        List.map_filter_def u32_saturating_add_def as_u32_def max_length_def row_lengths_def
        usize_saturating_add_def max_write_cells_def str_trim_def is_space_def ord_of_def)
      (simp add: demo_lib_def)
qed


end
