(* ===== verification/Steps.thy ===== *)
theory Steps
  imports Json
begin

text \<open>
  Operations on a mutable state that can fail half way: an operation returns the state it leaves,
  whether it succeeds or not, so that what an error leaves behind is part of the model. Also the
  part of a file system the components use: regular files with their bytes and the time they
  were last written.
\<close>

section \<open>Steps\<close>

type_synonym ('s, 'a) step = "'s \<Rightarrow> 's \<times> 'a res"

definition return_step :: "'a \<Rightarrow> ('s, 'a) step" where
  "return_step x s = (s, Inr x)"

definition fail_step :: "string \<Rightarrow> ('s, 'a) step" where
  "fail_step m s = (s, Inl (Bail m))"

definition bind_step :: "('s, 'a) step \<Rightarrow> ('a \<Rightarrow> ('s, 'b) step) \<Rightarrow> ('s, 'b) step" where
  "bind_step m f s = (case m s of (s', Inl e) \<Rightarrow> (s', Inl e) | (s', Inr x) \<Rightarrow> f x s')"

text \<open>A reading of the state that may fail, and an update.\<close>

definition read_step :: "('s \<Rightarrow> 'a res) \<Rightarrow> ('s, 'a) step" where
  "read_step f s = (s, f s)"

definition update_step :: "('s \<Rightarrow> 's) \<Rightarrow> ('s, unit) step" where
  "update_step f s = (f s, Inr ())"

definition guard_step :: "bool \<Rightarrow> string \<Rightarrow> ('s, unit) step" where
  "guard_step b m s = (s, if b then Inr () else Inl (Bail m))"

fun map_step :: "('a \<Rightarrow> ('s, 'b) step) \<Rightarrow> 'a list \<Rightarrow> ('s, 'b list) step" where
  "map_step f [] = return_step []"
| "map_step f (x # xs) = bind_step (f x) (\<lambda>y. bind_step (map_step f xs) (\<lambda>ys. return_step (y # ys)))"

named_theorems step_simps \<open>running the step combinators\<close>

lemmas step_defs [step_simps] = return_step_def fail_step_def bind_step_def read_step_def
  update_step_def guard_step_def

lemma bind_step_ok:
  "bind_step m f s = (s', Inr y) \<longleftrightarrow> (\<exists>t x. m s = (t, Inr x) \<and> f x t = (s', Inr y))"
  by (auto simp: bind_step_def split: prod.splits sum.splits)

text \<open>What every part of a step keeps, the step keeps, also when it fails.\<close>

definition keeps :: "('s \<Rightarrow> bool) \<Rightarrow> ('s, 'a) step \<Rightarrow> bool" where
  "keeps P m = (\<forall>s. P s \<longrightarrow> P (fst (m s)))"

named_theorems keeps_intros \<open>steps that keep an invariant\<close>

lemma keepsD: "keeps P m \<Longrightarrow> P s \<Longrightarrow> P (fst (m s))"
  by (simp add: keeps_def)

lemma keeps_return [keeps_intros]: "keeps P (return_step x)"
  by (simp add: keeps_def return_step_def)

lemma keeps_fail [keeps_intros]: "keeps P (fail_step m)"
  by (simp add: keeps_def fail_step_def)

lemma keeps_read [keeps_intros]: "keeps P (read_step f)"
  by (simp add: keeps_def read_step_def)

lemma keeps_guard [keeps_intros]: "keeps P (guard_step b m)"
  by (simp add: keeps_def guard_step_def)

lemma keeps_update: "(\<And>s. P s \<Longrightarrow> P (f s)) \<Longrightarrow> keeps P (update_step f)"
  by (simp add: keeps_def update_step_def)

lemma keeps_bind [keeps_intros]:
  assumes "keeps P m" and "\<And>x. keeps P (f x)"
  shows "keeps P (bind_step m f)"
proof -
  have "P (fst (bind_step m f s))" if "P s" for s
  proof (cases "m s")
    case (Pair t r)
    with that assms(1) have "P t" by (metis fst_conv keepsD)
    with Pair assms(2) show ?thesis
      by (cases r) (auto simp: bind_step_def keeps_def)
  qed
  then show ?thesis by (simp add: keeps_def)
qed

lemma keeps_map [keeps_intros]: "(\<And>x. keeps P (f x)) \<Longrightarrow> keeps P (map_step f xs)"
  by (induction xs) (auto intro!: keeps_intros)

section \<open>Files\<close>

record file_content =
  fl_bytes :: string
  fl_modified :: nat

type_synonym files = "file_content btree"

definition fs_read :: "files \<Rightarrow> string \<Rightarrow> string res" where
  "fs_read fs p = ok_or (map_option fl_bytes (bt_get fs p)) ''No such file or directory''"

definition fs_exists :: "files \<Rightarrow> string \<Rightarrow> bool" where
  "fs_exists fs p = bt_contains fs p"

definition fs_write :: "nat \<Rightarrow> string \<Rightarrow> string \<Rightarrow> files \<Rightarrow> files" where
  "fs_write now p bytes fs = bt_insert p \<lparr> fl_bytes = bytes, fl_modified = now \<rparr> fs"

definition fs_copy :: "nat \<Rightarrow> string \<Rightarrow> string \<Rightarrow> files \<Rightarrow> files res" where
  "fs_copy now src dst fs = bind_res (fs_read fs src) (\<lambda>bytes. Inr (fs_write now dst bytes fs))"

definition fs_remove :: "string \<Rightarrow> files \<Rightarrow> files" where
  "fs_remove p fs = bt_remove p fs"

definition fs_remove_dir_all :: "string \<Rightarrow> files \<Rightarrow> files" where
  "fs_remove_dir_all dir fs = filter (\<lambda>(p, _). \<not> starts_with p (dir @ ''/'')) fs"

definition path_join :: "string \<Rightarrow> string \<Rightarrow> string" where
  "path_join dir name = dir @ ''/'' @ name"

text \<open>\<open>Path::extension\<close>: the text after the last dot of the file name, unless the dot is first.\<close>

definition path_extension :: "string \<Rightarrow> string option" where
  "path_extension p =
     (case rsplit_once CHR ''.'' (last (split_on CHR ''/'' p)) of
        None \<Rightarrow> None
      | Some (stem, ext) \<Rightarrow> if stem = [] then None else Some ext)"

lemma fs_read_write [simp]:
  "fs_read (fs_write now p bytes fs) q = (if q = p then Inr bytes else fs_read fs q)"
  by (simp add: fs_read_def fs_write_def)

lemma fs_read_remove [simp]:
  "fs_read (fs_remove p fs) q = (if q = p then Inl (Bail ''No such file or directory'') else fs_read fs q)"
  by (simp add: fs_read_def fs_remove_def)

end
