(* ===== verification/Forks.thy ===== *)
theory Forks
  imports Steps
begin

text \<open>
  Forks (\<open>fork.rs\<close>): the working copy of a workbook with its staged changes, checkpoints and
  revisions, the limits on both, and the registry with creation, lookup, expiry, saving,
  checkpoints, staged changes, snapshots of several forks and artifacts.

  An operation is a step on the files and the registry. The registry and fork locks make it
  atomic; random identifiers, the two clocks, SHA-256 and the path canonicaliser are arguments.
\<close>

section \<open>Data\<close>

record edit_op =
  ed_timestamp :: nat
  ed_sheet :: string
  ed_address :: string
  ed_value :: string
  ed_is_formula :: bool

record staged_op =
  so_kind :: string
  so_payload :: json

record change_summary =
  cs_op_kinds :: "string list"
  cs_affected_sheets :: "string list"
  cs_affected_bounds :: "string list"
  cs_counts :: "u64 btree"
  cs_flags :: "bool btree"
  cs_warnings :: "string list"

record staged_change =
  sg_change_id :: string
  sg_created_at :: nat
  sg_label :: "string option"
  sg_ops :: "staged_op list"
  sg_summary :: change_summary
  sg_fork_path_snapshot :: "string option"

record fork_checkpoint =
  cp_checkpoint_id :: string
  cp_created_at :: nat
  cp_label :: "string option"
  cp_snapshot_path :: string
  cp_recalc_needed :: bool
  cp_snapshot_state_revision :: string
  cp_canonical_operation_len :: nat

record canonical_operation_record =
  cr_sequence :: u64
  cr_timestamp :: "string option"
  cr_kind :: string
  cr_op_kinds :: "string list"
  cr_revision_before :: string
  cr_revision_after :: string

record fork_context =
  fk_fork_id :: string
  fk_base_path :: string
  fk_work_path :: string
  fk_created_at :: nat
  fk_last_accessed :: nat
  fk_edits :: "edit_op list"
  fk_staged_changes :: "staged_change list"
  fk_checkpoints :: "fork_checkpoint list"
  fk_canonical_operations :: "canonical_operation_record list"
  fk_recalc_needed :: bool
  fk_state_revision :: string
  fk_content_revision :: string
  fk_discarded :: bool
  fk_base_hash :: string
  fk_base_modified :: nat

definition checkpoint_root :: string where
  "checkpoint_root = ''/tmp/mcp-checkpoints''"

definition max_checkpoints_per_fork :: nat where
  "max_checkpoints_per_fork = 10"

definition max_staged_changes_per_fork :: nat where
  "max_staged_changes_per_fork = 20"

definition max_checkpoint_total_bytes :: nat where
  "max_checkpoint_total_bytes = 524288000"

definition max_file_size :: nat where
  "max_file_size = 104857600"

record fork_config =
  cfg_ttl :: nat
  cfg_max_forks :: nat
  cfg_fork_dir :: string

definition default_fork_config :: fork_config where
  "default_fork_config = \<lparr> cfg_ttl = 0, cfg_max_forks = 10, cfg_fork_dir = ''/tmp/mcp-forks'' \<rparr>"

record artifact_record =
  at_path :: string
  at_bytes :: u64
  at_sha256 :: string

record fork_snapshot =
  fs_work_path :: string
  fs_base_path :: string
  fs_state_revision :: string

record fork_info =
  fi_fork_id :: string
  fi_base_path :: string
  fi_created_at :: nat
  fi_edit_count :: nat
  fi_recalc_needed :: bool

text \<open>What the operations take from outside.\<close>

record fork_env =
  fe_sha256 :: "string \<Rightarrow> string"
  fe_canonicalize :: "string \<Rightarrow> string res"
  fe_now :: nat
  fe_clock :: nat

section \<open>One fork\<close>

type_synonym fork_state = "files \<times> fork_context"

definition fork_context_new ::
    "fork_env \<Rightarrow> files \<Rightarrow> string \<Rightarrow> string \<Rightarrow> string \<Rightarrow> fork_context res" where
  "fork_context_new env fs fork_id base_path work_path =
     bind_res (ok_or (bt_get fs base_path) ''No such file or directory'') (\<lambda>metadata.
     bind_res (fs_read fs base_path) (\<lambda>base.
     bind_res (fs_read fs work_path) (\<lambda>work.
     Inr \<lparr> fk_fork_id = fork_id, fk_base_path = base_path, fk_work_path = work_path,
       fk_created_at = fe_clock env, fk_last_accessed = fe_clock env, fk_edits = [],
       fk_staged_changes = [], fk_checkpoints = [], fk_canonical_operations = [],
       fk_recalc_needed = False, fk_state_revision = fe_sha256 env work,
       fk_content_revision = fe_sha256 env work, fk_discarded = False,
       fk_base_hash = fe_sha256 env base, fk_base_modified = fl_modified metadata \<rparr>)))"

definition is_expired :: "fork_env \<Rightarrow> nat \<Rightarrow> fork_context \<Rightarrow> bool" where
  "is_expired env ttl ctx = (ttl \<noteq> 0 \<and> ttl < fe_clock env - fk_last_accessed ctx)"

definition touch :: "fork_env \<Rightarrow> fork_context \<Rightarrow> fork_context" where
  "touch env ctx = ctx \<lparr> fk_last_accessed := fe_clock env \<rparr>"

definition sync_revisions :: "fork_env \<Rightarrow> (fork_state, string) step" where
  "sync_revisions env =
     bind_step (read_step (\<lambda>(fs, ctx). fs_read fs (fk_work_path ctx))) (\<lambda>bytes.
     bind_step (update_step (\<lambda>(fs, ctx).
       (fs, if fe_sha256 env bytes \<noteq> fk_content_revision ctx
            then ctx \<lparr> fk_content_revision := fe_sha256 env bytes,
                       fk_state_revision := fe_sha256 env bytes \<rparr>
            else ctx))) (\<lambda>_.
     read_step (\<lambda>(fs, ctx). Inr (fk_state_revision ctx))))"

definition advance_state_revision :: "string \<Rightarrow> (fork_state, string) step" where
  "advance_state_revision fresh =
     bind_step (update_step (\<lambda>(fs, ctx). (fs, ctx \<lparr> fk_state_revision := ''state:'' @ fresh \<rparr>)))
       (\<lambda>_. return_step (''state:'' @ fresh))"

definition remove_staged_snapshot :: "staged_change \<Rightarrow> files \<Rightarrow> files" where
  "remove_staged_snapshot staged fs =
     (case sg_fork_path_snapshot staged of None \<Rightarrow> fs | Some p \<Rightarrow> fs_remove p fs)"

fun enforce_staged_limits :: "files \<Rightarrow> staged_change list \<Rightarrow> files \<times> staged_change list" where
  "enforce_staged_limits fs [] = (fs, [])"
| "enforce_staged_limits fs (s # ss) =
     (if length (s # ss) > max_staged_changes_per_fork
      then enforce_staged_limits (remove_staged_snapshot s fs) ss else (fs, s # ss))"

definition push_staged_change :: "staged_change \<Rightarrow> (fork_state, unit) step" where
  "push_staged_change staged = update_step (\<lambda>(fs, ctx).
     let (fs, ss) = enforce_staged_limits fs (fk_staged_changes ctx @ [staged])
     in (fs, ctx \<lparr> fk_staged_changes := ss \<rparr>))"

definition push_canonical_operation ::
    "string option \<Rightarrow> string \<Rightarrow> string list \<Rightarrow> string \<Rightarrow> string \<Rightarrow> (fork_state, unit) step" where
  "push_canonical_operation timestamp kind op_kinds before after = update_step (\<lambda>(fs, ctx).
     (fs, ctx \<lparr> fk_canonical_operations := fk_canonical_operations ctx @
       [\<lparr> cr_sequence = (case last_opt (fk_canonical_operations ctx) of
              None \<Rightarrow> 1 | Some operation \<Rightarrow> u64_wrapping_add (cr_sequence operation) 1),
          cr_timestamp = timestamp, cr_kind = kind, cr_op_kinds = op_kinds,
          cr_revision_before = before, cr_revision_after = after \<rparr>] \<rparr>))"

definition validate_base_unchanged :: "fork_env \<Rightarrow> fork_state \<Rightarrow> unit res" where
  "validate_base_unchanged env = (\<lambda>(fs, ctx).
     bind_res (ok_or (bt_get fs (fk_base_path ctx)) ''No such file or directory'') (\<lambda>metadata.
     bail_if (fl_modified metadata \<noteq> fk_base_modified ctx)
       ''base file modified since fork creation'' (
     bail_if (fe_sha256 env (fl_bytes metadata) \<noteq> fk_base_hash ctx)
       ''base file content changed since fork creation'' (Inr ()))))"

definition checkpoint_dir :: "fork_context \<Rightarrow> string" where
  "checkpoint_dir ctx = path_join checkpoint_root (fk_fork_id ctx)"

definition cleanup_files :: "fork_context \<Rightarrow> files \<Rightarrow> files" where
  "cleanup_files ctx fs =
     (let fs = fs_remove (fk_work_path ctx) fs;
          fs = foldl (\<lambda>fs staged. remove_staged_snapshot staged fs) fs (fk_staged_changes ctx)
      in fs_remove_dir_all (checkpoint_dir ctx) fs)"

section \<open>Checkpoints\<close>

definition checkpoint_bytes :: "files \<Rightarrow> fork_checkpoint list \<Rightarrow> nat" where
  "checkpoint_bytes fs cps = sum_list (map (\<lambda>cp.
     case bt_get fs (cp_snapshot_path cp) of None \<Rightarrow> 0 | Some f \<Rightarrow> length (fl_bytes f)) cps)"

fun drop_excess_checkpoints :: "files \<Rightarrow> fork_checkpoint list \<Rightarrow> files \<times> fork_checkpoint list" where
  "drop_excess_checkpoints fs [] = (fs, [])"
| "drop_excess_checkpoints fs (cp # cps) =
     (if length (cp # cps) > max_checkpoints_per_fork
      then drop_excess_checkpoints (fs_remove (cp_snapshot_path cp) fs) cps else (fs, cp # cps))"

fun drop_large_checkpoints :: "files \<Rightarrow> fork_checkpoint list \<Rightarrow> files \<times> fork_checkpoint list" where
  "drop_large_checkpoints fs [] = (fs, [])"
| "drop_large_checkpoints fs (cp # cps) =
     (if checkpoint_bytes fs (cp # cps) \<le> max_checkpoint_total_bytes \<or> length (cp # cps) \<le> 1
      then (fs, cp # cps)
      else drop_large_checkpoints (fs_remove (cp_snapshot_path cp) fs) cps)"

definition enforce_checkpoint_limits :: "(fork_state, unit) step" where
  "enforce_checkpoint_limits = update_step (\<lambda>(fs, ctx).
     let (fs, cps) = drop_excess_checkpoints fs (fk_checkpoints ctx);
         (fs, cps) = drop_large_checkpoints fs cps
     in (fs, ctx \<lparr> fk_checkpoints := cps \<rparr>))"

definition write_copy :: "fork_env \<Rightarrow> string \<Rightarrow> string \<Rightarrow> (fork_state, unit) step" where
  "write_copy env src dst =
     bind_step (read_step (\<lambda>(fs, ctx). fs_copy (fe_now env) src dst fs)) (\<lambda>fs'.
     update_step (\<lambda>(fs, ctx). (fs', ctx)))"

definition checkpoint_of ::
    "fork_env \<Rightarrow> string \<Rightarrow> string option \<Rightarrow> fork_context \<Rightarrow> fork_checkpoint" where
  "checkpoint_of env checkpoint_id label ctx =
     \<lparr> cp_checkpoint_id = checkpoint_id, cp_created_at = fe_now env, cp_label = label,
       cp_snapshot_path = path_join (checkpoint_dir ctx) (checkpoint_id @ ''.xlsx''),
       cp_recalc_needed = fk_recalc_needed ctx,
       cp_snapshot_state_revision = fk_state_revision ctx,
       cp_canonical_operation_len = length (fk_canonical_operations ctx) \<rparr>"

definition fork_create_checkpoint ::
    "fork_env \<Rightarrow> string \<Rightarrow> string \<Rightarrow> string option \<Rightarrow> (fork_state, fork_checkpoint) step" where
  "fork_create_checkpoint env checkpoint_id fresh label =
     bind_step (sync_revisions env) (\<lambda>_.
     bind_step (read_step (\<lambda>(fs, ctx). Inr ctx)) (\<lambda>ctx.
     let checkpoint = checkpoint_of env checkpoint_id label ctx in
     bind_step (write_copy env (fk_work_path ctx) (cp_snapshot_path checkpoint)) (\<lambda>_.
     bind_step (update_step (\<lambda>(fs, ctx).
       (fs, ctx \<lparr> fk_checkpoints := fk_checkpoints ctx @ [checkpoint] \<rparr>))) (\<lambda>_.
     bind_step enforce_checkpoint_limits (\<lambda>_.
     bind_step (advance_state_revision fresh) (\<lambda>_.
     return_step checkpoint))))))"

definition remove_nth :: "nat \<Rightarrow> 'a list \<Rightarrow> 'a list" where
  "remove_nth i xs = take i xs @ drop (Suc i) xs"

definition fork_delete_checkpoint :: "string \<Rightarrow> string \<Rightarrow> (fork_state, unit) step" where
  "fork_delete_checkpoint checkpoint_id fresh =
     bind_step (read_step (\<lambda>(fs, ctx).
       ok_or (position (\<lambda>c. cp_checkpoint_id c = checkpoint_id) (fk_checkpoints ctx))
         ''checkpoint not found'')) (\<lambda>index.
     bind_step (update_step (\<lambda>(fs, ctx).
       (fs_remove (cp_snapshot_path (fk_checkpoints ctx ! index)) fs,
        ctx \<lparr> fk_checkpoints := remove_nth index (fk_checkpoints ctx) \<rparr>))) (\<lambda>_.
     bind_step (advance_state_revision fresh) (\<lambda>_. return_step ())))"

definition fork_restore_checkpoint ::
    "fork_env \<Rightarrow> string \<Rightarrow> string \<Rightarrow> (fork_state, fork_checkpoint) step" where
  "fork_restore_checkpoint env checkpoint_id fresh =
     bind_step (read_step (\<lambda>(fs, ctx).
       ok_or (List.find (\<lambda>c. cp_checkpoint_id c = checkpoint_id) (fk_checkpoints ctx))
         ''checkpoint not found'')) (\<lambda>checkpoint.
     bind_step (read_step (\<lambda>(fs, ctx). Inr (fk_work_path ctx))) (\<lambda>work_path.
     bind_step (write_copy env (cp_snapshot_path checkpoint) work_path) (\<lambda>_.
     let cutoff = cp_created_at checkpoint in
     bind_step (update_step (\<lambda>(fs, ctx).
       (foldl (\<lambda>fs staged. remove_staged_snapshot staged fs) fs
          (filter (\<lambda>s. sg_created_at s > cutoff) (fk_staged_changes ctx)),
        ctx \<lparr> fk_edits := filter (\<lambda>e. ed_timestamp e \<le> cutoff) (fk_edits ctx),
              fk_staged_changes := filter (\<lambda>s. \<not> sg_created_at s > cutoff) (fk_staged_changes ctx),
              fk_recalc_needed := cp_recalc_needed checkpoint \<rparr>))) (\<lambda>_.
     bind_step (read_step (\<lambda>(fs, ctx). fs_read fs (fk_work_path ctx))) (\<lambda>bytes.
     bind_step (update_step (\<lambda>(fs, ctx). (fs, ctx \<lparr> fk_content_revision := fe_sha256 env bytes \<rparr>))) (\<lambda>_.
     bind_step (advance_state_revision fresh) (\<lambda>_.
     return_step checkpoint)))))))"

definition fork_take_staged_change :: "string \<Rightarrow> string \<Rightarrow> (fork_state, staged_change) step" where
  "fork_take_staged_change change_id fresh =
     bind_step (read_step (\<lambda>(fs, ctx).
       ok_or (position (\<lambda>c. sg_change_id c = change_id) (fk_staged_changes ctx))
         ''staged change not found'')) (\<lambda>index.
     bind_step (read_step (\<lambda>(fs, ctx). Inr (fk_staged_changes ctx ! index))) (\<lambda>staged.
     bind_step (update_step (\<lambda>(fs, ctx).
       (fs, ctx \<lparr> fk_staged_changes := remove_nth index (fk_staged_changes ctx) \<rparr>))) (\<lambda>_.
     bind_step (advance_state_revision fresh) (\<lambda>_. return_step staged))))"

definition fork_add_staged_change :: "string \<Rightarrow> staged_change \<Rightarrow> (fork_state, unit) step" where
  "fork_add_staged_change fresh staged =
     bind_step (push_staged_change staged) (\<lambda>_.
     bind_step (advance_state_revision fresh) (\<lambda>_. return_step ()))"

section \<open>The registry\<close>

record fork_registry =
  rg_files :: files
  rg_forks :: "fork_context btree"
  rg_artifacts :: "artifact_record btree"

type_synonym 'a fork_step = "(fork_registry, 'a) step"

definition drop_fork :: "string \<Rightarrow> fork_context \<Rightarrow> fork_registry \<Rightarrow> fork_registry" where
  "drop_fork fork_id ctx st =
     st \<lparr> rg_forks := bt_remove fork_id (rg_forks st),
          rg_files := cleanup_files ctx (rg_files st) \<rparr>"

definition evict_expired :: "fork_config \<Rightarrow> fork_env \<Rightarrow> fork_registry \<Rightarrow> fork_registry" where
  "evict_expired cfg env st =
     (if cfg_ttl cfg = 0 then st
      else foldl (\<lambda>st (fork_id, ctx).
          if fk_discarded ctx \<or> \<not> is_expired env (cfg_ttl cfg) ctx then st
          else drop_fork fork_id ctx st) st (rg_forks st))"

definition evict :: "fork_config \<Rightarrow> fork_env \<Rightarrow> unit fork_step" where
  "evict cfg env = update_step (evict_expired cfg env)"

definition is_xlsx :: "string \<Rightarrow> bool" where
  "is_xlsx p = (map_option (map to_lower) (path_extension p) = Some ''xlsx'')"

text \<open>\<open>candidates\<close> are the random identifiers in the order they are drawn.\<close>

definition create_fork ::
    "fork_config \<Rightarrow> fork_env \<Rightarrow> string list \<Rightarrow> string \<Rightarrow> string fork_step" where
  "create_fork cfg env candidates base_path =
     bind_step (evict cfg env) (\<lambda>_.
     bind_step (read_step (\<lambda>st. bail_if (length (rg_forks st) \<ge> cfg_max_forks cfg)
       ''max forks reached, discard existing forks first'' (Inr ()))) (\<lambda>_.
     bind_step (guard_step (is_xlsx base_path) ''only .xlsx files supported for fork/recalc'') (\<lambda>_.
     bind_step (read_step (\<lambda>st. bail_if (\<not> fs_exists (rg_files st) base_path)
       ''base file does not exist'' (Inr ()))) (\<lambda>_.
     bind_step (read_step (\<lambda>_. fe_canonicalize env base_path)) (\<lambda>base_path_canon.
     bind_step (read_step (\<lambda>st. fs_read (rg_files st) base_path_canon)) (\<lambda>bytes.
     bind_step (guard_step (length bytes \<le> max_file_size) ''base file too large'') (\<lambda>_.
     bind_step (read_step (\<lambda>st. ok_or
         (List.find (\<lambda>candidate. \<not> bt_contains (rg_forks st) candidate
             \<and> \<not> fs_exists (rg_files st) (path_join (cfg_fork_dir cfg) (candidate @ ''.xlsx'')))
           (take 21 candidates)) ''failed to allocate unique fork id'')) (\<lambda>fork_id.
     let work_path = path_join (cfg_fork_dir cfg) (fork_id @ ''.xlsx'') in
     bind_step (read_step (\<lambda>st. fs_copy (fe_now env) base_path_canon work_path (rg_files st))) (\<lambda>fs.
     bind_step (update_step (\<lambda>st. st \<lparr> rg_files := fs \<rparr>)) (\<lambda>_.
     bind_step (read_step (\<lambda>st. fork_context_new env (rg_files st) fork_id base_path_canon work_path)) (\<lambda>ctx.
     bind_step (update_step (\<lambda>st. st \<lparr> rg_forks := bt_insert fork_id ctx (rg_forks st) \<rparr>)) (\<lambda>_.
     return_step fork_id))))))))))))"

text \<open>\<open>with_fork_mut\<close>: run a step of one fork on the registry.\<close>

definition with_fork_mut ::
    "fork_env \<Rightarrow> string \<Rightarrow> (fork_state, 'a) step \<Rightarrow> 'a fork_step" where
  "with_fork_mut env fork_id f st =
     (case bt_get (rg_forks st) fork_id of
        None \<Rightarrow> (st, Inl (Bail ''fork not found''))
      | Some ctx \<Rightarrow>
          if fk_discarded ctx then (st, Inl (Bail ''fork not found''))
          else (case f (rg_files st, touch env ctx) of ((fs, ctx), r) \<Rightarrow>
            (st \<lparr> rg_files := fs, rg_forks := bt_insert fork_id ctx (rg_forks st) \<rparr>, r)))"

definition get_fork :: "fork_config \<Rightarrow> fork_env \<Rightarrow> string \<Rightarrow> fork_context fork_step" where
  "get_fork cfg env fork_id =
     bind_step (evict cfg env) (\<lambda>_.
     with_fork_mut env fork_id (read_step (\<lambda>(fs, ctx). Inr ctx)))"

definition get_fork_path :: "fork_env \<Rightarrow> string \<Rightarrow> string fork_step" where
  "get_fork_path env fork_id =
     with_fork_mut env fork_id (read_step (\<lambda>(fs, ctx). Inr (fk_work_path ctx)))"

definition discard_fork :: "string \<Rightarrow> unit fork_step" where
  "discard_fork fork_id = update_step (\<lambda>st.
     case bt_get (rg_forks st) fork_id of None \<Rightarrow> st | Some ctx \<Rightarrow> drop_fork fork_id ctx st)"

text \<open>The revisions are brought up to date before they are compared, without touching the fork.\<close>

definition discard_fork_cas ::
    "fork_env \<Rightarrow> string \<Rightarrow> string \<Rightarrow> (string \<times> string) fork_step" where
  "discard_fork_cas env fork_id expected_revision st =
     (case bt_get (rg_forks st) fork_id of
        None \<Rightarrow> (st, Inl (Bail ''fork not found''))
      | Some ctx \<Rightarrow>
          if fk_discarded ctx then (st, Inl (Bail ''fork not found''))
          else (case sync_revisions env (rg_files st, ctx) of
            ((fs, ctx), Inl e) \<Rightarrow>
              (st \<lparr> rg_files := fs, rg_forks := bt_insert fork_id ctx (rg_forks st) \<rparr>, Inl e)
          | ((fs, ctx), Inr current) \<Rightarrow>
              if current \<noteq> expected_revision
              then (st \<lparr> rg_files := fs, rg_forks := bt_insert fork_id ctx (rg_forks st) \<rparr>,
                    Inl (Bail ''revision conflict''))
              else (drop_fork fork_id ctx (st \<lparr> rg_files := fs \<rparr>),
                    Inr (fk_state_revision ctx, fk_work_path ctx))))"

definition save_fork ::
    "fork_env \<Rightarrow> string \<Rightarrow> string \<Rightarrow> bool \<Rightarrow> unit fork_step" where
  "save_fork env fork_id target_path drop_it =
     bind_step (read_step (\<lambda>_. fe_canonicalize env target_path)) (\<lambda>_.
     bind_step (guard_step (is_xlsx target_path) ''target must be .xlsx'') (\<lambda>_.
     bind_step (with_fork_mut env fork_id
       (bind_step (read_step (validate_base_unchanged env)) (\<lambda>_.
        bind_step (read_step (\<lambda>(fs, ctx). Inr (fk_work_path ctx))) (\<lambda>work_path.
        write_copy env work_path target_path)))) (\<lambda>_.
     if drop_it then discard_fork fork_id else return_step ())))"

definition list_forks :: "fork_config \<Rightarrow> fork_env \<Rightarrow> fork_info list fork_step" where
  "list_forks cfg env =
     bind_step (evict cfg env) (\<lambda>_.
     read_step (\<lambda>st. Inr (map (\<lambda>ctx. \<lparr> fi_fork_id = fk_fork_id ctx, fi_base_path = fk_base_path ctx,
         fi_created_at = fk_created_at ctx, fi_edit_count = length (fk_edits ctx),
         fi_recalc_needed = fk_recalc_needed ctx \<rparr>)
       (filter (\<lambda>ctx. \<not> fk_discarded ctx) (map snd (rg_forks st))))))"

definition create_checkpoint ::
    "fork_config \<Rightarrow> fork_env \<Rightarrow> string \<Rightarrow> string \<Rightarrow> string \<Rightarrow> string option \<Rightarrow> fork_checkpoint fork_step"
  where
  "create_checkpoint cfg env checkpoint_id fresh fork_id label =
     bind_step (evict cfg env) (\<lambda>_.
     with_fork_mut env fork_id (fork_create_checkpoint env checkpoint_id fresh label))"

definition list_checkpoints ::
    "fork_config \<Rightarrow> fork_env \<Rightarrow> string \<Rightarrow> fork_checkpoint list fork_step" where
  "list_checkpoints cfg env fork_id =
     bind_step (get_fork cfg env fork_id) (\<lambda>ctx. return_step (fk_checkpoints ctx))"

definition delete_checkpoint :: "fork_env \<Rightarrow> string \<Rightarrow> string \<Rightarrow> string \<Rightarrow> unit fork_step" where
  "delete_checkpoint env fresh fork_id checkpoint_id =
     with_fork_mut env fork_id (fork_delete_checkpoint checkpoint_id fresh)"

definition restore_checkpoint ::
    "fork_config \<Rightarrow> fork_env \<Rightarrow> string \<Rightarrow> string \<Rightarrow> string \<Rightarrow> fork_checkpoint fork_step" where
  "restore_checkpoint cfg env fresh fork_id checkpoint_id =
     bind_step (evict cfg env) (\<lambda>_.
     with_fork_mut env fork_id (fork_restore_checkpoint env checkpoint_id fresh))"

definition add_staged_change :: "fork_env \<Rightarrow> string \<Rightarrow> string \<Rightarrow> staged_change \<Rightarrow> unit fork_step" where
  "add_staged_change env fresh fork_id staged =
     with_fork_mut env fork_id (fork_add_staged_change fresh staged)"

definition list_staged_changes ::
    "fork_config \<Rightarrow> fork_env \<Rightarrow> string \<Rightarrow> staged_change list fork_step" where
  "list_staged_changes cfg env fork_id =
     bind_step (get_fork cfg env fork_id) (\<lambda>ctx. return_step (fk_staged_changes ctx))"

definition take_staged_change ::
    "fork_env \<Rightarrow> string \<Rightarrow> string \<Rightarrow> string \<Rightarrow> staged_change fork_step" where
  "take_staged_change env fresh fork_id change_id =
     with_fork_mut env fork_id (fork_take_staged_change change_id fresh)"

definition discard_staged_change :: "fork_env \<Rightarrow> string \<Rightarrow> string \<Rightarrow> string \<Rightarrow> unit fork_step" where
  "discard_staged_change env fresh fork_id change_id =
     bind_step (take_staged_change env fresh fork_id change_id) (\<lambda>removed.
     update_step (\<lambda>st. st \<lparr> rg_files := remove_staged_snapshot removed (rg_files st) \<rparr>))"

definition sync_fork_revisions :: "fork_env \<Rightarrow> string \<Rightarrow> (string \<times> string) fork_step" where
  "sync_fork_revisions env fork_id =
     with_fork_mut env fork_id (bind_step (sync_revisions env) (\<lambda>state_revision.
       read_step (\<lambda>(fs, ctx). Inr (state_revision, fk_content_revision ctx))))"

text \<open>Several forks at once: all are locked in the order of their identifiers, brought up to date,
  and only then copied, so the copies belong to one moment.\<close>

definition copy_fork ::
    "fork_env \<Rightarrow> string \<Rightarrow> nat \<times> string \<Rightarrow> fork_snapshot fork_step" where
  "copy_fork env destination_dir = (\<lambda>(index, fork_id).
     let work_path = path_join destination_dir (''fork-'' @ show_nat index @ ''-work.xlsx'');
         base_path = path_join destination_dir (''fork-'' @ show_nat index @ ''-base.xlsx'') in
     bind_step (read_step (\<lambda>st. ok_or (bt_get (rg_forks st) fork_id)
       ''requested fork id was locked'')) (\<lambda>ctx.
     bind_step (read_step (\<lambda>st. fs_copy (fe_now env) (fk_work_path ctx) work_path (rg_files st))) (\<lambda>fs.
     bind_step (update_step (\<lambda>st. st \<lparr> rg_files := fs \<rparr>)) (\<lambda>_.
     bind_step (read_step (\<lambda>st. fs_copy (fe_now env) (fk_base_path ctx) base_path (rg_files st))) (\<lambda>fs.
     bind_step (update_step (\<lambda>st. st \<lparr> rg_files := fs \<rparr>)) (\<lambda>_.
     return_step \<lparr> fs_work_path = work_path, fs_base_path = base_path,
       fs_state_revision = fk_state_revision ctx \<rparr>))))))"

definition snapshot_forks ::
    "fork_env \<Rightarrow> string list \<Rightarrow> string \<Rightarrow> fork_snapshot list fork_step" where
  "snapshot_forks env fork_ids destination_dir =
     (let unique_ids = remdups_adj (sort fork_ids) in
     bind_step (read_step (\<lambda>st. map_res (\<lambda>fork_id.
       ok_or (bt_get (rg_forks st) fork_id) ''fork not found'') unique_ids)) (\<lambda>_.
     bind_step (map_step (\<lambda>fork_id. with_fork_mut env fork_id (sync_revisions env)) unique_ids) (\<lambda>_.
     map_step (copy_fork env destination_dir) (List.enumerate 0 fork_ids))))"

definition register_artifact :: "string \<Rightarrow> artifact_record \<Rightarrow> unit fork_step" where
  "register_artifact artifact_id rec =
     update_step (\<lambda>st. st \<lparr> rg_artifacts := bt_insert artifact_id rec (rg_artifacts st) \<rparr>)"

definition resolve_artifact :: "fork_registry \<Rightarrow> string \<Rightarrow> artifact_record option" where
  "resolve_artifact st artifact_id = bt_get (rg_artifacts st) artifact_id"

section \<open>Limits of one fork\<close>

definition sequences_ok :: "canonical_operation_record list \<Rightarrow> bool" where
  "sequences_ok ops = (\<forall>i < length ops. cr_sequence (ops ! i) = Suc i mod u64_limit)"

definition within_limits :: "fork_context \<Rightarrow> bool" where
  "within_limits ctx =
     (length (fk_staged_changes ctx) \<le> max_staged_changes_per_fork
      \<and> length (fk_checkpoints ctx) \<le> max_checkpoints_per_fork
      \<and> sequences_ok (fk_canonical_operations ctx))"

definition fork_kept :: "string \<Rightarrow> fork_state \<Rightarrow> bool" where
  "fork_kept fork_id = (\<lambda>(fs, ctx). within_limits ctx \<and> fk_fork_id ctx = fork_id \<and> \<not> fk_discarded ctx)"

lemma enforce_staged_limits_spec:
  "enforce_staged_limits fs ss = (fs', ss') \<Longrightarrow>
     length ss' \<le> max_staged_changes_per_fork \<and> (\<exists>dropped. ss = dropped @ ss')"
proof (induction ss arbitrary: fs)
  case (Cons s ss)
  show ?case
  proof (cases "length (s # ss) > max_staged_changes_per_fork")
    case True
    with Cons obtain dropped where "ss = dropped @ ss'" "length ss' \<le> max_staged_changes_per_fork"
      by auto
    then show ?thesis by (auto intro: exI [of _ "s # dropped"])
  next
    case False
    with Cons.prems show ?thesis by auto
  qed
qed auto

lemma drop_excess_spec:
  "drop_excess_checkpoints fs cps = (fs', cps') \<Longrightarrow>
     length cps' \<le> max_checkpoints_per_fork \<and> (\<exists>dropped. cps = dropped @ cps'
       \<and> fs' = foldl (\<lambda>fs cp. fs_remove (cp_snapshot_path cp) fs) fs dropped)
     \<and> (cps \<noteq> [] \<longrightarrow> cps' \<noteq> [])"
proof (induction cps arbitrary: fs)
  case (Cons c cps)
  show ?case
  proof (cases "length (c # cps) > max_checkpoints_per_fork")
    case True
    then have "cps \<noteq> []" by (auto simp: max_checkpoints_per_fork_def)
    with True Cons obtain dropped where "cps = dropped @ cps'" "length cps' \<le> max_checkpoints_per_fork"
      "fs' = foldl (\<lambda>fs cp. fs_remove (cp_snapshot_path cp) fs) (fs_remove (cp_snapshot_path c) fs) dropped"
      "cps' \<noteq> []" by auto
    then show ?thesis by (auto intro!: exI [of _ "c # dropped"])
  next
    case False
    with Cons.prems show ?thesis by auto
  qed
qed auto

lemma drop_large_spec:
  "drop_large_checkpoints fs cps = (fs', cps') \<Longrightarrow>
     (checkpoint_bytes fs' cps' \<le> max_checkpoint_total_bytes \<or> length cps' \<le> 1)
     \<and> (\<exists>dropped. cps = dropped @ cps'
       \<and> fs' = foldl (\<lambda>fs cp. fs_remove (cp_snapshot_path cp) fs) fs dropped)
     \<and> (cps \<noteq> [] \<longrightarrow> cps' \<noteq> [])"
proof (induction cps arbitrary: fs)
  case (Cons c cps)
  show ?case
  proof (cases "checkpoint_bytes fs (c # cps) \<le> max_checkpoint_total_bytes \<or> length (c # cps) \<le> 1")
    case True
    with Cons.prems show ?thesis by auto
  next
    case False
    with Cons have IH: "checkpoint_bytes fs' cps' \<le> max_checkpoint_total_bytes \<or> length cps' \<le> 1"
      "\<exists>dropped. cps = dropped @ cps' \<and> fs' = foldl (\<lambda>fs cp. fs_remove (cp_snapshot_path cp) fs)
         (fs_remove (cp_snapshot_path c) fs) dropped" "cps' \<noteq> []" by auto
    then obtain dropped where "cps = dropped @ cps'"
      "fs' = foldl (\<lambda>fs cp. fs_remove (cp_snapshot_path cp) fs) (fs_remove (cp_snapshot_path c) fs) dropped"
      by blast
    with IH show ?thesis by (auto intro!: exI [of _ "c # dropped"])
  qed
qed (auto simp: checkpoint_bytes_def)

text \<open>The limits on checkpoints drop the oldest ones only, never the newest, and afterwards
  there are at most 10 of them that occupy at most 500 MB together, unless a single one is
  larger.\<close>

theorem enforce_checkpoint_limits_correct:
  assumes "enforce_checkpoint_limits (fs, ctx) = ((fs', ctx'), r)"
  shows "length (fk_checkpoints ctx') \<le> 10
    \<and> (checkpoint_bytes fs' (fk_checkpoints ctx') \<le> 524288000 \<or> length (fk_checkpoints ctx') = 1)
    \<and> (\<exists>dropped. fk_checkpoints ctx = dropped @ fk_checkpoints ctx')
    \<and> last_opt (fk_checkpoints ctx') = last_opt (fk_checkpoints ctx)"
proof -
  obtain fs1 cps1 where 1: "drop_excess_checkpoints fs (fk_checkpoints ctx) = (fs1, cps1)"
    by (cases "drop_excess_checkpoints fs (fk_checkpoints ctx)")
  obtain fs2 cps2 where 2: "drop_large_checkpoints fs1 cps1 = (fs2, cps2)"
    by (cases "drop_large_checkpoints fs1 cps1")
  from assms 1 2 have res: "fs' = fs2" "fk_checkpoints ctx' = cps2"
    by (auto simp: enforce_checkpoint_limits_def update_step_def)
  from drop_excess_spec [OF 1] obtain d1 where d1: "fk_checkpoints ctx = d1 @ cps1"
    "length cps1 \<le> max_checkpoints_per_fork" "fk_checkpoints ctx \<noteq> [] \<longrightarrow> cps1 \<noteq> []" by blast
  from drop_large_spec [OF 2] obtain d2 where d2: "cps1 = d2 @ cps2"
    "checkpoint_bytes fs2 cps2 \<le> max_checkpoint_total_bytes \<or> length cps2 \<le> 1"
    "cps1 \<noteq> [] \<longrightarrow> cps2 \<noteq> []" by blast
  have "checkpoint_bytes fs2 cps2 \<le> max_checkpoint_total_bytes \<or> length cps2 = 1"
    using d2(2) by (cases cps2) (auto simp: checkpoint_bytes_def)
  moreover have "last_opt cps2 = last_opt (fk_checkpoints ctx)"
    using d1 d2 by (cases "cps2 = []") (auto simp: last_opt_def)
  ultimately show ?thesis using d1 d2 res
    by (auto simp: max_checkpoints_per_fork_def max_checkpoint_total_bytes_def)
qed

section \<open>Every fork operation stays within the limits\<close>

lemma keeps_sync [keeps_intros]: "keeps (fork_kept k) (sync_revisions env)"
  unfolding sync_revisions_def
  by (intro keeps_intros keeps_update) (auto simp: fork_kept_def within_limits_def split: prod.splits)

lemma keeps_advance [keeps_intros]: "keeps (fork_kept k) (advance_state_revision fresh)"
  unfolding advance_state_revision_def
  by (intro keeps_intros keeps_update) (auto simp: fork_kept_def within_limits_def)

lemma keeps_push [keeps_intros]: "keeps (fork_kept k) (push_staged_change staged)"
  unfolding push_staged_change_def
  by (intro keeps_update)
    (auto simp: fork_kept_def within_limits_def dest: enforce_staged_limits_spec split: prod.splits)

lemma keeps_canonical_operation [keeps_intros]:
  "keeps (fork_kept k) (push_canonical_operation t kind kinds before after)"
proof -
  have "sequences_ok (ops @ [\<lparr> cr_sequence = (case last_opt ops of
          None \<Rightarrow> 1 | Some operation \<Rightarrow> u64_wrapping_add (cr_sequence operation) 1),
          cr_timestamp = t, cr_kind = kind, cr_op_kinds = kinds,
          cr_revision_before = before, cr_revision_after = after \<rparr>])" if "sequences_ok ops" for ops
    using that by (cases ops rule: rev_cases)
      (auto simp: sequences_ok_def nth_append less_Suc_eq u64_wrapping_add_def mod_Suc_eq)
  then show ?thesis unfolding push_canonical_operation_def
    by (intro keeps_update) (auto simp: fork_kept_def within_limits_def split: prod.splits)
qed

lemma keeps_write_copy [keeps_intros]: "keeps (fork_kept k) (write_copy env src dst)"
  unfolding write_copy_def
  by (intro keeps_intros keeps_update) (auto simp: fork_kept_def split: prod.splits)

lemma keeps_new_checkpoint [keeps_intros]:
  assumes "keeps (fork_kept k) rest"
  shows "keeps (fork_kept k) (bind_step (update_step (\<lambda>(fs, ctx).
       (fs, ctx \<lparr> fk_checkpoints := fk_checkpoints ctx @ [checkpoint] \<rparr>))) (\<lambda>_.
     bind_step enforce_checkpoint_limits (\<lambda>_. rest)))"
proof -
  have "fork_kept k (fst (enforce_checkpoint_limits
      (fs, ctx \<lparr> fk_checkpoints := fk_checkpoints ctx @ [checkpoint] \<rparr>)))" if "fork_kept k (fs, ctx)" for fs ctx
    using that drop_excess_spec drop_large_spec
    by (fastforce simp: enforce_checkpoint_limits_def update_step_def fork_kept_def within_limits_def
        split: prod.splits)
  then have "keeps (fork_kept k) (bind_step (update_step (\<lambda>(fs, ctx).
       (fs, ctx \<lparr> fk_checkpoints := fk_checkpoints ctx @ [checkpoint] \<rparr>))) (\<lambda>_. enforce_checkpoint_limits))"
    by (auto simp: keeps_def bind_step_def update_step_def)
  from keeps_bind [OF this, of "\<lambda>_. rest"] assms show ?thesis
    by (simp add: keeps_def bind_step_def update_step_def enforce_checkpoint_limits_def split: prod.splits)
qed

lemma length_remove_nth: "length (remove_nth i xs) \<le> length xs"
  by (simp add: remove_nth_def)

lemma keeps_fork_operations [keeps_intros]:
  "keeps (fork_kept k) (fork_create_checkpoint env cid fresh label)"
  "keeps (fork_kept k) (fork_delete_checkpoint cid fresh)"
  "keeps (fork_kept k) (fork_restore_checkpoint env cid fresh)"
  "keeps (fork_kept k) (fork_take_staged_change sid fresh)"
  "keeps (fork_kept k) (fork_add_staged_change fresh staged)"
  unfolding fork_create_checkpoint_def fork_delete_checkpoint_def fork_restore_checkpoint_def
    fork_take_staged_change_def fork_add_staged_change_def Let_def
  by (intro keeps_intros keeps_update; auto simp: fork_kept_def within_limits_def
      intro: le_trans [OF length_remove_nth] le_trans [OF length_filter_le] split: prod.splits)+

section \<open>The registry\<close>

definition registry_ok :: "fork_config \<Rightarrow> fork_registry \<Rightarrow> bool" where
  "registry_ok cfg st =
     (bt_wf (rg_forks st) \<and> length (rg_forks st) \<le> cfg_max_forks cfg
      \<and> (\<forall>k ctx. bt_get (rg_forks st) k = Some ctx \<longrightarrow> fork_kept k (rg_files st, ctx)))"

lemma bt_wf_length: "bt_wf m \<Longrightarrow> length m = card (dom (bt_get m))"
  by (metis bt.keys_dom bt_keys_def bt_wf_distinct distinct_card length_map)

lemma bt_length_insert:
  "bt_wf m \<Longrightarrow> length (bt_insert k v m) = (if bt_get m k = None then Suc (length m) else length m)"
  by (simp add: bt_wf_length bt_wf_insert insert_absorb domIff card_insert_if)

lemma bt_length_remove: "bt_wf m \<Longrightarrow> length (bt_remove k m) \<le> length m"
  by (simp add: bt_remove_def)

lemma fork_kept_files: "fork_kept k (fs, ctx) = fork_kept k (fs', ctx)"
  by (simp add: fork_kept_def)

lemma drop_fork_ok: "registry_ok cfg st \<Longrightarrow> registry_ok cfg (drop_fork k ctx st)"
  using bt_length_remove [of "rg_forks st" k]
  by (auto simp: registry_ok_def drop_fork_def bt_wf_remove fork_kept_def split: if_splits)

lemma evict_expired_ok: "registry_ok cfg st \<Longrightarrow> registry_ok cfg (evict_expired cfg env st)"
proof -
  have "registry_ok cfg (foldl (\<lambda>st (fork_id, ctx).
      if fk_discarded ctx \<or> \<not> is_expired env (cfg_ttl cfg) ctx then st
      else drop_fork fork_id ctx st) st m)" if "registry_ok cfg st" for st m
    using that by (induction m arbitrary: st) (auto simp: drop_fork_ok)
  then show "registry_ok cfg st \<Longrightarrow> registry_ok cfg (evict_expired cfg env st)"
    by (simp add: evict_expired_def)
qed

lemma keeps_evict [keeps_intros]: "keeps (registry_ok cfg) (evict cfg env)"
  unfolding evict_def by (intro keeps_update evict_expired_ok)

lemma fork_kept_touch: "fork_kept k (fs, touch env ctx) = fork_kept k (fs, ctx)"
  by (simp add: fork_kept_def touch_def within_limits_def)

lemma insert_fork_ok:
  assumes "registry_ok cfg st" and "bt_get (rg_forks st) k \<noteq> None" and "fork_kept k (fs, ctx)"
  shows "registry_ok cfg (st \<lparr> rg_files := fs', rg_forks := bt_insert k ctx (rg_forks st) \<rparr>)"
  using assms by (auto simp: registry_ok_def bt_wf_insert bt_length_insert fork_kept_def)

lemma keeps_with_fork_mut [keeps_intros]:
  assumes "keeps (fork_kept k) f"
  shows "keeps (registry_ok cfg) (with_fork_mut env k f)"
proof -
  have "registry_ok cfg (fst (with_fork_mut env k f st))" if ok: "registry_ok cfg st" for st
  proof (cases "bt_get (rg_forks st) k")
    case None
    with ok show ?thesis by (simp add: with_fork_mut_def)
  next
    case (Some ctx)
    with ok have "fork_kept k (rg_files st, touch env ctx)"
      by (auto simp: registry_ok_def fork_kept_touch)
    from keepsD [OF assms this] insert_fork_ok [OF ok, of k] Some ok show ?thesis
      by (auto simp: with_fork_mut_def split: prod.splits)
  qed
  then show ?thesis by (simp add: keeps_def)
qed

lemma keeps_files [keeps_intros]: "keeps (registry_ok cfg) (update_step (\<lambda>st. st \<lparr> rg_files := f st \<rparr>))"
  by (intro keeps_update) (auto simp: registry_ok_def fork_kept_def)

lemma keeps_discard [keeps_intros]: "keeps (registry_ok cfg) (discard_fork k)"
  unfolding discard_fork_def by (intro keeps_update) (auto simp: drop_fork_ok split: option.splits)

lemma keeps_discard_cas [keeps_intros]: "keeps (registry_ok cfg) (discard_fork_cas env k expected)"
proof -
  have "registry_ok cfg (fst (discard_fork_cas env k expected st))" if ok: "registry_ok cfg st" for st
  proof (cases "bt_get (rg_forks st) k")
    case None
    with ok show ?thesis by (simp add: discard_fork_cas_def)
  next
    case (Some ctx)
    obtain fs ctx' r where run: "sync_revisions env (rg_files st, ctx) = ((fs, ctx'), r)"
      by (metis prod.exhaust)
    from Some ok have "fork_kept k (rg_files st, ctx)" by (auto simp: registry_ok_def)
    from keepsD [OF keeps_sync this, of env] run have "fork_kept k (fs, ctx')" by simp
    from insert_fork_ok [OF ok _ this, of fs] Some
    have "registry_ok cfg (st \<lparr> rg_files := fs, rg_forks := bt_insert k ctx' (rg_forks st) \<rparr>)" by simp
    moreover have "registry_ok cfg (drop_fork k ctx' (st \<lparr> rg_files := fs \<rparr>))"
      by (intro drop_fork_ok) (use ok in \<open>simp add: registry_ok_def fork_kept_def\<close>)
    ultimately show ?thesis using Some ok run
      by (cases r) (simp_all add: discard_fork_cas_def)
  qed
  then show ?thesis by (simp add: keeps_def)
qed

lemma keeps_create_fork: "keeps (registry_ok cfg) (create_fork cfg env candidates base)"
proof -
  have step: "registry_ok cfg (st \<lparr> rg_forks := bt_insert k ctx (rg_forks st) \<rparr>)"
    if "registry_ok cfg st" and "length (rg_forks st) < cfg_max_forks cfg"
      and "fork_context_new env (rg_files st) k b w = Inr ctx" for st k ctx b w
    using that
    by (auto simp: registry_ok_def bt_wf_insert bt_length_insert fork_context_new_def bind_res_Inr
        fork_kept_def within_limits_def sequences_ok_def)
  have "registry_ok cfg (fst (create_fork cfg env candidates base st))" if "registry_ok cfg st" for st
  proof -
    define st1 where "st1 = evict_expired cfg env st"
    from that have ok: "registry_ok cfg st1" unfolding st1_def by (rule evict_expired_ok)
    show ?thesis
    proof (cases "length (rg_forks st1) < cfg_max_forks cfg")
      case False
      with ok show ?thesis by (simp add: create_fork_def evict_def step_simps st1_def)
    next
      case True
      have files: "registry_ok cfg (st1 \<lparr> rg_files := fs \<rparr>)" for fs
        using ok by (simp add: registry_ok_def fork_kept_def)
      show ?thesis using True ok files step [OF files, of _ _ "_ :: string"]
        by (auto simp: create_fork_def evict_def step_simps st1_def [symmetric] Let_def
            split: sum.splits)
    qed
  qed
  then show ?thesis by (simp add: keeps_def)
qed

text \<open>The states of a registry: what any sequence of its operations leaves, failed ones included.\<close>

inductive registry_reaches :: "fork_config \<Rightarrow> fork_registry \<Rightarrow> bool" for cfg where
  initial: "registry_reaches cfg \<lparr> rg_files = fs, rg_forks = [], rg_artifacts = [] \<rparr>"
| external: "registry_reaches cfg st \<Longrightarrow> registry_reaches cfg (st \<lparr> rg_files := fs \<rparr>)"
| cleanup: "registry_reaches cfg st \<Longrightarrow> registry_reaches cfg (evict_expired cfg env st)"
| create: "registry_reaches cfg st \<Longrightarrow> registry_reaches cfg (fst (create_fork cfg env cands b st))"
| lookup: "registry_reaches cfg st \<Longrightarrow> registry_reaches cfg (fst (get_fork cfg env k st))"
| path: "registry_reaches cfg st \<Longrightarrow> registry_reaches cfg (fst (get_fork_path env k st))"
| discard: "registry_reaches cfg st \<Longrightarrow> registry_reaches cfg (fst (discard_fork k st))"
| discard_cas: "registry_reaches cfg st \<Longrightarrow>
    registry_reaches cfg (fst (discard_fork_cas env k expected st))"
| save: "registry_reaches cfg st \<Longrightarrow> registry_reaches cfg (fst (save_fork env k target d st))"
| list_all: "registry_reaches cfg st \<Longrightarrow> registry_reaches cfg (fst (list_forks cfg env st))"
| checkpoint: "registry_reaches cfg st \<Longrightarrow>
    registry_reaches cfg (fst (create_checkpoint cfg env cid fresh k label st))"
| delete: "registry_reaches cfg st \<Longrightarrow> registry_reaches cfg (fst (delete_checkpoint env fresh k cid st))"
| restore: "registry_reaches cfg st \<Longrightarrow>
    registry_reaches cfg (fst (restore_checkpoint cfg env fresh k cid st))"
| stage: "registry_reaches cfg st \<Longrightarrow>
    registry_reaches cfg (fst (add_staged_change env fresh k staged st))"
| take_staged: "registry_reaches cfg st \<Longrightarrow>
    registry_reaches cfg (fst (take_staged_change env fresh k sid st))"
| discard_staged: "registry_reaches cfg st \<Longrightarrow>
    registry_reaches cfg (fst (discard_staged_change env fresh k sid st))"
| sync: "registry_reaches cfg st \<Longrightarrow> registry_reaches cfg (fst (sync_fork_revisions env k st))"
| snapshot: "registry_reaches cfg st \<Longrightarrow> registry_reaches cfg (fst (snapshot_forks env ks dir st))"
| artifact: "registry_reaches cfg st \<Longrightarrow> registry_reaches cfg (fst (register_artifact aid rec st))"

lemma keeps_step: "keeps P m \<Longrightarrow> P s \<Longrightarrow> P (fst (m s))"
  by (rule keepsD)

lemma keeps_registry_operations:
  "keeps (registry_ok cfg) (get_fork cfg env k)"
  "keeps (registry_ok cfg) (get_fork_path env k)"
  "keeps (registry_ok cfg) (save_fork env k target d)"
  "keeps (registry_ok cfg) (list_forks cfg env)"
  "keeps (registry_ok cfg) (create_checkpoint cfg env cid fresh k label)"
  "keeps (registry_ok cfg) (delete_checkpoint env fresh k cid)"
  "keeps (registry_ok cfg) (restore_checkpoint cfg env fresh k cid)"
  "keeps (registry_ok cfg) (add_staged_change env fresh k staged)"
  "keeps (registry_ok cfg) (take_staged_change env fresh k sid)"
  "keeps (registry_ok cfg) (sync_fork_revisions env k)"
  unfolding get_fork_def get_fork_path_def save_fork_def list_forks_def create_checkpoint_def
    delete_checkpoint_def restore_checkpoint_def add_staged_change_def take_staged_change_def
    sync_fork_revisions_def
  by (auto intro!: keeps_intros split: if_splits)

lemma keeps_discard_staged: "keeps (registry_ok cfg) (discard_staged_change env fresh k sid)"
  unfolding discard_staged_change_def
  by (intro keeps_bind keeps_registry_operations(9)) (rule keeps_files)

lemma keeps_copy_fork: "keeps (registry_ok cfg) (copy_fork env dir p)"
  unfolding copy_fork_def
  by (cases p) (auto intro!: keeps_intros simp: Let_def)

lemma keeps_snapshot: "keeps (registry_ok cfg) (snapshot_forks env ks dir)"
  unfolding snapshot_forks_def Let_def
  by (intro keeps_bind keeps_read keeps_map keeps_with_fork_mut keeps_sync keeps_copy_fork)

lemma keeps_artifact: "keeps (registry_ok cfg) (register_artifact aid rec)"
  unfolding register_artifact_def by (intro keeps_update) (simp add: registry_ok_def)


section \<open>Checkpoints bring the work file back\<close>

lemma fs_read_remove_all:
  "p \<notin> cp_snapshot_path ` set dropped \<Longrightarrow>
     fs_read (foldl (\<lambda>fs cp. fs_remove (cp_snapshot_path cp) fs) fs dropped) p = fs_read fs p"
  by (induction dropped arbitrary: fs) auto

lemma fs_read_remove_staged:
  "\<forall>s \<in> set ss. sg_fork_path_snapshot s \<noteq> Some p \<Longrightarrow>
     fs_read (foldl (\<lambda>fs staged. remove_staged_snapshot staged fs) fs ss) p = fs_read fs p"
  by (induction ss arbitrary: fs) (auto simp: remove_staged_snapshot_def split: option.splits)

lemma enforce_checkpoint_limits_files:
  assumes "enforce_checkpoint_limits (fs, ctx \<lparr> fk_checkpoints := cps @ [cp] \<rparr>) = ((fs', ctx'), r)"
    and "\<forall>c \<in> set cps. cp_snapshot_path c \<noteq> p"
  shows "fs_read fs' p = fs_read fs p"
proof -
  obtain fs1 cps1 where 1: "drop_excess_checkpoints fs (cps @ [cp]) = (fs1, cps1)"
    by (cases "drop_excess_checkpoints fs (cps @ [cp])")
  obtain fs2 cps2 where 2: "drop_large_checkpoints fs1 cps1 = (fs2, cps2)"
    by (cases "drop_large_checkpoints fs1 cps1")
  from assms(1) 1 2 have fs': "fs' = fs2" by (simp add: enforce_checkpoint_limits_def update_step_def)
  from drop_excess_spec [OF 1] obtain d1 where d1: "cps @ [cp] = d1 @ cps1" "cps1 \<noteq> []"
    "fs1 = foldl (\<lambda>fs cp. fs_remove (cp_snapshot_path cp) fs) fs d1" by auto
  from drop_large_spec [OF 2] d1(2) obtain d2 where d2: "cps1 = d2 @ cps2" "cps2 \<noteq> []"
    "fs2 = foldl (\<lambda>fs cp. fs_remove (cp_snapshot_path cp) fs) fs1 d2" by auto
  have "fs2 = foldl (\<lambda>fs cp. fs_remove (cp_snapshot_path cp) fs) fs (d1 @ d2)" by (simp add: d1 d2)
  moreover have "set (d1 @ d2) \<subseteq> set cps"
  proof -
    from d2(2) obtain rest z where "cps2 = rest @ [z]" by (cases cps2 rule: rev_cases) auto
    with d1(1) d2(1) have "cps @ [cp] = (d1 @ d2 @ rest) @ [z]" by simp
    then have "cps = d1 @ d2 @ rest" by (simp only: append1_eq_conv)
    then show ?thesis by auto
  qed
  ultimately show ?thesis using assms(2) fs' fs_read_remove_all [of p "d1 @ d2" fs] by auto
qed

lemma sync_revisions_frame:
  "sync_revisions env (fs, ctx) = ((fs', ctx'), r) \<Longrightarrow>
     fs' = fs \<and> fk_work_path ctx' = fk_work_path ctx \<and> fk_checkpoints ctx' = fk_checkpoints ctx
     \<and> fk_recalc_needed ctx' = fk_recalc_needed ctx \<and> fk_fork_id ctx' = fk_fork_id ctx"
  by (auto simp: sync_revisions_def step_simps split: sum.splits if_split_asm)

lemma fork_create_checkpoint_shape:
  assumes run: "fork_create_checkpoint env cid fresh label (fs, ctx) = ((fs1, ctx1), Inr cp)"
    and fresh: "\<forall>c \<in> set (fk_checkpoints ctx). cp_snapshot_path c \<noteq> cp_snapshot_path cp"
  shows "fs_read fs1 (cp_snapshot_path cp) = fs_read fs (fk_work_path ctx)"
    and "is_ok (fs_read fs (fk_work_path ctx))"
    and "cp_recalc_needed cp = fk_recalc_needed ctx" and "cp_checkpoint_id cp = cid"
proof -
  obtain fss ctxs r where sync: "sync_revisions env (fs, ctx) = ((fss, ctxs), r)"
    by (metis prod.exhaust)
  note frame = sync_revisions_frame [OF sync]
  from run sync have cp: "cp = checkpoint_of env cid label ctxs"
    by (auto simp: fork_create_checkpoint_def bind_step_ok read_step_def return_step_def Let_def)
  from run sync frame obtain fsw where copy: "fs_copy (fe_now env) (fk_work_path ctx) (cp_snapshot_path cp) fs = Inr fsw"
    and limits: "\<exists>ctx2 r2. enforce_checkpoint_limits (fsw, ctxs \<lparr> fk_checkpoints := fk_checkpoints ctxs @ [cp] \<rparr>)
        = ((fs1, ctx2), r2)"
    by (auto simp: fork_create_checkpoint_def bind_step_ok read_step_def return_step_def Let_def cp
        write_copy_def update_step_def advance_state_revision_def)
  from copy obtain bytes where bytes: "fs_read fs (fk_work_path ctx) = Inr bytes"
    and fsw: "fsw = fs_write (fe_now env) (cp_snapshot_path cp) bytes fs"
    by (auto simp: fs_copy_def bind_res_Inr)
  from limits enforce_checkpoint_limits_files [where fs = fsw and ctx = ctxs and cps = "fk_checkpoints ctxs" and cp = cp]
    fresh frame bytes
  show "fs_read fs1 (cp_snapshot_path cp) = fs_read fs (fk_work_path ctx)" by (auto simp: fsw)
  show "is_ok (fs_read fs (fk_work_path ctx))" by (simp add: bytes)
  show "cp_recalc_needed cp = fk_recalc_needed ctx" "cp_checkpoint_id cp = cid"
    using frame by (simp_all add: cp checkpoint_of_def)
qed

text \<open>C34: restoring a checkpoint brings back the bytes the work file had when it was made, and
  the flag that says whether it needs recalculation, whatever was written in between, as long as
  the checkpoint is still listed and its snapshot file was not touched.\<close>

theorem checkpoint_roundtrip:
  assumes "fork_create_checkpoint env cid fresh label (fs, ctx) = ((fs1, ctx1), Inr cp)"
    and "\<forall>c \<in> set (fk_checkpoints ctx). cp_snapshot_path c \<noteq> cp_snapshot_path cp"
    and "List.find (\<lambda>c. cp_checkpoint_id c = cid) (fk_checkpoints ctx2) = Some cp"
    and "fs_read fs2 (cp_snapshot_path cp) = fs_read fs1 (cp_snapshot_path cp)"
    and "fk_work_path ctx2 = fk_work_path ctx"
    and "\<forall>s \<in> set (fk_staged_changes ctx2). sg_fork_path_snapshot s \<noteq> Some (fk_work_path ctx)"
  shows "\<exists>fs3 ctx3 bytes. fork_restore_checkpoint env2 cid fresh2 (fs2, ctx2) = ((fs3, ctx3), Inr cp)
    \<and> fs_read fs (fk_work_path ctx) = Inr bytes \<and> fs_read fs3 (fk_work_path ctx3) = Inr bytes
    \<and> fk_content_revision ctx3 = fe_sha256 env2 bytes
    \<and> fk_recalc_needed ctx3 = fk_recalc_needed ctx"
proof -
  note shape = fork_create_checkpoint_shape [OF assms(1,2)]
  from shape(2) obtain bytes where bytes: "fs_read fs (fk_work_path ctx) = Inr bytes"
    by (auto simp: is_ok_def split: sum.splits)
  with shape(1) assms(4) have copy: "fs_copy (fe_now env2) (cp_snapshot_path cp) (fk_work_path ctx) fs2
      = Inr (fs_write (fe_now env2) (fk_work_path ctx) bytes fs2)" by (simp add: fs_copy_def)
  have read: "fs_read (foldl (\<lambda>fs staged. remove_staged_snapshot staged fs)
      (fs_write (fe_now env2) (fk_work_path ctx) bytes fs2) (filter p (fk_staged_changes ctx2)))
      (fk_work_path ctx) = Inr bytes" for p
    using fs_read_remove_staged [of "filter p (fk_staged_changes ctx2)" "fk_work_path ctx"] assms(6)
    by simp
  show ?thesis
    by (simp add: fork_restore_checkpoint_def step_simps assms(3,5) write_copy_def copy Let_def read
        advance_state_revision_def bytes shape(3))
qed

section \<open>A concrete registry\<close>

definition demo_fork_env :: fork_env where
  "demo_fork_env = \<lparr> fe_sha256 = (\<lambda>s. s), fe_canonicalize = Inr, fe_now = 5, fe_clock = 5 \<rparr>"

definition demo_fork_files :: "string \<Rightarrow> files" where
  "demo_fork_files w = [(''a.xlsx'', \<lparr> fl_bytes = ''B'', fl_modified = 1 \<rparr>),
     (''f.xlsx'', \<lparr> fl_bytes = w, fl_modified = 2 \<rparr>)]"

definition demo_fork :: fork_context where
  "demo_fork = \<lparr> fk_fork_id = ''f'', fk_base_path = ''a.xlsx'', fk_work_path = ''f.xlsx'',
     fk_created_at = 2, fk_last_accessed = 2, fk_edits = [], fk_staged_changes = [],
     fk_checkpoints = [], fk_canonical_operations = [], fk_recalc_needed = False,
     fk_state_revision = ''W'', fk_content_revision = ''W'', fk_discarded = False,
     fk_base_hash = ''B'', fk_base_modified = 1 \<rparr>"

definition demo_checkpoint :: fork_checkpoint where
  "demo_checkpoint = checkpoint_of demo_fork_env ''cp1'' None demo_fork"

lemma demo_checkpoint_path:
  "cp_snapshot_path demo_checkpoint = ''/tmp/mcp-checkpoints/f/cp1.xlsx''"
  by (simp add: demo_checkpoint_def checkpoint_of_def path_join_def checkpoint_dir_def
      checkpoint_root_def demo_fork_def)

definition demo_saved :: files where
  "demo_saved = fs_write 5 (cp_snapshot_path demo_checkpoint) ''W'' (demo_fork_files ''W'')"

lemma demo_read:
  "fs_read (demo_fork_files w) ''f.xlsx'' = Inr w"
  "fs_read (demo_fork_files w) (cp_snapshot_path demo_checkpoint) = Inl (Bail ''No such file or directory'')"
  by (simp_all add: fs_read_def demo_fork_files_def bt_get_def demo_checkpoint_path)

lemma demo_create_checkpoint:
  "fork_create_checkpoint demo_fork_env ''cp1'' ''r2'' None (demo_fork_files ''W'', demo_fork)
     = ((demo_saved, demo_fork \<lparr> fk_checkpoints := [demo_checkpoint], fk_state_revision := ''state:r2'' \<rparr>),
        Inr demo_checkpoint)"
proof -
  have work: "fk_work_path demo_fork = ''f.xlsx''" "fk_content_revision demo_fork = ''W''"
    "fk_checkpoints demo_fork = []" by (simp_all add: demo_fork_def)
  have sha: "fe_sha256 demo_fork_env x = x" "fe_now demo_fork_env = 5" for x
    by (simp_all add: demo_fork_env_def)
  have "checkpoint_of demo_fork_env ''cp1'' None demo_fork = demo_checkpoint"
    by (simp add: demo_checkpoint_def)
  then show ?thesis
    by (simp add: fork_create_checkpoint_def step_simps sync_revisions_def work sha demo_read Let_def
        write_copy_def fs_copy_def enforce_checkpoint_limits_def max_checkpoints_per_fork_def
        advance_state_revision_def demo_saved_def)
qed

theorem checkpoint_roundtrip_witness:
  "\<exists>fs3 ctx3. fork_restore_checkpoint demo_fork_env ''cp1'' ''r3''
      (fs_write 6 ''f.xlsx'' ''X'' demo_saved, demo_fork \<lparr> fk_checkpoints := [demo_checkpoint] \<rparr>)
        = ((fs3, ctx3), Inr demo_checkpoint)
    \<and> fs_read fs3 ''f.xlsx'' = Inr ''W''"
proof -
  have work: "fk_work_path demo_fork = ''f.xlsx''" "fk_checkpoints demo_fork = []"
    "fk_staged_changes demo_fork = []" by (simp_all add: demo_fork_def)
  have id: "cp_checkpoint_id demo_checkpoint = ''cp1''"
    by (simp add: demo_checkpoint_def checkpoint_of_def)
  from checkpoint_roundtrip [OF demo_create_checkpoint, of "demo_fork \<lparr> fk_checkpoints := [demo_checkpoint] \<rparr>"
      "fs_write 6 ''f.xlsx'' ''X'' demo_saved" demo_fork_env "''r3''"]
  obtain fs3 ctx3 bytes where res: "fork_restore_checkpoint demo_fork_env ''cp1'' ''r3''
      (fs_write 6 ''f.xlsx'' ''X'' demo_saved, demo_fork \<lparr> fk_checkpoints := [demo_checkpoint] \<rparr>)
        = ((fs3, ctx3), Inr demo_checkpoint)" "Inr ''W'' = (Inr bytes :: string res)"
      "fs_read fs3 (fk_work_path ctx3) = Inr bytes"
    by (auto simp: work id demo_read demo_checkpoint_path)
  have "fk_work_path ctx3 = ''f.xlsx''" using res(1)
    by (auto simp: fork_restore_checkpoint_def bind_step_ok read_step_def update_step_def
        return_step_def write_copy_def advance_state_revision_def Let_def work)
  with res show ?thesis by auto
qed

theorem enforce_checkpoint_limits_correct_witness:
  "length (fk_checkpoints (snd (fst (enforce_checkpoint_limits
     (demo_saved, demo_fork \<lparr> fk_checkpoints := replicate 12 demo_checkpoint \<rparr>))))) \<le> 10"
proof -
  obtain fs' ctx' r where run: "enforce_checkpoint_limits
     (demo_saved, demo_fork \<lparr> fk_checkpoints := replicate 12 demo_checkpoint \<rparr>) = ((fs', ctx'), r)"
    by (metis prod.exhaust)
  from enforce_checkpoint_limits_correct [OF run] show ?thesis by (simp add: run)
qed

definition demo_registry :: fork_registry where
  "demo_registry = fst (create_fork default_fork_config demo_fork_env [''f''] ''a.xlsx''
     \<lparr> rg_files = [(''a.xlsx'', \<lparr> fl_bytes = ''B'', fl_modified = 1 \<rparr>)], rg_forks = [],
       rg_artifacts = [] \<rparr>)"


end
