(* ===== verification/WriteTxn.thy ===== *)
theory WriteTxn
  imports WriteValidate Forks
begin

text \<open>
  The write transaction of \<open>canonical_write.rs\<close>: the storage interface
  \<open>WriteTransactionBackend\<close> with its two implementations (bytes in memory, a fork's work file),
  the atomic and the operation-by-operation run of a request, and the response.

  The workbook engine (reading and writing a workbook, applying one operation, comparing two
  workbooks) is the parameter \<open>write_engine\<close>; an operation may leave the workbook changed even
  when it fails, as the code's mutable reference does.
\<close>

section \<open>Interfaces\<close>

record 'w write_engine =
  en_read :: "string \<Rightarrow> 'w res"
  en_write :: "'w \<Rightarrow> string res"
  en_apply :: "'w \<Rightarrow> write_op \<Rightarrow> formula_parse_policy \<Rightarrow> 'w \<times> json res"
  en_diff :: "string \<Rightarrow> string \<Rightarrow> json list res"

record write_snapshot =
  ws_bytes :: string
  ws_revision :: string
  ws_content_revision :: string

record 'b write_backend =
  be_validate_resource :: "'b \<Rightarrow> string \<Rightarrow> unit res"
  be_snapshot :: "('b, write_snapshot) step"
  be_supports_stage :: bool
  be_commit :: "string \<Rightarrow> string \<Rightarrow> string list \<Rightarrow> ('b, string) step"
  be_stage :: "string \<Rightarrow> write_op staged_bundle \<Rightarrow> string option \<Rightarrow> write_impact \<Rightarrow> write_diff
      \<Rightarrow> ('b, string \<times> string) step"

section \<open>Results of operations\<close>

definition write_error :: "nat \<Rightarrow> write_op \<Rightarrow> err \<Rightarrow> write_op_result" where
  "write_error index op e =
     \<lparr> wr_index = index, wr_kind = op_kind op, wr_status = StFailed, wr_detail = None,
       wr_error = Some \<lparr> we_code = ''OPERATION_FAILED'', we_message = (case e of Bail m \<Rightarrow> m),
         we_path = ''$.ops['' @ show_nat index @ '']'', we_retryable = False \<rparr> \<rparr>"

definition skipped_result :: "nat \<Rightarrow> write_op \<Rightarrow> write_op_result" where
  "skipped_result index op =
     \<lparr> wr_index = index, wr_kind = op_kind op, wr_status = StSkipped, wr_detail = None,
       wr_error = None \<rparr>"

definition applied_result :: "nat \<Rightarrow> write_op \<Rightarrow> json \<Rightarrow> write_op_result" where
  "applied_result index op detail =
     \<lparr> wr_index = index, wr_kind = op_kind op, wr_status = StApplied, wr_detail = Some detail,
       wr_error = None \<rparr>"

definition changes_to_write_diff :: "json list \<Rightarrow> write_diff" where
  "changes_to_write_diff changes =
     \<lparr> wd_change_count = length changes, wd_exact = True,
       wd_precision = ''exact_baseline_to_result'', wd_changes = changes, wd_effects = [] \<rparr>"

definition no_diff :: write_diff where
  "no_diff = changes_to_write_diff []"

definition add_effect_manifest :: "write_diff \<Rightarrow> write_op_result list \<Rightarrow> write_diff" where
  "add_effect_manifest d results =
     (let effects = wd_effects d @ List.map_filter (\<lambda>r.
            if wr_kind r = ''set_cells'' then None
            else map_option (\<lambda>effect. JObj [(''effect'', effect), (''kind'', JStr ''operation_effect''),
              (''op_index'', JInt (int (wr_index r))), (''op_kind'', JStr (wr_kind r))]) (wr_detail r)) results;
          d = d \<lparr> wd_effects := effects \<rparr>
      in if effects \<noteq> []
         then d \<lparr> wd_exact := False,
                   wd_precision := ''exact_cells_names_tables_plus_declared_effects'' \<rparr>
         else d)"

section \<open>Running the operations\<close>

text \<open>The loop of \<open>apply_atomic_candidate\<close> over the operations with their indexes.\<close>

fun atomic_loop ::
    "'w write_engine \<Rightarrow> formula_parse_policy \<Rightarrow> nat \<Rightarrow> 'w \<Rightarrow> nat option \<Rightarrow> write_op list
      \<Rightarrow> 'w \<times> write_op_result list \<times> nat option" where
  "atomic_loop en policy index candidate failure [] = (candidate, [], failure)"
| "atomic_loop en policy index candidate failure (op # ops) =
     (if failure \<noteq> None then
        (case atomic_loop en policy (index + 1) candidate failure ops of
           (w, results, f) \<Rightarrow> (w, skipped_result index op # results, f))
      else
        (case en_apply en candidate op policy of
           (candidate, Inr detail) \<Rightarrow>
             (case atomic_loop en policy (index + 1) candidate None ops of
                (w, results, f) \<Rightarrow> (w, applied_result index op detail # results, f))
         | (candidate, Inl e) \<Rightarrow>
             (case atomic_loop en policy (index + 1) candidate (Some index) ops of
                (w, results, f) \<Rightarrow> (w, write_error index op e # results, f))))"

definition apply_atomic_candidate ::
    "'w write_engine \<Rightarrow> 'w \<Rightarrow> write_op list \<Rightarrow> formula_parse_policy
      \<Rightarrow> 'w \<times> write_op_result list \<times> nat option" where
  "apply_atomic_candidate en original ops policy = atomic_loop en policy 0 original None ops"

text \<open>The loop of a request that is not atomic: every operation runs on a copy, which is kept when
  it succeeds. The result is the workbook, the results, the number applied and whether one failed.\<close>

fun partial_loop ::
    "'w write_engine \<Rightarrow> formula_parse_policy \<Rightarrow> nat \<Rightarrow> 'w \<Rightarrow> nat \<Rightarrow> bool \<Rightarrow> write_op list
      \<Rightarrow> 'w \<times> write_op_result list \<times> nat \<times> bool" where
  "partial_loop en policy index current applied failed [] = (current, [], applied, failed)"
| "partial_loop en policy index current applied failed (op # ops) =
     (if failed then
        (case partial_loop en policy (index + 1) current applied failed ops of
           (w, results, n, f) \<Rightarrow> (w, skipped_result index op # results, n, f))
      else
        (case en_apply en current op policy of
           (candidate, Inr detail) \<Rightarrow>
             (case partial_loop en policy (index + 1) candidate (applied + 1) False ops of
                (w, results, n, f) \<Rightarrow> (w, applied_result index op detail # results, n, f))
         | (_, Inl e) \<Rightarrow>
             (case partial_loop en policy (index + 1) current applied True ops of
                (w, results, n, f) \<Rightarrow> (w, write_error index op e # results, n, f))))"

section \<open>The response\<close>

definition set_status :: "write_op_status \<Rightarrow> write_op_result \<Rightarrow> write_op_result" where
  "set_status st r = r \<lparr> wr_status := st \<rparr>"

definition roll_back :: "nat \<Rightarrow> write_op_result list \<Rightarrow> write_op_result list" where
  "roll_back index results =
     map (set_status StRolledBack) (take index results) @ drop index results"

definition canonical_response_from_prepared ::
    "write_request \<Rightarrow> string \<Rightarrow> string \<Rightarrow> write_op_result list \<Rightarrow> write_diff \<Rightarrow> write_impact
      \<Rightarrow> nat option \<Rightarrow> nat \<Rightarrow> string option \<Rightarrow> write_response_data" where
  "canonical_response_from_prepared request before after results d impact failure applied change_id =
     (case failure of
        Some index \<Rightarrow>
          if wq_mode request = Apply \<and> wq_atomic request
          then RolledBack Apply True before before 0 True no_diff impact (roll_back index results)
          else if wq_mode request \<noteq> Apply
          then Failed (wq_mode request) (wq_atomic request) before before 0
                 (add_effect_manifest d (roll_back index results)) impact (roll_back index results)
          else Partial Apply False before after applied (add_effect_manifest d results) impact results
      | None \<Rightarrow>
          let d = add_effect_manifest d results in
          (case wq_mode request of
             Preview \<Rightarrow> Previewed Preview (wq_atomic request) before before (length (wq_ops request)) d
                 impact (map (set_status StPreviewed) results)
           | Stage \<Rightarrow> Staged Stage True before after (length (wq_ops request)) (the change_id) d impact
                 (map (set_status StStaged) results)
           | Apply \<Rightarrow> Applied Apply (wq_atomic request) before after applied d impact results))"

definition policy_name :: "formula_parse_policy \<Rightarrow> string" where
  "policy_name p = (case p of PolicyFail \<Rightarrow> ''fail'' | PolicyWarn \<Rightarrow> ''warn'' | PolicyOff \<Rightarrow> ''off'')"

definition diff_bytes :: "'w write_engine \<Rightarrow> string \<Rightarrow> string \<Rightarrow> write_diff res" where
  "diff_bytes en before after =
     bind_res (en_diff en before after) (\<lambda>changes. Inr (changes_to_write_diff changes))"

section \<open>The transaction\<close>

definition write_policy :: "write_request \<Rightarrow> formula_parse_policy" where
  "write_policy request =
     (case wq_formula_parse_policy request of None \<Rightarrow> PolicyWarn | Some p \<Rightarrow> p)"

definition request_impact :: "write_request \<Rightarrow> write_impact" where
  "request_impact request =
     \<lparr> wi_op_kinds = map op_kind (wq_ops request), wi_risk = worst_risk (wq_ops request) \<rparr>"

definition request_bundle :: "write_request \<Rightarrow> write_snapshot \<Rightarrow> write_op staged_bundle" where
  "request_bundle request snapshot =
     \<lparr> sb_base_revision = ws_content_revision snapshot, sb_max_risk = wi_risk (request_impact request),
       sb_atomic = True, sb_ops = wq_ops request, sb_label = wq_label request,
       sb_formula_parse_policy = map_option policy_name (wq_formula_parse_policy request) \<rparr>"

definition run_atomic ::
    "'w write_engine \<Rightarrow> 'b write_backend \<Rightarrow> write_request \<Rightarrow> write_snapshot \<Rightarrow> 'w
      \<Rightarrow> ('b, write_response_data) step" where
  "run_atomic en be request snapshot original =
     (let impact = request_impact request;
          rev = ws_revision snapshot in
      case apply_atomic_candidate en original (wq_ops request) (write_policy request) of
        (candidate, results, failure) \<Rightarrow>
          if failure \<noteq> None then
            bind_step (read_step (\<lambda>_.
              if wq_mode request = Apply then Inr no_diff
              else bind_res (en_write en candidate) (\<lambda>bytes. diff_bytes en (ws_bytes snapshot) bytes)))
              (\<lambda>d. return_step
                (canonical_response_from_prepared request rev rev results d impact failure 0 None))
          else
            bind_step (read_step (\<lambda>_. en_write en candidate)) (\<lambda>candidate_bytes.
            bind_step (read_step (\<lambda>_. diff_bytes en (ws_bytes snapshot) candidate_bytes)) (\<lambda>d.
            bind_step (case wq_mode request of
                Preview \<Rightarrow> return_step (rev, None)
              | Stage \<Rightarrow> bind_step (be_stage be rev (request_bundle request snapshot) (wq_label request)
                    impact d) (\<lambda>(change_id, after). return_step (after, Some change_id))
              | Apply \<Rightarrow> bind_step (be_commit be rev candidate_bytes (wi_op_kinds impact))
                    (\<lambda>after. return_step (after, None))) (\<lambda>(after, change_id).
            return_step (canonical_response_from_prepared request rev after results d impact None
              (length (wq_ops request)) change_id)))))"

definition run_partial ::
    "'w write_engine \<Rightarrow> 'b write_backend \<Rightarrow> write_request \<Rightarrow> write_snapshot \<Rightarrow> 'w
      \<Rightarrow> ('b, write_response_data) step" where
  "run_partial en be request snapshot original =
     (let impact = request_impact request;
          rev = ws_revision snapshot in
      case partial_loop en (write_policy request) 0 original 0 False (wq_ops request) of
        (current, results, applied, failed) \<Rightarrow>
          bind_step (read_step (\<lambda>_. en_write en current)) (\<lambda>current_bytes.
          bind_step (read_step (\<lambda>_. diff_bytes en (ws_bytes snapshot) current_bytes)) (\<lambda>d.
          bind_step (if applied > 0
              then be_commit be rev current_bytes (take applied (wi_op_kinds impact))
              else return_step rev) (\<lambda>after.
          return_step (canonical_response_from_prepared request rev after results d impact
            (if failed then Some applied else None) applied None)))))"

definition execute_write_transaction ::
    "'w write_engine \<Rightarrow> write_lib \<Rightarrow> 'b write_backend \<Rightarrow> write_request
      \<Rightarrow> ('b, write_response_data) step" where
  "execute_write_transaction en lib be request =
     bind_step (read_step (\<lambda>_. validate_request lib request)) (\<lambda>_.
     bind_step (read_step (\<lambda>b. be_validate_resource be b (wq_resource_id request))) (\<lambda>_.
     bind_step (read_step (\<lambda>_. if wq_mode request = Stage \<and> \<not> be_supports_stage be
         then invalid_request ''mode 'stage' is unavailable for in-memory sessions; use preview or apply''
         else Inr ())) (\<lambda>_.
     bind_step (be_snapshot be) (\<lambda>snapshot.
     bind_step (guard_step (wq_expected_revision request = ws_revision snapshot) ''revision conflict'') (\<lambda>_.
     bind_step (read_step (\<lambda>_. en_read en (ws_bytes snapshot))) (\<lambda>original.
     if wq_mode request = Preview \<or> wq_mode request = Stage \<or> wq_atomic request
     then run_atomic en be request snapshot original
     else run_partial en be request snapshot original))))))"

section \<open>What the runs compute\<close>

text \<open>The operations in order until the first one that fails: the workbook the successful ones
  leave, what they report, and the failing operation with its error.\<close>

fun run_ops ::
    "'w write_engine \<Rightarrow> formula_parse_policy \<Rightarrow> 'w \<Rightarrow> write_op list
      \<Rightarrow> 'w \<times> json list \<times> (write_op \<times> err) option" where
  "run_ops en policy w [] = (w, [], None)"
| "run_ops en policy w (op # ops) =
     (case en_apply en w op policy of
        (w', Inr detail) \<Rightarrow> (case run_ops en policy w' ops of (w'', ds, f) \<Rightarrow> (w'', detail # ds, f))
      | (_, Inl e) \<Rightarrow> (w, [], Some (op, e)))"

text \<open>The results the code reports for it, with the given status for the successful ones.\<close>

definition report :: "nat \<Rightarrow> write_op list \<Rightarrow> json list \<Rightarrow> (write_op \<times> err) option \<Rightarrow> write_op_result list" where
  "report index ops ds failed =
     (let n = length ds in
      map (\<lambda>(i, op, d). applied_result i op d) (zip [index ..< index + n] (zip (take n ops) ds))
      @ (case failed of
           None \<Rightarrow> []
         | Some (op, e) \<Rightarrow> write_error (index + n) op e
             # map (\<lambda>(i, op). skipped_result i op)
                 (zip [index + n + 1 ..< index + length ops] (drop (n + 1) ops))))"

lemma run_ops_length: "run_ops en policy w ops = (w', ds, f) \<Longrightarrow>
    (f = None \<longrightarrow> length ds = length ops) \<and> (f \<noteq> None \<longrightarrow> length ds < length ops)"
  by (induction ops arbitrary: w w' ds f) (auto split: prod.splits sum.splits)

lemma atomic_loop_failed:
  "atomic_loop en policy index w (Some k) ops =
     (w, map (\<lambda>(i, op). skipped_result i op) (zip [index ..< index + length ops] ops), Some k)"
  by (induction ops arbitrary: index) (simp_all add: upt_conv_Cons del: upt_Suc)

lemma partial_loop_failed:
  "partial_loop en policy index w n True ops =
     (w, map (\<lambda>(i, op). skipped_result i op) (zip [index ..< index + length ops] ops), n, True)"
  by (induction ops arbitrary: index) (simp_all add: upt_conv_Cons del: upt_Suc)

lemma report_Cons: "report index (op # ops) (d # ds) f = applied_result index op d # report (Suc index) ops ds f"
  by (auto simp: report_def Let_def upt_conv_Cons simp del: upt_Suc split: option.splits)

lemma report_failed:
  "report index (op # ops) [] (Some (op, e)) = write_error index op e
     # map (\<lambda>(i, op). skipped_result i op) (zip [Suc index ..< Suc index + length ops] ops)"
  by (simp add: report_def del: upt_Suc)

lemma atomic_loop_run:
  "run_ops en policy w ops = (w', ds, f) \<Longrightarrow>
   \<exists>c. atomic_loop en policy index w None ops =
     (c, report index ops ds f, case f of None \<Rightarrow> None | Some _ \<Rightarrow> Some (index + length ds))
     \<and> (f = None \<longrightarrow> c = w')"
proof (induction ops arbitrary: w ds index)
  case Nil
  then show ?case by (auto simp: report_def)
next
  case (Cons op ops)
  obtain v r where app: "en_apply en w op policy = (v, r)" by (metis prod.exhaust)
  show ?case
  proof (cases r)
    case (Inl e)
    with app Cons.prems show ?thesis by (auto simp: atomic_loop_failed report_failed)
  next
    case (Inr d)
    with app Cons.prems obtain ds' where rest: "run_ops en policy v ops = (w', ds', f)" "ds = d # ds'"
      by (auto split: prod.splits)
    from Cons.IH [OF rest(1), of "Suc index"] show ?thesis
      by (auto simp: app Inr rest(2) report_Cons split: option.splits)
  qed
qed

lemma partial_loop_run:
  "run_ops en policy w ops = (w', ds, f) \<Longrightarrow>
   partial_loop en policy index w n False ops = (w', report index ops ds f, n + length ds, f \<noteq> None)"
proof (induction ops arbitrary: w ds index n)
  case Nil
  then show ?case by (auto simp: report_def)
next
  case (Cons op ops)
  obtain v r where app: "en_apply en w op policy = (v, r)" by (metis prod.exhaust)
  show ?case
  proof (cases r)
    case (Inl e)
    with app Cons.prems show ?thesis by (auto simp: partial_loop_failed report_failed)
  next
    case (Inr d)
    with app Cons.prems obtain ds' where rest: "run_ops en policy v ops = (w', ds', f)" "ds = d # ds'"
      by (auto split: prod.splits)
    from Cons.IH [OF rest(1), of "Suc index" "Suc n"] show ?thesis
      by (auto simp: app Inr rest(2) report_Cons)
  qed
qed

section \<open>What a write promises\<close>

text \<open>A failed transaction leaves what the storage holds. A transaction that answers saw the
  revision the request expects, and answers and stores what the run of its operations says: with
  no mode but \<open>Apply\<close> nothing is stored; an atomic request stores the workbook of all its operations
  or nothing; a request that is not atomic stores the workbook of those before the first failure.\<close>

definition write_contract ::
    "'w write_engine \<Rightarrow> write_request \<Rightarrow> string \<Rightarrow> string res \<Rightarrow> string res
      \<Rightarrow> write_response_data res \<Rightarrow> bool" where
  "write_contract en req cur before after r =
     (case r of
        Inl _ \<Rightarrow> after = before
      | Inr resp \<Rightarrow> \<exists>base w0. before = Inr base \<and> en_read en base = Inr w0 \<and> wq_expected_revision req = cur \<and>
          (case run_ops en (write_policy req) w0 (wq_ops req) of (w, ds, failed) \<Rightarrow>
            let results = report 0 (wq_ops req) ds failed; impact = request_impact req in
            \<exists>new d change_id.
             if wq_mode req \<noteq> Apply then after = before
               \<and> resp = (case failed of
                   Some _ \<Rightarrow> Failed (wq_mode req) (wq_atomic req) cur cur 0 d impact
                     (roll_back (length ds) results)
                 | None \<Rightarrow> if wq_mode req = Preview
                     then Previewed Preview (wq_atomic req) cur cur (length (wq_ops req)) d impact
                       (map (set_status StPreviewed) results)
                     else Staged Stage True cur new (length (wq_ops req)) change_id d impact
                       (map (set_status StStaged) results))
             else if wq_atomic req then
               (case failed of
                  Some _ \<Rightarrow> after = before
                    \<and> resp = RolledBack Apply True cur cur 0 True no_diff impact
                        (roll_back (length ds) results)
                | None \<Rightarrow> after = en_write en w \<and> is_ok after
                    \<and> resp = Applied Apply True cur new (length (wq_ops req)) d impact results)
             else
               (if ds = [] then after = before \<and> new = cur else after = en_write en w \<and> is_ok after)
               \<and> resp = (case failed of
                   None \<Rightarrow> Applied Apply False cur new (length ds) d impact results
                 | Some _ \<Rightarrow> Partial Apply False cur new (length ds) d impact results)))"

section \<open>The contract of the storage\<close>

text \<open>\<open>content\<close> is what a reader of the storage sees, \<open>revision\<close> what a snapshot would name it.\<close>

locale write_storage =
  fixes be :: "'b write_backend"
    and content :: "'b \<Rightarrow> string res"
    and revision :: "'b \<Rightarrow> string"
    and ready :: "'b \<Rightarrow> bool"
  assumes snapshot_ok: "ready b \<Longrightarrow> be_snapshot be b = (b', Inr s) \<Longrightarrow>
      ready b' \<and> content b' = content b \<and> content b = Inr (ws_bytes s)
      \<and> revision b' = revision b \<and> revision b = ws_revision s"
    and snapshot_fail: "ready b \<Longrightarrow> be_snapshot be b = (b', Inl e) \<Longrightarrow> content b' = content b"
    and commit_ok: "ready b \<Longrightarrow> be_commit be expected bytes kinds b = (b', Inr after) \<Longrightarrow>
      content b' = Inr bytes \<and> expected = revision b"
    and commit_fail: "ready b \<Longrightarrow> be_commit be expected bytes kinds b = (b', Inl e) \<Longrightarrow>
      content b' = content b"
    and stage_pure: "ready b \<Longrightarrow> be_stage be expected bundle label impact d b = (b', r) \<Longrightarrow>
      content b' = content b"
begin

lemma transaction_cases:
  assumes "ready b" and "execute_write_transaction en lib be req b = (b', r)"
  obtains (refused) e where "r = Inl e" and "content b' = content b"
  | (started) s b1 w0 where "be_snapshot be b = (b1, Inr s)" and "ready b1" and "content b1 = content b"
      and "content b = Inr (ws_bytes s)" and "ws_revision s = wq_expected_revision req"
      and "revision b = wq_expected_revision req" and "validate_request lib req = Inr ()"
      and "en_read en (ws_bytes s) = Inr w0"
      and "(if wq_mode req = Preview \<or> wq_mode req = Stage \<or> wq_atomic req
            then run_atomic en be req s w0 else run_partial en be req s w0) b1 = (b', r)"
proof -
  obtain b1 rs where snap: "be_snapshot be b = (b1, rs)" by (metis prod.exhaust)
  let ?run = "\<lambda>s w0. (if wq_mode req = Preview \<or> wq_mode req = Stage \<or> wq_atomic req
            then run_atomic en be req s w0 else run_partial en be req s w0)"
  have cases: "(\<exists>e. r = Inl e \<and> (b' = b \<or> (b' = b1 \<and> rs = Inl e) \<or> (b' = b1 \<and> is_ok rs)))
      \<or> (\<exists>s w0. rs = Inr s \<and> wq_expected_revision req = ws_revision s \<and> validate_request lib req = Inr ()
           \<and> en_read en (ws_bytes s) = Inr w0 \<and> ?run s w0 b1 = (b', r))"
    using assms(2) snap
    by (auto simp: execute_write_transaction_def step_simps split: sum.splits if_split_asm)
  then show thesis
  proof
    assume "\<exists>e. r = Inl e \<and> (b' = b \<or> (b' = b1 \<and> rs = Inl e) \<or> (b' = b1 \<and> is_ok rs))"
    then show thesis
      using snapshot_fail [OF assms(1)] snapshot_ok [OF assms(1)] snap refused
      by (cases rs) auto
  next
    assume "\<exists>s w0. rs = Inr s \<and> wq_expected_revision req = ws_revision s \<and> validate_request lib req = Inr ()
           \<and> en_read en (ws_bytes s) = Inr w0 \<and> ?run s w0 b1 = (b', r)"
    then obtain s w0 where s: "rs = Inr s" "wq_expected_revision req = ws_revision s"
      "validate_request lib req = Inr ()" "en_read en (ws_bytes s) = Inr w0" "?run s w0 b1 = (b', r)" by blast
    from snap s(1) have snap': "be_snapshot be b = (b1, Inr s)" by simp
    from snapshot_ok [OF assms(1) snap'] s snap' started [of b1 s w0] show thesis by auto
  qed
qed

lemma run_atomic_outcome:
  assumes "ready b" and "wq_mode req = Apply" and "wq_atomic req"
    and ops: "run_ops en (write_policy req) w0 (wq_ops req) = (w, ds, f)"
    and run: "run_atomic en be req s w0 b = (b', r)"
  shows "case r of
      Inl e \<Rightarrow> f = None \<and> content b' = content b
    | Inr resp \<Rightarrow> (case f of
        Some _ \<Rightarrow> content b' = content b
          \<and> resp = RolledBack Apply True (ws_revision s) (ws_revision s) 0 True no_diff (request_impact req)
              (roll_back (length ds) (report 0 (wq_ops req) ds f))
      | None \<Rightarrow> \<exists>bytes after d. en_write en w = Inr bytes \<and> content b' = Inr bytes
          \<and> resp = Applied Apply True (ws_revision s) after (length (wq_ops req)) d (request_impact req)
              (report 0 (wq_ops req) ds None))"
proof -
  from atomic_loop_run [OF ops, of 0] obtain c where loop:
    "apply_atomic_candidate en w0 (wq_ops req) (write_policy req)
       = (c, report 0 (wq_ops req) ds f, case f of None \<Rightarrow> None | Some _ \<Rightarrow> Some (length ds))"
    and c: "f = None \<longrightarrow> c = w" by (cases f) (auto simp: apply_atomic_candidate_def)
  show ?thesis
  proof (cases f)
    case (Some x)
    with run loop assms(2,3) show ?thesis
      by (auto simp: run_atomic_def Let_def step_simps canonical_response_from_prepared_def)
  next
    case None
    with run loop c assms(1-3) show ?thesis
      by (auto simp: run_atomic_def Let_def step_simps canonical_response_from_prepared_def
          split: sum.splits prod.splits dest: commit_ok commit_fail)
  qed
qed

lemma run_pure:
  assumes "ready b" and "wq_mode req \<noteq> Apply"
    and ops: "run_ops en (write_policy req) w0 (wq_ops req) = (w, ds, f)"
    and run: "run_atomic en be req s w0 b = (b', r)"
  shows "content b' = content b \<and> (\<forall>resp. r = Inr resp \<longrightarrow> (\<exists>after d change_id. resp = (case f of
      Some _ \<Rightarrow> Failed (wq_mode req) (wq_atomic req) (ws_revision s) (ws_revision s) 0 d
        (request_impact req) (roll_back (length ds) (report 0 (wq_ops req) ds f))
    | None \<Rightarrow> if wq_mode req = Preview
        then Previewed Preview (wq_atomic req) (ws_revision s) (ws_revision s) (length (wq_ops req)) d
          (request_impact req) (map (set_status StPreviewed) (report 0 (wq_ops req) ds None))
        else Staged Stage True (ws_revision s) after (length (wq_ops req)) change_id d
          (request_impact req) (map (set_status StStaged) (report 0 (wq_ops req) ds None)))))"
proof -
  from atomic_loop_run [OF ops, of 0] obtain c where loop:
    "apply_atomic_candidate en w0 (wq_ops req) (write_policy req)
       = (c, report 0 (wq_ops req) ds f, case f of None \<Rightarrow> None | Some _ \<Rightarrow> Some (length ds))"
    by (cases f) (auto simp: apply_atomic_candidate_def)
  show ?thesis
  proof (cases f)
    case (Some x)
    with run loop assms(2) show ?thesis
      by (auto simp: run_atomic_def Let_def step_simps canonical_response_from_prepared_def
          split: sum.splits)
  next
    case None
    with run loop assms(1,2) show ?thesis
      by (cases "wq_mode req")
        (auto simp: run_atomic_def Let_def step_simps canonical_response_from_prepared_def
          split: sum.splits prod.splits dest: stage_pure)
  qed
qed

lemma run_partial_outcome:
  assumes "ready b" and "wq_mode req = Apply" and "\<not> wq_atomic req"
    and ops: "run_ops en (write_policy req) w0 (wq_ops req) = (w, ds, f)"
    and run: "run_partial en be req s w0 b = (b', r)"
  shows "case r of
      Inl e \<Rightarrow> content b' = content b
    | Inr resp \<Rightarrow> (\<exists>after d. (if ds = [] then content b' = content b \<and> after = ws_revision s
            else en_write en w = content b' \<and> is_ok (content b'))
        \<and> resp = (case f of
            None \<Rightarrow> Applied Apply False (ws_revision s) after (length ds) d (request_impact req)
              (report 0 (wq_ops req) ds f)
          | Some _ \<Rightarrow> Partial Apply False (ws_revision s) after (length ds) d (request_impact req)
              (report 0 (wq_ops req) ds f)))"
proof -
  from partial_loop_run [OF ops, of 0 0] have loop:
    "partial_loop en (write_policy req) 0 w0 0 False (wq_ops req)
       = (w, report 0 (wq_ops req) ds f, length ds, f \<noteq> None)" by simp
  show ?thesis
    using run loop assms(1-3)
    by (cases f; cases ds)
      (auto simp: run_partial_def Let_def step_simps canonical_response_from_prepared_def
        split: sum.splits prod.splits dest: commit_ok commit_fail)
qed

lemma transaction_contract:
  assumes "ready b" and "execute_write_transaction en lib be req b = (b', r)"
  shows "write_contract en req (revision b) (content b) (content b') r
    \<and> (is_ok r \<longrightarrow> validate_request lib req = Inr ())"
  using assms
proof (cases rule: transaction_cases)
  case (refused e)
  then show ?thesis by (simp add: write_contract_def)
next
  case (started s b1 w0)
  obtain w ds f where ops: "run_ops en (write_policy req) w0 (wq_ops req) = (w, ds, f)"
    by (metis prod.exhaust)
  note base = started(3-8) ops
  show ?thesis
  proof (cases "wq_mode req = Apply")
    case False
    with started have run: "run_atomic en be req s w0 b1 = (b', r)"
      by (cases "wq_mode req") auto
    from run_pure [OF started(2) False ops run] base False show ?thesis
      by (cases r; cases f; cases "wq_mode req") (auto simp: write_contract_def Let_def)
  next
    case mode_apply: True
    show ?thesis
    proof (cases "wq_atomic req")
      case True
      with started have run: "run_atomic en be req s w0 b1 = (b', r)" by simp
      from run_atomic_outcome [OF started(2) mode_apply True ops run] base mode_apply True show ?thesis
        by (cases r; cases f; cases "wq_mode req") (auto simp: write_contract_def Let_def)
    next
      case False
      with started mode_apply have run: "run_partial en be req s w0 b1 = (b', r)" by simp
      from run_partial_outcome [OF started(2) mode_apply False ops run] base mode_apply False show ?thesis
        by (cases r; cases f; cases ds) (auto simp: write_contract_def Let_def)
    qed
  qed
qed

end

section \<open>Bytes in memory\<close>

record byte_session =
  bs_bytes :: string
  bs_revision :: string
  bs_committed :: "string option"

definition byte_session_backend :: "(string \<Rightarrow> string) \<Rightarrow> string \<Rightarrow> byte_session write_backend" where
  "byte_session_backend sha fresh =
     \<lparr> be_validate_resource = (\<lambda>b resource_id.
         if starts_with resource_id ''session:'' then Inr ()
         else invalid_request ''in-memory write requires a session: mutable resource_id''),
       be_snapshot = (\<lambda>b. (b, Inr \<lparr> ws_bytes = bs_bytes b, ws_revision = bs_revision b,
         ws_content_revision = sha (bs_bytes b) \<rparr>)),
       be_supports_stage = False,
       be_commit = (\<lambda>expected_revision bytes op_kinds.
         bind_step (read_step (\<lambda>b. bail_if (expected_revision \<noteq> bs_revision b)
           ''revision conflict'' (Inr ()))) (\<lambda>_.
         bind_step (update_step (\<lambda>b. b \<lparr> bs_committed := Some bytes \<rparr>)) (\<lambda>_.
         return_step (''state:'' @ fresh)))),
       be_stage = (\<lambda>expected bundle label impact d b.
         (b, invalid_request
           ''mode 'stage' is unavailable for this storage backend; use preview or apply'')) \<rparr>"

definition byte_content :: "byte_session \<Rightarrow> string res" where
  "byte_content b = Inr (case bs_committed b of None \<Rightarrow> bs_bytes b | Some bytes \<Rightarrow> bytes)"

interpretation byte_session: write_storage "byte_session_backend sha fresh" byte_content bs_revision
    "\<lambda>b. bs_committed b = None" for sha fresh
  by unfold_locales
    (auto simp: byte_session_backend_def byte_content_def step_simps bail_if_def invalid_request_def
      split: if_splits)

section \<open>The work file of a fork\<close>

definition fs_rename :: "string \<Rightarrow> string \<Rightarrow> files \<Rightarrow> files res" where
  "fs_rename src dst fs =
     bind_res (ok_or (bt_get fs src) ''No such file or directory'') (\<lambda>f.
     Inr (bt_remove src (bt_insert dst f fs)))"

text \<open>\<open>staged_summary\<close> of the bundle that is put on the list of staged changes.\<close>

definition staged_summary :: "string list \<Rightarrow> nat \<Rightarrow> nat \<Rightarrow> change_summary" where
  "staged_summary op_kinds ops changes =
     \<lparr> cs_op_kinds = op_kinds, cs_affected_sheets = [], cs_affected_bounds = [],
       cs_counts = bt_insert ''preview_change_items'' changes (bt_insert ''ops_staged'' ops []),
       cs_flags = [], cs_warnings = [] \<rparr>"

record fork_backend_env =
  fb_env :: fork_env
  fb_temp :: string
  fb_fresh :: string
  fb_change_id :: string
  fb_timestamp :: string
  fb_bundle_value :: "write_op staged_bundle \<Rightarrow> json"

definition check_revision :: "fork_env \<Rightarrow> string \<Rightarrow> (fork_state, unit) step" where
  "check_revision env expected_revision =
     bind_step (sync_revisions env) (\<lambda>current.
     guard_step (current = expected_revision) ''revision conflict'')"

definition fork_file_commit ::
    "fork_backend_env \<Rightarrow> string \<Rightarrow> string \<Rightarrow> string list \<Rightarrow> (fork_state, string) step" where
  "fork_file_commit fb expected_revision bytes op_kinds =
     bind_step (check_revision (fb_env fb) expected_revision) (\<lambda>_.
     bind_step (read_step (\<lambda>(fs, ctx). Inr (fk_work_path ctx))) (\<lambda>work_path.
     bind_step (write_copy (fb_env fb) work_path (fb_temp fb)) (\<lambda>_.
     bind_step (update_step (\<lambda>(fs, ctx). (fs_write (fe_now (fb_env fb)) (fb_temp fb) bytes fs, ctx))) (\<lambda>_.
     bind_step (read_step (\<lambda>(fs, ctx). fs_rename (fb_temp fb) work_path fs)) (\<lambda>fs'.
     bind_step (update_step (\<lambda>(fs, ctx). (fs', ctx \<lparr> fk_recalc_needed := True \<rparr>))) (\<lambda>_.
     bind_step (read_step (\<lambda>(fs, ctx). fs_read fs work_path)) (\<lambda>new_bytes.
     bind_step (update_step (\<lambda>(fs, ctx).
       (fs, ctx \<lparr> fk_content_revision := fe_sha256 (fb_env fb) new_bytes \<rparr>))) (\<lambda>_.
     bind_step (advance_state_revision (fb_fresh fb)) (\<lambda>revision_after.
     bind_step (push_canonical_operation (Some (fb_timestamp fb)) ''write'' op_kinds
       expected_revision revision_after) (\<lambda>_.
     return_step revision_after))))))))))"

definition fork_file_stage ::
    "fork_backend_env \<Rightarrow> string \<Rightarrow> write_op staged_bundle \<Rightarrow> string option \<Rightarrow> write_impact
      \<Rightarrow> write_diff \<Rightarrow> (fork_state, string \<times> string) step" where
  "fork_file_stage fb expected_revision bundle label impact d =
     bind_step (check_revision (fb_env fb) expected_revision) (\<lambda>_.
     bind_step (push_staged_change
       \<lparr> sg_change_id = fb_change_id fb, sg_created_at = fe_now (fb_env fb), sg_label = label,
         sg_ops = [\<lparr> so_kind = ''canonical_write_bundle'', so_payload = fb_bundle_value fb bundle \<rparr>],
         sg_summary = staged_summary (wi_op_kinds impact) (length (sb_ops bundle)) (wd_change_count d),
         sg_fork_path_snapshot = None \<rparr>) (\<lambda>_.
     bind_step (advance_state_revision (fb_fresh fb)) (\<lambda>revision_after.
     return_step (fb_change_id fb, revision_after))))"

definition fork_file_backend :: "fork_backend_env \<Rightarrow> fork_state write_backend" where
  "fork_file_backend fb =
     \<lparr> be_validate_resource = (\<lambda>(fs, ctx) resource_id.
         if starts_with resource_id ''fork:'' \<and> to_workbook_id resource_id = fk_fork_id ctx then Inr ()
         else invalid_request ''native canonical write requires the bound fork: mutable resource_id''),
       be_snapshot = bind_step (sync_revisions (fb_env fb)) (\<lambda>revision.
         read_step (\<lambda>(fs, ctx). bind_res (fs_read fs (fk_work_path ctx)) (\<lambda>bytes.
           Inr \<lparr> ws_bytes = bytes, ws_revision = revision,
             ws_content_revision = fk_content_revision ctx \<rparr>))),
       be_supports_stage = True,
       be_commit = fork_file_commit fb,
       be_stage = fork_file_stage fb \<rparr>"

definition fork_content :: "fork_state \<Rightarrow> string res" where
  "fork_content = (\<lambda>(fs, ctx). fs_read fs (fk_work_path ctx))"

definition fork_revision :: "fork_backend_env \<Rightarrow> fork_state \<Rightarrow> string" where
  "fork_revision fb = (\<lambda>(fs, ctx). case fs_read fs (fk_work_path ctx) of
     Inl _ \<Rightarrow> fk_state_revision ctx
   | Inr bytes \<Rightarrow> let h = fe_sha256 (fb_env fb) bytes in
       if h \<noteq> fk_content_revision ctx then h else fk_state_revision ctx)"

text \<open>The temporary file is a new one, and no staged change keeps its snapshot in the work file.\<close>

definition fork_ready :: "fork_backend_env \<Rightarrow> fork_state \<Rightarrow> bool" where
  "fork_ready fb = (\<lambda>(fs, ctx). fb_temp fb \<noteq> fk_work_path ctx
     \<and> (\<forall>s \<in> set (fk_staged_changes ctx). sg_fork_path_snapshot s \<noteq> Some (fk_work_path ctx)))"

lemma sync_run:
  "sync_revisions (fb_env fb) (fs, ctx) = (case fs_read fs (fk_work_path ctx) of
     Inl e \<Rightarrow> ((fs, ctx), Inl e)
   | Inr bytes \<Rightarrow> ((fs, if fe_sha256 (fb_env fb) bytes \<noteq> fk_content_revision ctx
         then ctx \<lparr> fk_content_revision := fe_sha256 (fb_env fb) bytes,
                    fk_state_revision := fe_sha256 (fb_env fb) bytes \<rparr> else ctx),
       Inr (fork_revision fb (fs, ctx))))"
  by (auto simp: sync_revisions_def step_simps fork_revision_def Let_def split: sum.splits)


lemma fs_read_rename:
  assumes "bt_get fs src = Some f" and "src \<noteq> dst"
  shows "fs_rename src dst fs = Inr (bt_remove src (bt_insert dst f fs))"
    and "fs_read (bt_remove src (bt_insert dst f fs)) dst = Inr (fl_bytes f)"
  using assms by (simp_all add: fs_rename_def fs_read_def)

lemma check_revision_cases:
  "check_revision (fb_env fb) expected (fs, ctx) = ((fs', ctx'), r) \<Longrightarrow>
     fs' = fs \<and> fk_work_path ctx' = fk_work_path ctx \<and> fk_staged_changes ctx' = fk_staged_changes ctx
     \<and> (r = Inr () \<longrightarrow> expected = fork_revision fb (fs, ctx))"
  by (auto simp: check_revision_def sync_run step_simps split: sum.splits if_splits)

lemma fs_read_write_rename:
  assumes "tmp \<noteq> work" and "fs_rename tmp work (fs_write now tmp bytes fs) = Inr fs'"
  shows "fs_read fs' work = Inr bytes"
  using assms by (auto simp: fs_rename_def fs_write_def fs_read_def)

lemma fork_commit_content:
  assumes "fb_temp fb \<noteq> fk_work_path ctx" and "fork_file_commit fb expected bytes kinds (fs, ctx) = (b', r)"
  shows "fork_content b' = (case r of Inl _ \<Rightarrow> fork_content (fs, ctx) | Inr _ \<Rightarrow> Inr bytes)
    \<and> (is_ok r \<longrightarrow> expected = fork_revision fb (fs, ctx))"
proof -
  obtain fs1 ctx1 r1 where check: "check_revision (fb_env fb) expected (fs, ctx) = ((fs1, ctx1), r1)"
    by (metis prod.exhaust)
  note c = check_revision_cases [OF check]
  show ?thesis
  proof (cases "r1 = Inr ()")
    case False
    with assms(2) check c show ?thesis
      by (cases r1) (auto simp: fork_file_commit_def bind_step_def fork_content_def)
  next
    case True
    have renamed: "fs_rename (fb_temp fb) (fk_work_path ctx)
        (fs_write (fe_now (fb_env fb)) (fb_temp fb) bytes fs0)
        = Inr (bt_remove (fb_temp fb) (bt_insert (fk_work_path ctx)
            \<lparr> fl_bytes = bytes, fl_modified = fe_now (fb_env fb) \<rparr>
            (fs_write (fe_now (fb_env fb)) (fb_temp fb) bytes fs0)))" for fs0
      by (simp add: fs_rename_def fs_write_def)
    have read: "fs_read (bt_remove (fb_temp fb) (bt_insert (fk_work_path ctx)
            \<lparr> fl_bytes = bytes, fl_modified = fe_now (fb_env fb) \<rparr>
            (fs_write (fe_now (fb_env fb)) (fb_temp fb) bytes fs0))) (fk_work_path ctx) = Inr bytes" for fs0
      using assms(1) by (simp add: fs_read_def)
    from True assms check c show ?thesis
      by (auto simp: fork_file_commit_def step_simps write_copy_def fs_copy_def fork_content_def
          renamed read advance_state_revision_def push_canonical_operation_def split: sum.splits)
  qed
qed

lemma staged_limits_content:
  "\<forall>s \<in> set ss. sg_fork_path_snapshot s \<noteq> Some p \<Longrightarrow>
     fs_read (fst (enforce_staged_limits fs ss)) p = fs_read fs p"
  by (induction fs ss rule: enforce_staged_limits.induct)
    (auto simp: remove_staged_snapshot_def split: option.splits)

lemma fork_stage_content:
  assumes "fork_ready fb (fs, ctx)" and "fork_file_stage fb expected bundle label impact d (fs, ctx) = (b', r)"
  shows "fork_content b' = fork_content (fs, ctx)"
proof -
  obtain fs1 ctx1 r1 where check: "check_revision (fb_env fb) expected (fs, ctx) = ((fs1, ctx1), r1)"
    by (metis prod.exhaust)
  note c = check_revision_cases [OF check]
  have "fs_read (fst (enforce_staged_limits fs1 (fk_staged_changes ctx1 @ [s]))) (fk_work_path ctx1)
      = fs_read fs1 (fk_work_path ctx1)" if "sg_fork_path_snapshot s = None" for s
    using c assms(1) that by (intro staged_limits_content) (auto simp: fork_ready_def)
  with assms(2) check c show ?thesis
    by (cases r1) (auto simp: fork_file_stage_def step_simps push_staged_change_def
        advance_state_revision_def fork_content_def Let_def split_beta)
qed

interpretation fork_file: write_storage "fork_file_backend fb" fork_content "fork_revision fb"
    "fork_ready fb" for fb
proof (unfold_locales, goal_cases)
  case (1 b b' s)
  then show ?case
    by (cases b) (auto simp: fork_file_backend_def step_simps sync_run fork_content_def fork_ready_def
        fork_revision_def Let_def split: sum.splits if_splits)
next
  case (2 b b' e)
  then show ?case
    by (cases b) (auto simp: fork_file_backend_def step_simps sync_run fork_content_def
        split: sum.splits if_splits)
next
  case (3 b expected bytes kinds b' after)
  then show ?case
    using fork_commit_content [of fb "snd b" expected bytes kinds "fst b"]
    by (cases b) (auto simp: fork_file_backend_def fork_ready_def)
next
  case (4 b expected bytes kinds b' e)
  then show ?case
    using fork_commit_content [of fb "snd b" expected bytes kinds "fst b"]
    by (cases b) (auto simp: fork_file_backend_def fork_ready_def)
next
  case (5 b expected staged label impact d b' r)
  then show ?case
    using fork_stage_content [of fb "fst b" "snd b"] by (cases b) (auto simp: fork_file_backend_def)
qed

section \<open>Properties\<close>

text \<open>C1: a canonical write on the work file of a fork keeps the contract of a write: an error leaves
  the work file as it was; an answer is given only to a valid request that names the current
  revision; preview and stage store nothing, an atomic request stores the workbook of all its
  operations or nothing and says which, and a request that is not atomic stores exactly the
  operations before the first failure; the reported results list every operation once.\<close>

theorem fork_write_transaction:
  assumes "fork_ready fb b"
    and "execute_write_transaction en lib (fork_file_backend fb) req b = (b', r)"
  shows "write_contract en req (fork_revision fb b) (fork_content b) (fork_content b') r
    \<and> (is_ok r \<longrightarrow> validate_request lib req = Inr ())"
  by (rule fork_file.transaction_contract [OF assms])

text \<open>C7: the same contract for a canonical write on bytes held in memory, for any hash and any
  fresh identifier.\<close>

theorem byte_write_transaction:
  assumes "bs_committed b = None"
    and "execute_write_transaction en lib (byte_session_backend sha fresh) req b = (b', r)"
  shows "write_contract en req (bs_revision b) (byte_content b) (byte_content b') r
    \<and> (is_ok r \<longrightarrow> validate_request lib req = Inr ())"
  by (rule byte_session.transaction_contract [OF assms])

lemma fork_commit_success:
  assumes "fork_ready fb (fs, ctx)" and "fs_read fs (fk_work_path ctx) = Inr base"
    and "expected = fork_revision fb (fs, ctx)"
  shows "\<exists>b'. fork_file_commit fb expected bytes kinds (fs, ctx) = (b', Inr (''state:'' @ fb_fresh fb))
    \<and> fork_content b' = Inr bytes \<and> fork_revision fb b' = ''state:'' @ fb_fresh fb"
proof -
  have renamed: "fs_rename (fb_temp fb) (fk_work_path ctx)
      (fs_write (fe_now (fb_env fb)) (fb_temp fb) bytes fs0)
      = Inr (bt_remove (fb_temp fb) (bt_insert (fk_work_path ctx)
          \<lparr> fl_bytes = bytes, fl_modified = fe_now (fb_env fb) \<rparr>
          (fs_write (fe_now (fb_env fb)) (fb_temp fb) bytes fs0)))" for fs0
    by (simp add: fs_rename_def fs_write_def)
  have read: "fs_read (bt_remove (fb_temp fb) (bt_insert (fk_work_path ctx)
          \<lparr> fl_bytes = bytes, fl_modified = fe_now (fb_env fb) \<rparr>
          (fs_write (fe_now (fb_env fb)) (fb_temp fb) bytes fs0))) (fk_work_path ctx) = Inr bytes" for fs0
    using assms(1) by (auto simp: fs_read_def fork_ready_def)
  show ?thesis
    using assms(2,3)
    by (auto simp: fork_file_commit_def check_revision_def sync_run step_simps write_copy_def fs_copy_def
        renamed read advance_state_revision_def push_canonical_operation_def fork_content_def
        fork_revision_def Let_def)
qed

text \<open>C40: an atomic apply goes through: when the request is valid, names the bound fork and its
  current revision, the work file can be read, every operation succeeds and the new workbook can be
  written and compared, the transaction answers \<open>Applied\<close>, the work file holds the new workbook
  and the fork is at the fresh revision the answer names.\<close>

theorem fork_apply_succeeds:
  assumes "fork_ready fb (fs, ctx)" and "validate_request lib req = Inr ()"
    and "wq_mode req = Apply" and "wq_atomic req"
    and "be_validate_resource (fork_file_backend fb) (fs, ctx) (wq_resource_id req) = Inr ()"
    and "fs_read fs (fk_work_path ctx) = Inr base"
    and "wq_expected_revision req = fork_revision fb (fs, ctx)"
    and "en_read en base = Inr w0" and "run_ops en (write_policy req) w0 (wq_ops req) = (w, ds, None)"
    and "en_write en w = Inr bytes" and "en_diff en base bytes = Inr changes"
  shows "\<exists>b' d. execute_write_transaction en lib (fork_file_backend fb) req (fs, ctx)
      = (b', Inr (Applied Apply True (wq_expected_revision req) (''state:'' @ fb_fresh fb)
          (length (wq_ops req)) d (request_impact req) (report 0 (wq_ops req) ds None)))
    \<and> fork_content b' = Inr bytes \<and> fork_revision fb b' = ''state:'' @ fb_fresh fb"
proof -
  obtain s ctx1 where snap: "be_snapshot (fork_file_backend fb) (fs, ctx) = ((fs, ctx1), Inr s)"
      and "ws_bytes s = base"
    using assms(6) by (cases "fe_sha256 (fb_env fb) base = fk_content_revision ctx")
      (simp_all add: fork_file_backend_def step_simps sync_run)
  note ok = fork_file.snapshot_ok [OF assms(1) snap]
  have s: "ws_bytes s = base" "ws_revision s = wq_expected_revision req"
    and ready: "fork_ready fb (fs, ctx1)" and read: "fs_read fs (fk_work_path ctx1) = Inr base"
    and cur: "ws_revision s = fork_revision fb (fs, ctx1)"
    using ok assms(6,7) \<open>ws_bytes s = base\<close> by (auto simp: fork_content_def)
  from fork_commit_success [OF ready read cur]
  obtain b' where commit: "be_commit (fork_file_backend fb) (ws_revision s) bytes
        (wi_op_kinds (request_impact req)) (fs, ctx1) = (b', Inr (''state:'' @ fb_fresh fb))"
    and stored: "fork_content b' = Inr bytes" "fork_revision fb b' = ''state:'' @ fb_fresh fb"
    by (auto simp: fork_file_backend_def) blast
  from atomic_loop_run [OF assms(9), of 0] have loop:
    "apply_atomic_candidate en w0 (wq_ops req) (write_policy req) = (w, report 0 (wq_ops req) ds None, None)"
    by (auto simp: apply_atomic_candidate_def)
  have stageable: "be_supports_stage (fork_file_backend fb)" by (simp add: fork_file_backend_def)
  show ?thesis
    using assms commit loop s snap stageable stored
    by (simp add: execute_write_transaction_def run_atomic_def Let_def step_simps diff_bytes_def
        canonical_response_from_prepared_def)
qed

section \<open>A concrete transaction\<close>

text \<open>An engine whose workbook is its text: an inserted row appends a sign, a written matrix another.\<close>

definition demo_engine :: "string write_engine" where
  "demo_engine = \<lparr> en_read = Inr, en_write = Inr,
     en_apply = (\<lambda>w op policy. case op of
        Structure _ \<Rightarrow> (w @ ''+'', Inr JNull) | Transform _ \<Rightarrow> (w @ ''='', Inr JNull)
      | _ \<Rightarrow> (w @ ''?'', Inl (Bail ''unsupported''))),
     en_diff = (\<lambda>before after. Inr []) \<rparr>"

definition demo_backend :: fork_backend_env where
  "demo_backend = \<lparr> fb_env = demo_fork_env, fb_temp = ''f.tmp'', fb_fresh = ''r2'',
     fb_change_id = ''chg1'', fb_timestamp = ''t'', fb_bundle_value = (\<lambda>_. JNull) \<rparr>"

definition demo_fork_write :: write_request where
  "demo_fork_write = (demo_write Apply True demo_ops)
     \<lparr> wq_resource_id := ''fork:f'', wq_expected_revision := ''W'' \<rparr>"

lemma demo_fork_write_valid: "validate_request demo_lib demo_fork_write = Inr ()"
proof -
  have "validate_ops demo_lib 0 0 demo_ops = Inr ()"
    using demo_request_valid
    by (auto simp: validate_request_def demo_write_def invalid_request_def split: if_splits)
  moreover have "wl_request_len demo_lib r = 100" for r by (simp add: demo_lib_def)
  moreover have "length demo_ops = 2" "demo_ops \<noteq> []" by (simp_all add: demo_ops_def)
  ultimately show ?thesis
    by (simp add: demo_fork_write_def validate_request_def demo_write_def max_write_ops_def
        max_write_payload_bytes_def str_trim_def is_space_def ord_of_def)
qed

lemma demo_content: "fork_content (demo_fork_files ''W'', demo_fork) = Inr ''W''"
  by (simp add: fork_content_def demo_read demo_fork_def)

lemma demo_fork_state:
  "fork_ready demo_backend (demo_fork_files ''W'', demo_fork)"
  "fs_read (demo_fork_files ''W'') (fk_work_path demo_fork) = Inr ''W''"
  "fork_revision demo_backend (demo_fork_files ''W'', demo_fork) = ''W''"
  "be_validate_resource (fork_file_backend demo_backend) (demo_fork_files ''W'', demo_fork) ''fork:f'' = Inr ()"
  by (simp_all add: fork_ready_def demo_backend_def demo_fork_def fork_revision_def demo_read
      demo_fork_env_def fork_file_backend_def starts_with_def to_workbook_id_def strip_prefix_def)

theorem fork_apply_succeeds_witness:
  "\<exists>b' d. execute_write_transaction demo_engine demo_lib (fork_file_backend demo_backend) demo_fork_write
        (demo_fork_files ''W'', demo_fork)
      = (b', Inr (Applied Apply True ''W'' ''state:r2'' 2 d (request_impact demo_fork_write)
          (report 0 demo_ops [JNull, JNull] None)))
    \<and> fork_content b' = Inr ''W+=''"
proof -
  have req: "wq_mode demo_fork_write = Apply" "wq_atomic demo_fork_write" "wq_ops demo_fork_write = demo_ops"
      "wq_resource_id demo_fork_write = ''fork:f''" "wq_expected_revision demo_fork_write = ''W''"
    by (simp_all add: demo_fork_write_def demo_write_def)
  have engine: "en_read demo_engine ''W'' = Inr ''W''" "en_write demo_engine ''W+='' = Inr ''W+=''"
      "en_diff demo_engine ''W'' ''W+='' = Inr []"
      "run_ops demo_engine policy ''W'' demo_ops = (''W+='', [JNull, JNull], None)" for policy
    by (simp_all add: demo_engine_def demo_ops_def)
  from fork_apply_succeeds [OF demo_fork_state(1) demo_fork_write_valid req(1,2), unfolded req,
      OF demo_fork_state(4,2) demo_fork_state(3) [symmetric] engine(1,4,2,3)]
  show ?thesis by (auto simp: demo_backend_def demo_ops_def)
qed

theorem fork_write_transaction_witness:
  "case execute_write_transaction demo_engine demo_lib (fork_file_backend demo_backend) demo_fork_write
      (demo_fork_files ''W'', demo_fork) of
    (b', r) \<Rightarrow> write_contract demo_engine demo_fork_write ''W'' (Inr ''W'') (fork_content b') r"
proof -
  obtain b' r where run: "execute_write_transaction demo_engine demo_lib (fork_file_backend demo_backend)
      demo_fork_write (demo_fork_files ''W'', demo_fork) = (b', r)" by (metis prod.exhaust)
  from fork_write_transaction [OF demo_fork_state(1) run] show ?thesis
    by (simp add: run demo_fork_state(3) demo_content)
qed

theorem byte_write_transaction_witness:
  "case execute_write_transaction demo_engine demo_lib (byte_session_backend (\<lambda>s. s) ''r2'')
      (demo_write Preview False demo_ops) \<lparr> bs_bytes = ''W'', bs_revision = ''r1'', bs_committed = None \<rparr> of
    (b', r) \<Rightarrow> write_contract demo_engine (demo_write Preview False demo_ops) ''r1'' (Inr ''W'') (byte_content b') r"
proof -
  let ?b = "\<lparr> bs_bytes = ''W'', bs_revision = ''r1'', bs_committed = None \<rparr>"
  obtain b' r where run: "execute_write_transaction demo_engine demo_lib
      (byte_session_backend (\<lambda>s. s) ''r2'') (demo_write Preview False demo_ops) ?b = (b', r)"
    by (metis prod.exhaust)
  from byte_write_transaction [OF _ run] show ?thesis by (simp add: run byte_content_def)
qed

end
