(* ===== verification/RefShift.thy ===== *)
theory RefShift
  imports Addresses
begin

text \<open>
  What a structural edit (rows or columns inserted or deleted) does to the A1 references of a text:
  the rewriting of \<open>tools/fork.rs\<close>, the clamping of rows beyond the last one, and the prediction of
  \<open>tools/structure_impact.rs\<close>. The reader and the printers of a coordinate belong to the
  spreadsheet library and are the parameter \<open>coord_lib\<close>.
\<close>

section \<open>Data\<close>

record coord_lib =
  cl_index :: "string \<Rightarrow> u32 option \<times> u32 option \<times> bool option \<times> bool option"
  cl_coordinate :: "u32 \<Rightarrow> u32 \<Rightarrow> bool \<Rightarrow> bool \<Rightarrow> string"
  cl_column :: "u32 \<Rightarrow> string"

datatype structure_axis = RowAxis | ColAxis

datatype structure_edit = InsertAt u32 u32 | DeleteFrom u32 u32

record a1_ref_segment =
  rs_col :: "u32 option"
  rs_row :: "u32 option"
  rs_col_lock :: bool
  rs_row_lock :: bool

text \<open>The field an axis reads and writes.\<close>

fun axis_value :: "structure_axis \<Rightarrow> a1_ref_segment \<Rightarrow> u32 option" where
  "axis_value RowAxis s = rs_row s"
| "axis_value ColAxis s = rs_col s"

fun set_axis_value :: "structure_axis \<Rightarrow> u32 option \<Rightarrow> a1_ref_segment \<Rightarrow> a1_ref_segment" where
  "set_axis_value RowAxis v s = s \<lparr> rs_row := v \<rparr>"
| "set_axis_value ColAxis v s = s \<lparr> rs_col := v \<rparr>"

fun axis_max :: "structure_axis \<Rightarrow> u32" where
  "axis_max RowAxis = 1048576"
| "axis_max ColAxis = 16384"

section \<open>Numbers\<close>

definition adjust_insert :: "u32 \<Rightarrow> u32 \<Rightarrow> u32 \<Rightarrow> u32" where
  "adjust_insert val at n = (if at \<le> val then u32_saturating_add val n else val)"

definition adjust_insert_bounded :: "u32 \<Rightarrow> u32 \<Rightarrow> u32 \<Rightarrow> u32 \<Rightarrow> u32" where
  "adjust_insert_bounded val at n max_value = min (adjust_insert val at n) max_value"

definition adjust_delete :: "u32 \<Rightarrow> u32 \<Rightarrow> u32 \<Rightarrow> u32 option" where
  "adjust_delete val start n =
     (let fin = u32_saturating_add start (u32_saturating_sub n 1) in
      if start \<le> val \<and> val \<le> fin then None
      else if fin < val then Some (u32_wrapping_sub val n)
      else Some val)"

fun transform_a1_scalar :: "u32 option \<Rightarrow> structure_axis \<Rightarrow> structure_edit \<Rightarrow> u32 option" where
  "transform_a1_scalar None axis edit = None"
| "transform_a1_scalar (Some val) axis (InsertAt at n) =
     Some (adjust_insert_bounded val at n (axis_max axis))"
| "transform_a1_scalar (Some val) axis (DeleteFrom start n) = adjust_delete val start n"

fun transform_a1_interval ::
    "u32 \<Rightarrow> u32 \<Rightarrow> structure_axis \<Rightarrow> structure_edit \<Rightarrow> (u32 \<times> u32) option" where
  "transform_a1_interval fst_v lst_v axis (InsertAt at n) =
     Some (adjust_insert_bounded fst_v at n (axis_max axis),
           adjust_insert_bounded lst_v at n (axis_max axis))"
| "transform_a1_interval fst_v lst_v axis (DeleteFrom start n) =
     (let deleted_end = u32_saturating_add start (u32_saturating_sub n 1) in
      if lst_v < start then Some (fst_v, lst_v)
      else if deleted_end < fst_v then Some (u32_wrapping_sub fst_v n, u32_wrapping_sub lst_v n)
      else
        let remaining_before = fst_v < start; remaining_after = deleted_end < lst_v in
        if \<not> remaining_before \<and> \<not> remaining_after then None
        else if remaining_before \<and> \<not> remaining_after then Some (fst_v, u32_wrapping_sub start 1)
        else if \<not> remaining_before \<and> remaining_after then Some (start, u32_wrapping_sub lst_v n)
        else Some (fst_v, u32_wrapping_sub lst_v n))"

section \<open>Texts\<close>

definition parse_a1_ref_segment :: "coord_lib \<Rightarrow> string \<Rightarrow> a1_ref_segment res" where
  "parse_a1_ref_segment L segment =
     (case cl_index L segment of (col, row, col_lock, row_lock) \<Rightarrow>
        bail_if (col = None \<and> row = None) ''invalid A1 reference segment''
          (Inr \<lparr> rs_col = col, rs_row = row, rs_col_lock = (col_lock = Some True),
                 rs_row_lock = (row_lock = Some True) \<rparr>))"

definition lock_mark :: "bool \<Rightarrow> string" where
  "lock_mark lock = (if lock then ''$'' else [])"

definition format_a1_ref_segment :: "coord_lib \<Rightarrow> a1_ref_segment \<Rightarrow> string res" where
  "format_a1_ref_segment L s =
     (case (rs_col s, rs_row s) of
        (Some col, Some row) \<Rightarrow> Inr (cl_coordinate L col row (rs_col_lock s) (rs_row_lock s))
      | (Some col, None) \<Rightarrow> Inr (lock_mark (rs_col_lock s) @ cl_column L col)
      | (None, Some row) \<Rightarrow> Inr (lock_mark (rs_row_lock s) @ show_nat row)
      | (None, None) \<Rightarrow> Inl (Bail ''A1 reference was removed''))"

text \<open>The change of the two ends of a range, \<open>None\<close> when the range is gone.\<close>

definition transform_ends ::
    "structure_axis \<Rightarrow> structure_edit \<Rightarrow> u32 option \<Rightarrow> u32 option \<Rightarrow> (u32 option \<times> u32 option) option" where
  "transform_ends axis edit start_v end_v =
     (case (start_v, end_v) of
        (None, None) \<Rightarrow> Some (None, None)
      | _ \<Rightarrow>
        if (case (start_v, end_v) of (Some f, Some l) \<Rightarrow> f \<le> l | _ \<Rightarrow> False)
        then map_option (\<lambda>(f, l). (Some f, Some l))
               (transform_a1_interval (the start_v) (the end_v) axis edit)
        else
          (let s = transform_a1_scalar start_v axis edit; e = transform_a1_scalar end_v axis edit in
           if s = None \<or> e = None then None else Some (s, e)))"

definition transform_a1_range_piece ::
    "coord_lib \<Rightarrow> string \<Rightarrow> structure_axis \<Rightarrow> structure_edit \<Rightarrow> string option res" where
  "transform_a1_range_piece L piece axis edit =
     (case split_once CHR '':'' piece of
        Some (start_raw, end_raw) \<Rightarrow>
          bind_res (parse_a1_ref_segment L start_raw) (\<lambda>start.
          bind_res (parse_a1_ref_segment L end_raw) (\<lambda>fin.
          case transform_ends axis edit (axis_value axis start) (axis_value axis fin) of
            None \<Rightarrow> Inr None
          | Some (s, e) \<Rightarrow>
              bind_res (format_a1_ref_segment L (set_axis_value axis s start)) (\<lambda>start_text.
              bind_res (format_a1_ref_segment L (set_axis_value axis e fin)) (\<lambda>end_text.
              Inr (Some (start_text @ '':'' @ end_text))))))
      | None \<Rightarrow>
          bind_res (parse_a1_ref_segment L piece) (\<lambda>segment.
          let segment = set_axis_value axis
                (transform_a1_scalar (axis_value axis segment) axis edit) segment in
          if rs_col segment = None \<and> rs_row segment = None then Inr None
          else bind_res (format_a1_ref_segment L segment) (\<lambda>t. Inr (Some t))))"

definition transform_a1_range ::
    "coord_lib \<Rightarrow> string \<Rightarrow> structure_axis \<Rightarrow> structure_edit \<Rightarrow> string option res" where
  "transform_a1_range L coord_part axis edit =
     (if coord_part = ''#REF!'' then Inr (Some coord_part)
      else
        bind_res (map_res (\<lambda>piece. transform_a1_range_piece L piece axis edit)
          (split_on CHR '','' coord_part)) (\<lambda>pieces.
        let transformed = List.map_filter (\<lambda>x. x) pieces in
        Inr (if transformed = [] then None else Some (join_with '','' transformed))))"

definition adjust_ref_coord_part ::
    "coord_lib \<Rightarrow> string \<Rightarrow> structure_axis \<Rightarrow> structure_edit \<Rightarrow> string res" where
  "adjust_ref_coord_part L coord_part axis edit =
     bind_res (transform_a1_range L coord_part axis edit) (\<lambda>t.
     Inr (case t of None \<Rightarrow> ''#REF!'' | Some t \<Rightarrow> t))"

section \<open>Rows beyond the last one\<close>

definition clamp_ref_segment_max_row :: "coord_lib \<Rightarrow> string \<Rightarrow> u32 \<Rightarrow> string" where
  "clamp_ref_segment_max_row L segment max_row =
     (case cl_index L segment of (col, row, col_lock, row_lock) \<Rightarrow>
        let cl = (col_lock = Some True); rl = (row_lock = Some True) in
        (case (col, map_option (\<lambda>v. min v max_row) row) of
           (Some c, Some r) \<Rightarrow> cl_coordinate L c r cl rl
         | (Some c, None) \<Rightarrow> lock_mark cl @ cl_column L c
         | (None, Some r) \<Rightarrow> lock_mark rl @ show_nat r
         | (None, None) \<Rightarrow> segment))"

definition clamp_coord_part_max_row :: "coord_lib \<Rightarrow> string \<Rightarrow> u32 \<Rightarrow> string" where
  "clamp_coord_part_max_row L coord_part max_row =
     (let pieces = map (split_on CHR '':'') (split_on CHR '','' coord_part);
          clamped = map (map (\<lambda>segment. clamp_ref_segment_max_row L segment max_row)) pieces
      in if clamped \<noteq> pieces then join_with '','' (map (join_with '':'') clamped) else coord_part)"

definition clamp_range_token_max_row :: "coord_lib \<Rightarrow> string \<Rightarrow> u32 \<Rightarrow> string" where
  "clamp_range_token_max_row L token_value max_row =
     (if token_value = ''#REF!'' then token_value
      else case split_once CHR ''!'' token_value of
             Some (sheet_part, coord_part) \<Rightarrow>
               (let clamped = clamp_coord_part_max_row L coord_part max_row in
                if clamped = coord_part then token_value else sheet_part @ ''!'' @ clamped)
           | None \<Rightarrow> clamp_coord_part_max_row L token_value max_row)"

section \<open>The prediction of the impact report\<close>

record shifted_span =
  sp_op_index :: nat
  sp_sheet_name :: string
  sp_axis :: string
  sp_description :: string
  sp_at :: u32
  sp_count :: u32
  sp_direction :: string

definition span_end :: "u32 \<Rightarrow> u32 \<Rightarrow> u32" where
  "span_end at n = u32_wrapping_sub (u32_wrapping_add at n) 1"

definition in_zone :: "u32 \<Rightarrow> u32 \<Rightarrow> string \<Rightarrow> u32 \<Rightarrow> bool" where
  "in_zone at n direction v =
     (direction = ''insert'' \<and> at \<le> v
      \<or> direction = ''delete'' \<and> (at \<le> v \<and> v \<le> span_end at n \<or> span_end at n < v))"

definition ref_touches_zone :: "coord_lib \<Rightarrow> string \<Rightarrow> string \<Rightarrow> u32 \<Rightarrow> u32 \<Rightarrow> string \<Rightarrow> bool" where
  "ref_touches_zone L coord_part axis at n direction =
     list_ex (\<lambda>part. case cl_index L part of (col_idx, row_idx, _, _) \<Rightarrow>
         if axis = ''row'' then \<not> option_all (\<lambda>r. \<not> in_zone at n direction r) row_idx
         else if axis = ''col'' then \<not> option_all (\<lambda>c. \<not> in_zone at n direction c) col_idx
         else False)
       (split_on CHR '':'' coord_part)"

definition has_absolute_component :: "coord_lib \<Rightarrow> string \<Rightarrow> string \<Rightarrow> bool" where
  "has_absolute_component L coord_part axis =
     list_ex (\<lambda>part. case cl_index L part of (_, _, col_lock, row_lock) \<Rightarrow>
         if axis = ''row'' then row_lock = Some True
         else if axis = ''col'' then col_lock = Some True
         else False)
       (split_on CHR '':'' coord_part)"

text \<open>\<open>replace('$', "").to_uppercase()\<close> on ASCII letters.\<close>

definition clean_corner :: "string \<Rightarrow> string" where
  "clean_corner s = map to_upper (filter (\<lambda>c. c \<noteq> CHR ''$'') s)"

definition is_single_cell_range :: "string \<Rightarrow> bool" where
  "is_single_cell_range coord_part =
     (case split_once CHR '':'' coord_part of
        Some (start, fin) \<Rightarrow> clean_corner start = clean_corner fin
      | None \<Rightarrow> False)"

definition simulate_value :: "shifted_span \<Rightarrow> u32 \<Rightarrow> u32 option" where
  "simulate_value span v =
     (if sp_direction span = ''insert''
      then Some (if sp_at span \<le> v then u32_wrapping_add v (sp_count span) else v)
      else
        let fin = span_end (sp_at span) (sp_count span) in
        if sp_at span \<le> v \<and> v \<le> fin then None
        else if fin < v then Some (u32_wrapping_sub v (sp_count span)) else Some v)"

definition simulate_adjust_segment :: "coord_lib \<Rightarrow> string \<Rightarrow> shifted_span \<Rightarrow> string" where
  "simulate_adjust_segment L segment span =
     (case cl_index L segment of (col, row, col_lock, row_lock) \<Rightarrow>
        let col = (if sp_axis span = ''col'' then Option.bind col (simulate_value span) else col);
            row = (if sp_axis span = ''row'' then Option.bind row (simulate_value span) else row);
            cl = (col_lock = Some True); rl = (row_lock = Some True) in
        (case (col, row) of
           (None, None) \<Rightarrow> ''#REF!''
         | (Some c, Some r) \<Rightarrow> cl_coordinate L c r cl rl
         | (Some c, None) \<Rightarrow> lock_mark cl @ cl_column L c
         | (None, Some r) \<Rightarrow> lock_mark rl @ show_nat r))"

definition simulate_adjust_coord :: "coord_lib \<Rightarrow> string \<Rightarrow> shifted_span \<Rightarrow> string" where
  "simulate_adjust_coord L coord_part span =
     (if coord_part = ''#REF!'' then coord_part
      else case split_once CHR '':'' coord_part of
        Some (start, fin) \<Rightarrow>
          (let start_adj = simulate_adjust_segment L start span;
               end_adj = simulate_adjust_segment L fin span in
           if start_adj = ''#REF!'' \<or> end_adj = ''#REF!'' then ''#REF!''
           else start_adj @ '':'' @ end_adj)
      | None \<Rightarrow> simulate_adjust_segment L coord_part span)"

section \<open>What a structural edit means\<close>

text \<open>Where a row or column goes, over unbounded numbers: \<open>None\<close> when it is deleted. The inserted
  rows or columns are the band.\<close>

fun moved :: "structure_edit \<Rightarrow> nat \<Rightarrow> nat option" where
  "moved (InsertAt at n) x = Some (if at \<le> x then x + n else x)"
| "moved (DeleteFrom start n) x =
     (if x < start then Some x else if x < start + n then None else Some (x - n))"

fun band :: "structure_edit \<Rightarrow> nat set" where
  "band (InsertAt at n) = {at ..< at + n}"
| "band (DeleteFrom start n) = {}"

definition moved_set :: "structure_edit \<Rightarrow> nat set \<Rightarrow> nat set" where
  "moved_set edit S = {y. \<exists>x \<in> S. moved edit x = Some y}"

text \<open>The edit is one the operations accept, and pushes nothing below \<open>v\<close> off the grid.\<close>

fun edit_fits :: "structure_axis \<Rightarrow> structure_edit \<Rightarrow> nat \<Rightarrow> bool" where
  "edit_fits axis (InsertAt at n) v = (v + n \<le> axis_max axis)"
| "edit_fits axis (DeleteFrom start n) v = (1 \<le> n \<and> start + n < u32_limit \<and> v < u32_limit)"

lemma axis_max_bound: "axis_max axis < u32_limit"
  by (cases axis) simp_all

lemma moved_all: "moved_set edit UNIV = - band edit"
proof (cases edit)
  case (InsertAt at n)
  have "moved edit (if at \<le> y then y - n else y) = Some y" if "y \<notin> band edit" for y
    using that by (auto simp: InsertAt)
  then have "- band edit \<subseteq> moved_set edit UNIV" by (auto simp: moved_set_def)
  moreover have "moved_set edit UNIV \<subseteq> - band edit" by (auto simp: moved_set_def InsertAt)
  ultimately show ?thesis by blast
next
  case (DeleteFrom start n)
  have "moved edit (if y < start then y else y + n) = Some y" for y
    by (simp add: DeleteFrom)
  then have "y \<in> moved_set edit UNIV" for y unfolding moved_set_def by blast
  then show ?thesis by (auto simp: DeleteFrom)
qed

lemma adjust_insert_bounded_exact:
  "v + n \<le> m \<Longrightarrow> m < u32_limit \<Longrightarrow> adjust_insert_bounded v at n m = (if at \<le> v then v + n else v)"
  by (auto simp: adjust_insert_bounded_def adjust_insert_def u32_saturating_add_def)

lemma transform_a1_interval_insert:
  assumes "f \<le> l" and "l + n \<le> axis_max axis"
  shows "transform_a1_interval f l axis (InsertAt at n)
    = Some (the (moved (InsertAt at n) f), the (moved (InsertAt at n) l))"
  using assms axis_max_bound [of axis] by (simp add: adjust_insert_bounded_exact)

lemma transform_a1_interval_delete:
  assumes "f \<le> l" and "1 \<le> n" and "start + n < u32_limit" and "l < u32_limit"
  shows "transform_a1_interval f l axis (DeleteFrom start n) =
    (if start \<le> f \<and> l < start + n then None
     else Some (if f < start then f else if f < start + n then start else f - n,
                if l < start then l else if l < start + n then start - 1 else l - n))"
proof -
  have fin: "u32_saturating_add start (u32_saturating_sub n (Suc 0)) = start + n - Suc 0"
    using assms by (simp add: u32_saturating_add_def u32_saturating_sub_def)
  have sub: "u32_wrapping_sub a b = a - b" if "b \<le> a" "a < u32_limit" for a b
    using that by (rule u32_wrapping_sub_exact)
  show ?thesis
    using assms by (auto simp: Let_def fin sub)
qed

lemma transform_a1_interval_image:
  assumes "f \<le> l" and "edit_fits axis edit l"
  shows "case transform_a1_interval f l axis edit of
      None \<Rightarrow> moved_set edit {f..l} = {}
    | Some (a, b) \<Rightarrow> a \<le> b \<and> {a..b} - band edit = moved_set edit {f..l}"
proof (cases edit)
  case (InsertAt at n)
  with assms have fits: "l + n \<le> axis_max axis" by simp
  let ?g = "\<lambda>x. if at \<le> x then x + n else x"
  have "{?g f..?g l} - band edit = moved_set edit {f..l}"
  proof (rule set_eqI, rule iffI)
    fix y assume y: "y \<in> {?g f..?g l} - band edit"
    then have "moved edit (if at + n \<le> y then y - n else y) = Some y"
      "(if at + n \<le> y then y - n else y) \<in> {f..l}"
      by (auto simp: InsertAt split: if_split_asm)
    then show "y \<in> moved_set edit {f..l}" unfolding moved_set_def by blast
  next
    fix y assume "y \<in> moved_set edit {f..l}"
    then show "y \<in> {?g f..?g l} - band edit"
      by (auto simp: moved_set_def InsertAt split: if_split_asm)
  qed
  moreover have "?g f \<le> ?g l" using assms(1) by auto
  ultimately show ?thesis
    using transform_a1_interval_insert [OF assms(1) fits, of at]
    by (simp add: InsertAt del: transform_a1_interval.simps)
next
  case (DeleteFrom start n)
  with assms have fits: "1 \<le> n" "start + n < u32_limit" "l < u32_limit" by auto
  let ?a = "if f < start then f else if f < start + n then start else f - n"
  let ?b = "if l < start then l else if l < start + n then start - 1 else l - n"
  show ?thesis
  proof (cases "start \<le> f \<and> l < start + n")
    case True
    then show ?thesis
      using transform_a1_interval_delete [OF assms(1) fits, of axis]
      by (auto simp: DeleteFrom moved_set_def simp del: transform_a1_interval.simps)
  next
    case False
    have "{?a..?b} = moved_set edit {f..l}"
    proof (rule set_eqI, rule iffI)
      fix y assume y: "y \<in> {?a..?b}"
      then have "moved edit (if y < start then y else y + n) = Some y"
        "(if y < start then y else y + n) \<in> {f..l}"
        using False assms(1) by (auto simp: DeleteFrom split: if_split_asm)
      then show "y \<in> moved_set edit {f..l}" unfolding moved_set_def by blast
    next
      fix y assume "y \<in> moved_set edit {f..l}"
      then show "y \<in> {?a..?b}" using False by (auto simp: moved_set_def DeleteFrom split: if_split_asm)
    qed
    moreover have "?a \<le> ?b" using False assms(1) by auto
    ultimately show ?thesis
      using transform_a1_interval_delete [OF assms(1) fits, of axis] False
      by (simp add: DeleteFrom del: transform_a1_interval.simps)
  qed
qed

text \<open>The cells of a range, and where an edit moves them.\<close>

fun within :: "u32 option \<Rightarrow> u32 option \<Rightarrow> nat set" where
  "within (Some a) (Some b) = {a..b}"
| "within None None = UNIV"
| "within _ _ = {}"

definition range_cells :: "a1_ref_segment \<Rightarrow> a1_ref_segment \<Rightarrow> (nat \<times> nat) set" where
  "range_cells s e = within (rs_col s) (rs_col e) \<times> within (rs_row s) (rs_row e)"

fun moved_cells :: "structure_axis \<Rightarrow> structure_edit \<Rightarrow> (nat \<times> nat) set \<Rightarrow> (nat \<times> nat) set" where
  "moved_cells RowAxis edit S = {(c, r'). \<exists>r. (c, r) \<in> S \<and> moved edit r = Some r'}"
| "moved_cells ColAxis edit S = {(c', r). \<exists>c. (c, r) \<in> S \<and> moved edit c = Some c'}"

fun band_cells :: "structure_axis \<Rightarrow> structure_edit \<Rightarrow> (nat \<times> nat) set" where
  "band_cells RowAxis edit = UNIV \<times> band edit"
| "band_cells ColAxis edit = band edit \<times> UNIV"

text \<open>The ends of a range in order on an axis, and small enough for the edit.\<close>

definition ordered_ends :: "structure_axis \<Rightarrow> structure_edit \<Rightarrow> u32 option \<Rightarrow> u32 option \<Rightarrow> bool" where
  "ordered_ends axis edit x y =
     (case (x, y) of (None, None) \<Rightarrow> True | (Some f, Some l) \<Rightarrow> f \<le> l \<and> edit_fits axis edit l | _ \<Rightarrow> False)"

lemma transform_ends_image:
  assumes "ordered_ends axis edit x y"
  shows "case transform_ends axis edit x y of
      None \<Rightarrow> moved_set edit (within x y) = {}
    | Some (x', y') \<Rightarrow> within x' y' - band edit = moved_set edit (within x y)"
proof (cases x)
  case None
  with assms have "y = None" by (simp add: ordered_ends_def split: option.splits)
  with None show ?thesis by (simp add: transform_ends_def moved_all Compl_eq_Diff_UNIV)
next
  case (Some f)
  with assms obtain l where y: "y = Some l" "f \<le> l" "edit_fits axis edit l"
    by (auto simp: ordered_ends_def split: option.splits)
  from transform_a1_interval_image [OF y(2,3)] show ?thesis
    by (auto simp: transform_ends_def Some y split: option.splits)
qed

lemma format_total:
  "rs_col s \<noteq> None \<or> rs_row s \<noteq> None \<Longrightarrow> \<exists>t. format_a1_ref_segment L s = Inr t"
  by (auto simp: format_a1_ref_segment_def split: option.splits)

lemma transform_ends_defined:
  assumes "transform_ends axis edit x y = Some (x', y')"
  shows "x' = None \<longleftrightarrow> x = None" and "y' = None \<longleftrightarrow> y = None"
  using assms by (auto simp: transform_ends_def Let_def split: option.splits if_splits)

text \<open>C5: a range reference follows its cells through a structural edit. When the ends of the range
  are in order on the edited axis and the edit pushes nothing off the grid, the rewritten text is the
  printed form of a range that, outside the inserted rows or columns, has exactly the cells to which
  the surviving cells of the range have moved; the reference is given up only when no cell of the
  range survives.\<close>

theorem transform_range_follows_cells:
  assumes "split_once CHR '':'' piece = Some (a, b)"
    and "parse_a1_ref_segment L a = Inr s" and "parse_a1_ref_segment L b = Inr e"
    and "ordered_ends axis edit (axis_value axis s) (axis_value axis e)"
  shows "case transform_a1_range_piece L piece axis edit of
      Inl _ \<Rightarrow> False
    | Inr None \<Rightarrow> moved_cells axis edit (range_cells s e) = {}
    | Inr (Some t) \<Rightarrow> \<exists>s' e' x y. format_a1_ref_segment L s' = Inr x \<and> format_a1_ref_segment L e' = Inr y
        \<and> t = x @ '':'' @ y
        \<and> range_cells s' e' - band_cells axis edit = moved_cells axis edit (range_cells s e)"
proof (cases "transform_ends axis edit (axis_value axis s) (axis_value axis e)")
  case None
  with transform_ends_image [OF assms(4)]
  have "moved_set edit (within (axis_value axis s) (axis_value axis e)) = {}" by simp
  then have "moved_cells axis edit (range_cells s e) = {}"
    by (cases axis) (auto simp: moved_set_def range_cells_def)
  with None assms(1-3) show ?thesis by (simp add: transform_a1_range_piece_def)
next
  case (Some ends)
  obtain v w where ends: "ends = (v, w)" by (cases ends)
  let ?s = "set_axis_value axis v s" and ?e = "set_axis_value axis w e"
  have image: "within v w - band edit = moved_set edit (within (axis_value axis s) (axis_value axis e))"
    using transform_ends_image [OF assms(4)] Some ends by simp
  have "rs_col s \<noteq> None \<or> rs_row s \<noteq> None" "rs_col e \<noteq> None \<or> rs_row e \<noteq> None"
    using assms(2,3) by (auto simp: parse_a1_ref_segment_def split: prod.splits)
  with transform_ends_defined [OF Some [unfolded ends]]
  have "rs_col ?s \<noteq> None \<or> rs_row ?s \<noteq> None" "rs_col ?e \<noteq> None \<or> rs_row ?e \<noteq> None"
    by (cases axis; simp)+
  then obtain x y where texts: "format_a1_ref_segment L ?s = Inr x" "format_a1_ref_segment L ?e = Inr y"
    using format_total by blast
  have "range_cells ?s ?e - band_cells axis edit = moved_cells axis edit (range_cells s e)"
    using image by (cases axis) (auto simp: range_cells_def moved_set_def set_eq_iff)
  moreover have "transform_a1_range_piece L piece axis edit = Inr (Some (x @ '':'' @ y))"
    using assms(1-3) Some ends texts by (simp add: transform_a1_range_piece_def)
  ultimately show ?thesis using texts by auto
qed

section \<open>The prediction and the rewriting\<close>

text \<open>The span the impact report makes of an edit.\<close>

fun span_matches :: "shifted_span \<Rightarrow> structure_axis \<Rightarrow> structure_edit \<Rightarrow> bool" where
  "span_matches span axis (InsertAt at n) =
     (sp_axis span = (case axis of RowAxis \<Rightarrow> ''row'' | ColAxis \<Rightarrow> ''col'') \<and> sp_at span = at
      \<and> sp_count span = n \<and> sp_direction span = ''insert'')"
| "span_matches span axis (DeleteFrom start n) =
     (sp_axis span = (case axis of RowAxis \<Rightarrow> ''row'' | ColAxis \<Rightarrow> ''col'') \<and> sp_at span = start
      \<and> sp_count span = n \<and> sp_direction span = ''delete'')"

text \<open>No printed coordinate is the text of a lost reference.\<close>

definition prints_no_error :: "coord_lib \<Rightarrow> bool" where
  "prints_no_error L \<longleftrightarrow> (\<forall>c r cl rl. cl_coordinate L c r cl rl \<noteq> ''#REF!'') \<and> (\<forall>c. cl_column L c \<noteq> ''#REF!'')"

lemma span_end_exact:
  "1 \<le> n \<Longrightarrow> start + n < u32_limit \<Longrightarrow> span_end start n = start + n - 1"
  by (simp add: span_end_def u32_wrapping_add_exact u32_wrapping_sub_exact)

lemma scalar_is_moved:
  assumes "edit_fits axis edit v"
  shows "transform_a1_scalar (Some v) axis edit = moved edit v"
proof (cases edit)
  case (InsertAt at n)
  with assms axis_max_bound [of axis] show ?thesis by (simp add: adjust_insert_bounded_exact)
next
  case (DeleteFrom start n)
  with assms have "u32_saturating_add start (u32_saturating_sub n (Suc 0)) = start + n - Suc 0"
    by (auto simp: u32_saturating_add_def u32_saturating_sub_def)
  with DeleteFrom assms show ?thesis
    by (auto simp: adjust_delete_def Let_def u32_wrapping_sub_exact)
qed

lemma simulate_is_moved:
  assumes "span_matches span axis edit" and "edit_fits axis edit v"
  shows "simulate_value span v = moved edit v"
proof (cases edit)
  case (InsertAt at n)
  with assms axis_max_bound [of axis] show ?thesis
    by (auto simp: simulate_value_def u32_wrapping_add_exact)
next
  case (DeleteFrom start n)
  with assms show ?thesis
    by (auto simp: simulate_value_def Let_def span_end_exact u32_wrapping_sub_exact)
qed

lemma span_axis: "span_matches span axis edit \<Longrightarrow> sp_axis span = (case axis of RowAxis \<Rightarrow> ''row'' | ColAxis \<Rightarrow> ''col'')"
  by (cases edit) simp_all

text \<open>What the prediction prints for a segment: the moved segment, or the text of a lost reference
  when neither field is left.\<close>

lemma simulate_segment:
  assumes "parse_a1_ref_segment L a = Inr s" and "span_matches span axis edit"
    and "option_all (edit_fits axis edit) (axis_value axis s)"
  shows "Inr (simulate_adjust_segment L a span) =
    (let s' = set_axis_value axis (Option.bind (axis_value axis s) (moved edit)) s in
     if rs_col s' = None \<and> rs_row s' = None then Inr ''#REF!'' else format_a1_ref_segment L s')"
proof -
  obtain col row cl rl where parts: "cl_index L a = (col, row, cl, rl)" by (metis prod.exhaust)
  with assms(1) have s: "s = \<lparr> rs_col = col, rs_row = row, rs_col_lock = (cl = Some True),
      rs_row_lock = (rl = Some True) \<rparr>"
    by (auto simp: parse_a1_ref_segment_def)
  have moved: "Option.bind (axis_value axis s) (simulate_value span)
      = Option.bind (axis_value axis s) (moved edit)"
    using simulate_is_moved [OF assms(2)] assms(3) by (cases "axis_value axis s") auto
  show ?thesis
    using moved span_axis [OF assms(2)]
    by (cases axis) (auto simp: simulate_adjust_segment_def parts s Let_def format_a1_ref_segment_def
        split: option.splits)
qed

lemma format_no_error:
  assumes "prints_no_error L" and "format_a1_ref_segment L s = Inr t"
  shows "t \<noteq> ''#REF!''"
proof -
  have "show_nat n \<noteq> ''#REF!''" for n
    using show_nat_digits [of n] by (auto simp: is_digit_def ord_of_def)
  with assms show ?thesis
    by (auto simp: format_a1_ref_segment_def prints_no_error_def lock_mark_def split: option.splits if_splits)
qed

lemma transform_ends_moved:
  assumes "ordered_ends axis edit x y"
    and "option_all (\<lambda>v. edit_fits axis edit v \<and> moved edit v \<noteq> None) x"
    and "option_all (\<lambda>v. moved edit v \<noteq> None) y"
  shows "transform_ends axis edit x y = Some (Option.bind x (moved edit), Option.bind y (moved edit))"
proof (cases x)
  case None
  with assms(1) show ?thesis by (auto simp: ordered_ends_def transform_ends_def split: option.splits)
next
  case (Some f)
  with assms obtain l where y: "y = Some l" "f \<le> l" "edit_fits axis edit l" "moved edit f \<noteq> None"
      "moved edit l \<noteq> None" by (auto simp: ordered_ends_def split: option.splits)
  have "transform_a1_interval f l axis edit = Some (the (moved edit f), the (moved edit l))"
  proof (cases edit)
    case (InsertAt at n)
    with y transform_a1_interval_insert [of f l n axis at] show ?thesis
      by (simp del: transform_a1_interval.simps)
  next
    case (DeleteFrom start n)
    with y transform_a1_interval_delete [of f l n start axis] show ?thesis
      by (auto simp del: transform_a1_interval.simps split: if_splits)
  qed
  with y show ?thesis by (auto simp: transform_ends_def Some)
qed

text \<open>The impact report predicts the rewriting: for one edit, a reference without unions, with
  nothing pushed off the grid and, when it is a range, its ends in order and none of them deleted,
  the text the preview shows is the text the apply writes.\<close>

theorem preview_matches_rewrite:
  assumes "prints_no_error L" and "span_matches span axis edit"
    and "CHR '','' \<notin> set coord_part" and "coord_part \<noteq> ''#REF!''"
    and "case split_once CHR '':'' coord_part of
        None \<Rightarrow> (\<exists>s. parse_a1_ref_segment L coord_part = Inr s
          \<and> option_all (edit_fits axis edit) (axis_value axis s))
      | Some (a, b) \<Rightarrow> (\<exists>s e. parse_a1_ref_segment L a = Inr s \<and> parse_a1_ref_segment L b = Inr e
          \<and> ordered_ends axis edit (axis_value axis s) (axis_value axis e)
          \<and> option_all (\<lambda>v. edit_fits axis edit v \<and> moved edit v \<noteq> None) (axis_value axis s)
          \<and> option_all (\<lambda>v. moved edit v \<noteq> None) (axis_value axis e))"
  shows "adjust_ref_coord_part L coord_part axis edit = Inr (simulate_adjust_coord L coord_part span)"
proof (cases "split_once CHR '':'' coord_part")
  case None
  with assms(5) obtain s where s: "parse_a1_ref_segment L coord_part = Inr s"
    and fits: "option_all (edit_fits axis edit) (axis_value axis s)" by auto
  have scalar: "transform_a1_scalar (axis_value axis s) axis edit
      = Option.bind (axis_value axis s) (moved edit)"
    using fits scalar_is_moved by (cases "axis_value axis s") auto
  let ?s = "set_axis_value axis (Option.bind (axis_value axis s) (moved edit)) s"
  show ?thesis
  proof (cases "rs_col ?s = None \<and> rs_row ?s = None")
    case True
    with simulate_segment [OF s assms(2) fits] None s scalar assms(3,4) show ?thesis
      by (simp add: adjust_ref_coord_part_def transform_a1_range_def transform_a1_range_piece_def
          split_on_free simulate_adjust_coord_def List.map_filter_def)
  next
    case False
    then obtain t where "format_a1_ref_segment L ?s = Inr t" using format_total by blast
    with False simulate_segment [OF s assms(2) fits] None s scalar assms(3,4) show ?thesis
      by (auto simp: adjust_ref_coord_part_def transform_a1_range_def transform_a1_range_piece_def
          split_on_free simulate_adjust_coord_def List.map_filter_def  Let_def)
  qed
next
  case (Some ab)
  then obtain a b where split: "split_once CHR '':'' coord_part = Some (a, b)" by (cases ab) auto
  with assms(5) obtain s e where s: "parse_a1_ref_segment L a = Inr s"
      and e: "parse_a1_ref_segment L b = Inr e"
      and ordered: "ordered_ends axis edit (axis_value axis s) (axis_value axis e)"
      and alive: "option_all (\<lambda>v. edit_fits axis edit v \<and> moved edit v \<noteq> None) (axis_value axis s)"
        "option_all (\<lambda>v. moved edit v \<noteq> None) (axis_value axis e)" by auto
  have fits: "option_all (edit_fits axis edit) (axis_value axis s)"
      "option_all (edit_fits axis edit) (axis_value axis e)"
    using alive ordered by (auto simp: ordered_ends_def split: option.splits)
  let ?s = "set_axis_value axis (Option.bind (axis_value axis s) (moved edit)) s"
  let ?e = "set_axis_value axis (Option.bind (axis_value axis e) (moved edit)) e"
  have some: "rs_col ?s \<noteq> None \<or> rs_row ?s \<noteq> None" "rs_col ?e \<noteq> None \<or> rs_row ?e \<noteq> None"
    using s e alive by (cases axis; auto simp: parse_a1_ref_segment_def split: prod.splits option.splits)+
  then obtain x y where texts: "format_a1_ref_segment L ?s = Inr x" "format_a1_ref_segment L ?e = Inr y"
    using format_total by blast
  have ends: "transform_ends axis edit (axis_value axis s) (axis_value axis e)
      = Some (Option.bind (axis_value axis s) (moved edit), Option.bind (axis_value axis e) (moved edit))"
    using ordered alive transform_ends_moved by blast
  have "simulate_adjust_segment L a span = x" "simulate_adjust_segment L b span = y"
    using simulate_segment [OF s assms(2) fits(1)] simulate_segment [OF e assms(2) fits(2)] some texts
    by (auto simp: Let_def)
  moreover have "x \<noteq> ''#REF!''" "y \<noteq> ''#REF!''"
    using format_no_error [OF assms(1)] texts by auto
  ultimately show ?thesis
    using split s e ends texts assms(3,4)
    by (simp add: adjust_ref_coord_part_def transform_a1_range_def transform_a1_range_piece_def
        split_on_free simulate_adjust_coord_def List.map_filter_def )
qed

text \<open>A reference to one cell whose row is deleted does not become a lost reference: the column
  alone is printed, so \<open>A5\<close> turns into \<open>A\<close>; for a deleted column the row alone is printed. (The
  rewriting gives a reference up only when neither field is left, which happens to whole columns and
  whole rows but never to a cell.)\<close>

theorem deleted_cell_keeps_other_axis:
  assumes "parse_a1_ref_segment L piece = Inr s" and "rs_col s = Some c" and "rs_row s = Some r"
    and "CHR '':'' \<notin> set piece" and "CHR '','' \<notin> set piece" and "piece \<noteq> ''#REF!''"
    and "edit_fits axis edit (the (axis_value axis s))" and "moved edit (the (axis_value axis s)) = None"
  shows "adjust_ref_coord_part L piece axis edit = Inr (case axis of
      RowAxis \<Rightarrow> lock_mark (rs_col_lock s) @ cl_column L c
    | ColAxis \<Rightarrow> lock_mark (rs_row_lock s) @ show_nat r)"
  using assms scalar_is_moved [OF assms(7)]
  by (cases axis) (simp_all add: adjust_ref_coord_part_def transform_a1_range_def split_on_free
      transform_a1_range_piece_def split_once_None [THEN iffD2] format_a1_ref_segment_def
      List.map_filter_def)

section \<open>A concrete coordinate library\<close>

definition demo_index :: "string \<Rightarrow> u32 option \<times> u32 option \<times> bool option \<times> bool option" where
  "demo_index s =
     (let cl = (first_opt s = Some CHR ''$''); s = (if cl then tl s else s);
          letters = takeWhile is_alpha s; s = dropWhile is_alpha s;
          rl = (first_opt s = Some CHR ''$''); s = (if rl then tl s else s)
      in (if letters = [] then None else Some (letters_col letters), parse_unsigned u32_limit s,
          Some cl, Some rl))"

definition demo_coords :: coord_lib where
  "demo_coords = \<lparr> cl_index = demo_index,
     cl_coordinate = (\<lambda>c r cl rl. lock_mark cl @ column_number_to_name c @ lock_mark rl @ show_nat r),
     cl_column = column_number_to_name \<rparr>"

lemmas demo_index_eval = parse_a1_ref_segment_def demo_coords_def demo_index_def is_alpha_def
  is_upper_def is_lower_def ord_of_def letters_col_def parse_unsigned_def digits_val_def
  is_digit_def digit_val_def Let_def u32_saturating_add_def u32_saturating_mul_def

lemma demo_segments:
  "parse_a1_ref_segment demo_coords ''B2'' = Inr \<lparr> rs_col = Some 2, rs_row = Some 2,
     rs_col_lock = False, rs_row_lock = False \<rparr>"
  "parse_a1_ref_segment demo_coords ''$B9'' = Inr \<lparr> rs_col = Some 2, rs_row = Some 9,
     rs_col_lock = True, rs_row_lock = False \<rparr>"
  by (simp_all add: demo_index_eval)

theorem transform_range_follows_cells_witness:
  "\<exists>s' e' x y. transform_a1_range_piece demo_coords ''B2:$B9'' RowAxis (DeleteFrom 4 20)
      = Inr (Some (x @ '':'' @ y))
    \<and> format_a1_ref_segment demo_coords s' = Inr x \<and> format_a1_ref_segment demo_coords e' = Inr y
    \<and> range_cells s' e' = {2} \<times> {2..3}"
proof -
  have gone: "transform_a1_range_piece demo_coords ''B2:$B9'' RowAxis (DeleteFrom 4 20) \<noteq> Inr None"
    by (simp add: transform_a1_range_piece_def demo_segments transform_ends_def u32_saturating_add_def
        u32_saturating_sub_def format_a1_ref_segment_def u32_wrapping_sub_def)
  let ?s = "\<lparr> rs_col = Some 2, rs_row = Some 2, rs_col_lock = False, rs_row_lock = False \<rparr>"
  let ?e = "\<lparr> rs_col = Some 2, rs_row = Some 9, rs_col_lock = True, rs_row_lock = False \<rparr>"
  have "moved (DeleteFrom 4 20) r = Some r' \<longleftrightarrow> r = r' \<and> r' \<le> 3" if "r \<in> {2..9}" for r r' :: nat
    using that by auto
  then have "moved_cells RowAxis (DeleteFrom 4 20) ({2} \<times> {2..9}) = {2} \<times> {2..3}"
    by (auto simp del: moved.simps)
  moreover have "range_cells ?s ?e = {2} \<times> {2..9}" by (simp add: range_cells_def)
  ultimately have cells: "moved_cells RowAxis (DeleteFrom 4 20) (range_cells ?s ?e) = {2} \<times> {2..3}"
    by simp
  have "split_once CHR '':'' ''B2:$B9'' = Some (''B2'', ''$B9'')" by simp
  note follows = transform_range_follows_cells [OF this demo_segments, of RowAxis "DeleteFrom 4 20"]
  have "ordered_ends RowAxis (DeleteFrom 4 20) (axis_value RowAxis ?s) (axis_value RowAxis ?e)"
    by (simp add: ordered_ends_def)
  note image = follows [OF this, unfolded cells]
  have "band_cells RowAxis (DeleteFrom 4 20) = {}" by simp
  note image = image [unfolded this Diff_empty]
  show ?thesis
  proof (cases "transform_a1_range_piece demo_coords ''B2:$B9'' RowAxis (DeleteFrom 4 20)")
    case (Inl e)
    with image show ?thesis by simp
  next
    case (Inr t)
    with gone obtain u where "t = Some u" by auto
    with image Inr show ?thesis by auto
  qed
qed

theorem deleted_cell_keeps_other_axis_witness:
  "adjust_ref_coord_part demo_coords ''B2'' RowAxis (DeleteFrom 2 1) = Inr (column_number_to_name 2)"
  using deleted_cell_keeps_other_axis [OF demo_segments(1), of 2 2 RowAxis "DeleteFrom 2 1"]
  by (simp add: lock_mark_def demo_coords_def)

definition demo_span :: shifted_span where
  "demo_span = \<lparr> sp_op_index = 0, sp_sheet_name = ''Data'', sp_axis = ''row'', sp_description = [],
     sp_at = 4, sp_count = 3, sp_direction = ''insert'' \<rparr>"

lemma demo_prints: "prints_no_error demo_coords"
proof -
  have parts: "CHR ''#'' \<notin> set (col_name n)" "CHR ''#'' \<notin> set (show_nat n)" for n
    using col_name_upper [of n] show_nat_digits [of n]
    by (auto simp: list_all_iff is_upper_def is_digit_def ord_of_def)
  have "s \<noteq> ''#REF!''" if "CHR ''#'' \<notin> set s" for s using that by auto
  moreover have "CHR ''#'' \<notin> set (lock_mark cl @ col_name c @ lock_mark rl @ show_nat r)" for cl c rl r
    using parts by (simp add: lock_mark_def)
  ultimately show ?thesis
    using parts by (simp add: prints_no_error_def demo_coords_def)
qed

theorem preview_matches_rewrite_witness:
  "adjust_ref_coord_part demo_coords ''B2:$B9'' RowAxis (InsertAt 4 3)
     = Inr (simulate_adjust_coord demo_coords ''B2:$B9'' demo_span)"
  by (rule preview_matches_rewrite [OF demo_prints])
    (simp_all add: demo_span_def demo_segments ordered_ends_def)

end
