(* ===== verification/Diagnostics.thy ===== *)
theory Diagnostics
  imports WriteOps
begin

text \<open>
  \<open>model/diagnostics.rs\<close>: formulas that do not parse, collected in groups under one key per sheet,
  error and formula shape, with at most five sample addresses and at most fifty groups reported.
  The tokenizer and the parser of formulas are the parameter \<open>formula_lib\<close>.
\<close>

section \<open>Data\<close>

definition max_groups :: nat where
  "max_groups = 50"

definition max_sample_addresses :: nat where
  "max_sample_addresses = 5"

definition formula_preview_max_bytes :: nat where
  "formula_preview_max_bytes = 80"

definition formula_parse_failed :: string where
  "formula_parse_failed = ''FORMULA_PARSE_FAILED''"

definition formula_parse_failed_prefix :: string where
  "formula_parse_failed_prefix = ''formula parse failed: ''"

datatype command_class = SingleWrite | BatchWrite | ReadAnalysis

fun default_for_command_class :: "command_class \<Rightarrow> formula_parse_policy" where
  "default_for_command_class SingleWrite = PolicyFail"
| "default_for_command_class BatchWrite = PolicyWarn"
| "default_for_command_class ReadAnalysis = PolicyWarn"

record formula_parse_error_group =
  eg_error_code :: string
  eg_error_message :: string
  eg_sheet_name :: string
  eg_formula_preview :: string
  eg_count :: nat
  eg_sample_addresses :: "string list"

record formula_parse_diagnostics =
  fd_policy :: formula_parse_policy
  fd_total_errors :: nat
  fd_groups_truncated :: bool
  fd_groups :: "formula_parse_error_group list"

record group_accumulator =
  ga_error_code :: string
  ga_error_message :: string
  ga_formula_preview :: string
  ga_count :: nat
  ga_sample_addresses :: "string list"

type_synonym group_key = "string \<times> string \<times> string"

record diagnostics_builder =
  db_policy :: formula_parse_policy
  db_groups :: "(group_key \<times> group_accumulator) list"
  db_total_errors :: nat

record tokenizer_recovery =
  tr_message :: string
  tr_recovery :: string
  tr_span_start :: nat
  tr_span_end :: nat

record formula_parse_failure =
  pf_parser_message :: string
  pf_parser_position :: "nat option"
  pf_tokenizer :: "tokenizer_recovery option"

text \<open>The text of a token stream with its spans: whether a span is a reference, and where it is.\<close>

record token_stream =
  ts_source :: string
  ts_spans :: "(bool \<times> nat \<times> nat) list"

record formula_lib =
  fo_stream :: "string \<Rightarrow> token_stream option"
  fo_parse :: "string \<Rightarrow> (string \<times> nat option) option"
  fo_first_diagnostic :: "string \<Rightarrow> tokenizer_recovery option"

section \<open>Keys\<close>

text \<open>A byte that starts a character: not \<open>10xxxxxx\<close>.\<close>

definition char_start :: "char \<Rightarrow> bool" where
  "char_start c = (ord_of c < 128 \<or> 192 \<le> ord_of c)"

fun boundary_below :: "string \<Rightarrow> nat \<Rightarrow> nat" where
  "boundary_below s 0 = 0"
| "boundary_below s (Suc n) =
     (if Suc n < length s \<and> \<not> char_start (s ! Suc n) then boundary_below s n else Suc n)"

definition truncate_formula_preview :: "string \<Rightarrow> string" where
  "truncate_formula_preview formula =
     (if length formula \<le> formula_preview_max_bytes then formula
      else take (boundary_below formula formula_preview_max_bytes) formula
        @ [char_of (0xE2 :: nat), char_of (0x80 :: nat), char_of (0xA6 :: nat)])"

text \<open>\<open>byte as char\<close>: a byte from 128 is written as the two bytes of the Latin-1 character.\<close>

definition byte_as_char :: "char \<Rightarrow> string" where
  "byte_as_char c =
     (if ord_of c < 128 then [c] else [char_of (192 + ord_of c div 64), char_of (128 + ord_of c mod 64)])"

definition word_byte :: "char \<Rightarrow> bool" where
  "word_byte c = (is_alnum c \<or> c = CHR ''_'')"

text \<open>The length of the cell reference a text starts with.\<close>

definition cell_reference_length :: "string \<Rightarrow> nat option" where
  "cell_reference_length s =
     (let d1 = (if first_opt s = Some CHR ''$'' then 1 else 0);
          col_len = length (takeWhile is_alpha (take 4 (drop d1 s)));
          j = d1 + col_len;
          d2 = (if first_opt (drop j s) = Some CHR ''$'' then 1 else 0);
          row_len = length (takeWhile is_digit (drop (j + d2) s))
      in if 1 \<le> col_len \<and> col_len \<le> 3 \<and> 1 \<le> row_len then Some (j + d2 + row_len) else None)"

function normalize_refs_from :: "char option \<Rightarrow> string \<Rightarrow> string" where
  "normalize_refs_from before [] = []"
| "normalize_refs_from before (c # cs) =
     (case cell_reference_length (c # cs) of
        Some n \<Rightarrow>
          if 0 < n \<and> n \<le> length (c # cs) \<and> option_all (\<lambda>p. \<not> word_byte p) before
             \<and> option_all (\<lambda>q. \<not> word_byte q) (first_opt (drop n (c # cs)))
          then ''$REF'' @ normalize_refs_from (Some ((c # cs) ! (n - 1))) (drop n (c # cs))
          else byte_as_char c @ normalize_refs_from (Some c) cs
      | None \<Rightarrow> byte_as_char c @ normalize_refs_from (Some c) cs)"
  by pat_completeness auto
termination
  by (relation "measure (length o snd)") auto

definition normalize_refs_regex :: "string \<Rightarrow> string" where
  "normalize_refs_regex formula = truncate_formula_preview (normalize_refs_from None formula)"

definition source_get :: "string \<Rightarrow> nat \<Rightarrow> nat \<Rightarrow> string option" where
  "source_get s a b = (if a \<le> b \<and> b \<le> length s then Some (take (b - a) (drop a s)) else None)"

definition normalize_formula_for_grouping :: "formula_lib \<Rightarrow> string \<Rightarrow> string" where
  "normalize_formula_for_grouping lib formula =
     (case fo_stream lib formula of
        Some stream \<Rightarrow> truncate_formula_preview
          ((if starts_with formula ''='' then ''='' else [])
           @ concat (map (\<lambda>(reference, a, b).
               if reference then ''$REF''
               else case source_get (ts_source stream) a b of None \<Rightarrow> [] | Some val \<Rightarrow> val) (ts_spans stream)))
      | None \<Rightarrow> normalize_refs_regex formula)"

text \<open>The rest of a text after \<open>bytes <digits>..<digits>\<close>, and what is written for it.\<close>

definition bytes_range :: "string \<Rightarrow> (string \<times> string) option" where
  "bytes_range s =
     (if starts_with s ''bytes '' \<and> option_all is_digit (first_opt (drop 6 s)) \<and> drop 6 s \<noteq> []
      then let r = dropWhile is_digit (drop 6 s) in
        Some (if starts_with r ''..'' then (''bytes N..N'', dropWhile is_digit (drop 2 r))
              else (''bytes N'', r))
      else None)"

text \<open>A panic of the code (an index out of bounds) is an error here.\<close>

function normalize_error_for_grouping :: "string \<Rightarrow> string res" where
  "normalize_error_for_grouping s =
     (if s = [] then Inr []
      else
        let pos = starts_with s ''position '';
            s' = (if pos then drop 9 s else s);
            out = (if pos then ''position '' else []) in
        if pos \<and> s' \<noteq> [] \<and> is_digit (hd s')
        then bind_res (normalize_error_for_grouping (dropWhile is_digit s')) (\<lambda>rest.
          Inr (out @ ''N'' @ rest))
        else (case bytes_range s' of
            Some (t, rest) \<Rightarrow>
              if length rest < length s' then
                bind_res (normalize_error_for_grouping rest) (\<lambda>rest. Inr (out @ t @ rest))
              else Inl (Bail ''unreachable'')
          | None \<Rightarrow>
              (case s' of
                 [] \<Rightarrow> Inl (Bail ''index out of bounds'')
               | c # cs \<Rightarrow> bind_res (normalize_error_for_grouping cs) (\<lambda>rest.
                   Inr (out @ byte_as_char c @ rest)))))"
  by pat_completeness auto
termination
proof (relation "measure length", goal_cases)
  case 1
  then show ?case by simp
next
  case (2 s pos s' out)
  then have "length s' < length s" by simp
  then show ?case using length_dropWhile_le [of is_digit s'] by simp
next
  case (3 s pos s' out c cs)
  then have "length (c # cs) \<le> length s" by (metis diff_le_self length_drop order_refl)
  then show ?case by simp
next
  case (4 s pos s' out t rest)
  then have "length s' \<le> length s" by simp
  with 4 show ?case by simp
qed

declare normalize_error_for_grouping.simps [simp del]

section \<open>The builder\<close>

definition diagnostics_new :: "formula_parse_policy \<Rightarrow> diagnostics_builder" where
  "diagnostics_new policy = \<lparr> db_policy = policy, db_groups = [], db_total_errors = 0 \<rparr>"

text \<open>\<open>record_error\<close> with the key it computes.\<close>

definition add_to_group ::
    "group_key \<Rightarrow> string \<Rightarrow> string \<Rightarrow> string \<Rightarrow> diagnostics_builder \<Rightarrow> diagnostics_builder" where
  "add_to_group key address preview error b =
     (let g = (case bt_get (db_groups b) key of
            Some g \<Rightarrow> g
          | None \<Rightarrow> \<lparr> ga_error_code = formula_parse_failed, ga_error_message = error,
              ga_formula_preview = preview, ga_count = 0, ga_sample_addresses = [] \<rparr>);
          g = g \<lparr> ga_count := ga_count g + 1 \<rparr>;
          g = (if length (ga_sample_addresses g) < max_sample_addresses
               then g \<lparr> ga_sample_addresses := ga_sample_addresses g @ [address] \<rparr> else g)
      in b \<lparr> db_total_errors := db_total_errors b + 1, db_groups := bt_insert key g (db_groups b) \<rparr>)"

definition record_error ::
    "formula_lib \<Rightarrow> string \<Rightarrow> string \<Rightarrow> string \<Rightarrow> string \<Rightarrow> diagnostics_builder \<Rightarrow> diagnostics_builder res" where
  "record_error lib sheet address formula error b =
     bind_res (normalize_error_for_grouping error) (\<lambda>normalized_error.
     Inr (add_to_group (sheet, normalized_error, normalize_formula_for_grouping lib formula) address
       (truncate_formula_preview formula) error b))"

definition diagnostics_build :: "diagnostics_builder \<Rightarrow> formula_parse_diagnostics" where
  "diagnostics_build b =
     \<lparr> fd_policy = db_policy b, fd_total_errors = db_total_errors b,
       fd_groups_truncated = (length (db_groups b) > max_groups),
       fd_groups = map (\<lambda>((sheet, _, _), g).
         \<lparr> eg_error_code = ga_error_code g, eg_error_message = ga_error_message g, eg_sheet_name = sheet,
           eg_formula_preview = ga_formula_preview g, eg_count = ga_count g,
           eg_sample_addresses = ga_sample_addresses g \<rparr>) (take max_groups (db_groups b)) \<rparr>"

definition has_errors :: "diagnostics_builder \<Rightarrow> bool" where
  "has_errors b = (db_total_errors b > 0)"

section \<open>The failure of a formula\<close>

definition normalize_formula_input :: "string \<Rightarrow> string" where
  "normalize_formula_input formula =
     (let trimmed = str_trim formula in if starts_with trimmed ''='' then trimmed else ''='' @ trimmed)"

definition from_parser_error :: "formula_lib \<Rightarrow> string \<Rightarrow> string \<times> nat option \<Rightarrow> formula_parse_failure" where
  "from_parser_error lib formula e =
     \<lparr> pf_parser_message = fst e, pf_parser_position = snd e,
       pf_tokenizer = fo_first_diagnostic lib formula \<rparr>"

definition render_message :: "formula_parse_failure \<Rightarrow> string" where
  "render_message f =
     (let parser_message = (case pf_parser_position f of
            Some p \<Rightarrow> ''parse error at position '' @ show_nat p @ '': '' @ pf_parser_message f
          | None \<Rightarrow> ''parse error: '' @ pf_parser_message f)
      in case pf_tokenizer f of
           Some t \<Rightarrow> parser_message @ '' (tokenizer recovery '' @ tr_recovery t @ '' at bytes ''
             @ show_nat (tr_span_start t) @ ''..'' @ show_nat (tr_span_end t) @ '': '' @ tr_message t @ '')''
         | None \<Rightarrow> parser_message)"

definition validate_formula_detailed :: "formula_lib \<Rightarrow> string \<Rightarrow> formula_parse_failure + unit" where
  "validate_formula_detailed lib formula =
     (let formula_in = normalize_formula_input formula in
      case fo_parse lib formula_in of
        None \<Rightarrow> Inr ()
      | Some e \<Rightarrow> Inl (from_parser_error lib formula_in e))"

definition validate_formula_text :: "formula_lib \<Rightarrow> string \<Rightarrow> unit res" where
  "validate_formula_text lib formula =
     (case validate_formula_detailed lib formula of
        Inl f \<Rightarrow> Inl (Bail (render_message f)) | Inr u \<Rightarrow> Inr u)"

section \<open>Lemmas\<close>

text \<open>The guards on the length of a reference and of a byte range always hold: they are for the
  termination of the recursion.\<close>

lemma cell_reference_bounds:
  assumes "cell_reference_length s = Some n"
  shows "0 < n" and "n \<le> length s"
proof -
  define d1 cl d2 rl where "d1 = (if first_opt s = Some CHR ''$'' then 1 else 0 :: nat)"
    and "cl = length (takeWhile is_alpha (take 4 (drop d1 s)))"
    and "d2 = (if first_opt (drop (d1 + cl) s) = Some CHR ''$'' then 1 else 0 :: nat)"
    and "rl = length (takeWhile is_digit (drop (d1 + cl + d2) s))"
  have n: "n = d1 + cl + d2 + rl" and "1 \<le> rl"
    using assms by (auto simp: cell_reference_length_def Let_def d1_def cl_def d2_def rl_def
        split: if_split_asm)
  then show "0 < n" by simp
  have "rl \<le> length s - (d1 + cl + d2)"
    using length_takeWhile_le [of is_digit "drop (d1 + cl + d2) s"] by (simp add: rl_def)
  with \<open>1 \<le> rl\<close> n show "n \<le> length s" by linarith
qed

lemma bytes_range_shorter: "bytes_range s = Some (t, rest) \<Longrightarrow> length rest < length s"
proof -
  assume *: "bytes_range s = Some (t, rest)"
  then have "6 < length s" by (auto simp: bytes_range_def split: if_split_asm)
  moreover have "length rest \<le> length s - 6"
    using * length_dropWhile_le [of is_digit "drop 6 s"]
      length_dropWhile_le [of is_digit "drop 2 (dropWhile is_digit (drop 6 s))"]
    by (auto simp: bytes_range_def Let_def split: if_split_asm)
  ultimately show ?thesis by linarith
qed

text \<open>The code panics on a message that ends in \<open>position \<close>.\<close>

lemma normalize_error_panics:
  "normalize_error_for_grouping ''unexpected token at position '' = Inl (Bail ''index out of bounds'')"
  "normalize_error_for_grouping ''at position 12, bytes 3..45''
     = Inr ''at position N, bytes N..N''"
  by (simp_all add: normalize_error_for_grouping.simps starts_with_def bytes_range_def is_digit_def
      ord_of_def byte_as_char_def Let_def)

section \<open>The account of the errors\<close>

definition add_all :: "(group_key \<times> string \<times> string \<times> string) list \<Rightarrow> diagnostics_builder \<Rightarrow> diagnostics_builder" where
  "add_all es b = foldl (\<lambda>b (key, address, preview, error). add_to_group key address preview error b) b es"

text \<open>The group of a key, read off the errors recorded: the code, message and preview of the first,
  how many there are, and the first five addresses.\<close>

definition account :: "(group_key \<times> string \<times> string \<times> string) list \<Rightarrow> group_key \<Rightarrow> group_accumulator option" where
  "account es key =
     (case filter (\<lambda>e. fst e = key) es of
        [] \<Rightarrow> None
      | (_, _, preview, error) # _ \<Rightarrow> Some
          \<lparr> ga_error_code = formula_parse_failed, ga_error_message = error, ga_formula_preview = preview,
            ga_count = length (filter (\<lambda>e. fst e = key) es),
            ga_sample_addresses = take max_sample_addresses
              (map (\<lambda>e. fst (snd e)) (filter (\<lambda>e. fst e = key) es)) \<rparr>)"

lemma add_to_group_account:
  assumes "bt_get (db_groups b) = account es"
  shows "bt_get (db_groups (add_to_group key address preview error b))
    = account (es @ [(key, address, preview, error)])"
proof
  fix k
  have take_snoc: "(if length (take n xs) < n then take n xs @ [x] else take n xs) = take n (xs @ [x])"
    for n and xs :: "string list" and x by auto
  show "bt_get (db_groups (add_to_group key address preview error b)) k
    = account (es @ [(key, address, preview, error)]) k"
  proof (cases "k = key")
    case True
    then show ?thesis
      using take_snoc [of max_sample_addresses "map (\<lambda>e. fst (snd e)) (filter (\<lambda>e. fst e = key) es)" address]
      by (cases "filter (\<lambda>e. fst e = key) es")
        (auto simp: add_to_group_def Let_def assms account_def max_sample_addresses_def
          split: if_split_asm)
  next
    case False
    then have same: "filter (\<lambda>e. fst e = k) (es @ [(key, address, preview, error)])
        = filter (\<lambda>e. fst e = k) es" by simp
    with False show ?thesis unfolding account_def same
      by (simp add: add_to_group_def Let_def assms account_def)
  qed
qed

lemma add_all_account:
  "db_total_errors (add_all es (diagnostics_new p)) = length es
   \<and> db_policy (add_all es (diagnostics_new p)) = p
   \<and> bt_wf (db_groups (add_all es (diagnostics_new p)))
   \<and> bt_get (db_groups (add_all es (diagnostics_new p))) = account es"
proof (induction es rule: rev_induct)
  case Nil
  then show ?case by (auto simp: add_all_def diagnostics_new_def bt_wf_def account_def)
next
  case (snoc e es)
  obtain key address preview error where e: "e = (key, address, preview, error)" by (cases e) auto
  have "add_all (es @ [e]) (diagnostics_new p)
      = add_to_group key address preview error (add_all es (diagnostics_new p))"
    by (simp add: add_all_def e)
  with snoc.IH add_to_group_account [of _ es key address preview error] show ?case
    by (simp add: e) (simp add: add_to_group_def Let_def bt_wf_insert)
qed

type_synonym parse_error = "string \<times> string \<times> string \<times> string"

definition record_errors :: "formula_lib \<Rightarrow> parse_error list \<Rightarrow> diagnostics_builder \<Rightarrow> diagnostics_builder res" where
  "record_errors lib es b =
     fold_res (\<lambda>b (sheet, address, formula, error). record_error lib sheet address formula error b) b es"

text \<open>An error with the key it is filed under.\<close>

definition keyed :: "formula_lib \<Rightarrow> parse_error \<Rightarrow> group_key \<times> string \<times> string \<times> string" where
  "keyed lib e = (case e of (sheet, address, formula, error) \<Rightarrow>
     ((sheet, (case normalize_error_for_grouping error of Inl _ \<Rightarrow> [] | Inr n \<Rightarrow> n),
       normalize_formula_for_grouping lib formula), address, truncate_formula_preview formula, error))"

lemma record_errors_add_all:
  "record_errors lib es b = Inr b' \<Longrightarrow> b' = add_all (map (keyed lib) es) b"
proof (induction es arbitrary: b)
  case Nil
  then show ?case by (simp add: record_errors_def add_all_def)
next
  case (Cons e es)
  obtain sheet address formula error where e: "e = (sheet, address, formula, error)" by (cases e) auto
  from Cons.prems obtain n where n: "normalize_error_for_grouping error = Inr n"
    and rest: "record_errors lib es (add_to_group (sheet, n, normalize_formula_for_grouping lib formula)
      address (truncate_formula_preview formula) error b) = Inr b'"
    by (auto simp: record_errors_def e record_error_def bind_res_Inr)
  from Cons.IH [OF rest] show ?case by (simp add: add_all_def keyed_def e n)
qed

text \<open>The diagnostics account for every error: after any sequence of recorded errors the total is
  their number, the group of every key has the number of its errors, the message and preview of the
  first of them and the first five addresses, a key without errors has no group, and the report shows
  the first fifty groups in key order and says whether it left any out.\<close>

theorem diagnostics_account:
  assumes "record_errors lib es (diagnostics_new policy) = Inr b"
  shows "bt_get (db_groups b) = account (map (keyed lib) es) \<and> bt_wf (db_groups b)
    \<and> fd_total_errors (diagnostics_build b) = length es \<and> has_errors b = (es \<noteq> [])
    \<and> length (fd_groups (diagnostics_build b)) = min 50 (card (fst ` keyed lib ` set es))
    \<and> fd_groups_truncated (diagnostics_build b) = (card (fst ` keyed lib ` set es) > 50)"
proof -
  note b = record_errors_add_all [OF assms]
  note account = add_all_account [of "map (keyed lib) es" policy, folded b]
  have "set (map fst (db_groups b)) = {key. account (map (keyed lib) es) key \<noteq> None}"
    using account by (simp add: bt.keys_dom [unfolded bt_keys_def] dom_def del: set_map)
  also have "\<dots> = fst ` keyed lib ` set es"
    by (force simp: account_def filter_empty_conv split: list.splits)
  finally have "card (fst ` keyed lib ` set es) = length (db_groups b)"
    using account by (metis bt_wf_distinct distinct_card length_map)
  with account show ?thesis
    by (simp add: diagnostics_build_def max_groups_def has_errors_def)
qed

definition demo_formulas :: formula_lib where
  "demo_formulas = \<lparr> fo_stream = (\<lambda>_. None), fo_parse = (\<lambda>_. None), fo_first_diagnostic = (\<lambda>_. None) \<rparr>"

theorem diagnostics_account_witness:
  "\<exists>b. record_errors demo_formulas [(''S'', ''A1'', ''=B1+'', ''bad''), (''S'', ''A2'', ''=B2+'', ''bad'')]
      (diagnostics_new PolicyWarn) = Inr b
    \<and> fd_total_errors (diagnostics_build b) = 2 \<and> length (fd_groups (diagnostics_build b)) = 1"
proof -
  let ?es = "[(''S'', ''A1'', ''=B1+'', ''bad''), (''S'', ''A2'', ''=B2+'', ''bad'')] :: parse_error list"
  have error: "normalize_error_for_grouping ''bad'' = Inr ''bad''"
    by (simp add: normalize_error_for_grouping.simps starts_with_def bytes_range_def byte_as_char_def ord_of_def)
  have formula: "normalize_formula_for_grouping demo_formulas ''=B1+'' = ''=$REF+''"
    "normalize_formula_for_grouping demo_formulas ''=B2+'' = ''=$REF+''"
    by (simp_all add: normalize_formula_for_grouping_def demo_formulas_def normalize_refs_regex_def
        cell_reference_length_def is_alpha_def is_upper_def is_lower_def is_digit_def is_alnum_def ord_of_def
        word_byte_def byte_as_char_def truncate_formula_preview_def formula_preview_max_bytes_def Let_def)
  obtain b where b: "record_errors demo_formulas ?es (diagnostics_new PolicyWarn) = Inr b"
    by (simp add: record_errors_def record_error_def error)
  have "fst ` keyed demo_formulas ` set ?es = {(''S'', ''bad'', ''=$REF+'')}"
    by (simp add: keyed_def error formula)
  then have "card (fst ` keyed demo_formulas ` set ?es) = 1" by simp
  with diagnostics_account [OF b] b show ?thesis by auto
qed

end
