(* ===== verification/FormulaRewrite.thy ===== *)
theory FormulaRewrite
  imports RefShift Diagnostics Steps
begin

text \<open>
  The workbook as the engine operations of \<open>tools/fork.rs\<close> see it, and the rewriting of formulas
  and defined names after a sheet is renamed or rows or columns move. A workbook of the spreadsheet
  library is its sheets with their cells, and its defined names; the tokenizer of formulas is part
  of the parameter \<open>rewrite_lib\<close>.
\<close>

section \<open>Workbooks\<close>

text \<open>A cell holds a value and, when it is a formula, the text of the formula.\<close>

record wcell =
  wc_value :: string
  wc_formula :: "string option"
  wc_style :: json

type_synonym cell_pos = "u32 \<times> u32"

record data_validation =
  va_rest :: json
  va_ranges :: "string list"

record defined_name =
  dn_name :: string
  dn_address :: string
  dn_hidden :: bool
  dn_local_sheet_id :: "u32 option"

text \<open>A sheet has names of its own scope; those of the workbook are in the workbook.\<close>

record sheet =
  sh_name :: string
  sh_cells :: "(cell_pos \<times> wcell) list"
  sh_merges :: "string list"
  sh_validations :: "data_validation list option"
  sh_names :: "defined_name list"

record book =
  bk_sheets :: "sheet list"
  bk_names :: "defined_name list"

text \<open>Cells are kept by row and column; the position of a coordinate.\<close>

definition sheet_cell :: "sheet \<Rightarrow> u32 \<Rightarrow> u32 \<Rightarrow> wcell option" where
  "sheet_cell sh col row = bt_get (sh_cells sh) (row, col)"

definition empty_cell :: wcell where
  "empty_cell = \<lparr> wc_value = [], wc_formula = None, wc_style = JNull \<rparr>"

definition update_cell :: "u32 \<Rightarrow> u32 \<Rightarrow> (wcell \<Rightarrow> wcell) \<Rightarrow> sheet \<Rightarrow> sheet" where
  "update_cell col row f sh =
     sh \<lparr> sh_cells := bt_insert (row, col)
       (f (case sheet_cell sh col row of None \<Rightarrow> empty_cell | Some c \<Rightarrow> c)) (sh_cells sh) \<rparr>"

definition remove_cell :: "u32 \<Rightarrow> u32 \<Rightarrow> sheet \<Rightarrow> sheet" where
  "remove_cell col row sh = sh \<lparr> sh_cells := bt_remove (row, col) (sh_cells sh) \<rparr>"

text \<open>\<open>set_formula\<close> followed by \<open>set_formula_result_default("")\<close>.\<close>

definition set_formula :: "string \<Rightarrow> wcell \<Rightarrow> wcell" where
  "set_formula f c = c \<lparr> wc_formula := Some f, wc_value := [] \<rparr>"

section \<open>Splicing\<close>

record token =
  tk_value :: string
  tk_start :: nat
  tk_end :: nat
  tk_range :: bool

record rewrite_lib =
  rl_tokens :: "string \<Rightarrow> token list res"
  rl_coords :: coord_lib
  rl_formulas :: formula_lib

text \<open>The loop over the tokens of a formula: the text between two tokens is copied, and every token
  is copied or replaced. The flag says whether a token was replaced.\<close>

fun splice :: "(token \<Rightarrow> string option res) \<Rightarrow> string \<Rightarrow> nat \<Rightarrow> token list \<Rightarrow> (string \<times> bool) res" where
  "splice f text cursor [] = Inr (if cursor < length text then drop cursor text else [], False)"
| "splice f text cursor (t # ts) =
     bind_res (f t) (\<lambda>r.
     bind_res (splice f text (tk_end t) ts) (\<lambda>(out, changed).
     Inr ((if cursor < tk_start t then take (tk_start t - cursor) (drop cursor text) else [])
            @ (case r of None \<Rightarrow> tk_value t | Some v \<Rightarrow> v) @ out,
          r \<noteq> None \<or> changed)))"

section \<open>Sheet names in formulas\<close>

abbreviation apostrophe :: char where "apostrophe \<equiv> CHR 0x27"

definition double_apostrophes :: "string \<Rightarrow> string" where
  "double_apostrophes s = concat (map (\<lambda>c. if c = apostrophe then [c, c] else [c]) s)"

fun single_apostrophes :: "string \<Rightarrow> string" where
  "single_apostrophes (x # y # zs) =
     (if x = apostrophe \<and> y = apostrophe then apostrophe # single_apostrophes zs
      else x # single_apostrophes (y # zs))"
| "single_apostrophes s = s"

definition sheet_part_matches :: "string \<Rightarrow> string \<Rightarrow> bool" where
  "sheet_part_matches sheet_part old_name =
     (let trimmed = str_trim sheet_part in
      case Option.bind (strip_prefix trimmed [apostrophe]) (\<lambda>s. strip_suffix s [apostrophe]) of
        Some inner \<Rightarrow> single_apostrophes inner = old_name
      | None \<Rightarrow> trimmed = old_name)"

definition sheet_name_needs_quoting_for_formula :: "string \<Rightarrow> bool" where
  "sheet_name_needs_quoting_for_formula name =
     (if name = [] then False
      else is_digit (hd name)
        \<or> list_ex (\<lambda>c. c \<in> set ('' !'' @ [CHR 0x22] @ ''#$%&'' @ [apostrophe] @ ''()*+,-./:;<=>?@[''
            @ [CHR 0x5C] @ '']^'' @ [CHR 0x60] @ ''{|}~'')) name
        \<or> map to_upper name \<in> {''TRUE'', ''FALSE'', ''NULL'', ''REF'', ''DIV'', ''NAME'', ''NUM'', ''VALUE'', ''N/A''})"

definition format_sheet_prefix_for_formula :: "string \<Rightarrow> string" where
  "format_sheet_prefix_for_formula sheet_name =
     (if sheet_name_needs_quoting_for_formula sheet_name
      then [apostrophe] @ double_apostrophes sheet_name @ [apostrophe] @ ''!''
      else sheet_name @ ''!'')"

section \<open>Rewriting one text\<close>

text \<open>A reference to the sheet is replaced, any other token is kept.\<close>

definition sheet_reference :: "string \<Rightarrow> (string \<Rightarrow> string \<Rightarrow> string res) \<Rightarrow> token \<Rightarrow> string option res" where
  "sheet_reference sheet_name change t =
     (if tk_range t then
        (case split_once CHR ''!'' (tk_value t) of
           Some (sheet_part, tail) \<Rightarrow>
             if sheet_part_matches sheet_part sheet_name
             then bind_res (change sheet_part tail) (\<lambda>v. Inr (Some v)) else Inr None
         | None \<Rightarrow> Inr None)
      else Inr None)"

definition rename_change :: "string \<Rightarrow> string \<Rightarrow> string \<Rightarrow> string res" where
  "rename_change new_prefix sheet_part tail = Inr (new_prefix @ tail)"

definition structure_change ::
    "rewrite_lib \<Rightarrow> structure_axis \<Rightarrow> structure_edit \<Rightarrow> string \<Rightarrow> string \<Rightarrow> string res" where
  "structure_change lib axis edit sheet_part coord_part =
     bind_res (adjust_ref_coord_part (rl_coords lib) coord_part axis edit) (\<lambda>adjusted.
     Inr (sheet_part @ ''!'' @ adjusted))"

definition with_equals :: "string \<Rightarrow> string" where
  "with_equals s = (if starts_with s ''='' then s else ''='' @ s)"

definition without_equals :: "string \<Rightarrow> string" where
  "without_equals s = (case strip_prefix s ''='' of None \<Rightarrow> s | Some t \<Rightarrow> t)"

section \<open>Rewriting a workbook\<close>

text \<open>An update of every element in order, which stops at the first error and leaves the elements
  after it as they were.\<close>

fun update_all :: "('x \<Rightarrow> 's \<Rightarrow> ('x \<times> 's) res) \<Rightarrow> 'x list \<Rightarrow> 's \<Rightarrow> 'x list \<times> 's \<times> unit res" where
  "update_all f [] s = ([], s, Inr ())"
| "update_all f (x # xs) s =
     (case f x s of
        Inl e \<Rightarrow> (x # xs, s, Inl e)
      | Inr (x', s') \<Rightarrow> (case update_all f xs s' of (xs', s'', r) \<Rightarrow> (x' # xs', s'', r)))"

text \<open>The tokens of a formula; with a tokenizer error the policy says whether the rewriting fails or
  the error is recorded and the formula left alone.\<close>

definition tokens_or_record ::
    "rewrite_lib \<Rightarrow> formula_parse_policy \<Rightarrow> string \<Rightarrow> string \<Rightarrow> string \<Rightarrow> string \<Rightarrow> diagnostics_builder
      \<Rightarrow> (token list option \<times> diagnostics_builder) res" where
  "tokens_or_record lib policy sheet address formula text b =
     (case rl_tokens lib text of
        Inr tokens \<Rightarrow> Inr (Some tokens, b)
      | Inl (Bail message) \<Rightarrow>
          if policy = PolicyFail
          then Inl (Bail (formula_parse_failed_prefix @ ''tokenizer error: '' @ message))
          else bind_res (record_error (rl_formulas lib) sheet address formula message b) (\<lambda>b. Inr (None, b)))"

text \<open>One formula cell. A renaming writes every formula back; a structural edit only those it changed.\<close>

definition rewrite_cell ::
    "rewrite_lib \<Rightarrow> formula_parse_policy \<Rightarrow> (token \<Rightarrow> string option res) \<Rightarrow> bool \<Rightarrow> string
      \<Rightarrow> cell_pos \<times> wcell \<Rightarrow> diagnostics_builder \<Rightarrow> ((cell_pos \<times> wcell) \<times> diagnostics_builder) res" where
  "rewrite_cell lib policy f always sheet_name = (\<lambda>(pos, c) b.
     case wc_formula c of
       None \<Rightarrow> Inr ((pos, c), b)
     | Some formula_text \<Rightarrow>
         if formula_text = [] \<or> policy = PolicyOff then Inr ((pos, c), b)
         else
           let formula_in = with_equals formula_text in
           bind_res (tokens_or_record lib policy sheet_name (cell_address (snd pos) (fst pos)) formula_text
             formula_in b) (\<lambda>(tokens, b).
           case tokens of
             None \<Rightarrow> Inr ((pos, c), b)
           | Some tokens \<Rightarrow>
               bind_res (splice f formula_in 0 tokens) (\<lambda>(out, changed).
               Inr ((pos, if always \<or> changed then set_formula (without_equals out) c else c), b))))"

definition rewrite_sheet ::
    "rewrite_lib \<Rightarrow> formula_parse_policy \<Rightarrow> (token \<Rightarrow> string option res) \<Rightarrow> bool
      \<Rightarrow> sheet \<Rightarrow> diagnostics_builder \<Rightarrow> sheet \<times> diagnostics_builder \<times> unit res" where
  "rewrite_sheet lib policy f always sh b =
     (case update_all (rewrite_cell lib policy f always (sh_name sh)) (sh_cells sh) b of
        (cells, b, r) \<Rightarrow> (sh \<lparr> sh_cells := cells \<rparr>, b, r))"

text \<open>All sheets but the one to skip.\<close>

fun rewrite_sheets ::
    "rewrite_lib \<Rightarrow> formula_parse_policy \<Rightarrow> (token \<Rightarrow> string option res) \<Rightarrow> bool \<Rightarrow> string option
      \<Rightarrow> sheet list \<Rightarrow> diagnostics_builder \<Rightarrow> sheet list \<times> diagnostics_builder \<times> unit res" where
  "rewrite_sheets lib policy f always skip [] b = ([], b, Inr ())"
| "rewrite_sheets lib policy f always skip (sh # shs) b =
     (case (if Some (sh_name sh) = skip then (sh, b, Inr ()) else rewrite_sheet lib policy f always sh b) of
        (sh', b', Inl e) \<Rightarrow> (sh' # shs, b', Inl e)
      | (sh', b', Inr _) \<Rightarrow>
          (case rewrite_sheets lib policy f always skip shs b' of (shs', b'', r) \<Rightarrow> (sh' # shs', b'', r)))"

text \<open>A defined name that looks like a formula.\<close>

definition rewrite_defined_name ::
    "rewrite_lib \<Rightarrow> formula_parse_policy \<Rightarrow> (token \<Rightarrow> string option res)
      \<Rightarrow> defined_name \<Rightarrow> diagnostics_builder \<Rightarrow> (defined_name \<times> diagnostics_builder) res" where
  "rewrite_defined_name lib policy f d b =
     (let trimmed = str_trim (dn_address d);
          had_equals = starts_with trimmed ''='' in
      if \<not> (had_equals \<or> CHR ''('' \<in> set trimmed) \<or> policy = PolicyOff then Inr (d, b)
      else
        let formula_in = with_equals trimmed in
        bind_res (tokens_or_record lib policy ''[DefinedName]'' (dn_name d) trimmed formula_in b)
          (\<lambda>(tokens, b).
        case tokens of
          None \<Rightarrow> Inr (d, b)
        | Some tokens \<Rightarrow>
            bind_res (splice f formula_in 0 tokens) (\<lambda>(out, changed).
            Inr (if changed
                 then d \<lparr> dn_address := (if had_equals then out else without_equals out) \<rparr> else d, b))))"

type_synonym 'a book_step = "(book \<times> diagnostics_builder, 'a) step"

definition rewrite_formulas ::
    "rewrite_lib \<Rightarrow> formula_parse_policy \<Rightarrow> (token \<Rightarrow> string option res) \<Rightarrow> bool \<Rightarrow> string option
      \<Rightarrow> unit book_step" where
  "rewrite_formulas lib policy f always skip = (\<lambda>(bk, b).
     case rewrite_sheets lib policy f always skip (bk_sheets bk) b of
       (shs, b, r) \<Rightarrow> ((bk \<lparr> bk_sheets := shs \<rparr>, b), r))"

definition rewrite_defined_names ::
    "rewrite_lib \<Rightarrow> formula_parse_policy \<Rightarrow> (token \<Rightarrow> string option res) \<Rightarrow> unit book_step" where
  "rewrite_defined_names lib policy f = (\<lambda>(bk, b).
     case update_all (rewrite_defined_name lib policy f) (bk_names bk) b of
       (names, b, r) \<Rightarrow> ((bk \<lparr> bk_names := names \<rparr>, b), r))"

definition rewrite_formulas_for_sheet_rename ::
    "rewrite_lib \<Rightarrow> formula_parse_policy \<Rightarrow> string \<Rightarrow> string \<Rightarrow> unit book_step" where
  "rewrite_formulas_for_sheet_rename lib policy old_name new_name =
     rewrite_formulas lib policy
       (sheet_reference old_name (rename_change (format_sheet_prefix_for_formula new_name))) True None"

definition rewrite_defined_name_formulas_for_sheet_rename ::
    "rewrite_lib \<Rightarrow> formula_parse_policy \<Rightarrow> string \<Rightarrow> string \<Rightarrow> unit book_step" where
  "rewrite_defined_name_formulas_for_sheet_rename lib policy old_name new_name =
     rewrite_defined_names lib policy
       (sheet_reference old_name (rename_change (format_sheet_prefix_for_formula new_name)))"

definition rewrite_formulas_for_sheet_structure_change ::
    "rewrite_lib \<Rightarrow> formula_parse_policy \<Rightarrow> string \<Rightarrow> structure_axis \<Rightarrow> structure_edit \<Rightarrow> unit book_step" where
  "rewrite_formulas_for_sheet_structure_change lib policy sheet_name axis edit =
     rewrite_formulas lib policy (sheet_reference sheet_name (structure_change lib axis edit)) False
       (Some sheet_name)"

definition rewrite_defined_name_formulas_for_sheet_structure_change ::
    "rewrite_lib \<Rightarrow> formula_parse_policy \<Rightarrow> string \<Rightarrow> structure_axis \<Rightarrow> structure_edit \<Rightarrow> unit book_step" where
  "rewrite_defined_name_formulas_for_sheet_structure_change lib policy sheet_name axis edit =
     rewrite_defined_names lib policy (sheet_reference sheet_name (structure_change lib axis edit))"

section \<open>Defined names beyond the last row\<close>

definition clamp_defined_name_refers_to_max_row :: "rewrite_lib \<Rightarrow> string \<Rightarrow> string option" where
  "clamp_defined_name_refers_to_max_row lib refers_to =
     (let trimmed = str_trim refers_to in
      if trimmed = [] then None
      else
        let had_equals = starts_with trimmed ''=''; formula_in = with_equals trimmed in
        case rl_tokens lib formula_in of
          Inl e \<Rightarrow> None
        | Inr tokens \<Rightarrow>
            (case splice (\<lambda>t. if tk_range t then
                   let clamped = clamp_range_token_max_row (rl_coords lib) (tk_value t) 1048576 in
                   Inr (if clamped \<noteq> tk_value t then Some clamped else None)
                 else Inr None) formula_in 0 tokens of
               Inr (out, True) \<Rightarrow> Some (if had_equals then out else without_equals out)
             | _ \<Rightarrow> None))"

section \<open>The text outside the references\<close>

text \<open>Tokens that lie in order in the text and carry their part of it.\<close>

fun tokens_tile :: "string \<Rightarrow> nat \<Rightarrow> token list \<Rightarrow> bool" where
  "tokens_tile text cursor [] = (cursor \<le> length text)"
| "tokens_tile text cursor (t # ts) =
     (cursor \<le> tk_start t \<and> tk_start t \<le> tk_end t \<and> tk_end t \<le> length text
      \<and> tk_value t = take (tk_end t - tk_start t) (drop (tk_start t) text)
      \<and> tokens_tile text (tk_end t) ts)"

text \<open>The text with the tokens' values given: gap, value, gap, \<dots>, value, rest.\<close>

fun interleave :: "string \<Rightarrow> nat \<Rightarrow> token list \<Rightarrow> (token \<Rightarrow> string) \<Rightarrow> string" where
  "interleave text cursor [] val = drop cursor text"
| "interleave text cursor (t # ts) val =
     take (tk_start t - cursor) (drop cursor text) @ val t @ interleave text (tk_end t) ts val"

lemma interleave_values: "tokens_tile text cursor ts \<Longrightarrow> interleave text cursor ts tk_value = drop cursor text"
proof (induction ts arbitrary: cursor)
  case (Cons t ts)
  then have "drop cursor text = take (tk_start t - cursor) (drop cursor text) @ drop (tk_start t) text"
    by (metis append_take_drop_id drop_drop le_add_diff_inverse2 tokens_tile.simps(2))
  moreover have "drop (tk_start t) text = tk_value t @ drop (tk_end t) text"
    using Cons.prems by (metis append_take_drop_id drop_drop le_add_diff_inverse2 tokens_tile.simps(2))
  ultimately show ?case using Cons by simp
qed simp

definition replacement :: "(token \<Rightarrow> string option res) \<Rightarrow> token \<Rightarrow> string" where
  "replacement f t = (case f t of Inr (Some v) \<Rightarrow> v | _ \<Rightarrow> tk_value t)"

lemma splice_interleave:
  assumes "splice f text cursor ts = Inr (out, changed)"
  shows "out = interleave text cursor ts (replacement f)"
    and "changed \<longleftrightarrow> (\<exists>t \<in> set ts. \<exists>v. f t = Inr (Some v))"
proof -
  have "out = interleave text cursor ts (replacement f) \<and> changed = (\<exists>t \<in> set ts. \<exists>v. f t = Inr (Some v))"
    using assms
  proof (induction ts arbitrary: cursor out changed)
    case Nil
    then show ?case by (simp split: if_split_asm)
  next
    case (Cons t ts)
    then obtain r out' ch where r: "f t = Inr r" and rest: "splice f text (tk_end t) ts = Inr (out', ch)"
      and out: "out = (if cursor < tk_start t then take (tk_start t - cursor) (drop cursor text) else [])
          @ (case r of None \<Rightarrow> tk_value t | Some v \<Rightarrow> v) @ out'" "changed = (r \<noteq> None \<or> ch)"
      by (auto simp: bind_res_Inr)
    from Cons.IH [OF rest] r out show ?case by (auto simp: replacement_def split: option.splits)
  qed
  then show "out = interleave text cursor ts (replacement f)"
    and "changed \<longleftrightarrow> (\<exists>t \<in> set ts. \<exists>v. f t = Inr (Some v))" by auto
qed

section \<open>Sheet names\<close>

lemma single_double: "single_apostrophes (double_apostrophes s) = s"
proof (induction s)
  case Nil
  then show ?case by (simp add: double_apostrophes_def)
next
  case (Cons c s)
  show ?case
  proof (cases "c = apostrophe")
    case True
    with Cons show ?thesis by (simp add: double_apostrophes_def)
  next
    case False
    then have "double_apostrophes (c # s) = c # double_apostrophes s" by (simp add: double_apostrophes_def)
    with Cons False show ?thesis by (cases "double_apostrophes s") auto
  qed
qed

lemma set_double: "set (double_apostrophes s) = set s"
  by (auto simp: double_apostrophes_def split: if_split_asm)

lemma set_single: "set (single_apostrophes s) \<subseteq> set s"
  by (induction s rule: single_apostrophes.induct) auto

lemma trim_ends:
  assumes "s \<noteq> []" and "\<not> is_space (hd s)" and "\<not> is_space (last s)"
  shows "str_trim s = s"
proof -
  have "dropWhile is_space s = s" using assms(1,2) by (cases s) auto
  moreover have "dropWhile is_space (rev s) = rev s"
    using assms(1,3) by (cases s rule: rev_cases) auto
  ultimately show ?thesis by (simp add: str_trim_def)
qed

lemma quoted_strips:
  "Option.bind (strip_prefix (apostrophe # s @ [apostrophe]) [apostrophe]) (\<lambda>s. strip_suffix s [apostrophe]) = Some s"
  by (simp add: strip_prefix_def strip_suffix_def starts_with_def)

text \<open>The sheet part a renaming writes is read back as the new sheet and no other, quoted or not and
  with its apostrophes doubled.\<close>

lemma prefix_reads_back:
  assumes "CHR ''!'' \<notin> set name" and "str_trim name = name"
  shows "\<exists>part. split_once CHR ''!'' (format_sheet_prefix_for_formula name @ tail) = Some (part, tail)
    \<and> (\<forall>other. sheet_part_matches part other \<longleftrightarrow> other = name)"
proof (cases "sheet_name_needs_quoting_for_formula name")
  case True
  let ?part = "apostrophe # double_apostrophes name @ [apostrophe]"
  have split: "split_once CHR ''!'' (?part @ CHR ''!'' # tail) = Some (?part, tail)"
    using assms(1) by (intro split_once_append) (simp add: set_double)
  have "str_trim ?part = ?part" by (rule trim_ends) (simp_all add: is_space_def ord_of_def)
  then have "sheet_part_matches ?part other \<longleftrightarrow> other = name" for other
    by (auto simp: sheet_part_matches_def quoted_strips [of "double_apostrophes name", simplified]
        quoted_strips single_double)
  with split True show ?thesis by (auto simp: format_sheet_prefix_for_formula_def)
next
  case False
  have split: "split_once CHR ''!'' (name @ CHR ''!'' # tail) = Some (name, tail)"
    using assms(1) by (intro split_once_append)
  have "apostrophe \<notin> set name"
    using False by (cases "name = []") (auto simp: sheet_name_needs_quoting_for_formula_def list_ex_iff)
  then have "strip_prefix name [apostrophe] = None"
    by (cases name) (auto simp: strip_prefix_def starts_with_def)
  then have "sheet_part_matches name other \<longleftrightarrow> other = name" for other
    by (auto simp: sheet_part_matches_def assms(2))
  with split False show ?thesis by (auto simp: format_sheet_prefix_for_formula_def)
qed

text \<open>A sheet whose name has an exclamation mark is never recognised: the sheet part of a token ends
  at the first one.\<close>

lemma bang_sheet_not_matched:
  assumes "CHR ''!'' \<in> set name" and "split_once CHR ''!'' val = Some (part, tail)"
  shows "\<not> sheet_part_matches part name"
proof
  assume matches: "sheet_part_matches part name"
  have "CHR ''!'' \<notin> set part" using split_once_Some [OF assms(2)] by simp
  moreover have "set (str_trim part) \<subseteq> set part"
    by (auto simp: str_trim_def dest!: set_dropWhileD)
  ultimately have trimmed: "CHR ''!'' \<notin> set (str_trim part)" by blast
  have "set s' \<subseteq> set s" if "strip_prefix s p = Some s'" for s s' p
    using that by (auto simp: strip_prefix_def split: if_split_asm dest: in_set_dropD)
  moreover have "set s' \<subseteq> set s" if "strip_suffix s p = Some s'" for s s' p
    using that set_drop_subset [of "length p" "rev s"]
    by (auto simp: strip_suffix_def strip_prefix_def split: if_split_asm)
  ultimately have "set inner \<subseteq> set (str_trim part)"
    if "Option.bind (strip_prefix (str_trim part) [apostrophe]) (\<lambda>s. strip_suffix s [apostrophe]) = Some inner"
    for inner using that by (auto simp: bind_eq_Some_conv) blast
  with matches trimmed assms(1) set_single show False
    by (auto simp: sheet_part_matches_def Let_def split: option.split_asm)
qed

section \<open>Rewritten workbooks\<close>

text \<open>What a rewriting makes of a cell: nothing when it is no formula, the formula is empty, the
  policy is off, or the tokenizer fails under a policy that goes on; otherwise the formula with the
  replaced tokens, and its cached result cleared.\<close>

definition cell_rewritten ::
    "rewrite_lib \<Rightarrow> formula_parse_policy \<Rightarrow> (token \<Rightarrow> string option res) \<Rightarrow> bool \<Rightarrow> wcell \<Rightarrow> wcell \<Rightarrow> bool" where
  "cell_rewritten lib policy f always c c' =
     (case wc_formula c of
        None \<Rightarrow> c' = c
      | Some formula \<Rightarrow>
          if formula = [] \<or> policy = PolicyOff then c' = c
          else (case rl_tokens lib (with_equals formula) of
              Inl _ \<Rightarrow> policy \<noteq> PolicyFail \<and> c' = c
            | Inr ts \<Rightarrow>
                c' = (if always \<or> (\<exists>t \<in> set ts. \<exists>v. f t = Inr (Some v))
                  then set_formula (without_equals (interleave (with_equals formula) 0 ts (replacement f))) c
                  else c)))"

lemma rewrite_cell_spec:
  assumes "rewrite_cell lib policy f always name (p, c) b = Inr ((p', c'), b')"
  shows "p' = p \<and> cell_rewritten lib policy f always c c'"
proof (cases "wc_formula c")
  case None
  with assms show ?thesis by (simp add: rewrite_cell_def cell_rewritten_def)
next
  case (Some formula)
  show ?thesis
  proof (cases "formula = [] \<or> policy = PolicyOff")
    case True
    with Some assms show ?thesis by (auto simp: rewrite_cell_def cell_rewritten_def)
  next
    case False
    show ?thesis
    proof (cases "rl_tokens lib (with_equals formula)")
      case (Inl e)
      with Some False assms show ?thesis
        by (cases e) (auto simp: rewrite_cell_def cell_rewritten_def tokens_or_record_def bind_res_Inr Let_def
            split: if_split_asm)
    next
      case (Inr ts)
      with Some False assms obtain out changed where
        splice: "splice f (with_equals formula) 0 ts = Inr (out, changed)"
        and c': "p' = p" "c' = (if always \<or> changed then set_formula (without_equals out) c else c)"
        by (auto simp: rewrite_cell_def tokens_or_record_def bind_res_Inr Let_def)
      from splice_interleave [OF splice] Inr Some False c' show ?thesis
        by (simp add: cell_rewritten_def)
    qed
  qed
qed

lemma update_all_each:
  "update_all f xs s = (xs', s', r) \<Longrightarrow>
   list_all2 (\<lambda>x x'. x' = x \<or> (\<exists>s s'. f x s = Inr (x', s'))) xs xs'
   \<and> (r = Inr () \<longrightarrow> list_all2 (\<lambda>x x'. \<exists>s s'. f x s = Inr (x', s')) xs xs')"
proof (induction xs arbitrary: s xs' s' r)
  case (Cons x xs)
  show ?case
  proof (cases "f x s")
    case (Inl e)
    with Cons.prems show ?thesis by (auto intro!: list_all2_refl)
  next
    case (Inr y)
    then obtain x1 s1 where y: "f x s = Inr (x1, s1)" by (cases y) auto
    with Cons.prems obtain ys where "update_all f xs s1 = (ys, s', r)" "xs' = x1 # ys"
      by (auto split: prod.splits)
    with Cons.IH [of s1 ys s' r] y show ?thesis by auto
  qed
qed simp

definition sheet_rewritten ::
    "rewrite_lib \<Rightarrow> formula_parse_policy \<Rightarrow> (token \<Rightarrow> string option res) \<Rightarrow> bool \<Rightarrow> bool \<Rightarrow> sheet \<Rightarrow> sheet \<Rightarrow> bool" where
  "sheet_rewritten lib policy f always whole sh sh' \<longleftrightarrow>
     sh' = sh \<lparr> sh_cells := sh_cells sh' \<rparr>
     \<and> list_all2 (\<lambda>(p, c) (p', c'). p' = p
         \<and> (cell_rewritten lib policy f always c c' \<or> \<not> whole \<and> c' = c)) (sh_cells sh) (sh_cells sh')"

lemma rewrite_sheet_spec:
  assumes "rewrite_sheet lib policy f always sh b = (sh', b', r)"
  shows "sheet_rewritten lib policy f always (r = Inr ()) sh sh'"
proof -
  obtain cells where cells: "update_all (rewrite_cell lib policy f always (sh_name sh)) (sh_cells sh) b
      = (cells, b', r)" and sh': "sh' = sh \<lparr> sh_cells := cells \<rparr>"
    using assms by (auto simp: rewrite_sheet_def split: prod.splits)
  let ?ok = "\<lambda>x x'. \<exists>s s'. rewrite_cell lib policy f always (sh_name sh) x s = Inr (x', s')"
  let ?cell = "\<lambda>w (p, c) (p', c'). p' = p \<and> (cell_rewritten lib policy f always c c' \<or> \<not> w \<and> c' = c)"
  have step: "?cell w x x'" if "?ok x x'" for w x x'
    using that rewrite_cell_spec by (cases x; cases x') blast
  have "list_all2 (?cell (r = Inr ())) (sh_cells sh) cells"
  proof (cases "r = Inr ()")
    case True
    with update_all_each [OF cells] have "list_all2 ?ok (sh_cells sh) cells" by simp
    then show ?thesis by (rule list_all2_mono) (rule step)
  next
    case False
    from update_all_each [OF cells] have "list_all2 (\<lambda>x x'. x' = x \<or> ?ok x x') (sh_cells sh) cells" by simp
    then show ?thesis
    proof (rule list_all2_mono)
      fix x x' assume "x' = x \<or> ?ok x x'"
      then show "?cell (r = Inr ()) x x'"
        using step [of x x' False] False by (cases "x' = x") (auto simp: case_prod_unfold)
    qed
  qed
  then show ?thesis by (simp add: sheet_rewritten_def sh')
qed

lemma rewrite_sheets_spec:
  "rewrite_sheets lib policy f always skip shs b = (shs', b', r) \<Longrightarrow>
   list_all2 (\<lambda>sh sh'. if Some (sh_name sh) = skip then sh' = sh
     else sheet_rewritten lib policy f always (r = Inr ()) sh sh') shs shs'"
proof (induction shs arbitrary: b shs' b' r)
  case (Cons sh shs)
  obtain sh1 b1 r1 where head: "(if Some (sh_name sh) = skip then (sh, b, Inr ())
      else rewrite_sheet lib policy f always sh b) = (sh1, b1, r1)" by (metis prod_cases3)
  have untouched: "sheet_rewritten lib policy f always False sh0 sh0" for sh0
    by (auto simp: sheet_rewritten_def intro!: list_all2_refl)
  have one: "if Some (sh_name sh) = skip then sh1 = sh
      else sheet_rewritten lib policy f always (r1 = Inr ()) sh sh1"
    using head rewrite_sheet_spec by (auto split: if_split_asm)
  show ?case
  proof (cases r1)
    case (Inl e)
    with Cons.prems head one untouched show ?thesis
      by (auto intro!: list_all2_refl split: if_split_asm)
  next
    case (Inr u)
    with Cons.prems head obtain shs1 where rest: "rewrite_sheets lib policy f always skip shs b1 = (shs1, b', r)"
      and shs': "shs' = sh1 # shs1" by (auto split: prod.splits)
    have "sheet_rewritten lib policy f always (r = Inr ()) sh sh1" if "Some (sh_name sh) \<noteq> skip"
      using one that Inr by (auto simp: sheet_rewritten_def elim!: list_all2_mono)
    with Cons.IH [OF rest] one show ?thesis by (auto simp: shs')
  qed
qed simp



section \<open>A concrete workbook\<close>

text \<open>A tokenizer for formulas that are one reference.\<close>

definition demo_rewrite :: rewrite_lib where
  "demo_rewrite = \<lparr> rl_tokens = (\<lambda>s. Inr [\<lparr> tk_value = drop 1 s, tk_start = 1, tk_end = length s,
     tk_range = True \<rparr>]), rl_coords = demo_coords, rl_formulas = demo_formulas \<rparr>"

definition demo_sheet :: "string \<Rightarrow> string \<Rightarrow> sheet" where
  "demo_sheet name formula = \<lparr> sh_name = name, sh_cells = [((1, 1), \<lparr> wc_value = ''7'',
     wc_formula = Some formula, wc_style = JNull \<rparr>)], sh_merges = [], sh_validations = None, sh_names = [] \<rparr>"

definition demo_book :: book where
  "demo_book = \<lparr> bk_sheets = [demo_sheet ''Data'' ''A1'', demo_sheet ''Sum'' ''Data!B2''], bk_names = [] \<rparr>"

lemma demo_rename:
  "rewrite_formulas_for_sheet_rename demo_rewrite PolicyWarn ''Data'' ''My Data'' (demo_book, b)
     = ((\<lparr> bk_sheets = [demo_sheet ''Data'' ''A1'' \<lparr> sh_cells := [((1, 1), \<lparr> wc_value = [],
             wc_formula = Some ''A1'', wc_style = JNull \<rparr>)] \<rparr>,
           demo_sheet ''Sum'' [] \<lparr> sh_cells := [((1, 1), \<lparr> wc_value = [],
             wc_formula = Some (apostrophe # ''My Data'' @ apostrophe # ''!B2''), wc_style = JNull \<rparr>)] \<rparr>],
         bk_names = [] \<rparr>, b), Inr ())"
  by (simp add: rewrite_formulas_for_sheet_rename_def rewrite_formulas_def demo_book_def demo_sheet_def
      rewrite_sheet_def rewrite_cell_def with_equals_def starts_with_def tokens_or_record_def
      demo_rewrite_def sheet_reference_def sheet_part_matches_def str_trim_def is_space_def ord_of_def
      strip_prefix_def rename_change_def format_sheet_prefix_for_formula_def is_digit_def
      sheet_name_needs_quoting_for_formula_def double_apostrophes_def set_formula_def
      without_equals_def Let_def)


lemma demo_adjust: "\<exists>t. adjust_ref_coord_part demo_coords ''B2'' RowAxis (InsertAt 1 1) = Inr t"
  by (simp add: adjust_ref_coord_part_def transform_a1_range_def transform_a1_range_piece_def demo_segments
      format_a1_ref_segment_def adjust_insert_bounded_def)

lemma demo_structure_runs:
  "\<exists>bk' b'. rewrite_formulas_for_sheet_structure_change demo_rewrite PolicyWarn ''Data'' RowAxis (InsertAt 1 1)
      (demo_book, diagnostics_new PolicyWarn) = ((bk', b'), Inr ())"
proof -
  obtain t where "adjust_ref_coord_part demo_coords ''B2'' RowAxis (InsertAt 1 1) = Inr t"
    using demo_adjust by blast
  then have "sheet_reference ''Data'' (structure_change demo_rewrite RowAxis (InsertAt 1 1))
      \<lparr> tk_value = ''Data!B2'', tk_start = i, tk_end = j, tk_range = True \<rparr> = Inr (Some (''Data!'' @ t))" for i j
    by (simp add: sheet_reference_def sheet_part_matches_def str_trim_def is_space_def ord_of_def
        strip_prefix_def starts_with_def structure_change_def demo_rewrite_def)
  moreover have "rl_tokens demo_rewrite x = Inr [\<lparr> tk_value = drop 1 x, tk_start = 1, tk_end = length x,
      tk_range = True \<rparr>]" for x by (simp add: demo_rewrite_def)
  ultimately show ?thesis
    by (simp add: rewrite_formulas_for_sheet_structure_change_def rewrite_formulas_def demo_book_def
        demo_sheet_def rewrite_sheet_def rewrite_cell_def with_equals_def starts_with_def
        tokens_or_record_def Let_def)
qed


end
