(* ===== verification/FormulaPattern.thy ===== *)
theory FormulaPattern
  imports FormulaRewrite WriteValidate
begin

text \<open>
  \<open>formula/pattern.rs\<close> and the operation \<open>formula_pattern\<close> of \<open>tools/fork.rs\<close>: a formula copied to
  another cell with its relative references shifted, and a range filled with it.

  The tree of a formula has the constructors the code matches on; what it leaves alone (operators,
  literals, sheets, tables) is kept as text. The parser, the printer of a tree and the printer of a
  reference belong to the formula library and are the parameter \<open>pattern_lib\<close>.
\<close>

section \<open>Data\<close>

datatype relative_mode = RelExcel | RelAbsCols | RelAbsRows

fun relative_mode_parse :: "string option \<Rightarrow> relative_mode res" where
  "relative_mode_parse mode =
     (let m = map to_lower (case mode of None \<Rightarrow> ''excel'' | Some m \<Rightarrow> m) in
      if m = ''excel'' then Inr RelExcel
      else if m \<in> {''abs_cols'', ''abscols'', ''columns_absolute''} then Inr RelAbsCols
      else if m \<in> {''abs_rows'', ''absrows'', ''rows_absolute''} then Inr RelAbsRows
      else Inl (Bail ''invalid relative_mode''))"

text \<open>A row or column of a reference with its dollar sign.\<close>

record coord =
  co_value :: u32
  co_abs :: bool

text \<open>The ends of a range may lack a row or a column; the dollar sign is kept all the same.\<close>

record opt_coord =
  oc_value :: "u32 option"
  oc_abs :: bool

datatype reference =
    RefCell string coord coord
  | RefRange string opt_coord opt_coord opt_coord opt_coord
  | RefTable string
  | RefNamedRange string
  | RefExternal string
  | RefCell3D string coord coord
  | RefRange3D string opt_coord opt_coord opt_coord opt_coord

datatype ast =
    AstReference string reference
  | AstUnaryOp string ast
  | AstBinaryOp string ast ast
  | AstFunction string "ast list"
  | AstCall ast "ast list"
  | AstOmitted
  | AstArray "ast list list"
  | AstLiteral string

record pattern_lib =
  pl_parse :: "string \<Rightarrow> ast res"
  pl_canonical :: "ast \<Rightarrow> string"
  pl_reference_text :: "reference \<Rightarrow> string"

section \<open>Shifting\<close>

text \<open>\<open>shifted as u32\<close> cuts to 32 bits.\<close>

definition shift_u32 :: "u32 \<Rightarrow> bool \<Rightarrow> int \<Rightarrow> u32 res" where
  "shift_u32 val fixed delta =
     (if fixed \<or> delta = 0 then Inr val
      else
        let shifted = int val + delta in
        bail_if (shifted < 1) ''shift would move reference before A1''
          (Inr (nat (shifted mod 4294967296))))"

definition shift_opt_u32 :: "u32 option \<Rightarrow> bool \<Rightarrow> int \<Rightarrow> u32 option res" where
  "shift_opt_u32 val fixed delta =
     (case val of None \<Rightarrow> Inr None | Some v \<Rightarrow> bind_res (shift_u32 v fixed delta) (\<lambda>v. Inr (Some v)))"

definition shift_coord :: "bool \<Rightarrow> int \<Rightarrow> coord \<Rightarrow> coord res" where
  "shift_coord pin delta c =
     (let fixed = (pin \<or> co_abs c) in
      bind_res (shift_u32 (co_value c) fixed delta) (\<lambda>v. Inr \<lparr> co_value = v, co_abs = fixed \<rparr>))"

definition shift_opt_coord :: "bool \<Rightarrow> int \<Rightarrow> opt_coord \<Rightarrow> opt_coord res" where
  "shift_opt_coord pin delta c =
     (let fixed = (pin \<and> oc_value c \<noteq> None \<or> oc_abs c) in
      bind_res (shift_opt_u32 (oc_value c) fixed delta) (\<lambda>v. Inr \<lparr> oc_value = v, oc_abs = fixed \<rparr>))"

text \<open>A cell shifts its column before its row, a range its start column, end column, start row and
  end row, as the code does; the arguments are row first.\<close>

definition shift_cell ::
    "(coord \<Rightarrow> coord \<Rightarrow> reference) \<Rightarrow> coord \<Rightarrow> coord \<Rightarrow> int \<Rightarrow> int \<Rightarrow> relative_mode \<Rightarrow> reference res" where
  "shift_cell mk row col delta_col delta_row mode =
     bind_res (shift_coord (mode = RelAbsCols) delta_col col) (\<lambda>col.
     bind_res (shift_coord (mode = RelAbsRows) delta_row row) (\<lambda>row.
     Inr (mk row col)))"

definition shift_range ::
    "(opt_coord \<Rightarrow> opt_coord \<Rightarrow> opt_coord \<Rightarrow> opt_coord \<Rightarrow> reference)
      \<Rightarrow> opt_coord \<Rightarrow> opt_coord \<Rightarrow> opt_coord \<Rightarrow> opt_coord \<Rightarrow> int \<Rightarrow> int \<Rightarrow> relative_mode \<Rightarrow> reference res" where
  "shift_range mk start_row start_col end_row end_col delta_col delta_row mode =
     bind_res (shift_opt_coord (mode = RelAbsCols) delta_col start_col) (\<lambda>start_col.
     bind_res (shift_opt_coord (mode = RelAbsCols) delta_col end_col) (\<lambda>end_col.
     bind_res (shift_opt_coord (mode = RelAbsRows) delta_row start_row) (\<lambda>start_row.
     bind_res (shift_opt_coord (mode = RelAbsRows) delta_row end_row) (\<lambda>end_row.
     Inr (mk start_row start_col end_row end_col)))))"

fun shift_reference :: "reference \<Rightarrow> int \<Rightarrow> int \<Rightarrow> relative_mode \<Rightarrow> reference res" where
  "shift_reference (RefCell s row col) dc dr mode = shift_cell (RefCell s) row col dc dr mode"
| "shift_reference (RefRange s sr sc er ec) dc dr mode = shift_range (RefRange s) sr sc er ec dc dr mode"
| "shift_reference (RefCell3D s row col) dc dr mode = shift_cell (RefCell3D s) row col dc dr mode"
| "shift_reference (RefRange3D s sr sc er ec) dc dr mode = shift_range (RefRange3D s) sr sc er ec dc dr mode"
| "shift_reference r dc dr mode = Inr r"

fun shift_refs_in_place :: "pattern_lib \<Rightarrow> int \<Rightarrow> int \<Rightarrow> relative_mode \<Rightarrow> ast \<Rightarrow> ast res"
  and shift_args :: "pattern_lib \<Rightarrow> int \<Rightarrow> int \<Rightarrow> relative_mode \<Rightarrow> ast list \<Rightarrow> ast list res"
  and shift_rows :: "pattern_lib \<Rightarrow> int \<Rightarrow> int \<Rightarrow> relative_mode \<Rightarrow> ast list list \<Rightarrow> ast list list res" where
  "shift_refs_in_place lib dc dr mode (AstReference original reference) =
     bind_res (shift_reference reference dc dr mode) (\<lambda>r.
     Inr (AstReference (pl_reference_text lib r) r))"
| "shift_refs_in_place lib dc dr mode (AstUnaryOp op expr) =
     bind_res (shift_refs_in_place lib dc dr mode expr) (\<lambda>e. Inr (AstUnaryOp op e))"
| "shift_refs_in_place lib dc dr mode (AstBinaryOp op left right) =
     bind_res (shift_refs_in_place lib dc dr mode left) (\<lambda>l.
     bind_res (shift_refs_in_place lib dc dr mode right) (\<lambda>r. Inr (AstBinaryOp op l r)))"
| "shift_refs_in_place lib dc dr mode (AstFunction name args) =
     bind_res (shift_args lib dc dr mode args) (\<lambda>args. Inr (AstFunction name args))"
| "shift_refs_in_place lib dc dr mode (AstCall callee args) =
     bind_res (shift_refs_in_place lib dc dr mode callee) (\<lambda>c.
     bind_res (shift_args lib dc dr mode args) (\<lambda>args. Inr (AstCall c args)))"
| "shift_refs_in_place lib dc dr mode AstOmitted = Inr AstOmitted"
| "shift_refs_in_place lib dc dr mode (AstArray rows) =
     bind_res (shift_rows lib dc dr mode rows) (\<lambda>rows. Inr (AstArray rows))"
| "shift_refs_in_place lib dc dr mode (AstLiteral v) = Inr (AstLiteral v)"
| "shift_args lib dc dr mode [] = Inr []"
| "shift_args lib dc dr mode (a # as) =
     bind_res (shift_refs_in_place lib dc dr mode a) (\<lambda>a.
     bind_res (shift_args lib dc dr mode as) (\<lambda>as. Inr (a # as)))"
| "shift_rows lib dc dr mode [] = Inr []"
| "shift_rows lib dc dr mode (r # rs) =
     bind_res (shift_args lib dc dr mode r) (\<lambda>r.
     bind_res (shift_rows lib dc dr mode rs) (\<lambda>rs. Inr (r # rs)))"

definition parse_base_formula :: "pattern_lib \<Rightarrow> string \<Rightarrow> ast res" where
  "parse_base_formula lib formula =
     map_err (\<lambda>e. ''failed to parse base_formula: '' @ e) (pl_parse lib (with_equals (str_trim formula)))"

definition shift_formula_ast :: "pattern_lib \<Rightarrow> ast \<Rightarrow> int \<Rightarrow> int \<Rightarrow> relative_mode \<Rightarrow> string res" where
  "shift_formula_ast lib ast delta_col delta_row mode =
     bind_res (shift_refs_in_place lib delta_col delta_row mode ast) (\<lambda>shifted.
     Inr (pl_canonical lib shifted))"

section \<open>Filling a range\<close>

record range_bounds =
  sb_min_col :: u32
  sb_max_col :: u32
  sb_min_row :: u32
  sb_max_row :: u32
  sb_rows :: u32
  sb_cols :: u32

text \<open>\<open>parse_cell_ref\<close> and \<open>parse_range_bounds\<close> of \<open>tools/fork.rs\<close>.\<close>

definition fork_cell_ref :: "coord_lib \<Rightarrow> string \<Rightarrow> (u32 \<times> u32) res" where
  "fork_cell_ref L cell =
     (case cl_index L cell of
        (Some c, Some r, _, _) \<Rightarrow> Inr (c, r) | _ \<Rightarrow> Inl (Bail ''Invalid cell reference''))"

definition parse_range_bounds :: "coord_lib \<Rightarrow> string \<Rightarrow> range_bounds res" where
  "parse_range_bounds L rng =
     (let parts = split_on CHR '':'' rng in
      bail_if (parts = [] \<or> length parts > 2) ''Invalid range format. Expected A1 or A1:Z99'' (
      bind_res (fork_cell_ref L (parts ! 0)) (\<lambda>start.
      bind_res (if length parts = 2 then fork_cell_ref L (parts ! 1) else Inr start) (\<lambda>fin.
      let min_col = min (fst start) (fst fin); max_col = max (fst start) (fst fin);
          min_row = min (snd start) (snd fin); max_row = max (snd start) (snd fin) in
      Inr \<lparr> sb_min_col = min_col, sb_max_col = max_col, sb_min_row = min_row, sb_max_row = max_row,
        sb_rows = u32_wrapping_add (u32_wrapping_sub max_row min_row) 1,
        sb_cols = u32_wrapping_add (u32_wrapping_sub max_col min_col) 1 \<rparr>))))"

definition validate_formula_pattern_bounds ::
    "range_bounds \<Rightarrow> u32 \<Rightarrow> u32 \<Rightarrow> fill_direction \<Rightarrow> unit res" where
  "validate_formula_pattern_bounds bounds anchor_col anchor_row direction =
     bail_if (anchor_col < sb_min_col bounds \<or> anchor_col > sb_max_col bounds
         \<or> anchor_row < sb_min_row bounds \<or> anchor_row > sb_max_row bounds)
       ''anchor_cell must be inside target_range'' (
     bail_if (sb_min_col bounds \<noteq> anchor_col \<or> sb_min_row bounds \<noteq> anchor_row)
       ''target_range must start at anchor_cell (anchor should be top-left of fill range)'' (
     case direction of
       FillDown \<Rightarrow> bail_if (sb_min_col bounds \<noteq> sb_max_col bounds)
         ''fill_direction=down requires a single-column target_range'' (Inr ())
     | FillRight \<Rightarrow> bail_if (sb_min_row bounds \<noteq> sb_max_row bounds)
         ''fill_direction=right requires a single-row target_range'' (Inr ())
     | FillBoth \<Rightarrow> Inr ()))"

text \<open>The positions of a block, row by row.\<close>

definition block_positions :: "u32 \<Rightarrow> u32 \<Rightarrow> u32 \<Rightarrow> u32 \<Rightarrow> (u32 \<times> u32) list" where
  "block_positions min_row max_row min_col max_col =
     concat (map (\<lambda>row. map (\<lambda>col. (row, col)) [min_col ..< max_col + 1]) [min_row ..< max_row + 1])"

text \<open>The sheet a name finds first, and an update of it that can fail half way.\<close>

definition find_sheet :: "book \<Rightarrow> string \<Rightarrow> sheet option" where
  "find_sheet bk name = List.find (\<lambda>s. sh_name s = name) (bk_sheets bk)"

fun update_sheet_in :: "string \<Rightarrow> (sheet \<Rightarrow> sheet) \<Rightarrow> sheet list \<Rightarrow> sheet list" where
  "update_sheet_in name f [] = []"
| "update_sheet_in name f (s # ss) =
     (if sh_name s = name then f s # ss else s # update_sheet_in name f ss)"

definition update_sheet :: "string \<Rightarrow> (sheet \<Rightarrow> sheet) \<Rightarrow> book \<Rightarrow> book" where
  "update_sheet name f bk = bk \<lparr> bk_sheets := update_sheet_in name f (bk_sheets bk) \<rparr>"

text \<open>\<open>a as i32 - b as i32\<close>, which wraps around.\<close>

definition i32_delta :: "u32 \<Rightarrow> u32 \<Rightarrow> int" where
  "i32_delta a b = (int a - int b + 2147483648) mod 4294967296 - 2147483648"

lemma i32_delta_small: "a < 2147483648 \<Longrightarrow> b < 2147483648 \<Longrightarrow> i32_delta a b = int a - int b"
  by (simp add: i32_delta_def)

text \<open>The loop of \<open>apply_formula_pattern_to_workbook\<close>: it stops at the first formula that cannot be
  shifted, with the cells before it written.\<close>

fun fill_pattern ::
    "pattern_lib \<Rightarrow> ast \<Rightarrow> relative_mode \<Rightarrow> u32 \<Rightarrow> u32 \<Rightarrow> (u32 \<times> u32) list \<Rightarrow> (sheet, nat) step" where
  "fill_pattern lib ast mode anchor_col anchor_row [] = return_step 0"
| "fill_pattern lib ast mode anchor_col anchor_row ((row, col) # ps) =
     bind_step (read_step (\<lambda>_. shift_formula_ast lib ast (i32_delta col anchor_col)
       (i32_delta row anchor_row) mode)) (\<lambda>shifted.
     bind_step (update_step (update_cell col row (set_formula (without_equals shifted)))) (\<lambda>_.
     bind_step (fill_pattern lib ast mode anchor_col anchor_row ps) (\<lambda>n. return_step (n + 1))))"

text \<open>Lifting a step on a sheet to the workbook; the sheet has to exist.\<close>

definition on_sheet :: "string \<Rightarrow> (sheet, 'a) step \<Rightarrow> (book, 'a) step" where
  "on_sheet name m bk =
     (case find_sheet bk name of
        None \<Rightarrow> (bk, Inl (Bail ''sheet not found''))
      | Some sh \<Rightarrow> (case m sh of (sh', r) \<Rightarrow> (update_sheet name (\<lambda>_. sh') bk, r)))"

definition apply_formula_pattern_to_workbook ::
    "pattern_lib \<Rightarrow> coord_lib \<Rightarrow> string \<Rightarrow> string \<Rightarrow> u32 \<Rightarrow> u32 \<Rightarrow> string \<Rightarrow> relative_mode \<Rightarrow> (book, nat) step" where
  "apply_formula_pattern_to_workbook lib L sheet_name target_range anchor_col anchor_row base_formula mode =
     bind_step (read_step (\<lambda>_. parse_base_formula lib base_formula)) (\<lambda>ast.
     bind_step (read_step (\<lambda>_. parse_range_bounds L target_range)) (\<lambda>bounds.
     on_sheet sheet_name (fill_pattern lib ast mode anchor_col anchor_row
       (block_positions (sb_min_row bounds) (sb_max_row bounds) (sb_min_col bounds) (sb_max_col bounds)))))"

record formula_pattern_op =
  fp_sheet_name :: string
  fp_target_range :: string
  fp_anchor_cell :: string
  fp_base_formula :: string
  fp_fill_direction :: "fill_direction option"
  fp_relative_mode :: "formula_relative_mode option"

fun to_relative_mode :: "formula_relative_mode \<Rightarrow> relative_mode" where
  "to_relative_mode ModeExcel = RelExcel"
| "to_relative_mode ModeAbsCols = RelAbsCols"
| "to_relative_mode ModeAbsRows = RelAbsRows"

text \<open>All operations are checked before the first one is applied.\<close>

definition prepare_pattern ::
    "pattern_lib \<Rightarrow> coord_lib \<Rightarrow> formula_pattern_op \<Rightarrow> (formula_pattern_op \<times> u32 \<times> u32 \<times> relative_mode) res" where
  "prepare_pattern lib L op =
     bind_res (parse_range_bounds L (fp_target_range op)) (\<lambda>bounds.
     bind_res (fork_cell_ref L (fp_anchor_cell op)) (\<lambda>(anchor_col, anchor_row).
     bind_res (validate_formula_pattern_bounds bounds anchor_col anchor_row
       (case fp_fill_direction op of None \<Rightarrow> FillBoth | Some d \<Rightarrow> d)) (\<lambda>_.
     bind_res (parse_base_formula lib (fp_base_formula op)) (\<lambda>_.
     Inr (op, anchor_col, anchor_row,
       to_relative_mode (case fp_relative_mode op of None \<Rightarrow> ModeExcel | Some m \<Rightarrow> m))))))"

definition apply_formula_pattern_ops_to_workbook ::
    "pattern_lib \<Rightarrow> coord_lib \<Rightarrow> formula_pattern_op list \<Rightarrow> (book, nat) step" where
  "apply_formula_pattern_ops_to_workbook lib L ops =
     bind_step (read_step (\<lambda>_. map_res (prepare_pattern lib L) ops)) (\<lambda>prepared.
     bind_step (map_step (\<lambda>(op, anchor_col, anchor_row, mode).
       apply_formula_pattern_to_workbook lib L (fp_sheet_name op) (fp_target_range op) anchor_col
         anchor_row (fp_base_formula op) mode) prepared) (\<lambda>filled.
     return_step (sum_list filled)))"

section \<open>Shifting twice\<close>

text \<open>The references of a tree, and numbers small enough that no sum leaves 32 bits.\<close>

fun refs_of :: "ast \<Rightarrow> reference list" and refs_of_list :: "ast list \<Rightarrow> reference list"
  and refs_of_rows :: "ast list list \<Rightarrow> reference list" where
  "refs_of (AstReference _ r) = [r]"
| "refs_of (AstUnaryOp _ e) = refs_of e"
| "refs_of (AstBinaryOp _ l r) = refs_of l @ refs_of r"
| "refs_of (AstFunction _ args) = refs_of_list args"
| "refs_of (AstCall c args) = refs_of c @ refs_of_list args"
| "refs_of AstOmitted = []"
| "refs_of (AstArray rows) = refs_of_rows rows"
| "refs_of (AstLiteral _) = []"
| "refs_of_list [] = []"
| "refs_of_list (a # as) = refs_of a @ refs_of_list as"
| "refs_of_rows [] = []"
| "refs_of_rows (r # rs) = refs_of_list r @ refs_of_rows rs"

definition small_coord :: "coord \<Rightarrow> bool" where
  "small_coord c = (co_value c < 2147483648)"

definition small_opt_coord :: "opt_coord \<Rightarrow> bool" where
  "small_opt_coord c = option_all (\<lambda>v. v < 2147483648) (oc_value c)"

fun small_ref :: "reference \<Rightarrow> bool" where
  "small_ref (RefCell _ row col) = (small_coord row \<and> small_coord col)"
| "small_ref (RefCell3D _ row col) = (small_coord row \<and> small_coord col)"
| "small_ref (RefRange _ a b c d) = (list_all small_opt_coord [a, b, c, d])"
| "small_ref (RefRange3D _ a b c d) = (list_all small_opt_coord [a, b, c, d])"
| "small_ref _ = True"

definition i32_pair :: "int \<Rightarrow> int \<Rightarrow> bool" where
  "i32_pair a b = (- 2147483648 \<le> a \<and> a < 2147483648 \<and> - 2147483648 \<le> b \<and> b < 2147483648
     \<and> - 2147483648 \<le> a + b \<and> a + b < 2147483648)"

lemma shift_u32_compose:
  assumes "shift_u32 v fixed a = Inr w" and "shift_u32 w fixed b = Inr x"
    and "v < 2147483648" and "i32_pair a b"
  shows "shift_u32 v fixed (a + b) = Inr x"
proof (cases "fixed \<or> a = 0 \<or> b = 0")
  case True
  with assms show ?thesis by (auto simp: shift_u32_def Let_def)
next
  case False
  with assms(1) have w: "1 \<le> int v + a" "w = nat ((int v + a) mod 4294967296)"
    by (auto simp: shift_u32_def Let_def)
  have "int v + a < 4294967296" using assms(3,4) by (auto simp: i32_pair_def)
  with w have w': "int w = int v + a" by simp
  from False assms(2) have x: "1 \<le> int w + b" "x = nat ((int w + b) mod 4294967296)"
    by (auto simp: shift_u32_def Let_def)
  have "int w + b < 4294967296" using assms(3,4) w' by (auto simp: i32_pair_def)
  with x w' have "x = nat (int v + (a + b))" "1 \<le> int v + (a + b)" "int v + (a + b) < 4294967296"
    by (simp_all add: add.assoc)
  with False show ?thesis by (auto simp: shift_u32_def Let_def)
qed

lemma shift_coord_compose:
  assumes "shift_coord pin a c = Inr d" and "shift_coord pin b d = Inr e"
    and "small_coord c" and "i32_pair a b"
  shows "shift_coord pin (a + b) c = Inr e"
proof -
  from assms(1) obtain w where w: "shift_u32 (co_value c) (pin \<or> co_abs c) a = Inr w"
    "d = \<lparr> co_value = w, co_abs = (pin \<or> co_abs c) \<rparr>" by (auto simp: shift_coord_def bind_res_Inr Let_def)
  from assms(2) w obtain x where x: "shift_u32 w (pin \<or> co_abs c) b = Inr x"
    "e = \<lparr> co_value = x, co_abs = (pin \<or> co_abs c) \<rparr>" by (auto simp: shift_coord_def bind_res_Inr Let_def)
  from shift_u32_compose [OF w(1) x(1)] assms(3,4) x(2) show ?thesis
    by (simp add: shift_coord_def small_coord_def)
qed

lemma shift_opt_coord_compose:
  assumes "shift_opt_coord pin a c = Inr d" and "shift_opt_coord pin b d = Inr e"
    and "small_opt_coord c" and "i32_pair a b"
  shows "shift_opt_coord pin (a + b) c = Inr e"
proof (cases "oc_value c")
  case None
  with assms(1,2) show ?thesis by (auto simp: shift_opt_coord_def shift_opt_u32_def bind_res_Inr Let_def)
next
  case (Some v)
  from assms(1) Some obtain w where w: "shift_u32 v (pin \<or> oc_abs c) a = Inr w"
    "d = \<lparr> oc_value = Some w, oc_abs = (pin \<or> oc_abs c) \<rparr>"
    by (auto simp: shift_opt_coord_def shift_opt_u32_def bind_res_Inr Let_def)
  from assms(2) w obtain x where x: "shift_u32 w (pin \<or> oc_abs c) b = Inr x"
    "e = \<lparr> oc_value = Some x, oc_abs = (pin \<or> oc_abs c) \<rparr>"
    by (auto simp: shift_opt_coord_def shift_opt_u32_def bind_res_Inr Let_def)
  from shift_u32_compose [OF w(1) x(1)] assms(3,4) x(2) Some show ?thesis
    by (simp add: shift_opt_coord_def shift_opt_u32_def small_opt_coord_def)
qed

lemma shift_cell_Inr:
  "shift_cell mk row col dc dr mode = Inr s \<longleftrightarrow>
     (\<exists>col' row'. shift_coord (mode = RelAbsCols) dc col = Inr col'
        \<and> shift_coord (mode = RelAbsRows) dr row = Inr row' \<and> s = mk row' col')"
  by (auto simp: shift_cell_def bind_res_Inr)

lemma shift_range_Inr:
  "shift_range mk sr sc er ec dc dr mode = Inr s \<longleftrightarrow>
     (\<exists>sr' sc' er' ec'. shift_opt_coord (mode = RelAbsCols) dc sc = Inr sc'
        \<and> shift_opt_coord (mode = RelAbsCols) dc ec = Inr ec'
        \<and> shift_opt_coord (mode = RelAbsRows) dr sr = Inr sr'
        \<and> shift_opt_coord (mode = RelAbsRows) dr er = Inr er' \<and> s = mk sr' sc' er' ec')"
  by (auto simp: shift_range_def bind_res_Inr)

lemma shift_reference_compose:
  assumes "shift_reference r dc1 dr1 mode = Inr s" and "shift_reference s dc2 dr2 mode = Inr t"
    and "small_ref r" and "i32_pair dc1 dc2" and "i32_pair dr1 dr2"
  shows "shift_reference r (dc1 + dc2) (dr1 + dr2) mode = Inr t"
  by (insert assms, cases r; auto simp: shift_cell_Inr shift_range_Inr;
      erule (3) shift_coord_compose shift_opt_coord_compose)

lemma shift_refs_compose:
  "shift_refs_in_place lib dc1 dr1 mode a = Inr b \<Longrightarrow> shift_refs_in_place lib dc2 dr2 mode b = Inr c \<Longrightarrow>
     \<forall>r \<in> set (refs_of a). small_ref r \<Longrightarrow> i32_pair dc1 dc2 \<Longrightarrow> i32_pair dr1 dr2 \<Longrightarrow>
     shift_refs_in_place lib (dc1 + dc2) (dr1 + dr2) mode a = Inr c"
  "shift_args lib dc1 dr1 mode as = Inr bs \<Longrightarrow> shift_args lib dc2 dr2 mode bs = Inr cs \<Longrightarrow>
     \<forall>r \<in> set (refs_of_list as). small_ref r \<Longrightarrow> i32_pair dc1 dc2 \<Longrightarrow> i32_pair dr1 dr2 \<Longrightarrow>
     shift_args lib (dc1 + dc2) (dr1 + dr2) mode as = Inr cs"
  "shift_rows lib dc1 dr1 mode rows = Inr rows1 \<Longrightarrow> shift_rows lib dc2 dr2 mode rows1 = Inr rows2 \<Longrightarrow>
     \<forall>r \<in> set (refs_of_rows rows). small_ref r \<Longrightarrow> i32_pair dc1 dc2 \<Longrightarrow> i32_pair dr1 dr2 \<Longrightarrow>
     shift_rows lib (dc1 + dc2) (dr1 + dr2) mode rows = Inr rows2"
proof (induction a and as and rows arbitrary: b c and bs cs and rows1 rows2
    rule: refs_of_refs_of_list_refs_of_rows.induct)
  case (1 original r)
  then show ?case by (auto simp: bind_res_Inr) (erule (4) shift_reference_compose)
qed (auto simp: bind_res_Inr)

text \<open>Copying a formula in two steps is copying it in one: when a formula is shifted and the
  result is shifted again, shifting the original by the sum of the offsets gives the same formula, in
  every relative mode; in particular shifting there and back gives the formula shifted by nothing.\<close>

theorem shift_formula_compose:
  assumes "shift_refs_in_place lib dc1 dr1 mode a = Inr b"
    and "shift_formula_ast lib b dc2 dr2 mode = Inr text"
    and "\<forall>r \<in> set (refs_of a). small_ref r" and "i32_pair dc1 dc2" and "i32_pair dr1 dr2"
  shows "shift_formula_ast lib a (dc1 + dc2) (dr1 + dr2) mode = Inr text"
  using assms shift_refs_compose(1) [OF assms(1)]
  by (auto simp: shift_formula_ast_def bind_res_Inr)

section \<open>A filled range\<close>

definition pattern_text :: "pattern_lib \<Rightarrow> ast \<Rightarrow> relative_mode \<Rightarrow> u32 \<Rightarrow> u32 \<Rightarrow> u32 \<times> u32 \<Rightarrow> string res" where
  "pattern_text lib ast mode anchor_col anchor_row = (\<lambda>(row, col).
     shift_formula_ast lib ast (i32_delta col anchor_col) (i32_delta row anchor_row) mode)"

text \<open>What filling makes of the cell at a position.\<close>

definition filled_cell :: "sheet \<Rightarrow> u32 \<times> u32 \<Rightarrow> string \<Rightarrow> wcell" where
  "filled_cell sh pos text = set_formula (without_equals text)
     (case bt_get (sh_cells sh) pos of None \<Rightarrow> empty_cell | Some c \<Rightarrow> c)"

lemma fill_pattern_cells:
  "fill_pattern lib ast mode ac ar ps sh = (sh', Inr n) \<Longrightarrow>
     n = length ps \<and> sh' = sh \<lparr> sh_cells := sh_cells sh' \<rparr>
     \<and> (\<forall>pos. if pos \<in> set ps
          then \<exists>text. pattern_text lib ast mode ac ar pos = Inr text
            \<and> bt_get (sh_cells sh') pos = Some (filled_cell sh pos text)
          else bt_get (sh_cells sh') pos = bt_get (sh_cells sh) pos)"
proof (induction ps arbitrary: sh n)
  case Nil
  then show ?case by (simp add: return_step_def)
next
  case (Cons p ps)
  obtain row col where p: "p = (row, col)" by (cases p)
  from Cons.prems obtain u k where u: "pattern_text lib ast mode ac ar p = Inr u"
    and rest: "fill_pattern lib ast mode ac ar ps (update_cell col row (set_formula (without_equals u)) sh)
      = (sh', Inr k)" and n: "n = Suc k"
    by (auto simp: p pattern_text_def bind_step_ok read_step_def update_step_def return_step_def)
  let ?sh = "update_cell col row (set_formula (without_equals u)) sh"
  have upd: "bt_get (sh_cells ?sh) pos
      = (if pos = p then Some (filled_cell sh p u) else bt_get (sh_cells sh) pos)" for pos
    by (simp add: update_cell_def sheet_cell_def filled_cell_def p)
  have again: "filled_cell ?sh pos v = filled_cell sh pos v" for pos v
    by (cases "pos = p") (simp_all add: filled_cell_def [of ?sh] upd, simp_all add: filled_cell_def set_formula_def)
  have frame: "sh' = ?sh \<lparr> sh_cells := sh_cells sh' \<rparr> \<Longrightarrow> sh' = sh \<lparr> sh_cells := sh_cells sh' \<rparr>"
    by (simp add: update_cell_def)
  note IH = Cons.IH [OF rest]
  have "if pos \<in> set (p # ps)
      then \<exists>text. pattern_text lib ast mode ac ar pos = Inr text
        \<and> bt_get (sh_cells sh') pos = Some (filled_cell sh pos text)
      else bt_get (sh_cells sh') pos = bt_get (sh_cells sh) pos" for pos
    using spec [OF IH [THEN conjunct2, THEN conjunct2], of pos] u
    by (cases "pos \<in> set ps"; cases "pos = p") (simp_all only: upd again, auto)
  with IH frame n show ?case by simp
qed

lemma block_positions_set:
  "set (block_positions min_row max_row min_col max_col)
     = {(row, col). min_row \<le> row \<and> row \<le> max_row \<and> min_col \<le> col \<and> col \<le> max_col}"
  by (auto simp: block_positions_def less_Suc_eq_le image_iff)

lemma update_sheet_in_find:
  "List.find (\<lambda>s. sh_name s = name) ss = Some sh \<Longrightarrow> sh_name sh' = name \<Longrightarrow>
   List.find (\<lambda>s. sh_name s = name) (update_sheet_in name (\<lambda>_. sh') ss) = Some sh'"
  by (induction ss) (auto split: if_split_asm)

lemma update_sheet_in_other:
  "n \<noteq> name \<Longrightarrow> (\<And>s. sh_name s = name \<Longrightarrow> sh_name (f s) = name) \<Longrightarrow>
   List.find (\<lambda>s. sh_name s = n) (update_sheet_in name f ss) = List.find (\<lambda>s. sh_name s = n) ss"
  by (induction ss) auto

lemma find_sheet_name: "find_sheet bk name = Some sh \<Longrightarrow> sh_name sh = name"
  by (auto simp: find_sheet_def dest: find_Some)

text \<open>C33: filling a range with a formula: when the operation returns, every cell of the target range
  of the sheet holds the base formula shifted by its offset from the anchor, with its style kept and
  its cached result cleared; every other cell of the sheet, every other sheet and the defined names
  are as before; the count is the number of cells of the range.\<close>

theorem formula_pattern_fills:
  assumes "apply_formula_pattern_to_workbook lib L name rng ac ar formula mode bk = (bk', Inr n)"
  shows "\<exists>ast bounds sh sh'. parse_base_formula lib formula = Inr ast \<and> parse_range_bounds L rng = Inr bounds
    \<and> find_sheet bk name = Some sh \<and> find_sheet bk' name = Some sh'
    \<and> bk_names bk' = bk_names bk \<and> (\<forall>other. other \<noteq> name \<longrightarrow> find_sheet bk' other = find_sheet bk other)
    \<and> sh' = sh \<lparr> sh_cells := sh_cells sh' \<rparr>
    \<and> n = length (block_positions (sb_min_row bounds) (sb_max_row bounds) (sb_min_col bounds) (sb_max_col bounds))
    \<and> (\<forall>row col. if sb_min_row bounds \<le> row \<and> row \<le> sb_max_row bounds
            \<and> sb_min_col bounds \<le> col \<and> col \<le> sb_max_col bounds
         then \<exists>text. shift_formula_ast lib ast (i32_delta col ac) (i32_delta row ar) mode = Inr text
            \<and> sheet_cell sh' col row = Some (filled_cell sh (row, col) text)
         else sheet_cell sh' col row = sheet_cell sh col row)"
proof -
  from assms obtain ast bounds where ast: "parse_base_formula lib formula = Inr ast"
    and bounds: "parse_range_bounds L rng = Inr bounds"
    and run: "on_sheet name (fill_pattern lib ast mode ac ar (block_positions (sb_min_row bounds)
        (sb_max_row bounds) (sb_min_col bounds) (sb_max_col bounds))) bk = (bk', Inr n)"
    by (auto simp: apply_formula_pattern_to_workbook_def bind_step_ok read_step_def)
  let ?ps = "block_positions (sb_min_row bounds) (sb_max_row bounds) (sb_min_col bounds) (sb_max_col bounds)"
  from run obtain sh sh' where sh: "find_sheet bk name = Some sh"
    and fill: "fill_pattern lib ast mode ac ar ?ps sh = (sh', Inr n)"
    and bk': "bk' = update_sheet name (\<lambda>_. sh') bk"
    by (auto simp: on_sheet_def split: option.splits prod.splits)
  note cells = fill_pattern_cells [OF fill]
  from cells have frame: "sh' = sh \<lparr> sh_cells := sh_cells sh' \<rparr>" by simp
  have "sh_name sh' = name"
    using find_sheet_name [OF sh] frame by (metis sheet.select_convs(1) sheet.surjective sheet.update_convs(2))
  then have "find_sheet bk' name = Some sh'"
    "\<forall>other. other \<noteq> name \<longrightarrow> find_sheet bk' other = find_sheet bk other" "bk_names bk' = bk_names bk"
    using sh by (simp_all add: bk' update_sheet_def find_sheet_def update_sheet_in_find update_sheet_in_other)
  moreover have "if sb_min_row bounds \<le> row \<and> row \<le> sb_max_row bounds
            \<and> sb_min_col bounds \<le> col \<and> col \<le> sb_max_col bounds
         then \<exists>text. shift_formula_ast lib ast (i32_delta col ac) (i32_delta row ar) mode = Inr text
            \<and> sheet_cell sh' col row = Some (filled_cell sh (row, col) text)
         else sheet_cell sh' col row = sheet_cell sh col row" for row col
    using spec [of _ "(row, col)", OF cells [THEN conjunct2, THEN conjunct2]]
    by (auto simp: block_positions_set sheet_cell_def pattern_text_def split: if_split_asm)
  ultimately show ?thesis using ast bounds sh frame cells by blast
qed


section \<open>An example\<close>

text \<open>A formula library that knows the formula \<open>=B2\<close>.\<close>

definition demo_ref :: "u32 \<Rightarrow> u32 \<Rightarrow> reference" where
  "demo_ref row col = RefCell [] \<lparr> co_value = row, co_abs = False \<rparr> \<lparr> co_value = col, co_abs = False \<rparr>"

definition demo_pattern :: pattern_lib where
  "demo_pattern = \<lparr>
     pl_parse = (\<lambda>s. if s = ''=B2'' then Inr (AstReference ''B2'' (demo_ref 2 2)) else Inl (Bail ''parse'')),
     pl_canonical = (\<lambda>a. case a of AstReference t _ \<Rightarrow> ''='' @ t | _ \<Rightarrow> []),
     pl_reference_text = (\<lambda>r. case r of
       RefCell _ row col \<Rightarrow> column_number_to_name (co_value col) @ show_nat (co_value row) | _ \<Rightarrow> []) \<rparr>"

lemma demo_shift:
  "shift_refs_in_place demo_pattern dc dr RelExcel (AstReference t (demo_ref r c)) =
     bind_res (shift_u32 c False dc) (\<lambda>c. bind_res (shift_u32 r False dr) (\<lambda>r.
     Inr (AstReference (column_number_to_name c @ show_nat r) (demo_ref r c))))"
  by (cases "shift_u32 c False dc"; cases "shift_u32 r False dr")
    (simp_all add: demo_pattern_def demo_ref_def shift_cell_def shift_coord_def)

lemma demo_shifted_text:
  "shift_formula_ast demo_pattern (AstReference t (demo_ref r c)) dc dr RelExcel =
     bind_res (shift_u32 c False dc) (\<lambda>c. bind_res (shift_u32 r False dr) (\<lambda>r.
     Inr (''='' @ column_number_to_name c @ show_nat r)))"
  by (cases "shift_u32 c False dc"; cases "shift_u32 r False dr")
    (simp_all only: shift_formula_ast_def demo_shift bind_res_simps, simp_all add: demo_pattern_def)

theorem shift_formula_compose_witness:
  "shift_formula_ast demo_pattern (AstReference ''B2'' (demo_ref 2 2)) (3 + (-1)) (5 + (-5)) RelExcel
     = Inr (''='' @ column_number_to_name 4 @ show_nat 2)"
proof (rule shift_formula_compose)
  show "shift_refs_in_place demo_pattern 3 5 RelExcel (AstReference ''B2'' (demo_ref 2 2))
      = Inr (AstReference (column_number_to_name 5 @ show_nat 7) (demo_ref 7 5))"
    by (subst demo_shift) (simp add: shift_u32_def Let_def)
  show "shift_formula_ast demo_pattern (AstReference (column_number_to_name 5 @ show_nat 7) (demo_ref 7 5))
      (-1) (-5) RelExcel = Inr (''='' @ column_number_to_name 4 @ show_nat 2)"
    by (simp add: demo_shifted_text shift_u32_def Let_def)
qed (simp_all add: demo_ref_def small_coord_def i32_pair_def)

lemma demo_bounds:
  "parse_range_bounds demo_coords ''B2:B3'' = Inr \<lparr> sb_min_col = 2, sb_max_col = 2, sb_min_row = 2,
     sb_max_row = 3, sb_rows = 2, sb_cols = 1 \<rparr>"
  by (simp add: parse_range_bounds_def fork_cell_ref_def demo_index_eval u32_wrapping_add_def
      u32_wrapping_sub_def)

lemma demo_base: "parse_base_formula demo_pattern ''B2'' = Inr (AstReference ''B2'' (demo_ref 2 2))"
  by (simp add: parse_base_formula_def demo_pattern_def str_trim_def is_space_def ord_of_def
      with_equals_def starts_with_def)

theorem formula_pattern_fills_witness:
  "\<exists>bk' sh'. apply_formula_pattern_to_workbook demo_pattern demo_coords ''Data'' ''B2:B3'' 2 2 ''B2'' RelExcel
      demo_book = (bk', Inr 2) \<and> find_sheet bk' ''Data'' = Some sh'
    \<and> sheet_cell sh' 2 3 = Some (filled_cell (demo_sheet ''Data'' ''A1'') (3, 2) (''='' @ column_number_to_name 2 @ show_nat 3))"
proof -
  have found: "find_sheet demo_book ''Data'' = Some (demo_sheet ''Data'' ''A1'')"
    by (simp add: find_sheet_def demo_book_def demo_sheet_def)
  have block: "block_positions 2 3 2 2 = [(2, 2), (3, 2)]" by (simp add: block_positions_def upt_rec)
  obtain bk' where run: "apply_formula_pattern_to_workbook demo_pattern demo_coords ''Data'' ''B2:B3'' 2 2
      ''B2'' RelExcel demo_book = (bk', Inr 2)"
    by (simp add: apply_formula_pattern_to_workbook_def bind_step_def read_step_def demo_bounds demo_base
        on_sheet_def found block demo_shifted_text i32_delta_def shift_u32_def update_step_def return_step_def)
  from formula_pattern_fills [OF run] obtain ast bounds sh sh' where
    parts: "parse_base_formula demo_pattern ''B2'' = Inr ast" "parse_range_bounds demo_coords ''B2:B3'' = Inr bounds"
      "find_sheet demo_book ''Data'' = Some sh"
    and there: "find_sheet bk' ''Data'' = Some sh'"
    and cells: "\<forall>row col. if sb_min_row bounds \<le> row \<and> row \<le> sb_max_row bounds
            \<and> sb_min_col bounds \<le> col \<and> col \<le> sb_max_col bounds
         then \<exists>text. shift_formula_ast demo_pattern ast (i32_delta col 2) (i32_delta row 2) RelExcel = Inr text
            \<and> sheet_cell sh' col row = Some (filled_cell sh (row, col) text)
         else sheet_cell sh' col row = sheet_cell sh col row" by blast
  from parts have [simp]: "ast = AstReference ''B2'' (demo_ref 2 2)" "sh = demo_sheet ''Data'' ''A1''"
    "sb_min_row bounds = 2" "sb_max_row bounds = 3" "sb_min_col bounds = 2" "sb_max_col bounds = 2"
    by (auto simp: demo_bounds demo_base found)
  from spec [OF spec [OF cells, of 3], of 2] have
    "sheet_cell sh' 2 3 = Some (filled_cell (demo_sheet ''Data'' ''A1'') (3, 2) (''='' @ column_number_to_name 2 @ show_nat 3))"
    by (auto simp: demo_shifted_text shift_u32_def i32_delta_def)
  with run there show ?thesis by blast
qed

end
