(* ===== verification/StructureOps.thy ===== *)
theory StructureOps
  imports FormulaPattern
begin

text \<open>
  The structural operations of \<open>tools/fork.rs\<close>: merged cells, rows and columns inserted or deleted,
  rows cloned, sheets created, renamed and deleted, ranges copied and moved, and the batch that
  applies them in order (\<open>apply_structure_ops_to_workbook\<close>).

  What the spreadsheet library does to a sheet or a workbook by itself (shifting the cells of a
  sheet, adding, renaming and removing sheets, reading a defined name) is the parameter
  \<open>engine_lib\<close>.
\<close>

section \<open>Data\<close>

datatype structure_op =
    OpMergeCells string string
  | OpUnmergeCells string string
  | OpInsertRows string u32 u32 bool
  | OpCloneRow string u32 u32 u32 bool
  | OpDeleteRows string u32 u32
  | OpInsertCols string string u32
  | OpDeleteCols string string u32
  | OpRenameSheet string string
  | OpCreateSheet string "u32 option"
  | OpDeleteSheet string
  | OpCopyRange string "string option" string string bool bool
  | OpMoveRange string "string option" string string bool bool

record engine_lib =
  en_rewrite :: rewrite_lib
  en_pattern :: pattern_lib
  en_insert_rows :: "u32 \<Rightarrow> u32 \<Rightarrow> sheet \<Rightarrow> sheet"
  en_remove_rows :: "u32 \<Rightarrow> u32 \<Rightarrow> sheet \<Rightarrow> sheet"
  en_insert_cols :: "string \<Rightarrow> u32 \<Rightarrow> sheet \<Rightarrow> sheet"
  en_remove_cols :: "string \<Rightarrow> u32 \<Rightarrow> sheet \<Rightarrow> sheet"
  en_column_index :: "string \<Rightarrow> u32"
  en_set_sheet_name :: "nat \<Rightarrow> string \<Rightarrow> book \<Rightarrow> book res"
  en_new_sheet :: "string \<Rightarrow> book \<Rightarrow> book res"
  en_remove_sheet :: "string \<Rightarrow> book \<Rightarrow> book res"
  en_defined_name :: "string \<Rightarrow> string \<Rightarrow> string \<Rightarrow> defined_name option"

abbreviation en_coords :: "engine_lib \<Rightarrow> coord_lib" where
  "en_coords en \<equiv> rl_coords (en_rewrite en)"

definition structure_ops_require_recalc :: "structure_op list \<Rightarrow> bool" where
  "structure_ops_require_recalc ops = list_ex (\<lambda>op. case op of
       OpInsertRows _ _ _ _ \<Rightarrow> True | OpDeleteRows _ _ _ \<Rightarrow> True | OpInsertCols _ _ _ \<Rightarrow> True
     | OpDeleteCols _ _ _ \<Rightarrow> True | OpRenameSheet _ _ \<Rightarrow> True | OpCloneRow _ _ _ _ _ \<Rightarrow> True
     | OpCopyRange _ _ _ _ _ formulas \<Rightarrow> formulas | OpMoveRange _ _ _ _ _ formulas \<Rightarrow> formulas
     | _ \<Rightarrow> False) ops"

section \<open>Merged cells\<close>

definition ranges_intersect :: "u32 \<Rightarrow> u32 \<Rightarrow> u32 \<Rightarrow> u32 \<Rightarrow> u32 \<Rightarrow> u32 \<Rightarrow> u32 \<Rightarrow> u32 \<Rightarrow> bool" where
  "ranges_intersect a_min_col a_min_row a_max_col a_max_row b_min_col b_min_row b_max_col b_max_row =
     (\<not> (a_max_col < b_min_col \<or> b_max_col < a_min_col \<or> a_max_row < b_min_row \<or> b_max_row < a_min_row))"

definition bounds_meet :: "range_bounds \<Rightarrow> range_bounds \<Rightarrow> bool" where
  "bounds_meet m t = (sb_min_col m \<le> sb_max_col t \<and> sb_max_col m \<ge> sb_min_col t
     \<and> sb_min_row m \<le> sb_max_row t \<and> sb_max_row m \<ge> sb_min_row t)"

text \<open>Merged ranges that meet the target are dropped; a target or a merged range that cannot be read
  changes nothing. The result is the number dropped.\<close>

definition unmerge_cells :: "coord_lib \<Rightarrow> string \<Rightarrow> (sheet, nat) step" where
  "unmerge_cells L target_range sh =
     (let sh' = (case parse_range_bounds L target_range of
            Inl _ \<Rightarrow> sh
          | Inr t \<Rightarrow> sh \<lparr> sh_merges := filter (\<lambda>m. case parse_range_bounds L m of
                Inr m \<Rightarrow> \<not> bounds_meet m t | Inl _ \<Rightarrow> True) (sh_merges sh) \<rparr>)
      in (sh', Inr (length (sh_merges sh) - length (sh_merges sh'))))"

section \<open>Data validations\<close>

text \<open>The ranges of a validation after the edit, without repetitions; \<open>seen\<close> holds those kept so far.\<close>

fun relocate_ranges ::
    "coord_lib \<Rightarrow> structure_axis \<Rightarrow> structure_edit \<Rightarrow> string list \<Rightarrow> string list \<Rightarrow> string list res" where
  "relocate_ranges L axis edit seen [] = Inr []"
| "relocate_ranges L axis edit seen (r # rs) =
     bind_res (transform_a1_range L r axis edit) (\<lambda>t.
     case t of
       Some t \<Rightarrow>
         if t \<in> set seen then relocate_ranges L axis edit seen rs
         else bind_res (relocate_ranges L axis edit (t # seen) rs) (\<lambda>rs. Inr (t # rs))
     | None \<Rightarrow> relocate_ranges L axis edit seen rs)"

fun relocate_validations ::
    "coord_lib \<Rightarrow> structure_axis \<Rightarrow> structure_edit \<Rightarrow> data_validation list \<Rightarrow> data_validation list res" where
  "relocate_validations L axis edit [] = Inr []"
| "relocate_validations L axis edit (v # vs) =
     bind_res (relocate_ranges L axis edit [] (va_ranges v)) (\<lambda>rs.
     bind_res (relocate_validations L axis edit vs) (\<lambda>vs.
     Inr (if rs = [] then vs else v \<lparr> va_ranges := rs \<rparr> # vs)))"

definition transform_data_validations_for_structure_change ::
    "coord_lib \<Rightarrow> sheet \<Rightarrow> structure_axis \<Rightarrow> structure_edit \<Rightarrow> data_validation list option res" where
  "transform_data_validations_for_structure_change L sh axis edit =
     (case sh_validations sh of
        None \<Rightarrow> Inr None
      | Some vs \<Rightarrow> bind_res (relocate_validations L axis edit vs) (\<lambda>vs.
          Inr (if vs = [] then None else Some vs)))"

definition replace_data_validations :: "data_validation list option \<Rightarrow> sheet \<Rightarrow> sheet" where
  "replace_data_validations vs sh = sh \<lparr> sh_validations := vs \<rparr>"

text \<open>The sheet itself: the validations are computed before the library shifts the rows and put back
  after.\<close>

definition shift_rows_of_sheet ::
    "engine_lib \<Rightarrow> structure_edit \<Rightarrow> (sheet \<Rightarrow> sheet) \<Rightarrow> (sheet, unit) step" where
  "shift_rows_of_sheet en edit shift =
     bind_step (read_step (\<lambda>sh. transform_data_validations_for_structure_change (en_coords en) sh RowAxis edit))
       (\<lambda>vs. update_step (replace_data_validations vs o shift))"

section \<open>Copying and moving a range\<close>

definition cell_in :: "book \<Rightarrow> string \<Rightarrow> u32 \<times> u32 \<Rightarrow> wcell option" where
  "cell_in bk name pos = Option.bind (find_sheet bk name) (\<lambda>sh. bt_get (sh_cells sh) pos)"

text \<open>What a copied cell's formula becomes; \<open>None\<close> when its value is copied instead.\<close>

definition copied_formula ::
    "engine_lib \<Rightarrow> formula_parse_policy \<Rightarrow> string \<Rightarrow> string \<Rightarrow> bool \<Rightarrow> int \<Rightarrow> int \<Rightarrow> wcell
      \<Rightarrow> diagnostics_builder \<Rightarrow> (string option \<times> diagnostics_builder) res" where
  "copied_formula en policy dest_sheet dest_address include_formulas delta_col delta_row c b =
     (case wc_formula c of
        None \<Rightarrow> Inr (None, b)
      | Some src_formula \<Rightarrow>
          if \<not> include_formulas then Inr (None, b)
          else if policy = PolicyOff then Inr (Some src_formula, b)
          else
            (case bind_res (parse_base_formula (en_pattern en) src_formula) (\<lambda>ast.
                shift_formula_ast (en_pattern en) ast delta_col delta_row RelExcel) of
               Inr shifted \<Rightarrow> Inr (Some (without_equals shifted), b)
             | Inl (Bail m) \<Rightarrow>
                 if policy = PolicyFail
                 then Inl (Bail (formula_parse_failed_prefix @ ''formula shift failed in '' @ m))
                 else bind_res (record_error (rl_formulas (en_rewrite en)) dest_sheet dest_address src_formula m b)
                   (\<lambda>b. Inr (Some src_formula, b))))"

definition paste_cell :: "bool \<Rightarrow> wcell \<Rightarrow> string option \<Rightarrow> wcell \<Rightarrow> wcell" where
  "paste_cell include_styles src f dest =
     (let dest = (if include_styles then dest \<lparr> wc_style := wc_style src \<rparr> else dest);
          dest = dest \<lparr> wc_formula := None \<rparr>
      in case f of Some f \<Rightarrow> set_formula f dest | None \<Rightarrow> dest \<lparr> wc_value := wc_value src \<rparr>)"

text \<open>One cell; the result counts the formula whose cached value is copied.\<close>

definition copy_cell ::
    "engine_lib \<Rightarrow> formula_parse_policy \<Rightarrow> string \<Rightarrow> string \<Rightarrow> bool \<Rightarrow> bool \<Rightarrow> int \<Rightarrow> int
      \<Rightarrow> u32 \<times> u32 \<Rightarrow> u32 \<times> u32 \<Rightarrow> nat book_step" where
  "copy_cell en policy src_sheet dest_sheet include_styles include_formulas delta_col delta_row src dest =
     (\<lambda>(bk, b).
       case cell_in bk src_sheet src of
         None \<Rightarrow> ((update_sheet dest_sheet (remove_cell (snd dest) (fst dest)) bk, b), Inr 0)
       | Some c \<Rightarrow>
           (case copied_formula en policy dest_sheet (cell_address (snd dest) (fst dest)) include_formulas
                delta_col delta_row c b of
              Inl e \<Rightarrow> ((bk, b), Inl e)
            | Inr (f, b) \<Rightarrow>
                ((update_sheet dest_sheet (update_cell (snd dest) (fst dest) (paste_cell include_styles c f)) bk, b),
                 Inr (if \<not> include_formulas \<and> wc_formula c \<noteq> None then 1 else 0))))"

text \<open>The offsets of a block, row by row.\<close>

definition block_offsets :: "u32 \<Rightarrow> u32 \<Rightarrow> (u32 \<times> u32) list" where
  "block_offsets height width = concat (map (\<lambda>row. map (\<lambda>col. (row, col)) [0 ..< width]) [0 ..< height])"

definition at_offset :: "u32 \<times> u32 \<Rightarrow> u32 \<times> u32 \<Rightarrow> u32 \<times> u32" where
  "at_offset start p = (fst start + fst p, snd start + snd p)"

definition copy_block ::
    "engine_lib \<Rightarrow> formula_parse_policy \<Rightarrow> string \<Rightarrow> string \<Rightarrow> bool \<Rightarrow> bool \<Rightarrow> int \<Rightarrow> int
      \<Rightarrow> u32 \<times> u32 \<Rightarrow> u32 \<times> u32 \<Rightarrow> (u32 \<times> u32) list \<Rightarrow> nat list book_step" where
  "copy_block en policy src_sheet dest_sheet include_styles include_formulas delta_col delta_row src dest =
     map_step (\<lambda>p. copy_cell en policy src_sheet dest_sheet include_styles include_formulas delta_col delta_row
       (at_offset src p) (at_offset dest p))"

definition clear_block :: "string \<Rightarrow> u32 \<times> u32 \<Rightarrow> (u32 \<times> u32) list \<Rightarrow> book \<Rightarrow> book" where
  "clear_block name start ps bk =
     fold (\<lambda>p. update_sheet name (remove_cell (snd (at_offset start p)) (fst (at_offset start p)))) ps bk"

definition has_sheet :: "string \<Rightarrow> book \<Rightarrow> bool" where
  "has_sheet name bk = (find_sheet bk name \<noteq> None)"

text \<open>\<open>copy_or_move_range\<close>: the result is the number of cells written and the warnings.\<close>

definition copy_or_move_range ::
    "engine_lib \<Rightarrow> string \<Rightarrow> string \<Rightarrow> string \<Rightarrow> string \<Rightarrow> bool \<Rightarrow> bool \<Rightarrow> bool \<Rightarrow> formula_parse_policy
      \<Rightarrow> (nat \<times> string list) book_step" where
  "copy_or_move_range en src_sheet dest_sheet src_range dest_anchor include_styles include_formulas
       clear_source policy =
     bind_step (read_step (\<lambda>_. parse_range_bounds (en_coords en) src_range)) (\<lambda>bounds.
     bind_step (read_step (\<lambda>_. fork_cell_ref (en_coords en) dest_anchor)) (\<lambda>(dest_col, dest_row).
     let width = sb_cols bounds; height = sb_rows bounds in
     bind_step (read_step (\<lambda>_. ok_or (u32_checked_add dest_col (u32_saturating_sub width 1))
       ''destination range overflows column bounds'')) (\<lambda>dest_end_col.
     bind_step (read_step (\<lambda>_. ok_or (u32_checked_add dest_row (u32_saturating_sub height 1))
       ''destination range overflows row bounds'')) (\<lambda>dest_end_row.
     bind_step (guard_step (\<not> (src_sheet = dest_sheet
         \<and> ranges_intersect (sb_min_col bounds) (sb_min_row bounds) (sb_max_col bounds) (sb_max_row bounds)
             dest_col dest_row dest_end_col dest_end_row))
       ''copy/move destination overlaps source'') (\<lambda>_.
     bind_step (read_step (\<lambda>(bk, b). bail_if (\<not> has_sheet src_sheet bk) ''sheet not found''
       (bail_if (\<not> has_sheet dest_sheet bk) ''sheet not found'' (Inr ())))) (\<lambda>_.
     let src = (sb_min_row bounds, sb_min_col bounds); dest = (dest_row, dest_col);
         ps = block_offsets height width in
     bind_step (copy_block en policy src_sheet dest_sheet include_styles include_formulas
       (i32_delta dest_col (sb_min_col bounds)) (i32_delta dest_row (sb_min_row bounds)) src dest ps) (\<lambda>copies.
     bind_step (update_step (\<lambda>(bk, b). (if clear_source then clear_block src_sheet src ps bk else bk, b))) (\<lambda>_.
     return_step (width * height,
       if \<not> include_formulas \<and> sum_list copies > 0 then [''Copied cached values for formula cells''] else [])))))))))"

section \<open>Cloned rows\<close>

definition highest_column :: "sheet \<Rightarrow> u32" where
  "highest_column sh = fold (\<lambda>(pos, _). max (snd pos)) (sh_cells sh) 0"

record template_cell =
  tc_col :: u32
  tc_value :: string
  tc_formula :: "string option"
  tc_style :: json

definition capture_row_template :: "u32 \<Rightarrow> sheet \<Rightarrow> template_cell list" where
  "capture_row_template source_row sh =
     List.map_filter (\<lambda>col. map_option (\<lambda>c. \<lparr> tc_col = col, tc_value = wc_value c,
         tc_formula = wc_formula c, tc_style = wc_style c \<rparr>) (sheet_cell sh col source_row))
       [1 ..< highest_column sh + 1]"

text \<open>The formula a copy of the template row gets, and whether it could not be shifted.\<close>

definition template_formula :: "pattern_lib \<Rightarrow> int \<Rightarrow> string \<Rightarrow> string \<times> bool" where
  "template_formula lib delta_row formula =
     (case bind_res (parse_base_formula lib formula) (\<lambda>ast. shift_formula_ast lib ast 0 delta_row RelExcel) of
        Inr shifted \<Rightarrow> (without_equals shifted, False)
      | Inl _ \<Rightarrow> (formula, True))"

definition stamp_cell :: "pattern_lib \<Rightarrow> int \<Rightarrow> template_cell \<Rightarrow> wcell \<Rightarrow> wcell" where
  "stamp_cell lib delta_row t c =
     (let c = c \<lparr> wc_style := tc_style t \<rparr> in
      case tc_formula t of
        Some f \<Rightarrow> set_formula (fst (template_formula lib delta_row f)) c
      | None \<Rightarrow> c \<lparr> wc_value := tc_value t, wc_formula := None \<rparr>)"

definition stamp_row :: "pattern_lib \<Rightarrow> template_cell list \<Rightarrow> u32 \<Rightarrow> u32 \<Rightarrow> sheet \<Rightarrow> sheet" where
  "stamp_row lib template source_row dest_row sh =
     fold (\<lambda>t. update_cell (tc_col t) dest_row (stamp_cell lib (i32_delta dest_row source_row) t)) template sh"

definition stamp_warnings :: "pattern_lib \<Rightarrow> template_cell list \<Rightarrow> u32 \<Rightarrow> u32 \<Rightarrow> string list" where
  "stamp_warnings lib template source_row dest_row =
     List.map_filter (\<lambda>t. case tc_formula t of
         Some f \<Rightarrow> if snd (template_formula lib (i32_delta dest_row source_row) f)
           then Some ''WARN_CLONE_FORMULA_SHIFT'' else None
       | None \<Rightarrow> None) template"

definition stamp_template_rows ::
    "pattern_lib \<Rightarrow> template_cell list \<Rightarrow> u32 \<Rightarrow> u32 \<Rightarrow> u32 \<Rightarrow> (sheet, string list) step" where
  "stamp_template_rows lib template source_row insert_at n sh =
     (let rows = map (u32_wrapping_add insert_at) [0 ..< n]
      in (fold (stamp_row lib template source_row) rows sh,
          Inr (concat (map (stamp_warnings lib template source_row) rows))))"

section \<open>Sums next to inserted rows\<close>

text \<open>\<open>simple_sum_range_regex\<close>: one to three letters and digits twice, between \<open>SUM(\<close> and \<open>)\<close>.\<close>

definition sum_corner :: "string \<Rightarrow> (string \<times> string \<times> string) option" where
  "sum_corner s =
     (let col = takeWhile is_alpha s; s = dropWhile is_alpha s;
          row = takeWhile is_digit s; s = dropWhile is_digit s
      in if 1 \<le> length col \<and> length col \<le> 3 \<and> row \<noteq> [] then Some (col, row, s) else None)"

definition simple_sum_range :: "string \<Rightarrow> (string \<times> string \<times> string \<times> string) option" where
  "simple_sum_range s =
     (if map to_upper (take 4 s) \<noteq> ''SUM('' then None
      else
        (case sum_corner (drop 4 s) of
           Some (col1, row1, CHR '':'' # s) \<Rightarrow>
             (case sum_corner s of
                Some (col2, row2, '')'') \<Rightarrow> Some (col1, row1, col2, row2) | _ \<Rightarrow> None)
         | _ \<Rightarrow> None))"

text \<open>What is done with the formula of one cell of the row below the inserted rows.\<close>

datatype sum_action = SumKeep | SumWarn string | SumExpand string

definition sum_row_number :: "string \<Rightarrow> u32" where
  "sum_row_number digits = (case parse_u32 digits of None \<Rightarrow> 0 | Some n \<Rightarrow> n)"

definition sum_action_for :: "u32 \<Rightarrow> u32 \<Rightarrow> string \<Rightarrow> sum_action" where
  "sum_action_for at_row subtotal_row formula_text =
     (if formula_text = [] then SumKeep
      else
        let bare = without_equals formula_text in
        case simple_sum_range bare of
          None \<Rightarrow>
            if contains_str (map to_upper bare) ''SUM'' then SumWarn ''WARN_SUM_EXPANSION_SKIPPED'' else SumKeep
        | Some (c1, r1, c2, r2) \<Rightarrow>
            let col1 = map to_upper c1; col2 = map to_upper c2;
                row1 = sum_row_number r1; row2 = sum_row_number r2 in
            if col1 \<noteq> col2 then SumWarn ''WARN_SUM_EXPANSION_SKIPPED''
            else if at_row = 0 \<or> u32_wrapping_add row2 1 \<noteq> at_row then SumKeep
            else if row1 > row2 \<or> row1 = 0 then SumKeep
            else SumExpand (''SUM('' @ col1 @ show_nat row1 @ '':'' @ col2
              @ show_nat (u32_wrapping_sub subtotal_row 1) @ '')''))"

definition sum_action_at :: "u32 \<Rightarrow> u32 \<Rightarrow> sheet \<Rightarrow> u32 \<Rightarrow> sum_action" where
  "sum_action_at at_row subtotal_row sh col =
     (case Option.bind (sheet_cell sh col subtotal_row) wc_formula of
        None \<Rightarrow> SumKeep | Some f \<Rightarrow> sum_action_for at_row subtotal_row f)"

fun expand_columns :: "u32 \<Rightarrow> u32 \<Rightarrow> u32 list \<Rightarrow> sheet \<Rightarrow> sheet \<times> string list \<times> nat" where
  "expand_columns at_row subtotal_row [] sh = (sh, [], 0)"
| "expand_columns at_row subtotal_row (col # cols) sh =
     (case sum_action_at at_row subtotal_row sh col of
        SumKeep \<Rightarrow> expand_columns at_row subtotal_row cols sh
      | SumWarn w \<Rightarrow>
          (case expand_columns at_row subtotal_row cols sh of (sh, ws, n) \<Rightarrow> (sh, w # ws, n))
      | SumExpand f \<Rightarrow>
          (case expand_columns at_row subtotal_row cols (update_cell col subtotal_row (set_formula f) sh) of
             (sh, ws, n) \<Rightarrow> (sh, ws, n + 1)))"

definition expand_adjacent_sum_formulas :: "u32 \<Rightarrow> u32 \<Rightarrow> (sheet, string list \<times> nat) step" where
  "expand_adjacent_sum_formulas at_row n sh =
     (case expand_columns at_row (u32_wrapping_add at_row n) [1 ..< highest_column sh + 1] sh of
        (sh, ws, k) \<Rightarrow> (sh, Inr (ws, k)))"

section \<open>Defined names beyond the last row\<close>

definition extract_first_sheet_name :: "string \<Rightarrow> string option" where
  "extract_first_sheet_name refers_to =
     (case split_once CHR ''!'' (str_trim (hd (split_on CHR '','' refers_to))) of
        None \<Rightarrow> None
      | Some (sheet_part, _) \<Rightarrow>
          let sheet_part = str_trim sheet_part in
          Some (case Option.bind (strip_prefix sheet_part [apostrophe]) (\<lambda>s. strip_suffix s [apostrophe]) of
              Some inner \<Rightarrow> single_apostrophes inner | None \<Rightarrow> sheet_part))"

text \<open>The name after the clamp, when its address is a plain one that goes beyond the last row and the
  library can read the new address on the sheet it names (or the first sheet).\<close>

definition clamp_defined_name :: "engine_lib \<Rightarrow> book \<Rightarrow> defined_name \<Rightarrow> defined_name option" where
  "clamp_defined_name en bk d =
     (let trimmed = str_trim (dn_address d) in
      if starts_with trimmed ''='' \<or> CHR ''('' \<in> set trimmed \<or> trimmed = [] then None
      else
        Option.bind (clamp_defined_name_refers_to_max_row (en_rewrite en) trimmed) (\<lambda>clamped.
        Option.bind
          (case extract_first_sheet_name trimmed of
             Some name \<Rightarrow> if has_sheet name bk then Some name
               else map_option sh_name (first_opt (bk_sheets bk))
           | None \<Rightarrow> map_option sh_name (first_opt (bk_sheets bk))) (\<lambda>target.
        map_option (\<lambda>candidate.
            let candidate = candidate \<lparr> dn_hidden := dn_hidden d \<rparr> in
            if dn_local_sheet_id d \<noteq> None
            then candidate \<lparr> dn_local_sheet_id := dn_local_sheet_id d \<rparr> else candidate)
          (en_defined_name en target (dn_name d) clamped))))"

definition clamp_out_of_bounds_defined_name_rows :: "engine_lib \<Rightarrow> book \<Rightarrow> book \<times> nat" where
  "clamp_out_of_bounds_defined_name_rows en bk =
     (bk \<lparr> bk_names := map (\<lambda>d. case clamp_defined_name en bk d of None \<Rightarrow> d | Some d' \<Rightarrow> d') (bk_names bk) \<rparr>,
      length (filter (\<lambda>d. clamp_defined_name en bk d \<noteq> None) (bk_names bk)))"

section \<open>The batch\<close>

record structure_run =
  sr_book :: book
  sr_builder :: diagnostics_builder
  sr_affected :: "unit btree"
  sr_counts :: "nat btree"
  sr_warnings :: "string list"

type_synonym 'a run_step = "(structure_run, 'a) step"

definition on_book :: "'a book_step \<Rightarrow> 'a run_step" where
  "on_book m run =
     (case m (sr_book run, sr_builder run) of
        ((bk, b), r) \<Rightarrow> (run \<lparr> sr_book := bk, sr_builder := b \<rparr>, r))"

definition in_sheet :: "string \<Rightarrow> (sheet, 'a) step \<Rightarrow> 'a run_step" where
  "in_sheet name m = on_book (\<lambda>(bk, b). case on_sheet name m bk of (bk, r) \<Rightarrow> ((bk, b), r))"

definition affect :: "string \<Rightarrow> unit run_step" where
  "affect name = update_step (\<lambda>run. run \<lparr> sr_affected := bt_insert name () (sr_affected run) \<rparr>)"

definition count_up :: "string \<Rightarrow> nat \<Rightarrow> unit run_step" where
  "count_up key n = update_step (\<lambda>run. run \<lparr> sr_counts := bt_insert key
     (n + (case bt_get (sr_counts run) key of None \<Rightarrow> 0 | Some k \<Rightarrow> k)) (sr_counts run) \<rparr>)"

definition warn :: "string list \<Rightarrow> unit run_step" where
  "warn ws = update_step (\<lambda>run. run \<lparr> sr_warnings := sr_warnings run @ ws \<rparr>)"

definition normalize_col_letters :: "string \<Rightarrow> string res" where
  "normalize_col_letters col =
     (let letters = map to_upper (str_trim col) in
      bail_if (letters = [] \<or> \<not> list_all is_alpha letters) ''invalid column reference'' (Inr letters))"

text \<open>The formulas and the defined names after an edit of a sheet.\<close>

definition rewrite_after_edit ::
    "engine_lib \<Rightarrow> formula_parse_policy \<Rightarrow> string \<Rightarrow> structure_axis \<Rightarrow> structure_edit \<Rightarrow> unit run_step" where
  "rewrite_after_edit en policy sheet_name axis edit =
     bind_step (on_book (rewrite_formulas_for_sheet_structure_change (en_rewrite en) policy sheet_name axis edit))
       (\<lambda>_. on_book (rewrite_defined_name_formulas_for_sheet_structure_change (en_rewrite en) policy sheet_name
         axis edit))"

definition expand_sums :: "string \<Rightarrow> u32 \<Rightarrow> u32 \<Rightarrow> bool \<Rightarrow> unit run_step" where
  "expand_sums sheet_name at_row n expand =
     (if \<not> expand then return_step ()
      else bind_step (in_sheet sheet_name (expand_adjacent_sum_formulas at_row n)) (\<lambda>(ws, k).
        bind_step (warn ws) (\<lambda>_. if k > 0 then count_up ''sums_expanded'' k else return_step ())))"

definition insert_rows_op ::
    "engine_lib \<Rightarrow> formula_parse_policy \<Rightarrow> string \<Rightarrow> u32 \<Rightarrow> u32 \<Rightarrow> bool \<Rightarrow> unit run_step" where
  "insert_rows_op en policy sheet_name at_row n expand =
     bind_step (guard_step (at_row \<noteq> 0 \<and> n \<noteq> 0) ''insert_rows requires at_row>=1 and count>=1'') (\<lambda>_.
     bind_step (in_sheet sheet_name (shift_rows_of_sheet en (InsertAt at_row n) (en_insert_rows en at_row n))) (\<lambda>_.
     bind_step (rewrite_after_edit en policy sheet_name RowAxis (InsertAt at_row n)) (\<lambda>_.
     bind_step (expand_sums sheet_name at_row n expand) (\<lambda>_.
     bind_step (affect sheet_name) (\<lambda>_. count_up ''rows_inserted'' n)))))"

definition clone_row_op ::
    "engine_lib \<Rightarrow> formula_parse_policy \<Rightarrow> string \<Rightarrow> u32 \<Rightarrow> u32 \<Rightarrow> u32 \<Rightarrow> bool \<Rightarrow> unit run_step" where
  "clone_row_op en policy sheet_name source_row insert_at n expand =
     bind_step (guard_step (source_row \<noteq> 0 \<and> insert_at \<noteq> 0 \<and> n \<noteq> 0)
       ''clone_row requires source_row>=1, insert_at>=1, and count>=1'') (\<lambda>_.
     bind_step (in_sheet sheet_name (read_step (\<lambda>sh. Inr (capture_row_template source_row sh)))) (\<lambda>template.
     bind_step (if template = [] then warn [''WARN_CLONE_TEMPLATE_EMPTY''] else return_step ()) (\<lambda>_.
     bind_step (in_sheet sheet_name (shift_rows_of_sheet en (InsertAt insert_at n) (en_insert_rows en insert_at n)))
       (\<lambda>_.
     bind_step (rewrite_after_edit en policy sheet_name RowAxis (InsertAt insert_at n)) (\<lambda>_.
     bind_step (in_sheet sheet_name (stamp_template_rows (en_pattern en) template source_row insert_at n)) (\<lambda>ws.
     bind_step (warn ws) (\<lambda>_.
     bind_step (expand_sums sheet_name insert_at n expand) (\<lambda>_.
     bind_step (affect sheet_name) (\<lambda>_.
     bind_step (count_up ''rows_inserted'' n) (\<lambda>_. count_up ''rows_cloned'' n))))))))))"

definition delete_rows_op ::
    "engine_lib \<Rightarrow> formula_parse_policy \<Rightarrow> string \<Rightarrow> u32 \<Rightarrow> u32 \<Rightarrow> unit run_step" where
  "delete_rows_op en policy sheet_name start_row n =
     bind_step (guard_step (start_row \<noteq> 0 \<and> n \<noteq> 0) ''delete_rows requires start_row>=1 and count>=1'') (\<lambda>_.
     bind_step (in_sheet sheet_name (shift_rows_of_sheet en (DeleteFrom start_row n)
       (en_remove_rows en start_row n))) (\<lambda>_.
     bind_step (rewrite_after_edit en policy sheet_name RowAxis (DeleteFrom start_row n)) (\<lambda>_.
     bind_step (affect sheet_name) (\<lambda>_. count_up ''rows_deleted'' n))))"

text \<open>Columns: the validations are left to the library.\<close>

definition edit_cols_op ::
    "engine_lib \<Rightarrow> formula_parse_policy \<Rightarrow> string \<Rightarrow> string \<Rightarrow> u32 \<Rightarrow> string
      \<Rightarrow> (string \<Rightarrow> u32 \<Rightarrow> sheet \<Rightarrow> sheet) \<Rightarrow> (u32 \<Rightarrow> u32 \<Rightarrow> structure_edit) \<Rightarrow> string \<Rightarrow> unit run_step" where
  "edit_cols_op en policy sheet_name col n message shift edit key =
     bind_step (guard_step (str_trim col \<noteq> [] \<and> n \<noteq> 0) message) (\<lambda>_.
     bind_step (read_step (\<lambda>_. normalize_col_letters col)) (\<lambda>letters.
     bind_step (in_sheet sheet_name (update_step (shift letters n))) (\<lambda>_.
     bind_step (rewrite_after_edit en policy sheet_name ColAxis (edit (en_column_index en letters) n)) (\<lambda>_.
     bind_step (affect sheet_name) (\<lambda>_. count_up key n)))))"

definition rename_sheet_op ::
    "engine_lib \<Rightarrow> formula_parse_policy \<Rightarrow> string \<Rightarrow> string \<Rightarrow> unit run_step" where
  "rename_sheet_op en policy old_name new_name =
     (let old_name = str_trim old_name; new_name = str_trim new_name in
      bind_step (guard_step (old_name \<noteq> [] \<and> new_name \<noteq> [])
        ''rename_sheet requires non-empty old_name and new_name'') (\<lambda>_.
      bind_step (read_step (\<lambda>run. ok_or (Prelude.position (\<lambda>s. sh_name s = old_name) (bk_sheets (sr_book run)))
        ''sheet not found'')) (\<lambda>i.
      bind_step (on_book (\<lambda>(bk, b). case en_set_sheet_name en i new_name bk of
          Inl e \<Rightarrow> ((bk, b), Inl e) | Inr bk \<Rightarrow> ((bk, b), Inr ()))) (\<lambda>_.
      bind_step (on_book (rewrite_formulas_for_sheet_rename (en_rewrite en) policy old_name new_name)) (\<lambda>_.
      bind_step (on_book (rewrite_defined_name_formulas_for_sheet_rename (en_rewrite en) policy old_name new_name))
        (\<lambda>_.
      bind_step (affect old_name) (\<lambda>_.
      bind_step (affect new_name) (\<lambda>_. count_up ''sheets_renamed'' 1))))))))"

text \<open>\<open>sheets[i..len].rotate_right(1)\<close>: the last sheet goes to position \<open>i\<close>.\<close>

definition last_to :: "nat \<Rightarrow> 'a list \<Rightarrow> 'a list" where
  "last_to i xs = take i xs @ last xs # drop i (butlast xs)"

definition place_sheet :: "u32 option \<Rightarrow> unit run_step" where
  "place_sheet pos run =
     (let sheets = bk_sheets (sr_book run) in
      case pos of
        None \<Rightarrow> (run, Inr ())
      | Some desired \<Rightarrow>
          if length sheets \<le> desired then warn [''create_sheet position is out of range. Appended at end.''] run
          else if desired \<noteq> length sheets - 1
          then (run \<lparr> sr_book := (sr_book run) \<lparr> bk_sheets := last_to desired sheets \<rparr> \<rparr>, Inr ())
          else (run, Inr ()))"

definition create_sheet_op :: "engine_lib \<Rightarrow> string \<Rightarrow> u32 option \<Rightarrow> unit run_step" where
  "create_sheet_op en name pos =
     (let name = str_trim name in
      bind_step (guard_step (name \<noteq> []) ''create_sheet requires non-empty name'') (\<lambda>_.
      bind_step (on_book (\<lambda>(bk, b). case en_new_sheet en name bk of
          Inl e \<Rightarrow> ((bk, b), Inl e) | Inr bk \<Rightarrow> ((bk, b), Inr ()))) (\<lambda>_.
      bind_step (place_sheet pos) (\<lambda>_.
      bind_step (affect name) (\<lambda>_. count_up ''sheets_created'' 1)))))"

definition delete_sheet_op :: "engine_lib \<Rightarrow> string \<Rightarrow> unit run_step" where
  "delete_sheet_op en name =
     (let name = str_trim name in
      bind_step (guard_step (name \<noteq> []) ''delete_sheet requires non-empty name'') (\<lambda>_.
      bind_step (read_step (\<lambda>run. bail_if (length (bk_sheets (sr_book run)) \<le> 1)
        ''cannot delete the last remaining sheet'' (Inr ()))) (\<lambda>_.
      bind_step (on_book (\<lambda>(bk, b). case en_remove_sheet en name bk of
          Inl e \<Rightarrow> ((bk, b), Inl e) | Inr bk \<Rightarrow> ((bk, b), Inr ()))) (\<lambda>_.
      bind_step (affect name) (\<lambda>_. count_up ''sheets_deleted'' 1)))))"

definition copy_move_op ::
    "engine_lib \<Rightarrow> formula_parse_policy \<Rightarrow> string \<Rightarrow> string option \<Rightarrow> string \<Rightarrow> string \<Rightarrow> bool \<Rightarrow> bool \<Rightarrow> bool
      \<Rightarrow> unit run_step" where
  "copy_move_op en policy sheet_name dest_sheet src_range dest_anchor styles formulas clear =
     (let dest = (case dest_sheet of None \<Rightarrow> sheet_name | Some d \<Rightarrow> d) in
      bind_step (on_book (copy_or_move_range en sheet_name dest src_range dest_anchor styles formulas clear policy))
        (\<lambda>(written, ws).
      bind_step (affect sheet_name) (\<lambda>_.
      bind_step (affect dest) (\<lambda>_.
      bind_step (count_up (if clear then ''cells_moved'' else ''cells_copied'') written) (\<lambda>_.
      bind_step (count_up (if clear then ''ranges_moved'' else ''ranges_copied'') 1) (\<lambda>_. warn ws))))))"

fun apply_structure_op :: "engine_lib \<Rightarrow> formula_parse_policy \<Rightarrow> structure_op \<Rightarrow> unit run_step" where
  "apply_structure_op en policy (OpMergeCells sheet_name target_range) =
     bind_step (in_sheet sheet_name (update_step (\<lambda>sh. sh \<lparr> sh_merges := sh_merges sh @ [target_range] \<rparr>))) (\<lambda>_.
     bind_step (affect sheet_name) (\<lambda>_. count_up ''cells_merged'' 1))"
| "apply_structure_op en policy (OpUnmergeCells sheet_name target_range) =
     bind_step (in_sheet sheet_name (unmerge_cells (en_coords en) target_range)) (\<lambda>n.
     bind_step (count_up ''cells_unmerged'' n) (\<lambda>_. affect sheet_name))"
| "apply_structure_op en policy (OpInsertRows sheet_name at_row n expand) =
     insert_rows_op en policy sheet_name at_row n expand"
| "apply_structure_op en policy (OpCloneRow sheet_name source_row insert_at n expand) =
     clone_row_op en policy sheet_name source_row insert_at n expand"
| "apply_structure_op en policy (OpDeleteRows sheet_name start_row n) =
     delete_rows_op en policy sheet_name start_row n"
| "apply_structure_op en policy (OpInsertCols sheet_name at_col n) =
     edit_cols_op en policy sheet_name at_col n ''insert_cols requires at_col and count>=1''
       (en_insert_cols en) InsertAt ''cols_inserted''"
| "apply_structure_op en policy (OpDeleteCols sheet_name start_col n) =
     edit_cols_op en policy sheet_name start_col n ''delete_cols requires start_col and count>=1''
       (en_remove_cols en) DeleteFrom ''cols_deleted''"
| "apply_structure_op en policy (OpRenameSheet old_name new_name) = rename_sheet_op en policy old_name new_name"
| "apply_structure_op en policy (OpCreateSheet name pos) = create_sheet_op en name pos"
| "apply_structure_op en policy (OpDeleteSheet name) = delete_sheet_op en name"
| "apply_structure_op en policy (OpCopyRange sheet_name dest src_range anchor styles formulas) =
     copy_move_op en policy sheet_name dest src_range anchor styles formulas False"
| "apply_structure_op en policy (OpMoveRange sheet_name dest src_range anchor styles formulas) =
     copy_move_op en policy sheet_name dest src_range anchor styles formulas True"

record structure_apply_result =
  sa_ops_applied :: nat
  sa_affected_sheets :: "string list"
  sa_counts :: "nat btree"
  sa_warnings :: "string list"
  sa_diagnostics :: "formula_parse_diagnostics option"

definition structure_run_start :: "formula_parse_policy \<Rightarrow> book \<Rightarrow> structure_run" where
  "structure_run_start policy bk =
     \<lparr> sr_book = bk, sr_builder = diagnostics_new policy, sr_affected = [], sr_counts = [],
       sr_warnings = [''Structural edits may not fully rewrite formulas/named ranges like Excel.''] \<rparr>"

definition structure_run_result :: "nat \<Rightarrow> structure_run \<Rightarrow> structure_apply_result" where
  "structure_run_result n run =
     \<lparr> sa_ops_applied = n, sa_affected_sheets = bt_keys (sr_affected run), sa_counts = sr_counts run,
       sa_warnings = sr_warnings run,
       sa_diagnostics = (if has_errors (sr_builder run) then Some (diagnostics_build (sr_builder run)) else None) \<rparr>"

definition clamp_names_step :: "engine_lib \<Rightarrow> unit run_step" where
  "clamp_names_step en =
     bind_step (on_book (\<lambda>(bk, b). case clamp_out_of_bounds_defined_name_rows en bk of (bk, n) \<Rightarrow> ((bk, b), Inr n)))
       (\<lambda>n. if n > 0 then warn [''Clamped defined name references to Excel max row 1048576''] else return_step ())"

definition apply_structure_ops_to_workbook ::
    "engine_lib \<Rightarrow> structure_op list \<Rightarrow> formula_parse_policy \<Rightarrow> (book, structure_apply_result) step" where
  "apply_structure_ops_to_workbook en ops policy bk =
     (case bind_step (map_step (apply_structure_op en policy) ops) (\<lambda>_. clamp_names_step en)
         (structure_run_start policy bk) of
        (run, Inl e) \<Rightarrow> (sr_book run, Inl e)
      | (run, Inr _) \<Rightarrow> (sr_book run, Inr (structure_run_result (length ops) run)))"

section \<open>Where the cells of a copied range go\<close>

text \<open>The formula a copied cell carries, and the cell that is pasted: nothing when there is no source cell.\<close>

definition carried_formula ::
    "engine_lib \<Rightarrow> formula_parse_policy \<Rightarrow> bool \<Rightarrow> int \<Rightarrow> int \<Rightarrow> wcell \<Rightarrow> string option" where
  "carried_formula en policy formulas delta_col delta_row c =
     (case wc_formula c of
        None \<Rightarrow> None
      | Some f \<Rightarrow>
          if \<not> formulas then None
          else if policy = PolicyOff then Some f
          else (case bind_res (parse_base_formula (en_pattern en) f) (\<lambda>ast.
                   shift_formula_ast (en_pattern en) ast delta_col delta_row RelExcel) of
              Inr shifted \<Rightarrow> Some (without_equals shifted) | Inl _ \<Rightarrow> Some f))"

definition pasted ::
    "engine_lib \<Rightarrow> formula_parse_policy \<Rightarrow> bool \<Rightarrow> bool \<Rightarrow> int \<Rightarrow> int \<Rightarrow> wcell option \<Rightarrow> wcell option \<Rightarrow> wcell option" where
  "pasted en policy styles formulas delta_col delta_row src old =
     map_option (\<lambda>c. let f = carried_formula en policy formulas delta_col delta_row c in
       \<lparr> wc_value = (if f = None then wc_value c else []), wc_formula = f,
         wc_style = (if styles then wc_style c
           else case old of None \<Rightarrow> JNull | Some d \<Rightarrow> wc_style d) \<rparr>) src"

lemma paste_cell_fields:
  "paste_cell styles c f d = \<lparr> wc_value = (if f = None then wc_value c else []), wc_formula = f,
     wc_style = (if styles then wc_style c else wc_style d) \<rparr>"
  by (cases f) (simp_all add: paste_cell_def set_formula_def)

lemma copied_formula_carried:
  "copied_formula en policy sheet addr formulas dc dr c b = Inr (f, b') \<Longrightarrow>
   f = carried_formula en policy formulas dc dr c"
  by (auto simp: copied_formula_def carried_formula_def bind_res_Inr
      split: option.splits sum.splits err.splits if_split_asm)

text \<open>The workbook without its cells.\<close>

definition frame_of :: "book \<Rightarrow> sheet list \<times> defined_name list" where
  "frame_of bk = (map (\<lambda>s. s \<lparr> sh_cells := [] \<rparr>) (bk_sheets bk), bk_names bk)"

lemma find_sheet_update:
  assumes "\<And>s. sh_name (f s) = sh_name s"
  shows "find_sheet (update_sheet d f bk) n = (if n = d then map_option f (find_sheet bk n) else find_sheet bk n)"
proof -
  have "List.find (\<lambda>s. sh_name s = n) (update_sheet_in d f ss)
      = (if n = d then map_option f (List.find (\<lambda>s. sh_name s = n) ss) else List.find (\<lambda>s. sh_name s = n) ss)" for ss
    using assms by (induction ss) auto
  then show ?thesis by (simp add: find_sheet_def update_sheet_def)
qed

lemma frame_of_update:
  assumes "\<And>s. (f s) \<lparr> sh_cells := [] \<rparr> = s \<lparr> sh_cells := [] \<rparr>"
  shows "frame_of (update_sheet d f bk) = frame_of bk"
proof -
  have "map (\<lambda>s. s \<lparr> sh_cells := [] \<rparr>) (update_sheet_in d f ss) = map (\<lambda>s. s \<lparr> sh_cells := [] \<rparr>) ss" for ss
    using assms by (induction ss) auto
  then show ?thesis by (simp add: frame_of_def update_sheet_def)
qed

lemma has_sheet_frame: "frame_of bk = frame_of bk' \<Longrightarrow> has_sheet n bk = has_sheet n bk'"
proof -
  assume "frame_of bk = frame_of bk'"
  then have "map sh_name (map (\<lambda>s. s \<lparr> sh_cells := [] \<rparr>) (bk_sheets bk))
      = map sh_name (map (\<lambda>s. s \<lparr> sh_cells := [] \<rparr>) (bk_sheets bk'))"
    by (simp add: frame_of_def)
  then have "map sh_name (bk_sheets bk) = map sh_name (bk_sheets bk')" by (simp add: comp_def)
  then have "sh_name ` set (bk_sheets bk) = sh_name ` set (bk_sheets bk')"
    by (metis set_map)
  then show ?thesis by (auto simp: has_sheet_def find_sheet_def find_None image_iff set_eq_iff) metis+
qed

lemma cell_in_update:
  assumes "has_sheet d bk"
  shows "cell_in (update_sheet d (update_cell col row f) bk) n pos
      = (if n = d \<and> pos = (row, col) then Some (f (case cell_in bk d pos of None \<Rightarrow> empty_cell | Some c \<Rightarrow> c))
         else cell_in bk n pos)"
proof -
  obtain sh where "find_sheet bk d = Some sh" using assms by (auto simp: has_sheet_def)
  then show ?thesis
    by (simp add: cell_in_def find_sheet_update update_cell_def sheet_cell_def)
qed

lemma cell_in_remove:
  "cell_in (update_sheet d (remove_cell col row) bk) n pos
     = (if n = d \<and> pos = (row, col) then None else cell_in bk n pos)"
  by (cases "n = d"; cases "find_sheet bk d") (simp_all add: cell_in_def find_sheet_update remove_cell_def)

lemma copy_cell_ok:
  assumes "copy_cell en policy src dst styles formulas dc dr sp dp (bk, b) = ((bk', b'), Inr k)"
    and "has_sheet dst bk"
  shows "frame_of bk' = frame_of bk"
    and "cell_in bk' n pos = (if n = dst \<and> pos = dp
      then pasted en policy styles formulas dc dr (cell_in bk src sp) (cell_in bk dst dp) else cell_in bk n pos)"
proof -
  have frames: "frame_of (update_sheet dst (remove_cell c r) bk) = frame_of bk"
    "frame_of (update_sheet dst (update_cell c r f) bk) = frame_of bk" for c r f
    by (simp_all add: frame_of_update remove_cell_def update_cell_def)
  consider "cell_in bk src sp = None" "bk' = update_sheet dst (remove_cell (snd dp) (fst dp)) bk"
    | c f where "cell_in bk src sp = Some c" "f = carried_formula en policy formulas dc dr c"
      "bk' = update_sheet dst (update_cell (snd dp) (fst dp) (paste_cell styles c f)) bk"
    using assms(1) by (auto simp: copy_cell_def dest: copied_formula_carried split: option.splits sum.splits)
  then show "frame_of bk' = frame_of bk"
    and "cell_in bk' n pos = (if n = dst \<and> pos = dp
      then pasted en policy styles formulas dc dr (cell_in bk src sp) (cell_in bk dst dp) else cell_in bk n pos)"
    by (cases; simp add: frames cell_in_remove cell_in_update assms(2) pasted_def paste_cell_fields Let_def
      empty_cell_def split: option.split)+
qed

lemma copy_block_ok:
  assumes "copy_block en policy src dst styles formulas dc dr sp dp ps (bk, b) = ((bk', b'), Inr ks)"
    and "has_sheet dst bk" and "distinct ps"
    and "\<forall>p \<in> set ps. \<forall>q \<in> set ps. \<not> (src = dst \<and> at_offset sp p = at_offset dp q)"
  shows "frame_of bk' = frame_of bk"
    and "\<forall>p \<in> set ps. cell_in bk' dst (at_offset dp p) = pasted en policy styles formulas dc dr
      (cell_in bk src (at_offset sp p)) (cell_in bk dst (at_offset dp p))"
    and "\<forall>n pos. n = dst \<and> pos \<in> at_offset dp ` set ps \<or> cell_in bk' n pos = cell_in bk n pos"
proof -
  have inj: "at_offset d p = at_offset d q \<Longrightarrow> p = q" for d p q
    by (cases p; cases q) (simp add: at_offset_def)
  have "frame_of bk' = frame_of bk
    \<and> (\<forall>p \<in> set ps. cell_in bk' dst (at_offset dp p) = pasted en policy styles formulas dc dr
        (cell_in bk src (at_offset sp p)) (cell_in bk dst (at_offset dp p)))
    \<and> (\<forall>n pos. n = dst \<and> pos \<in> at_offset dp ` set ps \<or> cell_in bk' n pos = cell_in bk n pos)"
    using assms
  proof (induction ps arbitrary: bk b ks)
    case Nil
    then show ?case by (simp add: copy_block_def return_step_def)
  next
    case (Cons p ps)
    from Cons.prems(1) obtain bk1 b1 k js where
      one: "copy_cell en policy src dst styles formulas dc dr (at_offset sp p) (at_offset dp p) (bk, b)
          = ((bk1, b1), Inr k)"
      and more: "copy_block en policy src dst styles formulas dc dr sp dp ps (bk1, b1) = ((bk', b'), Inr js)"
      by (auto simp: copy_block_def bind_step_ok return_step_def)
    note step = copy_cell_ok [OF one Cons.prems(2)]
    have "has_sheet dst bk1" using has_sheet_frame [OF step(1)] Cons.prems(2) by simp
    note IH = Cons.IH [OF more this]
    have IH: "frame_of bk' = frame_of bk1"
      "\<forall>q \<in> set ps. cell_in bk' dst (at_offset dp q) = pasted en policy styles formulas dc dr
        (cell_in bk1 src (at_offset sp q)) (cell_in bk1 dst (at_offset dp q))"
      "\<forall>n pos. n = dst \<and> pos \<in> at_offset dp ` set ps \<or> cell_in bk' n pos = cell_in bk1 n pos"
      using Cons.IH [OF more \<open>has_sheet dst bk1\<close>] Cons.prems(3,4) by auto
    have src_kept: "cell_in bk1 src (at_offset sp q) = cell_in bk src (at_offset sp q)" if "q \<in> set ps" for q
      using step(2) Cons.prems(4) that by auto
    have dst_kept: "cell_in bk1 dst (at_offset dp q) = cell_in bk dst (at_offset dp q)" if "q \<in> set ps" for q
    proof -
      have "at_offset dp q \<noteq> at_offset dp p" using Cons.prems(3) that inj by (metis distinct.simps(2))
      then show ?thesis by (simp add: step(2))
    qed
    have "at_offset dp p \<notin> at_offset dp ` set ps"
      using Cons.prems(3) by (auto dest: inj simp del: split_paired_All)
    then have first: "cell_in bk' dst (at_offset dp p) = cell_in bk1 dst (at_offset dp p)" using IH(3) by blast
    show ?case
    proof (intro conjI)
      show "frame_of bk' = frame_of bk" using IH(1) step(1) by simp
      show "\<forall>q \<in> set (p # ps). cell_in bk' dst (at_offset dp q) = pasted en policy styles formulas dc dr
          (cell_in bk src (at_offset sp q)) (cell_in bk dst (at_offset dp q))"
        using first step(2) IH(2) src_kept dst_kept by simp
      show "\<forall>n pos. n = dst \<and> pos \<in> at_offset dp ` set (p # ps) \<or> cell_in bk' n pos = cell_in bk n pos"
      proof (intro allI)
        fix n pos
        show "n = dst \<and> pos \<in> at_offset dp ` set (p # ps) \<or> cell_in bk' n pos = cell_in bk n pos"
          using spec [OF spec [OF IH(3), of n], of pos] step(2) [of n pos]
          by (cases "n = dst"; cases "pos = at_offset dp p") auto
      qed
    qed
  qed
  then show "frame_of bk' = frame_of bk"
    and "\<forall>p \<in> set ps. cell_in bk' dst (at_offset dp p) = pasted en policy styles formulas dc dr
      (cell_in bk src (at_offset sp p)) (cell_in bk dst (at_offset dp p))"
    and "\<forall>n pos. n = dst \<and> pos \<in> at_offset dp ` set ps \<or> cell_in bk' n pos = cell_in bk n pos"
    by blast+
qed

lemma clear_block_cells:
  "cell_in (clear_block name start ps bk) n pos
     = (if n = name \<and> pos \<in> at_offset start ` set ps then None else cell_in bk n pos)"
  "frame_of (clear_block name start ps bk) = frame_of bk"
  unfolding clear_block_def
  by (induction ps arbitrary: bk) (auto simp: cell_in_remove frame_of_update remove_cell_def)

lemma block_offsets_set: "set (block_offsets h w) = {(r, c). r < h \<and> c < w}"
  by (auto simp: block_offsets_def)

lemma block_offsets_distinct: "distinct (block_offsets h w)"
proof -
  have "block_offsets h w = List.product [0 ..< h] [0 ..< w]"
    by (simp add: block_offsets_def product_concat_map)
  then show ?thesis by (simp add: distinct_product)
qed

lemma parse_range_bounds_size:
  assumes "parse_range_bounds L rng = Inr bounds"
  shows "sb_rows bounds \<le> sb_max_row bounds - sb_min_row bounds + 1"
    and "sb_cols bounds \<le> sb_max_col bounds - sb_min_col bounds + 1"
    and "sb_min_row bounds \<le> sb_max_row bounds" and "sb_min_col bounds \<le> sb_max_col bounds"
proof -
  have le: "u32_wrapping_add (u32_wrapping_sub (max a b) (min a b)) 1 \<le> max a b - min a b + 1" for a b
  proof -
    have "u32_wrapping_sub (max a b) (min a b) = (max a b - min a b) mod u32_limit"
    proof -
      have "max a b + u32_limit - min a b = (max a b - min a b) + u32_limit" by arith
      then show ?thesis by (simp only: u32_wrapping_sub_def mod_add_self2)
    qed
    also have "\<dots> \<le> max a b - min a b" by (rule mod_less_eq_dividend)
    finally have "u32_wrapping_sub (max a b) (min a b) + 1 \<le> max a b - min a b + 1" by simp
    then show ?thesis
      unfolding u32_wrapping_add_def using mod_less_eq_dividend order_trans by blast
  qed
  show "sb_rows bounds \<le> sb_max_row bounds - sb_min_row bounds + 1"
    and "sb_cols bounds \<le> sb_max_col bounds - sb_min_col bounds + 1"
    and "sb_min_row bounds \<le> sb_max_row bounds" and "sb_min_col bounds \<le> sb_max_col bounds"
    using assms by (auto simp: parse_range_bounds_def bind_res_Inr Let_def intro: le [simplified])
qed


text \<open>C6: copying or moving a range: when it returns, every cell of the destination block is the cell at
  the same offset of the source block as it was before, with its formula shifted by the distance (or
  its cached value, when formulas are left out) and its style if asked for, and is gone where the
  source had no cell; a move leaves no cell in the source block; every other cell of every sheet, the
  merged cells, validations, sheet order and defined names are as before. That the blocks do not
  overlap is what the code's own check ensures.\<close>

theorem copy_range_moves_block:
  assumes "copy_or_move_range en src dst rng anchor styles formulas clear policy (bk, b)
      = ((bk', b'), Inr (written, ws))"
  shows "\<exists>bounds dest_col dest_row. parse_range_bounds (en_coords en) rng = Inr bounds
    \<and> fork_cell_ref (en_coords en) anchor = Inr (dest_col, dest_row)
    \<and> written = sb_cols bounds * sb_rows bounds \<and> frame_of bk' = frame_of bk
    \<and> (let ps = {(r, c). r < sb_rows bounds \<and> c < sb_cols bounds};
           src_at = at_offset (sb_min_row bounds, sb_min_col bounds); dst_at = at_offset (dest_row, dest_col) in
        (\<forall>p \<in> ps. cell_in bk' dst (dst_at p) = pasted en policy styles formulas
            (i32_delta dest_col (sb_min_col bounds)) (i32_delta dest_row (sb_min_row bounds))
            (cell_in bk src (src_at p)) (cell_in bk dst (dst_at p)))
      \<and> (clear \<longrightarrow> (\<forall>p \<in> ps. cell_in bk' src (src_at p) = None))
      \<and> (\<forall>n pos. n = dst \<and> pos \<in> dst_at ` ps \<or> clear \<and> n = src \<and> pos \<in> src_at ` ps
            \<or> cell_in bk' n pos = cell_in bk n pos))"
proof -
  from assms obtain bounds dest_col dest_row end_col end_row ks bk1 where
    bounds: "parse_range_bounds (en_coords en) rng = Inr bounds"
    and anchor: "fork_cell_ref (en_coords en) anchor = Inr (dest_col, dest_row)"
    and ends: "u32_checked_add dest_col (u32_saturating_sub (sb_cols bounds) 1) = Some end_col"
      "u32_checked_add dest_row (u32_saturating_sub (sb_rows bounds) 1) = Some end_row"
    and apart: "\<not> (src = dst \<and> ranges_intersect (sb_min_col bounds) (sb_min_row bounds) (sb_max_col bounds)
      (sb_max_row bounds) dest_col dest_row end_col end_row)"
    and there: "has_sheet dst bk"
    and copied: "copy_block en policy src dst styles formulas (i32_delta dest_col (sb_min_col bounds))
      (i32_delta dest_row (sb_min_row bounds)) (sb_min_row bounds, sb_min_col bounds) (dest_row, dest_col)
      (block_offsets (sb_rows bounds) (sb_cols bounds)) (bk, b) = ((bk1, b'), Inr ks)"
    and bk': "bk' = (if clear then clear_block src (sb_min_row bounds, sb_min_col bounds)
      (block_offsets (sb_rows bounds) (sb_cols bounds)) bk1 else bk1)"
    and written: "written = sb_cols bounds * sb_rows bounds"
    by (auto simp: copy_or_move_range_def bind_step_ok read_step_def guard_step_def update_step_def
        return_step_def Let_def split: if_split_asm)
  define ps where "ps = {(r, c). r < sb_rows bounds \<and> c < sb_cols bounds}"
  define src_at where "src_at = at_offset (sb_min_row bounds, sb_min_col bounds)"
  define dst_at where "dst_at = at_offset (dest_row, dest_col)"
  have ps: "set (block_offsets (sb_rows bounds) (sb_cols bounds)) = ps" by (simp add: ps_def block_offsets_set)
  have disjoint: "\<not> (src = dst \<and> src_at p = dst_at q)" if "p \<in> ps" "q \<in> ps" for p q
    using that apart ends parse_range_bounds_size [OF bounds]
    by (auto simp: ps_def src_at_def dst_at_def at_offset_def ranges_intersect_def u32_checked_add_def
        u32_saturating_sub_def split: if_split_asm)
  note block = copy_block_ok [OF copied there block_offsets_distinct, unfolded ps, folded src_at_def dst_at_def]
  have "\<forall>p \<in> ps. \<forall>q \<in> ps. \<not> (src = dst \<and> src_at p = dst_at q)" using disjoint by blast
  note block = block [OF this]
  have frame: "frame_of bk' = frame_of bk" using block(1) by (simp add: bk' clear_block_cells)
  have cells: "cell_in bk' n pos = (if clear \<and> n = src \<and> pos \<in> src_at ` ps then None else cell_in bk1 n pos)" for n pos
    by (simp add: bk' clear_block_cells ps src_at_def)
  have pasted: "cell_in bk' dst (dst_at p) = pasted en policy styles formulas (i32_delta dest_col (sb_min_col bounds))
      (i32_delta dest_row (sb_min_row bounds)) (cell_in bk src (src_at p)) (cell_in bk dst (dst_at p))" if "p \<in> ps" for p
  proof -
    have "\<not> (clear \<and> dst = src \<and> dst_at p \<in> src_at ` ps)"
      using disjoint that by (metis imageE)
    then show ?thesis using bspec [OF block(2) that] by (simp only: cells if_False)
  qed
  have gone: "clear \<longrightarrow> (\<forall>p \<in> ps. cell_in bk' src (src_at p) = None)" by (simp add: cells)
  have kept: "n = dst \<and> pos \<in> dst_at ` ps \<or> clear \<and> n = src \<and> pos \<in> src_at ` ps
      \<or> cell_in bk' n pos = cell_in bk n pos" for n pos
    using spec [OF spec [OF block(3), of n], of pos] by (simp only: cells) (simp split: if_split, blast)
  show ?thesis
    using bounds anchor written frame pasted gone kept
    by - (rule exI [of _ bounds], rule exI [of _ dest_col], rule exI [of _ dest_row],
      simp only: Let_def flip: ps_def src_at_def dst_at_def, blast)
qed


section \<open>An example\<close>

text \<open>A library that moves no cells and reads no names.\<close>

definition demo_engine :: engine_lib where
  "demo_engine = \<lparr> en_rewrite = demo_rewrite, en_pattern = demo_pattern,
     en_insert_rows = (\<lambda>_ _ sh. sh), en_remove_rows = (\<lambda>_ _ sh. sh),
     en_insert_cols = (\<lambda>_ _ sh. sh), en_remove_cols = (\<lambda>_ _ sh. sh), en_column_index = (\<lambda>_. 1),
     en_set_sheet_name = (\<lambda>i n bk. Inr (bk \<lparr> bk_sheets := (bk_sheets bk)
       [i := ((bk_sheets bk) ! i) \<lparr> sh_name := n \<rparr>] \<rparr>)),
     en_new_sheet = (\<lambda>n bk. Inr (bk \<lparr> bk_sheets := bk_sheets bk
       @ [\<lparr> sh_name = n, sh_cells = [], sh_merges = [], sh_validations = None, sh_names = [] \<rparr>] \<rparr>)),
     en_remove_sheet = (\<lambda>n bk. case Prelude.position (\<lambda>s. sh_name s = n) (bk_sheets bk) of
         None \<Rightarrow> Inl (Bail ''sheet not found'')
       | Some i \<Rightarrow> Inr (bk \<lparr> bk_sheets := take i (bk_sheets bk) @ drop (Suc i) (bk_sheets bk) \<rparr>)),
     en_defined_name = (\<lambda>_ _ _. None) \<rparr>"

lemma demo_corners:
  "parse_range_bounds demo_coords ''A1'' = Inr \<lparr> sb_min_col = 1, sb_max_col = 1, sb_min_row = 1,
     sb_max_row = 1, sb_rows = 1, sb_cols = 1 \<rparr>"
  "fork_cell_ref demo_coords ''B3'' = Inr (2, 3)"
  by (simp_all add: parse_range_bounds_def fork_cell_ref_def demo_index_eval u32_wrapping_add_def
      u32_wrapping_sub_def)

lemma demo_engine_parts: "en_pattern demo_engine = demo_pattern" "en_coords demo_engine = demo_coords"
  by (simp_all add: demo_engine_def demo_rewrite_def)

theorem copy_range_moves_block_witness:
  "\<exists>bk' b'. copy_or_move_range demo_engine ''Data'' ''Data'' ''A1'' ''B3'' False True True PolicyFail
      (\<lparr> bk_sheets = [demo_sheet ''Data'' ''B2''], bk_names = [] \<rparr>, diagnostics_new PolicyFail)
      = ((bk', b'), Inr (1, []))
    \<and> cell_in bk' ''Data'' (3, 2) = Some \<lparr> wc_value = [],
        wc_formula = Some (column_number_to_name 3 @ show_nat 4), wc_style = JNull \<rparr>
    \<and> cell_in bk' ''Data'' (1, 1) = None"
proof -
  let ?bk = "\<lparr> bk_sheets = [demo_sheet ''Data'' ''B2''], bk_names = [] \<rparr> :: book"
  let ?c = "\<lparr> wc_value = ''7'', wc_formula = Some ''B2'', wc_style = JNull \<rparr> :: wcell"
  have found: "find_sheet ?bk ''Data'' = Some (demo_sheet ''Data'' ''B2'')"
    by (simp add: find_sheet_def demo_sheet_def)
  have cells: "cell_in ?bk ''Data'' (1, 1) = Some ?c" "cell_in ?bk ''Data'' (3, 2) = None"
    by (simp_all add: cell_in_def found) (simp_all add: demo_sheet_def bt_get_Cons)
  have shifted: "bind_res (parse_base_formula demo_pattern ''B2'') (\<lambda>ast. shift_formula_ast demo_pattern ast 1 2 RelExcel)
      = Inr (''='' @ column_number_to_name 3 @ show_nat 4)"
    by (simp add: demo_base demo_shifted_text shift_u32_def)
  let ?f = "Some (column_number_to_name 3 @ show_nat 4)"
  let ?bk1 = "update_sheet ''Data'' (update_cell 2 3 (paste_cell False ?c ?f)) ?bk"
  have "copied_formula demo_engine PolicyFail ''Data'' addr True 1 2 ?c b = Inr (?f, b)" for addr b
    by (simp add: copied_formula_def demo_engine_parts shifted without_equals_def strip_prefix_def starts_with_def)
  then have one: "copy_cell demo_engine PolicyFail ''Data'' ''Data'' False True 1 2 (1, 1) (3, 2) (?bk, b)
      = ((?bk1, b), Inr 0)" for b
    by (simp add: copy_cell_def cells [simplified])
  have offsets: "at_offset (1, 1) (0, 0) = (1, 1)" "at_offset (3, 2) (0, 0) = (3, 2)"
    by (simp_all add: at_offset_def)
  have "block_offsets 1 1 = [(0, 0)]" by (simp add: block_offsets_def)
  then have copied: "copy_block demo_engine PolicyFail ''Data'' ''Data'' False True 1 2 (1, 1) (3, 2)
      (block_offsets 1 1) (?bk, b) = ((?bk1, b), Inr [0])" for b
    by (simp only: copy_block_def map_step.simps offsets bind_step_def return_step_def one prod.case sum.case)
  have there: "has_sheet ''Data'' ?bk" by (simp add: has_sheet_def found)
  have apart: "\<not> ranges_intersect 1 1 1 1 2 3 2 3" by (simp add: ranges_intersect_def)
  have delta: "i32_delta 2 1 = 1" "i32_delta 3 1 = 2" by (simp_all add: i32_delta_def)
  obtain bk' b' where run: "copy_or_move_range demo_engine ''Data'' ''Data'' ''A1'' ''B3'' False True True PolicyFail
      (?bk, diagnostics_new PolicyFail) = ((bk', b'), Inr (1, []))"
    by (simp add: copy_or_move_range_def demo_engine_parts demo_corners bind_step_def read_step_def guard_step_def
        update_step_def return_step_def Let_def u32_checked_add_def u32_saturating_sub_def apart [simplified]
        there delta [simplified] copied [simplified])
  have block: "{(r, c). r < (1::nat) \<and> c < (1::nat)} = {(0, 0)}" by auto
  have carried: "carried_formula demo_engine PolicyFail True 1 2 ?c = ?f"
    by (simp add: carried_formula_def demo_engine_parts shifted without_equals_def strip_prefix_def starts_with_def)
  from copy_range_moves_block [OF run]
  have moved: "cell_in bk' ''Data'' (at_offset (3, 2) (0, 0)) = pasted demo_engine PolicyFail False True
      (i32_delta 2 1) (i32_delta 3 1) (cell_in ?bk ''Data'' (at_offset (1, 1) (0, 0)))
      (cell_in ?bk ''Data'' (at_offset (3, 2) (0, 0)))"
    and gone: "cell_in bk' ''Data'' (at_offset (1, 1) (0, 0)) = None"
    by (simp_all add: demo_engine_parts demo_corners Let_def block)
  have "cell_in bk' ''Data'' (3, 2) = Some \<lparr> wc_value = [], wc_formula = ?f, wc_style = JNull \<rparr>"
    unfolding moved [unfolded offsets delta cells] pasted_def
    by (simp add: carried Let_def)
  with run gone [unfolded offsets] show ?thesis by blast
qed

end
