(* ===== verification/StructureBatch.thy ===== *)
theory StructureBatch
  imports StructureOps
begin

text \<open>
  What the structural operations of \<open>StructureOps\<close> promise: sums that adjoin inserted rows grow over
  them, and a batch changes the list of sheets exactly as its operations say and reports the sheets
  they name.
\<close>

section \<open>Sums that adjoin inserted rows\<close>

text \<open>A sum over one column that ends in the row before \<open>at_row\<close>: its column and first row.\<close>

definition adjoining_sum :: "nat \<Rightarrow> string \<Rightarrow> (string \<times> nat) option" where
  "adjoining_sum at_row f =
     (case simple_sum_range (without_equals f) of
        None \<Rightarrow> None
      | Some (c1, r1, c2, r2) \<Rightarrow>
          if map to_upper c1 = map to_upper c2 \<and> sum_row_number r2 + 1 = at_row
             \<and> 1 \<le> sum_row_number r1 \<and> sum_row_number r1 \<le> sum_row_number r2
          then Some (map to_upper c1, sum_row_number r1) else None)"

definition sum_text :: "string \<Rightarrow> nat \<Rightarrow> nat \<Rightarrow> string" where
  "sum_text col first_row last_row =
     ''SUM('' @ col @ show_nat first_row @ '':'' @ col @ show_nat last_row @ '')''"

lemma sum_row_number_bound: "sum_row_number d < u32_limit"
  by (cases "parse_u32 d") (auto simp: sum_row_number_def dest: parse_unsigned_bound)

lemma sum_action_expand:
  assumes "at_row < u32_limit" and "1 \<le> st" and "st < u32_limit"
  shows "sum_action_for at_row st f = SumExpand g
    \<longleftrightarrow> (\<exists>col r. adjoining_sum at_row f = Some (col, r) \<and> g = sum_text col r (st - 1))"
proof -
  have wrap: "at_row = 0 \<or> u32_wrapping_add (sum_row_number d) 1 \<noteq> at_row \<longleftrightarrow> sum_row_number d + 1 \<noteq> at_row" for d
    using sum_row_number_bound [of d] assms(1)
    by (cases "sum_row_number d + 1 = u32_limit") (auto simp: u32_wrapping_add_def)
  have last_row: "u32_wrapping_sub st 1 = st - 1" using assms(2,3) by (simp add: u32_wrapping_sub_exact)
  have no_sum: "simple_sum_range (without_equals []) = None"
    by (simp add: simple_sum_range_def without_equals_def strip_prefix_def starts_with_def)
  show ?thesis
  proof (cases "simple_sum_range (without_equals f)")
    case None
    then show ?thesis by (simp add: sum_action_for_def adjoining_sum_def Let_def)
  next
    case (Some parts)
    obtain c1 r1 c2 r2 where parts: "parts = (c1, r1, c2, r2)" by (metis prod.exhaust)
    have "f \<noteq> []"
    proof
      assume "f = []"
      then have "simple_sum_range (without_equals f) = None" by (simp only: no_sum)
      with Some show False by simp
    qed
    with Some parts show ?thesis
      unfolding sum_action_for_def adjoining_sum_def Let_def wrap last_row
      by (auto simp: sum_text_def)
  qed
qed

lemma digit_not_alpha: "is_digit c \<Longrightarrow> \<not> is_alpha c"
  by (auto simp: is_digit_def is_alpha_def is_upper_def is_lower_def)

lemma takeWhile_prefix:
  assumes "list_all p xs" and "ys = [] \<or> \<not> p (hd ys)"
  shows "takeWhile p (xs @ ys) = xs" and "dropWhile p (xs @ ys) = ys"
  using assms by (induction xs; cases ys; simp)+

lemma sum_corner_printed:
  assumes "list_all is_alpha col" and "1 \<le> length col" and "length col \<le> 3" and "\<not> is_digit c"
  shows "sum_corner (col @ show_nat r @ c # s) = Some (col, show_nat r, c # s)"
proof -
  have digits: "list_all is_digit (show_nat r)" by (rule show_nat_digits)
  then have "\<not> is_alpha (hd (show_nat r @ c # s))"
    by (cases "show_nat r") (auto simp: digit_not_alpha)
  with assms digits show ?thesis
    by (simp add: sum_corner_def takeWhile_prefix)
qed

lemma sum_corner_letters:
  assumes "sum_corner s = Some (col, row, rest)"
  shows "list_all is_alpha col" and "1 \<le> length col" and "length col \<le> 3"
  using assms by (auto simp: sum_corner_def Let_def list_all_iff dest: set_takeWhileD split: if_split_asm)

lemma to_upper_alpha: "is_alpha c \<Longrightarrow> is_alpha (to_upper c)" "to_upper (to_upper c) = to_upper c"
  by (auto simp: is_alpha_def is_upper_def is_lower_def to_upper_def)

lemma adjoining_sum_letters:
  assumes "adjoining_sum at_row f = Some (col, r)"
  shows "list_all is_alpha col" and "1 \<le> length col" and "length col \<le> 3" and "map to_upper col = col"
    and "1 \<le> r" and "r < at_row"
proof -
  from assms obtain c1 r1 c2 r2 where sum: "simple_sum_range (without_equals f) = Some (c1, r1, c2, r2)"
    "col = map to_upper c1" "r = sum_row_number r1" "1 \<le> r" "r \<le> sum_row_number r2" "sum_row_number r2 + 1 = at_row"
    by (auto simp: adjoining_sum_def split: option.splits if_split_asm)
  from sum(1) obtain s where "sum_corner (drop 4 (without_equals f)) = Some (c1, r1, s)"
    by (auto simp: simple_sum_range_def split: if_split_asm option.splits list.splits char.splits prod.splits bool.splits)
  from sum_corner_letters [OF this] sum(2-)
  show "list_all is_alpha col" and "1 \<le> length col" and "length col \<le> 3" and "map to_upper col = col"
    and "1 \<le> r" and "r < at_row"
    by (auto simp: list_all_iff to_upper_alpha)
qed

text \<open>The printed sum adjoins the row after its last one.\<close>

lemma adjoining_sum_text:
  assumes "list_all is_alpha col" and "1 \<le> length col" and "length col \<le> 3" and "map to_upper col = col"
    and "1 \<le> r" and "r \<le> e" and "e < u32_limit"
  shows "adjoining_sum (e + 1) (sum_text col r e) = Some (col, r)"
proof -
  have "\<not> is_digit CHR '':''" "\<not> is_digit CHR '')''" by (simp_all add: is_digit_def ord_of_def)
  then have "sum_corner (col @ show_nat r @ '':'' @ col @ show_nat e @ '')'')
      = Some (col, show_nat r, '':'' @ col @ show_nat e @ '')'')"
    and "sum_corner (col @ show_nat e @ '')'') = Some (col, show_nat e, '')'')"
    using sum_corner_printed [OF assms(1-3)] by simp_all
  then have "simple_sum_range (sum_text col r e) = Some (col, show_nat r, col, show_nat e)"
    by (simp add: simple_sum_range_def sum_text_def to_upper_def is_lower_def ord_of_def)
  moreover have "without_equals (sum_text col r e) = sum_text col r e"
    by (simp add: without_equals_def strip_prefix_def starts_with_def sum_text_def)
  ultimately show ?thesis
    using assms(4-7) by (simp add: adjoining_sum_def sum_row_number_def)
qed

text \<open>What the expansion makes of the cell below the inserted rows.\<close>

definition expanded_cell :: "nat \<Rightarrow> nat \<Rightarrow> wcell \<Rightarrow> wcell" where
  "expanded_cell at_row st c =
     (case Option.bind (wc_formula c) (adjoining_sum at_row) of
        None \<Rightarrow> c | Some (col, r) \<Rightarrow> set_formula (sum_text col r (st - 1)) c)"

definition expands :: "nat \<Rightarrow> nat \<Rightarrow> sheet \<Rightarrow> nat \<Rightarrow> bool" where
  "expands at_row st sh col =
     (Option.bind (sheet_cell sh col st) (\<lambda>c. Option.bind (wc_formula c) (adjoining_sum at_row)) \<noteq> None)"

lemma sheet_cell_update_cell:
  "sheet_cell (update_cell col row f sh) c r =
     (if r = row \<and> c = col then Some (f (case sheet_cell sh col row of None \<Rightarrow> empty_cell | Some c \<Rightarrow> c))
      else sheet_cell sh c r)"
  by (simp add: sheet_cell_def update_cell_def)

lemma sum_action_at_expand:
  assumes "at_row < u32_limit" and "1 \<le> st" and "st < u32_limit"
  shows "case sum_action_at at_row st sh col of
      SumExpand g \<Rightarrow> expands at_row st sh col \<and> (\<exists>c. sheet_cell sh col st = Some c \<and> set_formula g c = expanded_cell at_row st c)
    | _ \<Rightarrow> \<not> expands at_row st sh col
        \<and> map_option (expanded_cell at_row st) (sheet_cell sh col st) = sheet_cell sh col st"
proof (cases "Option.bind (sheet_cell sh col st) wc_formula")
  case None
  then have "Option.bind (sheet_cell sh col st) (\<lambda>c. Option.bind (wc_formula c) (adjoining_sum at_row)) = None"
    "map_option (expanded_cell at_row st) (sheet_cell sh col st) = sheet_cell sh col st"
    by (cases "sheet_cell sh col st"; simp add: expanded_cell_def)+
  with None show ?thesis by (simp add: sum_action_at_def expands_def)
next
  case (Some f)
  then obtain c where c: "sheet_cell sh col st = Some c" "wc_formula c = Some f"
    by (cases "sheet_cell sh col st") auto
  note action = sum_action_expand [OF assms, of f]
  show ?thesis
  proof (cases "sum_action_for at_row st f")
    case (SumExpand g)
    with action [of g] obtain l r where "adjoining_sum at_row f = Some (l, r)" "g = sum_text l r (st - 1)" by blast
    with c SumExpand show ?thesis by (simp add: sum_action_at_def expands_def expanded_cell_def)
  next
    case SumKeep
    with action have "adjoining_sum at_row f = None" by (cases "adjoining_sum at_row f") auto
    with c SumKeep show ?thesis by (simp add: sum_action_at_def expands_def expanded_cell_def)
  next
    case (SumWarn w)
    with action have "adjoining_sum at_row f = None" by (cases "adjoining_sum at_row f") auto
    with c SumWarn show ?thesis by (simp add: sum_action_at_def expands_def expanded_cell_def)
  qed
qed

lemma expand_columns_cells:
  assumes "at_row < u32_limit" and "1 \<le> st" and "st < u32_limit" and "distinct cols"
    and "expand_columns at_row st cols sh = (sh', ws, k)"
  shows "sh' = sh \<lparr> sh_cells := sh_cells sh' \<rparr> \<and> k = length (filter (expands at_row st sh) cols)
    \<and> (\<forall>c r. sheet_cell sh' c r = (if r = st \<and> c \<in> set cols
        then map_option (expanded_cell at_row st) (sheet_cell sh c r) else sheet_cell sh c r))"
  using assms(4,5)
proof (induction cols arbitrary: sh sh' ws k)
  case Nil
  then show ?case by simp
next
  case (Cons col cols)
  note here = sum_action_at_expand [OF assms(1-3), of sh col]
  show ?case
  proof (cases "sum_action_at at_row st sh col")
    case (SumExpand g)
    let ?sh = "update_cell col st (set_formula g) sh"
    from Cons.prems SumExpand obtain k' where k: "k = Suc k'" and more: "expand_columns at_row st cols ?sh = (sh', ws, k')"
      by (auto split: prod.splits)
    from here SumExpand obtain c where c: "sheet_cell sh col st = Some c" "set_formula g c = expanded_cell at_row st c"
      and ex: "expands at_row st sh col" by auto
    have cells: "sheet_cell ?sh c' r' = (if r' = st \<and> c' = col then Some (expanded_cell at_row st c) else sheet_cell sh c' r')"
      for c' r' by (simp add: sheet_cell_update_cell c)
    have same: "expands at_row st ?sh c' = expands at_row st sh c'" if "c' \<in> set cols" for c'
      using Cons.prems(1) that by (auto simp: expands_def cells)
    have "filter (expands at_row st ?sh) cols = filter (expands at_row st sh) cols"
      by (rule filter_cong) (simp_all add: same)
    moreover have "sh' = ?sh \<lparr> sh_cells := sh_cells sh' \<rparr> \<Longrightarrow> sh' = sh \<lparr> sh_cells := sh_cells sh' \<rparr>"
      by (simp add: update_cell_def)
    ultimately show ?thesis
      using Cons.IH [OF _ more] Cons.prems(1) k c ex by (simp add: cells)
  next
    case SumKeep
    with here Cons.IH [of sh sh' ws k] Cons.prems show ?thesis by auto
  next
    case (SumWarn w)
    with here Cons.prems obtain ws' where "expand_columns at_row st cols sh = (sh', ws', k)"
      by (auto split: prod.splits)
    with SumWarn here Cons.IH [of sh sh' ws' k] Cons.prems show ?thesis by auto
  qed
qed

lemma highest_column_bound: "sheet_cell sh col row = Some c \<Longrightarrow> col \<le> highest_column sh"
proof -
  have grow: "m \<le> fold (\<lambda>x. max (snd (fst x))) ys m" for ys :: "(cell_pos \<times> wcell) list" and m
  proof (induction ys arbitrary: m)
    case (Cons y ys)
    show ?case using Cons [of "max (snd (fst y)) m"] by simp
  qed simp
  have "((row, col), c) \<in> set cells \<Longrightarrow> col \<le> fold (\<lambda>x. max (snd (fst x))) cells m"
    for cells :: "(cell_pos \<times> wcell) list" and m
  proof (induction cells arbitrary: m)
    case (Cons x xs)
    then show ?case using grow [of "max col m" xs] by auto
  qed simp
  then show "sheet_cell sh col row = Some c \<Longrightarrow> col \<le> highest_column sh"
    by (simp add: sheet_cell_def bt_get_def highest_column_def case_prod_unfold map_of_SomeD)
qed

lemma adjoining_sums_parts:
  assumes "expand_adjacent_sum_formulas at_row n sh = (sh', Inr (ws, k))"
    and "at_row + n < u32_limit" and "1 \<le> n"
  shows "sh' = sh \<lparr> sh_cells := sh_cells sh' \<rparr>"
    and "\<forall>col row. sheet_cell sh' col row = (if 1 \<le> col \<and> row = at_row + n
        then map_option (expanded_cell at_row (at_row + n)) (sheet_cell sh col row) else sheet_cell sh col row)"
    and "k = card {col. 1 \<le> col \<and> expands at_row (at_row + n) sh col}"
    and "\<forall>f col r. adjoining_sum at_row f = Some (col, r) \<longrightarrow>
        adjoining_sum (at_row + n) (sum_text col r (at_row + n - 1)) = Some (col, r)"
proof -
  let ?st = "at_row + n" and ?cols = "[1 ..< highest_column sh + 1]"
  have "u32_wrapping_add at_row n = ?st" using assms(2) by (simp add: u32_wrapping_add_exact)
  with assms(1) have run: "expand_columns at_row ?st ?cols sh = (sh', ws, k)"
    by (simp add: expand_adjacent_sum_formulas_def del: upt_Suc split: prod.splits)
  have "distinct ?cols" by simp
  from expand_columns_cells [OF _ _ assms(2) this run] assms(2,3)
  have all: "sh' = sh \<lparr> sh_cells := sh_cells sh' \<rparr>" "k = length (filter (expands at_row ?st sh) ?cols)"
    "\<forall>c r. sheet_cell sh' c r = (if r = ?st \<and> c \<in> set ?cols
        then map_option (expanded_cell at_row ?st) (sheet_cell sh c r) else sheet_cell sh c r)" by simp_all
  show "sh' = sh \<lparr> sh_cells := sh_cells sh' \<rparr>" by (rule all(1))
  show "\<forall>col row. sheet_cell sh' col row = (if 1 \<le> col \<and> row = ?st
        then map_option (expanded_cell at_row ?st) (sheet_cell sh col row) else sheet_cell sh col row)"
  proof (intro allI)
    fix col row
    show "sheet_cell sh' col row = (if 1 \<le> col \<and> row = ?st
        then map_option (expanded_cell at_row ?st) (sheet_cell sh col row) else sheet_cell sh col row)"
      using spec [OF spec [OF all(3), of col], of row] highest_column_bound [of sh col row]
      by (cases "sheet_cell sh col row") (auto split: if_split_asm)
  qed
  have "{col. 1 \<le> col \<and> expands at_row ?st sh col} = set (filter (expands at_row ?st sh) ?cols)"
    using highest_column_bound by (fastforce simp: expands_def bind_eq_None_conv)
  then show "k = card {col. 1 \<le> col \<and> expands at_row ?st sh col}"
    unfolding all(2) by (simp only: distinct_card distinct_filter distinct_upt)
  show "\<forall>f col r. adjoining_sum at_row f = Some (col, r) \<longrightarrow>
      adjoining_sum ?st (sum_text col r (?st - 1)) = Some (col, r)"
  proof (intro allI impI)
    fix f col r
    assume "adjoining_sum at_row f = Some (col, r)"
    from adjoining_sum_letters [OF this] adjoining_sum_text [of col r "?st - 1"] assms(2,3)
    show "adjoining_sum ?st (sum_text col r (?st - 1)) = Some (col, r)" by simp
  qed
qed

text \<open>Sums next to inserted rows: when rows are inserted at a row and the sums are expanded, every
  cell of the row below the inserted rows (from the first column) that held a simple sum of one column
  ending just above them holds afterwards the sum of the same column from the same first row to the
  last inserted row, which is again such a sum; every other cell of the sheet is as before, and the
  count is the number of cells changed.\<close>

theorem adjoining_sums_expanded:
  assumes "expand_adjacent_sum_formulas at_row n sh = (sh', Inr (ws, k))"
    and "at_row + n < u32_limit" and "1 \<le> n"
  shows "sh' = sh \<lparr> sh_cells := sh_cells sh' \<rparr>
    \<and> (\<forall>col row. sheet_cell sh' col row = (if 1 \<le> col \<and> row = at_row + n
        then map_option (expanded_cell at_row (at_row + n)) (sheet_cell sh col row) else sheet_cell sh col row))
    \<and> k = card {col. 1 \<le> col \<and> expands at_row (at_row + n) sh col}
    \<and> (\<forall>f col r. adjoining_sum at_row f = Some (col, r) \<longrightarrow>
        adjoining_sum (at_row + n) (sum_text col r (at_row + n - 1)) = Some (col, r))"
  by (intro conjI adjoining_sums_parts [OF assms])

definition sum_sheet :: sheet where
  "sum_sheet = \<lparr> sh_name = ''Data'', sh_cells = [((4, 1), \<lparr> wc_value = ''7'',
     wc_formula = Some ''SUM(A1:A2)'', wc_style = JNull \<rparr>)], sh_merges = [], sh_validations = None, sh_names = [] \<rparr>"

lemma sum_sheet_adjoins: "adjoining_sum 3 ''SUM(A1:A2)'' = Some (''A'', 1)"
  by (simp add: adjoining_sum_def simple_sum_range_def sum_corner_def sum_row_number_def without_equals_def
      str_eval)

theorem adjoining_sums_expanded_witness:
  "\<exists>sh' ws k. expand_adjacent_sum_formulas 3 1 sum_sheet = (sh', Inr (ws, k))
    \<and> sheet_cell sh' 1 4 = Some (set_formula (sum_text ''A'' 1 3) \<lparr> wc_value = ''7'',
        wc_formula = Some ''SUM(A1:A2)'', wc_style = JNull \<rparr>)"
proof -
  obtain sh' ws k where "expand_columns 3 (u32_wrapping_add 3 1) [1 ..< highest_column sum_sheet + 1] sum_sheet
      = (sh', ws, k)" by (metis prod.exhaust)
  then have run: "expand_adjacent_sum_formulas 3 1 sum_sheet = (sh', Inr (ws, k))"
    by (simp only: expand_adjacent_sum_formulas_def prod.case)
  have "sheet_cell sum_sheet 1 4 = Some \<lparr> wc_value = ''7'', wc_formula = Some ''SUM(A1:A2)'', wc_style = JNull \<rparr>"
    by (simp add: sheet_cell_def sum_sheet_def bt_get_Cons)
  with adjoining_sums_expanded [OF run] have "sheet_cell sh' 1 4 = Some (expanded_cell 3 4
      \<lparr> wc_value = ''7'', wc_formula = Some ''SUM(A1:A2)'', wc_style = JNull \<rparr>)"
    by simp
  with run show ?thesis by (simp add: expanded_cell_def sum_sheet_adjoins)
qed

section \<open>The sheets after a batch\<close>

definition book_names :: "book \<Rightarrow> string list" where
  "book_names bk = map sh_name (bk_sheets bk)"

text \<open>What an operation does to the list of sheet names, and the sheets it names.\<close>

fun names_after :: "structure_op \<Rightarrow> string list \<Rightarrow> string list" where
  "names_after (OpRenameSheet old_name new_name) ns =
     (case Prelude.position (\<lambda>n. n = str_trim old_name) ns of
        None \<Rightarrow> ns | Some i \<Rightarrow> ns [i := str_trim new_name])"
| "names_after (OpCreateSheet name pos) ns =
     (case pos of
        None \<Rightarrow> ns @ [str_trim name] | Some i \<Rightarrow> take i ns @ str_trim name # drop i ns)"
| "names_after (OpDeleteSheet name) ns = (if length ns \<le> 1 then ns else remove1 (str_trim name) ns)"
| "names_after op ns = ns"

fun op_sheets :: "structure_op \<Rightarrow> string set" where
  "op_sheets (OpMergeCells s _) = {s}"
| "op_sheets (OpUnmergeCells s _) = {s}"
| "op_sheets (OpInsertRows s _ _ _) = {s}"
| "op_sheets (OpCloneRow s _ _ _ _) = {s}"
| "op_sheets (OpDeleteRows s _ _) = {s}"
| "op_sheets (OpInsertCols s _ _) = {s}"
| "op_sheets (OpDeleteCols s _ _) = {s}"
| "op_sheets (OpRenameSheet old_name new_name) = {str_trim old_name, str_trim new_name}"
| "op_sheets (OpCreateSheet s _) = {str_trim s}"
| "op_sheets (OpDeleteSheet s) = {str_trim s}"
| "op_sheets (OpCopyRange s d _ _ _ _) = {s, case d of None \<Rightarrow> s | Some d \<Rightarrow> d}"
| "op_sheets (OpMoveRange s d _ _ _ _) = {s, case d of None \<Rightarrow> s | Some d \<Rightarrow> d}"

text \<open>What the library promises about names.\<close>

definition engine_names :: "engine_lib \<Rightarrow> bool" where
  "engine_names en =
     ((\<forall>r n sh. sh_name (en_insert_rows en r n sh) = sh_name sh \<and> sh_name (en_remove_rows en r n sh) = sh_name sh)
      \<and> (\<forall>c n sh. sh_name (en_insert_cols en c n sh) = sh_name sh \<and> sh_name (en_remove_cols en c n sh) = sh_name sh)
      \<and> (\<forall>i n bk bk'. en_set_sheet_name en i n bk = Inr bk' \<longrightarrow> book_names bk' = (book_names bk) [i := n])
      \<and> (\<forall>n bk bk'. en_new_sheet en n bk = Inr bk' \<longrightarrow> book_names bk' = book_names bk @ [n])
      \<and> (\<forall>n bk bk'. en_remove_sheet en n bk = Inr bk' \<longrightarrow> book_names bk' = remove1 n (book_names bk)))"

lemma book_names_update_sheet:
  assumes "\<And>sh. sh_name (f sh) = sh_name sh"
  shows "book_names (update_sheet d f bk) = book_names bk"
proof -
  have "map sh_name (update_sheet_in d f ss) = map sh_name ss" for ss
    using assms by (induction ss) auto
  then show ?thesis by (simp add: book_names_def update_sheet_def)
qed

lemma update_sheet_const:
  "find_sheet bk d = Some sh \<Longrightarrow> sh_name sh' = sh_name sh \<Longrightarrow>
   book_names (update_sheet d (\<lambda>_. sh') bk) = book_names bk"
proof -
  assume found: "find_sheet bk d = Some sh" and "sh_name sh' = sh_name sh"
  then have "sh_name sh' = d" by (simp add: find_sheet_name)
  then have "map sh_name (update_sheet_in d (\<lambda>_. sh') ss) = map sh_name ss" for ss
    by (induction ss) auto
  then show ?thesis by (simp add: book_names_def update_sheet_def)
qed

text \<open>Steps on a workbook that leave the names alone.\<close>

abbreviation (input) names_are :: "string list \<Rightarrow> book \<times> diagnostics_builder \<Rightarrow> bool" where
  "names_are ns s \<equiv> book_names (fst s) = ns"

lemma rewrite_sheets_names:
  "rewrite_sheets lib policy f always skip shs b = (shs', b', r) \<Longrightarrow> map sh_name shs' = map sh_name shs"
proof (induction shs arbitrary: b shs' b' r)
  case (Cons sh shs)
  have one: "sh_name (fst (rewrite_sheet lib policy f always sh b)) = sh_name sh"
    by (simp add: rewrite_sheet_def split: prod.splits)
  show ?case
    using Cons.prems one Cons.IH
    by (fastforce split: prod.splits sum.splits if_split_asm)
qed simp

lemma keeps_rewrite_formulas: "keeps (names_are ns) (rewrite_formulas lib policy f always skip)"
  unfolding keeps_def rewrite_formulas_def
  using rewrite_sheets_names by (fastforce simp: book_names_def split: prod.splits)

lemma keeps_rewrite_defined_names: "keeps (names_are ns) (rewrite_defined_names lib policy f)"
  by (simp add: keeps_def rewrite_defined_names_def book_names_def split: prod.splits)

lemma keeps_copy_cell:
  "keeps (names_are ns) (copy_cell en policy src dst styles formulas dc dr sp dp)"
  by (auto simp: keeps_def copy_cell_def book_names_update_sheet remove_cell_def update_cell_def
      split: option.splits sum.splits)

lemma clear_block_names: "book_names (clear_block name start ps bk) = book_names bk"
  unfolding clear_block_def
  by (induction ps arbitrary: bk) (simp_all add: book_names_update_sheet remove_cell_def)

lemma keeps_copy_or_move_range:
  "keeps (names_are ns) (copy_or_move_range en src dst rng anchor styles formulas clear policy)"
  unfolding copy_or_move_range_def copy_block_def Let_def
  by (auto intro!: keeps_intros keeps_copy_cell keeps_update simp: clear_block_names split: prod.split)

section \<open>The effect of a step of the batch\<close>

definition effect :: "'a run_step \<Rightarrow> (string list \<Rightarrow> string list) \<Rightarrow> string set \<Rightarrow> bool" where
  "effect m g A = (\<forall>run run' x. m run = (run', Inr x) \<longrightarrow>
     book_names (sr_book run') = g (book_names (sr_book run))
     \<and> dom (bt_get (sr_affected run')) = A \<union> dom (bt_get (sr_affected run)))"

abbreviation silent :: "'a run_step \<Rightarrow> bool" where
  "silent m \<equiv> effect m (\<lambda>ns. ns) {}"

lemma effect_bind:
  assumes "effect m g A" and "\<And>x. effect (f x) h B"
  shows "effect (bind_step m f) (\<lambda>ns. h (g ns)) (B \<union> A)"
  using assms by (fastforce simp: effect_def bind_step_ok)

lemma silent_bind:
  assumes "silent m" and "\<And>x. effect (f x) g A"
  shows "effect (bind_step m f) g A"
  using effect_bind [OF assms] by simp

lemma change_bind:
  assumes "effect m g {}" and "\<And>x. effect (f x) (\<lambda>ns. ns) A"
  shows "effect (bind_step m f) g A"
  using effect_bind [OF assms] by simp

lemma effect_affect: "effect (affect n) (\<lambda>ns. ns) {n}"
  by (auto simp: effect_def affect_def update_step_def)

lemma affect_bind:
  assumes "\<And>x. effect (f x) (\<lambda>ns. ns) A"
  shows "effect (bind_step (affect n) f) (\<lambda>ns. ns) (insert n A)"
  using effect_bind [OF effect_affect assms] by simp

lemma silent_simple:
  "silent (return_step x)" "silent (read_step g)" "silent (guard_step c m)" "silent (count_up key n)" "silent (warn ws)"
  by (auto simp: effect_def return_step_def read_step_def guard_step_def count_up_def warn_def update_step_def)

lemma silent_on_book: "(\<And>ns. keeps (names_are ns) m) \<Longrightarrow> silent (on_book m)"
proof -
  assume m: "\<And>ns. keeps (names_are ns) m"
  have "book_names (fst (fst (m s))) = book_names (fst s)" for s
    using keepsD [OF m, of s] by simp
  then have same: "m (bk, b) = ((bk', b'), r) \<Longrightarrow> book_names bk' = book_names bk" for bk b bk' b' r
    by (metis fst_conv)
  show ?thesis
    by (auto simp: effect_def on_book_def dest: same split: prod.splits)
qed

lemma silent_in_sheet:
  assumes "\<And>sh. sh_name (fst (m sh)) = sh_name sh"
  shows "silent (in_sheet name m)"
proof -
  have "book_names (fst (on_sheet name m bk)) = book_names bk" for bk
  proof (cases "find_sheet bk name")
    case (Some sh)
    obtain sh' r where run: "m sh = (sh', r)" by (cases "m sh")
    with assms [of sh] have "sh_name sh' = sh_name sh" by simp
    from update_sheet_const [OF Some this] Some run show ?thesis by (simp add: on_sheet_def)
  qed (simp add: on_sheet_def)
  then show ?thesis
    unfolding in_sheet_def by (intro silent_on_book) (auto simp: keeps_def case_prod_beta)
qed

lemmas effect_intros = silent_bind [OF silent_simple(1)] silent_bind [OF silent_simple(2)]
  silent_bind [OF silent_simple(3)] silent_bind [OF silent_simple(4)] silent_bind [OF silent_simple(5)]
  affect_bind effect_affect silent_simple

lemma silent_rewrite_after_edit: "silent (rewrite_after_edit en policy name axis edit)"
  unfolding rewrite_after_edit_def rewrite_formulas_for_sheet_structure_change_def
    rewrite_defined_name_formulas_for_sheet_structure_change_def
  by (intro silent_bind silent_on_book keeps_rewrite_formulas keeps_rewrite_defined_names)

lemma expand_columns_name: "sh_name (fst (expand_columns at_row st cols sh)) = sh_name sh"
  by (induction cols arbitrary: sh) (simp_all add: update_cell_def case_prod_beta split: sum_action.split)

lemma silent_expand_sums: "silent (expand_sums name at_row n expand)"
proof -
  have "sh_name (fst (expand_adjacent_sum_formulas at_row n sh)) = sh_name sh" for sh
    using expand_columns_name [of at_row "u32_wrapping_add at_row n" "[1 ..< highest_column sh + 1]" sh]
    by (simp add: expand_adjacent_sum_formulas_def case_prod_beta del: upt_Suc)
  then show ?thesis
    unfolding expand_sums_def
    by (auto intro!: effect_intros silent_bind [OF silent_in_sheet] split: prod.split)
qed

lemma silent_shift_rows:
  "(\<And>sh. sh_name (shift sh) = sh_name sh) \<Longrightarrow> silent (in_sheet name (shift_rows_of_sheet en edit shift))"
  by (intro silent_in_sheet)
    (simp add: shift_rows_of_sheet_def bind_step_def read_step_def update_step_def replace_data_validations_def
      split: sum.split)

lemma stamp_name: "sh_name (fst (stamp_template_rows lib template source_row insert_at n sh)) = sh_name sh"
proof -
  have row: "sh_name (stamp_row lib template source_row r sh) = sh_name sh" for r sh
    unfolding stamp_row_def by (induction template arbitrary: sh) (simp_all add: update_cell_def)
  have "sh_name (fold (stamp_row lib template source_row) rows sh) = sh_name sh" for rows
    by (induction rows arbitrary: sh) (simp_all add: row)
  then show ?thesis by (simp add: stamp_template_rows_def Let_def)
qed

lemma effect_row_ops:
  assumes "engine_names en"
  shows "effect (insert_rows_op en policy name at_row n expand) (\<lambda>ns. ns) {name}"
    and "effect (delete_rows_op en policy name start_row n) (\<lambda>ns. ns) {name}"
    and "effect (clone_row_op en policy name source_row insert_at n expand) (\<lambda>ns. ns) {name}"
proof -
  have rows: "silent (in_sheet name (shift_rows_of_sheet en edit (en_insert_rows en r k)))"
    "silent (in_sheet name (shift_rows_of_sheet en edit (en_remove_rows en r k)))" for edit r k
    using assms by (auto intro!: silent_shift_rows simp: engine_names_def)
  show "effect (insert_rows_op en policy name at_row n expand) (\<lambda>ns. ns) {name}"
    unfolding insert_rows_op_def
    by (intro effect_intros silent_bind [OF rows(1)] silent_bind [OF silent_rewrite_after_edit]
        silent_bind [OF silent_expand_sums])
  show "effect (delete_rows_op en policy name start_row n) (\<lambda>ns. ns) {name}"
    unfolding delete_rows_op_def
    by (intro effect_intros silent_bind [OF rows(2)] silent_bind [OF silent_rewrite_after_edit])
  have template: "silent (in_sheet name (read_step f))" for f
    by (intro silent_in_sheet) (simp add: read_step_def)
  have stamp: "silent (in_sheet name (stamp_template_rows lib t r i k))" for lib t r i k
    by (intro silent_in_sheet stamp_name)
  have maybe_warn: "silent (if c then warn ws else return_step ())" for c ws
    by (simp add: silent_simple)
  show "effect (clone_row_op en policy name source_row insert_at n expand) (\<lambda>ns. ns) {name}"
    unfolding clone_row_op_def
    by (intro effect_intros silent_bind [OF template] silent_bind [OF maybe_warn] silent_bind [OF rows(1)]
        silent_bind [OF silent_rewrite_after_edit] silent_bind [OF stamp] silent_bind [OF silent_expand_sums])
qed

lemma effect_cols_op:
  assumes "\<And>c k sh. sh_name (shift c k sh) = sh_name sh"
  shows "effect (edit_cols_op en policy name col n message shift edit key) (\<lambda>ns. ns) {name}"
proof -
  have "silent (in_sheet name (update_step (shift c k)))" for c k
    using assms by (intro silent_in_sheet) (simp add: update_step_def)
  then show ?thesis
    unfolding edit_cols_op_def
    by (intro effect_intros silent_bind [OF \<open>silent (in_sheet name (update_step (shift _ _)))\<close>]
        silent_bind [OF silent_rewrite_after_edit])
qed

lemma effect_copy_move:
  "effect (copy_move_op en policy name dest rng anchor styles formulas clear) (\<lambda>ns. ns)
     {name, case dest of None \<Rightarrow> name | Some d \<Rightarrow> d}"
  unfolding copy_move_op_def Let_def
  by (intro silent_bind [OF silent_on_book [OF keeps_copy_or_move_range]])
    (auto intro!: effect_intros)

lemma on_book_library:
  "on_book (\<lambda>(bk, b). case f bk of Inl e \<Rightarrow> ((bk, b), Inl e) | Inr bk \<Rightarrow> ((bk, b), Inr ())) run = (run', Inr x)
     \<longleftrightarrow> (\<exists>bk. f (sr_book run) = Inr bk \<and> run' = run \<lparr> sr_book := bk \<rparr>)"
  by (cases "f (sr_book run)") (auto simp: on_book_def)

lemma position_map: "Prelude.position (\<lambda>n. n = x) (map f xs) = Prelude.position (\<lambda>s. f s = x) xs"
  by (induction xs) auto

lemma effect_rename:
  assumes "engine_names en"
  shows "effect (rename_sheet_op en policy old_name new_name) (names_after (OpRenameSheet old_name new_name))
    {str_trim old_name, str_trim new_name}"
proof -
  let ?old = "str_trim old_name" and ?new = "str_trim new_name"
  have rewrite: "silent (on_book (rewrite_formulas_for_sheet_rename (en_rewrite en) policy ?old ?new))"
    "silent (on_book (rewrite_defined_name_formulas_for_sheet_rename (en_rewrite en) policy ?old ?new))"
    unfolding rewrite_formulas_for_sheet_rename_def rewrite_defined_name_formulas_for_sheet_rename_def
    by (intro silent_on_book keeps_rewrite_formulas keeps_rewrite_defined_names)+
  define tl where "tl = bind_step (on_book (rewrite_formulas_for_sheet_rename (en_rewrite en) policy ?old ?new)) (\<lambda>_.
      bind_step (on_book (rewrite_defined_name_formulas_for_sheet_rename (en_rewrite en) policy ?old ?new)) (\<lambda>_.
      bind_step (affect ?old) (\<lambda>_. bind_step (affect ?new) (\<lambda>_. count_up ''sheets_renamed'' 1))))"
  have tl: "effect tl (\<lambda>ns. ns) {?old, ?new}"
    unfolding tl_def by (intro silent_bind [OF rewrite(1)] silent_bind [OF rewrite(2)] effect_intros)
  show ?thesis
    unfolding effect_def
  proof (intro allI impI)
    fix run run' x
    assume "rename_sheet_op en policy old_name new_name run = (run', Inr x)"
    then obtain i bk1 where i: "Prelude.position (\<lambda>s. sh_name s = ?old) (bk_sheets (sr_book run)) = Some i"
      and bk1: "en_set_sheet_name en i ?new (sr_book run) = Inr bk1"
      and rest: "tl (run \<lparr> sr_book := bk1 \<rparr>) = (run', Inr x)"
      unfolding rename_sheet_op_def Let_def tl_def [symmetric]
      by (auto simp: bind_step_ok [where m = "on_book m" for m] on_book_library)
        (auto simp: bind_step_ok guard_step_def read_step_def on_book_library split: if_split_asm)
    have "book_names bk1 = (book_names (sr_book run)) [i := ?new]"
      using assms bk1 by (simp add: engine_names_def)
    then have "book_names bk1 = names_after (OpRenameSheet old_name new_name) (book_names (sr_book run))"
      using i by (simp add: book_names_def position_map)
    moreover have "book_names (sr_book run') = book_names bk1"
      "dom (bt_get (sr_affected run')) = {?old, ?new} \<union> dom (bt_get (sr_affected run))"
      using tl rest unfolding effect_def by fastforce+
    ultimately show "book_names (sr_book run') = names_after (OpRenameSheet old_name new_name) (book_names (sr_book run))
        \<and> dom (bt_get (sr_affected run')) = {?old, ?new} \<union> dom (bt_get (sr_affected run))"
      by simp
  qed
qed

lemma map_last_to: "xs \<noteq> [] \<Longrightarrow> map f (last_to i xs) = last_to i (map f xs)"
  by (simp add: last_to_def last_map take_map drop_map map_butlast [symmetric])

lemma last_to_end: "xs \<noteq> [] \<Longrightarrow> last_to (length xs - 1) xs = xs"
  by (simp add: last_to_def) (metis One_nat_def append_butlast_last_id butlast_conv_take)

lemma effect_place:
  "effect (place_sheet pos) (\<lambda>ns. case pos of None \<Rightarrow> ns | Some i \<Rightarrow> if i < length ns then last_to i ns else ns) {}"
  unfolding effect_def
proof (intro allI impI)
  fix run run' x
  assume run: "place_sheet pos run = (run', Inr x)"
  let ?ss = "bk_sheets (sr_book run)"
  show "book_names (sr_book run') = (case pos of None \<Rightarrow> book_names (sr_book run)
        | Some i \<Rightarrow> if i < length (book_names (sr_book run)) then last_to i (book_names (sr_book run))
            else book_names (sr_book run))
      \<and> dom (bt_get (sr_affected run')) = {} \<union> dom (bt_get (sr_affected run))"
  proof (cases pos)
    case None
    with run show ?thesis by (simp add: place_sheet_def)
  next
    case (Some i)
    consider "length ?ss \<le> i" | "i < length ?ss" "i \<noteq> length ?ss - 1" | "i < length ?ss" "i = length ?ss - 1"
      by linarith
    then show ?thesis
    proof cases
      case 3
      then have "?ss \<noteq> []" by auto
      moreover from run Some 3 have "run' = run" by (auto simp: place_sheet_def Let_def split: if_split_asm)
      ultimately show ?thesis
        using Some 3 last_to_end [of "book_names (sr_book run)"] by (simp add: book_names_def)
    next
      case 2
      then have "?ss \<noteq> []" by auto
      with run Some 2 show ?thesis by (auto simp: place_sheet_def Let_def book_names_def map_last_to)
    qed (use run Some in \<open>auto simp: place_sheet_def Let_def warn_def update_step_def book_names_def\<close>)
  qed
qed

lemma effect_create:
  assumes "engine_names en"
  shows "effect (create_sheet_op en name pos) (names_after (OpCreateSheet name pos)) {str_trim name}"
proof -
  let ?place = "\<lambda>ns. case pos of None \<Rightarrow> ns | Some i \<Rightarrow> if i < length ns then last_to i ns else ns"
  have after: "names_after (OpCreateSheet name pos) = (\<lambda>ns. ?place (ns @ [str_trim name]))"
    by (auto simp: fun_eq_iff last_to_def split: option.split)
  have new: "effect (on_book (\<lambda>(bk, b). case en_new_sheet en (str_trim name) bk of
      Inl e \<Rightarrow> ((bk, b), Inl e) | Inr bk \<Rightarrow> ((bk, b), Inr ()))) (\<lambda>ns. ns @ [str_trim name]) {}"
    using assms by (auto simp: effect_def on_book_library engine_names_def)
  have "effect (bind_step (place_sheet pos) (\<lambda>_. bind_step (affect (str_trim name)) (\<lambda>_. count_up ''sheets_created'' 1)))
      ?place {str_trim name}"
    by (intro change_bind [OF effect_place] effect_intros)
  from effect_bind [OF new this] show ?thesis
    unfolding create_sheet_op_def Let_def by (intro effect_intros) (simp only: Un_empty_right after)
qed

lemma effect_delete:
  assumes "engine_names en"
  shows "effect (delete_sheet_op en name) (names_after (OpDeleteSheet name)) {str_trim name}"
proof -
  have tl: "effect (bind_step (affect (str_trim name)) (\<lambda>_. count_up ''sheets_deleted'' 1)) (\<lambda>ns. ns) {str_trim name}"
    by (intro effect_intros)
  show ?thesis
    unfolding effect_def
  proof (intro allI impI)
    fix run run' x
    assume "delete_sheet_op en name run = (run', Inr x)"
    then obtain bk where many: "\<not> length (bk_sheets (sr_book run)) \<le> 1"
      and bk: "en_remove_sheet en (str_trim name) (sr_book run) = Inr bk"
      and rest: "bind_step (affect (str_trim name)) (\<lambda>_. count_up ''sheets_deleted'' 1) (run \<lparr> sr_book := bk \<rparr>)
        = (run', Inr x)"
      unfolding delete_sheet_op_def Let_def
      by (auto simp: bind_step_ok guard_step_def read_step_def on_book_library split: if_split_asm)
    from bk assms have "book_names bk = remove1 (str_trim name) (book_names (sr_book run))"
      by (simp add: engine_names_def)
    moreover have "book_names (sr_book run') = book_names bk"
      "dom (bt_get (sr_affected run')) = {str_trim name} \<union> dom (bt_get (sr_affected run))"
      using tl rest unfolding effect_def by fastforce+
    ultimately show "book_names (sr_book run') = names_after (OpDeleteSheet name) (book_names (sr_book run))
        \<and> dom (bt_get (sr_affected run')) = {str_trim name} \<union> dom (bt_get (sr_affected run))"
      using many by (simp add: book_names_def)
  qed
qed

lemma effect_op:
  assumes "engine_names en"
  shows "effect (apply_structure_op en policy op) (names_after op) (op_sheets op)"
proof -
  have merge: "silent (in_sheet s (update_step (\<lambda>sh. sh \<lparr> sh_merges := sh_merges sh @ [r] \<rparr>)))" for s r
    by (intro silent_in_sheet) (simp add: update_step_def)
  have unmerge: "silent (in_sheet s (unmerge_cells L r))" for s L r
    by (intro silent_in_sheet) (simp add: unmerge_cells_def Let_def split: sum.split)
  have id: "names_after op = (\<lambda>ns. ns)" if "\<And>ns. names_after op ns = ns" for op using that by auto
  note laws = assms [unfolded engine_names_def]
  show ?thesis
  proof (cases op)
    case (OpRenameSheet a b)
    then show ?thesis using effect_rename [OF assms] by simp
  next
    case (OpCreateSheet a b)
    then show ?thesis using effect_create [OF assms] by simp
  next
    case (OpDeleteSheet a)
    then show ?thesis using effect_delete [OF assms] by simp
  qed (simp_all add: id effect_row_ops [OF assms] effect_cols_op effect_copy_move laws,
    (intro effect_intros silent_bind [OF merge] silent_bind [OF unmerge])+)
qed

lemma effect_map_step:
  assumes "\<And>x. effect (f x) (g x) (A x)"
  shows "effect (map_step f xs) (fold g xs) (\<Union>x \<in> set xs. A x)"
proof (induction xs)
  case Nil
  then show ?case using silent_simple(1) [of "[]"] by (simp add: id_def)
next
  case (Cons x xs)
  have "effect (bind_step (map_step f xs) (\<lambda>ys. return_step (y # ys))) (\<lambda>ns. fold g xs ns) (\<Union>x \<in> set xs. A x)" for y
    using effect_bind [OF Cons silent_simple(1)] by simp
  from effect_bind [OF assms this] show ?case by (simp add: comp_def Un_commute)
qed

lemma effect_clamp_names: "silent (clamp_names_step en)"
proof -
  have "silent (on_book (\<lambda>(bk, b). case clamp_out_of_bounds_defined_name_rows en bk of (bk, n) \<Rightarrow> ((bk, b), Inr n)))"
    by (intro silent_on_book) (auto simp: keeps_def clamp_out_of_bounds_defined_name_rows_def book_names_def)
  then show ?thesis
    unfolding clamp_names_step_def by (intro silent_bind) (auto simp: silent_simple)
qed

lemma names_after_nonempty: "ns \<noteq> [] \<Longrightarrow> names_after op ns \<noteq> []"
proof (cases op)
  case (OpDeleteSheet name)
  have "2 \<le> length ns \<Longrightarrow> remove1 x ns \<noteq> []" for x
    by (metis One_nat_def Suc_1 diff_Suc_1 length_remove1 list.size(3) not_less_eq_eq numeral_One zero_neq_numeral diff_is_0_eq)
  then show "ns \<noteq> [] \<Longrightarrow> names_after op ns \<noteq> []" using OpDeleteSheet by auto
qed (auto simp: Let_def last_to_def split: option.splits)

text \<open>C21: a batch of structural operations that succeeds changes the sheets of the workbook exactly as
  its operations say, in order: a rename replaces the first sheet of the old name, a new sheet goes to
  the end or to its place, a deleted sheet goes away unless it is the last one, and no other operation
  adds, removes, renames or reorders sheets; a workbook with sheets never ends up with none; the result
  reports exactly the sheets the operations name, and all operations as applied.\<close>

theorem structure_batch_refines_names:
  assumes "engine_names en"
    and "apply_structure_ops_to_workbook en ops policy bk = (bk', Inr res)"
  shows "book_names bk' = fold names_after ops (book_names bk)
    \<and> (book_names bk \<noteq> [] \<longrightarrow> book_names bk' \<noteq> [])
    \<and> set (sa_affected_sheets res) = (\<Union>op \<in> set ops. op_sheets op)
    \<and> sa_ops_applied res = length ops"
proof -
  let ?m = "bind_step (map_step (apply_structure_op en policy) ops) (\<lambda>_. clamp_names_step en)"
  from assms(2) obtain run where run: "?m (structure_run_start policy bk) = (run, Inr ())"
    and res: "bk' = sr_book run" "res = structure_run_result (length ops) run"
    by (auto simp: apply_structure_ops_to_workbook_def split: prod.splits sum.splits)
  have "effect ?m (fold names_after ops) (\<Union>op \<in> set ops. op_sheets op)"
    using effect_bind [OF effect_map_step [OF effect_op [OF assms(1)]] effect_clamp_names] by simp
  with run have names: "book_names (sr_book run) = fold names_after ops (book_names bk)"
    and sheets: "dom (bt_get (sr_affected run)) = (\<Union>op \<in> set ops. op_sheets op)"
    by (fastforce simp: effect_def structure_run_start_def)+
  have "ns \<noteq> [] \<Longrightarrow> fold names_after ops ns \<noteq> []" for ns
    by (induction ops arbitrary: ns) (simp_all add: names_after_nonempty)
  with names sheets show ?thesis
    by (simp add: res structure_run_result_def bt.keys_dom)
qed

theorem structure_batch_refines_names_witness:
  "\<exists>bk' res. apply_structure_ops_to_workbook demo_engine
      [OpCreateSheet ''New'' (Some 0), OpDeleteSheet ''Sum''] PolicyWarn demo_book = (bk', Inr res)
    \<and> book_names bk' = [''New'', ''Data''] \<and> set (sa_affected_sheets res) = {''New'', ''Sum''}"
proof -
  have laws: "engine_names demo_engine"
  proof -
    have "Prelude.position (\<lambda>s. sh_name s = n) ss = Some i \<Longrightarrow>
        map sh_name (take i ss @ drop (Suc i) ss) = remove1 n (map sh_name ss)" for n ss i
      by (induction ss arbitrary: i) (auto split: if_split_asm)
    then show ?thesis
      by (auto simp: engine_names_def demo_engine_def book_names_def map_update split: option.splits)
  qed
  have trim: "str_trim ''New'' = ''New''" "str_trim ''Sum'' = ''Sum''"
    by (simp_all add: str_trim_def is_space_def ord_of_def)
  obtain bk' res where run: "apply_structure_ops_to_workbook demo_engine
      [OpCreateSheet ''New'' (Some 0), OpDeleteSheet ''Sum''] PolicyWarn demo_book = (bk', Inr res)"
    by (simp add: apply_structure_ops_to_workbook_def structure_run_start_def create_sheet_op_def delete_sheet_op_def
        trim demo_book_def demo_sheet_def demo_engine_def place_sheet_def last_to_def on_book_def affect_def count_up_def
        clamp_names_step_def clamp_out_of_bounds_defined_name_rows_def bind_step_def guard_step_def read_step_def
        return_step_def update_step_def Let_def)
  from structure_batch_refines_names [OF laws run] show ?thesis
    by (intro exI [of _ bk'] exI [of _ res])
      (simp add: run, simp add: trim book_names_def demo_book_def demo_sheet_def last_to_def insert_commute)
qed

end
