(* ===== verification/TransformOps.thy ===== *)
theory TransformOps
  imports StructureOps
begin

text \<open>
  The cell operations of \<open>tools/fork.rs\<close>: clearing, filling and replacing in the cells of a target,
  writing a matrix (\<open>apply_transform_ops_to_workbook\<close>), their preparation (regions resolved, formulas
  checked), and replacing text in formulas (\<open>apply_replace_in_formulas_to_workbook\<close>).

  Setting a value removes a formula, setting a formula leaves the value, as the spreadsheet library
  documents. A loop that does not end is \<open>None\<close>.
\<close>

section \<open>Texts\<close>

text \<open>\<open>str::replace\<close>: non-overlapping occurrences from the left; the empty text occurs before every
  character and at the end.\<close>

function str_replace :: "string \<Rightarrow> string \<Rightarrow> string \<Rightarrow> string" where
  "str_replace pat rep s =
     (if pat = [] then concat (map (\<lambda>c. if char_start c then rep @ [c] else [c]) s) @ rep
      else if starts_with s pat then rep @ str_replace pat rep (drop (length pat) s)
      else (case s of [] \<Rightarrow> [] | c # cs \<Rightarrow> c # str_replace pat rep cs))"
  by pat_completeness auto
termination
proof (relation "measure (\<lambda>(pat, rep, s). length s)", goal_cases)
  case (2 pat rep s)
  then show ?case by (cases s) (auto simp: starts_with_def)
qed auto

declare str_replace.simps [simp del]

definition eq_ignore_case :: "string \<Rightarrow> string \<Rightarrow> bool" where
  "eq_ignore_case a b = (map to_lower a = map to_lower b)"

section \<open>Cell operations\<close>

definition set_value :: "string \<Rightarrow> wcell \<Rightarrow> wcell" where
  "set_value v c = c \<lparr> wc_value := v, wc_formula := None \<rparr>"

definition set_formula_only :: "string \<Rightarrow> wcell \<Rightarrow> wcell" where
  "set_formula_only f c = c \<lparr> wc_formula := Some f \<rparr>"

definition is_formula :: "wcell \<Rightarrow> bool" where
  "is_formula c = (wc_formula c \<noteq> None)"

record transform_counts =
  tn_touched :: nat
  tn_value_cleared :: nat
  tn_formula_cleared :: nat
  tn_skipped :: nat
  tn_value_set :: nat
  tn_formula_set :: nat
  tn_value_replaced :: nat
  tn_formula_replaced :: nat

definition no_counts :: transform_counts where
  "no_counts = \<lparr> tn_touched = 0, tn_value_cleared = 0, tn_formula_cleared = 0, tn_skipped = 0,
     tn_value_set = 0, tn_formula_set = 0, tn_value_replaced = 0, tn_formula_replaced = 0 \<rparr>"

definition up_touched :: "transform_counts \<Rightarrow> transform_counts" where
  "up_touched k = k \<lparr> tn_touched := tn_touched k + 1 \<rparr>"

definition up_skipped :: "transform_counts \<Rightarrow> transform_counts" where
  "up_skipped k = k \<lparr> tn_skipped := tn_skipped k + 1 \<rparr>"

definition up_formula_cleared :: "transform_counts \<Rightarrow> transform_counts" where
  "up_formula_cleared k = k \<lparr> tn_formula_cleared := tn_formula_cleared k + 1 \<rparr>"

text \<open>An operation on one position: from the cell there, if any, and the counts to what they become.\<close>

type_synonym cell_action = "wcell option \<Rightarrow> transform_counts \<Rightarrow> wcell option \<times> transform_counts"

definition clear_cell :: "bool \<Rightarrow> bool \<Rightarrow> cell_action" where
  "clear_cell clear_values clear_formulas oc k =
     (case oc of
        None \<Rightarrow> (None, k)
      | Some c \<Rightarrow>
          let was_formula = is_formula c; k = up_touched k;
              (c, k) = (if clear_formulas \<and> was_formula then (set_formula_only [] c, up_formula_cleared k) else (c, k)) in
          if \<not> clear_values then (Some c, k)
          else if was_formula \<and> \<not> clear_formulas then (Some c, up_skipped k)
          else (Some (set_value [] c),
                if wc_value c \<noteq> [] then k \<lparr> tn_value_cleared := tn_value_cleared k + 1 \<rparr> else k))"

definition fill_cell :: "string \<Rightarrow> bool \<Rightarrow> bool \<Rightarrow> cell_action" where
  "fill_cell val formula overwrite_formulas oc k =
     (let c = (case oc of None \<Rightarrow> empty_cell | Some c \<Rightarrow> c); k = up_touched k in
      if \<not> formula \<and> is_formula c \<and> \<not> overwrite_formulas then (Some c, up_skipped k)
      else
        let (c, k) = (if \<not> formula \<and> is_formula c then (set_formula_only [] c, up_formula_cleared k) else (c, k)) in
        if formula then (Some (set_formula val c), k \<lparr> tn_formula_set := tn_formula_set k + 1 \<rparr>)
        else (Some (set_value val c), k \<lparr> tn_value_set := tn_value_set k + 1 \<rparr>))"

definition replace_value :: "string \<Rightarrow> string \<Rightarrow> replace_match_mode \<Rightarrow> bool \<Rightarrow> string \<Rightarrow> string option" where
  "replace_value pat rep mode case_sensitive input =
     (if mode = MatchExact then
        if (if case_sensitive then input = pat else eq_ignore_case input pat) then Some rep else None
      else if contains_str input pat then Some (str_replace pat rep input) else None)"

definition replace_cell :: "(string \<Rightarrow> string option) \<Rightarrow> bool \<Rightarrow> cell_action" where
  "replace_cell change include_formulas oc k =
     (case oc of
        None \<Rightarrow> (None, k)
      | Some c \<Rightarrow>
          let k = up_touched k in
          (case wc_formula c of
             Some formula \<Rightarrow>
               if \<not> include_formulas then (Some c, up_skipped k)
               else if formula = [] then (Some c, k)
               else (case change formula of
                   Some f \<Rightarrow> (Some (set_formula f c), k \<lparr> tn_formula_replaced := tn_formula_replaced k + 1 \<rparr>)
                 | None \<Rightarrow> (Some c, k))
           | None \<Rightarrow>
               if wc_value c = [] then (Some c, k)
               else (case change (wc_value c) of
                   Some v \<Rightarrow> (Some (set_value v c), k \<lparr> tn_value_replaced := tn_value_replaced k + 1 \<rparr>)
                 | None \<Rightarrow> (Some c, k))))"

text \<open>A JSON value as the text of a cell; the text of an array or an object is \<open>serde\<close>'s.\<close>

definition matrix_text :: "(json \<Rightarrow> string) \<Rightarrow> json \<Rightarrow> string" where
  "matrix_text to_text v = (case v of JNull \<Rightarrow> [] | JStr s \<Rightarrow> s | v \<Rightarrow> to_text v)"

definition matrix_write :: "(json \<Rightarrow> string) \<Rightarrow> bool \<Rightarrow> matrix_cell \<Rightarrow> cell_action" where
  "matrix_write to_text overwrite_formulas m oc k =
     (let c = (case oc of None \<Rightarrow> empty_cell | Some c \<Rightarrow> c); k = up_touched k in
      if is_formula c \<and> \<not> overwrite_formulas then (Some c, up_skipped k)
      else
        let (c, k) = (if is_formula c then (set_formula_only [] c, up_formula_cleared k) else (c, k)) in
        (case m of
           MatrixValue v \<Rightarrow>
             (Some (set_value (matrix_text to_text v) c), k \<lparr> tn_value_set := tn_value_set k + 1 \<rparr>)
         | MatrixFormula f \<Rightarrow>
             (Some (set_formula (without_equals f) c), k \<lparr> tn_formula_set := tn_formula_set k + 1 \<rparr>)))"

section \<open>Operations on a sheet\<close>

definition put_cell :: "cell_pos \<Rightarrow> wcell option \<Rightarrow> sheet \<Rightarrow> sheet" where
  "put_cell pos oc sh =
     (case oc of None \<Rightarrow> sh | Some c \<Rightarrow> sh \<lparr> sh_cells := bt_insert pos c (sh_cells sh) \<rparr>)"

fun touch_cells :: "(cell_pos \<times> cell_action) list \<Rightarrow> sheet \<times> transform_counts \<Rightarrow> sheet \<times> transform_counts" where
  "touch_cells [] s = s"
| "touch_cells ((pos, act) # as) (sh, k) =
     (case act (bt_get (sh_cells sh) pos) k of (oc, k) \<Rightarrow> touch_cells as (put_cell pos oc sh, k))"

definition pos_of :: "coord_lib \<Rightarrow> string \<Rightarrow> cell_pos res" where
  "pos_of L addr = bind_res (fork_cell_ref L addr) (\<lambda>(col, row). Inr (row, col))"

text \<open>The positions of a target with the bounds reported for it. An address of the list that cannot be
  read is an error.\<close>

definition target_positions :: "coord_lib \<Rightarrow> transform_target \<Rightarrow> (cell_pos list \<times> string list) res" where
  "target_positions L target =
     (case target of
        TargetRange rng \<Rightarrow> bind_res (parse_range_bounds L rng) (\<lambda>b.
          Inr (block_positions (sb_min_row b) (sb_max_row b) (sb_min_col b) (sb_max_col b), [rng]))
      | TargetCells cells \<Rightarrow> bind_res (map_res (pos_of L) cells) (\<lambda>ps. Inr (ps, cells))
      | TargetRegion _ \<Rightarrow> Inl (Bail ''region_id targets must be resolved before apply_transform_ops_to_file''))"

text \<open>The cells of a matrix row by row, and its last row and column.\<close>

definition matrix_positions :: "nat \<Rightarrow> nat \<Rightarrow> matrix_cell option list list \<Rightarrow> (cell_pos \<times> matrix_cell) list" where
  "matrix_positions anchor_row anchor_col rows =
     concat (map (\<lambda>(r, row). List.map_filter (\<lambda>(c, m).
         map_option (\<lambda>m. ((u32_wrapping_add anchor_row r, u32_wrapping_add anchor_col c), m)) m) (enumerate 0 row))
       (enumerate 0 rows))"

definition matrix_bounds :: "nat \<Rightarrow> nat \<Rightarrow> matrix_cell option list list \<Rightarrow> string" where
  "matrix_bounds anchor_row anchor_col rows =
     (let max_row = foldl max anchor_row (map (u32_wrapping_add anchor_row) [0 ..< length rows]);
          max_col = foldl max anchor_col (concat (map (\<lambda>row. map (u32_wrapping_add anchor_col) [0 ..< length row]) rows))
      in cell_address anchor_col anchor_row @ '':'' @ cell_address max_col max_row)"

text \<open>What an operation does: its sheet, the actions on it and the bounds it reports. The errors come in
  the order of the code: the sheet first (by the caller), then the mode, then the target.\<close>

fun transform_sheet :: "transform_op \<Rightarrow> string" where
  "transform_sheet (ClearRange s _ _ _) = s"
| "transform_sheet (FillRange s _ _ _ _) = s"
| "transform_sheet (ReplaceInRange s _ _ _ _ _ _) = s"
| "transform_sheet (WriteMatrix s _ _ _) = s"

fun transform_actions ::
    "coord_lib \<Rightarrow> (json \<Rightarrow> string) \<Rightarrow> transform_op \<Rightarrow> ((cell_pos \<times> cell_action) list \<times> string list) res" where
  "transform_actions L to_text (ClearRange _ target clear_values clear_formulas) =
     bind_res (target_positions L target) (\<lambda>(ps, bounds).
     Inr (map (\<lambda>p. (p, clear_cell clear_values clear_formulas)) ps, bounds))"
| "transform_actions L to_text (FillRange _ target val formula overwrite_formulas) =
     bind_res (target_positions L target) (\<lambda>(ps, bounds).
     Inr (map (\<lambda>p. (p, fill_cell val formula overwrite_formulas)) ps, bounds))"
| "transform_actions L to_text (ReplaceInRange _ target pat rep mode case_sensitive include_formulas) =
     bail_if (mode = MatchContains \<and> \<not> case_sensitive) ''match_mode 'contains' requires case_sensitive=true''
     (bind_res (target_positions L target) (\<lambda>(ps, bounds).
     Inr (map (\<lambda>p. (p, replace_cell (replace_value pat rep mode case_sensitive) include_formulas)) ps, bounds)))"
| "transform_actions L to_text (WriteMatrix _ anchor rows overwrite_formulas) =
     bind_res (fork_cell_ref L anchor) (\<lambda>(anchor_col, anchor_row).
     Inr (map (\<lambda>(p, m). (p, matrix_write to_text overwrite_formulas m)) (matrix_positions anchor_row anchor_col rows),
       [matrix_bounds anchor_row anchor_col rows]))"

record transform_run =
  tr_book :: book
  tr_counts :: transform_counts
  tr_sheets :: "unit btree"
  tr_bounds :: "string list"

definition apply_transform_op :: "coord_lib \<Rightarrow> (json \<Rightarrow> string) \<Rightarrow> transform_op \<Rightarrow> (transform_run, unit) step" where
  "apply_transform_op L to_text op run =
     (let name = transform_sheet op in
      case find_sheet (tr_book run) name of
        None \<Rightarrow> (run, Inl (Bail ''sheet not found''))
      | Some sh \<Rightarrow>
          let run = run \<lparr> tr_sheets := bt_insert name () (tr_sheets run) \<rparr> in
          (case transform_actions L to_text op of
             Inl e \<Rightarrow> (run, Inl e)
           | Inr (acts, bounds) \<Rightarrow>
               (case touch_cells acts (sh, tr_counts run) of (sh', k) \<Rightarrow>
                 (run \<lparr> tr_book := update_sheet name (\<lambda>_. sh') (tr_book run), tr_counts := k,
                    tr_bounds := tr_bounds run @ bounds \<rparr>, Inr ()))))"

definition transform_start :: "book \<Rightarrow> transform_run" where
  "transform_start bk = \<lparr> tr_book = bk, tr_counts = no_counts, tr_sheets = [], tr_bounds = [] \<rparr>"

definition apply_transform_ops_to_workbook ::
    "coord_lib \<Rightarrow> (json \<Rightarrow> string) \<Rightarrow> transform_op list \<Rightarrow> (book, transform_run) step" where
  "apply_transform_ops_to_workbook L to_text ops bk =
     (case map_step (apply_transform_op L to_text) ops (transform_start bk) of
        (run, Inl e) \<Rightarrow> (tr_book run, Inl e)
      | (run, Inr _) \<Rightarrow> (tr_book run, Inr run))"

section \<open>Preparing the operations\<close>

text \<open>\<open>regions\<close> gives the detected regions of a sheet with their bounds.\<close>

definition resolve_target ::
    "(string \<Rightarrow> (u32 \<times> string) list res) \<Rightarrow> string \<Rightarrow> transform_target \<Rightarrow> transform_target res" where
  "resolve_target regions sheet_name target =
     (case target of
        TargetRegion region_id \<Rightarrow> bind_res (regions sheet_name) (\<lambda>rs.
          (case List.find (\<lambda>(i, _). i = region_id) rs of
             None \<Rightarrow> Inl (Bail ''region_id not found on sheet'')
           | Some (_, bounds) \<Rightarrow> Inr (TargetRange bounds)))
      | other \<Rightarrow> Inr other)"

fun resolve_transform_op :: "(string \<Rightarrow> (u32 \<times> string) list res) \<Rightarrow> transform_op \<Rightarrow> transform_op res" where
  "resolve_transform_op regions (WriteMatrix s anchor rows ow) = Inr (WriteMatrix s anchor rows ow)"
| "resolve_transform_op regions (ClearRange s target cv cf) =
     bind_res (resolve_target regions s target) (\<lambda>t. Inr (ClearRange s t cv cf))"
| "resolve_transform_op regions (FillRange s target v formula ow) =
     bind_res (resolve_target regions s target) (\<lambda>t. Inr (FillRange s t v formula ow))"
| "resolve_transform_op regions (ReplaceInRange s target pat rep mode cs inc) =
     bind_res (resolve_target regions s target) (\<lambda>t. Inr (ReplaceInRange s t pat rep mode cs inc))"

definition resolve_transform_ops_for_workbook ::
    "(string \<Rightarrow> (u32 \<times> string) list res) \<Rightarrow> transform_op list \<Rightarrow> transform_op list res" where
  "resolve_transform_ops_for_workbook regions = map_res (resolve_transform_op regions)"

text \<open>The formulas of the operations are parsed before anything is written, unless the policy is off:
  a bad one is an error, or it is left out and reported.\<close>

fun checked_row ::
    "formula_lib \<Rightarrow> formula_parse_policy \<Rightarrow> string \<Rightarrow> u32 \<Rightarrow> u32 \<Rightarrow> matrix_cell option list \<Rightarrow> diagnostics_builder
      \<Rightarrow> (matrix_cell option list \<times> diagnostics_builder) res" where
  "checked_row lib policy sheet_name r c [] b = Inr ([], b)"
| "checked_row lib policy sheet_name r c (m # ms) b =
     bind_res
       (case m of
          Some (MatrixFormula f) \<Rightarrow>
            (case validate_formula_text lib f of
               Inr _ \<Rightarrow> Inr (m, b)
             | Inl (Bail e) \<Rightarrow>
                 if policy = PolicyFail
                 then Inl (Bail (formula_parse_failed_prefix @ ''WriteMatrix formula failed at '' @ cell_address c r @ '': '' @ e))
                 else bind_res (record_error lib sheet_name (cell_address c r) f e b) (\<lambda>b. Inr (None, b)))
        | _ \<Rightarrow> Inr (m, b))
       (\<lambda>(m, b). bind_res (checked_row lib policy sheet_name r (u32_wrapping_add c 1) ms b)
         (\<lambda>(ms, b). Inr (m # ms, b)))"

fun checked_rows ::
    "formula_lib \<Rightarrow> formula_parse_policy \<Rightarrow> string \<Rightarrow> u32 \<Rightarrow> u32 \<Rightarrow> matrix_cell option list list \<Rightarrow> diagnostics_builder
      \<Rightarrow> (matrix_cell option list list \<times> diagnostics_builder) res" where
  "checked_rows lib policy sheet_name r c [] b = Inr ([], b)"
| "checked_rows lib policy sheet_name r c (row # rows) b =
     bind_res (checked_row lib policy sheet_name r c row b) (\<lambda>(row, b).
     bind_res (checked_rows lib policy sheet_name (u32_wrapping_add r 1) c rows b) (\<lambda>(rows, b).
     Inr (row # rows, b)))"

text \<open>The operation to apply, if any.\<close>

definition checked_op ::
    "formula_lib \<Rightarrow> coord_lib \<Rightarrow> formula_parse_policy \<Rightarrow> transform_op \<Rightarrow> diagnostics_builder
      \<Rightarrow> (transform_op option \<times> diagnostics_builder) res" where
  "checked_op lib L policy op b =
     (case op of
        FillRange sheet_name _ val formula _ \<Rightarrow>
          if \<not> formula then Inr (Some op, b)
          else (case validate_formula_text lib val of
              Inr _ \<Rightarrow> Inr (Some op, b)
            | Inl (Bail e) \<Rightarrow>
                if policy = PolicyFail
                then Inl (Bail (formula_parse_failed_prefix @ ''FillRange formula failed: '' @ e))
                else bind_res (record_error lib sheet_name ''FillRange'' val e b) (\<lambda>b. Inr (None, b)))
      | WriteMatrix sheet_name anchor rows ow \<Rightarrow>
          bind_res (fork_cell_ref L anchor) (\<lambda>(anchor_col, anchor_row).
          bind_res (checked_rows lib policy sheet_name anchor_row anchor_col rows b) (\<lambda>(rows, b).
          Inr (Some (WriteMatrix sheet_name anchor rows ow), b)))
      | _ \<Rightarrow> Inr (Some op, b))"

definition checked_ops ::
    "formula_lib \<Rightarrow> coord_lib \<Rightarrow> formula_parse_policy \<Rightarrow> transform_op list
      \<Rightarrow> (transform_op list \<times> formula_parse_diagnostics option) res" where
  "checked_ops lib L policy ops =
     (if policy = PolicyOff then Inr (ops, None)
      else bind_res (fold_res (\<lambda>(ok, b) op. bind_res (checked_op lib L policy op b) (\<lambda>(op, b).
          Inr (ok @ (case op of Some op \<Rightarrow> [op] | None \<Rightarrow> []), b))) ([], diagnostics_new policy) ops)
        (\<lambda>(ops, b). Inr (ops, if has_errors b then Some (diagnostics_build b) else None)))"

section \<open>Operations as functions of a cell\<close>

text \<open>What an action does to the cell does not depend on the counts.\<close>

definition counts_only :: "cell_action \<Rightarrow> bool" where
  "counts_only act = (\<forall>oc k. fst (act oc k) = fst (act oc no_counts))"

definition cell_effect :: "cell_action \<Rightarrow> wcell option \<Rightarrow> wcell option" where
  "cell_effect act oc = (case fst (act oc no_counts) of None \<Rightarrow> oc | Some c \<Rightarrow> Some c)"

definition acts_effect :: "(cell_pos \<times> cell_action) list \<Rightarrow> cell_pos \<Rightarrow> wcell option \<Rightarrow> wcell option" where
  "acts_effect acts pos = fold (\<lambda>(p, act) oc. if p = pos then cell_effect act oc else oc) acts"

definition op_effect ::
    "coord_lib \<Rightarrow> (json \<Rightarrow> string) \<Rightarrow> transform_op \<Rightarrow> string \<Rightarrow> cell_pos \<Rightarrow> wcell option \<Rightarrow> wcell option" where
  "op_effect L to_text op n pos oc =
     (case transform_actions L to_text op of
        Inr (acts, _) \<Rightarrow> if n = transform_sheet op then acts_effect acts pos oc else oc
      | Inl _ \<Rightarrow> oc)"

lemma actions_count_only [simp]:
  "counts_only (clear_cell cv cf)" "counts_only (fill_cell v f ow)" "counts_only (replace_cell change inc)"
  "counts_only (matrix_write to_text ow m)"
  by (auto simp: counts_only_def clear_cell_def fill_cell_def replace_cell_def matrix_write_def Let_def
      split: option.splits matrix_cell.splits)

lemma transform_actions_count_only:
  "transform_actions L to_text op = Inr (acts, bounds) \<Longrightarrow> (p, act) \<in> set acts \<Longrightarrow> counts_only act"
  by (cases op) (auto simp: bind_res_Inr bail_if_def split: if_split_asm)

lemma touch_cells_effect:
  "touch_cells acts (sh, k) = (sh', k') \<Longrightarrow> \<forall>(p, act) \<in> set acts. counts_only act \<Longrightarrow>
     sh' = sh \<lparr> sh_cells := sh_cells sh' \<rparr> \<and> bt_get (sh_cells sh') pos = acts_effect acts pos (bt_get (sh_cells sh) pos)"
proof (induction acts arbitrary: sh k)
  case Nil
  then show ?case by (simp add: acts_effect_def)
next
  case (Cons a acts)
  obtain p act where a: "a = (p, act)" by (cases a)
  obtain oc k1 where act: "act (bt_get (sh_cells sh) p) k = (oc, k1)" by fastforce
  from Cons.prems have rest: "touch_cells acts (put_cell p oc sh, k1) = (sh', k')" by (simp add: a act)
  from Cons.prems(2) have "fst (act (bt_get (sh_cells sh) p) no_counts) = oc"
    using act by (simp add: a counts_only_def) (metis fst_conv)
  then have put: "bt_get (sh_cells (put_cell p oc sh)) pos
      = (if p = pos then cell_effect act (bt_get (sh_cells sh) pos) else bt_get (sh_cells sh) pos)"
    by (auto simp: put_cell_def cell_effect_def bt.get_ins split: option.splits)
  have frame: "sh' = put_cell p oc sh \<lparr> sh_cells := sh_cells sh' \<rparr> \<Longrightarrow> sh' = sh \<lparr> sh_cells := sh_cells sh' \<rparr>"
    by (simp add: put_cell_def split: option.splits)
  show ?case using Cons.IH [OF rest] Cons.prems(2) frame
    by (simp add: a put acts_effect_def)
qed

lemma update_sheet_cells:
  assumes "find_sheet bk d = Some sh" and "sh' = sh \<lparr> sh_cells := sh_cells sh' \<rparr>"
  shows "frame_of (update_sheet d (\<lambda>_. sh') bk) = frame_of bk"
    and "cell_in (update_sheet d (\<lambda>_. sh') bk) n pos
      = (if n = d then bt_get (sh_cells sh') pos else cell_in bk n pos)"
proof -
  have "List.find (\<lambda>s. sh_name s = d) ss = Some sh \<Longrightarrow>
      update_sheet_in d (\<lambda>_. sh') ss = update_sheet_in d (\<lambda>s. s \<lparr> sh_cells := sh_cells sh' \<rparr>) ss" for ss
    using assms(2) by (induction ss) (auto split: if_split_asm)
  then have const: "update_sheet d (\<lambda>_. sh') bk = update_sheet d (\<lambda>s. s \<lparr> sh_cells := sh_cells sh' \<rparr>) bk"
    using assms(1) by (simp add: update_sheet_def find_sheet_def)
  show "frame_of (update_sheet d (\<lambda>_. sh') bk) = frame_of bk"
    by (simp add: const frame_of_update)
  show "cell_in (update_sheet d (\<lambda>_. sh') bk) n pos
      = (if n = d then bt_get (sh_cells sh') pos else cell_in bk n pos)"
    using assms(1) by (simp add: const cell_in_def find_sheet_update)
qed

lemma apply_transform_op_effect:
  assumes "apply_transform_op L to_text op run = (run', r)"
  shows "frame_of (tr_book run') = frame_of (tr_book run) \<and>
    cell_in (tr_book run') n pos = (if r = Inr () then op_effect L to_text op n pos (cell_in (tr_book run) n pos)
      else cell_in (tr_book run) n pos)"
proof (cases "find_sheet (tr_book run) (transform_sheet op)")
  case None
  then show ?thesis using assms by (auto simp: apply_transform_op_def)
next
  case sh: (Some sh)
  show ?thesis
  proof (cases "transform_actions L to_text op")
    case (Inl e)
    then show ?thesis using assms sh by (auto simp: apply_transform_op_def Let_def)
  next
    case (Inr ab)
    then obtain acts bounds where acts: "transform_actions L to_text op = Inr (acts, bounds)" by (cases ab) auto
    obtain sh' k where touch: "touch_cells acts (sh, tr_counts run) = (sh', k)" by fastforce
    have effect: "sh' = sh \<lparr> sh_cells := sh_cells sh' \<rparr>
        \<and> bt_get (sh_cells sh') p = acts_effect acts p (bt_get (sh_cells sh) p)" for p
      using touch_cells_effect [OF touch] transform_actions_count_only [OF acts] by blast
    from assms have r: "r = Inr ()" and book: "tr_book run' = update_sheet (transform_sheet op) (\<lambda>_. sh') (tr_book run)"
      using sh acts touch by (auto simp: apply_transform_op_def Let_def)
    show ?thesis
      using update_sheet_cells [OF sh, of sh'] effect sh
      by (simp add: r book op_effect_def acts cell_in_def)
  qed
qed

lemma run_transform_effect:
  "map_step (apply_transform_op L to_text) ops run = (run', r) \<Longrightarrow>
     frame_of (tr_book run') = frame_of (tr_book run)
     \<and> (\<exists>m \<le> length ops. (m = length ops \<or> (\<exists>e. r = Inl e))
       \<and> (\<forall>n pos. cell_in (tr_book run') n pos
           = fold (\<lambda>op. op_effect L to_text op n pos) (take m ops) (cell_in (tr_book run) n pos)))"
proof (induction ops arbitrary: run r)
  case Nil
  then show ?case by (simp add: return_step_def)
next
  case (Cons op ops)
  obtain run1 r1 where one: "apply_transform_op L to_text op run = (run1, r1)" by fastforce
  note effect = apply_transform_op_effect [OF one]
  show ?case
  proof (cases r1)
    case (Inl e)
    with Cons.prems one have "run' = run1" "r = Inl e" by (auto simp: bind_step_def)
    with effect Inl show ?thesis by (intro conjI exI [of _ 0]) auto
  next
    case (Inr u)
    with Cons.prems one obtain r2 where
      rest: "map_step (apply_transform_op L to_text) ops run1 = (run', r2)"
      and r: "\<forall>e. r2 = Inl e \<longrightarrow> r = Inl e"
      by (auto simp: bind_step_def return_step_def split: prod.splits sum.splits)
    from Cons.IH [OF rest] obtain m where m: "m \<le> length ops" "m = length ops \<or> (\<exists>e. r2 = Inl e)"
      "\<forall>n pos. cell_in (tr_book run') n pos
        = fold (\<lambda>op. op_effect L to_text op n pos) (take m ops) (cell_in (tr_book run1) n pos)"
      and frame: "frame_of (tr_book run') = frame_of (tr_book run1)" by blast
    have "frame_of (tr_book run') = frame_of (tr_book run)" using frame effect by simp
    moreover have "Suc m \<le> length (op # ops)" "Suc m = length (op # ops) \<or> (\<exists>e. r = Inl e)" using m r by auto
    moreover have "\<forall>n pos. cell_in (tr_book run') n pos
        = fold (\<lambda>op. op_effect L to_text op n pos) (take (Suc m) (op # ops)) (cell_in (tr_book run) n pos)"
      using m(3) effect Inr by simp
    ultimately show ?thesis by blast
  qed
qed

section \<open>What a batch does\<close>


text \<open>The operations that are told to leave formulas alone.\<close>

fun spares_formulas :: "transform_op \<Rightarrow> bool" where
  "spares_formulas (ClearRange _ _ _ clear_formulas) = (\<not> clear_formulas)"
| "spares_formulas (FillRange _ _ _ formula overwrite_formulas) = (\<not> formula \<and> \<not> overwrite_formulas)"
| "spares_formulas (ReplaceInRange _ _ _ _ _ _ include_formulas) = (\<not> include_formulas)"
| "spares_formulas (WriteMatrix _ _ _ overwrite_formulas) = (\<not> overwrite_formulas)"

lemma spared_cell:
  "is_formula c \<Longrightarrow> cell_effect (clear_cell cv False) (Some c) = Some c"
  "is_formula c \<Longrightarrow> cell_effect (fill_cell v False False) (Some c) = Some c"
  "is_formula c \<Longrightarrow> cell_effect (replace_cell change False) (Some c) = Some c"
  "is_formula c \<Longrightarrow> cell_effect (matrix_write to_text False m) (Some c) = Some c"
  by (auto simp: cell_effect_def clear_cell_def fill_cell_def replace_cell_def matrix_write_def is_formula_def Let_def
      split: option.splits)

lemma acts_effect_same:
  "\<forall>(p, act) \<in> set acts. cell_effect act oc = oc \<Longrightarrow> acts_effect acts pos oc = oc"
  unfolding acts_effect_def by (induction acts) auto

lemma op_effect_spares:
  assumes "spares_formulas op" and "is_formula c"
  shows "op_effect L to_text op n pos (Some c) = Some c"
proof (cases "transform_actions L to_text op")
  case (Inr ab)
  then obtain acts bounds where acts: "transform_actions L to_text op = Inr (acts, bounds)" by (cases ab) auto
  then have "\<forall>(p, act) \<in> set acts. cell_effect act (Some c) = Some c"
    using assms by (cases op) (auto simp: bind_res_Inr bail_if_def spared_cell split: if_split_asm)
  with acts show ?thesis by (simp add: op_effect_def acts_effect_same)
qed (simp add: op_effect_def)

text \<open>Operations told to leave formulas alone never touch one: a cell with a formula is the same
  after the batch, whatever the operations clear, fill, replace or write, and also when one fails.\<close>

theorem transform_spares_formulas:
  assumes "apply_transform_ops_to_workbook L to_text ops bk = (bk', r)"
    and "list_all spares_formulas ops" and "cell_in bk n pos = Some c" and "is_formula c"
  shows "cell_in bk' n pos = Some c"
proof -
  obtain run rs where run: "map_step (apply_transform_op L to_text) ops (transform_start bk) = (run, rs)"
    by fastforce
  with assms(1) have bk': "bk' = tr_book run"
    by (auto simp: apply_transform_ops_to_workbook_def split: sum.splits)
  have "list_all spares_formulas os \<Longrightarrow> fold (\<lambda>op. op_effect L to_text op n pos) os (Some c) = Some c" for os
    by (induction os) (simp_all add: op_effect_spares assms(4))
  moreover have "list_all spares_formulas (take m ops)" for m
    using assms(2) by (auto simp: list_all_iff dest: in_set_takeD)
  moreover obtain m where "cell_in bk' n pos
      = fold (\<lambda>op. op_effect L to_text op n pos) (take m ops) (cell_in bk n pos)"
    using run_transform_effect [OF run] unfolding bk' transform_start_def transform_run.select_convs by blast
  ultimately show ?thesis using assms(3) by simp
qed

section \<open>An example\<close>

definition demo_fill :: transform_op where
  "demo_fill = FillRange ''Data'' (TargetRange ''A1:A2'') ''x'' False False"

lemma demo_fill_actions:
  "transform_actions demo_coords to_text demo_fill
     = Inr ([((1, 1), fill_cell ''x'' False False), ((2, 1), fill_cell ''x'' False False)], [''A1:A2''])"
proof -
  have "parse_range_bounds demo_coords ''A1:A2'' = Inr \<lparr> sb_min_col = 1, sb_max_col = 1, sb_min_row = 1,
     sb_max_row = 2, sb_rows = 2, sb_cols = 1 \<rparr>"
    by (simp add: parse_range_bounds_def fork_cell_ref_def demo_index_eval u32_wrapping_add_def
        u32_wrapping_sub_def)
  moreover have "block_positions 1 2 1 1 = [(1, 1), (2, 1)]" by (simp add: block_positions_def upt_rec)
  ultimately show ?thesis by (simp add: demo_fill_def target_positions_def bind_res_simps)
qed

lemma demo_fill_runs:
  obtains bk' run where "apply_transform_ops_to_workbook demo_coords to_text [demo_fill] demo_book = (bk', Inr run)"
proof -
  have sheet: "transform_sheet demo_fill = ''Data''" "find_sheet demo_book ''Data'' = Some (demo_sheet ''Data'' ''A1'')"
    by (simp_all add: demo_fill_def find_sheet_def demo_book_def demo_sheet_def)
  obtain sh k where "touch_cells [((1, 1), fill_cell ''x'' False False), ((2, 1), fill_cell ''x'' False False)]
      (demo_sheet ''Data'' ''A1'', no_counts) = (sh, k)" by fastforce
  with sheet show thesis
    by (intro that) (simp add: apply_transform_ops_to_workbook_def bind_step_def return_step_def
        apply_transform_op_def transform_start_def demo_fill_actions Let_def del: touch_cells.simps)
qed


theorem transform_spares_formulas_witness:
  "cell_in (fst (apply_transform_ops_to_workbook demo_coords (\<lambda>_. []) [demo_fill] demo_book)) ''Data'' (1, 1)
     = Some \<lparr> wc_value = ''7'', wc_formula = Some ''A1'', wc_style = JNull \<rparr>"
proof -
  obtain bk' run where run: "apply_transform_ops_to_workbook demo_coords (\<lambda>_. []) [demo_fill] demo_book = (bk', Inr run)"
    by (rule demo_fill_runs)
  have "cell_in bk' ''Data'' (1, 1) = Some \<lparr> wc_value = ''7'', wc_formula = Some ''A1'', wc_style = JNull \<rparr>"
    by (rule transform_spares_formulas [OF run])
      (simp_all add: demo_fill_def cell_in_def find_sheet_def demo_book_def demo_sheet_def bt_get_def is_formula_def)
  then show ?thesis by (simp add: run)
qed

end
