(* ===== verification/FormulaReplace.thy ===== *)
theory FormulaReplace
  imports TransformOps
begin

text \<open>
  Replacing text in formulas (\<open>apply_replace_in_formulas_to_workbook\<close> of \<open>tools/fork.rs\<close>). The loop of
  the case-insensitive search has no bound of its own: it is a partial function whose value is
  \<open>None\<close> when it does not end, and so is everything above it. Regular expressions are a parameter.
\<close>

record replace_op =
  rq_sheet_name :: string
  rq_find :: string
  rq_replace :: string
  rq_range :: "string option"
  rq_regex :: bool
  rq_case_sensitive :: bool

record replace_sample =
  rs_address :: string
  rs_before :: string
  rs_after :: string

record replace_result =
  rp_checked :: nat
  rp_changed :: nat
  rp_samples :: "replace_sample list"
  rp_warnings :: "string list"
  rp_diagnostics :: "formula_parse_diagnostics option"

definition replace_sample_limit :: nat where
  "replace_sample_limit = 20"

section \<open>The new formula\<close>

fun find_str :: "string \<Rightarrow> string \<Rightarrow> nat option" where
  "find_str [] p = (if p = [] then Some 0 else None)"
| "find_str (x # xs) p = (if starts_with (x # xs) p then Some 0 else map_option Suc (find_str xs p))"

partial_function (option) replace_loop ::
    "string \<Rightarrow> nat \<Rightarrow> string \<Rightarrow> string \<Rightarrow> string \<Rightarrow> nat \<Rightarrow> string \<Rightarrow> string option" where
  "replace_loop find_lower find_len rep formula formula_lower cursor res =
     (case find_str (drop cursor formula_lower) find_lower of
        None \<Rightarrow> Some (res @ drop cursor formula)
      | Some pos \<Rightarrow> replace_loop find_lower find_len rep formula formula_lower (cursor + pos + find_len)
          (res @ take pos (drop cursor formula) @ rep))"

text \<open>The outer option: whether it returns; the inner one: whether the formula changes.\<close>

definition replace_formula ::
    "(string \<Rightarrow> string \<Rightarrow> string) option \<Rightarrow> replace_op \<Rightarrow> string \<Rightarrow> string option option" where
  "replace_formula compiled op formula =
     (case compiled of
        Some replace_all \<Rightarrow>
          let r = replace_all formula (rq_replace op) in Some (if r \<noteq> formula then Some r else None)
      | None \<Rightarrow>
          if rq_case_sensitive op then
            Some (if contains_str formula (rq_find op)
                  then Some (str_replace (rq_find op) (rq_replace op) formula) else None)
          else
            let find_lower = map to_lower (rq_find op); formula_lower = map to_lower formula in
            if \<not> contains_str formula_lower find_lower then Some None
            else map_option Some
              (replace_loop find_lower (length (rq_find op)) (rq_replace op) formula formula_lower 0 []))"

section \<open>The sheet\<close>

record replace_run =
  rn_sheet :: sheet
  rn_checked :: nat
  rn_changed :: nat
  rn_samples :: "replace_sample list"
  rn_builder :: diagnostics_builder

definition note_change :: "u32 \<Rightarrow> u32 \<Rightarrow> string \<Rightarrow> string \<Rightarrow> replace_run \<Rightarrow> replace_run" where
  "note_change col row before after run =
     run \<lparr> rn_samples := (if length (rn_samples run) < replace_sample_limit
           then rn_samples run @ [\<lparr> rs_address = cell_address col row, rs_before = before, rs_after = after \<rparr>]
           else rn_samples run),
       rn_sheet := update_cell col row (set_formula after) (rn_sheet run), rn_changed := rn_changed run + 1 \<rparr>"

text \<open>A replaced formula is parsed unless the policy is off; one that does not parse is an error, or
  the cell keeps its formula.\<close>

definition accept_formula ::
    "formula_lib \<Rightarrow> formula_parse_policy \<Rightarrow> string \<Rightarrow> u32 \<Rightarrow> u32 \<Rightarrow> string \<Rightarrow> string \<Rightarrow> replace_run
      \<Rightarrow> replace_run \<times> unit res" where
  "accept_formula lib policy sheet_name col row formula next_formula run =
     (case (if policy = PolicyOff then Inr () else validate_formula_text lib next_formula) of
        Inl (Bail e) \<Rightarrow>
          if policy = PolicyFail
          then (run, Inl (Bail (formula_parse_failed_prefix @ ''replaced formula at '' @ cell_address col row
            @ '' failed parse: '' @ e)))
          else (case record_error lib sheet_name (cell_address col row) next_formula e (rn_builder run) of
              Inl e \<Rightarrow> (run, Inl e) | Inr b \<Rightarrow> (run \<lparr> rn_builder := b \<rparr>, Inr ()))
      | Inr _ \<Rightarrow> (note_change col row formula next_formula run, Inr ()))"

definition replace_at ::
    "formula_lib \<Rightarrow> formula_parse_policy \<Rightarrow> (string \<Rightarrow> string \<Rightarrow> string) option \<Rightarrow> replace_op \<Rightarrow> cell_pos \<Rightarrow> replace_run
      \<Rightarrow> (replace_run \<times> unit res) option" where
  "replace_at lib policy compiled op = (\<lambda>(row, col) run.
     (case Option.bind (sheet_cell (rn_sheet run) col row) wc_formula of
        None \<Rightarrow> Some (run, Inr ())
      | Some formula \<Rightarrow>
          if formula = [] then Some (run, Inr ())
          else
            let run = run \<lparr> rn_checked := rn_checked run + 1 \<rparr> in
            (case replace_formula compiled op formula of
               None \<Rightarrow> None
             | Some None \<Rightarrow> Some (run, Inr ())
             | Some (Some next_formula) \<Rightarrow>
                 Some (accept_formula lib policy (rq_sheet_name op) col row formula next_formula run))))"

fun replace_cells ::
    "formula_lib \<Rightarrow> formula_parse_policy \<Rightarrow> (string \<Rightarrow> string \<Rightarrow> string) option \<Rightarrow> replace_op \<Rightarrow> cell_pos list \<Rightarrow> replace_run
      \<Rightarrow> (replace_run \<times> unit res) option" where
  "replace_cells lib policy compiled op [] run = Some (run, Inr ())"
| "replace_cells lib policy compiled op (p # ps) run =
     (case replace_at lib policy compiled op p run of
        None \<Rightarrow> None
      | Some (run, Inl e) \<Rightarrow> Some (run, Inl e)
      | Some (run, Inr _) \<Rightarrow> replace_cells lib policy compiled op ps run)"

definition highest_row :: "sheet \<Rightarrow> u32" where
  "highest_row sh = fold (\<lambda>(pos, _). max (fst pos)) (sh_cells sh) 0"

definition replace_positions :: "coord_lib \<Rightarrow> replace_op \<Rightarrow> sheet \<Rightarrow> cell_pos list res" where
  "replace_positions L op sh =
     (case rq_range op of
        Some rng \<Rightarrow> bind_res (parse_range_bounds L rng) (\<lambda>b.
          Inr (block_positions (sb_min_row b) (sb_max_row b) (sb_min_col b) (sb_max_col b)))
      | None \<Rightarrow> Inr (block_positions 1 (max 1 (highest_row sh)) 1 (max 1 (highest_column sh))))"

definition compile_regex ::
    "(string \<Rightarrow> (string \<Rightarrow> string \<Rightarrow> string) res) \<Rightarrow> replace_op \<Rightarrow> (string \<Rightarrow> string \<Rightarrow> string) option res" where
  "compile_regex regex_new op =
     (if rq_regex op
      then bind_res (regex_new (if rq_case_sensitive op then rq_find op else ''(?i)'' @ rq_find op)) (\<lambda>r. Inr (Some r))
      else Inr None)"

definition replace_start :: "formula_parse_policy \<Rightarrow> sheet \<Rightarrow> replace_run" where
  "replace_start policy sh = \<lparr> rn_sheet = sh, rn_checked = 0, rn_changed = 0, rn_samples = [],
     rn_builder = diagnostics_new policy \<rparr>"

definition replace_end :: "replace_run \<Rightarrow> replace_result" where
  "replace_end run = \<lparr> rp_checked = rn_checked run, rp_changed = rn_changed run, rp_samples = rn_samples run,
     rp_warnings = (if rn_changed run = 0
       then [''WARN_NO_MATCH: no formula text matched the find pattern''] else []),
     rp_diagnostics = (if has_errors (rn_builder run) then Some (diagnostics_build (rn_builder run)) else None) \<rparr>"

definition apply_replace_in_formulas_to_workbook ::
    "formula_lib \<Rightarrow> coord_lib \<Rightarrow> (string \<Rightarrow> (string \<Rightarrow> string \<Rightarrow> string) res) \<Rightarrow> replace_op \<Rightarrow> formula_parse_policy \<Rightarrow> book
      \<Rightarrow> (book \<times> replace_result res) option" where
  "apply_replace_in_formulas_to_workbook lib L regex_new op policy bk =
     (case find_sheet bk (rq_sheet_name op) of
        None \<Rightarrow> Some (bk, Inl (Bail ''sheet not found''))
      | Some sh \<Rightarrow>
          (case bind_res (replace_positions L op sh) (\<lambda>ps.
              bind_res (compile_regex regex_new op) (\<lambda>compiled. Inr (ps, compiled))) of
             Inl e \<Rightarrow> Some (bk, Inl e)
           | Inr (ps, compiled) \<Rightarrow>
               (case replace_cells lib policy compiled op ps (replace_start policy sh) of
                  None \<Rightarrow> None
                | Some (run, r) \<Rightarrow>
                    Some (update_sheet (rq_sheet_name op) (\<lambda>_. rn_sheet run) bk,
                      bind_res r (\<lambda>_. Inr (replace_end run))))))"

section \<open>The search returns\<close>

lemma find_str_bounds: "find_str s p = Some n \<Longrightarrow> n + length p \<le> length s"
proof (induction s p arbitrary: n rule: find_str.induct)
  case (2 x xs p)
  show ?case
  proof (cases "starts_with (x # xs) p")
    case True
    then have "length (take (length p) (x # xs)) = length p" by (simp add: starts_with_def)
    with 2 True show ?thesis by simp
  qed (use 2 in auto)
qed (auto split: if_split_asm)

lemma find_str_contains: "find_str s p \<noteq> None \<longleftrightarrow> contains_str s p"
  by (induction s p rule: find_str.induct) auto

text \<open>What is replaced, on the text that is left.\<close>

function replace_rest :: "string \<Rightarrow> string \<Rightarrow> string \<Rightarrow> string" where
  "replace_rest pat rep s =
     (case find_str (map to_lower s) (map to_lower pat) of
        None \<Rightarrow> s
      | Some pos \<Rightarrow> if pat = [] then s else take pos s @ rep @ replace_rest pat rep (drop (pos + length pat) s))"
  by pat_completeness auto
termination
proof (relation "measure (\<lambda>(pat, rep, s). length s)", goal_cases)
  case (2 pat rep s pos)
  then show ?case using find_str_bounds [of "map to_lower s" "map to_lower pat" pos] by (cases pat) auto
qed auto

declare replace_rest.simps [simp del]

lemma replace_loop_rest:
  assumes "pat \<noteq> []"
  shows "replace_loop (map to_lower pat) (length pat) rep s (map to_lower s) cursor res
    = Some (res @ replace_rest pat rep (drop cursor s))"
proof (induction "length s - cursor" arbitrary: cursor res rule: less_induct)
  case less
  show ?case
  proof (cases "find_str (drop cursor (map to_lower s)) (map to_lower pat)")
    case None
    then show ?thesis
      by (simp add: replace_loop.simps replace_rest.simps [of pat rep "drop cursor s"] drop_map)
  next
    case (Some pos)
    from find_str_bounds [OF Some] assms
    have "length s - (cursor + pos + length pat) < length s - cursor" by (cases pat) auto
    note IH = less [OF this]
    show ?thesis
      using Some assms IH
      by (subst replace_loop.simps) (simp add: replace_rest.simps [of pat rep "drop cursor s"] drop_map add_ac)
  qed
qed

lemma replace_loop_empty: "replace_loop [] 0 rep s sl cursor res = None"
proof -
  have empty: "find_str t [] = Some 0" for t by (cases t) (simp_all add: starts_with_def)
  have "\<not> (fl = [] \<and> n = 0)" if "replace_loop fl n rep s sl cursor res = Some y" for fl n y
    by (rule replace_loop.raw_induct [where P = "\<lambda>fl n rep s sl cursor res y. \<not> (fl = [] \<and> n = 0)", OF _ that])
      (auto simp: empty)
  then show ?thesis by (metis not_None_eq)
qed

text \<open>What a formula becomes, without a loop; \<open>None\<close> when it stays.\<close>

definition new_formula :: "(string \<Rightarrow> string \<Rightarrow> string) option \<Rightarrow> replace_op \<Rightarrow> string \<Rightarrow> string option" where
  "new_formula compiled op formula =
     (case compiled of
        Some replace_all \<Rightarrow>
          if replace_all formula (rq_replace op) = formula then None else Some (replace_all formula (rq_replace op))
      | None \<Rightarrow>
          if rq_case_sensitive op \<and> contains_str formula (rq_find op)
          then Some (str_replace (rq_find op) (rq_replace op) formula)
          else if \<not> rq_case_sensitive op \<and> contains_str (map to_lower formula) (map to_lower (rq_find op))
          then Some (replace_rest (rq_find op) (rq_replace op) formula) else None)"

definition has_bounded_search :: "replace_op \<Rightarrow> bool" where
  "has_bounded_search op = (rq_find op \<noteq> [] \<or> rq_case_sensitive op \<or> rq_regex op)"

lemma replace_formula_new:
  "compiled \<noteq> None \<or> rq_case_sensitive op \<or> rq_find op \<noteq> [] \<Longrightarrow>
     replace_formula compiled op formula = Some (new_formula compiled op formula)"
  using replace_loop_rest [of "rq_find op" "rq_replace op" formula 0 "[]"]
  by (cases compiled) (auto simp: replace_formula_def new_formula_def Let_def)

text \<open>C24: the search in a formula never returns exactly when it is a plain search, without regard to
  case, for the empty text; in every other case it returns.\<close>

theorem replace_formula_returns:
  "(replace_formula compiled op formula = None)
     = (compiled = None \<and> \<not> rq_case_sensitive op \<and> rq_find op = [])"
proof (cases "compiled \<noteq> None \<or> rq_case_sensitive op \<or> rq_find op \<noteq> []")
  case True
  then show ?thesis by (auto simp: replace_formula_new)
next
  case False
  moreover have "contains_str s []" for s by (cases s) (simp_all add: starts_with_def)
  ultimately show ?thesis by (simp add: replace_formula_def replace_loop_empty)
qed

section \<open>The cells after a replacement\<close>

definition replaced_cell ::
    "formula_lib \<Rightarrow> formula_parse_policy \<Rightarrow> (string \<Rightarrow> string \<Rightarrow> string) option \<Rightarrow> replace_op \<Rightarrow> wcell \<Rightarrow> wcell" where
  "replaced_cell lib policy compiled op c =
     (case Option.bind (wc_formula c) (\<lambda>f. if f = [] then None else new_formula compiled op f) of
        None \<Rightarrow> c
      | Some g \<Rightarrow>
          if policy = PolicyOff \<or> is_ok (validate_formula_text lib g) then set_formula g c else c)"

lemma replace_at_cell:
  assumes "replace_at lib policy compiled op p run = Some (run', r)"
    and "compiled \<noteq> None \<or> rq_case_sensitive op \<or> rq_find op \<noteq> []"
  shows "rn_sheet run' = rn_sheet run \<lparr> sh_cells := sh_cells (rn_sheet run') \<rparr>"
    and "r = Inr () \<Longrightarrow> bt_get (sh_cells (rn_sheet run')) q
      = (if q = p then map_option (replaced_cell lib policy compiled op) (bt_get (sh_cells (rn_sheet run)) q)
         else bt_get (sh_cells (rn_sheet run)) q)"
proof -
  obtain row col where p: "p = (row, col)" by (cases p)
  note defs = replace_at_def p replace_formula_new [OF assms(2)] accept_formula_def note_change_def
    update_cell_def sheet_cell_def Let_def
  show "rn_sheet run' = rn_sheet run \<lparr> sh_cells := sh_cells (rn_sheet run') \<rparr>"
    using assms(1) by (auto simp: defs split: option.splits if_splits sum.splits err.splits)
  show "r = Inr () \<Longrightarrow> bt_get (sh_cells (rn_sheet run')) q
      = (if q = p then map_option (replaced_cell lib policy compiled op) (bt_get (sh_cells (rn_sheet run)) q)
         else bt_get (sh_cells (rn_sheet run)) q)"
    using assms(1)
    by (cases "bt_get (sh_cells (rn_sheet run)) p")
      (auto simp: defs replaced_cell_def bt.get_ins is_ok_def split: option.splits if_splits sum.splits err.splits)
qed

lemma replace_cells_run:
  "replace_cells lib policy compiled op ps run = Some (run', r) \<Longrightarrow>
     compiled \<noteq> None \<or> rq_case_sensitive op \<or> rq_find op \<noteq> [] \<Longrightarrow>
     rn_sheet run' = rn_sheet run \<lparr> sh_cells := sh_cells (rn_sheet run') \<rparr>
     \<and> (distinct ps \<longrightarrow> r = Inr () \<longrightarrow> (\<forall>q. bt_get (sh_cells (rn_sheet run')) q
      = (if q \<in> set ps then map_option (replaced_cell lib policy compiled op) (bt_get (sh_cells (rn_sheet run)) q)
         else bt_get (sh_cells (rn_sheet run)) q)))"
proof (induction ps arbitrary: run)
  case Nil
  then show ?case by simp
next
  case (Cons p ps)
  obtain run1 r1 where one: "replace_at lib policy compiled op p run = Some (run1, r1)"
    using Cons.prems(1) by (auto split: option.splits)
  note step = replace_at_cell [OF one Cons.prems(2)]
  show ?case
  proof (cases r1)
    case (Inl e)
    with Cons.prems(1) one step(1) show ?thesis by auto
  next
    case (Inr u)
    with Cons.prems(1) one have rest: "replace_cells lib policy compiled op ps run1 = Some (run', r)" by simp
    note IH = Cons.IH [OF rest Cons.prems(2)]
    have "rn_sheet run' = rn_sheet run \<lparr> sh_cells := sh_cells (rn_sheet run') \<rparr>"
      using IH step(1) by (metis sheet.update_convs(2) sheet.surjective)
    moreover have "\<forall>q. bt_get (sh_cells (rn_sheet run')) q
        = (if q \<in> set (p # ps) then map_option (replaced_cell lib policy compiled op) (bt_get (sh_cells (rn_sheet run)) q)
           else bt_get (sh_cells (rn_sheet run)) q)" if "distinct (p # ps)" "r = Inr ()"
      using IH step(2) Inr that by auto
    ultimately show ?thesis by blast
  qed
qed

lemma replace_cells_returns:
  "compiled \<noteq> None \<or> rq_case_sensitive op \<or> rq_find op \<noteq> [] \<Longrightarrow>
     \<exists>run' r. replace_cells lib policy compiled op ps run = Some (run', r)"
proof (induction ps arbitrary: run)
  case (Cons p ps)
  have "replace_at lib policy compiled op p run \<noteq> None"
    using replace_formula_new [OF Cons.prems]
    by (auto simp: replace_at_def case_prod_unfold Let_def split: option.splits)
  then obtain run1 r1 where "replace_at lib policy compiled op p run = Some (run1, r1)" by auto
  with Cons show ?case by (cases r1) auto
qed simp

lemma distinct_block_positions: "distinct (block_positions min_row max_row min_col max_col)"
proof -
  have "distinct (concat (map (\<lambda>row. map (\<lambda>col. (row, col)) cols) rows))" if "distinct rows" "distinct cols"
    for rows cols :: "nat list"
    using that by (induction rows) (auto simp: distinct_map inj_on_def)
  then show ?thesis unfolding block_positions_def by (simp del: upt_Suc)
qed

lemma replace_positions_distinct: "replace_positions L op sh = Inr ps \<Longrightarrow> distinct ps"
  by (auto simp: replace_positions_def bind_res_Inr distinct_block_positions split: option.splits)

lemma compile_regex_some: "compile_regex regex_new op = Inr compiled \<Longrightarrow> has_bounded_search op \<Longrightarrow>
    compiled \<noteq> None \<or> rq_case_sensitive op \<or> rq_find op \<noteq> []"
  by (auto simp: compile_regex_def bind_res_Inr has_bounded_search_def split: if_split_asm)

text \<open>C22: replacing in formulas returns whenever the search in a formula does, and then keeps everything
  but the cells of the sheet; when it succeeds, exactly the formulas of the range (or of the used range)
  that match are rewritten, and with a parse policy only to formulas that parse; every other cell is
  as before.\<close>

theorem replace_in_formulas_correct:
  assumes "has_bounded_search op"
  shows "\<exists>bk' r. apply_replace_in_formulas_to_workbook lib L regex_new op policy bk = Some (bk', r)
    \<and> frame_of bk' = frame_of bk
    \<and> (is_ok r \<longrightarrow> (\<exists>sh ps compiled. find_sheet bk (rq_sheet_name op) = Some sh
        \<and> replace_positions L op sh = Inr ps \<and> compile_regex regex_new op = Inr compiled
        \<and> (\<forall>n pos. cell_in bk' n pos = (if n = rq_sheet_name op \<and> pos \<in> set ps
             then map_option (replaced_cell lib policy compiled op) (cell_in bk n pos) else cell_in bk n pos))))"
proof (cases "find_sheet bk (rq_sheet_name op)")
  case None
  then show ?thesis by (simp add: apply_replace_in_formulas_to_workbook_def is_ok_def)
next
  case sh: (Some sh)
  show ?thesis
  proof (cases "bind_res (replace_positions L op sh) (\<lambda>ps.
              bind_res (compile_regex regex_new op) (\<lambda>compiled. Inr (ps, compiled)))")
    case (Inl e)
    with sh show ?thesis by (simp add: apply_replace_in_formulas_to_workbook_def is_ok_def)
  next
    case (Inr pc)
    then obtain ps compiled where pc: "pc = (ps, compiled)" and ps: "replace_positions L op sh = Inr ps"
      and compiled: "compile_regex regex_new op = Inr compiled" by (auto simp: bind_res_Inr)
    note bounded = compile_regex_some [OF compiled assms]
    from replace_cells_returns [OF bounded] obtain run r where
      run: "replace_cells lib policy compiled op ps (replace_start policy sh) = Some (run, r)" by blast
    note cells = replace_cells_run [OF run bounded]
    then have frame: "rn_sheet run = sh \<lparr> sh_cells := sh_cells (rn_sheet run) \<rparr>" by (simp add: replace_start_def)
    have "apply_replace_in_formulas_to_workbook lib L regex_new op policy bk
        = Some (update_sheet (rq_sheet_name op) (\<lambda>_. rn_sheet run) bk, bind_res r (\<lambda>_. Inr (replace_end run)))"
      using sh Inr run by (simp add: apply_replace_in_formulas_to_workbook_def pc)
    moreover have "cell_in (update_sheet (rq_sheet_name op) (\<lambda>_. rn_sheet run) bk) n pos
        = (if n = rq_sheet_name op \<and> pos \<in> set ps
             then map_option (replaced_cell lib policy compiled op) (cell_in bk n pos) else cell_in bk n pos)"
      if "is_ok (bind_res r (\<lambda>_. Inr (replace_end run)))" for n pos
    proof -
      from that have "r = Inr ()" by (cases r) (auto simp: is_ok_def)
      with cells replace_positions_distinct [OF ps]
      have "bt_get (sh_cells (rn_sheet run)) pos = (if pos \<in> set ps
          then map_option (replaced_cell lib policy compiled op) (bt_get (sh_cells sh) pos)
          else bt_get (sh_cells sh) pos)"
        by (metis replace_run.select_convs(1) replace_start_def)
      then show ?thesis by (simp add: update_sheet_cells(2) [OF sh frame]) (simp add: cell_in_def sh)
    qed
    ultimately show ?thesis using sh ps compiled update_sheet_cells(1) [OF sh frame] by auto
  qed
qed

text \<open>The first sheet of the example, with \<open>a\<close> in its formula replaced by \<open>B\<close> without regard to case.\<close>

definition demo_replace :: replace_op where
  "demo_replace = \<lparr> rq_sheet_name = ''Data'', rq_find = ''a'', rq_replace = ''B'', rq_range = None,
     rq_regex = False, rq_case_sensitive = False \<rparr>"

definition no_regex :: "string \<Rightarrow> (string \<Rightarrow> string \<Rightarrow> string) res" where
  "no_regex _ = Inl (Bail ''regex'')"

lemma demo_replace_runs:
  "replace_positions demo_coords demo_replace (demo_sheet ''Data'' ''A1'') = Inr [(1, 1)]"
  "compile_regex no_regex demo_replace = Inr None"
  "find_sheet demo_book (rq_sheet_name demo_replace) = Some (demo_sheet ''Data'' ''A1'')"
  "new_formula None demo_replace ''A1'' = Some ''B1''"
proof -
  have lower: "to_lower CHR ''A'' = CHR ''a''" "map to_lower ''1'' = ''1''" "map to_lower ''a'' = ''a''"
    by (simp_all add: to_lower_def is_upper_def ord_of_def char_of_def bit_Suc_0_iff)
  then show "new_formula None demo_replace ''A1'' = Some ''B1''"
    by (simp add: new_formula_def demo_replace_def replace_rest.simps starts_with_def)
qed (simp_all add: replace_positions_def demo_replace_def highest_row_def highest_column_def demo_sheet_def
    demo_book_def find_sheet_def block_positions_def compile_regex_def)

theorem replace_in_formulas_correct_witness:
  "\<exists>bk' r. apply_replace_in_formulas_to_workbook demo_formulas demo_coords no_regex demo_replace PolicyOff
      demo_book = Some (bk', Inr r)
    \<and> cell_in bk' ''Data'' (1, 1) = Some \<lparr> wc_value = [], wc_formula = Some ''B1'', wc_style = JNull \<rparr>"
proof -
  have "has_bounded_search demo_replace" by (simp add: has_bounded_search_def demo_replace_def)
  note correct = replace_in_formulas_correct [OF this, of demo_formulas demo_coords no_regex PolicyOff demo_book]
  then obtain bk' r where run: "apply_replace_in_formulas_to_workbook demo_formulas demo_coords no_regex
      demo_replace PolicyOff demo_book = Some (bk', r)" by blast
  have "replace_formula None demo_replace ''A1'' = Some (Some ''B1'')"
    by (subst replace_formula_new) (simp_all add: demo_replace_runs, simp add: demo_replace_def)
  moreover have "Option.bind (sheet_cell (demo_sheet ''Data'' ''A1'') 1 1) wc_formula = Some ''A1''"
    by (simp add: sheet_cell_def bt_get_def demo_sheet_def)
  ultimately have "is_ok r"
    using run by (auto simp: apply_replace_in_formulas_to_workbook_def demo_replace_runs replace_start_def
        replace_at_def accept_formula_def Let_def is_ok_def)
  then obtain rr where r: "r = Inr rr" by (cases r) (auto simp: is_ok_def)
  with correct run have cells: "cell_in bk' ''Data'' (1, 1)
      = map_option (replaced_cell demo_formulas PolicyOff None demo_replace) (cell_in demo_book ''Data'' (1, 1))"
    by (auto simp: demo_replace_runs is_ok_def) (auto simp: demo_replace_def)
  have "cell_in demo_book ''Data'' (1, 1) = Some \<lparr> wc_value = ''7'', wc_formula = Some ''A1'', wc_style = JNull \<rparr>"
    by (simp add: cell_in_def find_sheet_def demo_book_def demo_sheet_def bt_get_def)
  then have "cell_in bk' ''Data'' (1, 1) = Some \<lparr> wc_value = [], wc_formula = Some ''B1'', wc_style = JNull \<rparr>"
    using cells by (simp add: replaced_cell_def demo_replace_runs set_formula_def)
  then show ?thesis using run r by blast
qed

end
