(* ===== verification/WorkbookDiff.thy ===== *)
theory WorkbookDiff
  imports Addresses BTree "HOL-Library.Multiset"
begin

text \<open>
  The comparison of two workbooks (\<open>diff/merge.rs\<close>, \<open>diff/names.rs\<close>, \<open>diff/tables.rs\<close>): the merge of
  two streams of cells, and the changes of the defined names and of the tables. Whether two texts that
  are both numbers are within the tolerance is a parameter, as is the order in which the keys of a
  hash map are enumerated.
\<close>

section \<open>Cells\<close>

record raw_cell =
  rc_address :: cell_addr
  rc_value :: "string option"
  rc_formula :: "string option"
  rc_style :: "u32 option"

datatype modification = FormulaEdit | RecalcResult | ValueEdit | StyleEdit

record modified_cell =
  mo_address :: string
  mo_subtype :: modification
  mo_old_value :: "string option"
  mo_new_value :: "string option"
  mo_old_formula :: "string option"
  mo_new_formula :: "string option"
  mo_old_style :: "u32 option"
  mo_new_style :: "u32 option"

datatype cell_diff =
    CellAdded string "string option" "string option"
  | CellDeleted string "string option"
  | CellModified modified_cell

text \<open>\<open>close a b\<close>: \<open>None\<close> unless both texts are numbers, then whether they differ by less than the
  tolerance.\<close>

definition values_equal :: "(string \<Rightarrow> string \<Rightarrow> bool option) \<Rightarrow> string option \<Rightarrow> string option \<Rightarrow> bool" where
  "values_equal close a b =
     (case (a, b) of
        (None, None) \<Rightarrow> True
      | (Some a, Some b) \<Rightarrow> (case close a b of Some r \<Rightarrow> r | None \<Rightarrow> a = b)
      | _ \<Rightarrow> False)"

definition compare_cells ::
    "(string \<Rightarrow> string \<Rightarrow> bool option) \<Rightarrow> raw_cell \<Rightarrow> raw_cell \<Rightarrow> cell_diff option" where
  "compare_cells close base fork =
     (let formula_changed = (rc_formula base \<noteq> rc_formula fork);
          value_changed = (\<not> values_equal close (rc_value base) (rc_value fork));
          style_changed = (rc_style base \<noteq> rc_style fork)
      in if \<not> formula_changed \<and> \<not> value_changed \<and> \<not> style_changed then None
         else map_option (\<lambda>subtype. CellModified
             \<lparr> mo_address = ca_original (rc_address fork), mo_subtype = subtype,
               mo_old_value = rc_value base, mo_new_value = rc_value fork,
               mo_old_formula = rc_formula base, mo_new_formula = rc_formula fork,
               mo_old_style = (if style_changed then rc_style base else None),
               mo_new_style = (if style_changed then rc_style fork else None) \<rparr>)
           (if style_changed \<and> \<not> formula_changed \<and> \<not> value_changed then Some StyleEdit
            else (case (formula_changed, value_changed, rc_formula fork \<noteq> None) of
                (True, _, _) \<Rightarrow> Some FormulaEdit
              | (False, True, True) \<Rightarrow> Some RecalcResult
              | (False, True, False) \<Rightarrow> Some ValueEdit
              | _ \<Rightarrow> None)))"

definition cell_added :: "raw_cell \<Rightarrow> cell_diff" where
  "cell_added f = CellAdded (ca_original (rc_address f)) (rc_value f) (rc_formula f)"

definition cell_deleted :: "raw_cell \<Rightarrow> cell_diff" where
  "cell_deleted b = CellDeleted (ca_original (rc_address b)) (rc_value b)"

text \<open>The merge of the two streams; an error of a stream is seen when it comes to its head.\<close>

function diff_streams ::
    "(string \<Rightarrow> string \<Rightarrow> bool option) \<Rightarrow> raw_cell res list \<Rightarrow> raw_cell res list \<Rightarrow> cell_diff list res" where
  "diff_streams close (Inl e # bs) fs = Inl e"
| "diff_streams close [] (Inl e # fs) = Inl e"
| "diff_streams close (Inr b # bs) (Inl e # fs) = Inl e"
| "diff_streams close [] [] = Inr []"
| "diff_streams close (Inr b # bs) [] =
     bind_res (diff_streams close bs []) (\<lambda>ds. Inr (cell_deleted b # ds))"
| "diff_streams close [] (Inr f # fs) =
     bind_res (diff_streams close [] fs) (\<lambda>ds. Inr (cell_added f # ds))"
| "diff_streams close (Inr b # bs) (Inr f # fs) =
     (case cell_addr_cmp (rc_address b) (rc_address f) of
        Less \<Rightarrow> bind_res (diff_streams close bs (Inr f # fs)) (\<lambda>ds. Inr (cell_deleted b # ds))
      | Greater \<Rightarrow> bind_res (diff_streams close (Inr b # bs) fs) (\<lambda>ds. Inr (cell_added f # ds))
      | Equal \<Rightarrow> bind_res (diff_streams close bs fs) (\<lambda>ds.
          Inr (case compare_cells close b f of Some d \<Rightarrow> d # ds | None \<Rightarrow> ds)))"
  by pat_completeness auto
termination
  by (relation "measure (\<lambda>(close, bs, fs). length bs + length fs)") auto

section \<open>Defined names\<close>

type_synonym name_key = "string \<times> u32 option"

record named_formula =
  nf_formula :: string
  nf_hidden :: bool

datatype name_diff =
    NameAdded string string "string option"
  | NameDeleted string "string option"
  | NameModified string "string option" string string

fun name_of_diff :: "name_diff \<Rightarrow> string" where
  "name_of_diff (NameAdded name _ _) = name"
| "name_of_diff (NameDeleted name _) = name"
| "name_of_diff (NameModified name _ _ _) = name"

definition name_change ::
    "(name_key \<rightharpoonup> named_formula) \<Rightarrow> (name_key \<rightharpoonup> named_formula) \<Rightarrow> (u32 \<rightharpoonup> string) \<Rightarrow> name_key \<Rightarrow> name_diff option" where
  "name_change base fork sheets key =
     (if option_all nf_hidden (base key) \<and> base key \<noteq> None \<or> option_all nf_hidden (fork key) \<and> fork key \<noteq> None then None
      else let scope = Option.bind (snd key) sheets in
        (case (base key, fork key) of
           (None, Some f) \<Rightarrow> Some (NameAdded (fst key) (nf_formula f) scope)
         | (Some _, None) \<Rightarrow> Some (NameDeleted (fst key) scope)
         | (Some b, Some f) \<Rightarrow>
             if nf_formula b \<noteq> nf_formula f
             then Some (NameModified (fst key) scope (nf_formula b) (nf_formula f)) else None
         | (None, None) \<Rightarrow> None))"

text \<open>\<open>all_keys\<close> is the enumeration of the keys of both maps.\<close>

definition diff_names ::
    "name_key list \<Rightarrow> (name_key \<rightharpoonup> named_formula) \<Rightarrow> (name_key \<rightharpoonup> named_formula) \<Rightarrow> (u32 \<rightharpoonup> string) \<Rightarrow> name_diff list" where
  "diff_names all_keys base fork sheets =
     sort_key name_of_diff (List.map_filter (name_change base fork sheets) all_keys)"

section \<open>Tables\<close>

record table_info =
  ti_display_name :: string
  ti_range :: string
  ti_sheet :: string

datatype table_diff =
    TableAdded string string string
  | TableDeleted string string
  | TableModified string string string string

fun table_of_diff :: "table_diff \<Rightarrow> string" where
  "table_of_diff (TableAdded name _ _) = name"
| "table_of_diff (TableDeleted name _) = name"
| "table_of_diff (TableModified name _ _ _) = name"

definition table_change ::
    "(string \<rightharpoonup> table_info) \<Rightarrow> (string \<rightharpoonup> table_info) \<Rightarrow> string \<Rightarrow> table_diff option" where
  "table_change base fork key =
     (case (base key, fork key) of
        (None, Some f) \<Rightarrow> Some (TableAdded (ti_display_name f) (ti_sheet f) (ti_range f))
      | (Some b, None) \<Rightarrow> Some (TableDeleted (ti_display_name b) (ti_sheet b))
      | (Some b, Some f) \<Rightarrow>
          if ti_range b \<noteq> ti_range f
          then Some (TableModified (ti_display_name b) (ti_sheet b) (ti_range b) (ti_range f)) else None
      | (None, None) \<Rightarrow> None)"

definition diff_tables ::
    "string list \<Rightarrow> (string \<rightharpoonup> table_info) \<Rightarrow> (string \<rightharpoonup> table_info) \<Rightarrow> table_diff list" where
  "diff_tables all_keys base fork =
     sort_key table_of_diff (List.map_filter (table_change base fork) all_keys)"

section \<open>The merge compares position by position\<close>

definition addr_pos :: "raw_cell \<Rightarrow> u32 \<times> u32" where
  "addr_pos c = (ca_row (rc_address c), ca_col (rc_address c))"

definition cell_at :: "raw_cell list \<Rightarrow> u32 \<times> u32 \<Rightarrow> raw_cell option" where
  "cell_at cs p = List.find (\<lambda>c. addr_pos c = p) cs"

definition diff_at ::
    "(string \<Rightarrow> string \<Rightarrow> bool option) \<Rightarrow> raw_cell option \<Rightarrow> raw_cell option \<Rightarrow> cell_diff option" where
  "diff_at close ob orig =
     (case (ob, orig) of
        (None, None) \<Rightarrow> None
      | (Some b, None) \<Rightarrow> Some (cell_deleted b)
      | (None, Some f) \<Rightarrow> Some (cell_added f)
      | (Some b, Some f) \<Rightarrow> compare_cells close b f)"

definition in_order :: "raw_cell list \<Rightarrow> bool" where
  "in_order cs = sorted_wrt (<) (map addr_pos cs)"

definition diff_by_position ::
    "(string \<Rightarrow> string \<Rightarrow> bool option) \<Rightarrow> raw_cell list \<Rightarrow> raw_cell list \<Rightarrow> cell_diff list" where
  "diff_by_position close bs fs =
     List.map_filter (\<lambda>p. diff_at close (cell_at bs p) (cell_at fs p))
       (sorted_list_of_set (addr_pos ` set bs \<union> addr_pos ` set fs))"

lemma sorted_list_of_set_least:
  assumes "finite A" and "\<And>q. q \<in> A \<Longrightarrow> p < q"
  shows "sorted_list_of_set (insert p A) = p # sorted_list_of_set A"
proof -
  have "p \<notin> A" using assms(2) by blast
  then show ?thesis using assms by (simp add: insort_is_Cons less_imp_le)
qed

lemma map_filter_cong:
  "(\<And>x. x \<in> set xs \<Longrightarrow> f x = g x) \<Longrightarrow> List.map_filter f xs = List.map_filter g xs"
  by (induction xs) (auto split: option.splits)

lemma cell_addr_cmp_pos:
  "cell_addr_cmp (rc_address b) (rc_address f) =
     (if addr_pos b < addr_pos f then Less else if addr_pos b = addr_pos f then Equal else Greater)"
  by (auto simp: cell_addr_cmp_def u32_cmp_def addr_pos_def)

lemma in_order_Cons: "in_order (c # cs) \<longleftrightarrow> (\<forall>q \<in> addr_pos ` set cs. addr_pos c < q) \<and> in_order cs"
  by (auto simp: in_order_def)

text \<open>The first position of the union comes first in the reference.\<close>

lemma diff_by_position_step:
  assumes "\<And>q. q \<in> addr_pos ` set bs \<union> addr_pos ` set fs \<Longrightarrow> p < q"
    and "\<And>q. q \<noteq> p \<Longrightarrow> cell_at bs' q = cell_at bs q \<and> cell_at fs' q = cell_at fs q"
    and "addr_pos ` set bs' \<union> addr_pos ` set fs' = insert p (addr_pos ` set bs \<union> addr_pos ` set fs)"
  shows "diff_by_position close bs' fs' =
    (case diff_at close (cell_at bs' p) (cell_at fs' p) of Some d \<Rightarrow> [d] | None \<Rightarrow> []) @ diff_by_position close bs fs"
proof -
  let ?S = "addr_pos ` set bs \<union> addr_pos ` set fs"
  have rest: "List.map_filter (\<lambda>q. diff_at close (cell_at bs' q) (cell_at fs' q)) (sorted_list_of_set ?S)
      = List.map_filter (\<lambda>q. diff_at close (cell_at bs q) (cell_at fs q)) (sorted_list_of_set ?S)"
  proof (intro map_filter_cong)
    fix q assume "q \<in> set (sorted_list_of_set ?S)"
    then have "p < q" using assms(1) by simp
    then show "diff_at close (cell_at bs' q) (cell_at fs' q) = diff_at close (cell_at bs q) (cell_at fs q)"
      using assms(2) [of q] by simp
  qed
  have keys: "sorted_list_of_set (insert p ?S) = p # sorted_list_of_set ?S"
    by (rule sorted_list_of_set_least) (simp, rule assms(1))
  show ?thesis
    unfolding diff_by_position_def assms(3) keys using rest by (simp split: option.splits)
qed

lemma cell_at_Cons: "cell_at (c # cs) p = (if addr_pos c = p then Some c else cell_at cs p)"
  by (simp add: cell_at_def)

lemma cell_at_before: "(\<And>c. c \<in> set cs \<Longrightarrow> p < addr_pos c) \<Longrightarrow> cell_at cs p = None"
  unfolding cell_at_def find_None_iff by (metis less_irrefl)

lemma diff_by_position_deleted:
  assumes "\<And>c. c \<in> set bs \<union> set fs \<Longrightarrow> addr_pos b < addr_pos c"
  shows "diff_by_position close (b # bs) fs = cell_deleted b # diff_by_position close bs fs"
  using assms cell_at_before [of bs "addr_pos b"] cell_at_before [of fs "addr_pos b"]
  by (subst diff_by_position_step [of bs fs "addr_pos b"]) (auto simp: cell_at_Cons diff_at_def)

lemma diff_by_position_added:
  assumes "\<And>c. c \<in> set bs \<union> set fs \<Longrightarrow> addr_pos f < addr_pos c"
  shows "diff_by_position close bs (f # fs) = cell_added f # diff_by_position close bs fs"
  using assms cell_at_before [of bs "addr_pos f"] cell_at_before [of fs "addr_pos f"]
  by (subst diff_by_position_step [of bs fs "addr_pos f"]) (auto simp: cell_at_Cons diff_at_def)

lemma diff_by_position_both:
  assumes "\<And>c. c \<in> set bs \<union> set fs \<Longrightarrow> addr_pos f < addr_pos c" and "addr_pos b = addr_pos f"
  shows "diff_by_position close (b # bs) (f # fs) =
    (case compare_cells close b f of Some d \<Rightarrow> [d] | None \<Rightarrow> []) @ diff_by_position close bs fs"
  using assms by (subst diff_by_position_step [of bs fs "addr_pos f"]) (auto simp: cell_at_Cons diff_at_def)

text \<open>Comparing two sheets by merging their streams of cells is comparing them position by position:
  for streams in row-major order the result lists, in that order, every position where only one sheet
  has a cell and every position where the two cells differ, and nothing else.\<close>

lemma diff_streams_by_position:
  assumes "in_order bs" and "in_order fs"
  shows "diff_streams close (map Inr bs) (map Inr fs) = Inr (diff_by_position close bs fs)"
  using assms
proof (induction "length bs + length fs" arbitrary: bs fs rule: less_induct)
  case less
  note IH = less.hyps
  show ?case
  proof (cases bs)
    case Nil
    show ?thesis
    proof (cases fs)
      case (Cons f fs')
      with less.prems have "in_order []" "in_order fs'" "\<And>c. c \<in> set fs' \<Longrightarrow> addr_pos f < addr_pos c"
        by (simp_all add: in_order_Cons in_order_def [of "[]"])
      moreover from this have "diff_by_position close [] fs = cell_added f # diff_by_position close [] fs'"
        unfolding Cons by (intro diff_by_position_added) auto
      ultimately show ?thesis using IH [of "[]" fs'] by (simp add: Nil Cons)
    qed (simp add: Nil diff_by_position_def)
  next
    case b: (Cons b bs')
    show ?thesis
    proof (cases fs)
      case Nil
      with less.prems have "in_order []" "in_order bs'" "\<And>c. c \<in> set bs' \<Longrightarrow> addr_pos b < addr_pos c"
        by (simp_all add: b in_order_Cons)
      moreover from this have "diff_by_position close bs [] = cell_deleted b # diff_by_position close bs' []"
        unfolding b by (intro diff_by_position_deleted) auto
      ultimately show ?thesis using IH [of bs' "[]"] by (simp add: Nil b)
    next
      case f: (Cons f fs')
      from less.prems have above: "\<And>c. c \<in> set bs' \<Longrightarrow> addr_pos b < addr_pos c"
        "\<And>c. c \<in> set fs' \<Longrightarrow> addr_pos f < addr_pos c" and order: "in_order bs'" "in_order fs'"
        by (simp_all add: b f in_order_Cons)
      consider "addr_pos b < addr_pos f" | "addr_pos b = addr_pos f" | "addr_pos f < addr_pos b" by fastforce
      then show ?thesis
      proof cases
        case 1
        then show ?thesis using IH [of bs' fs] less.prems order above
          by (subst b, subst diff_by_position_deleted) (auto simp: b f cell_addr_cmp_pos dest: less_trans)
      next
        case 2
        moreover from this above have "diff_by_position close bs fs =
            (case compare_cells close b f of Some d \<Rightarrow> [d] | None \<Rightarrow> []) @ diff_by_position close bs' fs'"
          unfolding b f by (intro diff_by_position_both) auto
        ultimately show ?thesis using IH [of bs' fs'] order
          by (simp add: b f cell_addr_cmp_pos split: option.splits)
      next
        case 3
        then show ?thesis using IH [of bs fs'] less.prems order above
          by (subst f, subst diff_by_position_added) (auto simp: b f cell_addr_cmp_pos dest: less_trans)
      qed
    qed
  qed
qed

section \<open>The order of the keys\<close>

lemma distinct_map_sort_key: "distinct (map f (sort_key f xs)) = distinct (map f xs)"
  by (induction xs) (simp_all add: distinct_insort_key)

lemma map_filter_named:
  "(\<And>k d. g k = Some d \<Longrightarrow> f d = k) \<Longrightarrow> map f (List.map_filter g xs) = filter (\<lambda>k. g k \<noteq> None) xs"
  by (induction xs) (auto split: option.splits)

text \<open>Changes named after their keys, sorted by name, are those of the keys in order.\<close>

lemma sort_named_changes:
  assumes "\<And>k d. g k = Some d \<Longrightarrow> f d = (k :: 'a::linorder)" and "distinct ks"
  shows "sort_key f (List.map_filter g ks) = List.map_filter g (sorted_list_of_set (set ks))"
proof (rule map_sorted_distinct_set_unique [where f = f])
  let ?l = "sort_key f (List.map_filter g ks)" and ?r = "List.map_filter g (sorted_list_of_set (set ks))"
  have sets: "set ?l = set ?r" by (auto simp: List.map_filter_def)
  have left: "distinct (map f ?l)"
    using assms(2) by (simp add: distinct_map_sort_key map_filter_named [OF assms(1)])
  then show "inj_on f (set ?l \<union> set ?r)" using sets by (simp add: distinct_map)
  show "sorted (map f ?r)" "distinct (map f ?r)"
    by (simp_all add: map_filter_named [OF assms(1)] sorted_filter [of "\<lambda>x. x", simplified])
  show "sorted (map f ?l)" by simp
  show "distinct (map f ?l)" by (rule left)
  show "set ?l = set ?r" by (rule sets)
qed

text \<open>The changes of the tables do not depend on the order in which the hash set lists the names.\<close>

lemma diff_tables_by_name:
  assumes "distinct ks" and "\<And>k t. base k = Some t \<Longrightarrow> ti_display_name t = k"
    and "\<And>k t. fork k = Some t \<Longrightarrow> ti_display_name t = k"
  shows "diff_tables ks base fork = List.map_filter (table_change base fork) (sorted_list_of_set (set ks))"
  unfolding diff_tables_def
  by (rule sort_named_changes [OF _ assms(1)])
    (auto simp: table_change_def assms(2,3) split: option.splits if_split_asm)

text \<open>Those of the names do: names with the same text in two scopes come in the order of the hash set.\<close>

lemma diff_names_order_matters:
  "let base = Map.empty; fork = [(''N'', None) \<mapsto> \<lparr> nf_formula = ''1'', nf_hidden = False \<rparr>,
      (''N'', Some 0) \<mapsto> \<lparr> nf_formula = ''2'', nf_hidden = False \<rparr>]
   in diff_names [(''N'', None), (''N'', Some 0)] base fork [0 \<mapsto> ''S'']
      \<noteq> diff_names [(''N'', Some 0), (''N'', None)] base fork [0 \<mapsto> ''S'']"
  by (simp add: diff_names_def name_change_def option_all_def)

end
