(* ===== verification/DiffReaders.thy ===== *)
theory DiffReaders
  imports WorkbookDiff Steps "HOL-Library.AList"
begin

text \<open>
  The readers of the comparison of two workbooks (\<open>diff/sst.rs\<close>, \<open>diff/cells.rs\<close>, \<open>diff/names.rs\<close>,
  \<open>diff/tables.rs\<close>) and the comparison of two archives (\<open>diff/mod.rs\<close>). An XML reader is the list of
  the events that the parser still has to give, errors among them; its end is the end of the file.
  Hash maps are association lists with a parameter for the order in which they are enumerated.
\<close>

section \<open>XML events\<close>

type_synonym xml_attr = "string \<times> string"

datatype xml_event =
    XStart string "xml_attr res list"
  | XEmpty string "xml_attr res list"
  | XEnd string
  | XText "string res"
  | XCData string
  | XOther

type_synonym xml_reader = "xml_event res list"

fun read_text_content :: "string \<Rightarrow> string \<Rightarrow> xml_reader \<Rightarrow> xml_reader \<times> string res" where
  "read_text_content end_tag acc [] = ([], Inl (Bail ''Unexpected EOF reading acc''))"
| "read_text_content end_tag acc (Inl e # evs) = (evs, Inl e)"
| "read_text_content end_tag acc (Inr ev # evs) =
     (case ev of
        XText (Inl e) \<Rightarrow> (evs, Inl e)
      | XText (Inr t) \<Rightarrow> read_text_content end_tag (acc @ t) evs
      | XCData t \<Rightarrow> read_text_content end_tag (acc @ t) evs
      | XEnd n \<Rightarrow> if n = end_tag then (evs, Inr acc) else read_text_content end_tag acc evs
      | _ \<Rightarrow> read_text_content end_tag acc evs)"

lemma read_text_shorter: "read_text_content end_tag acc evs = (evs', r) \<Longrightarrow> length evs' \<le> length evs"
  by (induction end_tag acc evs rule: read_text_content.induct)
    (auto split: xml_event.splits sum.splits if_splits)

lemma read_text_shorter' [simp]:
  "(evs', r) = read_text_content end_tag acc evs \<Longrightarrow> length evs' < Suc (length evs)"
  using read_text_shorter [of end_tag acc evs evs' r] by simp

section \<open>Shared strings\<close>

function sst_from_events :: "bool \<Rightarrow> string \<Rightarrow> string list \<Rightarrow> xml_reader \<Rightarrow> string list res" where
  "sst_from_events inside current strings [] = Inr strings"
| "sst_from_events inside current strings (Inl e # evs) = Inl e"
| "sst_from_events inside current strings (Inr ev # evs) =
     (case ev of
        XStart n _ \<Rightarrow>
          if n = ''si'' then sst_from_events True [] strings evs
          else if inside \<and> n = ''t'' then
            (case read_text_content ''t'' [] evs of
               (evs', Inl e) \<Rightarrow> Inl e
             | (evs', Inr t) \<Rightarrow> sst_from_events inside (current @ t) strings evs')
          else sst_from_events inside current strings evs
      | XEnd n \<Rightarrow>
          if n = ''si'' then sst_from_events False current (strings @ [current]) evs
          else sst_from_events inside current strings evs
      | _ \<Rightarrow> sst_from_events inside current strings evs)"
  by pat_completeness auto
termination
  by (relation "measure (\<lambda>(inside, current, strings, evs). length evs)") auto

section \<open>Cells\<close>

function inline_text :: "string \<Rightarrow> xml_reader \<Rightarrow> xml_reader \<times> string res" where
  "inline_text acc [] = ([], Inl (Bail ''Unexpected EOF reading inline string''))"
| "inline_text acc (Inl e # evs) = (evs, Inl e)"
| "inline_text acc (Inr ev # evs) =
     (case ev of
        XStart n _ \<Rightarrow>
          if n = ''t'' then
            (case read_text_content ''t'' [] evs of
               (evs', Inl e) \<Rightarrow> (evs', Inl e)
             | (evs', Inr t) \<Rightarrow> inline_text (acc @ t) evs')
          else inline_text acc evs
      | XEnd n \<Rightarrow> if n = ''is'' then (evs, Inr acc) else inline_text acc evs
      | _ \<Rightarrow> inline_text acc evs)"
  by pat_completeness auto
termination
  by (relation "measure (\<lambda>(acc, evs). length evs)") auto

lemma inline_text_shorter: "inline_text acc evs = (evs', r) \<Longrightarrow> length evs' \<le> length evs"
proof (induction acc evs arbitrary: evs' r rule: inline_text.induct)
  case (3 acc ev evs)
  then show ?case
    by (auto split: xml_event.splits sum.splits if_splits prod.splits
        dest!: read_text_shorter) (meson le_SucI order_trans)+
qed auto

lemma inline_text_shorter' [simp]:
  "(evs', r) = inline_text acc evs \<Longrightarrow> length evs' < Suc (length evs)"
  using inline_text_shorter [of acc evs evs' r] by simp

text \<open>The value and the formula of a cell, up to the end of its element.\<close>

function cell_content ::
    "string option \<Rightarrow> string option \<Rightarrow> xml_reader \<Rightarrow> xml_reader \<times> (string option \<times> string option) res" where
  "cell_content val formula [] = ([], Inr (val, formula))"
| "cell_content val formula (Inl e # evs) = (evs, Inl e)"
| "cell_content val formula (Inr ev # evs) =
     (case ev of
        XStart n _ \<Rightarrow>
          if n = ''v'' then
            (case read_text_content ''v'' [] evs of
               (evs', Inl e) \<Rightarrow> (evs', Inl e)
             | (evs', Inr t) \<Rightarrow> cell_content (Some t) formula evs')
          else if n = ''f'' then
            (case read_text_content ''f'' [] evs of
               (evs', Inl e) \<Rightarrow> (evs', Inl e)
             | (evs', Inr t) \<Rightarrow> cell_content val (Some t) evs')
          else if n = ''is'' then
            (case inline_text [] evs of
               (evs', Inl e) \<Rightarrow> (evs', Inl e)
             | (evs', Inr t) \<Rightarrow> cell_content (Some t) formula evs')
          else cell_content val formula evs
      | XEnd n \<Rightarrow> if n = ''c'' then (evs, Inr (val, formula)) else cell_content val formula evs
      | _ \<Rightarrow> cell_content val formula evs)"
  by pat_completeness auto
termination
  by (relation "measure (\<lambda>(val, formula, evs). length evs)") auto

lemma cell_content_shorter: "cell_content val formula evs = (evs', r) \<Longrightarrow> length evs' \<le> length evs"
proof (induction val formula evs arbitrary: evs' r rule: cell_content.induct)
  case (3 val formula ev evs)
  then show ?case
    by (auto split: xml_event.splits sum.splits if_splits prod.splits
        dest!: read_text_shorter inline_text_shorter) (meson le_SucI order_trans)+
qed auto

record cell_attrs =
  at_address :: string
  at_type :: string
  at_style :: "u32 option"

fun cell_attributes :: "cell_attrs \<Rightarrow> xml_attr res list \<Rightarrow> cell_attrs res" where
  "cell_attributes a [] = Inr a"
| "cell_attributes a (Inl e # attrs) = Inl e"
| "cell_attributes a (Inr (k, v) # attrs) =
     cell_attributes (if k = ''r'' then a \<lparr> at_address := v \<rparr>
       else if k = ''t'' then a \<lparr> at_type := v \<rparr>
       else if k = ''s'' then a \<lparr> at_style := parse_u32 v \<rparr> else a) attrs"

definition cell_head :: "xml_attr res list \<Rightarrow> (cell_attrs \<times> cell_addr) res" where
  "cell_head attrs =
     bind_res (cell_attributes \<lparr> at_address = [], at_type = [], at_style = None \<rparr> attrs) (\<lambda>a.
     bail_if (at_address a = []) ''Cell missing address'' (
     bind_res (ok_or (cell_addr_parse (at_address a)) ''Invalid cell address'') (\<lambda>address. Inr (a, address))))"

definition shared_value :: "string list option \<Rightarrow> string \<Rightarrow> string option \<Rightarrow> string option" where
  "shared_value sst type_str val =
     (case (val, sst) of
        (Some v, Some strings) \<Rightarrow>
          if type_str = ''s'' then
            (case parse_unsigned u64_limit v of
               Some i \<Rightarrow> if i < length strings then Some (strings ! i) else val
             | None \<Rightarrow> val)
          else val
      | _ \<Rightarrow> val)"

definition parse_cell :: "string list option \<Rightarrow> xml_attr res list \<Rightarrow> xml_reader \<Rightarrow> xml_reader \<times> raw_cell res" where
  "parse_cell sst attrs evs =
     (case cell_head attrs of
        Inl e \<Rightarrow> (evs, Inl e)
      | Inr (a, address) \<Rightarrow>
          (case cell_content None None evs of
             (evs', Inl e) \<Rightarrow> (evs', Inl e)
           | (evs', Inr (val, formula)) \<Rightarrow>
               (evs', Inr \<lparr> rc_address = address, rc_value = shared_value sst (at_type a) val,
                  rc_formula = formula, rc_style = at_style a \<rparr>)))"

lemma parse_cell_shorter [simp]: "(evs', r) = parse_cell sst attrs evs \<Longrightarrow> length evs' < Suc (length evs)"
  using cell_content_shorter by (fastforce simp: parse_cell_def split: sum.splits prod.splits)

text \<open>The cells an iterator gives, errors among them.\<close>

function cells :: "string list option \<Rightarrow> xml_reader \<Rightarrow> raw_cell res list" where
  "cells sst [] = []"
| "cells sst (Inl e # evs) = Inl e # cells sst evs"
| "cells sst (Inr ev # evs) =
     (case ev of
        XStart n attrs \<Rightarrow>
          if n = ''c'' then (case parse_cell sst attrs evs of (evs', r) \<Rightarrow> r # cells sst evs')
          else cells sst evs
      | _ \<Rightarrow> cells sst evs)"
  by pat_completeness auto
termination
  by (relation "measure (\<lambda>(sst, evs). length evs)") auto

section \<open>Defined names\<close>

record name_attrs =
  na_name :: string
  na_scope :: "u32 option"
  na_hidden :: bool

fun name_attributes :: "name_attrs \<Rightarrow> xml_attr res list \<Rightarrow> name_attrs res" where
  "name_attributes a [] = Inr a"
| "name_attributes a (Inl e # attrs) = Inl e"
| "name_attributes a (Inr (k, v) # attrs) =
     name_attributes (if k = ''name'' then a \<lparr> na_name := v \<rparr>
       else if k = ''localSheetId'' then
         (case parse_u32 v of Some i \<Rightarrow> a \<lparr> na_scope := Some i \<rparr> | None \<Rightarrow> a)
       else if k = ''hidden'' then a \<lparr> na_hidden := (v = ''1'' \<or> v = ''true'') \<rparr> else a) attrs"

text \<open>The text of a name's element; the end of the file ends it too.\<close>

fun name_formula :: "string \<Rightarrow> xml_reader \<Rightarrow> xml_reader \<times> string res" where
  "name_formula acc [] = ([], Inr acc)"
| "name_formula acc (Inl e # evs) = (evs, Inl e)"
| "name_formula acc (Inr ev # evs) =
     (case ev of
        XText (Inl e) \<Rightarrow> (evs, Inl e)
      | XText (Inr t) \<Rightarrow> name_formula (acc @ t) evs
      | XEnd n \<Rightarrow> if n = ''definedName'' then (evs, Inr acc) else name_formula acc evs
      | _ \<Rightarrow> name_formula acc evs)"

lemma name_formula_shorter: "name_formula acc evs = (evs', r) \<Longrightarrow> length evs' \<le> length evs"
  by (induction acc evs rule: name_formula.induct) (auto split: xml_event.splits sum.splits if_splits)

lemma name_formula_shorter' [simp]: "(evs', r) = name_formula acc evs \<Longrightarrow> length evs' < Suc (length evs)"
  using name_formula_shorter [of acc evs evs' r] by simp

function parse_defined_names ::
    "(name_key \<times> named_formula) list \<Rightarrow> xml_reader \<Rightarrow> xml_reader \<times> (name_key \<times> named_formula) list res" where
  "parse_defined_names names [] = ([], Inr names)"
| "parse_defined_names names (Inl e # evs) = (evs, Inl e)"
| "parse_defined_names names (Inr ev # evs) =
     (case ev of
        XStart n attrs \<Rightarrow>
          if n = ''definedName'' then
            (case name_attributes \<lparr> na_name = [], na_scope = None, na_hidden = False \<rparr> attrs of
               Inl e \<Rightarrow> (evs, Inl e)
             | Inr a \<Rightarrow>
                 (case name_formula [] evs of
                    (evs', Inl e) \<Rightarrow> (evs', Inl e)
                  | (evs', Inr formula) \<Rightarrow>
                      parse_defined_names (AList.update (na_name a, na_scope a)
                        \<lparr> nf_formula = formula, nf_hidden = na_hidden a \<rparr> names) evs'))
          else parse_defined_names names evs
      | XEnd n \<Rightarrow> if n = ''definedNames'' then (evs, Inr names) else parse_defined_names names evs
      | _ \<Rightarrow> parse_defined_names names evs)"
  by pat_completeness auto
termination
  by (relation "measure (\<lambda>(names, evs). length evs)") auto

lemma parse_defined_names_shorter: "parse_defined_names names evs = (evs', r) \<Longrightarrow> length evs' \<le> length evs"
proof (induction names evs arbitrary: evs' r rule: parse_defined_names.induct)
  case (3 names ev evs)
  then show ?case
    by (auto split: xml_event.splits sum.splits if_splits prod.splits dest!: name_formula_shorter)
      (meson le_SucI order_trans)+
qed auto

lemma parse_defined_names_shorter' [simp]:
  "(evs', r) = parse_defined_names names evs \<Longrightarrow> length evs' < Suc (length evs)"
  using parse_defined_names_shorter [of names evs evs' r] by simp

section \<open>Tables\<close>

fun table_attributes :: "string \<times> string \<Rightarrow> xml_attr res list \<Rightarrow> (string \<times> string) res" where
  "table_attributes a [] = Inr a"
| "table_attributes a (Inl e # attrs) = Inl e"
| "table_attributes (display, rng) (Inr (k, v) # attrs) =
     table_attributes (if k = ''displayName'' then (v, rng) else if k = ''ref'' then (display, v) else (display, rng)) attrs"

fun table_element :: "xml_reader \<Rightarrow> (string \<times> string) res" where
  "table_element [] = Inr ([], [])"
| "table_element (Inl e # evs) = Inl e"
| "table_element (Inr ev # evs) =
     (case ev of
        XStart n attrs \<Rightarrow> if n = ''table'' then table_attributes ([], []) attrs else table_element evs
      | _ \<Rightarrow> table_element evs)"

definition parse_table_xml :: "xml_reader \<Rightarrow> string \<Rightarrow> table_info res" where
  "parse_table_xml evs sheet_name =
     bind_res (table_element evs) (\<lambda>(display, rng).
     bail_if (display = []) ''Missing displayName in table definition''
       (Inr \<lparr> ti_display_name = display, ti_range = rng, ti_sheet = sheet_name \<rparr>))"

section \<open>The parts of a workbook\<close>

text \<open>Two attributes of an element, the last of each name winning.\<close>

fun two_attributes :: "string \<Rightarrow> string \<Rightarrow> string \<times> string \<Rightarrow> xml_attr res list \<Rightarrow> (string \<times> string) res" where
  "two_attributes k1 k2 a [] = Inr a"
| "two_attributes k1 k2 a (Inl e # attrs) = Inl e"
| "two_attributes k1 k2 (a1, a2) (Inr (k, v) # attrs) =
     two_attributes k1 k2 (if k = k1 then (v, a2) else if k = k2 then (a1, v) else (a1, a2)) attrs"

definition element_of :: "xml_event \<Rightarrow> (string \<times> xml_attr res list) option" where
  "element_of ev = (case ev of XStart n attrs \<Rightarrow> Some (n, attrs) | XEmpty n attrs \<Rightarrow> Some (n, attrs) | _ \<Rightarrow> None)"

record sheet_list =
  sl_names_by_rid :: "(string \<times> string) list"
  sl_order :: "string list"
  sl_defined :: "(name_key \<times> named_formula) list"

function workbook_elements :: "sheet_list \<Rightarrow> xml_reader \<Rightarrow> sheet_list res" where
  "workbook_elements sl [] = Inr sl"
| "workbook_elements sl (Inl e # evs) = Inl e"
| "workbook_elements sl (Inr ev # evs) =
     (case element_of ev of
        None \<Rightarrow> workbook_elements sl evs
      | Some (n, attrs) \<Rightarrow>
          if n = ''sheet'' then
            (case two_attributes ''name'' ''r:id'' ([], []) attrs of
               Inl e \<Rightarrow> Inl e
             | Inr (name, rid) \<Rightarrow>
                 workbook_elements
                   (if name \<noteq> [] \<and> rid \<noteq> []
                    then sl \<lparr> sl_names_by_rid := AList.update rid name (sl_names_by_rid sl),
                           sl_order := sl_order sl @ [name] \<rparr>
                    else sl) evs)
          else if n = ''definedNames'' then
            (case parse_defined_names [] evs of
               (evs', Inl e) \<Rightarrow> Inl e
             | (evs', Inr names) \<Rightarrow> workbook_elements (sl \<lparr> sl_defined := names \<rparr>) evs')
          else workbook_elements sl evs)"
  by pat_completeness auto
termination
  by (relation "measure (\<lambda>(sl, evs). length evs)") auto

fun relationship_targets :: "(string \<times> string) list \<Rightarrow> xml_reader \<Rightarrow> (string \<times> string) list res" where
  "relationship_targets m [] = Inr m"
| "relationship_targets m (Inl e # evs) = Inl e"
| "relationship_targets m (Inr ev # evs) =
     (case element_of ev of
        Some (n, attrs) \<Rightarrow>
          if n = ''Relationship'' then
            bind_res (two_attributes ''Id'' ''Target'' ([], []) attrs) (\<lambda>(rid, target).
            relationship_targets (AList.update rid target m) evs)
          else relationship_targets m evs
      | None \<Rightarrow> relationship_targets m evs)"

text \<open>An archive gives the bytes of its entries; \<open>dl_xml\<close> is the XML parser, \<open>dl_hash\<close> the first
  eight bytes of the digest, \<open>dl_pairs\<close>, \<open>dl_keys\<close> and \<open>dl_names\<close> the orders of the hash maps.\<close>

type_synonym archive = "string \<Rightarrow> string option"

record diff_lib =
  dl_xml :: "string \<Rightarrow> xml_reader"
  dl_hash :: "string \<Rightarrow> u64"
  dl_close :: "string \<Rightarrow> string \<Rightarrow> bool option"
  dl_pairs :: "(string \<times> string) list \<Rightarrow> (string \<times> string) list"
  dl_keys :: "name_key list \<Rightarrow> name_key list"
  dl_names :: "string list \<Rightarrow> string list"

definition load_sst :: "diff_lib \<Rightarrow> archive \<Rightarrow> string list option" where
  "load_sst lib arch =
     Option.bind (arch ''xl/sharedStrings.xml'') (\<lambda>bytes.
       case sst_from_events False [] [] (dl_xml lib bytes) of Inr strings \<Rightarrow> Some strings | Inl _ \<Rightarrow> None)"

definition entry_hash :: "diff_lib \<Rightarrow> archive \<Rightarrow> string \<Rightarrow> u64" where
  "entry_hash lib arch path = (case arch path of Some bytes \<Rightarrow> dl_hash lib bytes | None \<Rightarrow> 0)"

record workbook_meta =
  wm_sheet_map :: "(string \<times> string) list"
  wm_sheet_ids :: "u32 \<rightharpoonup> string"
  wm_names :: "(name_key \<times> named_formula) list"

definition sheet_entry :: "string \<Rightarrow> string" where
  "sheet_entry target =
     (if starts_with target ''/'' then dropWhile (\<lambda>c. c = CHR ''/'') target else ''xl/'' @ target)"

definition load_workbook_meta :: "diff_lib \<Rightarrow> archive \<Rightarrow> workbook_meta res" where
  "load_workbook_meta lib arch =
     bind_res (ok_or (arch ''xl/workbook.xml'') ''specified file not found in archive'') (\<lambda>bytes.
     bind_res (workbook_elements \<lparr> sl_names_by_rid = [], sl_order = [], sl_defined = [] \<rparr> (dl_xml lib bytes)) (\<lambda>sl.
     bind_res (case arch ''xl/_rels/workbook.xml.rels'' of
         None \<Rightarrow> Inr [] | Some bytes \<Rightarrow> relationship_targets [] (dl_xml lib bytes)) (\<lambda>targets.
     Inr \<lparr> wm_sheet_map = foldl (\<lambda>m (rid, name). case map_of targets rid of
               Some target \<Rightarrow> AList.update name (sheet_entry target) m | None \<Rightarrow> m)
             [] (dl_pairs lib (sl_names_by_rid sl)),
           wm_sheet_ids = (\<lambda>i. if i < length (sl_order sl) then Some (sl_order sl ! i) else None),
           wm_names = sl_defined sl \<rparr>)))"

section \<open>Paths inside an archive\<close>

text \<open>\<open>Path::parent\<close> and \<open>Path::file_name\<close>: a path without its trailing separators, cut at its last
  one, for paths without \<open>.\<close> components. The code unwraps both, so a path without them is a panic, written
  as an error here.\<close>

definition trim_separators :: "string \<Rightarrow> string" where
  "trim_separators s = rev (dropWhile (\<lambda>c. c = CHR ''/'') (rev s))"

definition path_split :: "string \<Rightarrow> (string \<times> string) res" where
  "path_split path =
     (let s = trim_separators path in
      case rsplit_once CHR ''/'' s of
        Some (parent, name) \<Rightarrow>
          if name = ''..'' then Inl (Bail ''panic'')
          else Inr (if trim_separators parent = [] then ''/'' else trim_separators parent, name)
      | None \<Rightarrow> if s = [] \<or> s = ''..'' \<or> s = ''.'' then Inl (Bail ''panic'') else Inr ([], s))"

definition path_join :: "string \<Rightarrow> string \<Rightarrow> string" where
  "path_join path c = (if path = [] \<or> ends_with path ''/'' then path @ c else path @ ''/'' @ c)"

definition path_pop :: "string \<Rightarrow> string" where
  "path_pop path = (case path_split path of Inr (parent, _) \<Rightarrow> parent | Inl _ \<Rightarrow> path)"

text \<open>A relative target from a directory: \<open>..\<close> goes up, every other component down.\<close>

definition resolve_target_path :: "string \<Rightarrow> string \<Rightarrow> string" where
  "resolve_target_path parent target =
     foldl (\<lambda>path c. if c = ''..'' then path_pop path
         else if c = [] \<or> c = ''.'' then path else path_join path c) parent (split_on CHR ''/'' target)"

text \<open>The table files a sheet names; an error of the parser is passed over.\<close>

fun table_targets :: "string list \<Rightarrow> xml_reader \<Rightarrow> string list res" where
  "table_targets files [] = Inr files"
| "table_targets files (Inl e # evs) = table_targets files evs"
| "table_targets files (Inr ev # evs) =
     (case element_of ev of
        Some (n, attrs) \<Rightarrow>
          if n = ''Relationship'' then
            bind_res (two_attributes ''Target'' ''Type'' ([], []) attrs) (\<lambda>(target, type_attr).
            table_targets (if ends_with type_attr ''/table'' then files @ [target] else files) evs)
          else table_targets files evs
      | None \<Rightarrow> table_targets files evs)"

definition sheet_tables :: "diff_lib \<Rightarrow> archive \<Rightarrow> (string \<times> table_info) list \<Rightarrow> string \<times> string \<Rightarrow> (string \<times> table_info) list res" where
  "sheet_tables lib arch tables = (\<lambda>(sheet_name, sheet_path).
     bind_res (path_split sheet_path) (\<lambda>(parent, filename).
     bind_res (case arch (path_join (path_join parent ''_rels'') (filename @ ''.rels'')) of
         None \<Rightarrow> Inr [] | Some bytes \<Rightarrow> table_targets [] (dl_xml lib bytes)) (\<lambda>files.
     Inr (foldl (\<lambda>tables target.
         case arch (resolve_target_path parent target) of
           None \<Rightarrow> tables
         | Some bytes \<Rightarrow>
             (case parse_table_xml (dl_xml lib bytes) sheet_name of
                Inr info \<Rightarrow> AList.update (ti_display_name info) info tables
              | Inl _ \<Rightarrow> tables)) tables files))))"

definition load_tables :: "diff_lib \<Rightarrow> archive \<Rightarrow> (string \<times> string) list \<Rightarrow> (string \<times> table_info) list res" where
  "load_tables lib arch sheet_map = fold_res (sheet_tables lib arch) [] (dl_pairs lib sheet_map)"

section \<open>The changes between two archives\<close>

datatype change = ChangeCell string cell_diff | ChangeTable table_diff | ChangeName name_diff

fun name_scope :: "name_diff \<Rightarrow> string option" where
  "name_scope (NameAdded _ _ scope) = scope"
| "name_scope (NameDeleted _ scope) = scope"
| "name_scope (NameModified _ scope _ _) = scope"

fun table_sheet :: "table_diff \<Rightarrow> string" where
  "table_sheet (TableAdded _ sheet _) = sheet"
| "table_sheet (TableDeleted _ sheet) = sheet"
| "table_sheet (TableModified _ sheet _ _) = sheet"

definition in_filter :: "string option \<Rightarrow> string option \<Rightarrow> bool" where
  "in_filter sheet_filter sheet =
     (case (sheet_filter, sheet) of (Some f, Some s) \<Rightarrow> s = f | _ \<Rightarrow> True)"

definition sheet_cells_of :: "diff_lib \<Rightarrow> archive \<Rightarrow> string list option \<Rightarrow> string option \<Rightarrow> raw_cell res list" where
  "sheet_cells_of lib arch sst path =
     (case Option.bind path arch of Some bytes \<Rightarrow> cells sst (dl_xml lib bytes) | None \<Rightarrow> [])"

definition sst_hash :: "diff_lib \<Rightarrow> archive \<Rightarrow> u64" where
  "sst_hash lib arch = entry_hash lib arch ''xl/sharedStrings.xml''"

definition sheet_changes ::
    "diff_lib \<Rightarrow> archive \<Rightarrow> archive \<Rightarrow> (string \<times> string) list \<Rightarrow> (string \<times> string) list \<Rightarrow> string \<Rightarrow> change list res" where
  "sheet_changes lib base fork base_map fork_map name =
     (let base_path = map_of base_map name; fork_path = map_of fork_map name;
          base_hash = (case base_path of Some p \<Rightarrow> entry_hash lib base p | None \<Rightarrow> 0);
          fork_hash = (case fork_path of Some p \<Rightarrow> entry_hash lib fork p | None \<Rightarrow> 0)
      in if base_hash \<noteq> 0 \<and> base_hash = fork_hash \<and> sst_hash lib base = sst_hash lib fork then Inr []
         else bind_res (diff_streams (dl_close lib)
             (sheet_cells_of lib base (load_sst lib base) base_path)
             (sheet_cells_of lib fork (load_sst lib fork) fork_path))
           (\<lambda>ds. Inr (map (ChangeCell name) ds)))"

definition calculate_changeset_archives ::
    "diff_lib \<Rightarrow> archive \<Rightarrow> archive \<Rightarrow> string option \<Rightarrow> change list res" where
  "calculate_changeset_archives lib base fork sheet_filter =
     bind_res (load_workbook_meta lib base) (\<lambda>bm.
     bind_res (load_workbook_meta lib fork) (\<lambda>fm.
     let name_diffs = diff_names (dl_keys lib (remdups (map fst (wm_names bm) @ map fst (wm_names fm))))
           (map_of (wm_names bm)) (map_of (wm_names fm)) (wm_sheet_ids bm) in
     bind_res (load_tables lib base (wm_sheet_map bm)) (\<lambda>bt.
     bind_res (load_tables lib fork (wm_sheet_map fm)) (\<lambda>ft.
     let table_diffs = diff_tables (dl_names lib (remdups (map fst bt @ map fst ft))) (map_of bt) (map_of ft);
         sheets = sort (remdups (map fst (wm_sheet_map bm) @ map fst (wm_sheet_map fm))) in
     bind_res (map_res (sheet_changes lib base fork (wm_sheet_map bm) (wm_sheet_map fm))
         (filter (\<lambda>name. in_filter sheet_filter (Some name)) sheets)) (\<lambda>cs.
     Inr (map ChangeName (filter (\<lambda>d. in_filter sheet_filter (name_scope d)) name_diffs)
       @ map ChangeTable (filter (\<lambda>d. in_filter sheet_filter (Some (table_sheet d))) table_diffs)
       @ concat cs))))))"

section \<open>Reading back what is written\<close>

text \<open>The elements of a cell as a spreadsheet writes them, its strings inline.\<close>

definition text_element :: "string \<Rightarrow> string option \<Rightarrow> xml_reader" where
  "text_element n t = (case t of None \<Rightarrow> [] | Some t \<Rightarrow> map Inr [XStart n [], XText (Inr t), XEnd n])"

definition cell_element :: "raw_cell \<Rightarrow> xml_reader" where
  "cell_element c =
     Inr (XStart ''c'' (Inr (''r'', ca_original (rc_address c))
       # (case rc_style c of None \<Rightarrow> [] | Some st \<Rightarrow> [Inr (''s'', show_nat st)])))
     # text_element ''f'' (rc_formula c) @ text_element ''v'' (rc_value c) @ [Inr (XEnd ''c'')]"

definition sheet_element :: "raw_cell list \<Rightarrow> xml_reader" where
  "sheet_element cs = Inr (XStart ''sheetData'' []) # concat (map cell_element cs) @ [Inr (XEnd ''sheetData'')]"

text \<open>A cell with an address that says where it is and a style index that fits.\<close>

definition readable_cell :: "raw_cell \<Rightarrow> bool" where
  "readable_cell c = (cell_addr_parse (ca_original (rc_address c)) = Some (rc_address c)
     \<and> option_all (\<lambda>st. st < u32_limit) (rc_style c))"

lemma cell_addr_parse_nonempty: "cell_addr_parse s = Some a \<Longrightarrow> s \<noteq> []"
  by (auto simp: cell_addr_parse_def)

lemma cell_content_elements:
  "cell_content None None (text_element ''f'' formula @ text_element ''v'' val @ Inr (XEnd ''c'') # rest)
     = (rest, Inr (val, formula))"
  by (cases formula; cases val) (simp_all add: text_element_def)

lemma cells_cell_element:
  assumes "readable_cell c"
  shows "cells sst (cell_element c @ rest) = Inr c # cells sst rest"
proof -
  have "parse_u32 (show_nat st) = Some st" if "rc_style c = Some st" for st
    using assms that by (simp add: readable_cell_def option_all_def)
  then have "cell_head (Inr (''r'', ca_original (rc_address c))
       # (case rc_style c of None \<Rightarrow> [] | Some st \<Rightarrow> [Inr (''s'', show_nat st)]))
     = Inr (\<lparr> at_address = ca_original (rc_address c), at_type = [], at_style = rc_style c \<rparr>, rc_address c)"
    using assms cell_addr_parse_nonempty [of "ca_original (rc_address c)"]
    by (cases "rc_style c") (auto simp: cell_head_def bail_if_def ok_or_def readable_cell_def)
  then show ?thesis
    by (simp add: cell_element_def parse_cell_def cell_content_elements shared_value_def split: option.splits)
qed

lemma cells_sheet_element: "list_all readable_cell cs \<Longrightarrow> cells sst (sheet_element cs) = map Inr cs"
proof -
  have "list_all readable_cell cs \<Longrightarrow> cells sst (concat (map cell_element cs) @ [Inr (XEnd ''sheetData'')]) = map Inr cs"
    by (induction cs) (simp_all add: cells_cell_element)
  then show "list_all readable_cell cs \<Longrightarrow> cells sst (sheet_element cs) = map Inr cs"
    by (simp add: sheet_element_def)
qed

text \<open>C29: the cells of two sheets that differ are found: reading the elements of two sheets written in
  row-major order and merging the streams gives, in that order, exactly the positions where one sheet
  has a cell and the other none and those where formula, value or style differ.\<close>

theorem written_sheets_diff:
  assumes "in_order bs" and "in_order fs" and "list_all readable_cell bs" and "list_all readable_cell fs"
  shows "diff_streams close (cells sst (sheet_element bs)) (cells sst' (sheet_element fs))
    = Inr (diff_by_position close bs fs)"
  using assms by (simp add: cells_sheet_element diff_streams_by_position)

section \<open>A workbook against itself\<close>

lemma map_filter_None: "(\<And>x. f x = None) \<Longrightarrow> List.map_filter f xs = []"
  by (induction xs) auto

lemma diff_names_self: "diff_names ks base base sheets = []"
proof -
  have "name_change base base sheets k = None" for k
    by (auto simp: name_change_def Let_def split: option.splits)
  then show ?thesis by (simp add: diff_names_def map_filter_None)
qed

lemma diff_tables_self: "diff_tables ks base base = []"
proof -
  have "table_change base base k = None" for k
    by (auto simp: table_change_def split: option.splits)
  then show ?thesis by (simp add: diff_tables_def map_filter_None)
qed

lemma sheet_changes_self:
  assumes "\<And>p bytes. arch p = Some bytes \<Longrightarrow> dl_hash lib bytes \<noteq> 0"
  shows "sheet_changes lib arch arch m m name = Inr []"
proof (cases "Option.bind (map_of m name) arch")
  case None
  then show ?thesis by (auto simp: sheet_changes_def Let_def sheet_cells_of_def)
next
  case (Some bytes)
  then have "dl_hash lib bytes \<noteq> 0" using assms by (auto simp: bind_eq_Some_conv)
  with Some show ?thesis by (auto simp: sheet_changes_def Let_def entry_hash_def bind_eq_Some_conv)
qed

lemma map_res_empty: "(\<And>x. f x = Inr []) \<Longrightarrow> map_res f xs = Inr (map (\<lambda>_. []) xs)"
  by (induction xs) simp_all

text \<open>A workbook does not differ from itself: comparing an archive with itself, under any filter,
  fails or reports no change at all, whatever the cells hold and in whatever order the hash maps are
  enumerated, as long as no entry has the digest zero.\<close>

theorem changeset_self_empty:
  assumes "\<And>p bytes. arch p = Some bytes \<Longrightarrow> dl_hash lib bytes \<noteq> 0"
    and "calculate_changeset_archives lib arch arch sheet_filter = Inr cs"
  shows "cs = []"
  using assms(2)
  by (auto simp: calculate_changeset_archives_def bind_res_Inr Let_def diff_names_self diff_tables_self
      map_res_empty [OF sheet_changes_self [OF assms(1)]])

section \<open>Examples\<close>

definition demo_addr :: "u32 \<Rightarrow> u32 \<Rightarrow> string \<Rightarrow> cell_addr" where
  "demo_addr row col s = \<lparr> ca_col = col, ca_row = row, ca_original = s \<rparr>"

definition demo_cell :: "u32 \<Rightarrow> string \<Rightarrow> string \<Rightarrow> raw_cell" where
  "demo_cell row s val = \<lparr> rc_address = demo_addr row 1 s, rc_value = Some val, rc_formula = None, rc_style = Some 3 \<rparr>"

theorem written_sheets_diff_witness:
  "diff_streams (\<lambda>_ _. None)
     (cells None (sheet_element [demo_cell 1 ''A1'' ''x'', demo_cell 2 ''A2'' ''y'']))
     (cells None (sheet_element [demo_cell 2 ''A2'' ''z'', demo_cell 3 ''A3'' ''w'']))
   = Inr (diff_by_position (\<lambda>_ _. None) [demo_cell 1 ''A1'' ''x'', demo_cell 2 ''A2'' ''y'']
       [demo_cell 2 ''A2'' ''z'', demo_cell 3 ''A3'' ''w''])"
proof -
  have parsed: "cell_addr_parse ''A1'' = Some (demo_addr 1 1 ''A1'')" "cell_addr_parse ''A2'' = Some (demo_addr 2 1 ''A2'')"
    "cell_addr_parse ''A3'' = Some (demo_addr 3 1 ''A3'')"
    by (simp_all add: cell_addr_parse_def demo_addr_def is_digit_def ord_of_def parse_unsigned_def digits_val_def
        digit_val_def col_from_letters_def is_alpha_def is_upper_def is_lower_def to_upper_def
        u32_wrapping_add_def u32_wrapping_mul_def)
  show ?thesis
    by (rule written_sheets_diff)
      (simp_all add: in_order_def readable_cell_def option_all_def demo_cell_def addr_pos_def parsed,
       auto simp: demo_addr_def parsed [unfolded demo_addr_def])
qed

text \<open>An archive with a sheet without cells.\<close>

definition demo_archive :: archive where
  "demo_archive = [''xl/workbook.xml'' \<mapsto> ''w'', ''xl/_rels/workbook.xml.rels'' \<mapsto> ''r'', ''xl/s.xml'' \<mapsto> ''s'']"

definition demo_diff :: diff_lib where
  "demo_diff = \<lparr>
     dl_xml = (\<lambda>bytes.
       if bytes = ''w'' then [Inr (XEmpty ''sheet'' [Inr (''name'', ''S''), Inr (''r:id'', ''1'')])]
       else if bytes = ''r'' then [Inr (XEmpty ''Relationship'' [Inr (''Id'', ''1''), Inr (''Target'', ''s.xml'')])]
       else [Inr (XStart ''c'' [])]),
     dl_hash = (\<lambda>_. 7), dl_close = (\<lambda>_ _. None), dl_pairs = (\<lambda>ps. ps), dl_keys = (\<lambda>ks. ks), dl_names = (\<lambda>ns. ns) \<rparr>"

theorem changeset_self_empty_witness:
  "calculate_changeset_archives demo_diff demo_archive demo_archive None = Inr []"
proof -
  have "\<exists>cs. calculate_changeset_archives demo_diff demo_archive demo_archive None = Inr cs"
    by (simp add: calculate_changeset_archives_def load_workbook_meta_def demo_diff_def demo_archive_def ok_or_def
        element_of_def sheet_entry_def starts_with_def load_tables_def sheet_tables_def path_split_def
        trim_separators_def rsplit_once_def path_join_def ends_with_def sheet_changes_def entry_hash_def sst_hash_def)
  then obtain cs where run: "calculate_changeset_archives demo_diff demo_archive demo_archive None = Inr cs" ..
  have "cs = []" by (rule changeset_self_empty [OF _ run]) (simp add: demo_diff_def)
  with run show ?thesis by simp
qed

end
