(* ===== verification/ResidentDurable.thy ===== *)
theory ResidentDurable
  imports ResidentJournal Steps
begin

text \<open>
  The durable operations of a resident session (\<open>canonical_write.rs\<close>): undo, redo, checkout, the
  branches, the checkpoints, the revocation of a calculation, the discard of a staged change, the
  receipts and the recovery from the journal, with the workbook they publish to
  (\<open>recalc/resident.rs\<close>). Each commits one record to the journal before it touches the session.

  The state of an operation is the session and the journal behind it. The journal is any
  implementation of the trait \<open>ResidentCommitStorage\<close>; the lemmas are proved under its contract and
  used on the journals of the program. Commit identities are parameters (random in the code), as are
  the spreadsheet library and the digests.
\<close>

section \<open>The resident workbook\<close>

datatype calculation_stamp =
    StampNotEvaluated u64
  | StampDirty u64
  | StampCurrent u64 evaluation_coverage

record 'd resident_workbook =
  rw_document :: 'd
  rw_epoch :: string
  rw_document_revision :: u64
  rw_state_revision :: u64
  rw_calculation :: calculation_stamp

text \<open>The document library: reading and writing workbook bytes, the cell at a position of a sheet,
  writing one, and the digest of the logical content.\<close>

record 'd engine =
  eg_open :: "string \<Rightarrow> 'd res"
  eg_save :: "'d \<Rightarrow> string res"
  eg_cell :: "'d \<Rightarrow> string \<Rightarrow> u32 \<Rightarrow> u32 \<Rightarrow> materialized_cell option res"
  eg_assign :: "prepared_cell_effect \<Rightarrow> 'd \<Rightarrow> 'd \<times> unit res"
  eg_logical_sha :: "string \<Rightarrow> string res"

definition revision_text :: "string \<Rightarrow> u64 \<Rightarrow> u64 \<Rightarrow> string" where
  "revision_text epoch document state =
     ''resident:'' @ epoch @ '':'' @ show_nat document @ '':'' @ show_nat state"

definition state_revision_id :: "'d resident_workbook \<Rightarrow> string" where
  "state_revision_id wb = revision_text (rw_epoch wb) (rw_document_revision wb) (rw_state_revision wb)"

definition workbook_from_bytes :: "'d engine \<Rightarrow> string \<Rightarrow> string \<Rightarrow> 'd resident_workbook res" where
  "workbook_from_bytes eg epoch bytes =
     bind_res (eg_open eg bytes) (\<lambda>doc.
     Inr \<lparr> rw_document = doc, rw_epoch = epoch, rw_document_revision = 0, rw_state_revision = 0,
       rw_calculation = StampNotEvaluated 0 \<rparr>)"

definition restore_revision_identity ::
    "string \<Rightarrow> u64 \<Rightarrow> u64 \<Rightarrow> 'd resident_workbook \<Rightarrow> 'd resident_workbook" where
  "restore_revision_identity epoch document state wb =
     wb \<lparr> rw_epoch := epoch, rw_document_revision := document, rw_state_revision := state,
       rw_calculation := StampDirty document \<rparr>"

definition advance_state :: "'d resident_workbook \<Rightarrow> 'd resident_workbook" where
  "advance_state wb = wb \<lparr> rw_state_revision := u64_wrapping_add (rw_state_revision wb) 1 \<rparr>"

definition mark_dirty :: "'d resident_workbook \<Rightarrow> 'd resident_workbook" where
  "mark_dirty wb = wb \<lparr> rw_calculation := StampDirty (rw_document_revision wb) \<rparr>"

definition mark_restart_boundary :: "'d resident_workbook \<Rightarrow> 'd resident_workbook" where
  "mark_restart_boundary wb = mark_dirty (advance_state wb)"

definition advance_document :: "'d resident_workbook \<Rightarrow> 'd resident_workbook" where
  "advance_document wb =
     advance_state (wb \<lparr> rw_document_revision := u64_wrapping_add (rw_document_revision wb) 1 \<rparr>)"

text \<open>Revoking a proof is a state transition unless the same document is dirty already.\<close>

definition revoke_calculation_proof :: "'d resident_workbook \<Rightarrow> 'd resident_workbook" where
  "revoke_calculation_proof wb =
     (if rw_calculation wb = StampDirty (rw_document_revision wb) then wb
      else mark_dirty (advance_state wb))"

definition moved_stamp :: "u64 \<Rightarrow> string \<Rightarrow> calculation_stamp \<Rightarrow> calculation_stamp" where
  "moved_stamp document revision stamp =
     (case stamp of
        StampCurrent _ coverage \<Rightarrow> StampCurrent document (coverage \<lparr> ec_revision_id := revision \<rparr>)
      | StampNotEvaluated _ \<Rightarrow> StampNotEvaluated document
      | StampDirty _ \<Rightarrow> StampDirty document)"

definition replace_from_bytes ::
    "'d engine \<Rightarrow> string \<Rightarrow> resident_calculation_effect \<Rightarrow> ('d resident_workbook, unit) step" where
  "replace_from_bytes eg bytes effect wb =
     (case eg_open eg bytes of
        Inl e \<Rightarrow> (wb, Inl e)
      | Inr doc \<Rightarrow>
          let wb = advance_document (wb \<lparr> rw_document := doc \<rparr>) in
          (case effect of
             Preserve \<Rightarrow> wb \<lparr> rw_calculation :=
                 moved_stamp (rw_document_revision wb) (state_revision_id wb) (rw_calculation wb) \<rparr>
           | Invalidate \<Rightarrow> mark_dirty wb, Inr ()))"

section \<open>Publishing cells\<close>

definition logical_predecessor_matches :: "materialized_cell option \<Rightarrow> materialized_cell option \<Rightarrow> bool" where
  "logical_predecessor_matches current expected =
     (case (current, expected) of
        (None, None) \<Rightarrow> True
      | (Some c, Some e) \<Rightarrow>
          (case mc_formula e of Some f \<Rightarrow> mc_formula c = Some f | None \<Rightarrow> c = e)
      | _ \<Rightarrow> False)"

definition check_effect :: "'d engine \<Rightarrow> bool \<Rightarrow> 'd \<Rightarrow> prepared_cell_effect \<Rightarrow> unit res" where
  "check_effect eg check_before doc e =
     bind_res (eg_cell eg doc (ce_sheet_name e) (ce_column e) (ce_row e)) (\<lambda>current.
     bail_if (\<not> (if check_before then current = ce_expected_before e
                 else logical_predecessor_matches current (ce_expected_before e)))
       ''prepared cell logical precondition changed'' (Inr ()))"

definition publish_prepared_cells_inner ::
    "'d engine \<Rightarrow> prepared_cell_effect list \<Rightarrow> bool \<Rightarrow> ('d resident_workbook, unit) step" where
  "publish_prepared_cells_inner eg effects check_before wb =
     (case map_res (check_effect eg check_before (rw_document wb)) effects of
        Inl e \<Rightarrow> (wb, Inl e)
      | Inr _ \<Rightarrow>
          (case map_step (eg_assign eg) effects (rw_document wb) of
             (doc, Inl e) \<Rightarrow> (wb \<lparr> rw_document := doc \<rparr>, Inl e)
           | (doc, Inr _) \<Rightarrow>
               (if effects = [] then wb \<lparr> rw_document := doc \<rparr>
                else mark_dirty (advance_document (wb \<lparr> rw_document := doc \<rparr>)), Inr ())))"

section \<open>The session\<close>

record ('d, 'op) write_session =
  se_resource_id :: string
  se_workbook :: "'d resident_workbook"
  se_staged :: "'op staged_bundle btree"
  se_catalog_generation :: u64
  se_poisoned :: "string option"
  se_base_sha256 :: string
  se_base_bytes :: string

definition session_from_bytes ::
    "'op codec \<Rightarrow> 'd engine \<Rightarrow> string \<Rightarrow> string \<Rightarrow> string \<Rightarrow> ('d, 'op) write_session res" where
  "session_from_bytes cd eg epoch resource_id bytes =
     bind_res (resource_validate resource_id) (\<lambda>parsed.
     bail_if (\<not> starts_with parsed ''session:'') ''resident resources require a session: identifier'' (
     bind_res (workbook_from_bytes eg epoch bytes) (\<lambda>wb.
     Inr \<lparr> se_resource_id = resource_id, se_workbook = wb, se_staged = [], se_catalog_generation = 0,
       se_poisoned = None, se_base_sha256 = sha256_hex cd bytes, se_base_bytes = bytes \<rparr>)))"

definition session_revision :: "('d, 'op) write_session \<Rightarrow> string" where
  "session_revision se = state_revision_id (se_workbook se)"

definition session_key :: "('d, 'op) write_session \<Rightarrow> string" where
  "session_key se = to_workbook_id (se_resource_id se)"

definition ensure_usable :: "('d, 'op) write_session \<Rightarrow> unit res" where
  "ensure_usable se = bail_if (se_poisoned se \<noteq> None) ''resident session requires recovery before use'' (Inr ())"

definition validate_base :: "('d, 'op) write_session \<Rightarrow> string \<Rightarrow> unit res" where
  "validate_base se bytes =
     bind_res (ensure_usable se) (\<lambda>_.
     bail_if (bytes \<noteq> se_base_bytes se) ''resident history base identity mismatch'' (Inr ()))"

definition poison :: "string \<Rightarrow> ('d, 'op) write_session \<Rightarrow> ('d, 'op) write_session" where
  "poison reason se = se \<lparr> se_poisoned := Some reason \<rparr>"

definition unpoison :: "('d, 'op) write_session \<Rightarrow> ('d, 'op) write_session" where
  "unpoison se = se \<lparr> se_poisoned := None \<rparr>"

definition discard_staged :: "string \<Rightarrow> (('d, 'op) write_session, bool) step" where
  "discard_staged change_id se =
     (case ensure_usable se of
        Inl e \<Rightarrow> (se, Inl e)
      | Inr _ \<Rightarrow>
          if bt_contains (se_staged se) change_id
          then (se \<lparr> se_staged := bt_remove change_id (se_staged se),
                  se_catalog_generation := u64_wrapping_add (se_catalog_generation se) 1 \<rparr>, Inr True)
          else (se, Inr False))"

section \<open>The document of a head\<close>

text \<open>A document effect applied while rebuilding a document from the journal.\<close>

definition recover_prepared_document ::
    "'op codec \<Rightarrow> 'd engine \<Rightarrow> string \<Rightarrow> 'op prepared_transaction \<Rightarrow> ('d resident_workbook, unit) step" where
  "recover_prepared_document cd eg base_sha256 prepared =
     bind_step (guard_step (pt_base_sha256 prepared = base_sha256)
       ''prepared transaction base identity does not match resident owner'') (\<lambda>_.
     case pt_publication prepared of
       PubNone \<Rightarrow> return_step ()
     | PubCells effects \<Rightarrow> publish_prepared_cells_inner eg effects False
     | PubSnapshot expected_sha bytes sha effect \<Rightarrow>
         bind_step (read_step (\<lambda>wb. bind_res (eg_save eg (rw_document wb)) (eg_logical_sha eg))) (\<lambda>before.
         bind_step (guard_step (before = expected_sha)
           ''prepared snapshot logical predecessor mismatch during recovery'') (\<lambda>_.
         bind_step (guard_step (sha256_hex cd bytes = sha) ''prepared snapshot content hash mismatch'') (\<lambda>_.
         replace_from_bytes eg bytes effect))))"

text \<open>A record that must carry a prepared transaction.\<close>

definition prepared_of :: "'op codec \<Rightarrow> string \<Rightarrow> prepared_commit \<Rightarrow> 'op prepared_transaction res" where
  "prepared_of cd message r =
     (case prepared_transaction_from_record cd r of None \<Rightarrow> Inl (Bail message) | Some p \<Rightarrow> p)"

definition first_prepared :: "'op codec \<Rightarrow> prepared_commit list \<Rightarrow> 'op prepared_transaction option res" where
  "first_prepared cd records =
     (case find_map (prepared_transaction_from_record cd) records of
        None \<Rightarrow> Inr None | Some p \<Rightarrow> bind_res p (\<lambda>p. Inr (Some p)))"

text \<open>Four parts with the right scheme; the numbers of the last two.\<close>

definition revision_parts :: "string \<Rightarrow> string \<Rightarrow> (string \<times> u64 \<times> u64) res" where
  "revision_parts message revision =
     (case split_on CHR '':'' revision of
        [scheme, epoch, document, state] \<Rightarrow>
          bail_if (scheme \<noteq> ''resident'') message (
          bind_res (ok_or (parse_u64 document) ''invalid digit'') (\<lambda>d.
          bind_res (ok_or (parse_u64 state) ''invalid digit'') (\<lambda>s. Inr (epoch, d, s))))
      | _ \<Rightarrow> Inl (Bail message))"

definition restored_at :: "string \<Rightarrow> string \<Rightarrow> 'd resident_workbook \<Rightarrow> 'd resident_workbook res" where
  "restored_at message revision wb =
     bind_res (revision_parts message revision) (\<lambda>(epoch, document, state).
     Inr (restore_revision_identity epoch document state wb))"

text \<open>The ancestors of a commit, oldest first. A map by identity keeps the last record of each.\<close>

definition record_by_id :: "prepared_commit list \<Rightarrow> string \<Rightarrow> prepared_commit option" where
  "record_by_id records cid = List.find (\<lambda>r. pc_commit_id r = cid) (rev records)"

lemma record_by_id_Some: "record_by_id records cid = Some r \<Longrightarrow> r \<in> set records \<and> pc_commit_id r = cid"
  unfolding record_by_id_def find_Some_iff by (metis length_rev nth_mem set_rev)

function materialize_walk ::
    "prepared_commit list \<Rightarrow> string set \<Rightarrow> string option \<Rightarrow> prepared_commit list \<Rightarrow> prepared_commit list res" where
  "materialize_walk records seen cursor acc =
     (case cursor of
        None \<Rightarrow> Inr acc
      | Some cid \<Rightarrow>
          if cid \<in> seen then Inl (Bail ''resident history ancestry cycle'')
          else (case record_by_id records cid of
              None \<Rightarrow> Inl (Bail ''resident history target references unknown commit'')
            | Some r \<Rightarrow>
                if pc_transition r \<notin> {Mutation, StageApply}
                then Inl (Bail ''resident history ancestry references non-mutation commit'')
                else materialize_walk records (insert cid seen) (pc_history_parent_commit_id r) (r # acc)))"
  by pat_completeness auto
termination
proof (relation "measure (\<lambda>(records, seen, _, _). card (pc_commit_id ` set records - seen))", goal_cases)
  case (2 records seen cursor acc cid r)
  then have "cid \<in> pc_commit_id ` set records - seen"
    by (auto dest!: record_by_id_Some)
  then have "card (pc_commit_id ` set records - insert cid seen) < card (pc_commit_id ` set records - seen)"
    by (intro psubset_card_mono) auto
  then show ?case by simp
qed auto

declare materialize_walk.simps [simp del]

definition recover_record ::
    "'op codec \<Rightarrow> 'd engine \<Rightarrow> string \<Rightarrow> string \<Rightarrow> prepared_commit \<Rightarrow> ('d resident_workbook, unit) step" where
  "recover_record cd eg base_sha256 message r =
     (case prepared_of cd message r of
        Inl e \<Rightarrow> (\<lambda>wb. (wb, Inl e))
      | Inr p \<Rightarrow> recover_prepared_document cd eg base_sha256 p)"

definition materialize_portable_head ::
    "'op codec \<Rightarrow> 'd engine \<Rightarrow> string \<Rightarrow> string \<Rightarrow> prepared_commit list \<Rightarrow> string option \<Rightarrow> string res" where
  "materialize_portable_head cd eg resource_id base_bytes records target =
     bind_res (session_from_bytes cd eg [] resource_id base_bytes) (\<lambda>se.
     bind_res (first_prepared cd records) (\<lambda>first.
     bind_res (case first of
         None \<Rightarrow> Inr (se_workbook se)
       | Some p \<Rightarrow> restored_at ''resident history has invalid epoch identity''
           (response_revision_before (pt_response p)) (se_workbook se)) (\<lambda>wb.
     bind_res (materialize_walk records {} target []) (\<lambda>ancestry.
     (case map_step (recover_record cd eg (se_base_sha256 se) ''resident mutation lacks prepared transaction'')
         ancestry wb of
        (_, Inl e) \<Rightarrow> Inl e
      | (wb, Inr _) \<Rightarrow> eg_save eg (rw_document wb))))))"

section \<open>Committing\<close>

text \<open>An implementation of the journal, and what a client knows after a commit: the identity of the
  record that holds its request, an error with nothing written, or nothing.\<close>

record 's journal =
  jo_load :: "'s \<Rightarrow> string \<Rightarrow> prepared_commit list res"
  jo_commit :: "'s \<Rightarrow> prepared_commit \<Rightarrow> 's \<times> durable_commit_outcome res"
  jo_reconcile :: "'s \<Rightarrow> string \<Rightarrow> string \<Rightarrow> string \<Rightarrow> 's \<times> reconcile_outcome res"

datatype commit_answer = CommitKnown string | CommitRefused err | CommitUnknown

definition commit_or_reconcile :: "'s journal \<Rightarrow> prepared_commit \<Rightarrow> 's \<Rightarrow> 's \<times> commit_answer" where
  "commit_or_reconcile jo r s =
     (case jo_commit jo s r of
        (s, Inr outcome) \<Rightarrow> (s, CommitKnown (dc_commit_id outcome))
      | (s, Inl e) \<Rightarrow>
          (case jo_reconcile jo s (pc_session_id r) (pc_request_id r) (pc_request_fingerprint r) of
             (s, Inr (Committed outcome)) \<Rightarrow> (s, CommitKnown (dc_commit_id outcome))
           | (s, Inr NotFound) \<Rightarrow> (s, CommitRefused e)
           | (s, Inl _) \<Rightarrow> (s, CommitUnknown)))"

text \<open>The digests of the inputs of a request.\<close>

record prints =
  fp_control :: "string \<Rightarrow> resident_transition \<Rightarrow> json list \<Rightarrow> string option \<Rightarrow> string \<Rightarrow> string option btree \<Rightarrow> string"
  fp_discard :: "string \<Rightarrow> string \<Rightarrow> string"
  fp_restart :: "string \<Rightarrow> string \<Rightarrow> string"

record ('d, 'op, 's) durable_lib =
  du_codec :: "'op codec"
  du_engine :: "'d engine"
  du_journal :: "'s journal"
  du_prints :: prints

text \<open>The records of the session's journal with their replayed history.\<close>

definition load_history ::
    "('d, 'op, 's) durable_lib \<Rightarrow> ('d, 'op) write_session \<Rightarrow> 's \<Rightarrow> (prepared_commit list \<times> history_state) res" where
  "load_history lib se s =
     bind_res (jo_load (du_journal lib) s (session_key se)) (\<lambda>records.
     bind_res (replay_bound (du_codec lib) records (session_key se) (se_base_sha256 se)) (\<lambda>h.
     Inr (records, h)))"

definition history_matches :: "history_state \<Rightarrow> ('d, 'op) write_session \<Rightarrow> bool" where
  "history_matches h se =
     (option_all (\<lambda>revision. revision = session_revision se) (hs_state_revision h)
      \<and> hs_catalog_generation h = se_catalog_generation se)"

text \<open>The original outcome of a request that is in the journal already.\<close>

definition reconciled_record_by_request_id ::
    "('d, 'op, 's) durable_lib \<Rightarrow> string \<Rightarrow> (('d, 'op) write_session \<times> 's, prepared_commit option) step" where
  "reconciled_record_by_request_id lib request_id = (\<lambda>(se, s).
     (case bind_res (ensure_usable se) (\<lambda>_. bind_res (load_history lib se s) (\<lambda>(records, h).
         bail_if (\<not> history_matches h se)
           ''resident session requires recovery before outcome reconciliation: state/catalog mismatch''
           (Inr (List.find (\<lambda>r. pc_request_id r = request_id) records)))) of
        Inl e \<Rightarrow> ((se, s), Inl e)
      | Inr None \<Rightarrow> ((se, s), Inr None)
      | Inr (Some r) \<Rightarrow>
          (case jo_reconcile (du_journal lib) s (session_key se) request_id (pc_request_fingerprint r) of
             (s, Inl e) \<Rightarrow> ((se, s), Inl e)
           | (s, Inr NotFound) \<Rightarrow> ((se, s), Inl (Bail ''request disappeared during durable reconciliation''))
           | (s, Inr (Committed _)) \<Rightarrow>
               (case (if pc_transition r = Receipt then effect_get r ''receipt_operation'' else None) of
                  None \<Rightarrow> ((se, s), Inr (Some r))
                | Some operation \<Rightarrow>
                    ((se, s), bind_res (transition_of_json operation) (\<lambda>t.
                       Inr (Some (r \<lparr> pc_transition := t \<rparr>))))))))"

section \<open>Control transitions\<close>

record control =
  ct_transition :: resident_transition
  ct_effects :: "json list"
  ct_head :: "string option"
  ct_branch :: string
  ct_branches :: "string option btree"
  ct_target_bytes :: "string option"

definition catalog_only :: "control \<Rightarrow> bool" where
  "catalog_only c = (ct_transition c \<in> {Checkpoint, CheckpointDelete})"

definition predicted_resident_revision :: "'d resident_workbook \<Rightarrow> bool \<Rightarrow> string" where
  "predicted_resident_revision wb mutated =
     (if \<not> mutated then state_revision_id wb
      else revision_text (rw_epoch wb) (u64_wrapping_add (rw_document_revision wb) 1)
        (u64_wrapping_add (rw_state_revision wb) 1))"

definition control_revision :: "control \<Rightarrow> 'd resident_workbook \<Rightarrow> string" where
  "control_revision c wb =
     (if catalog_only c \<or> ct_transition c = Receipt then state_revision_id wb
      else if ct_target_bytes c \<noteq> None then predicted_resident_revision wb True
      else revision_text (rw_epoch wb) (rw_document_revision wb) (u64_wrapping_add (rw_state_revision wb) 1))"

definition control_record ::
    "('d, 'op, 's) durable_lib \<Rightarrow> string \<Rightarrow> string \<Rightarrow> control \<Rightarrow> history_state \<Rightarrow> ('d, 'op) write_session \<Rightarrow> prepared_commit" where
  "control_record lib commit_id request_id c h se =
     \<lparr> pc_schema_version = resident_commit_schema, pc_session_id = session_key se, pc_commit_id = commit_id,
       pc_parent_commit_id = hs_stream_tip h, pc_history_parent_commit_id = None,
       pc_base_sha256 = se_base_sha256 se, pc_request_id = request_id,
       pc_request_fingerprint = fp_control (du_prints lib) (se_base_sha256 se) (ct_transition c) (ct_effects c)
         (ct_head c) (ct_branch c) (ct_branches c),
       pc_transition = ct_transition c, pc_effects = ct_effects c, pc_resulting_head = ct_head c,
       pc_resulting_branch = ct_branch c, pc_resulting_branches = ct_branches c,
       pc_catalog_generation = (if catalog_only c then u64_wrapping_add (se_catalog_generation se) 1
         else se_catalog_generation se),
       pc_state_revision = control_revision c (se_workbook se) \<rparr>"

text \<open>What a committed control transition does to the session.\<close>

definition publish_control :: "'d engine \<Rightarrow> control \<Rightarrow> (('d, 'op) write_session, unit) step" where
  "publish_control eg c se =
     (if catalog_only c
      then (se \<lparr> se_catalog_generation := u64_wrapping_add (se_catalog_generation se) 1 \<rparr>, Inr ())
      else if ct_transition c = Receipt then (se, Inr ())
      else (case ct_target_bytes c of
          Some bytes \<Rightarrow>
            (case replace_from_bytes eg bytes Invalidate (se_workbook se) of
               (wb, Inl e) \<Rightarrow> (poison ''committed history publication failed'' (se \<lparr> se_workbook := wb \<rparr>), Inl e)
             | (wb, Inr _) \<Rightarrow> (se \<lparr> se_workbook := wb \<rparr>, Inr ()))
        | None \<Rightarrow>
            (se \<lparr> se_workbook := (if ct_transition c = CalculationInvalidate
                 then revoke_calculation_proof (se_workbook se) else advance_state (se_workbook se)) \<rparr>, Inr ())))"

definition after_control_commit ::
    "('d, 'op, 's) durable_lib \<Rightarrow> control \<Rightarrow> prepared_commit \<Rightarrow> string \<Rightarrow> (('d, 'op) write_session \<times> 's, string) step" where
  "after_control_commit lib c proposed committed_id = (\<lambda>(se, s).
     (let pending = poison ''committed history publication pending; recovery required on failure'' se in
      if committed_id \<noteq> pc_commit_id proposed then
        (case bind_res (jo_load (du_journal lib) s (session_key se)) (\<lambda>records.
            ok_or (List.find (\<lambda>r. pc_commit_id r = committed_id) records)
              ''reconciled history commit is not readable'') of
           Inl e \<Rightarrow> ((pending, s), Inl e)
         | Inr existing \<Rightarrow>
             if session_revision se = pc_state_revision existing
                \<and> se_catalog_generation se = pc_catalog_generation existing
             then ((unpoison pending, s), Inr (pc_state_revision existing))
             else ((pending, s), Inl (Bail ''reconciled history transition requires recovery'')))
      else
        (case publish_control (du_engine lib) c pending of
           (se, Inl e) \<Rightarrow> ((se, s), Inl e)
         | (se, Inr _) \<Rightarrow>
             if session_revision se \<noteq> pc_state_revision proposed
             then ((poison ''history publication revision mismatch'' se, s),
               Inl (Bail ''committed history transition failed to publish; recovery required''))
             else ((unpoison se, s), Inr (pc_state_revision proposed)))))"

definition commit_portable_control_transition ::
    "('d, 'op, 's) durable_lib \<Rightarrow> string \<Rightarrow> string \<Rightarrow> control \<Rightarrow> (('d, 'op) write_session \<times> 's, string) step" where
  "commit_portable_control_transition lib commit_id request_id c = (\<lambda>(se, s).
     (case bind_res (ensure_usable se) (\<lambda>_.
         bail_if (request_id = []) ''request_id is required'' (load_history lib se s)) of
        Inl e \<Rightarrow> ((se, s), Inl e)
      | Inr (records, h) \<Rightarrow>
          if \<not> history_matches h se
          then ((poison ''portable history state differs from resident owner'' se, s),
            Inl (Bail ''resident session requires recovery before history transition''))
          else
            let proposed = control_record lib commit_id request_id c h se in
            (case commit_or_reconcile (du_journal lib) proposed s of
               (s, CommitRefused e) \<Rightarrow> ((se, s), Inl e)
             | (s, CommitUnknown) \<Rightarrow> ((poison ''history commit outcome unknown'' se, s),
                 Inl (Bail ''history commit outcome unknown; recovery required''))
             | (s, CommitKnown committed_id) \<Rightarrow> after_control_commit lib c proposed committed_id (se, s))))"

section \<open>The operations\<close>

type_synonym ('d, 'op, 's, 'a) durable_step = "(('d, 'op) write_session \<times> 's, 'a) step"

definition json_opt :: "string option \<Rightarrow> json" where
  "json_opt v = (case v of None \<Rightarrow> JNull | Some s \<Rightarrow> JStr s)"

definition effect_says :: "string \<Rightarrow> string option \<Rightarrow> json \<Rightarrow> bool" where
  "effect_says k v e = (Option.bind (json_get e k) json_str = v)"

definition usable_step :: "('d, 'op, 's, unit) durable_step" where
  "usable_step = read_step (\<lambda>(se, s). ensure_usable se)"

definition base_step :: "string \<Rightarrow> ('d, 'op, 's, unit) durable_step" where
  "base_step base_bytes = read_step (\<lambda>(se, s). validate_base se base_bytes)"

text \<open>A request whose record is in the journal gets its original answer when the input is the same.\<close>

definition retry_or ::
    "('d, 'op, 's) durable_lib \<Rightarrow> string \<Rightarrow> (prepared_commit \<Rightarrow> bool) \<Rightarrow> string
      \<Rightarrow> ('d, 'op, 's, string) durable_step \<Rightarrow> ('d, 'op, 's, string) durable_step" where
  "retry_or lib request_id same_input message fresh =
     bind_step (reconciled_record_by_request_id lib request_id) (\<lambda>found.
     case found of
       Some r \<Rightarrow> if same_input r then return_step (pc_state_revision r) else fail_step message
     | None \<Rightarrow> fresh)"

definition with_history ::
    "('d, 'op, 's) durable_lib
      \<Rightarrow> (('d, 'op) write_session \<Rightarrow> prepared_commit list \<Rightarrow> history_state \<Rightarrow> ('d, 'op, 's, 'a) durable_step)
      \<Rightarrow> ('d, 'op, 's, 'a) durable_step" where
  "with_history lib f = (\<lambda>(se, s).
     (case load_history lib se s of
        Inl e \<Rightarrow> ((se, s), Inl e)
      | Inr (records, h) \<Rightarrow> f se records h (se, s)))"

text \<open>A control that leaves the head and the branches where they are.\<close>

definition control_in_place :: "resident_transition \<Rightarrow> json list \<Rightarrow> history_state \<Rightarrow> control" where
  "control_in_place transition effects h =
     \<lparr> ct_transition = transition, ct_effects = effects, ct_head = hs_head h,
       ct_branch = hs_current_branch h, ct_branches = hs_branches h, ct_target_bytes = None \<rparr>"

definition commit_in_place ::
    "('d, 'op, 's) durable_lib \<Rightarrow> string \<Rightarrow> string \<Rightarrow> resident_transition \<Rightarrow> json list \<Rightarrow> ('d, 'op, 's, string) durable_step" where
  "commit_in_place lib commit_id request_id transition effects =
     with_history lib (\<lambda>_ _ h.
       commit_portable_control_transition lib commit_id request_id (control_in_place transition effects h))"

definition commit_control_receipt ::
    "('d, 'op, 's) durable_lib \<Rightarrow> string \<Rightarrow> string \<Rightarrow> resident_transition \<Rightarrow> json list \<Rightarrow> ('d, 'op, 's, string) durable_step" where
  "commit_control_receipt lib commit_id request_id operation effects =
     bind_step usable_step (\<lambda>_.
     commit_in_place lib commit_id request_id Receipt
       (effects @ [JObj [(''receipt_operation'', JStr (transition_name operation))]]))"

definition move_head_durable ::
    "('d, 'op, 's) durable_lib \<Rightarrow> string \<Rightarrow> string \<Rightarrow> resident_transition \<Rightarrow> string option \<Rightarrow> string
      \<Rightarrow> ('d, 'op, 's, string) durable_step" where
  "move_head_durable lib commit_id request_id transition target base_bytes =
     bind_step (base_step base_bytes) (\<lambda>_.
     with_history lib (\<lambda>se records h.
       bind_step (read_step (\<lambda>_. materialize_portable_head (du_codec lib) (du_engine lib) (se_resource_id se)
         base_bytes records target)) (\<lambda>bytes.
       commit_portable_control_transition lib commit_id request_id
         \<lparr> ct_transition = transition, ct_effects = [JObj [(''target_head'', json_opt target)]],
           ct_head = target, ct_branch = hs_current_branch h, ct_branches = hs_branches h,
           ct_target_bytes = Some bytes \<rparr>)))"

definition undo_durable ::
    "('d, 'op, 's) durable_lib \<Rightarrow> string \<Rightarrow> string \<Rightarrow> string \<Rightarrow> ('d, 'op, 's, string) durable_step" where
  "undo_durable lib commit_id request_id base_bytes =
     bind_step (base_step base_bytes) (\<lambda>_.
     retry_or lib request_id (\<lambda>r. pc_transition r = Undo) ''request identity reuse with different history input''
       (with_history lib (\<lambda>_ _ h.
         (case hs_head h of
            None \<Rightarrow> commit_control_receipt lib commit_id request_id Undo []
          | Some head \<Rightarrow>
              bind_step (read_step (\<lambda>_. history_parent h head)) (\<lambda>target.
              move_head_durable lib commit_id request_id Undo target base_bytes)))))"

definition redo_durable ::
    "('d, 'op, 's) durable_lib \<Rightarrow> string \<Rightarrow> string \<Rightarrow> string \<Rightarrow> ('d, 'op, 's, string) durable_step" where
  "redo_durable lib commit_id request_id base_bytes =
     bind_step (base_step base_bytes) (\<lambda>_.
     retry_or lib request_id (\<lambda>r. pc_transition r = Redo) ''request identity reuse with different history input''
       (with_history lib (\<lambda>_ _ h.
         bind_step (read_step (\<lambda>_. redo_target h)) (\<lambda>target.
         (case target of
            None \<Rightarrow> commit_control_receipt lib commit_id request_id Redo []
          | Some head \<Rightarrow> move_head_durable lib commit_id request_id Redo (Some head) base_bytes)))))"

definition checkout_durable ::
    "('d, 'op, 's) durable_lib \<Rightarrow> string \<Rightarrow> string \<Rightarrow> string \<Rightarrow> string \<Rightarrow> ('d, 'op, 's, string) durable_step" where
  "checkout_durable lib commit_id request_id target base_bytes =
     bind_step (base_step base_bytes) (\<lambda>_.
     retry_or lib request_id
       (\<lambda>r. pc_transition r = Checkout \<and> list_ex (effect_says ''target_head'' (Some target)) (pc_effects r))
       ''request identity reuse with different checkout input''
       (move_head_durable lib commit_id request_id Checkout (Some target) base_bytes))"

definition branch_name_ok :: "string \<Rightarrow> bool" where
  "branch_name_ok name = (name \<noteq> [] \<and> list_all (\<lambda>b. is_alnum b \<or> b = CHR ''_'' \<or> b = CHR ''-'') name)"

definition branch_target ::
    "prepared_commit list \<Rightarrow> history_state \<Rightarrow> string option \<Rightarrow> string option res" where
  "branch_target records h target_commit_id =
     (case target_commit_id of
        None \<Rightarrow> Inr (hs_head h)
      | Some target \<Rightarrow>
          if target = ''base'' then Inr None
          else if list_ex (\<lambda>r. pc_commit_id r = target \<and> pc_transition r \<in> {Mutation, StageApply}) records
          then Inr (Some target) else Inl (Bail ''unknown branch mutation target''))"

definition create_branch_at_durable ::
    "('d, 'op, 's) durable_lib \<Rightarrow> string \<Rightarrow> string \<Rightarrow> string \<Rightarrow> string option \<Rightarrow> string option
      \<Rightarrow> ('d, 'op, 's, string) durable_step" where
  "create_branch_at_durable lib commit_id request_id branch_name target_commit_id label =
     bind_step usable_step (\<lambda>_.
     bind_step (guard_step (option_all (\<lambda>l. length l \<le> 1024) label
         \<and> option_all (\<lambda>t. t \<noteq> [] \<and> length t \<le> 256) target_commit_id)
       ''invalid branch target or label length'') (\<lambda>_.
     bind_step (guard_step (branch_name_ok branch_name) ''invalid branch name'') (\<lambda>_.
     retry_or lib request_id
       (\<lambda>r. pc_transition r = BranchCreate \<and> list_ex (\<lambda>e. effect_says ''branch_name'' (Some branch_name) e
          \<and> effect_says ''requested_target'' target_commit_id e \<and> effect_says ''branch_label'' label e) (pc_effects r))
       ''request identity reuse with different branch-create input''
       (with_history lib (\<lambda>_ records h.
         bind_step (guard_step (\<not> bt_contains (hs_branches h) branch_name) ''branch already exists'') (\<lambda>_.
         bind_step (read_step (\<lambda>_. branch_target records h target_commit_id)) (\<lambda>target.
         commit_portable_control_transition lib commit_id request_id
           \<lparr> ct_transition = BranchCreate,
             ct_effects = (if target_commit_id = None \<and> label = None
               then [JObj [(''branch_name'', JStr branch_name)]]
               else [JObj [(''branch_label'', json_opt label), (''branch_name'', JStr branch_name),
                 (''branch_target'', json_opt target), (''requested_target'', json_opt target_commit_id)]]),
             ct_head = hs_head h, ct_branch = hs_current_branch h,
             ct_branches = bt_insert branch_name target (hs_branches h), ct_target_bytes = None \<rparr>)))))))"

definition switch_branch_durable ::
    "('d, 'op, 's) durable_lib \<Rightarrow> string \<Rightarrow> string \<Rightarrow> string \<Rightarrow> string \<Rightarrow> ('d, 'op, 's, string) durable_step" where
  "switch_branch_durable lib commit_id request_id branch_name base_bytes =
     bind_step (base_step base_bytes) (\<lambda>_.
     retry_or lib request_id
       (\<lambda>r. pc_transition r = BranchSwitch \<and> list_ex (effect_says ''branch_name'' (Some branch_name)) (pc_effects r))
       ''request identity reuse with different branch-switch input''
       (with_history lib (\<lambda>se records h.
         bind_step (read_step (\<lambda>_. ok_or (bt_get (hs_branches h) branch_name) ''unknown branch'')) (\<lambda>target.
         bind_step (read_step (\<lambda>_.
             if target = hs_head h then Inr None
             else map_sum (\<lambda>e. e) Some (materialize_portable_head (du_codec lib) (du_engine lib)
               (se_resource_id se) base_bytes records target))) (\<lambda>target_bytes.
         commit_portable_control_transition lib commit_id request_id
           \<lparr> ct_transition = BranchSwitch, ct_effects = [JObj [(''branch_name'', JStr branch_name)]],
             ct_head = target, ct_branch = branch_name, ct_branches = hs_branches h,
             ct_target_bytes = target_bytes \<rparr>)))))"

text \<open>The effects of a record without the canonical outcome added to it.\<close>

definition plain_effects :: "prepared_commit \<Rightarrow> json list" where
  "plain_effects r = filter (\<lambda>e. json_get e ''canonical_outcome'' = None) (pc_effects r)"

definition checkpoint_durable ::
    "('d, 'op, 's) durable_lib \<Rightarrow> string \<Rightarrow> string \<Rightarrow> string option \<Rightarrow> ('d, 'op, 's, string) durable_step" where
  "checkpoint_durable lib commit_id request_id label =
     (let effects = [JObj [(''label'', json_opt label)]] in
      bind_step usable_step (\<lambda>_.
      retry_or lib request_id (\<lambda>r. pc_transition r = Checkpoint \<and> plain_effects r = effects)
        ''request identity reuse with different checkpoint input''
        (commit_in_place lib commit_id request_id Checkpoint effects)))"

definition list_checkpoints_durable ::
    "('d, 'op, 's) durable_lib \<Rightarrow> ('d, 'op, 's, resident_checkpoint list) durable_step" where
  "list_checkpoints_durable lib =
     bind_step usable_step (\<lambda>_. with_history lib (\<lambda>_ _ h. return_step (map snd (hs_checkpoints h))))"

definition restore_checkpoint_durable ::
    "('d, 'op, 's) durable_lib \<Rightarrow> string \<Rightarrow> string \<Rightarrow> string \<Rightarrow> ('d, 'op, 's, string) durable_step" where
  "restore_checkpoint_durable lib commit_id request_id checkpoint_id =
     bind_step usable_step (\<lambda>_.
     retry_or lib request_id
       (\<lambda>r. pc_transition r = Checkout \<and> list_ex (effect_says ''checkpoint_id'' (Some checkpoint_id)) (pc_effects r))
       ''request identity reuse with different checkpoint restore input''
       (with_history lib (\<lambda>se records h.
         bind_step (read_step (\<lambda>_. ok_or (bt_get (hs_checkpoints h) checkpoint_id) ''unknown checkpoint'')) (\<lambda>checkpoint.
         bind_step (read_step (\<lambda>_. materialize_portable_head (du_codec lib) (du_engine lib) (se_resource_id se)
           (se_base_bytes se) records (rc_head checkpoint))) (\<lambda>bytes.
         commit_portable_control_transition lib commit_id request_id
           \<lparr> ct_transition = Checkout,
             ct_effects = [JObj [(''checkpoint_id'', JStr checkpoint_id), (''target_head'', json_opt (rc_head checkpoint))]],
             ct_head = rc_head checkpoint, ct_branch = hs_current_branch h, ct_branches = hs_branches h,
             ct_target_bytes = Some bytes \<rparr>)))))"

definition delete_checkpoint_durable ::
    "('d, 'op, 's) durable_lib \<Rightarrow> string \<Rightarrow> string \<Rightarrow> string \<Rightarrow> ('d, 'op, 's, string) durable_step" where
  "delete_checkpoint_durable lib commit_id request_id checkpoint_id =
     (let effects = [JObj [(''checkpoint_id'', JStr checkpoint_id)]] in
      bind_step usable_step (\<lambda>_.
      retry_or lib request_id (\<lambda>r. pc_transition r = CheckpointDelete \<and> plain_effects r = effects)
        ''request identity reuse with different checkpoint deletion input''
        (with_history lib (\<lambda>_ _ h.
          bind_step (guard_step (bt_contains (hs_checkpoints h) checkpoint_id) ''unknown checkpoint'') (\<lambda>_.
          commit_portable_control_transition lib commit_id request_id
            (control_in_place CheckpointDelete effects h))))))"

definition revoke_calculation_durable ::
    "('d, 'op, 's) durable_lib \<Rightarrow> string \<Rightarrow> string \<Rightarrow> ('d, 'op, 's, string) durable_step" where
  "revoke_calculation_durable lib commit_id request_id =
     (let effects = [JObj [(''reason'', JStr ''explicit_proof_revocation'')]] in
      bind_step usable_step (\<lambda>_.
      retry_or lib request_id
        (\<lambda>r. pc_transition r = CalculationInvalidate
          \<and> list_ex (effect_says ''reason'' (Some ''explicit_proof_revocation'')) (pc_effects r))
        ''request identity reuse with different calculation input''
        (bind_step (read_step (\<lambda>(se, s). Inr (case rw_calculation (se_workbook se) of StampDirty _ \<Rightarrow> True | _ \<Rightarrow> False)))
          (\<lambda>dirty.
          if dirty then commit_control_receipt lib commit_id request_id CalculationInvalidate effects
          else commit_in_place lib commit_id request_id CalculationInvalidate effects))))"

section \<open>Receipts\<close>

definition commit_creation_receipt ::
    "('d, 'op, 's) durable_lib \<Rightarrow> string \<Rightarrow> string \<Rightarrow> json \<Rightarrow> ('d, 'op, 's, string) durable_step" where
  "commit_creation_receipt lib commit_id request_id request =
     with_history lib (\<lambda>_ records h.
       bind_step (guard_step (records = []) ''creation requires an unpublished empty journal'') (\<lambda>_.
       commit_portable_control_transition lib commit_id request_id
         (control_in_place Receipt [JObj [(''resource_creation'', request)]] h)))"

definition commit_discard_receipt ::
    "('d, 'op, 's) durable_lib \<Rightarrow> string \<Rightarrow> string \<Rightarrow> json \<Rightarrow> ('d, 'op, 's, string) durable_step" where
  "commit_discard_receipt lib commit_id request_id request =
     bind_step usable_step (\<lambda>_.
     with_history lib (\<lambda>_ _ h.
       bind_step (guard_step (\<not> hs_discarded h) ''resource has been discarded'') (\<lambda>_.
       commit_portable_control_transition lib commit_id request_id
         (control_in_place Receipt [JObj [(''resource_discard'', request)]] h))))"

definition commit_export_receipt ::
    "('d, 'op, 's) durable_lib \<Rightarrow> string \<Rightarrow> string \<Rightarrow> json \<Rightarrow> json \<Rightarrow> ('d, 'op, 's, string) durable_step" where
  "commit_export_receipt lib commit_id request_id request artifact =
     commit_in_place lib commit_id request_id Receipt
       [JObj [(''resource_export'', JObj [(''artifact'', artifact), (''request'', request)])]]"

definition commit_file_export_receipt ::
    "('d, 'op, 's) durable_lib \<Rightarrow> string \<Rightarrow> string \<Rightarrow> json \<Rightarrow> ('d, 'op, 's, string) durable_step" where
  "commit_file_export_receipt lib commit_id request_id effect =
     commit_in_place lib commit_id request_id Receipt [effect]"

section \<open>Discarding a staged change\<close>

definition discard_effect :: "string \<Rightarrow> json" where
  "discard_effect change_id = JObj [(''discard_staged_change_id'', JStr change_id)]"

definition discard_record ::
    "('d, 'op, 's) durable_lib \<Rightarrow> string \<Rightarrow> string \<Rightarrow> string \<Rightarrow> history_state \<Rightarrow> ('d, 'op) write_session \<Rightarrow> prepared_commit" where
  "discard_record lib commit_id request_id change_id h se =
     \<lparr> pc_schema_version = resident_commit_schema, pc_session_id = session_key se, pc_commit_id = commit_id,
       pc_parent_commit_id = hs_stream_tip h, pc_history_parent_commit_id = None,
       pc_base_sha256 = se_base_sha256 se, pc_request_id = request_id,
       pc_request_fingerprint = fp_discard (du_prints lib) change_id (session_revision se),
       pc_transition = CatalogDiscard, pc_effects = [discard_effect change_id], pc_resulting_head = hs_head h,
       pc_resulting_branch = hs_current_branch h, pc_resulting_branches = hs_branches h,
       pc_catalog_generation = u64_wrapping_add (se_catalog_generation se) 1,
       pc_state_revision = session_revision se \<rparr>"

text \<open>After the check that the last record is the state of the session.\<close>

definition discard_commit ::
    "('d, 'op, 's) durable_lib \<Rightarrow> string \<Rightarrow> string \<Rightarrow> string \<Rightarrow> prepared_commit list \<Rightarrow> history_state \<Rightarrow> ('d, 'op, 's, bool) durable_step" where
  "discard_commit lib commit_id request_id change_id records h = (\<lambda>(se, s).
     (if \<not> option_all (\<lambda>r. pc_state_revision r = session_revision se
            \<and> pc_catalog_generation r = se_catalog_generation se) (last_opt records)
      then ((poison ''durable journal state does not match resident state'' se, s),
        Inl (Bail ''resident session requires recovery before catalog mutation''))
      else
        (case commit_or_reconcile (du_journal lib) (discard_record lib commit_id request_id change_id h se) s of
           (s, CommitRefused e) \<Rightarrow> ((se, s), Inl e)
         | (s, CommitUnknown) \<Rightarrow> ((poison ''catalog commit outcome unknown'' se, s),
             Inl (Bail ''catalog commit outcome unknown; recovery required''))
         | (s, CommitKnown _) \<Rightarrow>
             (case discard_staged change_id se of
                (se, Inl e) \<Rightarrow> ((se, s), Inl e)
              | (se, Inr False) \<Rightarrow> ((poison ''committed staged discard could not publish'' se, s),
                  Inl (Bail ''committed catalog transition failed to publish; recovery required''))
              | (se, Inr True) \<Rightarrow> ((se, s), Inr True)))))"

definition discard_staged_durable ::
    "('d, 'op, 's) durable_lib \<Rightarrow> string \<Rightarrow> string \<Rightarrow> string \<Rightarrow> ('d, 'op, 's, bool) durable_step" where
  "discard_staged_durable lib commit_id request_id change_id =
     bind_step usable_step (\<lambda>_.
     bind_step (guard_step (request_id \<noteq> []) ''request_id is required for durable catalog mutations'') (\<lambda>_.
     bind_step (reconciled_record_by_request_id lib request_id) (\<lambda>found.
     case found of
       Some r \<Rightarrow>
         if pc_transition r = CatalogDiscard
           \<and> list_ex (effect_says ''discard_staged_change_id'' (Some change_id)) (pc_effects r)
         then return_step (\<not> has_effect r ''receipt_operation'')
         else fail_step ''request identity reuse with different catalog input''
     | None \<Rightarrow>
         bind_step (read_step (\<lambda>(se, s). Inr (bt_contains (se_staged se) change_id))) (\<lambda>there.
         if \<not> there
         then bind_step (commit_control_receipt lib commit_id request_id CatalogDiscard [discard_effect change_id])
           (\<lambda>_. return_step False)
         else with_history lib (\<lambda>_ records h. discard_commit lib commit_id request_id change_id records h)))))"

section \<open>Recovery\<close>

text \<open>The catalog follows the whole stream, whatever the head.\<close>

definition catalog_step ::
    "'op codec \<Rightarrow> 'op staged_bundle btree \<times> u64 \<Rightarrow> prepared_commit \<Rightarrow> ('op staged_bundle btree \<times> u64) res" where
  "catalog_step cd = (\<lambda>(staged, generation) r.
     (let next_generation = u64_wrapping_add generation 1 in
      case pc_transition r of
        CatalogStage \<Rightarrow>
          bind_res (prepared_of cd ''catalog-stage lacks prepared transaction'' r) (\<lambda>p.
          bind_res (ok_or (pt_staged p) ''catalog-stage lacks staged bundle'') (\<lambda>(change_id, bundle).
          bail_if (bt_contains staged change_id) ''duplicate staged change identity during recovery''
            (Inr (bt_insert change_id bundle staged, next_generation))))
      | CatalogDiscard \<Rightarrow>
          bind_res (ok_or (effect_str r ''discard_staged_change_id'') ''catalog-discard lacks staged identity'') (\<lambda>change_id.
          bail_if (\<not> bt_contains staged change_id) ''catalog-discard references missing staged change''
            (Inr (bt_remove change_id staged, next_generation)))
      | StageApply \<Rightarrow>
          bind_res (prepared_of cd ''stage-apply lacks prepared transaction'' r) (\<lambda>p.
          bind_res (ok_or (pt_consume_staged p) ''stage-apply lacks consumed staged identity'') (\<lambda>change_id.
          bail_if (\<not> bt_contains staged change_id) ''stage-apply references missing staged change''
            (Inr (bt_remove change_id staged, next_generation))))
      | Checkpoint \<Rightarrow> Inr (staged, next_generation)
      | CheckpointDelete \<Rightarrow> Inr (staged, next_generation)
      | _ \<Rightarrow> Inr (staged, generation)))"

text \<open>The mutations that are not in the current document are rebuilt too, only to see that they can be.\<close>

definition check_inactive ::
    "'op codec \<Rightarrow> 'd engine \<Rightarrow> string \<Rightarrow> string \<Rightarrow> prepared_commit list \<Rightarrow> string set \<Rightarrow> prepared_commit \<Rightarrow> unit res" where
  "check_inactive cd eg resource_id base_bytes records active r =
     (if pc_commit_id r \<in> active \<or> pc_transition r \<notin> {Mutation, StageApply} then Inr ()
      else bind_res (prepared_of cd ''mutation lacks prepared transaction'' r) (\<lambda>p.
        if pt_publication p = PubNone then Inr ()
        else bind_res (materialize_portable_head cd eg resource_id base_bytes records (Some (pc_commit_id r)))
          (\<lambda>_. Inr ())))"

definition initial_workbook ::
    "'op codec \<Rightarrow> prepared_commit list \<Rightarrow> ('d, 'op) write_session \<Rightarrow> 'd resident_workbook res" where
  "initial_workbook cd records se =
     bind_res (first_prepared cd records) (\<lambda>first.
     (case first of
        None \<Rightarrow> Inr (se_workbook se)
      | Some p \<Rightarrow>
          bail_if (pt_base_sha256 p \<noteq> se_base_sha256 se) ''resident recovery base workbook identity mismatch''
            (restored_at ''resident recovery has invalid initial revision identity''
              (response_revision_before (pt_response p)) (se_workbook se))))"

text \<open>Once the document is rebuilt: the other mutations, the catalog and the identity of the revision.\<close>

definition finish_recovery ::
    "'op codec \<Rightarrow> 'd engine \<Rightarrow> string \<Rightarrow> string \<Rightarrow> prepared_commit list \<Rightarrow> string set \<Rightarrow> history_state
      \<Rightarrow> ('d, 'op) write_session \<Rightarrow> 'd resident_workbook \<Rightarrow> ('d, 'op) write_session res" where
  "finish_recovery cd eg resource_id base_bytes records active h se wb =
     bind_res (map_res (check_inactive cd eg resource_id base_bytes records active) records) (\<lambda>_.
     bind_res (fold_res (catalog_step cd) ([], 0) records) (\<lambda>(staged, generation).
     bail_if (generation \<noteq> hs_catalog_generation h) ''resident recovered catalog generation mismatch'' (
     bind_res (case hs_state_revision h of
         None \<Rightarrow> Inr wb
       | Some revision \<Rightarrow>
           bind_res (restored_at ''resident history has invalid final revision identity'' revision wb) (\<lambda>wb.
           Inr (mark_restart_boundary wb))) (\<lambda>wb.
     Inr (se \<lparr> se_workbook := wb, se_staged := staged, se_catalog_generation := generation \<rparr>)))))"

definition recover_from_records ::
    "'op codec \<Rightarrow> 'd engine \<Rightarrow> string \<Rightarrow> string \<Rightarrow> string \<Rightarrow> prepared_commit list \<Rightarrow> ('d, 'op) write_session res" where
  "recover_from_records cd eg epoch resource_id base_bytes records =
     bind_res (resource_validate resource_id) (\<lambda>parsed.
     bind_res (replay_bound cd records (to_workbook_id parsed) (sha256_hex cd base_bytes)) (\<lambda>h.
     bind_res (session_from_bytes cd eg epoch resource_id base_bytes) (\<lambda>se.
     bind_res (initial_workbook cd records se) (\<lambda>wb.
     bind_res (active_ancestry h) (\<lambda>active.
     (case map_step (recover_record cd eg (se_base_sha256 se) ''active mutation lacks prepared transaction'')
         (filter (\<lambda>r. pc_commit_id r \<in> set active) records) wb of
        (_, Inl e) \<Rightarrow> Inl e
      | (wb, Inr _) \<Rightarrow> finish_recovery cd eg resource_id base_bytes records (set active) h se wb))))))"

definition restart_record ::
    "('d, 'op, 's) durable_lib \<Rightarrow> string \<Rightarrow> string \<Rightarrow> string \<Rightarrow> prepared_commit list \<Rightarrow> history_state \<Rightarrow> ('d, 'op) write_session
      \<Rightarrow> prepared_commit" where
  "restart_record lib commit_id request_id session_id records h se =
     \<lparr> pc_schema_version = resident_commit_schema, pc_session_id = session_id, pc_commit_id = commit_id,
       pc_parent_commit_id = hs_stream_tip h, pc_history_parent_commit_id = None,
       pc_base_sha256 = hs_base_sha256 h, pc_request_id = request_id,
       pc_request_fingerprint = fp_restart (du_prints lib) (pc_commit_id (last records)) (session_revision se),
       pc_transition = Restart, pc_effects = [JObj [(''restart_boundary'', JBool True)]],
       pc_resulting_head = hs_head h, pc_resulting_branch = hs_current_branch h,
       pc_resulting_branches = hs_branches h, pc_catalog_generation = se_catalog_generation se,
       pc_state_revision = session_revision se \<rparr>"

text \<open>A new owner of a journal: the session it describes, with the restart recorded unless the resource
  was discarded. Identities of the commit, the request and the epoch are random in the code.\<close>

definition recover_durable_resident_session ::
    "('d, 'op, 's) durable_lib \<Rightarrow> string \<Rightarrow> string \<Rightarrow> string \<Rightarrow> string \<Rightarrow> string \<Rightarrow> ('s, ('d, 'op) write_session) step" where
  "recover_durable_resident_session lib epoch commit_id request_id resource_id base_bytes s =
     (case bind_res (resource_validate resource_id) (\<lambda>parsed.
         bind_res (jo_load (du_journal lib) s (to_workbook_id parsed)) (\<lambda>records.
         bind_res (recover_from_records (du_codec lib) (du_engine lib) epoch resource_id base_bytes records) (\<lambda>se.
         Inr (to_workbook_id parsed, records, se)))) of
        Inl e \<Rightarrow> (s, Inl e)
      | Inr (session_id, records, se) \<Rightarrow>
          if records = [] then (s, Inr se)
          else
            (case replay_bound (du_codec lib) records session_id (sha256_hex (du_codec lib) base_bytes) of
               Inl e \<Rightarrow> (s, Inl e)
             | Inr h \<Rightarrow>
                 if hs_discarded h then (s, Inr se)
                 else
                   (case commit_or_reconcile (du_journal lib)
                       (restart_record lib commit_id request_id session_id records h se) s of
                      (s, CommitKnown _) \<Rightarrow> (s, Inr se)
                    | (s, CommitRefused e) \<Rightarrow> (s, Inl e)
                    | (s, CommitUnknown) \<Rightarrow> (s, Inl (Bail ''restart commit outcome unknown'')))))"

section \<open>Requests\<close>

text \<open>The requests of a client, and an operation reduced to what it does to the state.\<close>

datatype durable_request =
    RequestUndo
  | RequestRedo
  | RequestCheckout string
  | RequestBranch string "string option" "string option"
  | RequestSwitch string
  | RequestCheckpoint "string option"
  | RequestRestore string
  | RequestDeleteCheckpoint string
  | RequestRevoke
  | RequestDiscard string

definition without_result :: "('s, 'a) step \<Rightarrow> ('s, unit) step" where
  "without_result m = bind_step m (\<lambda>_. return_step ())"

fun durable_request_step ::
    "('d, 'op, 's) durable_lib \<Rightarrow> string \<Rightarrow> string \<Rightarrow> string \<Rightarrow> durable_request \<Rightarrow> ('d, 'op, 's, unit) durable_step" where
  "durable_request_step lib cid q base RequestUndo = without_result (undo_durable lib cid q base)"
| "durable_request_step lib cid q base RequestRedo = without_result (redo_durable lib cid q base)"
| "durable_request_step lib cid q base (RequestCheckout target) = without_result (checkout_durable lib cid q target base)"
| "durable_request_step lib cid q base (RequestBranch name target label) =
     without_result (create_branch_at_durable lib cid q name target label)"
| "durable_request_step lib cid q base (RequestSwitch name) = without_result (switch_branch_durable lib cid q name base)"
| "durable_request_step lib cid q base (RequestCheckpoint label) = without_result (checkpoint_durable lib cid q label)"
| "durable_request_step lib cid q base (RequestRestore checkpoint) =
     without_result (restore_checkpoint_durable lib cid q checkpoint)"
| "durable_request_step lib cid q base (RequestDeleteCheckpoint checkpoint) =
     without_result (delete_checkpoint_durable lib cid q checkpoint)"
| "durable_request_step lib cid q base RequestRevoke = without_result (revoke_calculation_durable lib cid q)"
| "durable_request_step lib cid q base (RequestDiscard change_id) =
     without_result (discard_staged_durable lib cid q change_id)"

section \<open>Triples\<close>

text \<open>From a state with \<open>P\<close> a step ends with \<open>Q\<close> of its result, or in an error with \<open>E\<close>.\<close>

definition triple :: "('s \<Rightarrow> bool) \<Rightarrow> ('s, 'a) step \<Rightarrow> ('a \<Rightarrow> 's \<Rightarrow> bool) \<Rightarrow> ('s \<Rightarrow> bool) \<Rightarrow> bool" where
  "triple P m Q E = (\<forall>s. P s \<longrightarrow> (case m s of (t, Inr x) \<Rightarrow> Q x t | (t, Inl e) \<Rightarrow> E t))"

lemma triple_bind:
  "triple P m R E \<Longrightarrow> (\<And>x. triple (R x) (f x) Q E) \<Longrightarrow> triple P (bind_step m f) Q E"
  unfolding triple_def bind_step_def by (auto split: prod.splits sum.splits) fastforce+

lemma triple_read: "(\<And>s. P s \<Longrightarrow> E s) \<Longrightarrow> (\<And>s x. P s \<Longrightarrow> f s = Inr x \<Longrightarrow> Q x s) \<Longrightarrow> triple P (read_step f) Q E"
  by (auto simp: triple_def read_step_def split: sum.splits)

lemma triple_guard: "(\<And>s. P s \<Longrightarrow> E s) \<Longrightarrow> (\<And>s. P s \<Longrightarrow> b \<Longrightarrow> Q () s) \<Longrightarrow> triple P (guard_step b m) Q E"
  by (auto simp: triple_def guard_step_def)

lemma triple_return: "(\<And>s. P s \<Longrightarrow> Q x s) \<Longrightarrow> triple P (return_step x) Q E"
  by (simp add: triple_def return_step_def)

lemma triple_fail: "(\<And>s. P s \<Longrightarrow> E s) \<Longrightarrow> triple P (fail_step m) Q E"
  by (simp add: triple_def fail_step_def)

lemma triple_weaken: "triple P m Q E \<Longrightarrow> (\<And>s. P' s \<Longrightarrow> P s) \<Longrightarrow> (\<And>x s. Q x s \<Longrightarrow> Q' x s) \<Longrightarrow> triple P' m Q' E"
  by (fastforce simp: triple_def split: prod.splits sum.splits)

lemma triple_fst: "triple P m (\<lambda>_. Q) Q \<Longrightarrow> P s \<Longrightarrow> Q (fst (m s))"
  unfolding triple_def by (cases "m s", cases "snd (m s)") fastforce+

section \<open>The session and its journal\<close>

definition in_step :: "prepared_commit list \<Rightarrow> ('d, 'op) write_session \<Rightarrow> bool" where
  "in_step records se = option_all (\<lambda>r. pc_state_revision r = session_revision se
     \<and> pc_catalog_generation r = se_catalog_generation se) (last_opt records)"

text \<open>A session that can be used is in the state of the last record of its journal.\<close>

definition in_agreement :: "('s \<Rightarrow> string \<Rightarrow> prepared_commit list) \<Rightarrow> ('d, 'op) write_session \<Rightarrow> 's \<Rightarrow> bool" where
  "in_agreement log se s = (se_poisoned se \<noteq> None \<or> in_step (log s (session_key se)) se)"

definition journal_of ::
    "('s \<Rightarrow> string \<Rightarrow> prepared_commit list res) \<Rightarrow> ('s \<Rightarrow> prepared_commit \<Rightarrow> 's \<times> durable_commit_outcome res)
      \<Rightarrow> ('s \<Rightarrow> string \<Rightarrow> string \<Rightarrow> string \<Rightarrow> 's \<times> reconcile_outcome res) \<Rightarrow> 's journal" where
  "journal_of ld cm rc = \<lparr> jo_load = ld, jo_commit = cm, jo_reconcile = rc \<rparr>"

lemma publish_control_frame:
  assumes "publish_control eg c se = (se', r)"
  shows "session_key se' = session_key se"
    and "se_poisoned se \<noteq> None \<Longrightarrow> se_poisoned se' \<noteq> None"
    and "r = Inr () \<Longrightarrow> se_catalog_generation se' = (if catalog_only c
      then u64_wrapping_add (se_catalog_generation se) 1 else se_catalog_generation se)"
  using assms
  by (auto simp: publish_control_def session_key_def poison_def split: option.splits prod.splits sum.splits if_splits)

lemma session_simps [simp]:
  "session_key (poison m se) = session_key se" "session_key (unpoison se) = session_key se"
  "session_revision (poison m se) = session_revision se" "session_revision (unpoison se) = session_revision se"
  "se_poisoned (poison m se) = Some m" "se_poisoned (unpoison se) = None"
  "se_catalog_generation (poison m se) = se_catalog_generation se"
  "se_catalog_generation (unpoison se) = se_catalog_generation se"
  "in_step rs (poison m se) = in_step rs se" "in_step rs (unpoison se) = in_step rs se"
  by (simp_all add: session_key_def session_revision_def poison_def unpoison_def in_step_def)

lemma control_record_simps [simp]:
  "pc_session_id (control_record lib cid q c h se) = session_key se"
  "pc_request_id (control_record lib cid q c h se) = q" "pc_commit_id (control_record lib cid q c h se) = cid"
  by (simp_all add: control_record_def)

lemma resource_validate_same: "resource_validate v = Inr parsed \<Longrightarrow> parsed = v"
  by (auto simp: resource_validate_def bail_if_def split: option.splits if_splits)

lemma finish_recovery_frame:
  "finish_recovery cd eg resource base records active h se1 wb = Inr se \<Longrightarrow>
     se_poisoned se = se_poisoned se1 \<and> se_resource_id se = se_resource_id se1"
  by (auto simp: finish_recovery_def bind_res_Inr bail_if_def split: if_splits)

lemma recover_from_records_frame:
  assumes "recover_from_records cd eg epoch resource base records = Inr se"
  shows "se_poisoned se = None \<and> se_resource_id se = resource"
proof -
  from assms obtain se1 h active wb where se1: "session_from_bytes cd eg epoch resource base = Inr se1"
    and se: "finish_recovery cd eg resource base records (set active) h se1 wb = Inr se"
    unfolding recover_from_records_def bind_res_Inr by (fastforce split: prod.split_asm sum.split_asm)
  from se1 have "se_poisoned se1 = None \<and> se_resource_id se1 = resource"
    by (auto simp: session_from_bytes_def bind_res_Inr bail_if_def split: if_splits)
  with finish_recovery_frame [OF se] show ?thesis by simp
qed

context commit_storage
begin

definition ready :: "string \<Rightarrow> ('d, 'op) write_session \<times> 's \<Rightarrow> bool" where
  "ready cid = (\<lambda>(se, s). inv s \<and> in_agreement log se s \<and> cid \<notin> pc_commit_id ` set (log s (session_key se)))"

definition settled :: "('d, 'op) write_session \<times> 's \<Rightarrow> bool" where
  "settled = (\<lambda>(se, s). inv s \<and> in_agreement log se s)"

lemma ready_settled: "ready cid x \<Longrightarrow> settled x"
  by (auto simp: ready_def settled_def)

text \<open>What the journal holds after a commit whose outcome is known or refused.\<close>

lemma commit_answer:
  assumes "inv s" and "commit_or_reconcile (journal_of load commit reconcile) r s = (s', answer)"
  shows "inv s' \<and> (log s' = log s \<or> log s' = (log s)(pc_session_id r := log s (pc_session_id r) @ [r]))
    \<and> (\<forall>e. answer = CommitRefused e \<longrightarrow> log s' = log s)
    \<and> (\<forall>cid. answer = CommitKnown cid \<longrightarrow> (\<exists>e \<in> set (log s' (pc_session_id r)).
        pc_request_id e = pc_request_id r \<and> pc_commit_id e = cid))"
proof -
  obtain s1 x where c: "commit s r = (s1, x)" by fastforce
  note inv1 = commit_inv [OF assms(1) c]
  have logs: "log s1 = log s \<or> log s1 = (log s)(pc_session_id r := log s (pc_session_id r) @ [r])"
    using commit_log [OF assms(1) c] by blast
  show ?thesis
  proof (cases x)
    case (Inr outcome)
    with c assms(2) have "s' = s1" "answer = CommitKnown (dc_commit_id outcome)"
      by (auto simp: commit_or_reconcile_def journal_of_def)
    moreover have "\<exists>e \<in> set (log s1 (pc_session_id r)). pc_request_id e = pc_request_id r
        \<and> pc_commit_id e = dc_commit_id outcome"
      using commit_ok [OF assms(1) c [unfolded Inr]] by (metis durable_commit_outcome.select_convs(1) nth_mem)
    ultimately show ?thesis using inv1 logs by simp
  next
    case (Inl e)
    obtain s2 y where rc: "reconcile s1 (pc_session_id r) (pc_request_id r) (pc_request_fingerprint r) = (s2, y)"
      by fastforce
    note inv2 = reconcile_inv [OF inv1 rc]
    from c rc Inl assms(2) have s': "s' = s2" and ans: "answer = (case y of Inl _ \<Rightarrow> CommitUnknown
        | Inr NotFound \<Rightarrow> CommitRefused e | Inr (Committed o') \<Rightarrow> CommitKnown (dc_commit_id o'))"
      by (auto simp: commit_or_reconcile_def journal_of_def split: sum.splits reconcile_outcome.splits)
    have refused: "log s1 = log s" if "y = Inr NotFound"
      using reconcile_not_found [OF inv1 rc [unfolded that]] logs by (auto simp: fun_upd_def split: if_splits)
    have known: "\<exists>e \<in> set (log s2 (pc_session_id r)). pc_request_id e = pc_request_id r \<and> pc_commit_id e = dc_commit_id o'"
      if "y = Inr (Committed o')" for o'
      using reconcile_committed [OF inv1 rc [unfolded that]] inv2
      by (metis durable_commit_outcome.select_convs(1) nth_mem)
    show ?thesis using inv2 logs refused known by (auto simp: s' ans split: sum.splits reconcile_outcome.splits)
  qed
qed

text \<open>A record whose request was new is the last one.\<close>

lemma known_new_request:
  assumes "inv s" and "commit_or_reconcile (journal_of load commit reconcile) r s = (s', CommitKnown cid)"
    and "pc_request_id r \<notin> pc_request_id ` set (log s (pc_session_id r))"
  shows "log s' (pc_session_id r) = log s (pc_session_id r) @ [r]"
proof -
  from commit_answer [OF assms(1,2)] obtain e where e: "e \<in> set (log s' (pc_session_id r))"
    "pc_request_id e = pc_request_id r"
    and logs: "log s' = log s \<or> log s' = (log s)(pc_session_id r := log s (pc_session_id r) @ [r])" by blast
  have "log s' \<noteq> log s" using e assms(3) by (metis image_eqI)
  with logs show ?thesis by simp
qed

text \<open>A record with a new identity is the last one when that identity is the answer.\<close>

lemma known_new_identity:
  assumes "inv s" and "commit_or_reconcile (journal_of load commit reconcile) r s = (s', CommitKnown cid)"
    and "pc_commit_id r \<notin> pc_commit_id ` set (log s (pc_session_id r))"
  shows "if cid = pc_commit_id r then log s' (pc_session_id r) = log s (pc_session_id r) @ [r] else log s' = log s"
proof -
  from commit_answer [OF assms(1,2)] obtain e where e: "e \<in> set (log s' (pc_session_id r))"
    "pc_request_id e = pc_request_id r" "pc_commit_id e = cid" and inv': "inv s'"
    and logs: "log s' = log s \<or> log s' = (log s)(pc_session_id r := log s (pc_session_id r) @ [r])" by blast
  show ?thesis
  proof (cases "log s' = log s")
    case True
    then have "cid \<noteq> pc_commit_id r" using e assms(3) by (metis image_eqI)
    with True show ?thesis by simp
  next
    case False
    with logs have "log s' (pc_session_id r) = log s (pc_session_id r) @ [r]" by simp
    moreover from this e requests_distinct [OF inv', of "pc_session_id r"] have "e = r"
      by (auto simp: image_iff)
    ultimately show ?thesis using e by simp
  qed
qed

lemma after_control_settled:
  assumes lib: "du_journal lib = journal_of load commit reconcile" and inv: "inv s1"
    and step: "in_step (log s (session_key se)) se"
    and known: "if committed = cid then log s1 (session_key se) = log s (session_key se) @ [control_record lib cid q c h se]
      else log s1 = log s"
    and after: "after_control_commit lib c (control_record lib cid q c h se) committed (se, s1) = ((se', s'), r)"
  shows "settled (se', s')"
proof (cases "committed = cid")
  case False
  with after have "s' = s1" "se_poisoned se' \<noteq> None \<or> (\<exists>m. se' = unpoison (poison m se))"
    by (auto simp: after_control_commit_def Let_def split: sum.splits if_splits)
  with False known step inv show ?thesis by (auto simp: settled_def in_agreement_def)
next
  case True
  let ?pending = "poison ''committed history publication pending; recovery required on failure'' se"
  obtain se2 pr where publish: "publish_control (du_engine lib) c ?pending = (se2, pr)" by fastforce
  note frame = publish_control_frame [OF publish]
  show ?thesis
  proof (cases "pr = Inr () \<and> session_revision se2 = pc_state_revision (control_record lib cid q c h se)")
    case False
    with after True publish frame have "s' = s1" "se_poisoned se' \<noteq> None"
      by (auto simp: after_control_commit_def Let_def split: sum.splits if_splits)
    with inv show ?thesis by (simp add: settled_def in_agreement_def)
  next
    case same: True
    with after True publish have "s' = s1" "se' = unpoison se2" by (auto simp: after_control_commit_def Let_def)
    moreover have "in_step (log s1 (session_key se2)) se2"
      using known True same frame by (simp add: in_step_def option_all_def) (simp add: control_record_def)
    ultimately show ?thesis using inv by (simp add: settled_def in_agreement_def)
  qed
qed

lemma control_commit_settled:
  assumes lib: "du_journal lib = journal_of load commit reconcile" and start: "ready cid (se, s)"
    and run: "commit_portable_control_transition lib cid q c (se, s) = ((se', s'), r)"
  shows "settled (se', s')"
proof -
  have inv: "inv s" and agree: "in_agreement log se s"
    and fresh: "cid \<notin> pc_commit_id ` set (log s (session_key se))"
    using start by (auto simp: ready_def)
  let ?before = "bind_res (ensure_usable se) (\<lambda>_. bail_if (q = []) ''request_id is required'' (load_history lib se s))"
  show ?thesis
  proof (cases ?before)
    case (Inl e)
    with run show ?thesis using inv agree
      by (auto simp: commit_portable_control_transition_def settled_def)
  next
    case (Inr rh)
    then obtain records h where before: "?before = Inr (records, h)" by (cases rh) auto
    have usable: "se_poisoned se = None"
      using before by (auto simp: ensure_usable_def bail_if_def split: if_splits)
    show ?thesis
    proof (cases "history_matches h se")
      case False
      with run before show ?thesis using inv
        by (auto simp: commit_portable_control_transition_def settled_def in_agreement_def)
    next
      case True
      let ?r = "control_record lib cid q c h se"
      obtain s1 answer where ca: "commit_or_reconcile (journal_of load commit reconcile) ?r s = (s1, answer)"
        by fastforce
      note facts = commit_answer [OF inv ca]
      have step: "in_step (log s (session_key se)) se" using agree usable by (simp add: in_agreement_def)
      show ?thesis
      proof (cases answer)
        case (CommitRefused e)
        with run before True ca facts step show ?thesis
          by (auto simp: commit_portable_control_transition_def lib Let_def settled_def in_agreement_def)
      next
        case CommitUnknown
        with run before True ca facts show ?thesis
          by (auto simp: commit_portable_control_transition_def lib Let_def settled_def in_agreement_def)
      next
        case (CommitKnown committed)
        with run before True ca have after: "after_control_commit lib c ?r committed (se, s1) = ((se', s'), r)"
          by (simp add: commit_portable_control_transition_def lib Let_def)
        from known_new_identity [OF inv ca [unfolded CommitKnown]] fresh
        have "if committed = cid then log s1 (session_key se) = log s (session_key se) @ [?r] else log s1 = log s"
          by (simp split: if_split_asm)
        from after_control_settled [OF lib _ step this after] facts show ?thesis by simp
      qed
    qed
  qed
qed

lemma control_triple:
  "du_journal lib = journal_of load commit reconcile \<Longrightarrow>
     triple (ready cid) (commit_portable_control_transition lib cid q c) (\<lambda>_. settled) settled"
  using control_commit_settled by (auto simp: triple_def split: sum.splits)

definition unseen :: "string \<Rightarrow> ('d, 'op) write_session \<times> 's \<Rightarrow> bool" where
  "unseen q = (\<lambda>(se, s). q \<notin> pc_request_id ` set (log s (session_key se)))"

text \<open>Looking for a request leaves the session and the journal; finding none means there is none.\<close>

lemma reconciled_frame:
  assumes "du_journal lib = journal_of load commit reconcile" and "inv s"
    and "reconciled_record_by_request_id lib q (se, s) = ((se', s'), r)"
  shows "se' = se \<and> inv s' \<and> log s' = log s \<and> (r = Inr None \<longrightarrow> unseen q (se, s))"
proof -
  let ?look = "bind_res (ensure_usable se) (\<lambda>_. bind_res (load_history lib se s) (\<lambda>(records, h).
         bail_if (\<not> history_matches h se)
           ''resident session requires recovery before outcome reconciliation: state/catalog mismatch''
           (Inr (List.find (\<lambda>r. pc_request_id r = q) records))))"
  consider e where "?look = Inl e" | "?look = Inr None" | x where "?look = Inr (Some x)" by (cases ?look) auto
  then show ?thesis
  proof cases
    case 2
    then obtain records where "load s (session_key se) = Inr records" "List.find (\<lambda>r. pc_request_id r = q) records = None"
      by (auto simp: bind_res_Inr load_history_def assms(1) journal_of_def)
    with load_log [OF assms(2)] have "unseen q (se, s)" by (auto simp: unseen_def find_None_iff)
    with 2 assms(2,3) show ?thesis by (auto simp: reconciled_record_by_request_id_def)
  next
    case (3 x)
    obtain s1 y where rc: "reconcile s (session_key se) q (pc_request_fingerprint x) = (s1, y)" by fastforce
    from 3 assms(3) rc have "se' = se" "s' = s1" "r \<noteq> Inr None"
      by (auto simp: reconciled_record_by_request_id_def assms(1) journal_of_def bind_res_Inr
          split: sum.splits reconcile_outcome.splits option.splits if_splits)
    with reconcile_inv [OF assms(2) rc] show ?thesis by simp
  qed (use assms(2,3) in \<open>auto simp: reconciled_record_by_request_id_def\<close>)
qed

lemma reconciled_triple:
  assumes "du_journal lib = journal_of load commit reconcile"
  shows "triple (ready cid) (reconciled_record_by_request_id lib q)
    (\<lambda>r x. ready cid x \<and> (r = None \<longrightarrow> unseen q x)) settled"
  unfolding triple_def
proof (intro allI impI)
  fix x :: "('a, 'b) write_session \<times> 's"
  assume ready: "ready cid x"
  obtain se s where x: "x = (se, s)" by (cases x)
  obtain se' s' r where run: "reconciled_record_by_request_id lib q (se, s) = ((se', s'), r)" by (metis prod.exhaust)
  from ready x have "inv s" by (simp add: ready_def)
  note frame = reconciled_frame [OF assms this run]
  show "case reconciled_record_by_request_id lib q x of
      (t, Inr r) \<Rightarrow> ready cid t \<and> (r = None \<longrightarrow> unseen q t) | (t, Inl e) \<Rightarrow> settled t"
    using ready frame by (auto simp: x run ready_def settled_def in_agreement_def unseen_def split: sum.splits)
qed

lemma retry_triple:
  assumes lib: "du_journal lib = journal_of load commit reconcile"
    and fresh: "triple (ready cid) fresh (\<lambda>_. settled) settled"
  shows "triple (ready cid) (retry_or lib q same m fresh) (\<lambda>_. settled) settled"
  unfolding retry_or_def
proof (rule triple_bind [OF reconciled_triple [OF lib]])
  fix found :: "prepared_commit option"
  show "triple (\<lambda>x. ready cid x \<and> (found = None \<longrightarrow> unseen q x))
      (case found of None \<Rightarrow> fresh | Some r \<Rightarrow> if same r then return_step (pc_state_revision r) else fail_step m)
      (\<lambda>_. settled) settled"
    by (auto split: option.split intro!: triple_return triple_fail intro: ready_settled triple_weaken [OF fresh])
qed

lemma history_triple:
  "(\<And>se records h. triple P (f se records h) Q E) \<Longrightarrow> (\<And>x. P x \<Longrightarrow> E x) \<Longrightarrow> triple P (with_history lib f) Q E"
  unfolding triple_def with_history_def by (auto split: sum.splits prod.splits)

lemma ready_read: "triple (ready cid) (read_step f) (\<lambda>_. ready cid) settled"
  by (rule triple_read) (auto intro: ready_settled)

lemma ready_guard: "triple (ready cid) (guard_step b m) (\<lambda>_. ready cid) settled"
  by (rule triple_guard) (auto intro: ready_settled)

lemma settled_result: "triple P m (\<lambda>_. settled) settled \<Longrightarrow> triple P (without_result m) (\<lambda>_. settled) settled"
  unfolding without_result_def by (erule triple_bind) (rule triple_return, simp)

lemmas ready_walk = triple_bind [OF ready_read] triple_bind [OF ready_guard]

lemma ready_history:
  "(\<And>se records h. triple (ready cid) (f se records h) Q settled) \<Longrightarrow> triple (ready cid) (with_history lib f) Q settled"
  by (rule history_triple) (auto intro: ready_settled)

lemma in_place_triple:
  "du_journal lib = journal_of load commit reconcile \<Longrightarrow>
     triple (ready cid) (commit_in_place lib cid q transition effects) (\<lambda>_. settled) settled"
  unfolding commit_in_place_def by (intro ready_history control_triple)

lemma receipt_triple:
  "du_journal lib = journal_of load commit reconcile \<Longrightarrow>
     triple (ready cid) (commit_control_receipt lib cid q operation effects) (\<lambda>_. settled) settled"
  unfolding commit_control_receipt_def usable_step_def by (intro ready_walk in_place_triple)

lemma move_head_triple:
  "du_journal lib = journal_of load commit reconcile \<Longrightarrow>
     triple (ready cid) (move_head_durable lib cid q transition target base) (\<lambda>_. settled) settled"
  unfolding move_head_durable_def base_step_def by (intro ready_walk ready_history control_triple)

lemma discard_triple:
  assumes lib: "du_journal lib = journal_of load commit reconcile"
  shows "triple (\<lambda>x. ready cid x \<and> unseen q x) (discard_commit lib cid q change_id records h) (\<lambda>_. settled) settled"
  unfolding triple_def
proof (intro allI impI)
  fix x :: "('a, 'b) write_session \<times> 's"
  assume start: "ready cid x \<and> unseen q x"
  obtain se s where x: "x = (se, s)" by (cases x)
  from start x have inv: "inv s" and agree: "in_agreement log se s"
    and new: "q \<notin> pc_request_id ` set (log s (session_key se))"
    by (auto simp: ready_def unseen_def)
  let ?r = "discard_record lib cid q change_id h se"
  have r: "pc_session_id ?r = session_key se" "pc_request_id ?r = q" by (simp_all add: discard_record_def)
  obtain s1 answer where ca: "commit_or_reconcile (journal_of load commit reconcile) ?r s = (s1, answer)" by fastforce
  note facts = commit_answer [OF inv ca]
  have "log s1 (session_key se) = log s (session_key se) @ [?r]" if "answer = CommitKnown c" for c
    using known_new_request [OF inv ca [unfolded that]] new by (simp add: r)
  then have known: "settled (se', s1)"
    if "answer = CommitKnown c" "discard_staged change_id se = (se', Inr True)" for c se'
    using that facts
    by (auto simp: settled_def in_agreement_def in_step_def option_all_def discard_staged_def discard_record_def
        session_key_def session_revision_def split: sum.splits if_splits)
  have poisoned: "se' = se \<and> se_poisoned se \<noteq> None" if "discard_staged change_id se = (se', Inl e)" for se' e
    using that by (auto simp: discard_staged_def ensure_usable_def bail_if_def split: sum.splits if_splits)
  show "case discard_commit lib cid q change_id records h x of
      (t, Inr r) \<Rightarrow> settled t | (t, Inl e) \<Rightarrow> settled t"
    using facts inv agree known poisoned
    by (auto simp: x discard_commit_def lib ca settled_def in_agreement_def split: commit_answer.split sum.split prod.split
        bool.split)
qed

lemma discard_durable_triple:
  assumes lib: "du_journal lib = journal_of load commit reconcile"
  shows "triple (ready cid) (discard_staged_durable lib cid q change_id) (\<lambda>_. settled) settled"
  unfolding discard_staged_durable_def usable_step_def
proof (intro ready_walk triple_bind [OF reconciled_triple [OF lib]])
  fix found :: "prepared_commit option"
  let ?P = "\<lambda>x. ready cid x \<and> (found = None \<longrightarrow> unseen q x)"
  let ?receipt = "bind_step (commit_control_receipt lib cid q CatalogDiscard [discard_effect change_id])
    (\<lambda>_. return_step False)"
  have receipt: "triple (ready cid) ?receipt (\<lambda>_. settled) settled"
    by (rule triple_bind [OF receipt_triple [OF lib]]) (rule triple_return)
  have fresh: "triple (\<lambda>x. ready cid x \<and> unseen q x) (with_history lib (\<lambda>_ records h.
      discard_commit lib cid q change_id records h)) (\<lambda>_. settled) settled"
    by (rule history_triple) (auto intro: discard_triple [OF lib] ready_settled)
  have "triple (\<lambda>x. ready cid x \<and> unseen q x)
      (bind_step (read_step (\<lambda>(se, s). Inr (bt_contains (se_staged se) change_id))) (\<lambda>there.
         if \<not> there then ?receipt
         else with_history lib (\<lambda>_ records h. discard_commit lib cid q change_id records h)))
      (\<lambda>_. settled) settled"
    by (rule triple_bind [where R = "\<lambda>_ x. ready cid x \<and> unseen q x"], rule triple_read)
      (auto intro: ready_settled fresh triple_weaken [OF receipt])
  then show "triple ?P (case found of None \<Rightarrow>
        bind_step (read_step (\<lambda>(se, s). Inr (bt_contains (se_staged se) change_id))) (\<lambda>there.
          if \<not> there then ?receipt
          else with_history lib (\<lambda>_ records h. discard_commit lib cid q change_id records h))
      | Some r \<Rightarrow> if pc_transition r = CatalogDiscard
           \<and> list_ex (effect_says ''discard_staged_change_id'' (Some change_id)) (pc_effects r)
         then return_step (\<not> has_effect r ''receipt_operation'')
         else fail_step ''request identity reuse with different catalog input'') (\<lambda>_. settled) settled"
    by (auto split: option.split intro!: triple_return triple_fail intro: ready_settled)
qed

lemmas walk = ready_walk ready_history retry_triple control_triple in_place_triple receipt_triple
  move_head_triple settled_result discard_durable_triple

text \<open>No request of a client takes the session out of agreement with its journal.\<close>

lemma request_settled:
  assumes "du_journal lib = journal_of load commit reconcile"
  shows "triple (ready cid) (durable_request_step lib cid q base req) (\<lambda>_. settled) settled"
  by (cases req)
    (auto simp: undo_durable_def redo_durable_def checkout_durable_def create_branch_at_durable_def
      switch_branch_durable_def checkpoint_durable_def restore_checkpoint_durable_def delete_checkpoint_durable_def
      revoke_calculation_durable_def base_step_def usable_step_def Let_def assms
      intro!: walk split: option.split)

text \<open>A request that is in the journal already.\<close>

definition answered :: "string \<Rightarrow> ('d, 'op) write_session \<Rightarrow> 's \<Rightarrow> ('d, 'op) write_session \<times> 's \<Rightarrow> bool" where
  "answered q se0 s0 = (\<lambda>(se, s). se = se0 \<and> inv s \<and> log s = log s0
     \<and> q \<in> pc_request_id ` set (log s0 (session_key se0)))"

lemma answered_reconciled:
  assumes "du_journal lib = journal_of load commit reconcile"
    and "\<And>r. triple (answered q se0 s0) (f (Some r)) (\<lambda>_. answered q se0 s0) (answered q se0 s0)"
  shows "triple (answered q se0 s0) (bind_step (reconciled_record_by_request_id lib q) f)
    (\<lambda>_. answered q se0 s0) (answered q se0 s0)"
proof (rule triple_bind [where R = "\<lambda>found x. answered q se0 s0 x \<and> found \<noteq> None"])
  show "triple (answered q se0 s0) (reconciled_record_by_request_id lib q)
      (\<lambda>found x. answered q se0 s0 x \<and> found \<noteq> None) (answered q se0 s0)"
    unfolding triple_def
  proof (intro allI impI)
    fix x :: "('a, 'b) write_session \<times> 's"
    assume answered: "answered q se0 s0 x"
    obtain se s where x: "x = (se, s)" by (cases x)
    obtain se' s' r where run: "reconciled_record_by_request_id lib q (se, s) = ((se', s'), r)"
      by (metis prod.exhaust)
    from answered x have "inv s" by (simp add: answered_def)
    from reconciled_frame [OF assms(1) this run] answered
    show "case reconciled_record_by_request_id lib q x of
        (t, Inr found) \<Rightarrow> answered q se0 s0 t \<and> found \<noteq> None | (t, Inl e) \<Rightarrow> answered q se0 s0 t"
      unfolding x run by (auto simp: answered_def unseen_def split: sum.splits)
  qed
  show "triple (\<lambda>x. answered q se0 s0 x \<and> found \<noteq> None) (f found) (\<lambda>_. answered q se0 s0) (answered q se0 s0)"
    for found
    using assms(2) by (cases found) (auto simp: triple_def)
qed

lemma answered_retry:
  "du_journal lib = journal_of load commit reconcile \<Longrightarrow>
     triple (answered q se0 s0) (retry_or lib q same m fresh) (\<lambda>_. answered q se0 s0) (answered q se0 s0)"
  unfolding retry_or_def by (rule answered_reconciled) (auto intro: triple_return triple_fail)

lemma answered_read: "triple (answered q se0 s0) (read_step f) (\<lambda>_. answered q se0 s0) (answered q se0 s0)"
  by (rule triple_read)

lemma answered_guard: "triple (answered q se0 s0) (guard_step b m) (\<lambda>_. answered q se0 s0) (answered q se0 s0)"
  by (rule triple_guard)

lemma answered_result:
  "triple P m (\<lambda>_. P) P \<Longrightarrow> triple P (without_result m) (\<lambda>_. P) P"
  unfolding without_result_def by (erule triple_bind) (rule triple_return, simp)

lemma answered_discard:
  assumes "du_journal lib = journal_of load commit reconcile"
  shows "triple (answered q se0 s0) (discard_staged_durable lib cid q change_id) (\<lambda>_. answered q se0 s0) (answered q se0 s0)"
  unfolding discard_staged_durable_def usable_step_def
  by (intro triple_bind [OF answered_read] triple_bind [OF answered_guard] answered_reconciled [OF assms])
    (auto intro: triple_return triple_fail)

lemma request_answered:
  assumes "du_journal lib = journal_of load commit reconcile"
  shows "triple (answered q se0 s0) (durable_request_step lib cid q base req) (\<lambda>_. answered q se0 s0) (answered q se0 s0)"
  by (cases req)
    (auto simp: undo_durable_def redo_durable_def checkout_durable_def create_branch_at_durable_def
      switch_branch_durable_def checkpoint_durable_def restore_checkpoint_durable_def delete_checkpoint_durable_def
      revoke_calculation_durable_def base_step_def usable_step_def Let_def assms
      intro!: answered_result triple_bind [OF answered_read] triple_bind [OF answered_guard] answered_retry
        answered_discard)

lemma request_again:
  assumes "inv s" and "du_journal lib = journal_of load commit reconcile"
    and "q \<in> pc_request_id ` set (log s (session_key se))"
    and "durable_request_step lib cid q base req (se, s) = ((se', s'), r)"
  shows "se' = se \<and> log s' = log s"
proof -
  have "answered q se s (se, s)" using assms by (simp add: answered_def)
  from triple_fst [OF request_answered [OF assms(2)] this, of cid base req] assms(4)
  show ?thesis by (simp add: answered_def)
qed

text \<open>A recovered session whose restart was recorded.\<close>

lemma recovered_settled:
  assumes lib: "du_journal lib = journal_of load commit reconcile" and inv: "inv s"
    and run: "recover_durable_resident_session lib epoch cid q resource base s = (s', Inr se)"
    and fresh: "q \<notin> pc_request_id ` set (log s (to_workbook_id resource))"
    and live: "\<And>h. replay_bound (du_codec lib) (log s (to_workbook_id resource)) (to_workbook_id resource)
      (sha256_hex (du_codec lib) base) = Inr h \<Longrightarrow> \<not> hs_discarded h"
  shows "settled (se, s') \<and> se_poisoned se = None \<and> session_key se = to_workbook_id resource"
proof -
  let ?key = "to_workbook_id resource"
  from run obtain records where load: "load s ?key = Inr records"
    and rec: "recover_from_records (du_codec lib) (du_engine lib) epoch resource base records = Inr se"
    and rest: "if records = [] then s' = s else
      (case replay_bound (du_codec lib) records ?key (sha256_hex (du_codec lib) base) of
         Inl e \<Rightarrow> False
       | Inr h \<Rightarrow> hs_discarded h \<or> (\<exists>c. commit_or_reconcile (du_journal lib)
           (restart_record lib cid q ?key records h se) s = (s', CommitKnown c)))"
    by (auto simp: recover_durable_resident_session_def bind_res_Inr lib journal_of_def
        dest!: resource_validate_same split: sum.splits if_splits prod.splits commit_answer.splits)
  note records = load_log [OF inv load]
  have se: "se_poisoned se = None" "session_key se = ?key"
    using recover_from_records_frame [OF rec] by (simp_all add: session_key_def)
  show ?thesis
  proof (cases "records = []")
    case True
    with rest records inv se show ?thesis by (simp add: settled_def in_agreement_def in_step_def)
  next
    case False
    with rest live obtain h c where ca: "commit_or_reconcile (journal_of load commit reconcile)
        (restart_record lib cid q ?key records h se) s = (s', CommitKnown c)"
      by (auto simp: lib records split: sum.splits)
    have r: "pc_session_id (restart_record lib cid q ?key records h se) = ?key"
      "pc_request_id (restart_record lib cid q ?key records h se) = q"
      by (simp_all add: restart_record_def)
    from known_new_request [OF inv ca] fresh
    have "log s' ?key = log s ?key @ [restart_record lib cid q ?key records h se]" by (simp add: r)
    with commit_answer [OF inv ca] se show ?thesis
      by (simp add: settled_def in_agreement_def in_step_def option_all_def) (simp add: restart_record_def)
  qed
qed

end

section \<open>Reachable sessions\<close>

definition discarded_log :: "'op codec \<Rightarrow> prepared_commit list \<Rightarrow> string \<Rightarrow> string \<Rightarrow> bool" where
  "discarded_log cd records key base =
     (case replay_bound cd records key (sha256_hex cd base) of Inl _ \<Rightarrow> False | Inr h \<Rightarrow> hs_discarded h)"

text \<open>What a process can do: recover a session that was not discarded from the journal, then serve
  requests. New identities are never in the journal already.\<close>

inductive durable_reaches ::
    "('s \<Rightarrow> string \<Rightarrow> prepared_commit list) \<Rightarrow> ('d, 'op, 's) durable_lib \<Rightarrow> 's
      \<Rightarrow> ('d, 'op) write_session \<times> 's \<Rightarrow> bool" for log lib s0 where
  recovered: "recover_durable_resident_session lib epoch cid q resource base s0 = (s, Inr se) \<Longrightarrow>
     q \<notin> pc_request_id ` set (log s0 (to_workbook_id resource)) \<Longrightarrow>
     \<not> discarded_log (du_codec lib) (log s0 (to_workbook_id resource)) (to_workbook_id resource) base \<Longrightarrow>
     durable_reaches log lib s0 (se, s)"
| requested: "durable_reaches log lib s0 (se, s) \<Longrightarrow> cid \<notin> pc_commit_id ` set (log s (session_key se)) \<Longrightarrow>
     durable_reaches log lib s0 (fst (durable_request_step lib cid q base req (se, s)))"

context commit_storage
begin

lemma reaches_settled:
  assumes "durable_reaches log lib s0 x" and "inv s0" and "du_journal lib = journal_of load commit reconcile"
  shows "settled x"
  using assms(1)
proof induction
  case (recovered epoch cid q resource base s se)
  then have "\<not> hs_discarded h" if "replay_bound (du_codec lib) (log s0 (to_workbook_id resource))
      (to_workbook_id resource) (sha256_hex (du_codec lib) base) = Inr h" for h
    using that by (simp add: discarded_log_def)
  then show ?case using recovered_settled [OF assms(3,2) recovered(1,2)] by simp
next
  case (requested se s cid q base req)
  then have "ready cid (se, s)" by (simp add: ready_def settled_def)
  then show ?case by (rule triple_fst [OF request_settled [OF assms(3)]])
qed

end

section \<open>A concrete run\<close>

definition run_engine :: "unit engine" where
  "run_engine = \<lparr> eg_open = (\<lambda>_. Inr ()), eg_save = (\<lambda>_. Inr ''b''), eg_cell = (\<lambda>_ _ _ _. Inr None),
     eg_assign = (\<lambda>_ d. (d, Inr ())), eg_logical_sha = Inr \<rparr>"

definition run_session :: "(unit, unit) write_session" where
  "run_session = \<lparr> se_resource_id = ''session:s1'',
     se_workbook = \<lparr> rw_document = (), rw_epoch = ''e'', rw_document_revision = 0, rw_state_revision = 0,
       rw_calculation = StampNotEvaluated 0 \<rparr>,
     se_staged = [], se_catalog_generation = 0, se_poisoned = None, se_base_sha256 = ''b'', se_base_bytes = ''b'' \<rparr>"

definition run_checkpoint :: prepared_commit where
  "run_checkpoint = run_record ''k1'' None ''q1'' Checkpoint [JObj [(''label'', JNull)]] None None None
     ''resident:e:0:0'' \<lparr> pc_catalog_generation := 1 \<rparr>"

definition run_checkpoint_journal :: "unit journal_codec" where
  "run_checkpoint_journal = run_line_codec run_codec \<lparr> je_sequence = 1, je_record = run_checkpoint,
     je_previous_hash = None, je_hash = ''sha256:k1'' \<rparr>"

definition run_lib :: "(unit, unit, native_journal) durable_lib" where
  "run_lib = \<lparr> du_codec = run_codec, du_engine = run_engine,
     du_journal = journal_of (native_load run_checkpoint_journal) (native_commit run_checkpoint_journal)
       (native_reconcile run_checkpoint_journal),
     du_prints = \<lparr> fp_control = (\<lambda>_ _ _ _ _ _. ''fp''), fp_discard = (\<lambda>_ _. ''fp''), fp_restart = (\<lambda>_ _. ''fp'') \<rparr> \<rparr>"

lemma run_key: "resource_validate ''session:s1'' = Inr ''session:s1''" "to_workbook_id ''session:s1'' = ''s1''"
  by (simp_all add: resource_validate_def to_workbook_id_def str_eval bail_if_def)

lemma run_load: "native_load run_checkpoint_journal native_open ''s1'' = Inr []"
  by (simp add: native_load_def load_envelopes_with_boundary_def session_s1 native_open_def validate_private_file_def)

lemma run_history: "replay_bound run_codec [] ''s1'' ''b'' = Inr (history_empty ''s1'' ''b'')"
  by (simp add: replay_bound_def)

lemma run_sha [simp]: "sha256_hex run_codec s = s"
  by (simp add: run_codec_def plain_codec_def)

lemma run_opened:
  "session_from_bytes run_codec run_engine ''e'' ''session:s1'' ''b'' = Inr run_session"
  by (simp add: session_from_bytes_def run_key workbook_from_bytes_def run_engine_def run_session_def str_eval)

lemma run_recovered:
  "recover_durable_resident_session run_lib ''e'' ''r0'' ''q0'' ''session:s1'' ''b'' native_open
     = (native_open, Inr run_session)"
  by (simp add: recover_durable_resident_session_def run_key run_load run_lib_def journal_of_def
      recover_from_records_def run_history run_opened)
    (simp add: finish_recovery_def initial_workbook_def first_prepared_def active_ancestry_def history_empty_def
      active_walk.simps return_step_def run_session_def)

lemma run_checkpoint_accepts: "\<exists>rs. accepts run_codec ''s1'' ''b'' [run_checkpoint] rs"
  by (simp add: accepts_def replay_start_def history_empty_def replay_step_def run_unfold run_checkpoint_def
      step_checkpoint_def bump_catalog_def effect_str_def bt_eval bt_contains_def str_eval u64_wrapping_add_small
      Let_def del: bt_contains_iff)

lemma run_checkpoint_replay: "\<exists>st. replay_bound run_codec [run_checkpoint] ''s1'' ''b'' = Inr st"
  using run_checkpoint_accepts replay_bound_accepts by blast

lemma run_checkpoint_commit:
  "native_commit run_checkpoint_journal native_open run_checkpoint
    = (after_first, Inr \<lparr> dc_commit_id = ''k1'', dc_sequence = 1 \<rparr>)"
proof -
  obtain st where "replay_bound run_codec [run_checkpoint] ''s1'' ''b'' = Inr st"
    using run_checkpoint_replay by blast
  moreover have "pc_session_id run_checkpoint = ''s1''" "pc_base_sha256 run_checkpoint = ''b''"
    "pc_parent_commit_id run_checkpoint = None" "pc_commit_id run_checkpoint = ''k1''"
    "pc_schema_version run_checkpoint = resident_commit_schema"
    by (simp_all add: run_checkpoint_def run_record_def resident_commit_schema_def)
  moreover have "run_codec = jc_codec run_checkpoint_journal"
    by (simp add: run_checkpoint_journal_def run_line_codec_def)
  moreover have "envelope_hash run_checkpoint_journal (Suc 0) run_checkpoint None = ''sha256:k1''"
    by (simp add: envelope_hash_def run_checkpoint_journal_def run_line_codec_def run_checkpoint_def run_record_def)
  moreover have "jc_write_line run_checkpoint_journal \<lparr> je_sequence = Suc 0, je_record = run_checkpoint,
     je_previous_hash = None, je_hash = ''sha256:k1'' \<rparr> = ''x''"
    by (simp add: run_checkpoint_journal_def run_line_codec_def)
  ultimately show ?thesis
    by (simp add: native_commit_def load_envelopes_with_boundary_def session_s1 native_open_def
        validate_private_file_def commit_new_def Let_def u64_checked_add_def write_envelope_def
        append_line_def sync_file_def sync_directory_def after_first_def)
qed

lemma run_revision: "state_revision_id (se_workbook run_session) = ''resident:e:0:0''"
proof -
  have "show_nat 0 = ''0''" by (simp add: str_eval char_of_def bit_Suc_0_iff)
  then show ?thesis by (simp add: state_revision_id_def revision_text_def run_session_def)
qed

lemma run_control_record:
  "control_record run_lib ''k1'' ''q1'' (control_in_place Checkpoint [JObj [(''label'', JNull)]]
     (history_empty ''s1'' ''b'')) (history_empty ''s1'' ''b'') run_session = run_checkpoint"
  by (simp add: control_record_def control_in_place_def run_checkpoint_def run_record_def run_lib_def
      history_empty_def resident_commit_schema_def catalog_only_def control_revision_def run_revision)
    (simp add: run_session_def session_key_def run_key u64_wrapping_add_small)

lemma run_checkpoint_step:
  "durable_request_step run_lib ''k1'' ''q1'' ''b'' (RequestCheckpoint None) (run_session, native_open)
     = ((run_session \<lparr> se_catalog_generation := 1 \<rparr>, after_first), Inr ())"
proof -
  have lib: "du_codec run_lib = run_codec" "jo_load (du_journal run_lib) = native_load run_checkpoint_journal"
    "jo_commit (du_journal run_lib) = native_commit run_checkpoint_journal"
    by (simp_all add: run_lib_def journal_of_def)
  have session: "session_key run_session = ''s1''" "se_base_sha256 run_session = ''b''"
    "ensure_usable run_session = Inr ()"
    by (simp_all add: run_session_def session_key_def run_key ensure_usable_def)
  have history: "load_history run_lib run_session native_open = Inr ([], history_empty ''s1'' ''b'')"
    by (simp add: load_history_def lib session run_load run_history)
  have matches: "history_matches (history_empty ''s1'' ''b'') run_session"
    by (simp add: history_matches_def history_empty_def run_session_def)
  let ?c = "control_in_place Checkpoint [JObj [(''label'', JNull)]] (history_empty ''s1'' ''b'')"
  have catalog: "catalog_only ?c" by (simp add: catalog_only_def control_in_place_def)
  have fields: "pc_commit_id run_checkpoint = ''k1''" "pc_state_revision run_checkpoint = ''resident:e:0:0''"
    by (simp_all add: run_checkpoint_def run_record_def)
  have published: "publish_control (du_engine run_lib) ?c (poison m run_session)
      = (poison m (run_session \<lparr> se_catalog_generation := 1 \<rparr>), Inr ())" for m
    by (simp add: publish_control_def catalog poison_def) (simp add: run_session_def u64_wrapping_add_small)
  have cleared: "unpoison (poison m (run_session \<lparr> se_catalog_generation := 1 \<rparr>))
      = run_session \<lparr> se_catalog_generation := 1 \<rparr>" for m
    by (simp add: unpoison_def poison_def run_session_def)
  have revision: "session_revision (run_session \<lparr> se_catalog_generation := 1 \<rparr>) = ''resident:e:0:0''"
    using run_revision by (simp add: session_revision_def)
  have commit: "commit_portable_control_transition run_lib ''k1'' ''q1'' ?c (run_session, native_open)
    = ((run_session \<lparr> se_catalog_generation := 1 \<rparr>, after_first), Inr ''resident:e:0:0'')"
    by (simp add: commit_portable_control_transition_def session history matches run_control_record Let_def
        commit_or_reconcile_def lib run_checkpoint_commit after_control_commit_def published fields cleared revision
        del: One_nat_def)
  show ?thesis
    by (simp add: without_result_def checkpoint_durable_def Let_def step_defs usable_step_def session retry_or_def
        reconciled_record_by_request_id_def history matches commit_in_place_def with_history_def json_opt_def commit)
qed

lemma run_checkpoint_journal_ok: "line_codec_ok run_checkpoint_journal"
  by (simp add: run_checkpoint_journal_def run_line_codec_ok)

lemma run_session_key [simp]:
  "session_key run_session = ''s1''" "session_key (run_session \<lparr> se_catalog_generation := g \<rparr>) = ''s1''"
  by (simp_all add: session_key_def run_session_def run_key)

lemma run_checkpoint_empty: "native_log run_checkpoint_journal native_open ''s1'' = []"
  by (simp add: native_log_def load_envelopes_with_boundary_def session_s1 native_open_def validate_private_file_def)

lemma run_checkpoint_reached:
  "durable_reaches (native_log run_checkpoint_journal) run_lib native_open
     (run_session \<lparr> se_catalog_generation := 1 \<rparr>, after_first)"
proof -
  have "durable_reaches (native_log run_checkpoint_journal) run_lib native_open (run_session, native_open)"
    by (rule durable_reaches.recovered [OF run_recovered])
      (simp_all add: run_key run_checkpoint_empty discarded_log_def replay_bound_def history_empty_def)
  from durable_reaches.requested [OF this, of "''k1''" "''q1''" "''b''" "RequestCheckpoint None"]
  show ?thesis by (simp add: run_checkpoint_step run_checkpoint_empty del: durable_request_step.simps)
qed

lemma run_checkpoint_logged: "native_log run_checkpoint_journal after_first ''s1'' = [run_checkpoint]"
proof -
  have "pc_session_id run_checkpoint = ''s1''" by (simp add: run_checkpoint_def run_record_def)
  with native.commit_log [OF run_checkpoint_journal_ok run_checkpoint_commit]
    native.commit_ok [OF run_checkpoint_journal_ok run_checkpoint_commit]
  show ?thesis by (auto simp: run_checkpoint_empty)
qed

section \<open>Properties\<close>

text \<open>A session never runs ahead of its journal nor falls behind it. After a recovery and any
  requests (undo, redo, checkout, branches, checkpoints, revocations, discards of staged changes),
  whatever the journal answered, write failures and unknown outcomes included, a session that still
  serves requests has the state revision and the catalog generation of the last record of its
  journal.\<close>

theorem durable_session_in_step:
  assumes "line_codec_ok jc"
    and "du_journal lib = journal_of (native_load jc) (native_commit jc) (native_reconcile jc)"
    and "durable_reaches (native_log jc) lib nj0 (se, nj)" and "se_poisoned se = None"
  shows "option_all (\<lambda>r. pc_state_revision r = session_revision se
      \<and> pc_catalog_generation r = se_catalog_generation se) (last_opt (native_log jc nj (session_key se)))"
  using native.reaches_settled [OF assms(3,1,2)] assms(4)
  by (simp add: native.settled_def in_agreement_def in_step_def)

lemma durable_session_in_step_witness:
  "option_all (\<lambda>r. pc_state_revision r = ''resident:e:0:0'' \<and> pc_catalog_generation r = 1)
      (last_opt (native_log run_checkpoint_journal after_first ''s1''))
    \<and> native_log run_checkpoint_journal after_first ''s1'' \<noteq> []"
proof -
  have lib: "du_journal run_lib = journal_of (native_load run_checkpoint_journal)
      (native_commit run_checkpoint_journal) (native_reconcile run_checkpoint_journal)"
    by (simp add: run_lib_def)
  show ?thesis
    using durable_session_in_step [OF run_checkpoint_journal_ok lib run_checkpoint_reached] run_revision
    by (simp add: session_revision_def run_checkpoint_logged) (simp add: run_session_def)
qed

text \<open>A request is served at most once. When the journal has a record of the request identity,
  serving it again, with the same input or another, leaves the session and every log as they are.\<close>

theorem durable_retry_changes_nothing:
  assumes "line_codec_ok jc"
    and "du_journal lib = journal_of (native_load jc) (native_commit jc) (native_reconcile jc)"
    and "q \<in> pc_request_id ` set (native_log jc nj (session_key se))"
    and "durable_request_step lib cid q base req (se, nj) = ((se', nj'), r)"
  shows "se' = se \<and> native_log jc nj' = native_log jc nj"
  using assms by (rule native.request_again)

lemma durable_retry_changes_nothing_witness:
  "\<exists>nj' r. durable_request_step run_lib ''k2'' ''q1'' ''b'' RequestUndo
      (run_session \<lparr> se_catalog_generation := 1 \<rparr>, after_first)
    = ((run_session \<lparr> se_catalog_generation := 1 \<rparr>, nj'), r)"
proof -
  let ?se = "run_session \<lparr> se_catalog_generation := 1 \<rparr>"
  have lib: "du_journal run_lib = journal_of (native_load run_checkpoint_journal)
      (native_commit run_checkpoint_journal) (native_reconcile run_checkpoint_journal)"
    by (simp add: run_lib_def)
  have q: "''q1'' \<in> pc_request_id ` set (native_log run_checkpoint_journal after_first (session_key ?se))"
    by (simp add: run_checkpoint_logged) (simp add: run_checkpoint_def run_record_def)
  obtain se' nj' r where run: "durable_request_step run_lib ''k2'' ''q1'' ''b'' RequestUndo (?se, after_first)
      = ((se', nj'), r)" by (metis prod.exhaust)
  from durable_retry_changes_nothing [OF run_checkpoint_journal_ok lib q run] run show ?thesis by auto
qed

end
