(* ===== verification/NameOps.thy ===== *)
theory NameOps
  imports WriteOps StructureOps
begin

text \<open>
  Defining, updating and deleting names (\<open>core/session.rs\<close>). Names of the workbook scope are kept in the
  workbook, names of the scope of a sheet on their sheet. The library reads a name and an address on a
  sheet (\<open>en_defined_name\<close>) or refuses; \<open>add_address\<close> is its setter of an address, which adds to the
  address a name has.
\<close>

section \<open>Scopes\<close>

definition scope_kind :: "string option \<Rightarrow> name_scope option res" where
  "scope_kind scope =
     (case scope of
        None \<Rightarrow> Inr None
      | Some s \<Rightarrow>
          if s = ''sheet'' then Inr (Some ScopeSheet)
          else if s = ''workbook'' then Inr (Some ScopeWorkbook)
          else Inl (Bail ''invalid scope: expected workbook or sheet''))"

fun sheet_index_in :: "string \<Rightarrow> nat \<Rightarrow> sheet list \<Rightarrow> u32 res" where
  "sheet_index_in name i [] = Inl (Bail ''sheet not found'')"
| "sheet_index_in name i (s # ss) = (if sh_name s = name then Inr (as_u32 i) else sheet_index_in name (i + 1) ss)"

definition resolve_sheet_index_on_spreadsheet :: "book \<Rightarrow> string \<Rightarrow> u32 res" where
  "resolve_sheet_index_on_spreadsheet bk name = sheet_index_in name 0 (bk_sheets bk)"

definition first_sheet_name :: "book \<Rightarrow> string res" where
  "first_sheet_name bk = ok_or (map_option sh_name (first_opt (bk_sheets bk))) ''workbook has no sheets''"

text \<open>The answers.\<close>

record name_response =
  nr_name :: string
  nr_refers_to :: string
  nr_scope_kind :: name_scope
  nr_scope_sheet_name :: "string option"
  nr_previous_refers_to :: "string option"

section \<open>Defining\<close>

definition set_sheet_names :: "(defined_name list \<Rightarrow> defined_name list) \<Rightarrow> sheet \<Rightarrow> sheet" where
  "set_sheet_names f sh = sh \<lparr> sh_names := f (sh_names sh) \<rparr>"

definition add_sheet_name :: "engine_lib \<Rightarrow> string \<Rightarrow> string \<Rightarrow> string \<Rightarrow> u32 \<Rightarrow> (book, unit) step" where
  "add_sheet_name en sheet_name name refers_to index bk =
     (case en_defined_name en sheet_name name refers_to of
        None \<Rightarrow> (bk, Inl (Bail ''failed to add defined name''))
      | Some d \<Rightarrow>
          (update_sheet sheet_name (set_sheet_names (\<lambda>ds. ds @ [if dn_name d = name then d \<lparr> dn_local_sheet_id := Some index \<rparr> else d])) bk,
           Inr ()))"

definition add_book_name :: "engine_lib \<Rightarrow> string \<Rightarrow> string \<Rightarrow> (book, unit) step" where
  "add_book_name en name refers_to bk =
     (case first_sheet_name bk of
        Inl e \<Rightarrow> (bk, Inl e)
      | Inr first \<Rightarrow>
          (case en_defined_name en first name refers_to of
             None \<Rightarrow> (bk, Inl (Bail ''failed to add defined name''))
           | Some d \<Rightarrow> (bk \<lparr> bk_names := bk_names bk @ [d] \<rparr>, Inr ())))"

definition define_name ::
    "engine_lib \<Rightarrow> string \<Rightarrow> string \<Rightarrow> string option \<Rightarrow> string option \<Rightarrow> (book, name_response) step" where
  "define_name en name refers_to scope scope_sheet_name =
     bind_step (read_step (\<lambda>_. bind_res (scope_kind scope) (\<lambda>k. Inr (case k of None \<Rightarrow> ScopeWorkbook | Some k \<Rightarrow> k)))) (\<lambda>kind.
     bind_step (guard_step (\<not> (kind = ScopeSheet \<and> scope_sheet_name = None))
       ''scope_sheet_name is required when scope is sheet'') (\<lambda>_.
     bind_step (guard_step (str_trim name \<noteq> []) ''name must not be empty'') (\<lambda>_.
     bind_step (guard_step (str_trim refers_to \<noteq> []) ''refers_to must not be empty'') (\<lambda>_.
     bind_step
       (case (kind, scope_sheet_name) of
          (ScopeSheet, Some sn) \<Rightarrow>
            bind_step (read_step (\<lambda>bk. resolve_sheet_index_on_spreadsheet bk sn)) (\<lambda>index.
            add_sheet_name en sn name refers_to index)
        | _ \<Rightarrow> add_book_name en name refers_to) (\<lambda>_.
     return_step \<lparr> nr_name = name, nr_refers_to = refers_to, nr_scope_kind = kind,
       nr_scope_sheet_name = scope_sheet_name, nr_previous_refers_to = None \<rparr>)))))"

section \<open>Updating\<close>

text \<open>The first entry with a property changes.\<close>

fun change_first :: "('a \<Rightarrow> bool) \<Rightarrow> ('a \<Rightarrow> 'a) \<Rightarrow> 'a list \<Rightarrow> 'a list" where
  "change_first P f [] = []"
| "change_first P f (x # xs) = (if P x then f x # xs else x # change_first P f xs)"

definition append_address :: "(string \<Rightarrow> defined_name \<Rightarrow> defined_name) \<Rightarrow> string option \<Rightarrow> defined_name \<Rightarrow> defined_name" where
  "append_address add_address refers_to d = (case refers_to of None \<Rightarrow> d | Some a \<Rightarrow> add_address a d)"

definition named_in_book :: "name_scope option \<Rightarrow> string \<Rightarrow> defined_name \<Rightarrow> bool" where
  "named_in_book kind name d = (dn_name d = name \<and> (kind = Some ScopeWorkbook \<or> dn_local_sheet_id d = None))"

text \<open>The sheets whose names are looked at, in order; \<open>eq_ignore_ascii_case\<close> compares lower-case texts.\<close>

definition sheet_passes :: "string option \<Rightarrow> string \<Rightarrow> bool" where
  "sheet_passes filt sn = (case filt of None \<Rightarrow> True | Some f \<Rightarrow> map to_lower sn = map to_lower f)"

text \<open>Names of the scope of a sheet.\<close>

definition names_on :: "book \<Rightarrow> string \<Rightarrow> defined_name list" where
  "names_on bk sn = (case find_sheet bk sn of None \<Rightarrow> [] | Some sh \<Rightarrow> sh_names sh)"

definition find_scoped_sheet :: "string option \<Rightarrow> string \<Rightarrow> book \<Rightarrow> string option" where
  "find_scoped_sheet filt name bk =
     List.find (\<lambda>sn. sheet_passes filt sn \<and> list_ex (\<lambda>d. dn_name d = name) (names_on bk sn))
       (map sh_name (bk_sheets bk))"

text \<open>Which name is updated: its old address, its scope and its sheet; the address is added to it.\<close>

definition touch_name ::
    "(string \<Rightarrow> defined_name \<Rightarrow> defined_name) \<Rightarrow> string \<Rightarrow> string option \<Rightarrow> name_scope option \<Rightarrow> string option
      \<Rightarrow> (book, string \<times> name_scope \<times> string option) step" where
  "touch_name add_address name refers_to kind scope_sheet_name bk =
     (case (if kind = Some ScopeSheet then None else List.find (named_in_book kind name) (bk_names bk)) of
        Some d \<Rightarrow>
          (bk \<lparr> bk_names := change_first (named_in_book kind name) (append_address add_address refers_to) (bk_names bk) \<rparr>,
           Inr (dn_address d, ScopeWorkbook, None))
      | None \<Rightarrow>
          (case (if kind = Some ScopeWorkbook then None else find_scoped_sheet scope_sheet_name name bk) of
             None \<Rightarrow> (bk, Inl (Bail ''named range not found''))
           | Some sn \<Rightarrow>
               (update_sheet sn
                  (set_sheet_names (change_first (\<lambda>d. dn_name d = name) (append_address add_address refers_to))) bk,
                Inr (case List.find (\<lambda>d. dn_name d = name) (names_on bk sn) of None \<Rightarrow> [] | Some d \<Rightarrow> dn_address d,
                  ScopeSheet, Some sn))))"

text \<open>The entries of the name are replaced by one with the new address.\<close>

definition replace_name :: "engine_lib \<Rightarrow> string \<Rightarrow> string \<Rightarrow> name_scope \<Rightarrow> string option \<Rightarrow> (book, unit) step" where
  "replace_name en name new_addr kind sheet =
     (case (kind, sheet) of
        (ScopeWorkbook, _) \<Rightarrow>
          bind_step (update_step (\<lambda>bk. bk \<lparr> bk_names := filter (\<lambda>d. dn_name d \<noteq> name) (bk_names bk) \<rparr>)) (\<lambda>_.
          add_book_name en name new_addr)
      | (ScopeSheet, None) \<Rightarrow> fail_step ''sheet-scoped name has no sheet''
      | (ScopeSheet, Some sn) \<Rightarrow>
          bind_step (read_step (\<lambda>bk. resolve_sheet_index_on_spreadsheet bk sn)) (\<lambda>index.
          bind_step (update_step (update_sheet sn (set_sheet_names (filter (\<lambda>d. dn_name d \<noteq> name))))) (\<lambda>_ bk.
          (case en_defined_name en sn name new_addr of
             None \<Rightarrow> (bk, Inl (Bail ''failed to replace defined name''))
           | Some d \<Rightarrow> (update_sheet sn (set_sheet_names (\<lambda>ds. ds @ [d \<lparr> dn_local_sheet_id := Some index \<rparr>])) bk, Inr ())))))"

definition update_name ::
    "engine_lib \<Rightarrow> (string \<Rightarrow> defined_name \<Rightarrow> defined_name) \<Rightarrow> string \<Rightarrow> string option \<Rightarrow> string option \<Rightarrow> string option
      \<Rightarrow> (book, name_response) step" where
  "update_name en add_address name refers_to scope scope_sheet_name =
     bind_step (read_step (\<lambda>_. scope_kind scope)) (\<lambda>kind.
     bind_step (guard_step (str_trim name \<noteq> []) ''name must not be empty'') (\<lambda>_.
     bind_step (touch_name add_address name refers_to kind scope_sheet_name) (\<lambda>(previous, effective, sheet).
     bind_step (case refers_to of None \<Rightarrow> return_step () | Some a \<Rightarrow> replace_name en name a effective sheet) (\<lambda>_.
     return_step \<lparr> nr_name = name, nr_refers_to = (case refers_to of None \<Rightarrow> previous | Some a \<Rightarrow> a),
       nr_scope_kind = effective, nr_scope_sheet_name = (if sheet \<noteq> None then sheet else scope_sheet_name),
       nr_previous_refers_to = Some previous \<rparr>))))"

section \<open>Deleting\<close>

definition remove_name :: "string \<Rightarrow> name_scope option \<Rightarrow> string option \<Rightarrow> (book, unit) step" where
  "remove_name name kind scope_sheet_name bk =
     (if kind \<noteq> Some ScopeSheet \<and> list_ex (\<lambda>d. dn_name d = name) (bk_names bk)
      then (bk \<lparr> bk_names := filter (\<lambda>d. dn_name d \<noteq> name) (bk_names bk) \<rparr>, Inr ())
      else (case (if kind = Some ScopeWorkbook then None else find_scoped_sheet scope_sheet_name name bk) of
          None \<Rightarrow> (bk, Inl (Bail ''named range not found''))
        | Some sn \<Rightarrow> (update_sheet sn (set_sheet_names (filter (\<lambda>d. dn_name d \<noteq> name))) bk, Inr ())))"

definition delete_name :: "string \<Rightarrow> string option \<Rightarrow> string option \<Rightarrow> (book, string) step" where
  "delete_name name scope scope_sheet_name =
     bind_step (read_step (\<lambda>_. scope_kind scope)) (\<lambda>kind.
     bind_step (guard_step (str_trim name \<noteq> []) ''name must not be empty'') (\<lambda>_.
     bind_step (remove_name name kind scope_sheet_name) (\<lambda>_.
     return_step name)))"

section \<open>The operation of a write request\<close>

text \<open>The answer as it is written into the result.\<close>

definition scope_text :: "name_scope \<Rightarrow> string" where
  "scope_text kind = (case kind of ScopeWorkbook \<Rightarrow> ''workbook'' | ScopeSheet \<Rightarrow> ''sheet'')"

definition scope_json :: "name_scope \<Rightarrow> json" where
  "scope_json kind = JStr (scope_text kind)"

definition text_field :: "string \<Rightarrow> string option \<Rightarrow> (string \<times> json) list" where
  "text_field k v = (case v of None \<Rightarrow> [] | Some s \<Rightarrow> [(k, JStr s)])"

definition text_or_null :: "string option \<Rightarrow> json" where
  "text_or_null v = (case v of None \<Rightarrow> JNull | Some s \<Rightarrow> JStr s)"

definition name_response_json :: "name_response \<Rightarrow> json" where
  "name_response_json r = JObj ([(''name'', JStr (nr_name r))] @ text_field ''previous_refers_to'' (nr_previous_refers_to r)
     @ [(''refers_to'', JStr (nr_refers_to r)), (''scope_kind'', scope_json (nr_scope_kind r))]
     @ text_field ''scope_sheet_name'' (nr_scope_sheet_name r) @ [(''workbook_id'', JStr ''session'')])"

fun apply_name_op ::
    "engine_lib \<Rightarrow> (string \<Rightarrow> defined_name \<Rightarrow> defined_name) \<Rightarrow> name_write_op \<Rightarrow> (book, json) step" where
  "apply_name_op en add_address (DefineName name refers_to kind ssn) =
     bind_step (define_name en name refers_to (Some (scope_text kind)) ssn) (\<lambda>r.
     return_step (JObj [(''defined'', JBool True), (''name'', JStr name), (''name_result'', name_response_json r)]))"
| "apply_name_op en add_address (UpdateName name refers_to kind ssn) =
     bind_step (update_name en add_address name refers_to (map_option scope_text kind) ssn) (\<lambda>r.
     return_step (JObj [(''name'', JStr name), (''name_result'', name_response_json r),
       (''previous_refers_to'', text_or_null (nr_previous_refers_to r)), (''scope'', scope_json (nr_scope_kind r)),
       (''scope_sheet_name'', text_or_null (nr_scope_sheet_name r))]))"
| "apply_name_op en add_address (DeleteName name kind ssn) =
     bind_step (delete_name name (map_option scope_text kind) ssn) (\<lambda>n.
     return_step (JObj [(''deleted'', JBool True), (''name'', JStr name),
       (''name_result'', JObj [(''deleted'', JBool True), (''name'', JStr n), (''workbook_id'', JStr ''session'')])]))"

section \<open>The names of a scope\<close>

text \<open>
  A scope is the workbook or a sheet; every operation acts on the list of names of one scope.
\<close>

definition scope_names :: "string option \<Rightarrow> book \<Rightarrow> defined_name list" where
  "scope_names k bk =
     (case k of None \<Rightarrow> bk_names bk
      | Some n \<Rightarrow> names_on bk n)"

definition set_scope_names :: "string option \<Rightarrow> (defined_name list \<Rightarrow> defined_name list) \<Rightarrow> book \<Rightarrow> book" where
  "set_scope_names k f bk =
     (case k of None \<Rightarrow> bk \<lparr> bk_names := f (bk_names bk) \<rparr> | Some n \<Rightarrow> update_sheet n (set_sheet_names f) bk)"

named_theorems scope_simps \<open>the names of a scope after an update of a scope\<close>

lemma set_sheet_names_fields [simp]:
  "sh_name (set_sheet_names f sh) = sh_name sh" "sh_cells (set_sheet_names f sh) = sh_cells sh"
  "sh_names (set_sheet_names f sh) = f (sh_names sh)"
  by (simp_all add: set_sheet_names_def)

lemma find_sheet_set_names:
  "find_sheet (update_sheet n (set_sheet_names f) bk) m
     = (if m = n then map_option (set_sheet_names f) (find_sheet bk m) else find_sheet bk m)"
  by (rule find_sheet_update) simp

lemma find_sheet_book_names [simp]: "find_sheet (bk \<lparr> bk_names := ds \<rparr>) n = find_sheet bk n"
  by (simp add: find_sheet_def)

lemma update_sheet_book_names [simp]: "bk_names (update_sheet n f bk) = bk_names bk"
  by (simp add: update_sheet_def)

lemma scope_names_set [scope_simps]:
  assumes "\<And>n. k = Some n \<Longrightarrow> has_sheet n bk"
  shows "scope_names j (set_scope_names k f bk) = (if j = k then f (scope_names j bk) else scope_names j bk)"
  using assms
  by (cases j; cases k)
    (auto simp: scope_names_def names_on_def set_scope_names_def find_sheet_set_names has_sheet_def split: option.splits)

lemma update_sheet_in_twice:
  assumes "\<And>s. sh_name (g s) = sh_name s"
  shows "update_sheet_in n f (update_sheet_in n g ss) = update_sheet_in n (\<lambda>s. f (g s)) ss"
  by (induction ss) (simp_all add: assms)

lemma set_scope_twice [scope_simps]:
  "set_scope_names k f (set_scope_names k g bk) = set_scope_names k (\<lambda>ds. f (g ds)) bk"
  by (cases k)
    (simp_all add: set_scope_names_def update_sheet_def update_sheet_in_twice set_sheet_names_def [abs_def])

lemma update_sheet_in_same:
  "(\<And>sh. List.find (\<lambda>s. sh_name s = n) ss = Some sh \<Longrightarrow> f sh = sh) \<Longrightarrow> update_sheet_in n f ss = ss"
  by (induction ss) auto

lemma set_scope_same:
  assumes "f (scope_names k bk) = scope_names k bk"
  shows "set_scope_names k f bk = bk"
proof (cases k)
  case (Some n)
  then have "f (sh_names sh) = sh_names sh" if "List.find (\<lambda>s. sh_name s = n) (bk_sheets bk) = Some sh" for sh
    using assms that by (simp add: scope_names_def names_on_def find_sheet_def)
  then have "update_sheet_in n (set_sheet_names f) (bk_sheets bk) = bk_sheets bk"
    by (intro update_sheet_in_same) (simp add: set_sheet_names_def)
  with Some show ?thesis by (simp add: set_scope_names_def update_sheet_def)
qed (use assms in \<open>simp add: set_scope_names_def scope_names_def names_on_def\<close>)

lemma cell_in_set_scope [scope_simps]: "cell_in (set_scope_names k f bk) n pos = cell_in bk n pos"
  by (cases k; cases "find_sheet bk n") (auto simp: set_scope_names_def cell_in_def find_sheet_set_names)

lemma filter_change_first:
  assumes "\<And>x. Q (f x) = Q x" and "\<And>x. P x \<Longrightarrow> \<not> Q x"
  shows "filter Q (change_first P f xs) = filter Q xs"
  using assms by (induction xs) auto

lemma change_first_same: "change_first P (\<lambda>x. x) xs = xs"
  by (induction xs) auto

section \<open>What an operation does to its scope\<close>

lemma sheet_index_found: "sheet_index_in n i ss = Inr k \<Longrightarrow> \<exists>s \<in> set ss. sh_name s = n"
  by (induction n i ss rule: sheet_index_in.induct) (auto split: if_splits)

lemma resolve_index_sheet: "resolve_sheet_index_on_spreadsheet bk n = Inr k \<Longrightarrow> has_sheet n bk"
  by (auto simp: resolve_sheet_index_on_spreadsheet_def has_sheet_def find_sheet_def find_None_iff dest: sheet_index_found)

text \<open>The scope an operation names, and the sheet the library reads a name of it on.\<close>

definition scope_key :: "name_scope \<Rightarrow> string option \<Rightarrow> string option" where
  "scope_key kind scope_sheet_name = (case kind of ScopeWorkbook \<Rightarrow> None | ScopeSheet \<Rightarrow> scope_sheet_name)"

definition scope_known :: "string option \<Rightarrow> book \<Rightarrow> bool" where
  "scope_known k bk = (case k of None \<Rightarrow> True | Some n \<Rightarrow> has_sheet n bk)"

text \<open>An entry as the library read it, up to the sheet it is marked with.\<close>

definition entry_of :: "defined_name \<Rightarrow> defined_name \<Rightarrow> bool" where
  "entry_of d d' = (\<exists>l. d' = d \<lparr> dn_local_sheet_id := l \<rparr>)"

lemma entry_of_intros [simp, intro]: "entry_of d d" "entry_of d (d \<lparr> dn_local_sheet_id := l \<rparr>)"
proof -
  have "d = d \<lparr> dn_local_sheet_id := dn_local_sheet_id d \<rparr>" by simp
  then show "entry_of d d" unfolding entry_of_def by blast
qed (auto simp: entry_of_def)

lemma entry_of_fields:
  "entry_of d d' \<Longrightarrow> dn_name d' = dn_name d" "entry_of d d' \<Longrightarrow> dn_address d' = dn_address d"
  "entry_of d d' \<Longrightarrow> dn_hidden d' = dn_hidden d"
  by (auto simp: entry_of_def)

lemma define_name_effect:
  assumes "define_name en name a (Some (scope_text kind)) ssn bk = (bk', Inr r)"
  obtains d d' sn where "bk' = set_scope_names (scope_key kind ssn) (\<lambda>ds. ds @ [d']) bk"
    and "scope_known (scope_key kind ssn) bk" and "en_defined_name en sn name a = Some d"
    and "entry_of d d'"
proof (cases kind)
  case ScopeWorkbook
  then show ?thesis using assms that
    by (auto simp: define_name_def scope_text_def scope_kind_def step_simps bind_res_def add_book_name_def scope_key_def scope_known_def
        set_scope_names_def split: if_splits sum.splits option.splits)
next
  case ScopeSheet
  then obtain sn where ssn: "ssn = Some sn" using assms
    by (cases ssn) (auto simp: define_name_def scope_text_def scope_kind_def step_simps bind_res_def split: if_splits)
  show ?thesis using assms that unfolding ScopeSheet ssn
    by (auto simp: define_name_def scope_text_def scope_kind_def step_simps bind_res_def add_sheet_name_def scope_key_def scope_known_def
        set_scope_names_def dest: resolve_index_sheet split: if_splits sum.splits option.splits)
qed

lemma find_scoped_sheetD:
  assumes "find_scoped_sheet filt name bk = Some sn"
  shows "has_sheet sn bk" "sheet_passes filt sn" "\<exists>d \<in> set (names_on bk sn). dn_name d = name"
  using assms
  by (force simp: find_scoped_sheet_def find_Some_iff list_ex_iff has_sheet_def find_sheet_def find_None_iff)+

lemma find_name:
  "list_ex (\<lambda>d. dn_name d = name) ds \<Longrightarrow>
     \<exists>d. List.find (\<lambda>d. dn_name d = name) ds = Some d \<and> d \<in> set ds \<and> dn_name d = name"
  by (induction ds) auto

lemma touch_name_effect:
  assumes "touch_name add_address name a kind ssn bk = (bk', Inr (previous, effective, sheet))"
  obtains P where "bk' = set_scope_names sheet (change_first P (append_address add_address a)) bk"
    and "\<And>d. P d \<Longrightarrow> dn_name d = name" and "scope_known sheet bk"
    and "effective = (if sheet = None then ScopeWorkbook else ScopeSheet)"
    and "\<exists>d \<in> set (scope_names sheet bk). dn_name d = name \<and> dn_address d = previous"
proof (cases "if kind = Some ScopeSheet then None else List.find (named_in_book kind name) (bk_names bk)")
  case (Some d)
  then have d: "d \<in> set (bk_names bk)" "dn_name d = name"
    by (auto simp: find_Some_iff named_in_book_def split: if_splits)
  show ?thesis
    by (rule that [of "named_in_book kind name"])
      (use assms d in \<open>auto simp: touch_name_def Some set_scope_names_def scope_known_def scope_names_def named_in_book_def\<close>)
next
  case None
  with assms obtain sn where sn: "find_scoped_sheet ssn name bk = Some sn"
    by (auto simp: touch_name_def split: if_splits option.splits)
  from find_scoped_sheetD(3) [OF sn] have "list_ex (\<lambda>d. dn_name d = name) (names_on bk sn)" by (auto simp: list_ex_iff)
  from find_name [OF this] obtain d where d: "List.find (\<lambda>d. dn_name d = name) (names_on bk sn) = Some d"
      "d \<in> set (names_on bk sn)" "dn_name d = name" by blast
  have touched: "bk' = set_scope_names (Some sn) (change_first (\<lambda>d. dn_name d = name) (append_address add_address a)) bk"
      "sheet = Some sn" "effective = ScopeSheet" "previous = dn_address d"
    using assms None sn d(1) by (auto simp: touch_name_def set_scope_names_def split: if_splits)
  show ?thesis
    by (rule that [of "\<lambda>d. dn_name d = name"])
      (use touched d find_scoped_sheetD(1) [OF sn] in \<open>auto simp: scope_known_def scope_names_def\<close>)
qed

lemma has_sheet_set_scope [simp]: "has_sheet n (set_scope_names k f bk) = has_sheet n bk"
  by (cases k) (auto simp: has_sheet_def set_scope_names_def find_sheet_set_names)

lemma replace_name_effect:
  assumes "replace_name en name a kind sheet bk = (bk', Inr ())"
    and "kind = (if sheet = None then ScopeWorkbook else ScopeSheet)"
  obtains d d' sn where "bk' = set_scope_names sheet (\<lambda>ds. filter (\<lambda>d. dn_name d \<noteq> name) ds @ [d']) bk"
    and "en_defined_name en sn name a = Some d" and "entry_of d d'"
proof -
  let ?drop = "filter (\<lambda>d. dn_name d \<noteq> name)"
  have "\<exists>d d' sn. bk' = set_scope_names sheet (\<lambda>ds. ds @ [d']) (set_scope_names sheet ?drop bk)
      \<and> en_defined_name en sn name a = Some d \<and> entry_of d d'"
  proof (cases sheet)
    case None
    with assms show ?thesis
      by (fastforce simp: replace_name_def step_simps add_book_name_def set_scope_names_def split: sum.splits option.splits)
  next
    case (Some sn)
    with assms show ?thesis
      by (fastforce simp: replace_name_def step_simps set_scope_names_def split: sum.splits option.splits)
  qed
  then show ?thesis using that by (auto simp: set_scope_twice)
qed

lemma update_name_effect:
  assumes "update_name en add_address name a scope ssn bk = (bk', Inr r)"
    and kept: "\<And>b d. dn_name (add_address b d) = dn_name d"
  obtains (same) "a = None" "bk' = bk"
  | (replaced) b k d d' sn where "a = Some b" "bk' = set_scope_names k (\<lambda>ds. filter (\<lambda>d. dn_name d \<noteq> name) ds @ [d']) bk"
    "scope_known k bk" "en_defined_name en sn name b = Some d" "entry_of d d'"
    "\<exists>d \<in> set (scope_names k bk). dn_name d = name"
proof -
  from assms(1) obtain kind bk1 previous effective sheet where
    touch: "touch_name add_address name a kind ssn bk = (bk1, Inr (previous, effective, sheet))"
    and rest: "(case a of None \<Rightarrow> return_step () | Some b \<Rightarrow> replace_name en name b effective sheet) bk1 = (bk', Inr ())"
    by (auto simp: update_name_def bind_step_ok read_step_def guard_step_def return_step_def split: if_splits)
  from touch_name_effect [OF touch] obtain P where
    bk1: "bk1 = set_scope_names sheet (change_first P (append_address add_address a)) bk"
    and P: "\<And>d. P d \<Longrightarrow> dn_name d = name" and known: "scope_known sheet bk"
    and effective: "effective = (if sheet = None then ScopeWorkbook else ScopeSheet)"
    and found: "\<exists>d \<in> set (scope_names sheet bk). dn_name d = name \<and> dn_address d = previous" by blast
  show ?thesis
  proof (cases a)
    case None
    then have "append_address add_address a = (\<lambda>d. d)" by (simp add: append_address_def fun_eq_iff)
    with None rest bk1 show ?thesis
      by (intro same) (simp_all add: return_step_def change_first_same set_scope_same)
  next
    case (Some b)
    with rest have "replace_name en name b effective sheet bk1 = (bk', Inr ())" by simp
    from replace_name_effect [OF this effective] obtain d d' sn where
      bk': "bk' = set_scope_names sheet (\<lambda>ds. filter (\<lambda>d. dn_name d \<noteq> name) ds @ [d']) bk1"
      and d: "en_defined_name en sn name b = Some d" "entry_of d d'" by blast
    have "dn_name (append_address add_address a d) = dn_name d" for d by (simp add: Some append_address_def kept)
    then have "filter (\<lambda>d. dn_name d \<noteq> name) (change_first P (append_address add_address a) ds)
        = filter (\<lambda>d. dn_name d \<noteq> name) ds" for ds using P by (intro filter_change_first) auto
    with bk' bk1 have "bk' = set_scope_names sheet (\<lambda>ds. filter (\<lambda>d. dn_name d \<noteq> name) ds @ [d']) bk"
      by (simp add: set_scope_twice)
    from replaced [OF Some this known d] found show ?thesis by blast
  qed
qed

lemma delete_name_effect:
  assumes "delete_name name scope ssn bk = (bk', Inr r)"
  obtains k where "bk' = set_scope_names k (filter (\<lambda>d. dn_name d \<noteq> name)) bk" "scope_known k bk"
    "\<exists>d \<in> set (scope_names k bk). dn_name d = name"
proof -
  from assms obtain kind where removed: "remove_name name kind ssn bk = (bk', Inr ())"
    by (auto simp: delete_name_def bind_step_ok read_step_def guard_step_def return_step_def split: if_splits)
  show ?thesis
  proof (cases "kind \<noteq> Some ScopeSheet \<and> list_ex (\<lambda>d. dn_name d = name) (bk_names bk)")
    case True
    with removed show ?thesis
      by (intro that [of None])
        (auto simp: remove_name_def set_scope_names_def scope_known_def scope_names_def list_ex_iff)
  next
    case False
    with removed obtain sn where sn: "find_scoped_sheet ssn name bk = Some sn"
      by (auto simp: remove_name_def split: if_splits option.splits)
    show ?thesis
      by (rule that [of "Some sn"])
        (use removed False sn find_scoped_sheetD [OF sn] in
          \<open>auto simp: remove_name_def set_scope_names_def scope_known_def scope_names_def split: if_splits\<close>)
  qed
qed

section \<open>Defining and deleting\<close>

lemma find_only:
  assumes "x \<in> set xs" and "P x" and "\<And>y. P y \<Longrightarrow> y = x"
  shows "List.find P xs = Some x"
  using assms(1,2)
proof (induction xs)
  case (Cons y xs)
  then show ?case using assms(3) [of y] by (cases "P y") auto
qed simp

lemma has_sheet_listed: "has_sheet n bk \<longleftrightarrow> n \<in> set (map sh_name (bk_sheets bk))"
  by (auto simp: has_sheet_def find_sheet_def find_None_iff)

lemma map_name_set_scope [simp]:
  "map sh_name (bk_sheets (set_scope_names k f bk)) = map sh_name (bk_sheets bk)"
proof (cases k)
  case (Some n)
  have "map sh_name (update_sheet_in n (set_sheet_names f) ss) = map sh_name ss" for ss
    by (induction ss) auto
  with Some show ?thesis by (simp add: set_scope_names_def update_sheet_def)
qed (simp add: set_scope_names_def)

lemma remove_added_name:
  assumes bk': "bk' = set_scope_names (scope_key kind ssn) (\<lambda>ds. ds @ [d]) bk" and d: "dn_name d = name"
    and known: "scope_known (scope_key kind ssn) bk" and sheet: "kind = ScopeSheet \<Longrightarrow> ssn \<noteq> None"
    and fresh: "\<And>k e. e \<in> set (scope_names k bk) \<Longrightarrow> dn_name e \<noteq> name"
  shows "remove_name name (Some kind) ssn bk' = (bk, Inr ())"
proof -
  let ?k = "scope_key kind ssn"
  have names: "scope_names j bk' = (if j = ?k then scope_names j bk @ [d] else scope_names j bk)" for j
    unfolding bk' using known by (subst scope_names_set) (auto simp: scope_known_def)
  have none: "filter (\<lambda>e. dn_name e \<noteq> name) (scope_names k bk) = scope_names k bk" for k
    using fresh by (auto simp: filter_id_conv)
  have undone: "set_scope_names ?k (filter (\<lambda>e. dn_name e \<noteq> name)) bk' = bk"
    unfolding bk' set_scope_twice by (rule set_scope_same) (simp add: none d)
  show ?thesis
  proof (cases kind)
    case ScopeWorkbook
    with names [of None] d have "list_ex (\<lambda>e. dn_name e = name) (bk_names bk')"
      by (simp add: scope_names_def scope_key_def)
    with ScopeWorkbook undone show ?thesis by (simp add: remove_name_def set_scope_names_def scope_key_def)
  next
    case ScopeSheet
    with sheet obtain sn where sn: "ssn = Some sn" by auto
    have "list_ex (\<lambda>e. dn_name e = name) (names_on bk' n) = (n = sn)" for n
      using names [of "Some n"] fresh [of _ "Some n"] d ScopeSheet sn
      by (auto simp: scope_names_def scope_key_def list_ex_iff split: if_splits)
    moreover have "sn \<in> set (map sh_name (bk_sheets bk'))"
      using known ScopeSheet sn unfolding bk' by (simp add: scope_known_def scope_key_def has_sheet_listed)
    ultimately have "find_scoped_sheet ssn name bk' = Some sn"
      unfolding find_scoped_sheet_def by (intro find_only) (auto simp: sn sheet_passes_def)
    with ScopeSheet sn undone show ?thesis by (simp add: remove_name_def set_scope_names_def scope_key_def)
  qed
qed

text \<open>
  An update with an address the library refuses fails only after the entries of the name are removed.
\<close>

lemma refused_address_drops_name:
  assumes "scope_kind scope = Inr kind" and "str_trim name \<noteq> []"
    and touch: "touch_name add_address name (Some a) kind ssn bk = (bk1, Inr (previous, ScopeWorkbook, None))"
    and refused: "\<And>sn. en_defined_name en sn name a = None"
  shows "\<exists>bk' e. update_name en add_address name (Some a) scope ssn bk = (bk', Inl e)
    \<and> (\<forall>d \<in> set (bk_names bk'). dn_name d \<noteq> name)"
  using assms
  by (auto simp: update_name_def step_simps replace_name_def add_book_name_def split: sum.splits)

end
