(* ===== verification/WriteApply.thy ===== *)
theory WriteApply
  imports WriteTxn StructureBatch TransformOps FormulaReplace NameOps
begin

text \<open>
  Applying one operation of a write request to a workbook: \<open>apply_write_op_to_workbook\<close> of
  \<open>canonical_write.rs\<close> with the operations it composes from others, the import of CSV text and of a
  grid. Cell, structure and formula operations are those of \<open>tools/fork.rs\<close> in the theories
  \<open>TransformOps\<close>, \<open>StructureOps\<close>, \<open>FormulaPattern\<close> and \<open>FormulaReplace\<close>.

  An operation that never returns is \<open>None\<close>. Parameters: the printers of the summaries, numbers,
  regular expressions, and the styles, column widths, sheet layouts, rules, appended and cloned
  rows, which no theory here models.
\<close>

section \<open>The library\<close>

record apply_lib =
  al_engine :: engine_lib
  al_column_index :: "string \<Rightarrow> u32"
  al_to_text :: "json \<Rightarrow> string"
  al_number :: "f64 \<Rightarrow> json"
  al_parse_f64 :: "string \<Rightarrow> string option option"
  al_regex :: "string \<Rightarrow> (string \<Rightarrow> string \<Rightarrow> string) res"
  al_transform_detail :: "transform_counts \<Rightarrow> string list \<Rightarrow> string list \<Rightarrow> json"
  al_structure_detail :: "structure_apply_result \<Rightarrow> json"
  al_pattern_detail :: "nat \<Rightarrow> json"
  al_replace_detail :: "replace_result \<Rightarrow> json"
  al_clear_style :: "string \<Rightarrow> string \<Rightarrow> (book, unit) step"
  al_grid_styles :: "string \<Rightarrow> (string \<times> json option \<times> string option) list \<Rightarrow> (book, unit) step"
  al_column_width :: "string \<Rightarrow> string \<Rightarrow> f64 \<Rightarrow> (book, unit) step"
  al_add_address :: "string \<Rightarrow> defined_name \<Rightarrow> defined_name"
  al_other :: "write_op \<Rightarrow> formula_parse_policy \<Rightarrow> (book, json) step"

abbreviation al_coords :: "apply_lib \<Rightarrow> coord_lib" where
  "al_coords al \<equiv> en_coords (al_engine al)"

section \<open>Cells\<close>

definition primitive_value :: "apply_lib \<Rightarrow> cell_value_primitive \<Rightarrow> json" where
  "primitive_value al v =
     (case v of PrimText s \<Rightarrow> JStr s | PrimNumber x \<Rightarrow> al_number al x | PrimBool b \<Rightarrow> JBool b)"

definition set_cells_to_ops :: "apply_lib \<Rightarrow> set_cells_op \<Rightarrow> transform_op list" where
  "set_cells_to_ops al sc =
     map (\<lambda>(address, content). WriteMatrix (sc_sheet_name sc) address
         [[Some (case content of
             ContentValue v \<Rightarrow> MatrixValue (primitive_value al v)
           | ContentFormula f \<Rightarrow> MatrixFormula f)]] (sc_overwrite_formulas sc)) (sc_cells sc)"

definition transform_step :: "apply_lib \<Rightarrow> transform_op list \<Rightarrow> (book, json) step" where
  "transform_step al ops =
     bind_step (apply_transform_ops_to_workbook (al_coords al) (al_to_text al) ops) (\<lambda>run.
     return_step (al_transform_detail al (tr_counts run) (bt_keys (tr_sheets run)) (tr_bounds run)))"

section \<open>Structure\<close>

fun structure_op_of :: "canonical_structure_op \<Rightarrow> structure_op" where
  "structure_op_of (MergeCells s r) = OpMergeCells s r"
| "structure_op_of (UnmergeCells s r) = OpUnmergeCells s r"
| "structure_op_of (InsertRows s r n e) = OpInsertRows s r n e"
| "structure_op_of (DeleteRows s r n) = OpDeleteRows s r n"
| "structure_op_of (InsertCols s c n) = OpInsertCols s c n"
| "structure_op_of (DeleteCols s c n) = OpDeleteCols s c n"
| "structure_op_of (RenameSheet old new) = OpRenameSheet old new"
| "structure_op_of (CreateSheet name pos) = OpCreateSheet name pos"
| "structure_op_of (DeleteSheet name) = OpDeleteSheet name"
| "structure_op_of (CopyRange s d r a st f) = OpCopyRange s d r a st f"
| "structure_op_of (MoveRange s d r a st f) = OpMoveRange s d r a st f"

definition structure_step :: "apply_lib \<Rightarrow> structure_op list \<Rightarrow> formula_parse_policy \<Rightarrow> (book, json) step" where
  "structure_step al ops policy =
     bind_step (apply_structure_ops_to_workbook (al_engine al) ops policy) (\<lambda>r.
     return_step (al_structure_detail al r))"

section \<open>CSV\<close>

definition csv_cell :: "apply_lib \<Rightarrow> string \<Rightarrow> matrix_cell option" where
  "csv_cell al field =
     (let v = csv_value (al_parse_f64 al) field in if v = JNull then None else Some (MatrixValue v))"

text \<open>The records without the header, at the anchor; the target is cleared first when asked for.\<close>

definition import_csv_step :: "apply_lib \<Rightarrow> string \<Rightarrow> string \<Rightarrow> string \<Rightarrow> bool \<Rightarrow> bool \<Rightarrow> (book, json) step" where
  "import_csv_step al sheet_name anchor csv header clear_target =
     bind_step (read_step (\<lambda>_. csv_records csv)) (\<lambda>records.
     let records = (if header then drop 1 records else records);
         row_count = as_u32 (length records);
         column_count = as_u32 (foldl max 0 (map length records)) in
     bind_step
       (if clear_target \<and> row_count > 0 \<and> column_count > 0 then
          bind_step (read_step (\<lambda>_. parse_cell_ref (al_column_index al) anchor)) (\<lambda>(column, row).
          transform_step al [ClearRange sheet_name (TargetRange (cell_address column row @ '':'' @
            cell_address (u32_wrapping_sub (u32_wrapping_add column column_count) 1)
              (u32_wrapping_sub (u32_wrapping_add row row_count) 1))) True True])
        else return_step JNull) (\<lambda>_.
     transform_step al [WriteMatrix sheet_name anchor (map (map (csv_cell al)) records) True]))"

section \<open>Grids\<close>

definition pad :: "nat \<Rightarrow> 'a \<Rightarrow> 'a list \<Rightarrow> 'a list" where
  "pad n d xs = xs @ replicate (n - length xs) d"

definition place_cell :: "matrix_cell option list list \<Rightarrow> nat \<Rightarrow> nat \<Rightarrow> matrix_cell option \<Rightarrow> matrix_cell option list list" where
  "place_cell rows r c v =
     (let rows = pad (r + 1) [] rows in rows[r := (pad (c + 1) None (rows ! r))[c := v]])"

definition grid_matrix_cell :: "grid_cell \<Rightarrow> matrix_cell option" where
  "grid_matrix_cell cell =
     (case gc_f cell of Some f \<Rightarrow> Some (MatrixFormula f) | None \<Rightarrow> map_option MatrixValue (gc_v cell))"

record grid_plan =
  gr_max_col :: u32
  gr_max_row :: u32
  gr_rows :: "matrix_cell option list list"
  gr_styles :: "(string \<times> json option \<times> string option) list"

definition plan_cell :: "u32 \<Rightarrow> u32 \<Rightarrow> grid_plan \<Rightarrow> grid_cell \<Rightarrow> grid_plan" where
  "plan_cell anchor_col anchor_row plan cell =
     (let row = u32_wrapping_add anchor_row (gc_row_offset cell);
          col = u32_wrapping_add anchor_col (gc_col_offset cell) in
      plan \<lparr> gr_max_row := max (gr_max_row plan) row, gr_max_col := max (gr_max_col plan) col,
        gr_rows := place_cell (gr_rows plan) (gc_row_offset cell) (gc_col_offset cell) (grid_matrix_cell cell),
        gr_styles := (if gc_style cell \<noteq> None \<or> gc_fmt cell \<noteq> None
          then gr_styles plan @ [(cell_address col row, gc_style cell, gc_fmt cell)] else gr_styles plan) \<rparr>)"

definition plan_grid :: "u32 \<Rightarrow> u32 \<Rightarrow> grid_payload \<Rightarrow> grid_plan" where
  "plan_grid anchor_col anchor_row grid =
     foldl (plan_cell anchor_col anchor_row)
       \<lparr> gr_max_col = anchor_col, gr_max_row = anchor_row, gr_rows = [], gr_styles = [] \<rparr> (concat (gp_rows grid))"

definition translate_merge ::
    "apply_lib \<Rightarrow> string \<Rightarrow> u32 \<Rightarrow> u32 \<Rightarrow> u32 \<Rightarrow> u32 \<Rightarrow> string \<Rightarrow> structure_op res" where
  "translate_merge al sheet_name anchor_col anchor_row source_col source_row rng =
     (let (start, fin) = (case split_once CHR '':'' rng of Some p \<Rightarrow> p | None \<Rightarrow> (rng, rng));
          moved = (\<lambda>anchor v source. u32_wrapping_sub (u32_wrapping_add anchor v) source) in
      bind_res (parse_cell_ref (al_column_index al) start) (\<lambda>(start_col, start_row).
      bind_res (parse_cell_ref (al_column_index al) fin) (\<lambda>(end_col, end_row).
      bail_if (start_col < source_col \<or> start_row < source_row)
        ''grid merge begins before source anchor; cannot translate'' (
      Inr (OpMergeCells sheet_name
        (cell_address (moved anchor_col start_col source_col) (moved anchor_row start_row source_row) @ '':'' @
         cell_address (moved anchor_col end_col source_col) (moved anchor_row end_row source_row)))))))"

definition apply_grid_to_workbook ::
    "apply_lib \<Rightarrow> string \<Rightarrow> string \<Rightarrow> grid_payload \<Rightarrow> bool \<Rightarrow> (book, json) step" where
  "apply_grid_to_workbook al sheet_name anchor grid clear_target =
     bind_step (read_step (\<lambda>_. parse_cell_ref (al_column_index al) anchor)) (\<lambda>(anchor_col, anchor_row).
     let plan = plan_grid anchor_col anchor_row grid;
         footprint = cell_address anchor_col anchor_row @ '':'' @ cell_address (gr_max_col plan) (gr_max_row plan) in
     bind_step
       (if clear_target then
          bind_step (structure_step al [OpUnmergeCells sheet_name footprint] PolicyOff) (\<lambda>_.
          bind_step (transform_step al [ClearRange sheet_name (TargetRange footprint) True True]) (\<lambda>_.
          al_clear_style al sheet_name footprint))
        else return_step ()) (\<lambda>_.
     bind_step
       (if gp_merges grid \<noteq> [] then
          bind_step (read_step (\<lambda>_. parse_cell_ref (al_column_index al) (gp_anchor grid))) (\<lambda>(source_col, source_row).
          bind_step (read_step (\<lambda>_. map_res (translate_merge al sheet_name anchor_col anchor_row source_col source_row)
            (gp_merges grid))) (\<lambda>ops.
          bind_step (structure_step al ops PolicyOff) (\<lambda>_. return_step ())))
        else return_step ()) (\<lambda>_.
     bind_step (map_step (\<lambda>hint. let name = column_number_to_name (u32_wrapping_add anchor_col (gh_offset hint)) in
         al_column_width al sheet_name (name @ '':'' @ name) (gh_width_chars hint)) (gp_columns grid)) (\<lambda>_.
     bind_step (transform_step al [WriteMatrix sheet_name anchor (gr_rows plan) True]) (\<lambda>_.
     bind_step (if gr_styles plan \<noteq> [] then al_grid_styles al sheet_name (gr_styles plan) else return_step ()) (\<lambda>_.
     return_step (JObj [(''cells'', JInt (int (sum_list (map length (gp_rows grid))))),
       (''footprint'', JStr footprint), (''sheet_name'', JStr sheet_name)])))))))"

section \<open>The operation\<close>

definition replace_step ::
    "apply_lib \<Rightarrow> replace_op \<Rightarrow> formula_parse_policy \<Rightarrow> book \<Rightarrow> (book \<times> json res) option" where
  "replace_step al op policy bk =
     map_option (\<lambda>(bk, r). (bk, bind_res r (\<lambda>res. Inr (al_replace_detail al res))))
       (apply_replace_in_formulas_to_workbook (rl_formulas (en_rewrite (al_engine al))) (al_coords al) (al_regex al)
          op policy bk)"

fun apply_write_op_to_workbook ::
    "apply_lib \<Rightarrow> book \<Rightarrow> write_op \<Rightarrow> formula_parse_policy \<Rightarrow> (book \<times> json res) option" where
  "apply_write_op_to_workbook al bk (SetCells sc) policy = Some (transform_step al (set_cells_to_ops al sc) bk)"
| "apply_write_op_to_workbook al bk (Transform op) policy = Some (transform_step al [op] bk)"
| "apply_write_op_to_workbook al bk (Structure op) policy =
     Some (structure_step al [structure_op_of op] policy bk)"
| "apply_write_op_to_workbook al bk (FormulaOp (FormulaPattern sheet_name target anchor formula dir mode)) policy =
     Some (bind_step (apply_formula_pattern_ops_to_workbook (en_pattern (al_engine al)) (al_coords al)
         [\<lparr> fp_sheet_name = sheet_name, fp_target_range = target, fp_anchor_cell = anchor, fp_base_formula = formula,
            fp_fill_direction = dir, fp_relative_mode = mode \<rparr>])
       (\<lambda>n. return_step (al_pattern_detail al n)) bk)"
| "apply_write_op_to_workbook al bk (FormulaOp (ReplaceInFormulas sheet_name pat rep rng regex case_sensitive)) policy =
     replace_step al \<lparr> rq_sheet_name = sheet_name, rq_find = pat, rq_replace = rep, rq_range = rng, rq_regex = regex,
       rq_case_sensitive = case_sensitive \<rparr> policy bk"
| "apply_write_op_to_workbook al bk (ImportAndHelper (ImportGrid sheet_name anchor grid clear)) policy =
     Some (apply_grid_to_workbook al sheet_name anchor grid clear bk)"
| "apply_write_op_to_workbook al bk (ImportAndHelper (ImportCsv sheet_name anchor csv header clear)) policy =
     Some (import_csv_step al sheet_name anchor csv header clear bk)"
| "apply_write_op_to_workbook al bk (NameOp op) policy =
     Some (apply_name_op (al_engine al) (al_add_address al) op bk)"
| "apply_write_op_to_workbook al bk op policy = Some (al_other al op policy bk)"

section \<open>What a matrix writes\<close>

definition row_positions :: "nat \<Rightarrow> nat \<Rightarrow> nat \<Rightarrow> matrix_cell option list \<Rightarrow> (cell_pos \<times> matrix_cell) list" where
  "row_positions anchor_row anchor_col i row = List.map_filter (\<lambda>(j, m).
     map_option (\<lambda>m. ((u32_wrapping_add anchor_row i, u32_wrapping_add anchor_col j), m)) m) (enumerate 0 row)"

lemma matrix_positions_rows:
  "matrix_positions anchor_row anchor_col rows
     = concat (map (\<lambda>(i, row). row_positions anchor_row anchor_col i row) (enumerate 0 rows))"
  by (simp add: matrix_positions_def row_positions_def)

lemma row_positions_set:
  "(p, m) \<in> set (row_positions anchor_row anchor_col i row) \<longleftrightarrow>
     (\<exists>j < length row. row ! j = Some m \<and> p = (u32_wrapping_add anchor_row i, u32_wrapping_add anchor_col j))"
proof -
  have "(p, m) \<in> set (row_positions anchor_row anchor_col i row) \<longleftrightarrow> (\<exists>(j, v) \<in> set (enumerate 0 row).
      map_option (\<lambda>m. ((u32_wrapping_add anchor_row i, u32_wrapping_add anchor_col j), m)) v = Some (p, m))"
    by (force simp: row_positions_def List.map_filter_def)
  then show ?thesis by (fastforce simp: in_set_enumerate_eq)
qed

lemma matrix_positions_set:
  "(p, m) \<in> set (matrix_positions anchor_row anchor_col rows) \<longleftrightarrow>
     (\<exists>i < length rows. \<exists>j < length (rows ! i). rows ! i ! j = Some m
       \<and> p = (u32_wrapping_add anchor_row i, u32_wrapping_add anchor_col j))"
  by (fastforce simp: matrix_positions_rows row_positions_set in_set_enumerate_eq)

definition fits :: "nat \<Rightarrow> nat \<Rightarrow> 'a list list \<Rightarrow> bool" where
  "fits anchor_row anchor_col rows =
     (anchor_row + length rows \<le> u32_limit \<and> (\<forall>row \<in> set rows. anchor_col + length row \<le> u32_limit))"

lemma fitsD:
  assumes "fits anchor_row anchor_col rows" and "i < length rows" and "j < length (rows ! i)"
  shows "u32_wrapping_add anchor_row i = anchor_row + i" and "u32_wrapping_add anchor_col j = anchor_col + j"
proof -
  from assms(2) have "rows ! i \<in> set rows" by simp
  with assms(1) have "anchor_col + length (rows ! i) \<le> u32_limit" by (simp add: fits_def)
  with assms(3) have "anchor_col + j < u32_limit" by linarith
  moreover have "anchor_row + i < u32_limit" using assms(1,2) by (simp add: fits_def)
  ultimately show "u32_wrapping_add anchor_row i = anchor_row + i" "u32_wrapping_add anchor_col j = anchor_col + j"
    by (simp_all add: u32_wrapping_add_def)
qed

lemma matrix_positions_distinct:
  assumes "fits anchor_row anchor_col rows"
  shows "distinct (map fst (matrix_positions anchor_row anchor_col rows))"
proof -
  let ?at = "\<lambda>i j. (u32_wrapping_add anchor_row i, u32_wrapping_add anchor_col j)"
  have row: "distinct (map fst (row_positions anchor_row anchor_col i row))" if "anchor_col + length row \<le> u32_limit" for i row
    using that
  proof (induction row rule: rev_induct)
    case (snoc m row)
    have "(?at i (length row), x) \<notin> set (row_positions anchor_row anchor_col i row)" for x
      using snoc.prems by (auto simp: row_positions_set u32_wrapping_add_def)
    with snoc show ?case
      by (force simp: row_positions_def List.map_filter_def enumerate_append_eq split: option.splits)
  qed (simp add: row_positions_def List.map_filter_def)
  have "distinct (map fst (concat (map (\<lambda>(i, row). row_positions anchor_row anchor_col i row) (enumerate n rows))))"
    if "anchor_row + n + length rows \<le> u32_limit" "\<forall>row \<in> set rows. anchor_col + length row \<le> u32_limit" for n
    using that
  proof (induction rows arbitrary: n)
    case (Cons r rows)
    let ?rest = "concat (map (\<lambda>(i, row). row_positions anchor_row anchor_col i row) (enumerate (Suc n) rows))"
    have "u32_wrapping_add anchor_row n = anchor_row + n" using Cons.prems by (simp add: u32_wrapping_add_def)
    then have "fst p = anchor_row + n" if "(p, m) \<in> set (row_positions anchor_row anchor_col n r)" for p m
      using that by (auto simp: row_positions_set)
    moreover have "fst p > anchor_row + n" if "(p, m) \<in> set ?rest" for p m
      using that Cons.prems
      by (auto simp: row_positions_set in_set_enumerate_eq u32_wrapping_add_def)
    ultimately have "fst ` set (row_positions anchor_row anchor_col n r) \<inter> fst ` set ?rest = {}" by force
    with Cons.IH [of "Suc n"] Cons.prems row show ?case by simp
  qed simp
  from this [of 0] assms show ?thesis by (simp add: matrix_positions_rows fits_def)
qed

lemma acts_effect_distinct:
  "distinct (map fst acts) \<Longrightarrow>
     acts_effect acts pos oc = (case map_of acts pos of None \<Rightarrow> oc | Some act \<Rightarrow> cell_effect act oc)"
proof (induction acts arbitrary: oc)
  case (Cons a acts)
  obtain p act where a: "a = (p, act)" by (cases a)
  have "map_of acts pos = None" if "p = pos"
    using Cons.prems that by (auto simp: a map_of_eq_None_iff)
  with Cons show ?case by (auto simp: acts_effect_def a split: option.splits)
qed (simp add: acts_effect_def)

text \<open>The cell of the matrix for a position.\<close>

definition matrix_at :: "nat \<Rightarrow> nat \<Rightarrow> matrix_cell option list list \<Rightarrow> cell_pos \<Rightarrow> matrix_cell option" where
  "matrix_at anchor_row anchor_col rows = (\<lambda>(r, c).
     (if anchor_row \<le> r \<and> r - anchor_row < length rows \<and> anchor_col \<le> c
         \<and> c - anchor_col < length (rows ! (r - anchor_row))
      then rows ! (r - anchor_row) ! (c - anchor_col) else None))"

lemma map_of_matrix_positions:
  assumes "fits anchor_row anchor_col rows"
  shows "map_of (matrix_positions anchor_row anchor_col rows) = matrix_at anchor_row anchor_col rows"
proof
  fix pos :: cell_pos
  obtain r c where pos: "pos = (r, c)" by (cases pos)
  have "map_of (matrix_positions anchor_row anchor_col rows) pos = Some m \<longleftrightarrow>
      (pos, m) \<in> set (matrix_positions anchor_row anchor_col rows)" for m
    by (rule map_of_eq_Some_iff [OF matrix_positions_distinct [OF assms]])
  moreover have "(pos, m) \<in> set (matrix_positions anchor_row anchor_col rows) \<longleftrightarrow>
      (\<exists>i < length rows. \<exists>j < length (rows ! i). rows ! i ! j = Some m \<and> r = anchor_row + i \<and> c = anchor_col + j)" for m
    using fitsD [OF assms] by (fastforce simp: matrix_positions_set pos)
  moreover have "matrix_at anchor_row anchor_col rows pos = Some m \<longleftrightarrow>
      (\<exists>i < length rows. \<exists>j < length (rows ! i). rows ! i ! j = Some m \<and> r = anchor_row + i \<and> c = anchor_col + j)" for m
    by (auto simp: matrix_at_def pos) (metis le_add_diff_inverse)
  ultimately show "map_of (matrix_positions anchor_row anchor_col rows) pos = matrix_at anchor_row anchor_col rows pos"
    by (metis option.exhaust_sel)
qed

lemma write_matrix_effect:
  assumes "fork_cell_ref L anchor = Inr (anchor_col, anchor_row)" and "fits anchor_row anchor_col rows"
  shows "op_effect L to_text (WriteMatrix s anchor rows ow) n pos oc =
    (if n = s then (case matrix_at anchor_row anchor_col rows pos of
        None \<Rightarrow> oc | Some m \<Rightarrow> cell_effect (matrix_write to_text ow m) oc) else oc)"
proof -
  let ?acts = "map (\<lambda>(p, m). (p, matrix_write to_text ow m)) (matrix_positions anchor_row anchor_col rows)"
  have "map fst ?acts = map fst (matrix_positions anchor_row anchor_col rows)" by (simp add: case_prod_beta comp_def)
  with matrix_positions_distinct [OF assms(2)] have "distinct (map fst ?acts)" by metis
  from acts_effect_distinct [OF this, of pos oc] show ?thesis
    by (simp add: op_effect_def assms(1) map_of_map map_of_matrix_positions [OF assms(2)] split: option.splits)
qed

section \<open>A validated operation returns\<close>

lemma replace_step_returns:
  "rq_find op \<noteq> [] \<Longrightarrow> \<exists>bk' r. replace_step al op policy bk = Some (bk', r)"
  using replace_cells_returns [of _ op]
  by (auto simp: replace_step_def apply_replace_in_formulas_to_workbook_def split: option.split sum.split)
    (metis not_None_eq option.distinct(1))


section \<open>What the name operations do\<close>

lemma scope_kind_text [simp]: "scope_kind (Some (scope_text k)) = Inr (Some k)"
  by (cases k) (simp_all add: scope_kind_def scope_text_def)

lemma names_frame:
  assumes "bk' = set_scope_names k f bk" and "scope_known k bk"
  shows "scope_names k bk' = f (scope_names k bk)" and "j \<noteq> k \<Longrightarrow> scope_names j bk' = scope_names j bk"
    and "cell_in bk' n pos = cell_in bk n pos"
proof -
  have "scope_names i bk' = (if i = k then f (scope_names i bk) else scope_names i bk)" for i
    unfolding assms(1) by (rule scope_names_set) (use assms(2) in \<open>simp add: scope_known_def\<close>)
  then show "scope_names k bk' = f (scope_names k bk)" "j \<noteq> k \<Longrightarrow> scope_names j bk' = scope_names j bk" by simp_all
qed (simp add: assms(1) cell_in_set_scope)

definition name_read :: "engine_lib \<Rightarrow> string \<Rightarrow> string \<Rightarrow> defined_name \<Rightarrow> bool" where
  "name_read en name a d' = (\<exists>sn d. en_defined_name en sn name a = Some d \<and> entry_of d d')"


text \<open>C27: defining a name no scope has, and deleting it in the same scope, gives the workbook back as
  it was: its cells, its names and their order.\<close>

theorem define_delete_roundtrip:
  assumes run: "apply_write_op_to_workbook al bk (NameOp (DefineName name a kind ssn)) policy = Some (bk', Inr detail)"
    and fresh: "\<And>k e. e \<in> set (scope_names k bk) \<Longrightarrow> dn_name e \<noteq> name"
    and reads: "\<And>sn d. en_defined_name (al_engine al) sn name a = Some d \<Longrightarrow> dn_name d = name"
  shows "\<exists>detail'. apply_write_op_to_workbook al bk' (NameOp (DeleteName name (Some kind) ssn)) policy
    = Some (bk, Inr detail')"
proof -
  from run obtain r where defined: "define_name (al_engine al) name a (Some (scope_text kind)) ssn bk = (bk', Inr r)"
    by (auto simp: bind_step_ok return_step_def)
  from define_name_effect [OF this] obtain d d' sn where
    step: "bk' = set_scope_names (scope_key kind ssn) (\<lambda>ds. ds @ [d']) bk" "scope_known (scope_key kind ssn) bk"
    and "en_defined_name (al_engine al) sn name a = Some d" "entry_of d d'" .
  then have d': "dn_name d' = name" using reads by (auto dest: entry_of_fields)
  from defined have named: "str_trim name \<noteq> []" and sheet: "kind = ScopeSheet \<Longrightarrow> ssn \<noteq> None"
    by (auto simp: define_name_def bind_step_ok read_step_def guard_step_def bind_res_def split: if_splits)
  from remove_added_name [OF step(1) d' step(2) sheet fresh]
  have "remove_name name (Some kind) ssn bk' = (bk, Inr ())" .
  with named show ?thesis by (simp add: delete_name_def step_simps)
qed

section \<open>What importing CSV writes\<close>

definition written_field :: "apply_lib \<Rightarrow> matrix_cell option \<Rightarrow> wcell option \<Rightarrow> wcell option" where
  "written_field al m oc =
     (case m of
        Some (MatrixValue v) \<Rightarrow> Some ((case oc of None \<Rightarrow> empty_cell | Some c \<Rightarrow> c)
          \<lparr> wc_value := matrix_text (al_to_text al) v, wc_formula := None \<rparr>)
      | _ \<Rightarrow> oc)"

text \<open>C28: importing CSV text puts each field in its cell. After an import without clearing, the cell
  at an offset of the anchor has the value of the field at that record and column, no formula and its
  old style; a field that is empty, or reads as null, leaves its cell; and so is every other cell of the
  workbook, with the sheets and the names.\<close>

theorem import_csv_writes_fields:
  assumes "import_csv_step al sheet_name anchor csv header False bk = (bk', Inr d)"
    and "csv_records csv = Inr records" and "rows = map (map (csv_cell al)) (if header then drop 1 records else records)"
    and "fork_cell_ref (al_coords al) anchor = Inr (anchor_col, anchor_row)" and "fits anchor_row anchor_col rows"
  shows "frame_of bk' = frame_of bk \<and> (\<forall>n pos. cell_in bk' n pos =
    (if n = sheet_name then written_field al (matrix_at anchor_row anchor_col rows pos) (cell_in bk n pos)
     else cell_in bk n pos))"
proof -
  let ?op = "WriteMatrix sheet_name anchor rows True"
  from assms(1-3) obtain run where
    run: "apply_transform_ops_to_workbook (al_coords al) (al_to_text al) [?op] bk = (bk', Inr run)"
    by (auto simp: import_csv_step_def transform_step_def step_simps Let_def split: prod.splits sum.splits)
  then obtain run2 r2 where map: "map_step (apply_transform_op (al_coords al) (al_to_text al)) [?op] (transform_start bk)
      = (run2, Inr r2)" and bk': "bk' = tr_book run2"
    by (auto simp: apply_transform_ops_to_workbook_def split: sum.splits prod.splits)
  note effect = run_transform_effect [OF map]
  from effect have frame: "frame_of bk' = frame_of bk" by (simp add: bk' transform_start_def)
  from effect have cells: "cell_in bk' n pos = op_effect (al_coords al) (al_to_text al) ?op n pos (cell_in bk n pos)" for n pos
    by (cases pos) (auto simp: bk' transform_start_def)
  have fields: "\<exists>v. m = MatrixValue v" if "matrix_at anchor_row anchor_col rows pos = Some m" for pos m
    using that by (auto simp: matrix_at_def assms(3) csv_cell_def Let_def split: if_splits prod.splits)
  show ?thesis
  proof (intro conjI allI)
    show "frame_of bk' = frame_of bk" by (rule frame)
    show "cell_in bk' n pos = (if n = sheet_name
        then written_field al (matrix_at anchor_row anchor_col rows pos) (cell_in bk n pos) else cell_in bk n pos)" for n pos
      using fields [of pos]
      by (auto simp: cells write_matrix_effect [OF assms(4,5)] written_field_def cell_effect_def matrix_write_def Let_def
          set_value_def set_formula_only_def split: option.split)
  qed
qed

section \<open>An example\<close>

definition demo_apply :: apply_lib where
  "demo_apply = \<lparr> al_engine = StructureOps.demo_engine, al_column_index = (\<lambda>_. 2), al_to_text = (\<lambda>_. ''7''),
     al_number = (\<lambda>_. JNull), al_parse_f64 = (\<lambda>_. None), al_regex = (\<lambda>_. Inl (Bail ''no regex'')),
     al_transform_detail = (\<lambda>_ _ _. JNull), al_structure_detail = (\<lambda>_. JNull), al_pattern_detail = (\<lambda>_. JNull),
     al_replace_detail = (\<lambda>_. JNull), al_clear_style = (\<lambda>_ _. return_step ()),
     al_grid_styles = (\<lambda>_ _. return_step ()), al_column_width = (\<lambda>_ _ _. return_step ()),
     al_add_address = (\<lambda>a d. d \<lparr> dn_address := dn_address d @ '','' @ a \<rparr>),
     al_other = (\<lambda>_ _. fail_step ''unsupported'') \<rparr>"

lemma demo_apply_simps [simp]:
  "al_coords demo_apply = demo_coords" "al_to_text demo_apply = (\<lambda>_. ''7'')" "al_parse_f64 demo_apply = (\<lambda>_. None)"
  "al_transform_detail demo_apply = (\<lambda>_ _ _. JNull)"
  by (simp_all add: demo_apply_def StructureOps.demo_engine_def demo_rewrite_def)

lemma demo_fork_anchor: "fork_cell_ref demo_coords ''B2'' = Inr (2, 2)"
  by (simp add: fork_cell_ref_def demo_index_eval)

lemma demo_records: "csv_records ''x,y'' = Inr [[''x'', ''y'']]"
  by (simp add: csv_records_def)

lemma demo_rows: "map (map (csv_cell demo_apply)) [[''x'', ''y'']]
    = [[Some (MatrixValue (JStr ''x'')), Some (MatrixValue (JStr ''y''))]]"
  by (simp add: csv_cell_def csv_value_def parse_i64_def eq_ignore_ascii_case_def str_eval)

lemma import_csv_writes_fields_witness:
  "cell_in (fst (import_csv_step demo_apply ''Data'' ''B2'' ''x,y'' False False demo_book)) ''Data'' (2, 3)
     = Some (empty_cell \<lparr> wc_value := ''y'' \<rparr>)"
proof -
  let ?rows = "[[Some (MatrixValue (JStr ''x'')), Some (MatrixValue (JStr ''y''))]]"
  have sheet: "find_sheet demo_book ''Data'' = Some (demo_sheet ''Data'' ''A1'')"
    by (simp add: find_sheet_def demo_book_def demo_sheet_def)
  obtain bk' where run: "import_csv_step demo_apply ''Data'' ''B2'' ''x,y'' False False demo_book = (bk', Inr JNull)"
  proof -
    obtain sh k where "touch_cells (map (\<lambda>(p, m). (p, matrix_write (\<lambda>_. ''7'') True m)) (matrix_positions 2 2 ?rows))
        (demo_sheet ''Data'' ''A1'', no_counts) = (sh, k)" by fastforce
    with sheet demo_rows show thesis
      by (intro that) (simp add: import_csv_step_def transform_step_def step_simps demo_records Let_def demo_fork_anchor
          apply_transform_ops_to_workbook_def apply_transform_op_def transform_start_def)
  qed
  have fits: "fits 2 2 ?rows" by (simp add: fits_def)
  have "cell_in bk' ''Data'' (2, 3) = written_field demo_apply (matrix_at 2 2 ?rows (2, 3)) (cell_in demo_book ''Data'' (2, 3))"
    using import_csv_writes_fields [OF run demo_records _ _ fits] demo_rows demo_fork_anchor by simp
  also have "\<dots> = Some (empty_cell \<lparr> wc_value := ''y'' \<rparr>)"
    by (simp add: matrix_at_def written_field_def matrix_text_def cell_in_def sheet)
      (simp add: demo_sheet_def bt_get_def empty_cell_def)
  finally show ?thesis by (simp add: run)
qed


definition demo_entry :: "string \<Rightarrow> string \<Rightarrow> defined_name" where
  "demo_entry n a = \<lparr> dn_name = n, dn_address = a, dn_hidden = False, dn_local_sheet_id = None \<rparr>"

definition name_apply :: apply_lib where
  "name_apply = demo_apply \<lparr> al_engine := StructureOps.demo_engine
     \<lparr> en_defined_name := (\<lambda>_ n a. Some (demo_entry n a)) \<rparr> \<rparr>"

lemma name_apply_simps [simp]:
  "en_defined_name (al_engine name_apply) sn n a = Some (demo_entry n a)"
  "al_add_address name_apply a d = d \<lparr> dn_address := dn_address d @ '','' @ a \<rparr>"
  by (simp_all add: name_apply_def demo_apply_def)

definition rate_book :: book where
  "rate_book = demo_book \<lparr> bk_names := [demo_entry ''rate'' ''A1'', demo_entry ''tax'' ''A2''] \<rparr>"

lemma rate_update:
  "\<exists>bk' detail. apply_write_op_to_workbook name_apply rate_book (NameOp (UpdateName ''rate'' (Some ''B1'') None None)) PolicyWarn
     = Some (bk', Inr detail)"
  by (simp add: rate_book_def update_name_def step_simps scope_kind_def touch_name_def replace_name_def add_book_name_def
      first_sheet_name_def first_opt_def demo_book_def named_in_book_def demo_entry_def str_eval)


lemma demo_scope_names: "scope_names k demo_book = []"
  by (cases k) (simp_all add: scope_names_def names_on_def find_sheet_def demo_book_def demo_sheet_def)

lemma rate_define:
  "\<exists>bk' detail. apply_write_op_to_workbook name_apply demo_book
     (NameOp (DefineName ''rate'' ''A1'' ScopeSheet (Some ''Data''))) PolicyWarn = Some (bk', Inr detail)"
  by (simp add: define_name_def step_simps scope_kind_def scope_text_def bind_res_def add_sheet_name_def
      resolve_sheet_index_on_spreadsheet_def demo_book_def demo_sheet_def demo_entry_def str_eval)

lemma define_delete_roundtrip_witness:
  "\<exists>bk' detail detail'. apply_write_op_to_workbook name_apply demo_book
       (NameOp (DefineName ''rate'' ''A1'' ScopeSheet (Some ''Data''))) PolicyWarn = Some (bk', Inr detail)
     \<and> apply_write_op_to_workbook name_apply bk' (NameOp (DeleteName ''rate'' (Some ScopeSheet) (Some ''Data''))) PolicyWarn
         = Some (demo_book, Inr detail')"
proof -
  obtain bk' detail where run: "apply_write_op_to_workbook name_apply demo_book
      (NameOp (DefineName ''rate'' ''A1'' ScopeSheet (Some ''Data''))) PolicyWarn = Some (bk', Inr detail)"
    using rate_define by blast
  have "\<exists>detail'. apply_write_op_to_workbook name_apply bk' (NameOp (DeleteName ''rate'' (Some ScopeSheet) (Some ''Data'')))
      PolicyWarn = Some (demo_book, Inr detail')"
    by (rule define_delete_roundtrip [OF run]) (auto simp: demo_scope_names demo_entry_def)
  with run show ?thesis by blast
qed

end
