(* ===== verification/ResidentPrepare.thy ===== *)
theory ResidentPrepare
  imports ResidentDurable WriteApply DiffReaders
begin

text \<open>
  Preparing a write on a resident session (\<open>canonical_write.rs\<close>): the effects of a request are
  computed before anything is published. Requests that only set cells run on a shadow workbook that
  holds just the cells they touch and become a list of cell effects; any other request runs on the
  bytes of the workbook and becomes a snapshot.

  The document is the workbook of the theories of operations. Reading and writing its bytes, the
  typed value of a cell and setting it, the comparison of two texts as numbers and the writers of
  JSON are the parameter \<open>prepare_lib\<close>.
\<close>

section \<open>The library\<close>

text \<open>\<open>pe_far\<close>: \<open>None\<close> unless both texts are numbers, then whether they differ by the tolerance or more.\<close>

record prepare_lib =
  pe_apply :: apply_lib
  pe_checks :: write_lib
  pe_codec :: "write_op codec"
  pe_open :: "string \<Rightarrow> book res"
  pe_save :: "book \<Rightarrow> string res"
  pe_logical_sha :: "string \<Rightarrow> string res"
  pe_diff :: "string \<Rightarrow> string \<Rightarrow> json list res"
  pe_materialize :: "wcell \<Rightarrow> materialized_cell"
  pe_assign_cell :: "materialized_cell \<Rightarrow> (wcell, unit) step"
  pe_far :: "string \<Rightarrow> string \<Rightarrow> bool option"
  pe_change_value :: "change \<Rightarrow> json res"

type_synonym cell_key = "string \<times> u32 \<times> u32"

definition materialized_at :: "prepare_lib \<Rightarrow> book \<Rightarrow> cell_key \<Rightarrow> materialized_cell option" where
  "materialized_at lib bk = (\<lambda>(sheet_name, column, row). map_option (pe_materialize lib) (cell_in bk sheet_name (row, column)))"

definition read_cell :: "prepare_lib \<Rightarrow> book \<Rightarrow> string \<Rightarrow> u32 \<Rightarrow> u32 \<Rightarrow> materialized_cell option res" where
  "read_cell lib bk sheet_name column row =
     (if find_sheet bk sheet_name = None then Inl (Bail ''sheet not found'')
      else Inr (materialized_at lib bk (sheet_name, column, row)))"

definition assign_effect :: "prepare_lib \<Rightarrow> prepared_cell_effect \<Rightarrow> (book, unit) step" where
  "assign_effect lib e bk =
     (case find_sheet bk (ce_sheet_name e) of
        None \<Rightarrow> (bk, Inl (Bail ''sheet not found''))
      | Some sh \<Rightarrow>
          (case pe_assign_cell lib (ce_after e)
              (case sheet_cell sh (ce_column e) (ce_row e) of None \<Rightarrow> empty_cell | Some c \<Rightarrow> c) of
             (c, r) \<Rightarrow> (update_sheet (ce_sheet_name e) (update_cell (ce_column e) (ce_row e) (\<lambda>_. c)) bk, r)))"

definition book_engine :: "prepare_lib \<Rightarrow> book engine" where
  "book_engine lib = \<lparr> eg_open = pe_open lib, eg_save = pe_save lib, eg_cell = read_cell lib,
     eg_assign = assign_effect lib, eg_logical_sha = pe_logical_sha lib \<rparr>"

text \<open>An operation that does not return has no result; no validated operation is one.\<close>

definition book_write_engine :: "prepare_lib \<Rightarrow> book write_engine" where
  "book_write_engine lib = \<lparr> en_read = pe_open lib, en_write = pe_save lib,
     en_apply = (\<lambda>bk op policy. case apply_write_op_to_workbook (pe_apply lib) bk op policy of
         Some out \<Rightarrow> out | None \<Rightarrow> (bk, Inl (Bail ''the operation does not return''))),
     en_diff = pe_diff lib \<rparr>"

section \<open>The cells an operation touches\<close>

definition max_prepared_common_cells :: nat where
  "max_prepared_common_cells = 100000"

definition matrix_spots :: "matrix_cell option list list \<Rightarrow> (nat \<times> nat) list" where
  "matrix_spots rows = concat (map (\<lambda>(i, row). map (\<lambda>(j, _). (i, j))
     (filter (\<lambda>(j, m). m \<noteq> None) (enumerate 0 row))) (enumerate 0 rows))"

definition touch_spot :: "string \<Rightarrow> u32 \<Rightarrow> u32 \<Rightarrow> nat \<times> nat \<Rightarrow> cell_key res" where
  "touch_spot sheet_name anchor_column anchor_row = (\<lambda>(row_offset, column_offset).
     bind_res (ok_or (u32_checked_add anchor_row (as_u32 row_offset)) ''matrix row range overflows'') (\<lambda>row.
     bind_res (ok_or (u32_checked_add anchor_column (as_u32 column_offset)) ''matrix column range overflows'') (\<lambda>column.
     bail_if (1048576 < row \<or> 16384 < column) ''matrix exceeds XLSX worksheet bounds''
       (Inr (sheet_name, column, row)))))"

fun common_touched_cells :: "(string \<Rightarrow> u32) \<Rightarrow> write_op \<Rightarrow> cell_key list res option" where
  "common_touched_cells cidx (SetCells sc) =
     Some (map_res (\<lambda>(address, _). bind_res (parse_cell_ref cidx address) (\<lambda>(column, row).
       Inr (sc_sheet_name sc, column, row))) (sc_cells sc))"
| "common_touched_cells cidx (Transform (WriteMatrix sheet_name anchor rows _)) =
     Some (bind_res (parse_cell_ref cidx anchor) (\<lambda>(anchor_column, anchor_row).
       map_res (touch_spot sheet_name anchor_column anchor_row) (matrix_spots rows)))"
| "common_touched_cells cidx _ = None"

section \<open>The changes a client sees\<close>

definition materialized_value_string :: "materialized_value \<Rightarrow> string option" where
  "materialized_value_string v =
     (case v of MvEmpty \<Rightarrow> None | MvString s \<Rightarrow> Some s | MvRichText s \<Rightarrow> Some s | MvLazy s \<Rightarrow> Some s
      | MvError s \<Rightarrow> Some s | MvNumber t \<Rightarrow> Some t | MvBool b \<Rightarrow> Some (if b then ''1'' else ''0''))"

definition value_changed :: "prepare_lib \<Rightarrow> string option \<Rightarrow> string option \<Rightarrow> bool" where
  "value_changed lib before after =
     (case (before, after) of
        (Some b, Some a) \<Rightarrow> (case pe_far lib b a of Some far \<Rightarrow> far | None \<Rightarrow> b \<noteq> a)
      | _ \<Rightarrow> before \<noteq> after)"

definition prepared_cell_diff ::
    "prepare_lib \<Rightarrow> string \<Rightarrow> materialized_cell option \<Rightarrow> materialized_cell option \<Rightarrow> cell_diff option" where
  "prepared_cell_diff lib address before after =
     (let text = (\<lambda>c. Option.bind c (\<lambda>c. materialized_value_string (mc_value c)));
          formula = (\<lambda>c. Option.bind c mc_formula) in
      case (before, after) of
        (None, None) \<Rightarrow> None
      | (None, Some _) \<Rightarrow>
          if text after = None \<and> formula after = None then None
          else Some (CellAdded address (text after) (formula after))
      | (Some _, None) \<Rightarrow> Some (CellDeleted address (text before))
      | (Some _, Some _) \<Rightarrow>
          let formula_changed = (formula before \<noteq> formula after);
              changed = value_changed lib (text before) (text after) in
          if \<not> formula_changed \<and> \<not> changed then None
          else Some (CellModified
            \<lparr> mo_address = address,
              mo_subtype = (if formula_changed then FormulaEdit
                else if formula after \<noteq> None then RecalcResult else ValueEdit),
              mo_old_value = text before, mo_new_value = text after, mo_old_formula = formula before,
              mo_new_formula = formula after, mo_old_style = None, mo_new_style = None \<rparr>))"

definition prepared_cell_change ::
    "prepare_lib \<Rightarrow> string \<Rightarrow> string \<Rightarrow> materialized_cell option \<Rightarrow> materialized_cell option \<Rightarrow> json option res" where
  "prepared_cell_change lib sheet_name address before after =
     (case prepared_cell_diff lib address before after of
        None \<Rightarrow> Inr None
      | Some d \<Rightarrow> bind_res (pe_change_value lib (ChangeCell sheet_name d)) (\<lambda>j. Inr (Some j)))"

section \<open>The common path\<close>

text \<open>A workbook without sheets, then an empty sheet for each of the source.\<close>

definition shadow_of :: "prepare_lib \<Rightarrow> book \<Rightarrow> book res" where
  "shadow_of lib source =
     fold_res (\<lambda>bk name. en_new_sheet (al_engine (pe_apply lib)) name bk)
       \<lparr> bk_sheets = [], bk_names = [] \<rparr> (map sh_name (bk_sheets source))"

record prepare_run =
  pu_shadow :: book
  pu_before :: "(cell_key \<times> materialized_cell option) list"
  pu_sources :: "(cell_key \<times> nat list) list"
  pu_results :: "write_op_result list"
  pu_failure :: "nat option"

text \<open>The first time a cell is touched it is copied to the shadow and its content is kept.\<close>

definition note_cell :: "prepare_lib \<Rightarrow> book \<Rightarrow> cell_key \<Rightarrow> prepare_run \<Rightarrow> prepare_run" where
  "note_cell lib source key run =
     (case key of (sheet_name, column, row) \<Rightarrow>
      if bt_contains (pu_before run) key \<or> find_sheet source sheet_name = None then run
      else run
        \<lparr> pu_before := bt_insert key (materialized_at lib source key) (pu_before run),
          pu_shadow := (case cell_in source sheet_name (row, column) of
             None \<Rightarrow> pu_shadow run
           | Some c \<Rightarrow> update_sheet sheet_name (update_cell column row (\<lambda>_. c)) (pu_shadow run)) \<rparr>)"

definition note_source :: "nat \<Rightarrow> cell_key \<Rightarrow> (cell_key \<times> nat list) list \<Rightarrow> (cell_key \<times> nat list) list" where
  "note_source index key sources =
     bt_insert key ((case bt_get sources key of None \<Rightarrow> [] | Some is \<Rightarrow> is) @ [index]) sources"

definition fail_op :: "nat \<Rightarrow> write_op \<Rightarrow> err \<Rightarrow> prepare_run \<Rightarrow> prepare_run" where
  "fail_op index op e run =
     run \<lparr> pu_failure := Some index, pu_results := pu_results run @ [write_error index op e] \<rparr>"

definition run_common ::
    "prepare_lib \<Rightarrow> book \<Rightarrow> formula_parse_policy \<Rightarrow> nat \<Rightarrow> write_op \<Rightarrow> cell_key list \<Rightarrow> prepare_run \<Rightarrow> prepare_run" where
  "run_common lib source policy index op touched run =
     (if length (pu_before run) + length (remdups (filter (\<lambda>k. \<not> bt_contains (pu_before run) k) touched))
         > max_prepared_common_cells
      then fail_op index op (Bail ''prepared common-cell limit exceeds 100000'') run
      else
        let run = fold (note_cell lib source) touched run in
        (case en_apply (book_write_engine lib) (pu_shadow run) op policy of
           (shadow, Inl e) \<Rightarrow> fail_op index op e (run \<lparr> pu_shadow := shadow \<rparr>)
         | (shadow, Inr detail) \<Rightarrow>
             run \<lparr> pu_shadow := shadow, pu_sources := fold (note_source index) touched (pu_sources run),
               pu_results := pu_results run @ [applied_result index op detail] \<rparr>))"

text \<open>After a failure the other operations are skipped. The caller checks that every operation is a common one.\<close>

definition prepare_op ::
    "prepare_lib \<Rightarrow> book \<Rightarrow> formula_parse_policy \<Rightarrow> prepare_run \<Rightarrow> nat \<times> write_op \<Rightarrow> prepare_run" where
  "prepare_op lib source policy run = (\<lambda>(index, op).
     (if pu_failure run \<noteq> None then run \<lparr> pu_results := pu_results run @ [skipped_result index op] \<rparr>
      else (case the (common_touched_cells (wl_column_index (pe_checks lib)) op) of
          Inl e \<Rightarrow> fail_op index op e run
        | Inr touched \<Rightarrow> run_common lib source policy index op touched run)))"

definition prepare_ops ::
    "prepare_lib \<Rightarrow> book \<Rightarrow> book \<Rightarrow> formula_parse_policy \<Rightarrow> write_op list \<Rightarrow> prepare_run" where
  "prepare_ops lib source shadow policy ops =
     foldl (prepare_op lib source policy)
       \<lparr> pu_shadow = shadow, pu_before = [], pu_sources = [], pu_results = [], pu_failure = None \<rparr> (enumerate 0 ops)"

text \<open>The touched cells by sheet, row and column.\<close>

definition ordered_before :: "prepare_run \<Rightarrow> (cell_key \<times> materialized_cell option) list" where
  "ordered_before run = sort_key (\<lambda>((sheet_name, column, row), _). (sheet_name, row, column)) (pu_before run)"

definition cell_effects :: "prepare_lib \<Rightarrow> prepare_run \<Rightarrow> prepared_cell_effect list" where
  "cell_effects lib run =
     List.map_filter (\<lambda>((sheet_name, column, row), before).
       (case materialized_at lib (pu_shadow run) (sheet_name, column, row) of
          None \<Rightarrow> None
        | Some after \<Rightarrow>
            if before = Some after then None
            else Some \<lparr> ce_sheet_name = sheet_name, ce_column = column, ce_row = row,
              ce_source_op_indices = (case bt_get (pu_sources run) (sheet_name, column, row) of None \<Rightarrow> [] | Some is \<Rightarrow> is),
              ce_expected_before = before, ce_after = after \<rparr>)) (ordered_before run)"

definition cell_changes :: "prepare_lib \<Rightarrow> prepare_run \<Rightarrow> json list res" where
  "cell_changes lib run =
     bind_res (map_res (\<lambda>((sheet_name, column, row), before).
       prepared_cell_change lib sheet_name (cell_address column row) before
         (materialized_at lib (pu_shadow run) (sheet_name, column, row))) (ordered_before run)) (\<lambda>changes.
     Inr (List.map_filter (\<lambda>c. c) changes))"

definition prepare_common_transaction ::
    "prepare_lib \<Rightarrow> (book, write_op) write_session \<Rightarrow> write_request \<Rightarrow> string option \<Rightarrow> write_op prepared_transaction res" where
  "prepare_common_transaction lib se request stage_change_id =
     (let source = rw_document (se_workbook se);
          impact = request_impact request;
          revision_before = session_revision se in
      bind_res (shadow_of lib source) (\<lambda>shadow.
      let run = prepare_ops lib source shadow (write_policy request) (wq_ops request);
          failure = pu_failure run;
          effects = cell_effects lib run;
          publish_cells = (wq_mode request = Apply \<and> \<not> (wq_atomic request \<and> failure \<noteq> None) \<and> effects \<noteq> []) in
      bind_res (cell_changes lib run) (\<lambda>changes.
      Inr \<lparr> pt_base_sha256 = se_base_sha256 se,
        pt_response = canonical_response_from_prepared request revision_before
          (predicted_resident_revision (se_workbook se) publish_cells) (pu_results run)
          (changes_to_write_diff changes) impact failure
          (length (filter (\<lambda>r. wr_status r = StApplied) (pu_results run))) stage_change_id,
        pt_publication = (if publish_cells then PubCells effects else PubNone),
        pt_staged = (if wq_mode request = Stage \<and> failure = None
          then Some (the stage_change_id, \<lparr> sb_base_revision = revision_before, sb_max_risk = wi_risk impact,
            sb_atomic = True, sb_ops = wq_ops request, sb_label = wq_label request,
            sb_formula_parse_policy = map_option policy_name (wq_formula_parse_policy request) \<rparr>)
          else None),
        pt_consume_staged = None \<rparr>)))"

section \<open>The snapshot path\<close>

definition calculation_effect_for_ops :: "write_op list \<Rightarrow> resident_calculation_effect" where
  "calculation_effect_for_ops ops =
     (if list_all (\<lambda>op. op_kind op \<in> {''style'', ''column_size'', ''freeze_panes'', ''set_zoom'', ''set_gridlines'',
         ''set_page_margins'', ''set_page_setup'', ''set_print_area'', ''set_page_breaks'', ''set_data_validation'',
         ''add_conditional_format'', ''set_conditional_format'', ''clear_conditional_formats''}) ops
      then Preserve else Invalidate)"

fun rewrite_response_revisions :: "write_response_data \<Rightarrow> string \<Rightarrow> string \<Rightarrow> write_response_data" where
  "rewrite_response_revisions (Previewed m a _ _ n d i rs) before after = Previewed m a before after n d i rs"
| "rewrite_response_revisions (Staged m a _ _ n c d i rs) before after = Staged m a before after n c d i rs"
| "rewrite_response_revisions (Applied m a _ _ n d i rs) before after = Applied m a before after n d i rs"
| "rewrite_response_revisions (Partial m a _ _ n d i rs) before after = Partial m a before after n d i rs"
| "rewrite_response_revisions (Failed m a _ _ n d i rs) before after = Failed m a before after n d i rs"
| "rewrite_response_revisions (RolledBack m a _ _ n b d i rs) before after = RolledBack m a before after n b d i rs"

text \<open>The transaction on bytes with its response and the bytes it committed, if any.\<close>

definition execute_write_on_bytes ::
    "prepare_lib \<Rightarrow> string \<Rightarrow> string \<Rightarrow> string \<Rightarrow> write_request \<Rightarrow> (write_response_data \<times> string option) res" where
  "execute_write_on_bytes lib fresh bytes revision request =
     (case execute_write_transaction (book_write_engine lib) (pe_checks lib)
         (byte_session_backend (sha256_hex (pe_codec lib)) fresh) request
         \<lparr> bs_bytes = bytes, bs_revision = revision, bs_committed = None \<rparr> of
        (b, r) \<Rightarrow> bind_res r (\<lambda>response. Inr (response, bs_committed b)))"

text \<open>A preview answers with a preview or a failure; anything else is a panic of the code.\<close>

definition staged_response :: "string \<Rightarrow> string option \<Rightarrow> write_response_data \<Rightarrow> write_response_data res" where
  "staged_response revision stage_change_id preview =
     (case preview of
        Previewed _ _ _ _ n d impact results \<Rightarrow>
          Inr (Staged Stage True revision revision n (the stage_change_id) d impact (map (set_status StStaged) results))
      | Failed _ atomic _ _ _ d impact results \<Rightarrow> Inr (Failed Stage atomic revision revision 0 d impact results)
      | _ \<Rightarrow> Inl (Bail ''preview preparation returns previewed or failed''))"

definition staged_entry :: "write_request \<Rightarrow> string \<Rightarrow> write_response_data \<Rightarrow> (string \<times> write_op staged_bundle) option" where
  "staged_entry request revision response =
     (case response of
        Staged _ _ _ _ _ change_id _ impact _ \<Rightarrow>
          Some (change_id, \<lparr> sb_base_revision = revision, sb_max_risk = wi_risk impact, sb_atomic = True,
            sb_ops = wq_ops request, sb_label = wq_label request,
            sb_formula_parse_policy = map_option policy_name (wq_formula_parse_policy request) \<rparr>)
      | _ \<Rightarrow> None)"

definition applied_ops :: "write_request \<Rightarrow> write_response_data \<Rightarrow> write_op list" where
  "applied_ops request response =
     (let results = (case response of Applied _ _ _ _ _ _ _ rs \<Rightarrow> rs | Partial _ _ _ _ _ _ _ rs \<Rightarrow> rs | _ \<Rightarrow> []) in
      map (\<lambda>r. wq_ops request ! wr_index r) (filter (\<lambda>r. wr_status r = StApplied) results))"

definition prepare_snapshot_transaction ::
    "prepare_lib \<Rightarrow> string \<Rightarrow> (book, write_op) write_session \<Rightarrow> write_request \<Rightarrow> string option
      \<Rightarrow> write_op prepared_transaction res" where
  "prepare_snapshot_transaction lib fresh se request stage_change_id =
     bind_res (pe_save lib (rw_document (se_workbook se))) (\<lambda>bytes.
     bind_res (pe_logical_sha lib bytes) (\<lambda>current_sha.
     let revision_before = session_revision se in
     if wq_mode request = Stage then
       bind_res (execute_write_on_bytes lib fresh bytes revision_before (request \<lparr> wq_mode := Preview \<rparr>)) (\<lambda>(preview, _).
       bind_res (staged_response revision_before stage_change_id preview) (\<lambda>response.
       Inr \<lparr> pt_base_sha256 = se_base_sha256 se, pt_response = response, pt_publication = PubNone,
         pt_staged = staged_entry request revision_before response, pt_consume_staged = None \<rparr>))
     else
       bind_res (execute_write_on_bytes lib fresh bytes revision_before request) (\<lambda>(response, candidate).
       let response = rewrite_response_revisions response revision_before
             (predicted_resident_revision (se_workbook se) (candidate \<noteq> None)) in
       Inr \<lparr> pt_base_sha256 = se_base_sha256 se, pt_response = response,
         pt_publication = (case candidate of
            None \<Rightarrow> PubNone
          | Some bytes \<Rightarrow> PubSnapshot current_sha bytes (sha256_hex (pe_codec lib) bytes)
              (calculation_effect_for_ops (applied_ops request response))),
         pt_staged = None, pt_consume_staged = None \<rparr>)))"

section \<open>Either path\<close>

definition prepare_resident_transaction ::
    "prepare_lib \<Rightarrow> string \<Rightarrow> (book, write_op) write_session \<Rightarrow> write_request \<Rightarrow> string option
      \<Rightarrow> write_op prepared_transaction res" where
  "prepare_resident_transaction lib fresh se request stage_change_id =
     bind_res (validate_request (pe_checks lib) request) (\<lambda>_.
     if wq_resource_id request \<noteq> se_resource_id se
     then invalid_request ''resident write resource does not match its owning session''
     else bail_if (wq_expected_revision request \<noteq> session_revision se) ''revision conflict''
       (if list_all (\<lambda>op. common_touched_cells (wl_column_index (pe_checks lib)) op \<noteq> None) (wq_ops request)
        then prepare_common_transaction lib se request stage_change_id
        else prepare_snapshot_transaction lib fresh se request stage_change_id))"

end
