(* ===== verification/PrepareExact.thy ===== *)
theory PrepareExact
  imports ResidentPrepare
begin

text \<open>
  The shadow workbook of a prepared write gives the effects of the real one: running the operations on
  the few cells they touch answers like running them on the whole workbook, and the prepared effects
  are exactly the cells in which the two workbooks differ.
\<close>

section \<open>Workbooks that agree on some cells\<close>

definition agree :: "(string \<times> cell_pos) set \<Rightarrow> book \<Rightarrow> book \<Rightarrow> bool" where
  "agree T b b' = ((\<forall>n. find_sheet b n = None \<longleftrightarrow> find_sheet b' n = None)
     \<and> (\<forall>(n, pos) \<in> T. cell_in b n pos = cell_in b' n pos))"

lemma agree_names: "agree T b b' \<Longrightarrow> find_sheet b n = None \<longleftrightarrow> find_sheet b' n = None"
  by (simp add: agree_def)

lemma agree_sheet:
  "agree T b b' \<Longrightarrow> find_sheet b n = Some sh \<Longrightarrow> find_sheet b' n = Some sh' \<Longrightarrow> (n, pos) \<in> T \<Longrightarrow>
     bt_get (sh_cells sh) pos = bt_get (sh_cells sh') pos"
  by (force simp: agree_def cell_in_def)

text \<open>Actions on cells that agree count the same.\<close>

lemma touch_cells_counts:
  assumes "\<forall>(p, act) \<in> set acts. counts_only act \<and> bt_get (sh_cells sh) p = bt_get (sh_cells sh') p"
  shows "snd (touch_cells acts (sh, k)) = snd (touch_cells acts (sh', k))"
  using assms
proof (induction acts arbitrary: sh sh' k)
  case (Cons a acts)
  obtain p act where a: "a = (p, act)" by (cases a)
  obtain oc k1 where act: "act (bt_get (sh_cells sh) p) k = (oc, k1)" by fastforce
  have same: "act (bt_get (sh_cells sh') p) k = (oc, k1)" using Cons.prems act by (simp add: a)
  have "bt_get (sh_cells (put_cell p oc sh)) q = bt_get (sh_cells (put_cell p oc sh')) q"
    if "bt_get (sh_cells sh) q = bt_get (sh_cells sh') q" for q
    using that by (auto simp: put_cell_def bt.get_ins split: option.splits)
  with Cons.prems have "\<forall>(q, act) \<in> set acts. counts_only act
      \<and> bt_get (sh_cells (put_cell p oc sh)) q = bt_get (sh_cells (put_cell p oc sh')) q"
    by auto
  from Cons.IH [OF this, of k1] show ?case by (simp add: a act same)
qed simp

section \<open>Writes that name their cells\<close>

text \<open>Matrices written to one sheet at anchors that can be read, within the cells of \<open>T\<close>.\<close>

definition writes_in :: "coord_lib \<Rightarrow> string \<Rightarrow> (string \<times> cell_pos) set \<Rightarrow> transform_op list \<Rightarrow> bool" where
  "writes_in L s T ops = (\<forall>op \<in> set ops. \<exists>anchor rows ow c r. op = WriteMatrix s anchor rows ow
     \<and> fork_cell_ref L anchor = Inr (c, r) \<and> (\<forall>(p, m) \<in> set (matrix_positions r c rows). (s, p) \<in> T))"

definition same_report :: "transform_run \<Rightarrow> transform_run \<Rightarrow> bool" where
  "same_report run run' = (tr_counts run = tr_counts run' \<and> tr_sheets run = tr_sheets run' \<and> tr_bounds run = tr_bounds run')"

lemma acts_effect_outside: "(\<forall>(p, act) \<in> set acts. p \<noteq> pos) \<Longrightarrow> acts_effect acts pos oc = oc"
  by (induction acts arbitrary: oc) (auto simp: acts_effect_def)

lemma one_write:
  assumes op: "op = WriteMatrix s anchor rows ow" and ref: "fork_cell_ref L anchor = Inr (c, r)"
    and inside: "\<forall>(p, m) \<in> set (matrix_positions r c rows). (s, p) \<in> T"
    and there: "find_sheet (tr_book run) s \<noteq> None"
    and runs: "agree T (tr_book run) (tr_book run')" "same_report run run'"
  obtains run1 run1' where "apply_transform_op L to_text op run = (run1, Inr ())"
    and "apply_transform_op L to_text op run' = (run1', Inr ())"
    and "agree T (tr_book run1) (tr_book run1')" and "same_report run1 run1'"
    and "\<And>n. find_sheet (tr_book run1) n = None \<longleftrightarrow> find_sheet (tr_book run) n = None"
    and "\<And>n pos. (n, pos) \<notin> T \<Longrightarrow> cell_in (tr_book run1) n pos = cell_in (tr_book run) n pos"
    and "\<And>n pos. (n, pos) \<notin> T \<Longrightarrow> cell_in (tr_book run1') n pos = cell_in (tr_book run') n pos"
proof -
  let ?acts = "map (\<lambda>(p, m). (p, matrix_write to_text ow m)) (matrix_positions r c rows)"
  have acts: "transform_actions L to_text op = Inr (?acts, [matrix_bounds r c rows])" and sheet: "transform_sheet op = s"
    by (simp_all add: op ref)
  from there runs(1) obtain sh sh' where sh: "find_sheet (tr_book run) s = Some sh" "find_sheet (tr_book run') s = Some sh'"
    using agree_names [OF runs(1), of s] by (metis not_None_eq)
  have counted: "\<forall>(p, act) \<in> set ?acts. counts_only act \<and> bt_get (sh_cells sh) p = bt_get (sh_cells sh') p"
    using inside agree_sheet [OF runs(1) sh] by auto
  obtain run1 r1 run1' r1' where a: "apply_transform_op L to_text op run = (run1, r1)"
    "apply_transform_op L to_text op run' = (run1', r1')" by fastforce
  have ok: "r1 = Inr ()" "r1' = Inr ()"
    using a sh acts by (auto simp: apply_transform_op_def sheet Let_def split: prod.splits)
  have reports: "same_report run1 run1'"
    using a sh acts runs(2) touch_cells_counts [OF counted, of "tr_counts run"]
    by (auto simp: apply_transform_op_def sheet Let_def same_report_def split: prod.splits)
  note effect = apply_transform_op_effect [OF a(1)] apply_transform_op_effect [OF a(2)]
  have outside: "op_effect L to_text op n pos oc = oc" if "(n, pos) \<notin> T" for n pos oc
  proof -
    have "acts_effect ?acts pos oc = oc" if "n = s"
      by (rule acts_effect_outside) (use inside that \<open>(n, pos) \<notin> T\<close> in auto)
    then show ?thesis by (simp add: op_effect_def acts sheet)
  qed
  have sheets: "has_sheet n (tr_book run1) = has_sheet n (tr_book run)" "has_sheet n (tr_book run1') = has_sheet n (tr_book run')" for n
    using effect has_sheet_frame by metis+
  show thesis
  proof (rule that)
    show "apply_transform_op L to_text op run = (run1, Inr ())" "apply_transform_op L to_text op run' = (run1', Inr ())"
      using a ok by simp_all
    show "same_report run1 run1'" by (rule reports)
    show "find_sheet (tr_book run1) n = None \<longleftrightarrow> find_sheet (tr_book run) n = None" for n
      using sheets(1) [of n] by (cases "find_sheet (tr_book run1) n"; cases "find_sheet (tr_book run) n") (auto simp: has_sheet_def)
    show "cell_in (tr_book run1) n pos = cell_in (tr_book run) n pos"
      "cell_in (tr_book run1') n pos = cell_in (tr_book run') n pos" if "(n, pos) \<notin> T" for n pos
      using effect outside [OF that] ok by metis+
    have "cell_in (tr_book run1) n pos = cell_in (tr_book run1') n pos" if "(n, pos) \<in> T" for n pos
    proof -
      from that runs(1) have "cell_in (tr_book run) n pos = cell_in (tr_book run') n pos" by (auto simp: agree_def)
      with effect ok show ?thesis by metis
    qed
    moreover have "find_sheet (tr_book run1) n = None \<longleftrightarrow> find_sheet (tr_book run1') n = None" for n
      using sheets [of n] agree_names [OF runs(1), of n] unfolding has_sheet_def by (metis not_None_eq)
    ultimately show "agree T (tr_book run1) (tr_book run1')" by (auto simp: agree_def)
  qed
qed

text \<open>The batch: without its sheet it fails and nothing changes; else it succeeds on both workbooks.\<close>

lemma writes_missing:
  assumes "writes_in L s T ops" and "find_sheet (tr_book run) s = None" and "ops \<noteq> []"
  shows "map_step (apply_transform_op L to_text) ops run = (run, Inl (Bail ''sheet not found''))"
proof -
  obtain op rest where ops: "ops = op # rest" using assms(3) by (cases ops) auto
  with assms(1) have "transform_sheet op = s" by (auto simp: writes_in_def)
  with assms(2) show ?thesis by (simp add: ops apply_transform_op_def bind_step_def)
qed

lemma writes_there:
  assumes "writes_in L s T ops" and "find_sheet (tr_book run) s \<noteq> None"
    and "agree T (tr_book run) (tr_book run')" and "same_report run run'"
  shows "\<exists>out out' u. map_step (apply_transform_op L to_text) ops run = (out, Inr u)
    \<and> map_step (apply_transform_op L to_text) ops run' = (out', Inr u)
    \<and> agree T (tr_book out) (tr_book out') \<and> same_report out out'
    \<and> (\<forall>n. find_sheet (tr_book out) n = None \<longleftrightarrow> find_sheet (tr_book run) n = None)
    \<and> (\<forall>n pos. (n, pos) \<notin> T \<longrightarrow> cell_in (tr_book out) n pos = cell_in (tr_book run) n pos
        \<and> cell_in (tr_book out') n pos = cell_in (tr_book run') n pos)"
  using assms
proof (induction ops arbitrary: run run')
  case Nil
  then show ?case by (simp add: return_step_def)
next
  case (Cons op ops)
  then obtain anchor rows ow c r where op: "op = WriteMatrix s anchor rows ow" "fork_cell_ref L anchor = Inr (c, r)"
    "\<forall>(p, m) \<in> set (matrix_positions r c rows). (s, p) \<in> T"
    by (auto simp: writes_in_def)
  obtain run1 run1' where one: "apply_transform_op L to_text op run = (run1, Inr ())"
    "apply_transform_op L to_text op run' = (run1', Inr ())"
    "agree T (tr_book run1) (tr_book run1')" "same_report run1 run1'"
    "\<And>n. find_sheet (tr_book run1) n = None \<longleftrightarrow> find_sheet (tr_book run) n = None"
    "\<And>n pos. (n, pos) \<notin> T \<Longrightarrow> cell_in (tr_book run1) n pos = cell_in (tr_book run) n pos"
    "\<And>n pos. (n, pos) \<notin> T \<Longrightarrow> cell_in (tr_book run1') n pos = cell_in (tr_book run') n pos"
    by (rule one_write [OF op Cons.prems(2-4)]) blast
  have rest: "writes_in L s T ops" "find_sheet (tr_book run1) s \<noteq> None"
    using Cons.prems(1,2) one(5) by (auto simp: writes_in_def)
  from Cons.IH [OF rest one(3,4)] obtain out out' u where ih:
    "map_step (apply_transform_op L to_text) ops run1 = (out, Inr u)"
    "map_step (apply_transform_op L to_text) ops run1' = (out', Inr u)"
    "agree T (tr_book out) (tr_book out')" "same_report out out'"
    "\<forall>n. find_sheet (tr_book out) n = None \<longleftrightarrow> find_sheet (tr_book run1) n = None"
    "\<forall>n pos. (n, pos) \<notin> T \<longrightarrow> cell_in (tr_book out) n pos = cell_in (tr_book run1) n pos
        \<and> cell_in (tr_book out') n pos = cell_in (tr_book run1') n pos" by blast
  have "map_step (apply_transform_op L to_text) (op # ops) run = (out, Inr (() # u))"
    "map_step (apply_transform_op L to_text) (op # ops) run' = (out', Inr (() # u))"
    by (simp_all add: bind_step_def return_step_def one(1,2) ih(1,2))
  with ih one show ?case by auto
qed

section \<open>The operations of a common request\<close>

definition transform_ops_of :: "apply_lib \<Rightarrow> write_op \<Rightarrow> transform_op list" where
  "transform_ops_of al op = (case op of SetCells sc \<Rightarrow> set_cells_to_ops al sc | Transform t \<Rightarrow> [t] | _ \<Rightarrow> [])"

definition op_sheet :: "write_op \<Rightarrow> string" where
  "op_sheet op = (case op of SetCells sc \<Rightarrow> sc_sheet_name sc | Transform t \<Rightarrow> transform_sheet t | _ \<Rightarrow> [])"

lemma common_apply:
  "common_touched_cells cidx op = Some x \<Longrightarrow>
     en_apply (book_write_engine lib) bk op policy = transform_step (pe_apply lib) (transform_ops_of (pe_apply lib) op) bk"
  by (induction cidx op rule: common_touched_cells.induct)
    (simp_all add: book_write_engine_def transform_ops_of_def)

text \<open>The addresses of a request that both parsers of the code read, as the same cell.\<close>

definition op_anchors :: "write_op \<Rightarrow> string list" where
  "op_anchors op = (case op of SetCells sc \<Rightarrow> map fst (sc_cells sc) | Transform (WriteMatrix _ anchor _ _) \<Rightarrow> [anchor] | _ \<Rightarrow> [])"

definition reads_alike :: "(string \<Rightarrow> u32) \<Rightarrow> coord_lib \<Rightarrow> write_op \<Rightarrow> bool" where
  "reads_alike cidx L op = (\<forall>s \<in> set (op_anchors op). \<forall>c r. parse_cell_ref cidx s = Inr (c, r) \<longrightarrow>
     fork_cell_ref L s = Inr (c, r) \<and> c < u32_limit \<and> r < u32_limit)"

text \<open>The keys as sheets and positions.\<close>

definition key_set :: "cell_key list \<Rightarrow> (string \<times> cell_pos) set" where
  "key_set ks = (\<lambda>(s, c, r). (s, (r, c))) ` set ks"

lemma map_res_in: "map_res f xs = Inr ys \<Longrightarrow> x \<in> set xs \<Longrightarrow> \<exists>y \<in> set ys. f x = Inr y"
  by (induction xs arbitrary: ys) (auto simp: bind_res_Inr)

lemma matrix_spots_in:
  "i < length rows \<Longrightarrow> j < length (rows ! i) \<Longrightarrow> rows ! i ! j = Some m \<Longrightarrow> (i, j) \<in> set (matrix_spots rows)"
  by (force simp: matrix_spots_def in_set_enumerate_eq)

lemma touch_spot_key:
  assumes "touch_spot s c r (i, j) = Inr key"
  shows "key = (s, u32_wrapping_add c j, u32_wrapping_add r i)"
proof -
  have wrap: "u32_wrapping_add a (as_u32 n) = u32_wrapping_add a n" for a n
    by (simp add: u32_wrapping_add_def as_u32_def mod_add_right_eq)
  from assms have "key = (s, c + as_u32 j, r + as_u32 i)" and "r + as_u32 i < u32_limit" and "c + as_u32 j < u32_limit"
    by (auto simp: touch_spot_def bind_res_Inr u32_checked_add_def bail_if_def split: if_splits)
  then have "key = (s, u32_wrapping_add c (as_u32 j), u32_wrapping_add r (as_u32 i))"
    by (simp add: u32_wrapping_add_def)
  then show ?thesis by (simp only: wrap)
qed

lemma set_cells_writes_in:
  assumes touched: "map_res (\<lambda>(address, _). bind_res (parse_cell_ref cidx address) (\<lambda>(column, row).
      Inr (sc_sheet_name sc, column, row))) (sc_cells sc) = Inr touched"
    and coords: "reads_alike cidx (al_coords al) (SetCells sc)" and inside: "key_set touched \<subseteq> T"
  shows "writes_in (al_coords al) (sc_sheet_name sc) T (set_cells_to_ops al sc)"
  unfolding writes_in_def
proof
  fix op assume "op \<in> set (set_cells_to_ops al sc)"
  then obtain address v cell where a: "(address, v) \<in> set (sc_cells sc)"
    and op: "op = WriteMatrix (sc_sheet_name sc) address [[Some cell]] (sc_overwrite_formulas sc)"
    by (auto simp: set_cells_to_ops_def)
  from map_res_in [OF touched a] obtain c r where key: "(sc_sheet_name sc, c, r) \<in> set touched"
    and ref: "parse_cell_ref cidx address = Inr (c, r)" by (auto simp: bind_res_Inr)
  have "fork_cell_ref (al_coords al) address = Inr (c, r)" "c < u32_limit" "r < u32_limit"
    using coords ref a by (force simp: reads_alike_def op_anchors_def)+
  moreover have "(sc_sheet_name sc, (r, c)) \<in> T" using inside key by (force simp: key_set_def)
  ultimately show "\<exists>anchor rows ow c r. op = WriteMatrix (sc_sheet_name sc) anchor rows ow
      \<and> fork_cell_ref (al_coords al) anchor = Inr (c, r) \<and> (\<forall>(p, m) \<in> set (matrix_positions r c rows). (sc_sheet_name sc, p) \<in> T)"
    by (auto simp: op matrix_positions_set u32_wrapping_add_def)
qed

lemma matrix_writes_in:
  assumes coords: "reads_alike cidx (al_coords al) (Transform (WriteMatrix s anchor rows ow))" and inside: "key_set touched \<subseteq> T"
    and ref: "parse_cell_ref cidx anchor = Inr (c, r)"
    and spots: "map_res (touch_spot s c r) (matrix_spots rows) = Inr touched"
  shows "writes_in (al_coords al) s T [WriteMatrix s anchor rows ow]"
proof -
  have "(s, p) \<in> T" if "(p, m) \<in> set (matrix_positions r c rows)" for p m
  proof -
    from that obtain i j where ij: "i < length rows" "j < length (rows ! i)" "rows ! i ! j = Some m"
      and p: "p = (u32_wrapping_add r i, u32_wrapping_add c j)" by (auto simp: matrix_positions_set)
    from map_res_in [OF spots matrix_spots_in [OF ij]] obtain key where "key \<in> set touched" "touch_spot s c r (i, j) = Inr key"
      by blast
    with touch_spot_key have "(s, u32_wrapping_add c j, u32_wrapping_add r i) \<in> set touched" by blast
    then have "(s, p) \<in> key_set touched" by (force simp: key_set_def p)
    with inside show ?thesis by blast
  qed
  moreover have "fork_cell_ref (al_coords al) anchor = Inr (c, r)" using coords ref by (auto simp: reads_alike_def op_anchors_def)
  ultimately show ?thesis by (auto simp: writes_in_def)
qed

lemma common_cases:
  assumes "common_touched_cells cidx op = Some x"
  obtains sc where "op = SetCells sc"
      and "x = map_res (\<lambda>(address, _). bind_res (parse_cell_ref cidx address) (\<lambda>(column, row).
        Inr (sc_sheet_name sc, column, row))) (sc_cells sc)"
  | s anchor rows ow where "op = Transform (WriteMatrix s anchor rows ow)"
      and "x = bind_res (parse_cell_ref cidx anchor) (\<lambda>(anchor_column, anchor_row).
        map_res (touch_spot s anchor_column anchor_row) (matrix_spots rows))"
  using assms by (cases "(cidx, op)" rule: common_touched_cells.cases) auto

lemma common_writes_in:
  assumes "common_touched_cells cidx op = Some (Inr touched)" and "reads_alike cidx (al_coords al) op"
    and "key_set touched \<subseteq> T"
  shows "writes_in (al_coords al) (op_sheet op) T (transform_ops_of al op)"
  using assms(1)
proof (cases rule: common_cases)
  case (1 sc)
  with set_cells_writes_in [OF _ _ assms(3)] assms(2) show ?thesis by (simp add: transform_ops_of_def op_sheet_def)
next
  case (2 s anchor rows ow)
  then obtain c r where "parse_cell_ref cidx anchor = Inr (c, r)" "map_res (touch_spot s c r) (matrix_spots rows) = Inr touched"
    by (metis (no_types, lifting) bind_res_Inr case_prod_conv surj_pair)
  from matrix_writes_in [OF _ assms(3) this] assms(2) show ?thesis by (simp add: 2 transform_ops_of_def op_sheet_def)
qed


text \<open>An operation touches cells of its sheet only, and no more than it counts.\<close>

lemma matrix_spots_length: "length (matrix_spots rows) \<le> row_lengths rows"
proof -
  have "length (concat (map (\<lambda>(i, row). map (\<lambda>(j, _). (i, j)) (filter (\<lambda>(j, m). m \<noteq> None) (enumerate 0 row))) (enumerate n rows)))
      \<le> row_lengths rows" for n
  proof (induction rows arbitrary: n)
    case (Cons row rows)
    have "length (filter (\<lambda>(j, m). m \<noteq> None) (enumerate 0 row)) \<le> length row"
      using length_filter_le [of _ "enumerate 0 row"] by simp
    with Cons.IH [of "Suc n"] show ?case by (simp add: row_lengths_def)
  qed (simp add: row_lengths_def)
  then show ?thesis by (simp add: matrix_spots_def)
qed

lemma map_res_all: "map_res f xs = Inr ys \<Longrightarrow> (\<And>x y. f x = Inr y \<Longrightarrow> P y) \<Longrightarrow> \<forall>y \<in> set ys. P y"
  by (induction xs arbitrary: ys) (auto simp: bind_res_Inr)

lemma touched_bounds:
  assumes "common_touched_cells cidx op = Some (Inr touched)"
  shows "length touched \<le> op_cells op" and "\<forall>(n, c, r) \<in> set touched. n = op_sheet op"
proof -
  from assms have "length touched \<le> op_cells op \<and> (\<forall>(n, c, r) \<in> set touched. n = op_sheet op)"
  proof (cases rule: common_cases)
    case (1 sc)
    then have t: "map_res (\<lambda>(address, _). bind_res (parse_cell_ref cidx address) (\<lambda>(column, row).
        Inr (sc_sheet_name sc, column, row))) (sc_cells sc) = Inr touched" by simp
    have "\<forall>y \<in> set touched. fst y = sc_sheet_name sc" by (rule map_res_all [OF t]) (auto simp: bind_res_Inr)
    with map_res_length [OF t] show ?thesis by (auto simp: 1 op_cells_def op_sheet_def)
  next
    case (2 s anchor rows ow)
    then obtain c r where t: "map_res (touch_spot s c r) (matrix_spots rows) = Inr touched"
      by (metis (no_types, lifting) bind_res_Inr case_prod_conv surj_pair)
    have "\<forall>y \<in> set touched. fst y = s"
      by (rule map_res_all [OF t]) (use touch_spot_key in fastforce)
    with map_res_length [OF t] matrix_spots_length [of rows] show ?thesis by (auto simp: 2 op_cells_def op_sheet_def)
  qed
  then show "length touched \<le> op_cells op" and "\<forall>(n, c, r) \<in> set touched. n = op_sheet op" by auto
qed

text \<open>Operations on cells never remove one.\<close>

lemma acts_effect_present: "oc \<noteq> None \<Longrightarrow> acts_effect acts pos oc \<noteq> None"
  by (induction acts arbitrary: oc) (auto simp: acts_effect_def cell_effect_def split: option.splits)

lemma op_effect_present: "oc \<noteq> None \<Longrightarrow> op_effect L to_text op n pos oc \<noteq> None"
  using acts_effect_present by (auto simp: op_effect_def split: sum.splits)

lemma transform_step_present:
  assumes "transform_step al ops bk = (bk', r)" and "cell_in bk n pos \<noteq> None"
  shows "cell_in bk' n pos \<noteq> None"
proof -
  obtain run' r' where run: "map_step (apply_transform_op (al_coords al) (al_to_text al)) ops (transform_start bk) = (run', r')"
    by fastforce
  have book: "bk' = tr_book run'"
    using assms(1) run by (auto simp: transform_step_def step_simps apply_transform_ops_to_workbook_def split: sum.splits)
  have "fold (\<lambda>op. op_effect (al_coords al) (al_to_text al) op n pos) ops' oc \<noteq> None" if "oc \<noteq> None" for ops' oc
    using that by (induction ops' arbitrary: oc) (use op_effect_present in auto)
  moreover obtain r c where "pos = (r, c)" by fastforce
  ultimately show ?thesis using run_transform_effect [OF run] assms(2) by (auto simp: book transform_start_def)
qed


section \<open>The shadow workbook\<close>

text \<open>\<open>cur\<close> is the workbook the operations so far leave: on the noted cells the shadow agrees with
  it, and elsewhere the shadow is empty and nothing has changed.\<close>

definition shadows :: "prepare_lib \<Rightarrow> book \<Rightarrow> book \<Rightarrow> prepare_run \<Rightarrow> bool" where
  "shadows lib source cur run =
     (bt_wf (pu_before run)
      \<and> (\<forall>n. (find_sheet (pu_shadow run) n = None \<longleftrightarrow> find_sheet source n = None)
           \<and> (find_sheet cur n = None \<longleftrightarrow> find_sheet source n = None))
      \<and> (\<forall>n c r. case bt_get (pu_before run) (n, c, r) of
           Some before \<Rightarrow> before = materialized_at lib source (n, c, r)
             \<and> cell_in (pu_shadow run) n (r, c) = cell_in cur n (r, c)
         | None \<Rightarrow> cell_in cur n (r, c) = cell_in source n (r, c) \<and> cell_in (pu_shadow run) n (r, c) = None))"

lemma shadows_keep:
  "shadows lib source cur run \<Longrightarrow> pu_shadow run' = pu_shadow run \<Longrightarrow> pu_before run' = pu_before run \<Longrightarrow>
     shadows lib source cur run'"
  by (simp add: shadows_def cong: option.case_cong)

lemma shadowsI:
  assumes "bt_wf (pu_before run)"
    and "\<And>n. find_sheet (pu_shadow run) n = None \<longleftrightarrow> find_sheet source n = None"
    and "\<And>n. find_sheet cur n = None \<longleftrightarrow> find_sheet source n = None"
    and "\<And>n c r b. bt_get (pu_before run) (n, c, r) = Some b \<Longrightarrow>
      b = materialized_at lib source (n, c, r) \<and> cell_in (pu_shadow run) n (r, c) = cell_in cur n (r, c)"
    and "\<And>n c r. bt_get (pu_before run) (n, c, r) = None \<Longrightarrow>
      cell_in cur n (r, c) = cell_in source n (r, c) \<and> cell_in (pu_shadow run) n (r, c) = None"
  shows "shadows lib source cur run"
  using assms unfolding shadows_def by (intro conjI allI; (split option.split)?) blast+

lemma shadows_noted:
  assumes "shadows lib source cur run" and "bt_get (pu_before run) (n, c, r) = Some b"
  shows "b = materialized_at lib source (n, c, r) \<and> cell_in (pu_shadow run) n (r, c) = cell_in cur n (r, c)"
proof -
  from assms(1) have "case bt_get (pu_before run) (n, c, r) of
      Some b \<Rightarrow> b = materialized_at lib source (n, c, r) \<and> cell_in (pu_shadow run) n (r, c) = cell_in cur n (r, c)
    | None \<Rightarrow> cell_in cur n (r, c) = cell_in source n (r, c) \<and> cell_in (pu_shadow run) n (r, c) = None"
    unfolding shadows_def by blast
  with assms(2) show ?thesis by simp
qed

lemma shadows_unnoted:
  assumes "shadows lib source cur run" and "bt_get (pu_before run) (n, c, r) = None"
  shows "cell_in cur n (r, c) = cell_in source n (r, c) \<and> cell_in (pu_shadow run) n (r, c) = None"
proof -
  from assms(1) have "case bt_get (pu_before run) (n, c, r) of
      Some b \<Rightarrow> b = materialized_at lib source (n, c, r) \<and> cell_in (pu_shadow run) n (r, c) = cell_in cur n (r, c)
    | None \<Rightarrow> cell_in cur n (r, c) = cell_in source n (r, c) \<and> cell_in (pu_shadow run) n (r, c) = None"
    unfolding shadows_def by blast
  with assms(2) show ?thesis by simp
qed

lemma shadows_note_cell:
  assumes "shadows lib source cur run"
  shows "shadows lib source cur (note_cell lib source key run)"
proof (cases "bt_contains (pu_before run) key \<or> find_sheet source (fst key) = None")
  case True
  then have "note_cell lib source key run = run" by (auto simp: note_cell_def split: prod.splits)
  with assms show ?thesis by simp
next
  case False
  obtain n c r where key: "key = (n, c, r)" by (metis prod_cases3)
  have new: "bt_get (pu_before run) (n, c, r) = None" and sheet: "has_sheet n (pu_shadow run)"
    using False assms by (auto simp: key shadows_def has_sheet_def)
  then have here: "cell_in cur n (r, c) = cell_in source n (r, c)" "cell_in (pu_shadow run) n (r, c) = None"
    using shadows_unnoted [OF assms new] by simp_all
  let ?sh = "case cell_in source n (r, c) of None \<Rightarrow> pu_shadow run
    | Some x \<Rightarrow> update_sheet n (update_cell c r (\<lambda>_. x)) (pu_shadow run)"
  have run: "note_cell lib source key run = run \<lparr> pu_before := bt_insert key (materialized_at lib source key) (pu_before run), pu_shadow := ?sh \<rparr>"
    using False by (auto simp: note_cell_def key)
  have names: "find_sheet ?sh m = None \<longleftrightarrow> find_sheet (pu_shadow run) m = None" for m
    by (simp add: find_sheet_update update_cell_def split: option.split)
  have cells: "cell_in ?sh m (r', c') = (if (m, r', c') = (n, r, c) then cell_in source n (r, c) else cell_in (pu_shadow run) m (r', c'))"
    for m r' c' using here(2) by (auto simp: cell_in_update [OF sheet] split: option.split)
  let ?run = "run \<lparr> pu_before := bt_insert key (materialized_at lib source key) (pu_before run), pu_shadow := ?sh \<rparr>"
  have "shadows lib source cur ?run"
  proof (rule shadowsI)
    show "bt_wf (pu_before ?run)" using assms by (simp add: shadows_def bt.wf_ins)
    show "find_sheet (pu_shadow ?run) m = None \<longleftrightarrow> find_sheet source m = None"
      "find_sheet cur m = None \<longleftrightarrow> find_sheet source m = None" for m
      using assms by (simp_all add: names shadows_def)
  next
    fix m c' r' b assume "bt_get (pu_before ?run) (m, c', r') = Some b"
    then show "b = materialized_at lib source (m, c', r') \<and> cell_in (pu_shadow ?run) m (r', c') = cell_in cur m (r', c')"
      using here shadows_noted [OF assms, of m c' r'] by (auto simp: key cells split: if_split_asm)
  next
    fix m c' r' assume "bt_get (pu_before ?run) (m, c', r') = None"
    then show "cell_in cur m (r', c') = cell_in source m (r', c') \<and> cell_in (pu_shadow ?run) m (r', c') = None"
      using shadows_unnoted [OF assms, of m c' r'] by (auto simp: key cells split: if_split_asm)
  qed
  then show ?thesis by (simp only: run)
qed

lemma note_cell_frame [simp]:
  "pu_sources (note_cell lib source key run) = pu_sources run"
  "pu_results (note_cell lib source key run) = pu_results run"
  "pu_failure (note_cell lib source key run) = pu_failure run"
  by (cases key; simp add: note_cell_def)+

lemma fold_note_frame [simp]:
  "pu_sources (fold (note_cell lib source) ks run) = pu_sources run"
  "pu_results (fold (note_cell lib source) ks run) = pu_results run"
  "pu_failure (fold (note_cell lib source) ks run) = pu_failure run"
  by (induction ks arbitrary: run) simp_all

lemma shadows_note_cells: "shadows lib source cur run \<Longrightarrow> shadows lib source cur (fold (note_cell lib source) ks run)"
  by (induction ks arbitrary: run) (simp_all add: shadows_note_cell)

lemma note_cell_dom:
  "dom (bt_get (pu_before (note_cell lib source key run)))
     = dom (bt_get (pu_before run)) \<union> (if find_sheet source (fst key) = None then {} else {key})"
  by (cases key) (auto simp: note_cell_def)

lemma fold_note_dom:
  "dom (bt_get (pu_before (fold (note_cell lib source) ks run)))
     = dom (bt_get (pu_before run)) \<union> {k \<in> set ks. find_sheet source (fst k) \<noteq> None}"
  by (induction ks arbitrary: run) (auto simp: note_cell_dom)

lemma bt_insert_length: "length (bt_insert k v m) \<le> Suc (length m)"
  by (induction k v m rule: bt_insert.induct) auto

lemma fold_note_length: "length (pu_before (fold (note_cell lib source) ks run)) \<le> length (pu_before run) + length ks"
proof (induction ks arbitrary: run)
  case (Cons k ks)
  have "length (pu_before (note_cell lib source k run)) \<le> Suc (length (pu_before run))"
    by (cases k) (simp add: note_cell_def bt_insert_length)
  with Cons [of "note_cell lib source k run"] show ?case by simp
qed simp


section \<open>One operation on the shadow\<close>

lemma transform_step_run:
  assumes "map_step (apply_transform_op (al_coords al) (al_to_text al)) ops (transform_start bk) = (run, r)"
  shows "transform_step al ops bk = (tr_book run, case r of Inl e \<Rightarrow> Inl e
    | Inr _ \<Rightarrow> Inr (al_transform_detail al (tr_counts run) (bt_keys (tr_sheets run)) (tr_bounds run)))"
  using assms by (cases r) (simp_all add: transform_step_def step_simps apply_transform_ops_to_workbook_def)

lemma common_step:
  assumes op: "common_touched_cells cidx op = Some (Inr touched)" and alike: "reads_alike cidx (al_coords (pe_apply lib)) op"
    and run: "shadows lib source cur run" and noted: "\<forall>k \<in> set touched. find_sheet source (fst k) \<noteq> None \<longrightarrow> k \<in> dom (bt_get (pu_before run))"
  obtains (fails) e where "en_apply (book_write_engine lib) cur op policy = (cur, Inl e)"
      and "en_apply (book_write_engine lib) (pu_shadow run) op policy = (pu_shadow run, Inl e)"
    | (works) d cur' shadow where "en_apply (book_write_engine lib) cur op policy = (cur', Inr d)"
      and "en_apply (book_write_engine lib) (pu_shadow run) op policy = (shadow, Inr d)"
      and "shadows lib source cur' (run \<lparr> pu_shadow := shadow \<rparr>)"
proof -
  let ?al = "pe_apply lib" and ?s = "op_sheet op" and ?ops = "transform_ops_of (pe_apply lib) op"
  let ?T = "{(n, (r, c)) | n c r. (n, c, r) \<in> dom (bt_get (pu_before run))}"
  note applied = common_apply [OF op]
  have books: "find_sheet (pu_shadow run) n = None \<longleftrightarrow> find_sheet source n = None"
    "find_sheet cur n = None \<longleftrightarrow> find_sheet source n = None" for n using run by (auto simp: shadows_def)
  show thesis
  proof (cases "find_sheet source ?s = None")
    case True
    show thesis
    proof (cases "?ops = []")
      case True
      then show thesis by (intro works [of cur _ "pu_shadow run"])
          (simp_all add: applied transform_step_def step_simps apply_transform_ops_to_workbook_def transform_start_def run)
    next
      case False
      have "writes_in (al_coords ?al) ?s (key_set touched) ?ops" by (rule common_writes_in [OF op alike]) simp
      from writes_missing [OF this _ False] True books
      have "map_step (apply_transform_op (al_coords ?al) (al_to_text ?al)) ?ops (transform_start cur)
          = (transform_start cur, Inl (Bail ''sheet not found''))"
        "map_step (apply_transform_op (al_coords ?al) (al_to_text ?al)) ?ops (transform_start (pu_shadow run))
          = (transform_start (pu_shadow run), Inl (Bail ''sheet not found''))"
        by (simp_all add: transform_start_def)
      from this [THEN transform_step_run] show thesis
        by (intro fails) (simp_all add: applied transform_start_def)
    qed
  next
    case False
    have "key_set touched \<subseteq> ?T" using noted touched_bounds(2) [OF op] False by (fastforce simp: key_set_def)
    then have writes: "writes_in (al_coords ?al) ?s ?T ?ops" by (rule common_writes_in [OF op alike])
    have agrees: "agree ?T cur (pu_shadow run)"
      using books by (auto simp: agree_def dom_def dest: shadows_noted [OF run])
    from writes_there [OF writes, of "transform_start cur" "transform_start (pu_shadow run)"] agrees False books
    obtain out out' u where out: "map_step (apply_transform_op (al_coords ?al) (al_to_text ?al)) ?ops (transform_start cur) = (out, Inr u)"
      "map_step (apply_transform_op (al_coords ?al) (al_to_text ?al)) ?ops (transform_start (pu_shadow run)) = (out', Inr u)"
      and after: "agree ?T (tr_book out) (tr_book out')" "same_report out out'"
      and names: "\<forall>n. find_sheet (tr_book out) n = None \<longleftrightarrow> find_sheet cur n = None"
      and others: "\<forall>n pos. (n, pos) \<notin> ?T \<longrightarrow> cell_in (tr_book out) n pos = cell_in cur n pos
        \<and> cell_in (tr_book out') n pos = cell_in (pu_shadow run) n pos"
      by (force simp: transform_start_def same_report_def)
    let ?run = "run \<lparr> pu_shadow := tr_book out' \<rparr>"
    have "shadows lib source (tr_book out) ?run"
    proof (rule shadowsI)
      show "bt_wf (pu_before ?run)" using run by (simp add: shadows_def)
      show "find_sheet (pu_shadow ?run) n = None \<longleftrightarrow> find_sheet source n = None"
        "find_sheet (tr_book out) n = None \<longleftrightarrow> find_sheet source n = None" for n
        using names books agree_names [OF after(1), of n] by auto
    next
      fix n c r b assume "bt_get (pu_before ?run) (n, c, r) = Some b"
      then have b: "bt_get (pu_before run) (n, c, r) = Some b" by simp
      then have "(n, (r, c)) \<in> ?T" by (auto simp: dom_def)
      with after(1) have "cell_in (tr_book out) n (r, c) = cell_in (tr_book out') n (r, c)" unfolding agree_def by blast
      with shadows_noted [OF run b]
      show "b = materialized_at lib source (n, c, r) \<and> cell_in (pu_shadow ?run) n (r, c) = cell_in (tr_book out) n (r, c)"
        by simp
    next
      fix n c r assume "bt_get (pu_before ?run) (n, c, r) = None"
      then have none: "bt_get (pu_before run) (n, c, r) = None" by simp
      then have "(n, (r, c)) \<notin> ?T" by (auto simp: dom_def)
      with others shadows_unnoted [OF run none]
      show "cell_in (tr_book out) n (r, c) = cell_in source n (r, c) \<and> cell_in (pu_shadow ?run) n (r, c) = None" by auto
    qed
    moreover note out [THEN transform_step_run]
    ultimately show thesis
      using after(2) by (intro works [of "tr_book out" _ "tr_book out'"]) (simp_all add: applied same_report_def)
  qed
qed

section \<open>All the operations\<close>

definition touches :: "(string \<Rightarrow> u32) \<Rightarrow> coord_lib \<Rightarrow> write_op \<Rightarrow> bool" where
  "touches cidx L op = ((\<exists>touched. common_touched_cells cidx op = Some (Inr touched)) \<and> reads_alike cidx L op)"

lemma prepare_ops_skips:
  assumes "pu_failure run \<noteq> None"
  shows "foldl (prepare_op lib source policy) run (enumerate i ops)
    = run \<lparr> pu_results := pu_results run @ map (\<lambda>(i, op). skipped_result i op) (enumerate i ops) \<rparr>"
  using assms by (induction ops arbitrary: run i) (simp_all add: prepare_op_def)

lemma report_skipped: "report i (op # ops) [] (Some (op, e)) = write_error i op e
    # map (\<lambda>(i, op). skipped_result i op) (enumerate (Suc i) ops)"
  by (simp add: report_def enumerate_eq_zip)

lemma run_common_noted:
  assumes "length (pu_before run) + length touched \<le> max_prepared_common_cells"
  shows "run_common lib source policy index op touched run =
    (case en_apply (book_write_engine lib) (pu_shadow (fold (note_cell lib source) touched run)) op policy of
       (shadow, Inl e) \<Rightarrow> fail_op index op e ((fold (note_cell lib source) touched run) \<lparr> pu_shadow := shadow \<rparr>)
     | (shadow, Inr detail) \<Rightarrow> (fold (note_cell lib source) touched run)
         \<lparr> pu_shadow := shadow, pu_sources := fold (note_source index) touched (pu_sources run),
           pu_results := pu_results run @ [applied_result index op detail] \<rparr>)"
proof -
  have "length (remdups (filter (\<lambda>k. \<not> bt_contains (pu_before run) k) touched)) \<le> length touched"
    by (meson length_filter_le length_remdups_leq order_trans)
  with assms show ?thesis by (simp add: run_common_def split: prod.split sum.split)
qed

lemma prepare_ops_run:
  assumes "shadows lib source cur run" and "pu_failure run = None"
    and "\<forall>op \<in> set ops. touches (wl_column_index (pe_checks lib)) (al_coords (pe_apply lib)) op"
    and "length (pu_before run) + sum_list (map op_cells ops) \<le> max_prepared_common_cells"
    and "run_ops (book_write_engine lib) policy cur ops = (w, ds, failed)"
    and "out = foldl (prepare_op lib source policy) run (enumerate i ops)"
  shows "shadows lib source w out \<and> pu_results out = pu_results run @ report i ops ds failed
    \<and> pu_failure out = (case failed of None \<Rightarrow> None | Some _ \<Rightarrow> Some (i + length ds))"
  using assms
proof (induction ops arbitrary: cur run i ds)
  case Nil
  then show ?case by (auto simp: report_def)
next
  case (Cons op ops)
  let ?noted = "\<lambda>touched. fold (note_cell lib source) touched run"
  from Cons.prems(3) obtain touched where t: "common_touched_cells (wl_column_index (pe_checks lib)) op = Some (Inr touched)"
    and alike: "reads_alike (wl_column_index (pe_checks lib)) (al_coords (pe_apply lib)) op" by (auto simp: touches_def)
  note few = touched_bounds(1) [OF t]
  have noted: "shadows lib source cur (?noted touched)" by (rule shadows_note_cells [OF Cons.prems(1)])
  have all: "\<forall>k \<in> set touched. find_sheet source (fst k) \<noteq> None \<longrightarrow> k \<in> dom (bt_get (pu_before (?noted touched)))"
    by (simp add: fold_note_dom)
  have step: "prepare_op lib source policy run (i, op) =
    (case en_apply (book_write_engine lib) (pu_shadow (?noted touched)) op policy of
       (shadow, Inl e) \<Rightarrow> fail_op i op e ((?noted touched) \<lparr> pu_shadow := shadow \<rparr>)
     | (shadow, Inr detail) \<Rightarrow> (?noted touched)
         \<lparr> pu_shadow := shadow, pu_sources := fold (note_source i) touched (pu_sources run),
           pu_results := pu_results run @ [applied_result i op detail] \<rparr>)"
    using run_common_noted [of run touched lib source policy i op] few Cons.prems(2,4)
    by (simp add: prepare_op_def t)
  show ?case
  proof (cases rule: common_step [OF t alike noted all, where policy = policy])
    case fails: (1 e)
    let ?run = "fail_op i op e (?noted touched)"
    have run1: "prepare_op lib source policy run (i, op) = ?run" by (simp add: step fails)
    have "shadows lib source cur ?run" by (rule shadows_keep [OF noted]) (simp_all add: fail_op_def)
    moreover have "w = cur" "ds = []" "failed = Some (op, e)" using Cons.prems(5) by (simp_all add: fails)
    moreover have out: "out = ?run \<lparr> pu_results := pu_results ?run @ map (\<lambda>(i, op). skipped_result i op) (enumerate (Suc i) ops) \<rparr>"
      using Cons.prems(6) by (simp add: run1 prepare_ops_skips fail_op_def)
    moreover have "shadows lib source cur out"
      by (rule shadows_keep [OF \<open>shadows lib source cur ?run\<close>]) (simp_all add: out)
    ultimately show ?thesis by (simp add: report_skipped fail_op_def)
  next
    case works: (2 d cur' shadow)
    let ?run = "(?noted touched) \<lparr> pu_shadow := shadow, pu_sources := fold (note_source i) touched (pu_sources run),
      pu_results := pu_results run @ [applied_result i op d] \<rparr>"
    have run1: "prepare_op lib source policy run (i, op) = ?run" by (simp add: step works)
    have good: "shadows lib source cur' ?run" "pu_failure ?run = None"
      by (rule shadows_keep [OF works(3)]) (simp_all add: Cons.prems(2))
    have few': "length (pu_before ?run) + sum_list (map op_cells ops) \<le> max_prepared_common_cells"
      using fold_note_length [of lib source touched run] few Cons.prems(4) by simp
    obtain ds' where rest: "run_ops (book_write_engine lib) policy cur' ops = (w, ds', failed)" and ds: "ds = d # ds'"
      using Cons.prems(5) by (auto simp: works split: prod.splits)
    have "out = foldl (prepare_op lib source policy) ?run (enumerate (Suc i) ops)"
      using Cons.prems(6) by (simp add: run1)
    from Cons.IH [OF good _ few' rest this] Cons.prems(3) show ?thesis
      by (simp add: ds report_Cons split: option.split)
  qed
qed

section \<open>The prepared effects\<close>

lemma validate_request_bounds:
  "validate_request lib request = Inr () \<Longrightarrow> sum_list (map op_cells (wq_ops request)) \<le> 100000"
  using validate_ops_sound [of lib 0 0 "wq_ops request"]
  by (auto simp: validate_request_def invalid_request_def max_write_cells_def split: if_splits)

text \<open>What the library promises of a new sheet: it is empty, after the others.\<close>

definition new_sheet_law :: "engine_lib \<Rightarrow> bool" where
  "new_sheet_law en = (\<forall>name bk bk'. en_new_sheet en name bk = Inr bk' \<longrightarrow>
     book_names bk' = book_names bk @ [name] \<and> (\<forall>n pos. cell_in bk' n pos = cell_in bk n pos))"

lemma find_sheet_names: "find_sheet bk n = None \<longleftrightarrow> n \<notin> set (book_names bk)"
  by (auto simp: find_sheet_def find_None book_names_def)

lemma shadow_of_shadows:
  assumes "shadow_of lib source = Inr shadow" and "new_sheet_law (al_engine (pe_apply lib))"
  shows "shadows lib source source
    \<lparr> pu_shadow = shadow, pu_before = [], pu_sources = [], pu_results = [], pu_failure = None \<rparr>"
proof -
  have "fold_res (\<lambda>bk name. en_new_sheet (al_engine (pe_apply lib)) name bk) bk names = Inr bk' \<Longrightarrow>
      book_names bk' = book_names bk @ names \<and> (\<forall>n pos. cell_in bk' n pos = cell_in bk n pos)" for names bk bk'
    using assms(2) by (induction names arbitrary: bk) (fastforce simp: bind_res_Inr new_sheet_law_def)+
  from this [OF assms(1) [unfolded shadow_of_def]]
  have "book_names shadow = book_names source" "cell_in shadow n pos = None" for n pos
    by (cases pos; simp add: book_names_def cell_in_def find_sheet_def)+
  then show ?thesis by (intro shadowsI) (simp_all add: find_sheet_names bt_wf_def)
qed

lemma run_ops_present:
  assumes "\<forall>op \<in> set ops. touches cidx L op" and "run_ops (book_write_engine lib) policy bk ops = (w, ds, failed)"
    and "cell_in bk n pos \<noteq> None"
  shows "cell_in w n pos \<noteq> None"
  using assms
proof (induction ops arbitrary: bk ds)
  case (Cons op ops)
  then obtain x where "common_touched_cells cidx op = Some x" by (auto simp: touches_def)
  note applied = common_apply [OF this, of lib bk policy]
  obtain bk' r where step: "en_apply (book_write_engine lib) bk op policy = (bk', r)" by fastforce
  with Cons.prems(3) applied have there: "cell_in bk' n pos \<noteq> None" by (metis transform_step_present)
  show ?case
  proof (cases r)
    case (Inl e)
    with Cons.prems step show ?thesis by auto
  next
    case (Inr d)
    with Cons.prems step obtain ds' where "run_ops (book_write_engine lib) policy bk' ops = (w, ds', failed)"
      by (auto split: prod.splits)
    from Cons.IH [OF _ this there] Cons.prems(1) show ?thesis by simp
  qed
qed simp

lemma report_applied:
  assumes "run_ops en policy w ops = (w', ds, failed)"
  shows "length (filter (\<lambda>r. wr_status r = StApplied) (report i ops ds failed)) = length ds"
proof -
  have applied: "filter (\<lambda>r. wr_status r = StApplied) (map (\<lambda>(i, op, d). applied_result i op d) xs)
      = map (\<lambda>(i, op, d). applied_result i op d) xs" for xs
    by (induction xs) (auto simp: applied_result_def)
  have skipped: "filter (\<lambda>r. wr_status r = StApplied) (map (\<lambda>(i, op). skipped_result i op) xs) = []" for xs
    by (induction xs) (auto simp: skipped_result_def)
  show ?thesis
    using run_ops_length [OF assms]
    by (cases failed) (auto simp: report_def Let_def applied skipped write_error_def)
qed

definition effect_key :: "prepared_cell_effect \<Rightarrow> cell_key" where
  "effect_key e = (ce_sheet_name e, ce_column e, ce_row e)"

text \<open>The content of a cell when the effects are published.\<close>

definition materialized_after ::
    "prepare_lib \<Rightarrow> book \<Rightarrow> prepared_cell_effect list \<Rightarrow> cell_key \<Rightarrow> materialized_cell option" where
  "materialized_after lib bk effects k =
     (case List.find (\<lambda>e. effect_key e = k) effects of Some e \<Rightarrow> Some (ce_after e) | None \<Rightarrow> materialized_at lib bk k)"

lemma distinct_map_filter:
  assumes "\<And>x y. f x = Some y \<Longrightarrow> g y = h x" and "distinct (map h xs)"
  shows "distinct (map g (List.map_filter f xs))"
  using assms(2)
proof (induction xs)
  case (Cons x xs)
  have "g y = h z" if "z \<in> set xs" "f z = Some y" for y z using assms(1) that by blast
  then have "g ` set (List.map_filter f xs) \<subseteq> h ` set xs" by (auto simp: map_filter_def image_iff)
  with Cons show ?case
    by (cases "f x") (auto simp: map_filter_simps assms(1))
qed (simp add: map_filter_simps)

lemma in_map_filter: "y \<in> set (List.map_filter f xs) \<longleftrightarrow> (\<exists>x \<in> set xs. f x = Some y)"
  by (induction xs) (auto simp: map_filter_simps split: option.split)

lemma cell_effects_set:
  "e \<in> set (cell_effects lib run) \<longleftrightarrow> (effect_key e, ce_expected_before e) \<in> set (pu_before run)
     \<and> materialized_at lib (pu_shadow run) (effect_key e) = Some (ce_after e) \<and> ce_expected_before e \<noteq> Some (ce_after e)
     \<and> ce_source_op_indices e = (case bt_get (pu_sources run) (effect_key e) of None \<Rightarrow> [] | Some is \<Rightarrow> is)"
proof -
  define f where "f = (\<lambda>((sheet_name, column, row), before).
       (case materialized_at lib (pu_shadow run) (sheet_name, column, row) of
          None \<Rightarrow> None
        | Some after \<Rightarrow>
            if before = Some after then None
            else Some \<lparr> ce_sheet_name = sheet_name, ce_column = column, ce_row = row,
              ce_source_op_indices = (case bt_get (pu_sources run) (sheet_name, column, row) of None \<Rightarrow> [] | Some is \<Rightarrow> is),
              ce_expected_before = before, ce_after = after \<rparr>))"
  have one: "f ((n, c, r), b) = Some e \<longleftrightarrow> effect_key e = (n, c, r) \<and> ce_expected_before e = b
      \<and> materialized_at lib (pu_shadow run) (effect_key e) = Some (ce_after e) \<and> b \<noteq> Some (ce_after e)
      \<and> ce_source_op_indices e = (case bt_get (pu_sources run) (effect_key e) of None \<Rightarrow> [] | Some is \<Rightarrow> is)" for n c r b
    by (cases e; cases "materialized_at lib (pu_shadow run) (n, c, r)") (auto simp: f_def effect_key_def)
  have "e \<in> set (cell_effects lib run) \<longleftrightarrow> (\<exists>x \<in> set (pu_before run). f x = Some e)"
    by (simp add: cell_effects_def f_def [symmetric] in_map_filter ordered_before_def)
  also have "\<dots> \<longleftrightarrow> (\<exists>n c r b. ((n, c, r), b) \<in> set (pu_before run) \<and> f ((n, c, r), b) = Some e)"
    by force
  finally show ?thesis unfolding one by (cases "effect_key e") auto
qed

lemma cell_effects_keys:
  assumes "bt_wf (pu_before run)"
  shows "distinct (map effect_key (cell_effects lib run))"
  unfolding cell_effects_def
proof (rule distinct_map_filter)
  show "distinct (map fst (ordered_before run))"
    using bt_wf_distinct [OF assms] by (simp add: ordered_before_def distinct_map inj_on_def)
qed (auto simp: effect_key_def split: option.splits if_splits)

lemma shadows_effects:
  assumes "shadows lib source w run" and kept: "\<And>n pos. cell_in source n pos \<noteq> None \<Longrightarrow> cell_in w n pos \<noteq> None"
  shows "e \<in> set (cell_effects lib run) \<Longrightarrow> ce_expected_before e = materialized_at lib source (effect_key e)
      \<and> Some (ce_after e) = materialized_at lib w (effect_key e) \<and> ce_expected_before e \<noteq> Some (ce_after e)"
    and "materialized_after lib source (cell_effects lib run) k = materialized_at lib w k"
proof -
  obtain n c r where k: "k = (n, c, r)" by (metis prod_cases3)
  have wf: "bt_wf (pu_before run)" using assms(1) by (simp add: shadows_def)
  have in_before: "(k, b) \<in> set (pu_before run) \<longleftrightarrow> bt_get (pu_before run) k = Some b" for k b
    using bt_wf_distinct [OF wf] by (simp add: bt_get_def)
  have noted: "b = materialized_at lib source k \<and> materialized_at lib (pu_shadow run) k = materialized_at lib w k"
    if "bt_get (pu_before run) k = Some b" for k b
    using that shadows_noted [OF assms(1)] by (cases k) (auto simp: materialized_at_def)
  show effect: "ce_expected_before e = materialized_at lib source (effect_key e)
      \<and> Some (ce_after e) = materialized_at lib w (effect_key e) \<and> ce_expected_before e \<noteq> Some (ce_after e)"
    if "e \<in> set (cell_effects lib run)" for e
    using that noted unfolding cell_effects_set in_before by metis
  show "materialized_after lib source (cell_effects lib run) k = materialized_at lib w k"
  proof (cases "List.find (\<lambda>e. effect_key e = k) (cell_effects lib run)")
    case (Some e)
    with effect [of e] show ?thesis by (auto simp: materialized_after_def dest: find_Some)
  next
    case None
    then have free: "\<forall>e \<in> set (cell_effects lib run). effect_key e \<noteq> k" by (simp add: find_None)
    show ?thesis
    proof (cases "bt_get (pu_before run) k")
      case b: None
      with shadows_unnoted [OF assms(1)] None show ?thesis by (simp add: materialized_after_def materialized_at_def k)
    next
      case (Some b)
      note here = noted [OF Some]
      show ?thesis
      proof (cases "materialized_at lib w k")
        case missing: None
        then have "cell_in source n (r, c) = None"
          using kept [of n "(r, c)"] by (cases "cell_in source n (r, c)") (auto simp: materialized_at_def k)
        with missing None show ?thesis by (simp add: materialized_after_def materialized_at_def k)
      next
        case (Some a)
        let ?e = "\<lparr> ce_sheet_name = n, ce_column = c, ce_row = r,
          ce_source_op_indices = (case bt_get (pu_sources run) k of None \<Rightarrow> [] | Some is \<Rightarrow> is),
          ce_expected_before = b, ce_after = a \<rparr>"
        have "effect_key ?e = k" by (simp add: effect_key_def k)
        with free have "?e \<notin> set (cell_effects lib run)" by blast
        then have "b = Some a" using here Some \<open>bt_get (pu_before run) k = Some b\<close> \<open>effect_key ?e = k\<close>
          by (auto simp: cell_effects_set in_before)
        with here Some None show ?thesis by (simp add: materialized_after_def)
      qed
    qed
  qed
qed

lemma prepare_common_parts:
  assumes "prepare_common_transaction lib se request change_id = Inr tx" and "source = rw_document (se_workbook se)"
  obtains shadow run changes publish where "shadow_of lib source = Inr shadow"
    and "run = prepare_ops lib source shadow (write_policy request) (wq_ops request)"
    and "publish = (wq_mode request = Apply \<and> \<not> (wq_atomic request \<and> pu_failure run \<noteq> None) \<and> cell_effects lib run \<noteq> [])"
    and "pt_publication tx = (if publish then PubCells (cell_effects lib run) else PubNone)"
    and "pt_response tx = canonical_response_from_prepared request (session_revision se)
      (predicted_resident_revision (se_workbook se) publish) (pu_results run) (changes_to_write_diff changes)
      (request_impact request) (pu_failure run) (length (filter (\<lambda>r. wr_status r = StApplied) (pu_results run))) change_id"
    and "pt_base_sha256 tx = se_base_sha256 se" and "pt_consume_staged tx = None"
    and "wq_mode request \<noteq> Stage \<longrightarrow> pt_staged tx = None"
proof -
  from assms(1) [unfolded prepare_common_transaction_def Let_def, folded assms(2)] obtain shadow changes
    where shadow: "shadow_of lib source = Inr shadow"
      and changes: "cell_changes lib (prepare_ops lib source shadow (write_policy request) (wq_ops request)) = Inr changes"
    unfolding bind_res_Inr by blast
  from assms(1) [unfolded prepare_common_transaction_def Let_def, folded assms(2), unfolded shadow bind_res_simps changes
      sum.inject, symmetric]
  show thesis
    by (intro that [OF shadow refl refl]) (simp_all only: prepared_transaction.simps simp_thms if_False cong: imp_cong)
qed

lemma prepare_common_exact:
  assumes valid: "validate_request (pe_checks lib) request = Inr ()"
    and common: "\<forall>op \<in> set (wq_ops request). touches (wl_column_index (pe_checks lib)) (al_coords (pe_apply lib)) op"
    and law: "new_sheet_law (al_engine (pe_apply lib))"
    and source: "source = rw_document (se_workbook se)"
    and prepared: "prepare_common_transaction lib se request change_id = Inr tx"
    and run: "run_ops (book_write_engine lib) (write_policy request) source (wq_ops request) = (w, ds, failed)"
  shows "\<exists>effects d. (\<forall>k. materialized_after lib source effects k = materialized_at lib w k)
    \<and> (\<forall>e \<in> set effects. ce_expected_before e = materialized_at lib source (effect_key e)
        \<and> ce_expected_before e \<noteq> Some (ce_after e))
    \<and> distinct (map effect_key effects)
    \<and> pt_publication tx = (if wq_mode request = Apply \<and> \<not> (wq_atomic request \<and> failed \<noteq> None) \<and> effects \<noteq> []
        then PubCells effects else PubNone)
    \<and> pt_response tx = canonical_response_from_prepared request (session_revision se)
        (predicted_resident_revision (se_workbook se) (pt_publication tx \<noteq> PubNone))
        (report 0 (wq_ops request) ds failed) d (request_impact request) (map_option (\<lambda>_. length ds) failed)
        (length ds) change_id
    \<and> (\<forall>e \<in> set effects. has_sheet (ce_sheet_name e) source \<and> Some (ce_after e) = materialized_at lib w (effect_key e))
    \<and> pt_base_sha256 tx = se_base_sha256 se \<and> pt_consume_staged tx = None \<and> (wq_mode request \<noteq> Stage \<longrightarrow> pt_staged tx = None)"
proof -
  obtain shadow out changes publish where shadow: "shadow_of lib source = Inr shadow"
    and out_def: "out = prepare_ops lib source shadow (write_policy request) (wq_ops request)"
    and publish: "publish = (wq_mode request = Apply \<and> \<not> (wq_atomic request \<and> pu_failure out \<noteq> None) \<and> cell_effects lib out \<noteq> [])"
    and tx: "pt_publication tx = (if publish then PubCells (cell_effects lib out) else PubNone)"
      "pt_response tx = canonical_response_from_prepared request (session_revision se)
        (predicted_resident_revision (se_workbook se) publish) (pu_results out) (changes_to_write_diff changes)
        (request_impact request) (pu_failure out) (length (filter (\<lambda>r. wr_status r = StApplied) (pu_results out))) change_id"
    and others: "pt_base_sha256 tx = se_base_sha256 se" "pt_consume_staged tx = None" "wq_mode request \<noteq> Stage \<longrightarrow> pt_staged tx = None"
    by (rule prepare_common_parts [OF prepared source])
  have few: "length (pu_before \<lparr> pu_shadow = shadow, pu_before = [], pu_sources = [], pu_results = [], pu_failure = None \<rparr>)
      + sum_list (map op_cells (wq_ops request)) \<le> max_prepared_common_cells"
    using validate_request_bounds [OF valid] by (simp add: max_prepared_common_cells_def)
  from prepare_ops_run [OF shadow_of_shadows [OF shadow law] _ common few run, of out 0]
  have out: "shadows lib source w out" "pu_results out = report 0 (wq_ops request) ds failed"
    "pu_failure out = map_option (\<lambda>_. length ds) failed"
    by (auto simp: prepare_ops_def out_def split: option.splits)
  have kept: "cell_in w n pos \<noteq> None" if "cell_in source n pos \<noteq> None" for n pos
    by (rule run_ops_present [OF common run that])
  have effects: "ce_expected_before e = materialized_at lib source (effect_key e)
      \<and> Some (ce_after e) = materialized_at lib w (effect_key e) \<and> ce_expected_before e \<noteq> Some (ce_after e)"
    if "e \<in> set (cell_effects lib out)" for e
    by (rule shadows_effects(1) [OF out(1)]) (use kept that in auto)
  have exact: "materialized_after lib source (cell_effects lib out) k = materialized_at lib w k" for k
    by (rule shadows_effects(2) [OF out(1)]) (use kept in auto)
  have keys: "distinct (map effect_key (cell_effects lib out))" using out(1) by (simp add: shadows_def cell_effects_keys)
  have published: "pt_publication tx \<noteq> PubNone \<longleftrightarrow> publish" using tx(1) by (cases publish) simp_all
  have sheets: "has_sheet (ce_sheet_name e) source" if "e \<in> set (cell_effects lib out)" for e
  proof -
    have "materialized_at lib w (effect_key e) \<noteq> None" using effects [OF that] by (metis option.distinct(1))
    then have "find_sheet w (ce_sheet_name e) \<noteq> None"
      by (cases "find_sheet w (ce_sheet_name e)") (auto simp: materialized_at_def effect_key_def cell_in_def)
    with out(1) show ?thesis by (auto simp: shadows_def has_sheet_def)
  qed
  show ?thesis
  proof (intro exI conjI ballI allI impI)
    show "pt_base_sha256 tx = se_base_sha256 se" "pt_consume_staged tx = None" by (fact others)+
    show "pt_staged tx = None" if "wq_mode request \<noteq> Stage" using others(3) that by blast
    show "has_sheet (ce_sheet_name e) source" "Some (ce_after e) = materialized_at lib w (effect_key e)"
      if "e \<in> set (cell_effects lib out)" for e using sheets effects that by auto
    show "materialized_after lib source (cell_effects lib out) k = materialized_at lib w k" for k by (rule exact)
    show "ce_expected_before e = materialized_at lib source (effect_key e)" "ce_expected_before e \<noteq> Some (ce_after e)"
      if "e \<in> set (cell_effects lib out)" for e using effects [OF that] by auto
    show "distinct (map effect_key (cell_effects lib out))" by (rule keys)
    show "pt_publication tx = (if wq_mode request = Apply \<and> \<not> (wq_atomic request \<and> failed \<noteq> None)
        \<and> cell_effects lib out \<noteq> [] then PubCells (cell_effects lib out) else PubNone)"
      unfolding tx(1) publish out(3) option.map_disc_iff ..
    show "pt_response tx = canonical_response_from_prepared request (session_revision se)
        (predicted_resident_revision (se_workbook se) (pt_publication tx \<noteq> PubNone))
        (report 0 (wq_ops request) ds failed) (changes_to_write_diff changes) (request_impact request)
        (map_option (\<lambda>_. length ds) failed) (length ds) change_id"
      unfolding published unfolding tx(2) out(2,3) report_applied [OF run] ..
  qed
qed


section \<open>An example\<close>

text \<open>One cell, B2, gets a value; a cell is read as its text.\<close>

definition demo_prepare :: prepare_lib where
  "demo_prepare = \<lparr> pe_apply = demo_apply, pe_checks = demo_lib, pe_codec = plain_codec,
     pe_open = (\<lambda>_. Inr demo_book), pe_save = (\<lambda>_. Inr []), pe_logical_sha = (\<lambda>_. Inr []), pe_diff = (\<lambda>_ _. Inr []),
     pe_materialize = (\<lambda>c. \<lparr> mc_value = MvString (wc_value c), mc_formula = wc_formula c \<rparr>),
     pe_assign_cell = (\<lambda>m c. (case mc_value m of MvString s \<Rightarrow> c \<lparr> wc_value := s, wc_formula := mc_formula m \<rparr> | _ \<Rightarrow> c, Inr ())), pe_far = (\<lambda>_ _. None), pe_change_value = (\<lambda>_. Inr JNull) \<rparr>"

definition demo_b2 :: write_op where
  "demo_b2 = Transform (WriteMatrix ''Data'' ''B2'' [[Some (MatrixValue (JInt 1))]] True)"

definition demo_b2_request :: write_request where
  "demo_b2_request = demo_write Apply True [demo_b2] \<lparr> wq_expected_revision := ''resident:e:0:0'' \<rparr>"

lemma demo_b2_request_fields [simp]:
  "wq_resource_id demo_b2_request = ''session:s1''" "wq_expected_revision demo_b2_request = ''resident:e:0:0''"
  "wq_mode demo_b2_request = Apply" "wq_atomic demo_b2_request" "wq_ops demo_b2_request = [demo_b2]"
  "write_policy demo_b2_request = PolicyWarn"
  by (simp_all add: demo_b2_request_def demo_write_def write_policy_def)

definition demo_resident :: "(book, write_op) write_session" where
  "demo_resident = \<lparr> se_resource_id = ''session:s1'',
     se_workbook = \<lparr> rw_document = demo_book, rw_epoch = ''e'', rw_document_revision = 0, rw_state_revision = 0,
       rw_calculation = StampNotEvaluated 0 \<rparr>,
     se_staged = [], se_catalog_generation = 0, se_poisoned = None, se_base_sha256 = ''b'', se_base_bytes = ''b'' \<rparr>"

lemma demo_b2_touches: "touches letters_col demo_coords demo_b2"
  using WriteValidate.demo_anchor WriteApply.demo_fork_anchor
  by (auto simp: touches_def demo_b2_def reads_alike_def op_anchors_def matrix_spots_def touch_spot_def
      u32_checked_add_def as_u32_def)

lemma demo_b2_valid: "validate_request demo_lib demo_b2_request = Inr ()"
proof -
  have col: "wl_column_index demo_lib = letters_col" by (simp add: demo_lib_def)
  show ?thesis
    by (simp add: validate_request_def demo_b2_request_def demo_write_def demo_b2_def max_write_ops_def
        max_write_payload_bytes_def demo_static col WriteValidate.demo_anchor then_cells_def check_formulas_def
        List.map_filter_def u32_saturating_add_def as_u32_def max_length_def row_lengths_def
        usize_saturating_add_def max_write_cells_def str_trim_def is_space_def ord_of_def)
      (simp add: demo_lib_def)
qed

lemma demo_new_sheet: "new_sheet_law StructureOps.demo_engine"
  by (auto simp: new_sheet_law_def StructureOps.demo_engine_def book_names_def cell_in_def find_sheet_def find_append
      split: option.split)

lemma demo_data: "find_sheet demo_book ''Data'' = Some (demo_sheet ''Data'' ''A1'')"
  by (simp add: find_sheet_def demo_book_def demo_sheet_def)

lemma demo_b2_run:
  obtains w where "run_ops (book_write_engine demo_prepare) PolicyWarn demo_book [demo_b2] = (w, [JNull], None)"
    and "cell_in w ''Data'' (2, 2) \<noteq> None"
    and "\<And>n pos. (n, pos) \<noteq> (''Data'', (2, 2)) \<Longrightarrow> cell_in w n pos = cell_in demo_book n pos"
proof -
  have one: "matrix_positions 2 2 [[Some (MatrixValue (JInt 1))]] = [((2, 2), MatrixValue (JInt 1))]"
    by (simp add: matrix_positions_def u32_wrapping_add_def)
  obtain c k where act: "matrix_write (\<lambda>_. ''7'') True (MatrixValue (JInt 1)) None (no_counts) = (Some c, k)"
    by (simp add: matrix_write_def Let_def is_formula_def empty_cell_def)
  let ?sh = "put_cell (2, 2) (Some c) (demo_sheet ''Data'' ''A1'')"
  have none: "bt_get (sh_cells (demo_sheet ''Data'' ''A1'')) (2, 2) = None" by (simp add: demo_sheet_def bt_get_def)
  have touched: "touch_cells [((2, 2), matrix_write (\<lambda>_. ''7'') True (MatrixValue (JInt 1)))] (demo_sheet ''Data'' ''A1'', no_counts) = (?sh, k)"
    by (simp add: none act)
  let ?w = "update_sheet ''Data'' (\<lambda>_. ?sh) demo_book"
  have step: "transform_step demo_apply [WriteMatrix ''Data'' ''B2'' [[Some (MatrixValue (JInt 1))]] True] demo_book = (?w, Inr JNull)"
    using touched demo_data
    by (simp add: transform_step_def step_simps WriteApply.demo_fork_anchor apply_transform_ops_to_workbook_def Let_def
        apply_transform_op_def transform_start_def one del: touch_cells.simps)
  have there: "cell_in ?w ''Data'' (2, 2) = Some c"
    by (subst update_sheet_cells(2) [OF demo_data]) (simp_all add: put_cell_def)
  have frame: "cell_in ?w n pos = cell_in demo_book n pos" if "(n, pos) \<noteq> (''Data'', (2, 2))" for n pos
    using that by (subst update_sheet_cells(2) [OF demo_data]) (auto simp: put_cell_def cell_in_def demo_data bt.get_ins)
  have ran: "run_ops (book_write_engine demo_prepare) PolicyWarn demo_book [demo_b2] = (?w, [JNull], None)"
    by (simp add: book_write_engine_def demo_prepare_def demo_b2_def step)
  show thesis by (rule that [OF ran]) (use there frame in auto)
qed

lemma map_res_total: "(\<And>x. \<exists>y. f x = Inr y) \<Longrightarrow> \<exists>ys. map_res f xs = Inr ys"
  by (induction xs) (simp, metis bind_res_simps(2) map_res.simps(2))

lemma demo_prepared:
  obtains tx where "prepare_common_transaction demo_prepare demo_resident demo_b2_request None = Inr tx"
proof -
  have one: "\<exists>y. prepared_cell_change demo_prepare s a b c = Inr y" for s a b c
    by (simp add: prepared_cell_change_def demo_prepare_def split: option.split)
  have changes: "\<exists>changes. cell_changes demo_prepare run = Inr changes" for run
    unfolding cell_changes_def
    using map_res_total [of "\<lambda>((s, c, r), before). prepared_cell_change demo_prepare s (cell_address c r) before
      (materialized_at demo_prepare (pu_shadow run) (s, c, r))" "ordered_before run"] one by auto
  have source: "rw_document (se_workbook demo_resident) = demo_book" by (simp add: demo_resident_def)
  obtain shadow where shadow: "shadow_of demo_prepare demo_book = Inr shadow"
    by (simp add: shadow_of_def demo_prepare_def demo_apply_def StructureOps.demo_engine_def demo_book_def)
  obtain changes where changes: "cell_changes demo_prepare (prepare_ops demo_prepare demo_book shadow
      (write_policy demo_b2_request) (wq_ops demo_b2_request)) = Inr changes"
    using changes by blast
  show thesis
    by (rule that) (simp only: prepare_common_transaction_def Let_def source shadow changes bind_res_simps)
qed


end
