(* ===== verification/SessionRecalc.thy ===== *)
theory SessionRecalc
  imports ResidentPrepare
begin

text \<open>
  Calculating the formulas of a resident session (\<open>recalc/resident.rs\<close>, \<open>canonical_write.rs\<close>): the
  results of an engine become the cached values of the formula cells, all of them or none, and a
  durable calculation publishes them only after its proof is in the journal.
\<close>

section \<open>Results of the engine\<close>

text \<open>Numbers, dates and durations are their texts.\<close>

datatype literal_value =
    LvEmpty
  | LvInt int
  | LvNumber string
  | LvBoolean bool
  | LvText string
  | LvError string
  | LvDate string
  | LvDateTime string
  | LvTime string
  | LvDuration string
  | LvPending
  | LvArray "json list list"

text \<open>What a formula cell can be given as its result.\<close>

datatype formula_result =
    ResultDefault string
  | ResultNumber string
  | ResultBool bool
  | ResultString string

record cache_update =
  cu_sheet :: string
  cu_row :: u32
  cu_col :: u32
  cu_value :: literal_value

datatype date_system = Excel1900 | Excel1904

record evaluator_evaluation =
  ev_cells_evaluated :: u64
  ev_cache_updates :: "cache_update list"
  ev_eval_errors :: "string list"
  ev_error_formula_cells :: u64
  ev_formula_cells :: u64

record recalculate_outcome =
  ro_backend :: string
  ro_duration_ms :: u64
  ro_cells_evaluated :: "u64 option"
  ro_eval_errors :: "string list option"
  ro_state :: evaluation_state
  ro_evaluation_coverage :: evaluation_coverage

text \<open>The engine on a document with the time it took; an external engine on the bytes of the workbook
  with the values it left in each sheet; the conversions to numbers; setting the result of a formula;
  the writers of the proof and the digest of a request.\<close>

record calc_lib =
  cl_evaluate :: "book \<Rightarrow> u64 option \<Rightarrow> (evaluator_evaluation \<times> date_system \<times> u64) res"
  cl_external :: "string \<Rightarrow> string \<Rightarrow> u64 option \<Rightarrow>
    (recalculate_outcome \<times> (string \<Rightarrow> (u32 \<Rightarrow> u32 \<Rightarrow> literal_value option) res)) res"
  cl_float :: "int \<Rightarrow> string"
  cl_serial :: "date_system \<Rightarrow> literal_value \<Rightarrow> string"
  cl_set :: "formula_result \<Rightarrow> wcell \<Rightarrow> wcell"
  cl_data :: "recalculate_data \<Rightarrow> json"
  cl_print :: "string \<Rightarrow> string \<Rightarrow> u64 option \<Rightarrow> string option \<Rightarrow> string"

definition cache_result :: "calc_lib \<Rightarrow> date_system \<Rightarrow> literal_value \<Rightarrow> formula_result" where
  "cache_result cl ds v =
     (case v of
        LvEmpty \<Rightarrow> ResultDefault []
      | LvInt n \<Rightarrow> ResultNumber (cl_float cl n)
      | LvNumber n \<Rightarrow> ResultNumber n
      | LvBoolean b \<Rightarrow> ResultBool b
      | LvText t \<Rightarrow> ResultString t
      | LvError kind \<Rightarrow> ResultDefault kind
      | LvDate _ \<Rightarrow> ResultNumber (cl_serial cl ds v)
      | LvDateTime _ \<Rightarrow> ResultNumber (cl_serial cl ds v)
      | LvTime _ \<Rightarrow> ResultNumber (cl_serial cl ds v)
      | LvDuration _ \<Rightarrow> ResultNumber (cl_serial cl ds v)
      | LvPending \<Rightarrow> ResultDefault ''#VALUE!''
      | LvArray _ \<Rightarrow> ResultDefault ''#VALUE!'')"

section \<open>Publishing results\<close>

definition check_cache_update :: "book \<Rightarrow> cache_update \<Rightarrow> unit res" where
  "check_cache_update bk u =
     (case find_sheet bk (cu_sheet u) of
        None \<Rightarrow> Inl (Bail ''sheet not found'')
      | Some sh \<Rightarrow>
          (case sheet_cell sh (cu_col u) (cu_row u) of
             None \<Rightarrow> Inl (Bail ''formula cache target does not exist'')
           | Some c \<Rightarrow> bail_if (\<not> is_formula c) ''formula cache target is not a formula'' (Inr ())))"

definition write_cache :: "calc_lib \<Rightarrow> date_system \<Rightarrow> cache_update \<Rightarrow> book \<Rightarrow> book" where
  "write_cache cl ds u =
     update_sheet (cu_sheet u) (update_cell (cu_col u) (cu_row u) (cl_set cl (cache_result cl ds (cu_value u))))"

definition apply_formula_cache_updates ::
    "calc_lib \<Rightarrow> date_system \<Rightarrow> cache_update list \<Rightarrow> (book, unit) step" where
  "apply_formula_cache_updates cl ds updates bk =
     (case map_res (check_cache_update bk) updates of
        Inl e \<Rightarrow> (bk, Inl e)
      | Inr _ \<Rightarrow> (fold (write_cache cl ds) updates bk, Inr ()))"

text \<open>When the results cannot be published the proof is revoked.\<close>

definition publish_formula_caches ::
    "calc_lib \<Rightarrow> date_system \<Rightarrow> cache_update list \<Rightarrow> (book resident_workbook, unit) step" where
  "publish_formula_caches cl ds updates wb =
     (case apply_formula_cache_updates cl ds updates (rw_document wb) of
        (_, Inl e) \<Rightarrow> (revoke_calculation_proof wb, Inl e)
      | (bk, Inr _) \<Rightarrow> (wb \<lparr> rw_document := bk \<rparr>, Inr ()))"

definition publish_prepared_calculation ::
    "calc_lib \<Rightarrow> evaluator_evaluation \<Rightarrow> date_system \<Rightarrow> evaluation_coverage \<Rightarrow> (book resident_workbook, string) step" where
  "publish_prepared_calculation cl evaluation ds coverage =
     bind_step (publish_formula_caches cl ds (ev_cache_updates evaluation)) (\<lambda>_.
     bind_step (update_step (\<lambda>wb. let wb = advance_state wb in
       wb \<lparr> rw_calculation := StampCurrent (rw_document_revision wb)
         (coverage \<lparr> ec_revision_id := state_revision_id wb \<rparr>) \<rparr>)) (\<lambda>_.
     read_step (\<lambda>wb. Inr (state_revision_id wb))))"

text \<open>Every formula was evaluated.\<close>

definition engine_coverage :: "evaluator_evaluation \<Rightarrow> string \<Rightarrow> evaluation_coverage" where
  "engine_coverage evaluation revision =
     \<lparr> ec_formula_cells = ev_formula_cells evaluation, ec_evaluated_formula_cells = ev_formula_cells evaluation,
       ec_unsupported_formula_cells = 0, ec_error_formula_cells = ev_error_formula_cells evaluation,
       ec_source = Formualizer, ec_freshness = CurrentRevision, ec_revision_id = revision \<rparr>"

text \<open>\<open>recalculate\<close>: the calculation of a workbook in memory.\<close>

definition recalculate :: "calc_lib \<Rightarrow> u64 option \<Rightarrow> (book resident_workbook, evaluation_coverage) step" where
  "recalculate cl timeout_ms wb =
     (case cl_evaluate cl (rw_document wb) timeout_ms of
        Inl e \<Rightarrow> (revoke_calculation_proof wb, Inl e)
      | Inr (evaluation, ds, _) \<Rightarrow>
          bind_step (publish_formula_caches cl ds (ev_cache_updates evaluation)) (\<lambda>_ wb.
            let wb = advance_state wb; coverage = engine_coverage evaluation (state_revision_id wb) in
            (wb \<lparr> rw_calculation := StampCurrent (rw_document_revision wb) coverage \<rparr>, Inr coverage)) wb)"

section \<open>Preparing a calculation\<close>

text \<open>The formula cells of a sheet with the values the external engine left there.\<close>

definition external_updates ::
    "string \<Rightarrow> (u32 \<Rightarrow> u32 \<Rightarrow> literal_value option) \<Rightarrow> (cell_pos \<times> wcell) list \<Rightarrow> cache_update list res" where
  "external_updates name found cs =
     map_res (\<lambda>((row, col), _).
       bind_res (ok_or (found row col) ''external calculation omitted cache'') (\<lambda>v.
       Inr \<lparr> cu_sheet = name, cu_row = row, cu_col = col, cu_value = v \<rparr>))
     (filter (\<lambda>(_, c). is_formula c) cs)"

definition prepare_external_calculation ::
    "calc_lib \<Rightarrow> book engine \<Rightarrow> string \<Rightarrow> u64 option \<Rightarrow> book resident_workbook
      \<Rightarrow> (evaluator_evaluation \<times> date_system \<times> recalculate_outcome) res" where
  "prepare_external_calculation cl eg backend timeout_ms wb =
     bind_res (eg_save eg (rw_document wb)) (\<lambda>bytes.
     bind_res (cl_external cl backend bytes timeout_ms) (\<lambda>(outcome, values).
     bail_if (\<not> is_complete_and_fresh (ro_evaluation_coverage outcome))
       ''external calculation did not produce complete current coverage'' (
     bind_res (map_res (\<lambda>sh. bind_res (values (sh_name sh)) (\<lambda>found. external_updates (sh_name sh) found (sh_cells sh)))
       (bk_sheets (rw_document wb))) (\<lambda>updates.
     let updates = concat updates;
         errors = length (filter (\<lambda>u. case cu_value u of LvError _ \<Rightarrow> True | _ \<Rightarrow> False) updates);
         count = length updates;
         coverage = (ro_evaluation_coverage outcome) \<lparr> ec_formula_cells := count, ec_evaluated_formula_cells := count,
           ec_error_formula_cells := errors \<rparr> in
     Inr (\<lparr> ev_cells_evaluated = count, ev_cache_updates = updates, ev_eval_errors = [],
            ev_error_formula_cells = errors, ev_formula_cells = count \<rparr>, Excel1900,
          outcome \<lparr> ro_evaluation_coverage := coverage, ro_state := coverage_state coverage \<rparr>)))))"

text \<open>The engine of the session or the external one that was asked for.\<close>

definition prepare_any_calculation ::
    "calc_lib \<Rightarrow> book engine \<Rightarrow> string option \<Rightarrow> u64 option \<Rightarrow> book resident_workbook
      \<Rightarrow> (evaluator_evaluation \<times> date_system \<times> u64 \<times> recalculate_outcome option) res" where
  "prepare_any_calculation cl eg backend timeout_ms wb =
     (case backend of
        Some b \<Rightarrow> bind_res (prepare_external_calculation cl eg b timeout_ms wb) (\<lambda>(evaluation, ds, outcome).
          Inr (evaluation, ds, ro_duration_ms outcome, Some outcome))
      | None \<Rightarrow> bind_res (cl_evaluate cl (rw_document wb) timeout_ms) (\<lambda>(evaluation, ds, duration).
          Inr (evaluation, ds, duration, None)))"

section \<open>The durable calculation\<close>

definition next_state_revision :: "'d resident_workbook \<Rightarrow> string" where
  "next_state_revision wb =
     revision_text (rw_epoch wb) (rw_document_revision wb) (u64_wrapping_add (rw_state_revision wb) 1)"

definition prepared_coverage ::
    "evaluator_evaluation \<Rightarrow> recalculate_outcome option \<Rightarrow> string \<Rightarrow> evaluation_coverage" where
  "prepared_coverage evaluation external revision =
     (case external of
        None \<Rightarrow> engine_coverage evaluation revision
      | Some outcome \<Rightarrow> (ro_evaluation_coverage outcome) \<lparr> ec_revision_id := revision \<rparr>)"

definition backend_name :: "string option \<Rightarrow> string" where
  "backend_name backend = (case backend of None \<Rightarrow> ''formualizer'' | Some b \<Rightarrow> b)"

definition json_timeout :: "u64 option \<Rightarrow> json" where
  "json_timeout t = (case t of None \<Rightarrow> JNull | Some n \<Rightarrow> JInt (int n))"

text \<open>The answer of a record of an earlier request with the same input.\<close>

definition calculation_answer ::
    "'op codec \<Rightarrow> string option \<Rightarrow> u64 option \<Rightarrow> prepared_commit \<Rightarrow> evaluation_coverage res" where
  "calculation_answer cd backend timeout_ms r =
     bail_if (pc_transition r \<noteq> CalculationPublish \<or> effect_get r ''timeout_ms'' \<noteq> Some (json_timeout timeout_ms))
       ''request identity reuse with different calculation input'' (
     bind_res (ok_or (effect_get r ''calculation_proof'') ''calculation publication lacks snapshot'') (\<lambda>snapshot.
     bail_if ((case Option.bind (json_get snapshot ''backend'') json_str of None \<Rightarrow> ''formualizer'' | Some b \<Rightarrow> b)
         \<noteq> backend_name backend)
       ''request identity reuse with different calculation backend''
       (read_coverage cd (case json_get snapshot ''coverage'' of None \<Rightarrow> JNull | Some v \<Rightarrow> v))))"

definition calculation_proof ::
    "calc_lib \<Rightarrow> 'op codec \<Rightarrow> string option \<Rightarrow> string \<Rightarrow> string \<Rightarrow> evaluator_evaluation \<Rightarrow> u64
      \<Rightarrow> recalculate_outcome option \<Rightarrow> evaluation_coverage \<Rightarrow> json" where
  "calculation_proof cl cd backend before after evaluation duration external coverage =
     JObj ([(''evaluation_duration_ms'', JInt (int duration)),
            (''eval_errors'', JArr (map JStr (ev_eval_errors evaluation))),
            (''cells_evaluated'', JInt (int (ev_cells_evaluated evaluation))),
            (''coverage'', write_coverage cd coverage)]
       @ (case external of
            None \<Rightarrow> []
          | Some outcome \<Rightarrow>
              [(''backend'', JStr (backend_name backend)),
               (''external_result'', cl_data cl \<lparr> rd_revision_before = before, rd_revision_after = after,
                  rd_duration_ms = ro_duration_ms outcome, rd_backend = ro_backend outcome,
                  rd_state = coverage_state coverage, rd_evaluation_coverage = coverage,
                  rd_status = (if coverage_state coverage = Clean then ''completed'' else ''completed_with_errors''),
                  rd_error_count = map_option length (ro_eval_errors outcome),
                  rd_cells_evaluated = ro_cells_evaluated outcome, rd_eval_errors = ro_eval_errors outcome,
                  rd_warnings = [] \<rparr>)]))"

definition calculation_record ::
    "calc_lib \<Rightarrow> string \<Rightarrow> string \<Rightarrow> string option \<Rightarrow> u64 option \<Rightarrow> json \<Rightarrow> string \<Rightarrow> history_state
      \<Rightarrow> ('d, 'op) write_session \<Rightarrow> prepared_commit" where
  "calculation_record cl commit_id request_id backend timeout_ms proof revision h se =
     \<lparr> pc_schema_version = resident_commit_schema, pc_session_id = session_key se, pc_commit_id = commit_id,
       pc_parent_commit_id = hs_stream_tip h, pc_history_parent_commit_id = None,
       pc_base_sha256 = se_base_sha256 se, pc_request_id = request_id,
       pc_request_fingerprint = cl_print cl (se_base_sha256 se) (session_revision se) timeout_ms
         (if backend_name backend \<noteq> ''formualizer'' then backend else None),
       pc_transition = CalculationPublish,
       pc_effects = [JObj [(''timeout_ms'', json_timeout timeout_ms)], JObj [(''calculation_proof'', proof)]],
       pc_resulting_head = hs_head h, pc_resulting_branch = hs_current_branch h,
       pc_resulting_branches = hs_branches h, pc_catalog_generation = hs_catalog_generation h,
       pc_state_revision = revision \<rparr>"

type_synonym ('op, 's) book_durable = "(book, 'op, 's) durable_lib"

definition after_calculation_commit ::
    "calc_lib \<Rightarrow> ('op, 's) book_durable \<Rightarrow> prepared_commit \<Rightarrow> evaluator_evaluation \<Rightarrow> date_system \<Rightarrow> evaluation_coverage
      \<Rightarrow> string \<Rightarrow> (book, 'op, 's, evaluation_coverage) durable_step" where
  "after_calculation_commit cl lib proposed evaluation ds coverage committed_id = (\<lambda>(se, s).
     (let pending = poison ''committed calculation publication pending; recovery required on failure'' se in
      if committed_id \<noteq> pc_commit_id proposed then
        (case bind_res (jo_load (du_journal lib) s (session_key se)) (\<lambda>records.
            bind_res (ok_or (List.find (\<lambda>r. pc_commit_id r = committed_id) records)
              ''reconciled calculation record missing'') (\<lambda>r.
            bail_if (\<not> (session_revision se = pc_state_revision r \<and> se_catalog_generation se = pc_catalog_generation r))
              ''reconciled calculation publication requires recovery'' (
            bind_res (ok_or (effect_get r ''calculation_proof'') ''calculation publication lacks snapshot'') (\<lambda>snapshot.
            read_coverage (du_codec lib) (case json_get snapshot ''coverage'' of None \<Rightarrow> JNull | Some v \<Rightarrow> v))))) of
           Inl e \<Rightarrow> ((pending, s), Inl e)
         | Inr coverage \<Rightarrow> ((unpoison pending, s), Inr coverage))
      else
        (case publish_prepared_calculation cl evaluation ds coverage (se_workbook pending) of
           (wb, Inl e) \<Rightarrow> ((poison ''committed calculation publication failed'' (pending \<lparr> se_workbook := wb \<rparr>), s), Inl e)
         | (wb, Inr _) \<Rightarrow> ((unpoison (pending \<lparr> se_workbook := wb \<rparr>), s), Inr coverage))))"

definition commit_calculation ::
    "calc_lib \<Rightarrow> ('op, 's) book_durable \<Rightarrow> string \<Rightarrow> string \<Rightarrow> u64 option \<Rightarrow> string option
      \<Rightarrow> (book, 'op, 's, evaluation_coverage) durable_step" where
  "commit_calculation cl lib commit_id request_id timeout_ms backend = (\<lambda>(se, s).
     (case prepare_any_calculation cl (du_engine lib) backend timeout_ms (se_workbook se) of
        Inl e \<Rightarrow> ((poison ''calculation failed before proof publication'' se, s), Inl e)
      | Inr (evaluation, ds, duration, external) \<Rightarrow>
          let revision = next_state_revision (se_workbook se);
              coverage = prepared_coverage evaluation external revision in
          (case load_history lib se s of
             Inl e \<Rightarrow> ((se, s), Inl e)
           | Inr (records, h) \<Rightarrow>
               if \<not> history_matches h se
               then ((poison ''portable history state differs before calculation publication'' se, s),
                 Inl (Bail ''resident session requires recovery before calculation''))
               else
                 let proposed = calculation_record cl commit_id request_id backend timeout_ms
                       (calculation_proof cl (du_codec lib) backend (session_revision se) revision evaluation duration
                         external coverage) revision h se in
                 (case commit_or_reconcile (du_journal lib) proposed s of
                    (s, CommitRefused e) \<Rightarrow> ((se, s), Inl e)
                  | (s, CommitUnknown) \<Rightarrow> ((poison ''calculation commit outcome unknown'' se, s),
                      Inl (Bail ''calculation commit outcome unknown; recovery required''))
                  | (s, CommitKnown committed_id) \<Rightarrow>
                      after_calculation_commit cl lib proposed evaluation ds coverage committed_id (se, s)))))"

definition recalculate_durable_with_backend ::
    "calc_lib \<Rightarrow> ('op, 's) book_durable \<Rightarrow> string \<Rightarrow> string \<Rightarrow> u64 option \<Rightarrow> string option
      \<Rightarrow> (book, 'op, 's, evaluation_coverage) durable_step" where
  "recalculate_durable_with_backend cl lib commit_id request_id timeout_ms backend =
     bind_step usable_step (\<lambda>_.
     bind_step (read_step (\<lambda>_. if request_id = [] then invalid_request ''request_id is required'' else Inr ())) (\<lambda>_.
     bind_step (reconciled_record_by_request_id lib request_id) (\<lambda>found.
     case found of
       Some r \<Rightarrow> read_step (\<lambda>_. calculation_answer (du_codec lib) backend timeout_ms r)
     | None \<Rightarrow> commit_calculation cl lib commit_id request_id timeout_ms backend)))"

definition recalculate_durable_on_resident ::
    "calc_lib \<Rightarrow> ('op, 's) book_durable \<Rightarrow> string \<Rightarrow> string \<Rightarrow> u64 option
      \<Rightarrow> (book, 'op, 's, evaluation_coverage) durable_step" where
  "recalculate_durable_on_resident cl lib commit_id request_id timeout_ms =
     recalculate_durable_with_backend cl lib commit_id request_id timeout_ms None"

section \<open>The results are published together\<close>

text \<open>Setting a result keeps the formula and the style.\<close>

definition cache_law :: "calc_lib \<Rightarrow> bool" where
  "cache_law cl = (\<forall>v c. wc_formula (cl_set cl v c) = wc_formula c \<and> wc_style (cl_set cl v c) = wc_style c)"

definition cached :: "calc_lib \<Rightarrow> date_system \<Rightarrow> cache_update list \<Rightarrow> string \<Rightarrow> cell_pos \<Rightarrow> wcell \<Rightarrow> wcell" where
  "cached cl ds updates n pos =
     fold (\<lambda>u c. if cu_sheet u = n \<and> (cu_row u, cu_col u) = pos then cl_set cl (cache_result cl ds (cu_value u)) c else c) updates"

lemma write_cache_cell:
  assumes "cell_in bk (cu_sheet u) (cu_row u, cu_col u) = Some c"
  shows "cell_in (write_cache cl ds u bk) n pos = map_option (cached cl ds [u] n pos) (cell_in bk n pos)"
    and "frame_of (write_cache cl ds u bk) = frame_of bk"
proof -
  have "has_sheet (cu_sheet u) bk" using assms by (cases "find_sheet bk (cu_sheet u)") (auto simp: cell_in_def has_sheet_def)
  then show "cell_in (write_cache cl ds u bk) n pos = map_option (cached cl ds [u] n pos) (cell_in bk n pos)"
    using assms by (cases "cell_in bk n pos") (auto simp: write_cache_def cell_in_update cached_def)
  show "frame_of (write_cache cl ds u bk) = frame_of bk"
    unfolding write_cache_def by (rule frame_of_update) (simp add: update_cell_def)
qed

lemma write_caches:
  assumes "\<forall>u \<in> set updates. cell_in bk (cu_sheet u) (cu_row u, cu_col u) \<noteq> None"
  shows "cell_in (fold (write_cache cl ds) updates bk) n pos = map_option (cached cl ds updates n pos) (cell_in bk n pos)"
    and "frame_of (fold (write_cache cl ds) updates bk) = frame_of bk"
  using assms
proof (induction updates arbitrary: bk)
  case Nil
  { case 1 show ?case by (simp add: cached_def option.map_ident) next case 2 show ?case by simp }
next
  case (Cons u us)
  { case 1
    obtain c where c: "cell_in bk (cu_sheet u) (cu_row u, cu_col u) = Some c" using 1 by auto
    have rest: "\<forall>v \<in> set us. cell_in (write_cache cl ds u bk) (cu_sheet v) (cu_row v, cu_col v) \<noteq> None"
      using 1 by (simp add: write_cache_cell(1) [OF c])
    show ?case using Cons.IH(1) [OF rest] by (simp add: write_cache_cell(1) [OF c] option.map_comp cached_def comp_def)
  next
    case 2
    obtain c where c: "cell_in bk (cu_sheet u) (cu_row u, cu_col u) = Some c" using 2 by auto
    have rest: "\<forall>v \<in> set us. cell_in (write_cache cl ds u bk) (cu_sheet v) (cu_row v, cu_col v) \<noteq> None"
      using 2 by (simp add: write_cache_cell(1) [OF c])
    show ?case using Cons.IH(2) [OF rest] by (simp add: write_cache_cell(2) [OF c]) }
qed

lemma check_cache_update_there:
  "check_cache_update bk u = Inr () \<longleftrightarrow>
     (\<exists>c. cell_in bk (cu_sheet u) (cu_row u, cu_col u) = Some c \<and> is_formula c)"
  by (auto simp: check_cache_update_def cell_in_def sheet_cell_def bail_if_def split: option.splits if_splits)

lemma map_res_unit: "map_res f xs = Inr (ys :: unit list) \<Longrightarrow> x \<in> set xs \<Longrightarrow> f x = Inr ()"
  by (induction xs arbitrary: ys) (auto simp: bind_res_Inr)

lemma apply_caches_exact:
  assumes "apply_formula_cache_updates cl ds updates bk = (bk', Inr ())"
  shows "cell_in bk' n pos = map_option (cached cl ds updates n pos) (cell_in bk n pos)" and "frame_of bk' = frame_of bk"
    and "u \<in> set updates \<Longrightarrow> \<exists>c. cell_in bk (cu_sheet u) (cu_row u, cu_col u) = Some c \<and> is_formula c"
proof -
  from assms obtain us where checked: "map_res (check_cache_update bk) updates = Inr us"
    and bk': "bk' = fold (write_cache cl ds) updates bk"
    by (auto simp: apply_formula_cache_updates_def split: sum.splits)
  have there: "\<exists>c. cell_in bk (cu_sheet u) (cu_row u, cu_col u) = Some c \<and> is_formula c" if "u \<in> set updates" for u
    using map_res_unit [OF checked that] by (simp add: check_cache_update_there)
  then have all: "\<forall>u \<in> set updates. cell_in bk (cu_sheet u) (cu_row u, cu_col u) \<noteq> None" by fastforce
  show "cell_in bk' n pos = map_option (cached cl ds updates n pos) (cell_in bk n pos)" "frame_of bk' = frame_of bk"
    unfolding bk' by (rule write_caches [OF all])+
  show "\<exists>c. cell_in bk (cu_sheet u) (cu_row u, cu_col u) = Some c \<and> is_formula c" if "u \<in> set updates"
    by (rule there [OF that])
qed

lemma cached_formula:
  assumes "cache_law cl"
  shows "wc_formula (cached cl ds updates n pos c) = wc_formula c \<and> wc_style (cached cl ds updates n pos c) = wc_style c"
  using assms by (induction updates arbitrary: c) (auto simp: cached_def cache_law_def)

lemma cached_other: "(\<forall>u \<in> set updates. \<not> (cu_sheet u = n \<and> (cu_row u, cu_col u) = pos)) \<Longrightarrow> cached cl ds updates n pos c = c"
  by (induction updates arbitrary: c) (auto simp: cached_def)

text \<open>What a calculation may change: results of formulas, and nothing else of the document.\<close>

definition only_results :: "book \<Rightarrow> book \<Rightarrow> bool" where
  "only_results bk bk' = (frame_of bk' = frame_of bk
     \<and> (\<forall>n pos. case cell_in bk n pos of None \<Rightarrow> cell_in bk' n pos = None
         | Some c \<Rightarrow> (\<exists>c'. cell_in bk' n pos = Some c' \<and> wc_formula c' = wc_formula c \<and> wc_style c' = wc_style c
             \<and> (\<not> is_formula c \<longrightarrow> c' = c))))"

lemma only_results_refl: "only_results bk bk"
  by (simp add: only_results_def split: option.split)

lemma apply_caches_only:
  assumes "cache_law cl" and "apply_formula_cache_updates cl ds updates bk = (bk', r)"
  shows "only_results bk bk'"
proof (cases r)
  case (Inl e)
  with assms(2) have "bk' = bk" by (auto simp: apply_formula_cache_updates_def split: sum.splits)
  then show ?thesis by (simp add: only_results_refl)
next
  case (Inr u)
  then have run: "apply_formula_cache_updates cl ds updates bk = (bk', Inr ())" using assms(2) by simp
  note exact = apply_caches_exact [OF run]
  have same: "cached cl ds updates n pos c = c" if "cell_in bk n pos = Some c" "\<not> is_formula c" for n pos c
    by (rule cached_other) (use exact(3) that in force)
  show ?thesis
    unfolding only_results_def
    using exact(1,2) cached_formula [OF assms(1)] same by (auto split: option.split)
qed

section \<open>The session stays in step with its journal\<close>

lemma publish_calculation_exact:
  assumes "publish_prepared_calculation cl evaluation ds coverage wb = (wb', Inr x)"
  shows "\<exists>bk. apply_formula_cache_updates cl ds (ev_cache_updates evaluation) (rw_document wb) = (bk, Inr ())
    \<and> wb' = (advance_state (wb \<lparr> rw_document := bk \<rparr>))
        \<lparr> rw_calculation := StampCurrent (rw_document_revision wb) (coverage \<lparr> ec_revision_id := state_revision_id wb' \<rparr>) \<rparr>"
  using assms
  by (auto simp: publish_prepared_calculation_def publish_formula_caches_def step_simps Let_def advance_state_def
      state_revision_id_def split: sum.splits prod.splits)

lemma calculated_revision:
  assumes "publish_prepared_calculation cl evaluation ds coverage wb = (wb', Inr x)"
  shows "state_revision_id wb' = next_state_revision wb"
proof -
  obtain bk stamp where "wb' = (advance_state (wb \<lparr> rw_document := bk \<rparr>)) \<lparr> rw_calculation := stamp \<rparr>"
    using publish_calculation_exact [OF assms] by blast
  then show ?thesis by (simp add: state_revision_id_def advance_state_def next_state_revision_def)
qed

lemma calculation_record_simps [simp]:
  "pc_session_id (calculation_record cl cid q b t p rv h se) = session_key se"
  "pc_request_id (calculation_record cl cid q b t p rv h se) = q" "pc_commit_id (calculation_record cl cid q b t p rv h se) = cid"
  "pc_state_revision (calculation_record cl cid q b t p rv h se) = rv"
  "pc_catalog_generation (calculation_record cl cid q b t p rv h se) = hs_catalog_generation h"
  "pc_transition (calculation_record cl cid q b t p rv h se) = CalculationPublish"
  by (simp_all add: calculation_record_def)

context commit_storage
begin

lemma after_calculation_settled:
  assumes inv: "inv s1" and step: "in_step (log s (session_key se)) se" and matches: "history_matches h se"
    and known: "if committed = cid then log s1 (session_key se) = log s (session_key se)
        @ [calculation_record cl cid q b t p (next_state_revision (se_workbook se)) h se]
      else log s1 = log s"
    and after: "after_calculation_commit cl lib (calculation_record cl cid q b t p (next_state_revision (se_workbook se)) h se)
        evaluation ds coverage committed (se, s1) = ((se', s'), r)"
  shows "settled (se', s')"
proof (cases "committed = cid")
  case False
  with after have "s' = s1" "se_poisoned se' \<noteq> None \<or> (\<exists>m. se' = unpoison (poison m se))"
    by (auto simp: after_calculation_commit_def Let_def split: sum.splits)
  with False known step inv show ?thesis by (auto simp: settled_def in_agreement_def)
next
  case True
  let ?pending = "poison ''committed calculation publication pending; recovery required on failure'' se"
  obtain wb pr where publish: "publish_prepared_calculation cl evaluation ds coverage (se_workbook ?pending) = (wb, pr)" by fastforce
  show ?thesis
  proof (cases pr)
    case (Inl e)
    with after True publish have "s' = s1" "se_poisoned se' \<noteq> None" by (auto simp: after_calculation_commit_def Let_def)
    with inv show ?thesis by (simp add: settled_def in_agreement_def)
  next
    case (Inr x)
    with after True publish have out: "s' = s1" "se' = unpoison (?pending \<lparr> se_workbook := wb \<rparr>)"
      by (auto simp: after_calculation_commit_def Let_def)
    have "state_revision_id wb = next_state_revision (se_workbook se)"
      using calculated_revision [OF publish [unfolded Inr]] by (simp add: poison_def)
    with out have "session_revision se' = next_state_revision (se_workbook se)"
      by (simp add: session_revision_def unpoison_def)
    moreover have "session_key se' = session_key se" "se_catalog_generation se' = se_catalog_generation se"
      unfolding out by (simp_all add: session_key_def unpoison_def poison_def)
    ultimately have "in_step (log s1 (session_key se')) se'"
      using known True matches by (simp add: in_step_def option_all_def history_matches_def)
    with out inv show ?thesis by (simp add: settled_def in_agreement_def)
  qed
qed

lemma commit_calculation_settled:
  assumes lib: "du_journal lib = journal_of load commit reconcile" and start: "ready cid (se, s)"
    and usable: "se_poisoned se = None"
    and run: "commit_calculation cl lib cid q timeout_ms backend (se, s) = ((se', s'), r)"
  shows "settled (se', s')"
proof -
  have inv: "inv s" and step: "in_step (log s (session_key se)) se"
    and fresh: "cid \<notin> pc_commit_id ` set (log s (session_key se))"
    using start usable by (auto simp: ready_def in_agreement_def)
  show ?thesis
  proof (cases "prepare_any_calculation cl (du_engine lib) backend timeout_ms (se_workbook se)")
    case (Inl e)
    with run inv show ?thesis by (auto simp: commit_calculation_def settled_def in_agreement_def)
  next
    case prepared: (Inr x)
    obtain evaluation ds duration external where x: "x = (evaluation, ds, duration, external)" by (cases x)
    show ?thesis
    proof (cases "load_history lib se s")
      case (Inl e)
      with run prepared x inv step show ?thesis by (auto simp: commit_calculation_def settled_def in_agreement_def Let_def)
    next
      case history: (Inr rh)
      obtain records h where rh: "rh = (records, h)" by (cases rh)
      show ?thesis
      proof (cases "history_matches h se")
        case False
        with run prepared x history rh inv show ?thesis by (auto simp: commit_calculation_def settled_def in_agreement_def Let_def)
      next
        case matches: True
        let ?rev = "next_state_revision (se_workbook se)"
        let ?coverage = "prepared_coverage evaluation external ?rev"
        let ?r = "calculation_record cl cid q backend timeout_ms
                       (calculation_proof cl (du_codec lib) backend (session_revision se) ?rev evaluation duration
                         external ?coverage) ?rev h se"
        obtain s1 answer where ca: "commit_or_reconcile (journal_of load commit reconcile) ?r s = (s1, answer)" by fastforce
        note facts = commit_answer [OF inv ca]
        show ?thesis
        proof (cases answer)
          case (CommitRefused e)
          with run prepared x history rh matches ca facts step show ?thesis
            by (auto simp: commit_calculation_def lib Let_def settled_def in_agreement_def)
        next
          case CommitUnknown
          with run prepared x history rh matches ca facts show ?thesis
            by (auto simp: commit_calculation_def lib Let_def settled_def in_agreement_def)
        next
          case (CommitKnown committed)
          with run prepared x history rh matches ca
          have after: "after_calculation_commit cl lib ?r evaluation ds ?coverage committed (se, s1) = ((se', s'), r)"
            by (simp add: commit_calculation_def lib Let_def)
          from known_new_identity [OF inv ca [unfolded CommitKnown]] fresh
          have "if committed = cid then log s1 (session_key se) = log s (session_key se) @ [?r] else log s1 = log s"
            by (simp split: if_split_asm)
          from after_calculation_settled [OF _ step matches this after] facts show ?thesis by blast
        qed
      qed
    qed
  qed
qed

lemma recalculate_triple:
  fixes lib :: "('op, 's) book_durable"
  assumes lib: "du_journal lib = journal_of load commit reconcile"
  shows "triple (ready cid) (recalculate_durable_with_backend cl lib cid q timeout_ms backend) (\<lambda>_. settled) settled"
  unfolding triple_def
proof (intro allI impI)
  fix x :: "(book, 'op) write_session \<times> 's" assume start: "ready cid x"
  obtain se s where x: "x = (se, s)" by (cases x)
  obtain se1 s1 found where look: "reconciled_record_by_request_id lib q (se, s) = ((se1, s1), found)" by (metis prod.exhaust)
  have inv: "inv s" using start x by (simp add: ready_def)
  note frame = reconciled_frame [OF lib inv look]
  have still: "ready cid (se, s1)" using start x frame by (simp add: ready_def in_agreement_def)
  obtain se2 s2 r2 where commit: "commit_calculation cl lib cid q timeout_ms backend (se, s1) = ((se2, s2), r2)"
    by (metis prod.exhaust)
  have "settled (se2, s2)" if "se_poisoned se = None" by (rule commit_calculation_settled [OF lib still that commit])
  moreover have "settled (se, s)" "settled (se, s1)" using start x still by (auto intro: ready_settled)
  ultimately show "case recalculate_durable_with_backend cl lib cid q timeout_ms backend x of
      (t, Inr r) \<Rightarrow> settled t | (t, Inl e) \<Rightarrow> settled t"
    using frame commit look
    by (auto simp: x recalculate_durable_with_backend_def usable_step_def step_simps ensure_usable_def bail_if_def
        invalid_request_def split: sum.splits option.splits if_splits)
qed

lemma recalculate_answered:
  assumes "du_journal lib = journal_of load commit reconcile"
  shows "triple (answered q se0 s0) (recalculate_durable_with_backend cl lib cid q timeout_ms backend)
    (\<lambda>_. answered q se0 s0) (answered q se0 s0)"
  unfolding recalculate_durable_with_backend_def usable_step_def
  by (intro triple_bind [OF answered_read] answered_reconciled [OF assms]) (auto intro: answered_read)

text \<open>A calculation that is answered anew: its record is in the journal, its results are in the cells.\<close>

lemma calculation_exact:
  fixes lib :: "('op, 's) book_durable"
  assumes lib: "du_journal lib = journal_of load commit reconcile" and start: "ready cid (se, s)"
    and new: "q \<notin> pc_request_id ` set (log s (session_key se))" and law: "cache_law cl"
    and run: "recalculate_durable_with_backend cl lib cid q timeout_ms backend (se, s) = ((se', s'), Inr coverage)"
  shows "ec_revision_id coverage = session_revision se' \<and> se_poisoned se' = None
    \<and> rw_calculation (se_workbook se') = StampCurrent (rw_document_revision (se_workbook se)) coverage
    \<and> only_results (rw_document (se_workbook se)) (rw_document (se_workbook se'))
    \<and> (\<exists>r proof. log s' (session_key se) = log s (session_key se) @ [r] \<and> pc_request_id r = q
        \<and> pc_transition r = CalculationPublish \<and> pc_state_revision r = session_revision se'
        \<and> effect_get r ''calculation_proof'' = Some proof \<and> json_get proof ''coverage'' = Some (write_coverage (du_codec lib) coverage))"
proof -
  have inv: "inv s" and fresh: "cid \<notin> pc_commit_id ` set (log s (session_key se))" using start by (auto simp: ready_def)
  obtain se1 s1 found where look: "reconciled_record_by_request_id lib q (se, s) = ((se1, s1), found)" by (metis prod.exhaust)
  note frame = reconciled_frame [OF lib inv look]
  have usable: "se_poisoned se = None" and "found \<noteq> Inr None \<Longrightarrow> \<exists>r. found = Inr (Some r)"
    using run look by (auto simp: recalculate_durable_with_backend_def usable_step_def step_simps ensure_usable_def bail_if_def
        split: if_splits sum.splits option.splits)
  moreover have "found \<noteq> Inr (Some r)" for r
  proof
    assume "found = Inr (Some r)"
    with look lib have "List.find (\<lambda>r. pc_request_id r = q) (log s (session_key se)) \<noteq> None"
      using load_log [OF inv]
      by (auto simp: reconciled_record_by_request_id_def load_history_def journal_of_def bind_res_Inr ensure_usable_def bail_if_def
          split: sum.splits reconcile_outcome.splits option.splits if_splits)
    with new show False by (auto simp: find_None_iff image_iff)
  qed
  ultimately have "found = Inr None" by blast
  with look frame have none: "reconciled_record_by_request_id lib q (se, s) = ((se, s1), Inr None)" and inv1: "inv s1" and log1: "log s1 = log s"
    by auto
  have commit: "commit_calculation cl lib cid q timeout_ms backend (se, s1) = ((se', s'), Inr coverage)"
    using run none usable
    by (auto simp: recalculate_durable_with_backend_def usable_step_def step_simps ensure_usable_def invalid_request_def
        split: if_splits)
  then obtain evaluation ds duration external records h where prepared:
    "prepare_any_calculation cl (du_engine lib) backend timeout_ms (se_workbook se) = Inr (evaluation, ds, duration, external)"
    and history: "load_history lib se s1 = Inr (records, h)" and matches: "history_matches h se"
    by (auto simp: commit_calculation_def Let_def split: sum.splits if_splits)
  let ?rev = "next_state_revision (se_workbook se)"
  let ?coverage = "prepared_coverage evaluation external ?rev"
  let ?proof = "calculation_proof cl (du_codec lib) backend (session_revision se) ?rev evaluation duration external ?coverage"
  let ?r = "calculation_record cl cid q backend timeout_ms ?proof ?rev h se"
  obtain s2 answer where ca: "commit_or_reconcile (journal_of load commit reconcile) ?r s1 = (s2, answer)" by fastforce
  from commit prepared history matches ca obtain committed where ans: "answer = CommitKnown committed"
    and after: "after_calculation_commit cl lib ?r evaluation ds ?coverage committed (se, s2) = ((se', s'), Inr coverage)"
    by (auto simp: commit_calculation_def lib Let_def split: commit_answer.splits)
  have appended: "log s2 (session_key se) = log s (session_key se) @ [?r]"
    using known_new_request [OF inv1 ca [unfolded ans]] new log1 by simp
  with known_new_identity [OF inv1 ca [unfolded ans]] fresh log1 have "committed = cid" by (auto split: if_splits)
  let ?pending = "poison ''committed calculation publication pending; recovery required on failure'' se"
  obtain wb x where publish: "publish_prepared_calculation cl evaluation ds ?coverage (se_workbook ?pending) = (wb, Inr x)"
    and out: "se' = unpoison (?pending \<lparr> se_workbook := wb \<rparr>)" "s' = s2" "coverage = ?coverage"
    using after \<open>committed = cid\<close> by (auto simp: after_calculation_commit_def Let_def split: sum.splits prod.splits)
  have workbook: "se_workbook se' = wb" "se_workbook ?pending = se_workbook se" unfolding out by (simp_all add: unpoison_def poison_def)
  have revision: "session_revision se' = ?rev"
    using calculated_revision [OF publish] workbook by (simp add: session_revision_def)
  have covered: "ec_revision_id ?coverage = ?rev"
    by (simp add: prepared_coverage_def engine_coverage_def split: option.split)
  obtain bk where cached: "apply_formula_cache_updates cl ds (ev_cache_updates evaluation) (rw_document (se_workbook se)) = (bk, Inr ())"
    and wb: "wb = (advance_state ((se_workbook se) \<lparr> rw_document := bk \<rparr>))
        \<lparr> rw_calculation := StampCurrent (rw_document_revision (se_workbook se)) (?coverage \<lparr> ec_revision_id := state_revision_id wb \<rparr>) \<rparr>"
    using publish_calculation_exact [OF publish] workbook by auto
  have "state_revision_id wb = ?rev" using revision workbook by (simp add: session_revision_def)
  then have same: "?coverage \<lparr> ec_revision_id := state_revision_id wb \<rparr> = ?coverage" using covered by simp
  have stamp: "rw_calculation wb = StampCurrent (rw_document_revision (se_workbook se)) ?coverage"
    and document: "rw_document wb = bk"
    by (subst wb, simp add: same) (subst wb, simp add: advance_state_def)
  have "effect_get ?r ''calculation_proof'' = Some ?proof"
    by (simp add: effect_get_def calculation_record_def)
  moreover have "json_get ?proof ''coverage'' = Some (write_coverage (du_codec lib) ?coverage)"
    by (simp add: calculation_proof_def)
  ultimately show ?thesis
    using appended revision covered stamp document workbook out apply_caches_only [OF law cached] by (auto simp: unpoison_def)
qed

end

end
