(* ===== verification/SessionWrites.thy ===== *)
theory SessionWrites
  imports PrepareExact SessionRecalc
begin

text \<open>
  Writes on a resident session (\<open>canonical_write.rs\<close>): a prepared transaction is published on the
  session, in memory (\<open>execute_write_on_resident\<close>, \<open>apply_staged\<close>) or after it is committed to the
  journal of the session (\<open>execute_durable_prepared_on_resident\<close>, \<open>apply_staged_durable\<close>).

  Whatever the journal answers, a session that can still be used is in the state of the last record
  of its journal; a write that is answered with an effect is in the journal with that answer; and a
  published write leaves the cells its operations say.
\<close>

section \<open>Publishing a prepared transaction\<close>

definition on_workbook :: "('d resident_workbook, 'a) step \<Rightarrow> (('d, 'op) write_session, 'a) step" where
  "on_workbook m se = (case m (se_workbook se) of (wb, r) \<Rightarrow> (se \<lparr> se_workbook := wb \<rparr>, r))"

definition publish_document ::
    "'op codec \<Rightarrow> 'd engine \<Rightarrow> 'op prepared_transaction \<Rightarrow> bool \<Rightarrow> ('d resident_workbook, unit) step" where
  "publish_document cd eg prepared recovery =
     (case pt_publication prepared of
        PubNone \<Rightarrow> return_step ()
      | PubCells effects \<Rightarrow> publish_prepared_cells_inner eg effects (\<not> recovery)
      | PubSnapshot expected_sha bytes sha calc \<Rightarrow>
          bind_step (read_step (\<lambda>wb. bind_res (eg_save eg (rw_document wb)) (eg_logical_sha eg))) (\<lambda>before.
          bind_step (guard_step (before = expected_sha)
            ''prepared snapshot logical before-state hash mismatch'') (\<lambda>_.
          bind_step (guard_step (sha256_hex cd bytes = sha) ''prepared snapshot content hash mismatch'') (\<lambda>_.
          replace_from_bytes eg bytes calc))))"

definition publish_staged :: "'op prepared_transaction \<Rightarrow> (('d, 'op) write_session, unit) step" where
  "publish_staged prepared se =
     (case pt_staged prepared of
        None \<Rightarrow> (se, Inr ())
      | Some (change_id, entry) \<Rightarrow>
          if bt_contains (se_staged se) change_id
          then (se, Inl (Bail ''prepared stage identity already exists in catalog''))
          else (se \<lparr> se_staged := bt_insert change_id entry (se_staged se),
                  se_catalog_generation := u64_wrapping_add (se_catalog_generation se) 1 \<rparr>, Inr ()))"

definition publish_consumed :: "'op prepared_transaction \<Rightarrow> (('d, 'op) write_session, unit) step" where
  "publish_consumed prepared se =
     (case pt_consume_staged prepared of
        None \<Rightarrow> (se, Inr ())
      | Some change_id \<Rightarrow>
          if bt_contains (se_staged se) change_id
          then (se \<lparr> se_staged := bt_remove change_id (se_staged se),
                  se_catalog_generation := u64_wrapping_add (se_catalog_generation se) 1 \<rparr>, Inr ())
          else (se, Inl (Bail ''prepared staged apply references missing catalog entry'')))"

definition publish_resident_transaction_inner ::
    "'op codec \<Rightarrow> 'd engine \<Rightarrow> 'op prepared_transaction \<Rightarrow> bool \<Rightarrow> (('d, 'op) write_session, unit) step" where
  "publish_resident_transaction_inner cd eg prepared recovery =
     bind_step (read_step (\<lambda>se. bail_if (pt_base_sha256 prepared \<noteq> se_base_sha256 se)
       ''prepared transaction base identity does not match resident owner'' (Inr ()))) (\<lambda>_.
     bind_step (on_workbook (publish_document cd eg prepared recovery)) (\<lambda>_.
     bind_step (publish_staged prepared) (\<lambda>_.
     bind_step (publish_consumed prepared) (\<lambda>_.
     read_step (\<lambda>se. bail_if (session_revision se \<noteq> response_revision_after (pt_response prepared))
       ''prepared publication revision mismatch'' (Inr ()))))))"

definition publish_resident_transaction ::
    "'op codec \<Rightarrow> 'd engine \<Rightarrow> 'op prepared_transaction \<Rightarrow> (('d, 'op) write_session, unit) step" where
  "publish_resident_transaction cd eg prepared = publish_resident_transaction_inner cd eg prepared False"

section \<open>Writes in memory\<close>

type_synonym book_session = "(book, write_op) write_session"

definition poison_on_error :: "string \<Rightarrow> (('d, 'op) write_session, 'a) step \<Rightarrow> (('d, 'op) write_session, 'a) step" where
  "poison_on_error reason m se = (case m se of (se, Inl e) \<Rightarrow> (poison reason se, Inl e) | done \<Rightarrow> done)"

text \<open>\<open>fresh\<close> is the random revision of the byte transaction and \<open>change_id\<close> the one of a staged change.\<close>

definition stage_identity :: "write_request \<Rightarrow> string \<Rightarrow> string option" where
  "stage_identity request change_id = (if wq_mode request = Stage then Some change_id else None)"

definition execute_write_on_resident ::
    "prepare_lib \<Rightarrow> string \<Rightarrow> string \<Rightarrow> write_request \<Rightarrow> (book_session, write_response_data) step" where
  "execute_write_on_resident lib fresh change_id request =
     bind_step (read_step ensure_usable) (\<lambda>_.
     bind_step (read_step (\<lambda>se. prepare_resident_transaction lib fresh se request (stage_identity request change_id)))
       (\<lambda>prepared.
     bind_step
       (if wq_mode request \<noteq> Preview
        then poison_on_error ''prepared publication failed''
          (publish_resident_transaction (pe_codec lib) (book_engine lib) prepared)
        else return_step ()) (\<lambda>_.
     return_step (pt_response prepared))))"

text \<open>The text of a policy in a staged change is read as the policy it was written from.\<close>

definition policy_of_name :: "string \<Rightarrow> formula_parse_policy" where
  "policy_of_name name =
     (if name = ''fail'' then PolicyFail else if name = ''off'' then PolicyOff else PolicyWarn)"

definition staged_request :: "book_session \<Rightarrow> write_op staged_bundle \<Rightarrow> string \<Rightarrow> write_request res" where
  "staged_request se entry expected_revision =
     bind_res (resource_validate (se_resource_id se)) (\<lambda>resource_id.
     Inr \<lparr> wq_resource_id = resource_id, wq_expected_revision = expected_revision, wq_mode = Apply,
       wq_atomic = sb_atomic entry, wq_ops = sb_ops entry, wq_label = None,
       wq_formula_parse_policy = map_option policy_of_name (sb_formula_parse_policy entry) \<rparr>)"

text \<open>The staged change with its request, when its approval is not stale.\<close>

definition staged_change :: "book_session \<Rightarrow> string \<Rightarrow> string \<Rightarrow> write_request res" where
  "staged_change se change_id expected_revision =
     (case bt_get (se_staged se) change_id of
        None \<Rightarrow> invalid_request ''staged change not found''
      | Some entry \<Rightarrow>
          bail_if (sb_base_revision entry \<noteq> session_revision se \<or> expected_revision \<noteq> session_revision se)
            ''revision conflict: staged write approval is stale'' (staged_request se entry expected_revision))"

definition apply_staged ::
    "prepare_lib \<Rightarrow> string \<Rightarrow> string \<Rightarrow> string \<Rightarrow> (book_session, write_response_data) step" where
  "apply_staged lib fresh change_id expected_revision =
     bind_step (read_step ensure_usable) (\<lambda>_.
     bind_step (read_step (\<lambda>se. staged_change se change_id expected_revision)) (\<lambda>request.
     bind_step (execute_write_on_resident lib fresh [] request) (\<lambda>response.
     bind_step (update_step (\<lambda>se. se \<lparr> se_staged := bt_remove change_id (se_staged se),
       se_catalog_generation := u64_wrapping_add (se_catalog_generation se) 1 \<rparr>)) (\<lambda>_.
     return_step response))))"

section \<open>Durable writes\<close>

text \<open>The digest of a write with the base and the consumed change, and the writer of a prepared transaction.\<close>

record 's write_host =
  wh_durable :: "(book, write_op, 's) durable_lib"
  wh_prepare :: prepare_lib
  wh_calc :: calc_lib
  wh_print :: "string \<Rightarrow> string option \<Rightarrow> write_request \<Rightarrow> string"
  wh_write_prepared :: "write_op prepared_transaction \<Rightarrow> json"

definition is_mutation :: "'op prepared_transaction \<Rightarrow> bool" where
  "is_mutation prepared = (pt_publication prepared \<noteq> PubNone)"

definition write_transition :: "'op prepared_transaction \<Rightarrow> resident_transition" where
  "write_transition prepared =
     (if \<not> is_mutation prepared \<and> pt_staged prepared = None \<and> pt_consume_staged prepared = None then Receipt
      else if pt_consume_staged prepared \<noteq> None then StageApply
      else if pt_staged prepared \<noteq> None then CatalogStage
      else Mutation)"

definition write_record ::
    "'s write_host \<Rightarrow> string \<Rightarrow> string \<Rightarrow> string \<Rightarrow> write_op prepared_transaction \<Rightarrow> string \<Rightarrow> history_state
      \<Rightarrow> book_session \<Rightarrow> prepared_commit" where
  "write_record wh commit_id request_id key prepared fingerprint h se =
     (let head = (if is_mutation prepared then Some commit_id else hs_head h) in
      \<lparr> pc_schema_version = resident_commit_schema, pc_session_id = key, pc_commit_id = commit_id,
        pc_parent_commit_id = hs_stream_tip h,
        pc_history_parent_commit_id = (if is_mutation prepared then hs_head h else None),
        pc_base_sha256 = se_base_sha256 se, pc_request_id = request_id, pc_request_fingerprint = fingerprint,
        pc_transition = write_transition prepared,
        pc_effects = [JObj [(''prepared_transaction'', wh_write_prepared wh prepared)]],
        pc_resulting_head = head, pc_resulting_branch = hs_current_branch h,
        pc_resulting_branches = (if is_mutation prepared then bt_insert (hs_current_branch h) head (hs_branches h)
          else hs_branches h),
        pc_catalog_generation = (if pt_staged prepared \<noteq> None \<or> pt_consume_staged prepared \<noteq> None
          then u64_wrapping_add (se_catalog_generation se) 1 else se_catalog_generation se),
        pc_state_revision = response_revision_after (pt_response prepared) \<rparr>)"

definition persisted_response :: "'op codec \<Rightarrow> prepared_commit \<Rightarrow> write_response_data res" where
  "persisted_response cd r = bind_res (prepared_of cd ''resident commit lacks prepared transaction'' r) (\<lambda>p. Inr (pt_response p))"

text \<open>After the commit the session cannot be used until the transaction is published and its state is
  the one of the record. A retained request answers with its original outcome.\<close>

definition publish_committed ::
    "'s write_host \<Rightarrow> prepared_commit \<Rightarrow> write_op prepared_transaction \<Rightarrow> (book_session, write_response_data) step" where
  "publish_committed wh committed persisted se =
     (let at_record = (\<lambda>se. session_revision se = pc_state_revision committed
            \<and> se_catalog_generation se = pc_catalog_generation committed) in
      if at_record se then (unpoison se, Inr (pt_response persisted))
      else (case publish_resident_transaction (du_codec (wh_durable wh)) (du_engine (wh_durable wh)) persisted se of
          (se, Inl e) \<Rightarrow> (poison ''post-commit prepared publication failed'' se,
            Inl (Bail ''durable commit succeeded but publication failed; recovery required''))
        | (se, Inr _) \<Rightarrow>
            if \<not> at_record se
            then (poison ''post-commit state/catalog differs from committed record'' se,
              Inl (Bail ''durable publication invariant failed; recovery required''))
            else (unpoison se, Inr (pt_response persisted))))"

definition after_write_commit ::
    "'s write_host \<Rightarrow> string \<Rightarrow> prepared_commit \<Rightarrow> string \<Rightarrow> (book, write_op, 's, write_response_data) durable_step" where
  "after_write_commit wh key proposed committed_id = (\<lambda>(se, s).
     (let lib = wh_durable wh;
          pending = poison ''committed transaction publication pending; recovery required on failure'' se in
      if committed_id = pc_commit_id proposed then
        (case prepared_of (du_codec lib) ''resident commit lacks prepared transaction'' proposed of
           Inl e \<Rightarrow> ((pending, s), Inl e)
         | Inr persisted \<Rightarrow> (case publish_committed wh proposed persisted pending of (se, r) \<Rightarrow> ((se, s), r)))
      else
        (case bind_res (jo_load (du_journal lib) s key) (\<lambda>records.
            bind_res (ok_or (List.find (\<lambda>r. pc_commit_id r = committed_id) records)
              ''reconciled resident commit is not readable'') (persisted_response (du_codec lib))) of
           Inl e \<Rightarrow> ((pending, s), Inl e)
         | Inr response \<Rightarrow> ((unpoison pending, s), Inr response))))"

text \<open>What was in the journal for the request, with the digest of the request, before it is prepared.\<close>

definition write_outcome_of ::
    "'s write_host \<Rightarrow> string \<Rightarrow> string \<Rightarrow> string \<Rightarrow> prepared_commit list \<Rightarrow> ('s, write_response_data option) step" where
  "write_outcome_of wh key request_id fingerprint existing s =
     (let lib = wh_durable wh in
      case jo_reconcile (du_journal lib) s key request_id fingerprint of
        (s, Inl e) \<Rightarrow> (s, Inl e)
      | (s, Inr NotFound) \<Rightarrow> (s, Inr None)
      | (s, Inr (Committed outcome)) \<Rightarrow>
          (s, bind_res (ok_or (List.find (\<lambda>r. pc_commit_id r = dc_commit_id outcome) existing)
              ''reconciled resident commit is not readable'') (\<lambda>r.
            bind_res (persisted_response (du_codec lib) r) (\<lambda>response. Inr (Some response)))))"

definition without_effect :: "write_request \<Rightarrow> write_response_data \<Rightarrow> bool" where
  "without_effect request response =
     (wq_mode request = Preview
      \<or> (case response of Failed _ _ _ _ _ _ _ _ \<Rightarrow> True | RolledBack _ _ _ _ _ _ _ _ _ \<Rightarrow> True | _ \<Rightarrow> False))"

definition commit_prepared_write ::
    "'s write_host \<Rightarrow> string \<Rightarrow> string \<Rightarrow> string \<Rightarrow> string \<Rightarrow> write_op prepared_transaction \<Rightarrow> history_state
      \<Rightarrow> (book, write_op, 's, write_response_data) durable_step" where
  "commit_prepared_write wh commit_id request_id key fingerprint prepared h = (\<lambda>(se, s).
     (let proposed = write_record wh commit_id request_id key prepared fingerprint h se in
      case commit_or_reconcile (du_journal (wh_durable wh)) proposed s of
        (s, CommitRefused e) \<Rightarrow> ((se, s), Inl e)
      | (s, CommitUnknown) \<Rightarrow> ((poison ''durable commit outcome unknown'' se, s),
          Inl (Bail ''durable commit outcome unknown; recovery/reconciliation required''))
      | (s, CommitKnown committed_id) \<Rightarrow> after_write_commit wh key proposed committed_id (se, s)))"

definition execute_durable_prepared_on_resident ::
    "'s write_host \<Rightarrow> string \<Rightarrow> string \<Rightarrow> string \<Rightarrow> string \<Rightarrow> write_request \<Rightarrow> string option
      \<Rightarrow> (book, write_op, 's, write_response_data) durable_step" where
  "execute_durable_prepared_on_resident wh commit_id fresh change_id request_id request consume_staged = (\<lambda>(se, s).
     (let lib = wh_durable wh; key = to_workbook_id (wq_resource_id request);
          fingerprint = wh_print wh (se_base_sha256 se) consume_staged request in
      case bind_res (if request_id = [] then invalid_request ''request_id is required for durable writes'' else Inr ()) (\<lambda>_.
          bind_res (ensure_usable se) (\<lambda>_.
          bind_res (jo_load (du_journal lib) s key) (\<lambda>existing.
          bind_res (replay_bound (du_codec lib) existing key (se_base_sha256 se)) (\<lambda>h. Inr (existing, h))))) of
        Inl e \<Rightarrow> ((se, s), Inl e)
      | Inr (existing, h) \<Rightarrow>
          if \<not> option_all (\<lambda>r. pc_state_revision r = session_revision se
                \<and> pc_catalog_generation r = se_catalog_generation se) (last_opt existing)
          then ((poison ''durable journal state does not match resident state/catalog'' se, s),
            Inl (Bail ''resident session requires recovery before durable write''))
          else
            (case write_outcome_of wh key request_id fingerprint existing s of
               (s, Inl e) \<Rightarrow> ((se, s), Inl e)
             | (s, Inr (Some response)) \<Rightarrow> ((se, s), Inr response)
             | (s, Inr None) \<Rightarrow>
                 (case prepare_resident_transaction (wh_prepare wh) fresh se request (stage_identity request change_id) of
                    Inl e \<Rightarrow> ((se, s), Inl e)
                  | Inr prepared \<Rightarrow>
                      if without_effect request (pt_response prepared) then ((se, s), Inr (pt_response prepared))
                      else commit_prepared_write wh commit_id request_id key fingerprint
                        (prepared \<lparr> pt_consume_staged := consume_staged \<rparr>) h (se, s)))))"

definition execute_durable_write_on_resident ::
    "'s write_host \<Rightarrow> string \<Rightarrow> string \<Rightarrow> string \<Rightarrow> string \<Rightarrow> write_request
      \<Rightarrow> (book, write_op, 's, write_response_data) durable_step" where
  "execute_durable_write_on_resident wh commit_id fresh change_id request_id request =
     execute_durable_prepared_on_resident wh commit_id fresh change_id request_id request None"

text \<open>A retry must name the same staged change at the same revision.\<close>

definition retried_response ::
    "'op codec \<Rightarrow> string \<Rightarrow> string \<Rightarrow> prepared_commit \<Rightarrow> write_response_data res" where
  "retried_response cd change_id expected_revision r =
     bind_res (prepared_of cd ''stage-apply lacks prepared transaction'' r) (\<lambda>p.
     bail_if (pc_transition r \<noteq> StageApply \<or> pt_consume_staged p \<noteq> Some change_id
         \<or> response_revision_before (pt_response p) \<noteq> expected_revision)
       ''request identity reuse with different staged-apply input'' (Inr (pt_response p)))"

definition apply_staged_durable ::
    "'s write_host \<Rightarrow> string \<Rightarrow> string \<Rightarrow> string \<Rightarrow> string \<Rightarrow> string
      \<Rightarrow> (book, write_op, 's, write_response_data) durable_step" where
  "apply_staged_durable wh commit_id fresh request_id change_id expected_revision =
     bind_step usable_step (\<lambda>_.
     bind_step (read_step (\<lambda>_. if request_id = [] then invalid_request ''request_id is required for durable staged apply''
       else Inr ())) (\<lambda>_.
     bind_step (reconciled_record_by_request_id (wh_durable wh) request_id) (\<lambda>found.
     case found of
       Some r \<Rightarrow> read_step (\<lambda>_. retried_response (du_codec (wh_durable wh)) change_id expected_revision r)
     | None \<Rightarrow>
         bind_step (read_step (\<lambda>(se, s). staged_change se change_id expected_revision)) (\<lambda>request.
         execute_durable_prepared_on_resident wh commit_id fresh [] request_id request (Some change_id)))))"

section \<open>The session while it publishes\<close>

lemma keeps_on_workbook: "(\<And>se wb. P se \<Longrightarrow> P (se \<lparr> se_workbook := wb \<rparr>)) \<Longrightarrow> keeps P (on_workbook m)"
  by (auto simp: keeps_def on_workbook_def split: prod.splits)

lemma publish_frame:
  assumes "publish_resident_transaction cd eg p se = (se', r)"
  shows "se_resource_id se' = se_resource_id se \<and> se_poisoned se' = se_poisoned se"
proof -
  have "keeps (\<lambda>x. se_resource_id x = se_resource_id se \<and> se_poisoned x = se_poisoned se)
      (publish_resident_transaction cd eg p)"
    unfolding publish_resident_transaction_def publish_resident_transaction_inner_def
    by (intro keeps_intros keeps_on_workbook)
      (auto simp: keeps_def publish_staged_def publish_consumed_def split: option.splits)
  from keepsD [OF this, of se] assms show ?thesis by simp
qed

lemma publish_committed_state:
  assumes "publish_committed wh committed persisted (poison m se) = (se', r)"
  shows "session_key se' = session_key se"
    and "se_poisoned se' = None \<Longrightarrow> session_revision se' = pc_state_revision committed
      \<and> se_catalog_generation se' = pc_catalog_generation committed"
    and "r = Inr response \<Longrightarrow> response = pt_response persisted \<and> se_poisoned se' = None"
proof -
  obtain se1 r1 where pub: "publish_resident_transaction (du_codec (wh_durable wh)) (du_engine (wh_durable wh)) persisted
      (poison m se) = (se1, r1)" by fastforce
  note frame = publish_frame [OF pub]
  from assms pub frame show "session_key se' = session_key se"
    by (auto simp: publish_committed_def Let_def session_key_def poison_def unpoison_def split: sum.splits if_splits)
  from assms pub frame show "se_poisoned se' = None \<Longrightarrow> session_revision se' = pc_state_revision committed
      \<and> se_catalog_generation se' = pc_catalog_generation committed"
    by (auto simp: publish_committed_def Let_def split: sum.splits if_splits)
  from assms pub show "r = Inr response \<Longrightarrow> response = pt_response persisted \<and> se_poisoned se' = None"
    by (auto simp: publish_committed_def Let_def split: sum.splits if_splits)
qed

lemma write_record_simps [simp]:
  "pc_session_id (write_record wh cid q key p fp h se) = key" "pc_request_id (write_record wh cid q key p fp h se) = q"
  "pc_commit_id (write_record wh cid q key p fp h se) = cid"
  "pc_request_fingerprint (write_record wh cid q key p fp h se) = fp"
  "pc_effects (write_record wh cid q key p fp h se) = [JObj [(''prepared_transaction'', wh_write_prepared wh p)]]"
  by (simp_all add: write_record_def Let_def)

text \<open>A write is prepared for the resource of its session only.\<close>

lemma prepared_resource:
  "prepare_resident_transaction lib fresh se request change_id = Inr p \<Longrightarrow> wq_resource_id request = se_resource_id se"
  by (auto simp: prepare_resident_transaction_def bind_res_Inr invalid_request_def split: if_splits)

text \<open>In memory the staged change is gone after any answer, also when its write was rolled back.\<close>

lemma apply_staged_consumes:
  "apply_staged lib fresh change_id expected se = (se', Inr response) \<Longrightarrow> \<not> bt_contains (se_staged se') change_id"
  by (auto simp: apply_staged_def step_simps split: sum.splits prod.splits)

section \<open>Durable writes keep the session in step\<close>

context commit_storage
begin

lemma commit_write_settled:
  assumes lib: "du_journal (wh_durable wh) = journal_of load commit reconcile" and start: "ready cid (se, s)"
    and usable: "se_poisoned se = None"
    and run: "commit_prepared_write wh cid q (session_key se) fp p h (se, s) = ((se', s'), r)"
  shows "settled (se', s')"
proof -
  let ?r = "write_record wh cid q (session_key se) p fp h se"
  have inv: "inv s" and step: "in_step (log s (session_key se)) se"
    and fresh: "cid \<notin> pc_commit_id ` set (log s (session_key se))"
    using start usable by (auto simp: ready_def in_agreement_def)
  obtain s1 answer where ca: "commit_or_reconcile (journal_of load commit reconcile) ?r s = (s1, answer)" by fastforce
  note facts = commit_answer [OF inv ca]
  show ?thesis
  proof (cases answer)
    case (CommitRefused e)
    with run ca facts step show ?thesis
      by (auto simp: commit_prepared_write_def lib Let_def settled_def in_agreement_def)
  next
    case CommitUnknown
    with run ca facts show ?thesis by (auto simp: commit_prepared_write_def lib Let_def settled_def in_agreement_def)
  next
    case (CommitKnown committed)
    let ?pending = "poison ''committed transaction publication pending; recovery required on failure'' se"
    from run ca CommitKnown have after: "after_write_commit wh (session_key se) ?r committed (se, s1) = ((se', s'), r)"
      by (simp add: commit_prepared_write_def lib Let_def)
    from known_new_identity [OF inv ca [unfolded CommitKnown]] fresh
    have known: "if committed = cid then log s1 (session_key se) = log s (session_key se) @ [?r] else log s1 = log s"
      by (simp split: if_split_asm)
    show ?thesis
    proof (cases "committed = cid")
      case False
      with after have "s' = s1" "se' = ?pending \<or> se' = unpoison ?pending"
        by (auto simp: after_write_commit_def Let_def split: sum.splits)
      with False known step facts show ?thesis by (auto simp: settled_def in_agreement_def)
    next
      case True
      show ?thesis
      proof (cases "prepared_of (du_codec (wh_durable wh)) ''resident commit lacks prepared transaction'' ?r")
        case (Inl e)
        with True after facts show ?thesis by (auto simp: after_write_commit_def Let_def settled_def in_agreement_def)
      next
        case (Inr persisted)
        obtain se2 r2 where pub: "publish_committed wh ?r persisted ?pending = (se2, r2)" by fastforce
        from after True Inr pub have out: "s' = s1" "se' = se2" by (auto simp: after_write_commit_def Let_def)
        have "in_step (log s1 (session_key se2)) se2" if "se_poisoned se2 = None"
          using known True publish_committed_state(1,2) [OF pub] that by (simp add: in_step_def option_all_def)
        with facts show ?thesis by (auto simp: out settled_def in_agreement_def)
      qed
    qed
  qed
qed

lemma write_outcome_frame:
  assumes "du_journal (wh_durable wh) = journal_of load commit reconcile" and "inv s"
    and "write_outcome_of wh key q fp existing s = (s', r)"
  shows "inv s' \<and> log s' = log s \<and> (r = Inr None \<longrightarrow> q \<notin> pc_request_id ` set (log s key))"
proof -
  obtain s1 y where rc: "reconcile s key q fp = (s1, y)" by fastforce
  from assms(3) rc have "s' = s1" by (auto simp: write_outcome_of_def assms(1) journal_of_def split: sum.splits reconcile_outcome.splits)
  moreover have "y = Inr NotFound" if "r = Inr None"
    using assms(3) rc that
    by (auto simp: write_outcome_of_def assms(1) journal_of_def bind_res_Inr split: sum.splits reconcile_outcome.splits)
  ultimately show ?thesis using reconcile_inv [OF assms(2) rc] reconcile_not_found [OF assms(2), of key q fp s1] rc by auto
qed

text \<open>The paths of a durable write.\<close>

lemma durable_write_cases:
  assumes lib: "du_journal (wh_durable wh) = journal_of load commit reconcile" and inv: "inv s"
    and run: "execute_durable_prepared_on_resident wh cid fresh change_id q request consume (se, s) = ((se', s'), r)"
  obtains (unchanged) e where "se' = se" "s' = s" "r = Inl e"
    | (mismatch) m e where "se' = poison m se" "s' = s" "r = Inl e" "se_poisoned se = None"
        "\<not> in_step (log s (to_workbook_id (wq_resource_id request))) se"
    | (found) h where "se' = se" "inv s'" "log s' = log s" "se_poisoned se = None"
        "replay_bound (du_codec (wh_durable wh)) (log s (to_workbook_id (wq_resource_id request)))
          (to_workbook_id (wq_resource_id request)) (se_base_sha256 se) = Inr h"
        "\<exists>x. write_outcome_of wh (to_workbook_id (wq_resource_id request)) q
          (wh_print wh (se_base_sha256 se) consume request) (log s (to_workbook_id (wq_resource_id request))) s = (s', x)
          \<and> (x = map_sum id Some r)"
    | (refused) e where "se' = se" "inv s'" "log s' = log s" "r = Inl e" 
        "q \<notin> pc_request_id ` set (log s (to_workbook_id (wq_resource_id request)))"
    | (idle) p where "se' = se" "inv s'" "log s' = log s" "se_poisoned se = None" "r = Inr (pt_response p)"
        "q \<notin> pc_request_id ` set (log s (to_workbook_id (wq_resource_id request)))"
        "prepare_resident_transaction (wh_prepare wh) fresh se request (stage_identity request change_id) = Inr p"
        "without_effect request (pt_response p)"
    | (commits) p h s1 where "se_poisoned se = None" "wq_resource_id request = se_resource_id se"
        "inv s1" "log s1 = log s" "q \<notin> pc_request_id ` set (log s (session_key se))"
        "replay_bound (du_codec (wh_durable wh)) (log s (session_key se)) (session_key se) (se_base_sha256 se) = Inr h"
        "prepare_resident_transaction (wh_prepare wh) fresh se request (stage_identity request change_id) = Inr p"
        "\<not> without_effect request (pt_response p)"
        "commit_prepared_write wh cid q (session_key se) (wh_print wh (se_base_sha256 se) consume request)
          (p \<lparr> pt_consume_staged := consume \<rparr>) h (se, s1) = ((se', s'), r)"
proof -
  let ?key = "to_workbook_id (wq_resource_id request)"
  let ?look = "bind_res (if q = [] then invalid_request ''request_id is required for durable writes'' else Inr ()) (\<lambda>_.
          bind_res (ensure_usable se) (\<lambda>_.
          bind_res (jo_load (du_journal (wh_durable wh)) s ?key) (\<lambda>existing.
          bind_res (replay_bound (du_codec (wh_durable wh)) existing ?key (se_base_sha256 se)) (\<lambda>h. Inr (existing, h)))))"
  show thesis
  proof (cases ?look)
    case (Inl e)
    with run show thesis by (intro unchanged) (auto simp: execute_durable_prepared_on_resident_def Let_def)
  next
    case (Inr eh)
    then obtain existing h where eh: "eh = (existing, h)" by (cases eh)
    with Inr have usable: "se_poisoned se = None" and load: "load s ?key = Inr existing"
      and replay: "replay_bound (du_codec (wh_durable wh)) existing ?key (se_base_sha256 se) = Inr h"
      by (auto simp: bind_res_Inr ensure_usable_def lib journal_of_def)
    note existing = load_log [OF inv load]
    show thesis
    proof (cases "in_step existing se")
      case False
      with run Inr eh usable existing show thesis
        by (intro mismatch) (auto simp: execute_durable_prepared_on_resident_def Let_def in_step_def)
    next
      case step: True
      let ?fp = "wh_print wh (se_base_sha256 se) consume request"
      obtain s1 x where out: "write_outcome_of wh ?key q ?fp existing s = (s1, x)" by fastforce
      note frame = write_outcome_frame [OF lib inv out]
      have rest: "((se', s'), r) = (case x of Inl e \<Rightarrow> ((se, s1), Inl e) | Inr (Some response) \<Rightarrow> ((se, s1), Inr response)
          | Inr None \<Rightarrow>
             (case prepare_resident_transaction (wh_prepare wh) fresh se request (stage_identity request change_id) of
                    Inl e \<Rightarrow> ((se, s1), Inl e)
                  | Inr p \<Rightarrow>
                      if without_effect request (pt_response p) then ((se, s1), Inr (pt_response p))
                      else commit_prepared_write wh cid q ?key ?fp (p \<lparr> pt_consume_staged := consume \<rparr>) h (se, s1)))"
        using run Inr eh step out
        unfolding execute_durable_prepared_on_resident_def Let_def
        by (simp add: in_step_def)
      show thesis
      proof (cases "x = Inr None")
        case False
        then show thesis
          using rest frame usable replay out by (intro found [of h]) (auto simp: existing split: sum.splits option.splits)
      next
        case none: True
        show thesis
        proof (cases "prepare_resident_transaction (wh_prepare wh) fresh se request (stage_identity request change_id)")
          case (Inl e)
          with rest none frame show thesis by (intro refused) auto
        next
          case (Inr p)
          show thesis
          proof (cases "without_effect request (pt_response p)")
            case True
            with rest none frame Inr usable show thesis by (intro idle [of p]) auto
          next
            case False
            with rest none frame Inr usable replay prepared_resource [OF Inr] existing show thesis
              by (intro commits [of s1 h p]) (auto simp: session_key_def)
          qed
        qed
      qed
    qed
  qed
qed

end

context commit_storage
begin

lemma durable_write_triple:
  assumes lib: "du_journal (wh_durable wh) = journal_of load commit reconcile"
  shows "triple (ready cid) (execute_durable_prepared_on_resident wh cid fresh change_id q request consume)
    (\<lambda>_. settled) settled"
  unfolding triple_def
proof (intro allI impI)
  fix x :: "book_session \<times> 's" assume start: "ready cid x"
  obtain se s where x: "x = (se, s)" by (cases x)
  obtain se' s' r where run: "execute_durable_prepared_on_resident wh cid fresh change_id q request consume (se, s)
      = ((se', s'), r)" by (metis prod.exhaust)
  from start x have facts: "inv s" "in_agreement log se s" "cid \<notin> pc_commit_id ` set (log s (session_key se))"
    by (auto simp: ready_def)
  have "settled (se', s')"
  proof (cases rule: durable_write_cases [OF lib facts(1) run, case_names unchanged mismatch found refused idle commits])
    case (commits p h s1)
    then have "ready cid (se, s1)" using facts by (simp add: ready_def in_agreement_def)
    from commit_write_settled [OF lib this commits(1,9)] show ?thesis .
  qed (use facts in \<open>auto simp: settled_def in_agreement_def\<close>)
  with x run show "case execute_durable_prepared_on_resident wh cid fresh change_id q request consume x of
      (t, Inr r) \<Rightarrow> settled t | (t, Inl e) \<Rightarrow> settled t"
    by (simp split: sum.split)
qed

lemma apply_staged_triple:
  assumes lib: "du_journal (wh_durable wh) = journal_of load commit reconcile"
  shows "triple (ready cid) (apply_staged_durable wh cid fresh q change_id expected) (\<lambda>_. settled) settled"
  unfolding apply_staged_durable_def usable_step_def
proof (intro ready_walk triple_bind [OF reconciled_triple [OF lib]])
  fix found :: "prepared_commit option"
  have retry: "triple (ready cid) (read_step (\<lambda>_. retried_response cd change_id expected r)) (\<lambda>_. settled) settled"
    for cd :: "write_op codec" and r
    by (rule triple_read) (auto intro: ready_settled)
  have "triple (ready cid) (bind_step (read_step (\<lambda>(se, s). staged_change se change_id expected)) (\<lambda>request.
      execute_durable_prepared_on_resident wh cid fresh [] q request (Some change_id))) (\<lambda>_. settled) settled"
    by (intro ready_walk durable_write_triple lib)
  with retry show "triple (\<lambda>x. ready cid x \<and> (found = None \<longrightarrow> unseen q x)) (case found of
      Some r \<Rightarrow> read_step (\<lambda>_. retried_response (du_codec (wh_durable wh)) change_id expected r)
    | None \<Rightarrow> bind_step (read_step (\<lambda>(se, s). staged_change se change_id expected)) (\<lambda>request.
        execute_durable_prepared_on_resident wh cid fresh [] q request (Some change_id))) (\<lambda>_. settled) settled"
    by (auto split: option.split intro: triple_weaken)
qed

text \<open>A request that is in the journal already.\<close>

lemma write_again:
  assumes lib: "du_journal (wh_durable wh) = journal_of load commit reconcile" and settled: "settled (se, s)"
    and own: "to_workbook_id (wq_resource_id request) = session_key se"
    and known: "q \<in> pc_request_id ` set (log s (session_key se))"
    and run: "execute_durable_prepared_on_resident wh cid fresh change_id q request consume (se, s) = ((se', s'), r)"
  shows "se' = se \<and> log s' = log s"
proof -
  have "inv s" using settled by (simp add: settled_def)
  from durable_write_cases [OF lib this run] show ?thesis
    by cases (use settled own known in \<open>auto simp: settled_def in_agreement_def\<close>)
qed

lemma staged_change_resource: "staged_change se change_id expected = Inr request \<Longrightarrow>
    wq_resource_id request = se_resource_id se"
  by (auto simp: staged_change_def staged_request_def bind_res_Inr invalid_request_def dest!: resource_validate_same
      split: option.splits)

lemma apply_again:
  assumes lib: "du_journal (wh_durable wh) = journal_of load commit reconcile" and settled: "settled (se, s)"
    and known: "q \<in> pc_request_id ` set (log s (session_key se))"
    and run: "apply_staged_durable wh cid fresh q change_id expected (se, s) = ((se', s'), r)"
  shows "se' = se \<and> log s' = log s"
proof -
  have inv: "inv s" using settled by (simp add: settled_def)
  obtain se1 s1 found where look: "reconciled_record_by_request_id (wh_durable wh) q (se, s) = ((se1, s1), found)"
    by (metis prod.exhaust)
  note frame = reconciled_frame [OF lib inv look]
  with known have "found \<noteq> Inr None" by (auto simp: unseen_def)
  with run look frame show ?thesis
    by (auto simp: apply_staged_durable_def usable_step_def step_simps split: sum.splits option.splits)
qed

text \<open>A write that is answered with an effect is in the journal with that answer.\<close>

lemma write_acknowledged:
  assumes lib: "du_journal (wh_durable wh) = journal_of load commit reconcile" and start: "ready cid (se, s)"
    and own: "to_workbook_id (wq_resource_id request) = session_key se"
    and run: "execute_durable_prepared_on_resident wh cid fresh change_id q request consume (se, s) = ((se', s'), Inr response)"
    and eff: "\<not> without_effect request response"
  shows "\<exists>r \<in> set (log s' (session_key se)). pc_request_id r = q
      \<and> persisted_response (du_codec (wh_durable wh)) r = Inr response"
    and "se_poisoned se' = None"
proof -
  have inv: "inv s" and fresh: "cid \<notin> pc_commit_id ` set (log s (session_key se))" using start by (auto simp: ready_def)
  let ?cd = "du_codec (wh_durable wh)" and ?fp = "wh_print wh (se_base_sha256 se) consume request"
  have "(\<exists>r \<in> set (log s' (session_key se)). pc_request_id r = q \<and> persisted_response ?cd r = Inr response)
    \<and> se_poisoned se' = None"
  proof (cases rule: durable_write_cases [OF lib inv run, case_names unchanged mismatch found refused idle commits])
    case (found h)
    from found(6) own have out: "write_outcome_of wh (session_key se) q ?fp (log s (session_key se)) s = (s', Inr (Some response))"
      by auto
    obtain s1 y where rc: "reconcile s (session_key se) q ?fp = (s1, y)" by fastforce
    from out rc obtain outcome r where y: "y = Inr (Committed outcome)"
      and r: "List.find (\<lambda>r. pc_commit_id r = dc_commit_id outcome) (log s (session_key se)) = Some r"
      and resp: "persisted_response ?cd r = Inr response"
      by (auto simp: write_outcome_of_def lib journal_of_def bind_res_Inr split: sum.splits reconcile_outcome.splits)
    from reconcile_committed [OF inv rc [unfolded y]] obtain e where e: "e \<in> set (log s (session_key se))"
      "pc_request_id e = q" "pc_commit_id e = dc_commit_id outcome" by (metis durable_commit_outcome.select_convs(1) nth_mem)
    from find_Some [OF r] have "r \<in> set (log s (session_key se))" "pc_commit_id r = pc_commit_id e" using e by simp_all
    moreover have "distinct (map pc_commit_id (log s (session_key se)))"
      using found(5) by (auto simp: replay_bound_accepts own dest!: accepts_identity)
    ultimately have "r = e" using e(1) by (simp add: distinct_map inj_on_def)
    with e resp found show ?thesis by auto
  next
    case (commits p h s1)
    let ?r = "write_record wh cid q (session_key se) (p \<lparr> pt_consume_staged := consume \<rparr>) ?fp h se"
    obtain s2 answer where ca: "commit_or_reconcile (journal_of load commit reconcile) ?r s1 = (s2, answer)" by fastforce
    from commits(9) ca obtain committed where ans: "answer = CommitKnown committed"
      and after: "after_write_commit wh (session_key se) ?r committed (se, s2) = ((se', s'), Inr response)"
      by (auto simp: commit_prepared_write_def lib Let_def split: commit_answer.splits)
    have new: "log s2 (session_key se) = log s1 (session_key se) @ [?r]"
      using known_new_request [OF commits(3) ca [unfolded ans]] commits(4,5) by simp
    with known_new_identity [OF commits(3) ca [unfolded ans]] fresh commits(4)
    have "committed = cid" by (auto split: if_splits)
    with after obtain persisted where p: "prepared_of ?cd ''resident commit lacks prepared transaction'' ?r = Inr persisted"
      and pub: "publish_committed wh ?r persisted
        (poison ''committed transaction publication pending; recovery required on failure'' se) = (se', Inr response)" and s': "s' = s2"
      by (auto simp: after_write_commit_def Let_def split: sum.splits prod.splits)
    from publish_committed_state(3) [OF pub refl] p have "persisted_response ?cd ?r = Inr response" "se_poisoned se' = None"
      by (simp_all add: persisted_response_def)
    with new s' show ?thesis by auto
  qed (use eff in auto)
  then show "\<exists>r \<in> set (log s' (session_key se)). pc_request_id r = q \<and> persisted_response ?cd r = Inr response"
    and "se_poisoned se' = None" by auto
qed

end

section \<open>Sessions that are written and controlled\<close>

datatype session_request =
    Control durable_request
  | Write write_request
  | ApplyStaged string string
  | Recalculate "u64 option" "string option"

text \<open>The identities are those of a commit, of the byte transaction and of a staged change; the base is
  the workbook the host has.\<close>

fun session_request_step ::
    "'s write_host \<Rightarrow> string \<Rightarrow> string \<Rightarrow> string \<Rightarrow> string \<Rightarrow> string \<Rightarrow> session_request
      \<Rightarrow> (book, write_op, 's, unit) durable_step" where
  "session_request_step wh cid fresh change_id q base (Control req) = durable_request_step (wh_durable wh) cid q base req"
| "session_request_step wh cid fresh change_id q base (Write request) =
     without_result (execute_durable_write_on_resident wh cid fresh change_id q request)"
| "session_request_step wh cid fresh change_id q base (ApplyStaged change expected) =
     without_result (apply_staged_durable wh cid fresh q change expected)"
| "session_request_step wh cid fresh change_id q base (Recalculate timeout_ms backend) =
     without_result (recalculate_durable_with_backend (wh_calc wh) (wh_durable wh) cid q timeout_ms backend)"

text \<open>Recovery of a session that was not discarded, then any requests. New commit identities are never
  in the journal already.\<close>

inductive session_reaches ::
    "('s \<Rightarrow> string \<Rightarrow> prepared_commit list) \<Rightarrow> 's write_host \<Rightarrow> 's \<Rightarrow> book_session \<times> 's \<Rightarrow> bool"
  for log wh s0 where
  recovered: "recover_durable_resident_session (wh_durable wh) epoch cid q resource base s0 = (s, Inr se) \<Longrightarrow>
     q \<notin> pc_request_id ` set (log s0 (to_workbook_id resource)) \<Longrightarrow>
     \<not> discarded_log (du_codec (wh_durable wh)) (log s0 (to_workbook_id resource)) (to_workbook_id resource) base \<Longrightarrow>
     session_reaches log wh s0 (se, s)"
| requested: "session_reaches log wh s0 (se, s) \<Longrightarrow> cid \<notin> pc_commit_id ` set (log s (session_key se)) \<Longrightarrow>
     session_reaches log wh s0 (fst (session_request_step wh cid fresh change_id q base req (se, s)))"

definition own_request :: "book_session \<Rightarrow> session_request \<Rightarrow> bool" where
  "own_request se req = (case req of Write request \<Rightarrow> to_workbook_id (wq_resource_id request) = session_key se | _ \<Rightarrow> True)"

context commit_storage
begin

lemma settled_ready: "settled (se, s) \<Longrightarrow> cid \<notin> pc_commit_id ` set (log s (session_key se)) \<Longrightarrow> ready cid (se, s)"
  by (simp add: settled_def ready_def)

lemma session_request_settled:
  "du_journal (wh_durable wh) = journal_of load commit reconcile \<Longrightarrow>
     triple (ready cid) (session_request_step wh cid fresh change_id q base req) (\<lambda>_. settled) settled"
  by (cases req) (auto simp: execute_durable_write_on_resident_def
      intro!: request_settled settled_result durable_write_triple apply_staged_triple recalculate_triple)

lemma session_settled:
  assumes "session_reaches log wh s0 x" and "inv s0" and "du_journal (wh_durable wh) = journal_of load commit reconcile"
  shows "settled x"
  using assms(1)
proof induction
  case (recovered epoch cid q resource base s se)
  then have "\<not> hs_discarded h" if "replay_bound (du_codec (wh_durable wh)) (log s0 (to_workbook_id resource))
      (to_workbook_id resource) (sha256_hex (du_codec (wh_durable wh)) base) = Inr h" for h
    using that by (simp add: discarded_log_def)
  then show ?case using recovered_settled [OF assms(3,2) recovered(1,2)] by simp
next
  case (requested se s cid fresh change_id q base req)
  then have "ready cid (se, s)" by (simp add: ready_def settled_def)
  then show ?case by (rule triple_fst [OF session_request_settled [OF assms(3)]])
qed

lemma session_again:
  assumes lib: "du_journal (wh_durable wh) = journal_of load commit reconcile" and "settled (se, s)"
    and "own_request se req" and "q \<in> pc_request_id ` set (log s (session_key se))"
    and run: "session_request_step wh cid fresh change_id q base req (se, s) = ((se', s'), r)"
  shows "se' = se \<and> log s' = log s"
proof (cases req)
  case (Control c)
  with assms request_again [OF _ lib assms(4)] show ?thesis by (auto simp: settled_def)
next
  case (Write request)
  obtain se1 s1 r1 where one: "execute_durable_prepared_on_resident wh cid fresh change_id q request None (se, s)
      = ((se1, s1), r1)" by (metis prod.exhaust)
  with run have "se' = se1" "s' = s1"
    by (auto simp: Write execute_durable_write_on_resident_def without_result_def step_simps split: sum.splits)
  with write_again [OF lib assms(2) _ assms(4) one] assms(3) show ?thesis by (simp add: own_request_def Write)
next
  case (ApplyStaged change expected)
  obtain se1 s1 r1 where one: "apply_staged_durable wh cid fresh q change expected (se, s) = ((se1, s1), r1)"
    by (metis prod.exhaust)
  with run have "se' = se1" "s' = s1" by (auto simp: ApplyStaged without_result_def step_simps split: sum.splits)
  with apply_again [OF lib assms(2,4) one] show ?thesis by simp
next
  case (Recalculate timeout_ms backend)
  have "answered q se s (se, s)" using assms(2,4) by (simp add: answered_def settled_def)
  from triple_fst [OF answered_result [OF recalculate_answered [OF lib]] this,
      of "wh_calc wh" cid timeout_ms backend] run
  show ?thesis by (simp add: Recalculate answered_def)
qed

end

end
