(* ===== verification/SessionExact.thy ===== *)
theory SessionExact
  imports SessionWrites
begin

text \<open>
  From the request to the cells: a write on a resident session leaves the workbook its operations
  leave. The preparation is exact (\<open>PrepareExact\<close>); here its effects are published
  (\<open>publish_prepared_cells\<close> of \<open>recalc/resident.rs\<close>), in memory and after a durable commit.
\<close>

section \<open>Assigning the effects\<close>

text \<open>A content the library can put in any cell, which is then read back.\<close>

definition assignable :: "prepare_lib \<Rightarrow> materialized_cell \<Rightarrow> bool" where
  "assignable lib m = (\<forall>c. \<exists>c'. pe_assign_cell lib m c = (c', Inr ()) \<and> pe_materialize lib c' = m)"

lemma assign_one:
  assumes "has_sheet (ce_sheet_name e) doc" and "assignable lib (ce_after e)"
  obtains doc' where "assign_effect lib e doc = (doc', Inr ())"
    and "\<And>k. materialized_at lib doc' k = (if k = effect_key e then Some (ce_after e) else materialized_at lib doc k)"
    and "\<And>n. has_sheet n doc' = has_sheet n doc"
proof -
  from assms(1) obtain sh where sh: "find_sheet doc (ce_sheet_name e) = Some sh" by (auto simp: has_sheet_def)
  from assms(2) obtain c' where c': "pe_assign_cell lib (ce_after e)
      (case sheet_cell sh (ce_column e) (ce_row e) of None \<Rightarrow> empty_cell | Some c \<Rightarrow> c) = (c', Inr ())"
    "pe_materialize lib c' = ce_after e"
    unfolding assignable_def by metis
  let ?doc = "update_sheet (ce_sheet_name e) (update_cell (ce_column e) (ce_row e) (\<lambda>_. c')) doc"
  show thesis
  proof (rule that)
    show "assign_effect lib e doc = (?doc, Inr ())" by (simp add: assign_effect_def sh c'(1))
    show "materialized_at lib ?doc k = (if k = effect_key e then Some (ce_after e) else materialized_at lib doc k)" for k
      by (cases k) (auto simp: materialized_at_def effect_key_def cell_in_update [OF assms(1)] c'(2))
    show "has_sheet n ?doc = has_sheet n doc" for n
      by (auto simp: has_sheet_def find_sheet_update update_cell_def)
  qed
qed

lemma assign_effects:
  assumes "\<forall>e \<in> set effects. has_sheet (ce_sheet_name e) doc \<and> assignable lib (ce_after e)"
    and "distinct (map effect_key effects)"
  obtains doc' us where "map_step (assign_effect lib) effects doc = (doc', Inr us)"
    and "\<And>k. materialized_at lib doc' k = materialized_after lib doc effects k"
  using assms
proof (induction effects arbitrary: doc thesis)
  case Nil
  show ?case by (rule Nil(1)) (simp_all add: return_step_def materialized_after_def)
next
  case (Cons e effects)
  obtain doc1 where one: "assign_effect lib e doc = (doc1, Inr ())"
    "\<And>k. materialized_at lib doc1 k = (if k = effect_key e then Some (ce_after e) else materialized_at lib doc k)"
    "\<And>n. has_sheet n doc1 = has_sheet n doc"
    using Cons.prems(2) by (metis assign_one list.set_intros(1))
  obtain doc' us where rest: "map_step (assign_effect lib) effects doc1 = (doc', Inr us)"
    "\<And>k. materialized_at lib doc' k = materialized_after lib doc1 effects k"
    using Cons.IH [of doc1] Cons.prems(2,3) one(3) by auto
  show ?case
  proof (rule Cons.prems(1))
    show "map_step (assign_effect lib) (e # effects) doc = (doc', Inr (() # us))"
      by (simp add: bind_step_def return_step_def one(1) rest(1))
    show "materialized_at lib doc' k = materialized_after lib doc (e # effects) k" for k
    proof (cases "effect_key e = k")
      case True
      with Cons.prems(3) have "List.find (\<lambda>e. effect_key e = k) effects = None" by (auto simp: find_None image_iff)
      with True show ?thesis by (simp add: rest(2) materialized_after_def one(2))
    next
      case False
      then show ?thesis by (auto simp: rest(2) materialized_after_def one(2) split: option.split)
    qed
  qed
qed

text \<open>Publishing effects that are exact for the document.\<close>

lemma publish_cells_exact:
  assumes effects: "\<forall>e \<in> set effects. has_sheet (ce_sheet_name e) (rw_document wb) \<and> assignable lib (ce_after e)
      \<and> ce_expected_before e = materialized_at lib (rw_document wb) (effect_key e)"
    and "distinct (map effect_key effects)" and "effects \<noteq> []"
  obtains doc' where "publish_prepared_cells_inner (book_engine lib) effects True wb
      = (mark_dirty (advance_document (wb \<lparr> rw_document := doc' \<rparr>)), Inr ())"
    and "\<And>k. materialized_at lib doc' k = materialized_after lib (rw_document wb) effects k"
proof -
  obtain doc' us where run: "map_step (assign_effect lib) effects (rw_document wb) = (doc', Inr us)"
    "\<And>k. materialized_at lib doc' k = materialized_after lib (rw_document wb) effects k"
    by (rule assign_effects [of effects "rw_document wb" lib]) (use assms in auto)
  have "check_effect (book_engine lib) True (rw_document wb) e = Inr ()" if "e \<in> set effects" for e
    using effects that by (auto simp: check_effect_def book_engine_def read_cell_def has_sheet_def effect_key_def)
  then have "\<exists>ys. map_res (check_effect (book_engine lib) True (rw_document wb)) effects = Inr ys"
    by (induction effects) auto
  with run assms(3) show thesis
    by (intro that [of doc']) (auto simp: publish_prepared_cells_inner_def book_engine_def)
qed

lemma published_revision:
  "state_revision_id (mark_dirty (advance_document (wb \<lparr> rw_document := doc' \<rparr>))) = predicted_resident_revision wb True"
  by (simp add: state_revision_id_def mark_dirty_def advance_document_def advance_state_def predicted_resident_revision_def)

section \<open>A write in memory\<close>

lemma apply_revision_after:
  assumes "wq_mode request = Apply" and "pub \<longrightarrow> \<not> (wq_atomic request \<and> failed \<noteq> None)"
  shows "response_revision_after (canonical_response_from_prepared request (session_revision se)
      (predicted_resident_revision (se_workbook se) pub) results d impact failed n change_id)
    = predicted_resident_revision (se_workbook se) pub"
  using assms
  by (cases failed) (auto simp: canonical_response_from_prepared_def Let_def predicted_resident_revision_def session_revision_def)

text \<open>What an applying request of cell writes leaves: the cells its operations give, or the document
  as it was when an atomic request failed.\<close>

definition published_as ::
    "prepare_lib \<Rightarrow> write_request \<Rightarrow> book \<Rightarrow> (write_op \<times> err) option \<Rightarrow> book_session \<Rightarrow> book_session \<Rightarrow> bool" where
  "published_as lib request w failed se se' =
     (if wq_atomic request \<and> failed \<noteq> None then se' = se
      else (\<forall>k. materialized_at lib (rw_document (se_workbook se')) k = materialized_at lib w k)
        \<and> se' = se \<lparr> se_workbook := se_workbook se' \<rparr>)"

lemma published_frame:
  assumes "published_as lib request w failed se se'"
  shows "se_poisoned se' = se_poisoned se \<and> se_staged se' = se_staged se
    \<and> se_catalog_generation se' = se_catalog_generation se"
proof -
  have "se' = se \<or> (\<exists>wb. se' = se \<lparr> se_workbook := wb \<rparr>)"
    using assms unfolding published_as_def by (auto split: if_split_asm)
  then show ?thesis by auto
qed

lemma publish_exact:
  assumes mode: "wq_mode request = Apply"
    and effects: "\<forall>k. materialized_after lib (rw_document (se_workbook se)) effects k = materialized_at lib w k"
      "\<forall>e \<in> set effects. ce_expected_before e = materialized_at lib (rw_document (se_workbook se)) (effect_key e)
        \<and> has_sheet (ce_sheet_name e) (rw_document (se_workbook se)) \<and> assignable lib (ce_after e)"
      "distinct (map effect_key effects)"
    and pub: "pt_publication tx = (if wq_mode request = Apply \<and> \<not> (wq_atomic request \<and> failed \<noteq> None) \<and> effects \<noteq> []
        then PubCells effects else PubNone)"
    and response: "pt_response tx = canonical_response_from_prepared request (session_revision se)
        (predicted_resident_revision (se_workbook se) (pt_publication tx \<noteq> PubNone))
        (report 0 (wq_ops request) ds failed) d (request_impact request) (map_option (\<lambda>_. length ds) failed)
        (length ds) change_id"
    and others: "pt_base_sha256 tx = se_base_sha256 se" "pt_consume_staged tx = None" "pt_staged tx = None"
  obtains se' where "publish_resident_transaction cd (book_engine lib) tx se = (se', Inr ())"
    and "published_as lib request w failed se se'" and "session_revision se' = response_revision_after (pt_response tx)"
proof -
  let ?pub = "\<not> (wq_atomic request \<and> failed \<noteq> None) \<and> effects \<noteq> []"
  have pub': "pt_publication tx = (if ?pub then PubCells effects else PubNone)" using pub mode by simp
  then have is_pub: "pt_publication tx \<noteq> PubNone \<longleftrightarrow> ?pub" by simp
  have after: "response_revision_after (pt_response tx) = predicted_resident_revision (se_workbook se) ?pub"
    unfolding response is_pub by (rule apply_revision_after [OF mode]) auto
  show thesis
  proof (cases ?pub)
    case False
    have "pt_publication tx = PubNone" using pub' False by (simp only: if_False)
    then have "publish_resident_transaction cd (book_engine lib) tx se = (se, Inr ())"
      using False after others
      by (simp add: publish_resident_transaction_def publish_resident_transaction_inner_def step_simps on_workbook_def
          publish_document_def publish_staged_def publish_consumed_def predicted_resident_revision_def session_revision_def)
    moreover have "published_as lib request w failed se se"
      using False effects(1) by (auto simp: published_as_def materialized_after_def)
    moreover have "session_revision se = response_revision_after (pt_response tx)"
      using False after by (simp add: predicted_resident_revision_def session_revision_def)
    ultimately show thesis by (rule that)
  next
    case True
    then have some: "effects \<noteq> []" by simp
    obtain doc' where published: "publish_prepared_cells_inner (book_engine lib) effects True (se_workbook se)
        = (mark_dirty (advance_document ((se_workbook se) \<lparr> rw_document := doc' \<rparr>)), Inr ())"
      and doc': "\<And>k. materialized_at lib doc' k = materialized_after lib (rw_document (se_workbook se)) effects k"
      by (rule publish_cells_exact [of effects "se_workbook se" lib]) (use effects some in auto)
    let ?wb = "mark_dirty (advance_document ((se_workbook se) \<lparr> rw_document := doc' \<rparr>))"
    let ?se = "se \<lparr> se_workbook := ?wb \<rparr>"
    have "pt_publication tx = PubCells effects" unfolding pub' by (rule if_P [OF True])
    then have doc: "publish_document cd (book_engine lib) tx False (se_workbook se) = (?wb, Inr ())"
      using published by (simp add: publish_document_def)
    have revision: "session_revision ?se = response_revision_after (pt_response tx)"
      using after True published_revision [of doc' "se_workbook se"] by (simp add: session_revision_def)
    then have "publish_resident_transaction cd (book_engine lib) tx se = (?se, Inr ())"
      using others
      by (simp add: publish_resident_transaction_def publish_resident_transaction_inner_def step_simps on_workbook_def doc
          publish_staged_def publish_consumed_def)
    moreover have "published_as lib request w failed se ?se"
      using True effects(1) doc' by (auto simp: published_as_def mark_dirty_def advance_document_def advance_state_def)
    ultimately show thesis using revision by (rule that)
  qed
qed


section \<open>A durable write\<close>

lemma split_last_colon:
  assumes "a @ CHR '':'' # x = b @ CHR '':'' # y" and "CHR '':'' \<notin> set x" and "CHR '':'' \<notin> set y"
  shows "x = y"
proof -
  have "takeWhile (\<lambda>c. c \<noteq> CHR '':'') (List.rev (l @ CHR '':'' # z)) = List.rev z" if "CHR '':'' \<notin> set z" for l z :: string
    using that by (simp, subst takeWhile_append2) auto
  from this [of x a] this [of y b] assms show ?thesis by simp
qed

lemma revision_moves: "predicted_resident_revision wb True \<noteq> state_revision_id wb"
proof
  let ?n = "rw_state_revision wb"
  assume "predicted_resident_revision wb True = state_revision_id wb"
  then have same: "(''resident:'' @ rw_epoch wb @ '':'' @ show_nat (u64_wrapping_add (rw_document_revision wb) 1)) @ CHR '':'' # show_nat (u64_wrapping_add ?n 1)
      = (''resident:'' @ rw_epoch wb @ '':'' @ show_nat (rw_document_revision wb)) @ CHR '':'' # show_nat ?n"
    by (simp add: predicted_resident_revision_def state_revision_id_def revision_text_def)
  have no_colon: "CHR '':'' \<notin> set (show_nat n)" for n
  proof
    assume "CHR '':'' \<in> set (show_nat n)"
    with show_nat_digits [of n] have "is_digit (CHR '':'')" unfolding list_all_iff by blast
    then show False by (simp add: is_digit_def ord_of_def)
  qed
  have "show_nat (u64_wrapping_add ?n 1) = show_nat ?n" by (rule split_last_colon [OF same no_colon no_colon])
  then have "u64_wrapping_add ?n 1 = ?n" by (rule show_nat_inj)
  moreover have "u64_wrapping_add ?n 1 < u64_limit" by (simp add: u64_wrapping_add_def)
  ultimately show False by (auto simp: u64_wrapping_add_def mod_Suc split: if_splits)
qed

lemma apply_without_effect:
  assumes "wq_mode request = Apply"
  shows "without_effect request (canonical_response_from_prepared request before after results d impact failed n change_id)
    \<longleftrightarrow> wq_atomic request \<and> failed \<noteq> None"
  using assms by (cases failed) (auto simp: without_effect_def canonical_response_from_prepared_def Let_def)

text \<open>Publishing after the commit: the record of the transaction describes the session it leaves.\<close>

lemma committed_write_exact:
  assumes mode: "wq_mode request = Apply" and usable: "se_poisoned se = None"
    and kept: "\<not> (wq_atomic request \<and> failed \<noteq> None)"
    and effects: "\<forall>k. materialized_after lib (rw_document (se_workbook se)) effects k = materialized_at lib w k"
      "\<forall>e \<in> set effects. ce_expected_before e = materialized_at lib (rw_document (se_workbook se)) (effect_key e)
        \<and> has_sheet (ce_sheet_name e) (rw_document (se_workbook se)) \<and> assignable lib (ce_after e)"
      "distinct (map effect_key effects)"
    and pub: "pt_publication tx = (if wq_mode request = Apply \<and> \<not> (wq_atomic request \<and> failed \<noteq> None) \<and> effects \<noteq> []
        then PubCells effects else PubNone)"
    and response: "pt_response tx = canonical_response_from_prepared request (session_revision se)
        (predicted_resident_revision (se_workbook se) (pt_publication tx \<noteq> PubNone))
        (report 0 (wq_ops request) ds failed) d (request_impact request) (map_option (\<lambda>_. length ds) failed)
        (length ds) change_id"
    and others: "pt_base_sha256 tx = se_base_sha256 se" "pt_consume_staged tx = None" "pt_staged tx = None"
    and engine: "du_engine (wh_durable wh) = book_engine lib"
    and fields: "pc_state_revision committed = response_revision_after (pt_response tx)"
      "pc_catalog_generation committed = se_catalog_generation se"
    and run: "publish_committed wh committed tx (poison m se) = (se', r)"
  shows "published_as lib request w failed se se' \<and> se_poisoned se' = None \<and> r = Inr (pt_response tx)
    \<and> session_revision se' = response_revision_after (pt_response tx)"
proof -
  let ?pending = "poison m se"
  have same: "se_workbook ?pending = se_workbook se" "session_revision ?pending = session_revision se"
    "se_base_sha256 ?pending = se_base_sha256 se" "se_catalog_generation ?pending = se_catalog_generation se"
    "unpoison ?pending = se"
    using usable by (simp_all add: poison_def unpoison_def session_revision_def)
  obtain se1 where se1: "publish_resident_transaction (du_codec (wh_durable wh)) (book_engine lib) tx ?pending = (se1, Inr ())"
    "published_as lib request w failed ?pending se1" "session_revision se1 = response_revision_after (pt_response tx)"
    by (rule publish_exact [of request lib ?pending effects w tx failed ds d change_id])
      (use assms same in simp_all)
  from published_frame [OF se1(2)] have generation: "se_catalog_generation se1 = se_catalog_generation se" using same by simp
  show ?thesis
  proof (cases "effects = []")
    case True
    then have "pt_publication tx = PubNone" unfolding pub by simp
    then have "response_revision_after (pt_response tx) = session_revision se"
      unfolding response using mode kept
      by (subst apply_revision_after) (auto simp: predicted_resident_revision_def session_revision_def)
    then have "se' = se" "r = Inr (pt_response tx)"
      using run same fields by (auto simp: publish_committed_def Let_def)
    moreover have "published_as lib request w failed se se"
      using True effects(1) by (auto simp: published_as_def materialized_after_def)
    ultimately show ?thesis using usable \<open>response_revision_after (pt_response tx) = session_revision se\<close> by simp
  next
    case False
    have "pt_publication tx \<noteq> PubNone" unfolding pub using False mode kept by simp
    then have "response_revision_after (pt_response tx) \<noteq> session_revision se"
      unfolding response using mode kept revision_moves [of "se_workbook se"]
      by (subst apply_revision_after) (auto simp: session_revision_def)
    then have out: "se' = unpoison se1" "r = Inr (pt_response tx)"
      using run same fields se1(1,3) generation engine by (auto simp: publish_committed_def Let_def)
    have "se1 = ?pending \<lparr> se_workbook := se_workbook se1 \<rparr>" "\<forall>k. materialized_at lib (rw_document (se_workbook se1)) k = materialized_at lib w k"
      using se1(2) kept by (auto simp: published_as_def)
    moreover from this(1) have "unpoison se1 = unpoison (?pending \<lparr> se_workbook := se_workbook se1 \<rparr>)" by simp
    moreover have "unpoison (?pending \<lparr> se_workbook := wb \<rparr>) = se \<lparr> se_workbook := wb \<rparr>" for wb
      using usable by (simp add: poison_def unpoison_def)
    ultimately have "unpoison se1 = se \<lparr> se_workbook := se_workbook se1 \<rparr>"
      "\<forall>k. materialized_at lib (rw_document (se_workbook (unpoison se1))) k = materialized_at lib w k"
      by (metis, simp add: unpoison_def)
    then have "published_as lib request w failed se (unpoison se1)"
      unfolding published_as_def using kept by (simp only: if_not_P) (simp add: unpoison_def)
    moreover have "session_revision (unpoison se1) = session_revision se1"
      by (simp add: session_revision_def unpoison_def)
    ultimately show ?thesis using out se1(3) by (simp add: unpoison_def)
  qed
qed

context commit_storage
begin

lemma durable_exact:
  assumes lib: "du_journal (wh_durable wh) = journal_of load commit reconcile" and start: "ready cid (se, s)"
    and engine: "du_engine (wh_durable wh) = book_engine (wh_prepare wh)"
    and written: "\<And>p. prepare_common_transaction (wh_prepare wh) se request None = Inr p \<Longrightarrow>
      read_prepared (du_codec (wh_durable wh)) (wh_write_prepared wh p) = Inr p"
    and own: "to_workbook_id (wq_resource_id request) = session_key se"
    and fresh_request: "q \<notin> pc_request_id ` set (log s (session_key se))"
    and mode: "wq_mode request = Apply"
    and valid: "validate_request (pe_checks (wh_prepare wh)) request = Inr ()"
    and common: "\<forall>op \<in> set (wq_ops request). touches (wl_column_index (pe_checks (wh_prepare wh)))
      (al_coords (pe_apply (wh_prepare wh))) op"
    and law: "new_sheet_law (al_engine (pe_apply (wh_prepare wh)))"
    and run: "run_ops (book_write_engine (wh_prepare wh)) (write_policy request) (rw_document (se_workbook se))
      (wq_ops request) = (w, ds, failed)"
    and assign: "\<forall>k m. materialized_at (wh_prepare wh) w k = Some m \<longrightarrow> assignable (wh_prepare wh) m"
    and answered: "execute_durable_write_on_resident wh cid fresh change_id q request (se, s) = ((se', s'), Inr response)"
  shows "published_as (wh_prepare wh) request w failed se se' \<and> se_poisoned se' = None
    \<and> (if wq_atomic request \<and> failed \<noteq> None then log s' = log s
       else \<exists>r. log s' (session_key se) = log s (session_key se) @ [r] \<and> pc_request_id r = q
         \<and> persisted_response (du_codec (wh_durable wh)) r = Inr response
         \<and> pc_state_revision r = session_revision se')"
proof -
  let ?lib = "wh_prepare wh" and ?cd = "du_codec (wh_durable wh)" and ?fp = "wh_print wh (se_base_sha256 se) None request"
  have inv: "inv s" and fresh: "cid \<notin> pc_commit_id ` set (log s (session_key se))" using start by (auto simp: ready_def)
  have all_common: "list_all (\<lambda>op. common_touched_cells (wl_column_index (pe_checks ?lib)) op \<noteq> None) (wq_ops request)"
    using common by (auto simp: list_all_iff touches_def)
  have prepare: "prepare_common_transaction ?lib se request None = Inr p"
    if "prepare_resident_transaction ?lib fresh se request (stage_identity request change_id) = Inr p" for p
    using that mode all_common by (auto simp: prepare_resident_transaction_def bind_res_Inr stage_identity_def
        invalid_request_def split: if_splits)
  have exact: "\<exists>effects d.
      (\<forall>k. materialized_after ?lib (rw_document (se_workbook se)) effects k = materialized_at ?lib w k)
    \<and> (\<forall>e \<in> set effects. ce_expected_before e = materialized_at ?lib (rw_document (se_workbook se)) (effect_key e)
        \<and> has_sheet (ce_sheet_name e) (rw_document (se_workbook se)) \<and> assignable ?lib (ce_after e))
    \<and> distinct (map effect_key effects)
    \<and> pt_publication p = (if wq_mode request = Apply \<and> \<not> (wq_atomic request \<and> failed \<noteq> None) \<and> effects \<noteq> []
        then PubCells effects else PubNone)
    \<and> pt_response p = canonical_response_from_prepared request (session_revision se)
        (predicted_resident_revision (se_workbook se) (pt_publication p \<noteq> PubNone))
        (report 0 (wq_ops request) ds failed) d (request_impact request) (map_option (\<lambda>_. length ds) failed)
        (length ds) None
    \<and> pt_base_sha256 p = se_base_sha256 se \<and> pt_consume_staged p = None \<and> pt_staged p = None"
    if "prepare_common_transaction ?lib se request None = Inr p" for p
  proof -
    have stage: "wq_mode request \<noteq> Stage" using mode by simp
    from prepare_common_exact [OF valid common law refl that run] obtain effects d where
      "(\<forall>k. materialized_after ?lib (rw_document (se_workbook se)) effects k = materialized_at ?lib w k)
      \<and> distinct (map effect_key effects)
      \<and> pt_publication p = (if wq_mode request = Apply \<and> \<not> (wq_atomic request \<and> failed \<noteq> None) \<and> effects \<noteq> []
          then PubCells effects else PubNone)
      \<and> pt_response p = canonical_response_from_prepared request (session_revision se)
          (predicted_resident_revision (se_workbook se) (pt_publication p \<noteq> PubNone))
          (report 0 (wq_ops request) ds failed) d (request_impact request) (map_option (\<lambda>_. length ds) failed)
          (length ds) None
      \<and> pt_base_sha256 p = se_base_sha256 se \<and> pt_consume_staged p = None \<and> pt_staged p = None"
      and each: "\<forall>e \<in> set effects. ce_expected_before e = materialized_at ?lib (rw_document (se_workbook se)) (effect_key e)
        \<and> has_sheet (ce_sheet_name e) (rw_document (se_workbook se)) \<and> Some (ce_after e) = materialized_at ?lib w (effect_key e)"
      using stage by blast
    moreover have "\<forall>e \<in> set effects. assignable ?lib (ce_after e)" using each assign by metis
    ultimately show ?thesis by blast
  qed
  have effectless: "without_effect request (pt_response p) \<longleftrightarrow> wq_atomic request \<and> failed \<noteq> None"
    if "prepare_common_transaction ?lib se request None = Inr p" for p
    using exact [OF that] apply_without_effect [OF mode, of _ _ _ _ _ "map_option (\<lambda>_. length ds) failed"]
    by (metis option.map_disc_iff)
  note run' = answered [unfolded execute_durable_write_on_resident_def]
  show ?thesis
  proof (cases rule: durable_write_cases [OF lib inv run', case_names unchanged mismatch found refused idle commits])
    case (found h)
    from found(6) own have out: "write_outcome_of wh (session_key se) q ?fp (log s (session_key se)) s = (s', Inr (Some response))"
      by auto
    obtain s1 y where rc: "reconcile s (session_key se) q ?fp = (s1, y)" by fastforce
    from out rc obtain outcome where y: "y = Inr (Committed outcome)"
      by (auto simp: write_outcome_of_def lib journal_of_def bind_res_Inr split: sum.splits reconcile_outcome.splits)
    from reconcile_committed [OF inv rc [unfolded y]] have "q \<in> pc_request_id ` set (log s (session_key se))"
      by (metis image_eqI nth_mem)
    with fresh_request show ?thesis by blast
  next
    case (idle p)
    note p = prepare [OF idle(7)]
    have "wq_atomic request \<and> failed \<noteq> None" using effectless [OF p] idle(8) by simp
    with idle show ?thesis by (simp add: published_as_def)
  next
    case (commits p h s1)
    note p = prepare [OF commits(7)]
    obtain effects d where facts:
      "\<forall>k. materialized_after ?lib (rw_document (se_workbook se)) effects k = materialized_at ?lib w k"
      "\<forall>e \<in> set effects. ce_expected_before e = materialized_at ?lib (rw_document (se_workbook se)) (effect_key e)
        \<and> has_sheet (ce_sheet_name e) (rw_document (se_workbook se)) \<and> assignable ?lib (ce_after e)"
      "distinct (map effect_key effects)"
      "pt_publication p = (if wq_mode request = Apply \<and> \<not> (wq_atomic request \<and> failed \<noteq> None) \<and> effects \<noteq> []
        then PubCells effects else PubNone)"
      "pt_response p = canonical_response_from_prepared request (session_revision se)
        (predicted_resident_revision (se_workbook se) (pt_publication p \<noteq> PubNone))
        (report 0 (wq_ops request) ds failed) d (request_impact request) (map_option (\<lambda>_. length ds) failed)
        (length ds) None"
      "pt_base_sha256 p = se_base_sha256 se" "pt_consume_staged p = None" "pt_staged p = None"
      using exact [OF p] by blast
    have kept: "\<not> (wq_atomic request \<and> failed \<noteq> None)" using commits(8) effectless [OF p] by simp
    have same: "p \<lparr> pt_consume_staged := None \<rparr> = p" using facts(7) by simp
    let ?r = "write_record wh cid q (session_key se) p ?fp h se"
    obtain s2 answer where ca: "commit_or_reconcile (journal_of load commit reconcile) ?r s1 = (s2, answer)" by fastforce
    from commits(9) ca obtain committed where ans: "answer = CommitKnown committed"
      and after: "after_write_commit wh (session_key se) ?r committed (se, s2) = ((se', s'), Inr response)"
      unfolding same by (auto simp: commit_prepared_write_def lib Let_def split: commit_answer.splits)
    have new: "log s2 (session_key se) = log s1 (session_key se) @ [?r]"
      using known_new_request [OF commits(3) ca [unfolded ans]] commits(4,5) by simp
    with known_new_identity [OF commits(3) ca [unfolded ans]] fresh commits(4)
    have "committed = cid" by (auto split: if_splits)
    moreover have read: "prepared_of ?cd ''resident commit lacks prepared transaction'' ?r = Inr p"
      by (simp add: prepared_of_def prepared_transaction_from_record_def effect_get_def List.map_filter_simps written [OF p])
    ultimately have pub: "publish_committed wh ?r p
        (poison ''committed transaction publication pending; recovery required on failure'' se) = (se', Inr response)" and s': "s' = s2"
      using after by (auto simp: after_write_commit_def Let_def split: sum.splits prod.splits)
    have fields: "pc_state_revision ?r = response_revision_after (pt_response p)"
      "pc_catalog_generation ?r = se_catalog_generation se"
      using facts(7,8) by (simp_all add: write_record_def Let_def)
    from committed_write_exact [OF mode commits(1) kept facts engine fields pub] new s' commits(4) kept read fields
    show ?thesis by (auto simp: persisted_response_def)
  qed simp_all
qed

end

lemma demo_assignable: "materialized_at demo_prepare w k = Some m \<Longrightarrow> assignable demo_prepare m"
  by (cases k) (auto simp: materialized_at_def demo_prepare_def assignable_def split: option.splits)

lemma demo_resident_fields:
  "se_resource_id demo_resident = ''session:s1''" "se_poisoned demo_resident = None"
  "rw_document (se_workbook demo_resident) = demo_book" "session_revision demo_resident = ''resident:e:0:0''"
proof -
  have "show_nat 0 = ''0''" by (simp add: str_eval char_of_def bit_Suc_0_iff)
  then show "session_revision demo_resident = ''resident:e:0:0''"
    by (simp add: session_revision_def state_revision_id_def revision_text_def demo_resident_def)
qed (simp_all add: demo_resident_def)

lemma demo_b2_accepted:
  "validate_request (pe_checks demo_prepare) demo_b2_request = Inr ()"
  "\<forall>op \<in> set (wq_ops demo_b2_request). touches (wl_column_index (pe_checks demo_prepare)) (al_coords (pe_apply demo_prepare)) op"
  "new_sheet_law (al_engine (pe_apply demo_prepare))"
proof -
  have lib: "pe_checks demo_prepare = demo_lib" "pe_apply demo_prepare = demo_apply" by (simp_all add: demo_prepare_def)
  then show "validate_request (pe_checks demo_prepare) demo_b2_request = Inr ()" using demo_b2_valid by simp
  show "\<forall>op \<in> set (wq_ops demo_b2_request). touches (wl_column_index (pe_checks demo_prepare)) (al_coords (pe_apply demo_prepare)) op"
    using demo_b2_touches by (simp add: lib) (simp add: demo_lib_def)
  show "new_sheet_law (al_engine (pe_apply demo_prepare))" using demo_new_sheet by (simp add: lib demo_apply_def)
qed


end
