(* ===== verification/SessionClaims.thy ===== *)
theory SessionClaims
  imports SessionExact
begin

text \<open>
  What the durable sessions of the program promise, over the native journal (\<open>ResidentJournal\<close>) with
  all the requests of a session: control transitions, writes and staged applies. Before the
  properties stands a run of the model: a session is recovered from an empty journal and B2 is written.
\<close>

section \<open>A durable write of one cell\<close>

text \<open>The first commit of a session in an empty journal.\<close>

definition first_line :: "'op codec \<Rightarrow> prepared_commit \<Rightarrow> 'op journal_codec" where
  "first_line cd r = run_line_codec cd \<lparr> je_sequence = 1, je_record = r, je_previous_hash = None,
     je_hash = ''sha256:'' @ pc_commit_id r \<rparr>"

lemma first_line_ok: "line_codec_ok (first_line cd r)"
  by (simp add: first_line_def run_line_codec_ok)

lemma commit_first_line:
  assumes "replay_bound cd [r] ''s1'' ''b'' = Inr st" and "pc_session_id r = ''s1''" and "pc_base_sha256 r = ''b''"
    and "pc_parent_commit_id r = None" and "pc_schema_version r = resident_commit_schema"
    and "sha256_hex cd (pc_commit_id r) = pc_commit_id r"
  shows "native_commit (first_line cd r) native_open r
    = (after_first, Inr \<lparr> dc_commit_id = pc_commit_id r, dc_sequence = 1 \<rparr>)"
proof -
  have "cd = jc_codec (first_line cd r)" by (simp add: first_line_def run_line_codec_def)
  moreover have "envelope_hash (first_line cd r) (Suc 0) r None = ''sha256:'' @ pc_commit_id r"
    using assms(6) by (simp add: envelope_hash_def first_line_def run_line_codec_def)
  moreover have "jc_write_line (first_line cd r) \<lparr> je_sequence = Suc 0, je_record = r, je_previous_hash = None,
     je_hash = ''sha256:'' @ pc_commit_id r \<rparr> = ''x''"
    by (simp add: first_line_def run_line_codec_def)
  ultimately show ?thesis using assms
    by (simp add: native_commit_def load_envelopes_with_boundary_def session_s1 native_open_def
        validate_private_file_def commit_new_def Let_def u64_checked_add_def write_envelope_def
        append_line_def sync_file_def sync_directory_def after_first_def)
qed

lemma first_line_empty: "native_log (first_line cd r) native_open ''s1'' = []" "native_load (first_line cd r) native_open ''s1'' = Inr []"
  by (simp_all add: native_log_def native_load_def load_envelopes_with_boundary_def session_s1 native_open_def validate_private_file_def)

lemma first_line_new: "native_reconcile (first_line cd r) native_open ''s1'' q fp = (native_open, Inr NotFound)"
  by (simp add: native_reconcile_def load_envelopes_with_boundary_def session_s1 native_open_def
      validate_private_file_def Let_def bt_get_def)

text \<open>The host: what it writes of the transaction is read back as the transaction.\<close>

definition demo_b2_tx :: "write_op prepared_transaction" where
  "demo_b2_tx = projr (prepare_common_transaction demo_prepare demo_resident demo_b2_request None)"

definition demo_b2_json :: json where
  "demo_b2_json = JObj [(''publication'', JObj [(''kind'', JStr ''cells'')]),
     (''response'', JObj [(''revision_before'', JStr ''resident:e:0:0''), (''revision_after'', JStr ''resident:e:1:1'')])]"

definition demo_b2_record :: prepared_commit where
  "demo_b2_record = run_record ''k1'' None ''q1'' Mutation [JObj [(''prepared_transaction'', demo_b2_json)]]
     None (Some ''k1'') (Some ''k1'') ''resident:e:1:1''"

definition demo_codec :: "write_op codec" where
  "demo_codec = plain_codec \<lparr> read_prepared := (\<lambda>_. Inr demo_b2_tx) \<rparr>"

abbreviation demo_journal :: "write_op journal_codec" where
  "demo_journal \<equiv> first_line demo_codec demo_b2_record"

text \<open>An engine that finds nothing to calculate.\<close>

definition demo_calc :: calc_lib where
  "demo_calc = \<lparr> cl_evaluate = (\<lambda>_ _. Inr (\<lparr> ev_cells_evaluated = 0, ev_cache_updates = [], ev_eval_errors = [],
       ev_error_formula_cells = 0, ev_formula_cells = 0 \<rparr>, Excel1900, 0)),
     cl_external = (\<lambda>_ _ _. Inl (Bail [])), cl_float = (\<lambda>_. []), cl_serial = (\<lambda>_ _. []), cl_set = (\<lambda>_ c. c),
     cl_data = (\<lambda>_. JNull), cl_print = (\<lambda>_ _ _ _. ''fp'') \<rparr>"

definition demo_host :: "native_journal write_host" where
  "demo_host = \<lparr> wh_durable = \<lparr> du_codec = demo_codec, du_engine = book_engine demo_prepare,
       du_journal = journal_of (native_load demo_journal) (native_commit demo_journal) (native_reconcile demo_journal),
       du_prints = \<lparr> fp_control = (\<lambda>_ _ _ _ _ _. ''fp''), fp_discard = (\<lambda>_ _. ''fp''), fp_restart = (\<lambda>_ _. ''fp'') \<rparr> \<rparr>,
     wh_prepare = demo_prepare, wh_calc = demo_calc, wh_print = (\<lambda>_ _ _. ''fp''), wh_write_prepared = (\<lambda>_. demo_b2_json) \<rparr>"

lemma demo_host_simps [simp]:
  "du_codec (wh_durable demo_host) = demo_codec" "du_engine (wh_durable demo_host) = book_engine demo_prepare"
  "du_journal (wh_durable demo_host)
    = journal_of (native_load demo_journal) (native_commit demo_journal) (native_reconcile demo_journal)"
  "wh_prepare demo_host = demo_prepare" "wh_print demo_host = (\<lambda>_ _ _. ''fp'')"
  "wh_write_prepared demo_host = (\<lambda>_. demo_b2_json)"
  by (simp_all add: demo_host_def)

lemma demo_tx: "prepare_common_transaction demo_prepare demo_resident demo_b2_request None = Inr demo_b2_tx"
proof -
  obtain tx where "prepare_common_transaction demo_prepare demo_resident demo_b2_request None = Inr tx"
    by (rule demo_prepared)
  then show ?thesis by (simp add: demo_b2_tx_def)
qed

lemma demo_revision_one: "show_nat 1 = ''1''"
  by (simp add: str_eval char_of_def bit_Suc_0_iff)

lemma demo_b2_exact:
  obtains w e d where "run_ops (book_write_engine demo_prepare) PolicyWarn demo_book [demo_b2] = (w, [JNull], None)"
    and "materialized_at demo_prepare w (''Data'', 2, 2) \<noteq> None"
    and "effect_key e = (''Data'', 2, 2)" and "pt_publication demo_b2_tx = PubCells [e]"
    and "\<forall>k. materialized_after demo_prepare demo_book [e] k = materialized_at demo_prepare w k"
    and "ce_expected_before e = materialized_at demo_prepare demo_book (effect_key e)
        \<and> has_sheet (ce_sheet_name e) demo_book \<and> assignable demo_prepare (ce_after e)"
    and "pt_response demo_b2_tx = canonical_response_from_prepared demo_b2_request ''resident:e:0:0''
        (predicted_resident_revision (se_workbook demo_resident) (pt_publication demo_b2_tx \<noteq> PubNone))
        (report 0 [demo_b2] [JNull] None) d (request_impact demo_b2_request) None 1 None"
    and "pt_base_sha256 demo_b2_tx = ''b''" and "pt_consume_staged demo_b2_tx = None" and "pt_staged demo_b2_tx = None"
proof -
  obtain w where run: "run_ops (book_write_engine demo_prepare) PolicyWarn demo_book [demo_b2] = (w, [JNull], None)"
    and b2: "cell_in w ''Data'' (2, 2) \<noteq> None"
    and frame: "\<And>n pos. (n, pos) \<noteq> (''Data'', (2, 2)) \<Longrightarrow> cell_in w n pos = cell_in demo_book n pos"
    by (rule demo_b2_run) blast
  have ran: "run_ops (book_write_engine demo_prepare) (write_policy demo_b2_request)
      (rw_document (se_workbook demo_resident)) (wq_ops demo_b2_request) = (w, [JNull], None)"
    using run by (simp add: demo_resident_fields)
  from prepare_common_exact [OF demo_b2_accepted refl demo_tx ran, unfolded demo_resident_fields] obtain effects d where facts:
    "\<forall>k. materialized_after demo_prepare demo_book effects k = materialized_at demo_prepare w k"
    "\<forall>e \<in> set effects. ce_expected_before e = materialized_at demo_prepare demo_book (effect_key e)
        \<and> ce_expected_before e \<noteq> Some (ce_after e)"
    "distinct (map effect_key effects)"
    "\<forall>e \<in> set effects. has_sheet (ce_sheet_name e) demo_book \<and> Some (ce_after e) = materialized_at demo_prepare w (effect_key e)"
    "pt_base_sha256 demo_b2_tx = se_base_sha256 demo_resident" "pt_consume_staged demo_b2_tx = None"
    "wq_mode demo_b2_request \<noteq> Stage \<longrightarrow> pt_staged demo_b2_tx = None"
    and answer: "pt_publication demo_b2_tx = (if wq_mode demo_b2_request = Apply
        \<and> \<not> (wq_atomic demo_b2_request \<and> (None :: (write_op \<times> err) option) \<noteq> None) \<and> effects \<noteq> [] then PubCells effects else PubNone)"
      "pt_response demo_b2_tx = canonical_response_from_prepared demo_b2_request ''resident:e:0:0''
        (predicted_resident_revision (se_workbook demo_resident) (pt_publication demo_b2_tx \<noteq> PubNone))
        (report 0 (wq_ops demo_b2_request) [JNull] None) d (request_impact demo_b2_request)
        (map_option (\<lambda>_. length [JNull]) (None :: (write_op \<times> err) option)) (length [JNull]) None"
    by blast
  have moved: "materialized_at demo_prepare w k = materialized_at demo_prepare demo_book k" if "k \<noteq> (''Data'', 2, 2)" for k
    using that frame by (cases k) (auto simp: materialized_at_def)
  have key: "effect_key e = (''Data'', 2, 2)" if "e \<in> set effects" for e
    using facts(2,4) that moved [of "effect_key e"] by metis
  have at: "materialized_at demo_prepare w (''Data'', 2, 2) \<noteq> None" using b2 by (simp add: materialized_at_def)
  have none: "materialized_at demo_prepare demo_book (''Data'', 2, 2) = None"
    by (simp add: materialized_at_def cell_in_def demo_data) (simp add: demo_sheet_def bt_get_def)
  have "effects \<noteq> []" using at none spec [OF facts(1), of "(''Data'', 2, 2)"] by (auto simp: materialized_after_def)
  then obtain e rest where e: "effects = e # rest" by (cases effects) auto
  with key facts(3) have "rest = []" by (cases rest) auto
  with e have one: "effects = [e]" by simp
  have "pt_publication demo_b2_tx = PubCells [e]" using answer(1) one by simp
  moreover have "assignable demo_prepare (ce_after e)"
    using facts(4) demo_assignable [of w "effect_key e" "ce_after e"] one by simp
  ultimately show thesis
    using run at key facts answer one by (intro that [of w e d]) (simp_all add: demo_resident_def)
qed

lemma demo_b2_response:
  "response_revision_before (pt_response demo_b2_tx) = ''resident:e:0:0''"
  "response_revision_after (pt_response demo_b2_tx) = ''resident:e:1:1''"
  "\<not> without_effect demo_b2_request (pt_response demo_b2_tx)"
proof -
  obtain e d where pub: "pt_publication demo_b2_tx = PubCells [e]"
    and r: "pt_response demo_b2_tx = canonical_response_from_prepared demo_b2_request ''resident:e:0:0''
        (predicted_resident_revision (se_workbook demo_resident) (pt_publication demo_b2_tx \<noteq> PubNone))
        (report 0 [demo_b2] [JNull] None) d (request_impact demo_b2_request) None 1 None"
    by (rule demo_b2_exact)
  have after: "predicted_resident_revision (se_workbook demo_resident) True = ''resident:e:1:1''"
    using demo_revision_one
    by (simp add: predicted_resident_revision_def revision_text_def demo_resident_def u64_wrapping_add_small del: One_nat_def)
  show "response_revision_before (pt_response demo_b2_tx) = ''resident:e:0:0''"
    "response_revision_after (pt_response demo_b2_tx) = ''resident:e:1:1''"
    "\<not> without_effect demo_b2_request (pt_response demo_b2_tx)"
    unfolding r pub using after by (simp_all add: canonical_response_from_prepared_def Let_def without_effect_def)
qed

lemma demo_b2_replay: "\<exists>st. replay_bound demo_codec [demo_b2_record] ''s1'' ''b'' = Inr st"
proof -
  obtain e where pub: "pt_publication demo_b2_tx = PubCells [e]" and key: "effect_key e = (''Data'', 2, 2)"
    and others: "pt_base_sha256 demo_b2_tx = ''b''" "pt_consume_staged demo_b2_tx = None" "pt_staged demo_b2_tx = None"
    by (rule demo_b2_exact)
  have at: "ce_sheet_name e = ''Data''" "ce_column e = 2" "ce_row e = 2" using key by (simp_all add: effect_key_def)
  have "\<exists>rs. accepts demo_codec ''s1'' ''b'' [demo_b2_record] rs"
    by (simp add: accepts_def demo_b2_record_def replay_start_def history_empty_def replay_step_def
      check_identity_def resident_commit_schema_def validate_portable_prepared_record_def prepared_transaction_from_record_def
      run_record_def publication_valid_def check_control_def check_file_export_def has_effect_def step_transition_def
      step_mutation_def mutation_publish_def publishes_document_def effect_get_def effect_pointer_def check_result_def
      ResidentHistory.check_revision_def parse_revision_def previous_revision_def is_document_change_def is_catalog_only_def
      calculation_flag_def outcome_validate_def List.map_filter_simps json_index_token_def demo_codec_def demo_b2_json_def
      pub others at demo_b2_response bt_eval str_eval u64_wrapping_add_small Let_def bt_contains_def del: bt_contains_iff)
  then show ?thesis using replay_bound_accepts by blast
qed

lemma demo_b2_facts [simp]:
  "pt_base_sha256 demo_b2_tx = ''b''" "pt_consume_staged demo_b2_tx = None" "pt_staged demo_b2_tx = None"
  "is_mutation demo_b2_tx"
proof -
  obtain e where "pt_publication demo_b2_tx = PubCells [e]"
    "pt_base_sha256 demo_b2_tx = ''b''" "pt_consume_staged demo_b2_tx = None" "pt_staged demo_b2_tx = None"
    by (rule demo_b2_exact)
  then show "pt_base_sha256 demo_b2_tx = ''b''" "pt_consume_staged demo_b2_tx = None" "pt_staged demo_b2_tx = None"
    "is_mutation demo_b2_tx" by (simp_all add: is_mutation_def)
qed

lemma demo_session [simp]: "session_key demo_resident = ''s1''" "ensure_usable demo_resident = Inr ()"
  "se_base_sha256 demo_resident = ''b''"
  by (simp_all add: session_key_def demo_resident_def run_key ensure_usable_def)

lemma demo_request_key [simp]: "to_workbook_id (wq_resource_id demo_b2_request) = ''s1''"
  by (simp add: run_key)

lemma demo_b2_written:
  "write_record demo_host ''k1'' ''q1'' ''s1'' demo_b2_tx ''fp'' (history_empty ''s1'' ''b'') demo_resident = demo_b2_record"
  by (simp add: write_record_def Let_def write_transition_def demo_b2_record_def run_record_def history_empty_def
      resident_commit_schema_def demo_b2_response bt_eval is_mutation_def [symmetric])
    (simp add: demo_resident_def)

lemma demo_b2_committed:
  "native_commit demo_journal native_open demo_b2_record = (after_first, Inr \<lparr> dc_commit_id = ''k1'', dc_sequence = 1 \<rparr>)"
proof -
  obtain st where replay: "replay_bound demo_codec [demo_b2_record] ''s1'' ''b'' = Inr st" using demo_b2_replay by blast
  have "pc_commit_id demo_b2_record = ''k1''" by (simp add: demo_b2_record_def run_record_def)
  with commit_first_line [OF replay] show ?thesis
    by (simp add: demo_b2_record_def run_record_def resident_commit_schema_def demo_codec_def plain_codec_def)
qed

lemma demo_b2_prepared:
  "prepare_resident_transaction demo_prepare ''f'' demo_resident demo_b2_request (stage_identity demo_b2_request ''c'') = Inr demo_b2_tx"
proof -
  have all_common: "list_all (\<lambda>op. common_touched_cells (wl_column_index (pe_checks demo_prepare)) op \<noteq> None)
      (wq_ops demo_b2_request)"
    using demo_b2_accepted(2) by (auto simp: list_all_iff touches_def)
  then show ?thesis
    using demo_tx demo_b2_accepted(1)
    by (simp add: prepare_resident_transaction_def stage_identity_def demo_resident_fields)
qed

lemma demo_b2_durable:
  obtains se where "execute_durable_write_on_resident demo_host ''k1'' ''f'' ''c'' ''q1'' demo_b2_request (demo_resident, native_open)
      = ((se, after_first), Inr (pt_response demo_b2_tx))"
    and "se_poisoned se = None" and "session_revision se = ''resident:e:1:1''" and "session_key se = ''s1''"
proof -
  obtain w e d where exact: "\<forall>k. materialized_after demo_prepare demo_book [e] k = materialized_at demo_prepare w k"
    "ce_expected_before e = materialized_at demo_prepare demo_book (effect_key e)
        \<and> has_sheet (ce_sheet_name e) demo_book \<and> assignable demo_prepare (ce_after e)"
    "pt_publication demo_b2_tx = PubCells [e]"
    "pt_response demo_b2_tx = canonical_response_from_prepared demo_b2_request ''resident:e:0:0''
        (predicted_resident_revision (se_workbook demo_resident) (pt_publication demo_b2_tx \<noteq> PubNone))
        (report 0 [demo_b2] [JNull] None) d (request_impact demo_b2_request) None 1 None"
    by (rule demo_b2_exact)
  let ?pending = "poison ''committed transaction publication pending; recovery required on failure'' demo_resident"
  obtain se r where pub: "publish_committed demo_host demo_b2_record demo_b2_tx ?pending = (se, r)" by fastforce
  have fields: "pc_state_revision demo_b2_record = response_revision_after (pt_response demo_b2_tx)"
    "pc_catalog_generation demo_b2_record = se_catalog_generation demo_resident"
    by (simp_all add: demo_b2_record_def run_record_def demo_b2_response) (simp add: demo_resident_def)
  have "published_as demo_prepare demo_b2_request w None demo_resident se \<and> se_poisoned se = None
      \<and> r = Inr (pt_response demo_b2_tx) \<and> session_revision se = response_revision_after (pt_response demo_b2_tx)"
    by (rule committed_write_exact [OF _ demo_resident_fields(2) _ _ _ _ _ _ _ _ _ _ fields pub, of demo_b2_request None demo_prepare "[e]" w "[JNull]" d None])
      (use exact in \<open>simp_all add: demo_resident_fields\<close>)
  then have out: "se_poisoned se = None" "r = Inr (pt_response demo_b2_tx)" "session_revision se = ''resident:e:1:1''"
    by (simp_all add: demo_b2_response)
  let ?journal = "journal_of (native_load demo_journal) (native_commit demo_journal) (native_reconcile demo_journal)"
  have load: "jo_load ?journal native_open ''s1'' = Inr []"
    "replay_bound demo_codec [] ''s1'' ''b'' = Inr (history_empty ''s1'' ''b'')"
    by (simp_all add: journal_of_def first_line_empty replay_bound_def)
  have none: "write_outcome_of demo_host ''s1'' ''q1'' ''fp'' [] native_open = (native_open, Inr None)"
    by (simp add: write_outcome_of_def Let_def journal_of_def first_line_new)
  have same: "demo_b2_tx \<lparr> pt_consume_staged := None \<rparr> = demo_b2_tx" by simp
  have id: "pc_commit_id demo_b2_record = ''k1''" by (simp add: demo_b2_record_def run_record_def)
  have commit: "commit_or_reconcile ?journal demo_b2_record native_open = (after_first, CommitKnown ''k1'')"
    by (simp add: commit_or_reconcile_def journal_of_def demo_b2_committed)
  have read: "prepared_of demo_codec ''resident commit lacks prepared transaction'' demo_b2_record = Inr demo_b2_tx"
    by (simp add: prepared_of_def prepared_transaction_from_record_def effect_get_def List.map_filter_simps
        demo_b2_record_def run_record_def demo_codec_def)
  have "execute_durable_write_on_resident demo_host ''k1'' ''f'' ''c'' ''q1'' demo_b2_request (demo_resident, native_open)
      = ((se, after_first), r)"
    by (simp add: execute_durable_write_on_resident_def execute_durable_prepared_on_resident_def Let_def load none run_key
        demo_b2_prepared demo_b2_response commit_prepared_write_def same demo_b2_written commit after_write_commit_def
        id read pub split del: if_split)
  with out publish_committed_state(1) [OF pub] show thesis by (intro that) auto
qed

text \<open>The session from its recovery to the written cell.\<close>

lemma fresh_recovered:
  assumes "du_journal lib = journal_of (native_load (first_line cd r)) (native_commit (first_line cd r)) (native_reconcile (first_line cd r))"
    and "du_engine lib = book_engine demo_prepare" and "sha256_hex (du_codec lib) ''b'' = ''b''"
  shows "recover_durable_resident_session lib ''e'' ''r0'' ''q0'' ''session:s1'' ''b'' native_open
     = (native_open, Inr demo_resident)"
proof -
  have opened: "session_from_bytes (du_codec lib) (book_engine demo_prepare) ''e'' ''session:s1'' ''b'' = Inr demo_resident"
    by (simp add: session_from_bytes_def run_key workbook_from_bytes_def book_engine_def demo_resident_def demo_prepare_def
        assms(3) str_eval)
  have load: "jo_load (du_journal lib) native_open ''s1'' = Inr []"
    by (simp add: assms(1) journal_of_def first_line_empty)
  show ?thesis
    by (simp only: recover_durable_resident_session_def run_key load bind_res_simps)
      (simp add: run_key recover_from_records_def opened assms(2,3) replay_bound_def finish_recovery_def initial_workbook_def
        first_prepared_def active_ancestry_def history_empty_def active_walk.simps return_step_def demo_resident_def)
qed

lemma fresh_reached:
  assumes "du_journal (wh_durable wh)
      = journal_of (native_load (first_line cd r)) (native_commit (first_line cd r)) (native_reconcile (first_line cd r))"
    and "du_engine (wh_durable wh) = book_engine demo_prepare" and "sha256_hex (du_codec (wh_durable wh)) ''b'' = ''b''"
  shows "session_reaches (native_log (first_line cd r)) wh native_open (demo_resident, native_open)"
  by (rule session_reaches.recovered [OF fresh_recovered [OF assms]])
    (simp_all add: run_key first_line_empty discarded_log_def replay_bound_def history_empty_def)

lemma demo_logged: "native_log demo_journal after_first ''s1'' = [demo_b2_record]"
proof -
  have "pc_session_id demo_b2_record = ''s1''" by (simp add: demo_b2_record_def run_record_def)
  with native.commit_log [OF first_line_ok demo_b2_committed] native.commit_ok [OF first_line_ok demo_b2_committed]
  show ?thesis by (auto simp: first_line_empty)
qed

lemma demo_reached:
  "session_reaches (native_log demo_journal) demo_host native_open (demo_resident, native_open)"
  by (rule fresh_reached) (simp_all add: demo_codec_def plain_codec_def)

lemma demo_b2_reached:
  obtains se where "session_reaches (native_log demo_journal) demo_host native_open (se, after_first)"
    and "se_poisoned se = None" and "session_revision se = ''resident:e:1:1''" and "session_key se = ''s1''"
proof -
  obtain se where run: "execute_durable_write_on_resident demo_host ''k1'' ''f'' ''c'' ''q1'' demo_b2_request (demo_resident, native_open)
      = ((se, after_first), Inr (pt_response demo_b2_tx))" and facts: "se_poisoned se = None" "session_revision se = ''resident:e:1:1''" "session_key se = ''s1''"
    by (rule demo_b2_durable)
  have "session_reaches (native_log demo_journal) demo_host native_open
      (fst (session_request_step demo_host ''k1'' ''f'' ''c'' ''q1'' [] (Write demo_b2_request) (demo_resident, native_open)))"
    by (rule session_reaches.requested [OF demo_reached]) (simp add: first_line_empty)
  then have "session_reaches (native_log demo_journal) demo_host native_open (se, after_first)"
    by (simp add: without_result_def step_simps run)
  then show thesis using facts by (intro that) auto
qed

section \<open>A durable calculation\<close>

definition calc_coverage :: evaluation_coverage where
  "calc_coverage = \<lparr> ec_formula_cells = 0, ec_evaluated_formula_cells = 0, ec_unsupported_formula_cells = 0,
     ec_error_formula_cells = 0, ec_source = Formualizer, ec_freshness = CurrentRevision, ec_revision_id = ''resident:e:0:1'' \<rparr>"

definition calc_run_codec :: "write_op codec" where
  "calc_run_codec = plain_codec \<lparr> read_coverage := (\<lambda>_. Inr calc_coverage) \<rparr>"

definition calc_run_record :: prepared_commit where
  "calc_run_record = run_record ''k1'' None ''q1'' CalculationPublish
     [JObj [(''timeout_ms'', JNull)], JObj [(''calculation_proof'', JObj [(''evaluation_duration_ms'', JInt 0),
       (''eval_errors'', JArr []), (''cells_evaluated'', JInt 0), (''coverage'', JNull)])]] None None None ''resident:e:0:1''"

abbreviation calc_journal :: "write_op journal_codec" where
  "calc_journal \<equiv> first_line calc_run_codec calc_run_record"

definition calc_host :: "native_journal write_host" where
  "calc_host = demo_host \<lparr> wh_durable := (wh_durable demo_host) \<lparr> du_codec := calc_run_codec,
     du_journal := journal_of (native_load calc_journal) (native_commit calc_journal) (native_reconcile calc_journal) \<rparr> \<rparr>"

lemma calc_host_simps [simp]:
  "du_codec (wh_durable calc_host) = calc_run_codec"
  "du_journal (wh_durable calc_host)
    = journal_of (native_load calc_journal) (native_commit calc_journal) (native_reconcile calc_journal)"
  "wh_calc calc_host = demo_calc" "du_engine (wh_durable calc_host) = book_engine demo_prepare"
  by (simp_all add: calc_host_def) (simp_all add: demo_host_def)

lemma calc_committed:
  "native_commit calc_journal native_open calc_run_record = (after_first, Inr \<lparr> dc_commit_id = ''k1'', dc_sequence = 1 \<rparr>)"
proof -
  have "\<exists>rs. accepts calc_run_codec ''s1'' ''b'' [calc_run_record] rs"
    by (simp add: accepts_def calc_run_record_def replay_start_def history_empty_def replay_step_def run_unfold
      step_calculation_publish_def ResidentHistory.check_revision_def calc_run_codec_def calc_coverage_def plain_codec_def
      bt_eval str_eval u64_wrapping_add_small Let_def bt_contains_def del: bt_contains_iff)
  then obtain st where "replay_bound calc_run_codec [calc_run_record] ''s1'' ''b'' = Inr st"
    using replay_bound_accepts by blast
  from commit_first_line [OF this] show ?thesis
    by (simp add: calc_run_record_def run_record_def resident_commit_schema_def calc_run_codec_def plain_codec_def)
qed

lemma calc_reached:
  "session_reaches (native_log calc_journal) calc_host native_open (demo_resident, native_open)"
  by (rule fresh_reached) (simp_all add: calc_run_codec_def plain_codec_def)

lemma calc_revision: "next_state_revision (se_workbook demo_resident) = ''resident:e:0:1''"
proof -
  have "show_nat 0 = ''0''" by (simp add: str_eval char_of_def bit_Suc_0_iff)
  with demo_revision_one show ?thesis
    by (simp add: next_state_revision_def revision_text_def demo_resident_def u64_wrapping_add_small del: One_nat_def)
qed

lemma calc_durable:
  obtains se where "recalculate_durable_with_backend demo_calc (wh_durable calc_host) ''k1'' ''q1'' None None
      (demo_resident, native_open) = ((se, after_first), Inr calc_coverage)"
proof -
  let ?lib = "wh_durable calc_host" and ?h = "history_empty ''s1'' ''b''"
  have journal: "jo_load (journal_of (native_load calc_journal) c r) native_open ''s1'' = Inr []" for c r
    by (simp add: journal_of_def first_line_empty)
  have history: "load_history ?lib demo_resident native_open = Inr ([], ?h)"
    by (simp add: load_history_def journal replay_bound_def)
  have matches: "history_matches ?h demo_resident"
    by (simp add: history_matches_def history_empty_def demo_resident_def)
  have none: "reconciled_record_by_request_id ?lib ''q1'' (demo_resident, native_open) = ((demo_resident, native_open), Inr None)"
    by (simp add: reconciled_record_by_request_id_def history matches)
  have evaluated: "prepare_any_calculation demo_calc (book_engine demo_prepare) None None wb
      = Inr (\<lparr> ev_cells_evaluated = 0, ev_cache_updates = [], ev_eval_errors = [], ev_error_formula_cells = 0,
          ev_formula_cells = 0 \<rparr>, Excel1900, 0, None)" for wb
    by (simp add: prepare_any_calculation_def demo_calc_def)
  have coverage: "prepared_coverage \<lparr> ev_cells_evaluated = 0, ev_cache_updates = [], ev_eval_errors = [],
      ev_error_formula_cells = 0, ev_formula_cells = 0 \<rparr> None ''resident:e:0:1'' = calc_coverage"
    by (simp add: prepared_coverage_def engine_coverage_def calc_coverage_def)
  have shown: "calculation_proof demo_calc calc_run_codec None ''resident:e:0:0'' ''resident:e:0:1''
      \<lparr> ev_cells_evaluated = 0, ev_cache_updates = [], ev_eval_errors = [], ev_error_formula_cells = 0, ev_formula_cells = 0 \<rparr>
      0 None calc_coverage = JObj [(''evaluation_duration_ms'', JInt 0), (''eval_errors'', JArr []),
        (''cells_evaluated'', JInt 0), (''coverage'', JNull)]"
    by (simp add: calculation_proof_def calc_run_codec_def plain_codec_def)
  have r: "calculation_record demo_calc ''k1'' ''q1'' None None (JObj [(''evaluation_duration_ms'', JInt 0),
      (''eval_errors'', JArr []), (''cells_evaluated'', JInt 0), (''coverage'', JNull)]) ''resident:e:0:1'' ?h demo_resident
      = calc_run_record"
    by (simp add: calculation_record_def calc_run_record_def run_record_def history_empty_def resident_commit_schema_def
        backend_name_def json_timeout_def demo_calc_def)
  have id: "pc_commit_id calc_run_record = ''k1''" by (simp add: calc_run_record_def run_record_def)
  have committed: "commit_or_reconcile (journal_of (native_load calc_journal) (native_commit calc_journal)
      (native_reconcile calc_journal)) calc_run_record native_open = (after_first, CommitKnown ''k1'')"
    by (simp add: commit_or_reconcile_def journal_of_def calc_committed)
  have publish: "\<exists>wb' x. publish_prepared_calculation demo_calc \<lparr> ev_cells_evaluated = 0, ev_cache_updates = [],
      ev_eval_errors = [], ev_error_formula_cells = 0, ev_formula_cells = 0 \<rparr> Excel1900 calc_coverage wb = (wb', Inr x)" for wb
    by (simp add: publish_prepared_calculation_def publish_formula_caches_def apply_formula_cache_updates_def step_simps)
  obtain wb' x where wb': "publish_prepared_calculation demo_calc \<lparr> ev_cells_evaluated = 0, ev_cache_updates = [],
      ev_eval_errors = [], ev_error_formula_cells = 0, ev_formula_cells = 0 \<rparr> Excel1900 calc_coverage
      (se_workbook (poison ''committed calculation publication pending; recovery required on failure'' demo_resident)) = (wb', Inr x)"
    using publish by blast
  have "commit_calculation demo_calc ?lib ''k1'' ''q1'' None None (demo_resident, native_open)
      = ((unpoison ((poison ''committed calculation publication pending; recovery required on failure'' demo_resident)
          \<lparr> se_workbook := wb' \<rparr>), after_first), Inr calc_coverage)"
    by (simp add: commit_calculation_def evaluated history matches calc_revision coverage shown r committed
        after_calculation_commit_def id wb' demo_resident_fields Let_def)
  then show thesis
    by (intro that) (simp add: recalculate_durable_with_backend_def usable_step_def step_simps none)
qed

section \<open>Properties\<close>

text \<open>C10: a session never runs ahead of its journal nor falls behind it. After a recovery and any
  requests (writes, staged applications, undo, redo, checkout, branches, checkpoints, revocations,
  discards of staged changes), whatever the journal answered, write failures and unknown outcomes
  included, a session that still serves requests has the state revision and the catalog generation of
  the last record of its journal.\<close>

theorem session_stays_in_step:
  assumes "line_codec_ok jc"
    and "du_journal (wh_durable wh) = journal_of (native_load jc) (native_commit jc) (native_reconcile jc)"
    and "session_reaches (native_log jc) wh nj0 (se, nj)" and "se_poisoned se = None"
  shows "option_all (\<lambda>r. pc_state_revision r = session_revision se
      \<and> pc_catalog_generation r = se_catalog_generation se) (last_opt (native_log jc nj (session_key se)))"
  using native.session_settled [OF assms(3,1,2)] assms(4)
  by (simp add: native.settled_def in_agreement_def in_step_def)

lemma session_stays_in_step_witness:
  "\<exists>se. session_reaches (native_log demo_journal) demo_host native_open (se, after_first) \<and> se_poisoned se = None
    \<and> option_all (\<lambda>r. pc_state_revision r = session_revision se \<and> pc_catalog_generation r = se_catalog_generation se)
      (last_opt [demo_b2_record])"
proof -
  obtain se where reached: "session_reaches (native_log demo_journal) demo_host native_open (se, after_first)"
    and usable: "se_poisoned se = None" and key: "session_key se = ''s1''" by (rule demo_b2_reached)
  from session_stays_in_step [OF first_line_ok demo_host_simps(3) reached usable] reached usable show ?thesis
    unfolding key demo_logged by blast
qed

text \<open>C13: a request is served at most once. When the journal of a session that was reached has a record of
  the request identity, serving it again, with the same input or another, leaves the session and every
  log as they are; a write must name the session.\<close>

theorem session_retry_changes_nothing:
  assumes "line_codec_ok jc"
    and "du_journal (wh_durable wh) = journal_of (native_load jc) (native_commit jc) (native_reconcile jc)"
    and "session_reaches (native_log jc) wh nj0 (se, nj)" and "own_request se req"
    and "q \<in> pc_request_id ` set (native_log jc nj (session_key se))"
    and "session_request_step wh cid fresh change_id q base req (se, nj) = ((se', nj'), r)"
  shows "se' = se \<and> native_log jc nj' = native_log jc nj"
  by (rule native.session_again [OF assms(2) native.session_settled [OF assms(3,1,2)] assms(4-6)])

lemma session_retry_changes_nothing_witness:
  "\<exists>se nj' r. session_request_step demo_host ''k2'' ''f'' ''c'' ''q1'' [] (Write demo_b2_request) (se, after_first)
      = ((se, nj'), r) \<and> session_revision se = ''resident:e:1:1''"
proof -
  obtain se where reached: "session_reaches (native_log demo_journal) demo_host native_open (se, after_first)"
    and revision: "session_revision se = ''resident:e:1:1''" and key: "session_key se = ''s1''" by (rule demo_b2_reached)
  have own: "own_request se (Write demo_b2_request)" by (simp add: own_request_def key run_key)
  have known: "''q1'' \<in> pc_request_id ` set (native_log demo_journal after_first (session_key se))"
    unfolding key demo_logged by (simp add: demo_b2_record_def run_record_def)
  obtain se' nj' r where run: "session_request_step demo_host ''k2'' ''f'' ''c'' ''q1'' [] (Write demo_b2_request) (se, after_first)
      = ((se', nj'), r)" by (metis prod.exhaust)
  from session_retry_changes_nothing [OF first_line_ok demo_host_simps(3) reached own known run] run revision
  show ?thesis by blast
qed

text \<open>C12: an acknowledged write is durable. When a write, fresh or of a staged change, is answered and the
  answer says that it took effect, the journal of the session holds a record of the request with
  exactly this answer, and the session can still be used.\<close>

theorem acknowledged_write_is_logged:
  assumes "line_codec_ok jc"
    and "du_journal (wh_durable wh) = journal_of (native_load jc) (native_commit jc) (native_reconcile jc)"
    and "session_reaches (native_log jc) wh nj0 (se, nj)"
    and "cid \<notin> pc_commit_id ` set (native_log jc nj (session_key se))"
    and "to_workbook_id (wq_resource_id request) = session_key se"
    and "execute_durable_prepared_on_resident wh cid fresh change_id q request consume (se, nj) = ((se', nj'), Inr response)"
    and "\<not> without_effect request response"
  shows "(\<exists>r \<in> set (native_log jc nj' (session_key se)). pc_request_id r = q
      \<and> persisted_response (du_codec (wh_durable wh)) r = Inr response) \<and> se_poisoned se' = None"
  using native.write_acknowledged [OF assms(2) native.settled_ready [OF native.session_settled [OF assms(3,1,2)] assms(4)]
      assms(5-7)] by blast

lemma acknowledged_write_is_logged_witness:
  "pc_request_id demo_b2_record = ''q1'' \<and> persisted_response demo_codec demo_b2_record = Inr (pt_response demo_b2_tx)"
proof -
  obtain se where run: "execute_durable_prepared_on_resident demo_host ''k1'' ''f'' ''c'' ''q1'' demo_b2_request None
      (demo_resident, native_open) = ((se, after_first), Inr (pt_response demo_b2_tx))"
    by (rule demo_b2_durable) (simp add: execute_durable_write_on_resident_def)
  have fresh: "''k1'' \<notin> pc_commit_id ` set (native_log demo_journal native_open (session_key demo_resident))"
    by (simp add: first_line_empty)
  have own: "to_workbook_id (wq_resource_id demo_b2_request) = session_key demo_resident"
    using demo_request_key by simp
  from acknowledged_write_is_logged [OF first_line_ok demo_host_simps(3) demo_reached fresh own run demo_b2_response(3)]
  show ?thesis by (simp add: demo_logged)
qed



text \<open>C15: a calculation is published with its proof. When a new request to calculate is answered, the
  answer covers the revision the session now has, the session is stamped as calculated, and its journal
  has one more record, of this request at this revision, with the answer. The document keeps every
  formula, every style and every cell that is not a formula: only results of formulas change.\<close>

theorem durable_calculation_exact:
  assumes "line_codec_ok jc"
    and "du_journal (wh_durable wh) = journal_of (native_load jc) (native_commit jc) (native_reconcile jc)"
    and "session_reaches (native_log jc) wh nj0 (se, nj)"
    and "cid \<notin> pc_commit_id ` set (native_log jc nj (session_key se))"
    and "q \<notin> pc_request_id ` set (native_log jc nj (session_key se))"
    and "cache_law (wh_calc wh)"
    and "recalculate_durable_with_backend (wh_calc wh) (wh_durable wh) cid q timeout_ms backend (se, nj)
      = ((se', nj'), Inr coverage)"
  shows "ec_revision_id coverage = session_revision se' \<and> se_poisoned se' = None
    \<and> rw_calculation (se_workbook se') = StampCurrent (rw_document_revision (se_workbook se)) coverage
    \<and> only_results (rw_document (se_workbook se)) (rw_document (se_workbook se'))
    \<and> (\<exists>r proof. native_log jc nj' (session_key se) = native_log jc nj (session_key se) @ [r] \<and> pc_request_id r = q
        \<and> pc_transition r = CalculationPublish \<and> pc_state_revision r = session_revision se'
        \<and> effect_get r ''calculation_proof'' = Some proof
        \<and> json_get proof ''coverage'' = Some (write_coverage (du_codec (wh_durable wh)) coverage))"
  by (rule native.calculation_exact [OF assms(2) native.settled_ready [OF native.session_settled [OF assms(3,1,2)] assms(4)]
      assms(5-7)])

lemma durable_calculation_exact_witness:
  "\<exists>se. recalculate_durable_with_backend demo_calc (wh_durable calc_host) ''k1'' ''q1'' None None (demo_resident, native_open)
      = ((se, after_first), Inr calc_coverage) \<and> session_revision se = ''resident:e:0:1''
    \<and> only_results demo_book (rw_document (se_workbook se))"
proof -
  obtain se where run: "recalculate_durable_with_backend demo_calc (wh_durable calc_host) ''k1'' ''q1'' None None
      (demo_resident, native_open) = ((se, after_first), Inr calc_coverage)" by (rule calc_durable)
  have fresh: "''k1'' \<notin> pc_commit_id ` set (native_log calc_journal native_open (session_key demo_resident))"
    "''q1'' \<notin> pc_request_id ` set (native_log calc_journal native_open (session_key demo_resident))"
    by (simp_all add: first_line_empty)
  have law: "cache_law (wh_calc calc_host)" by (simp add: cache_law_def demo_calc_def)
  from durable_calculation_exact [OF first_line_ok calc_host_simps(2) calc_reached fresh law run [folded calc_host_simps(3)]] run
  show ?thesis by (simp add: calc_coverage_def demo_resident_fields)
qed

end
