(* ===== verification/Spec2Isabelle.thy ===== *)
theory Spec2Isabelle
  imports Addresses Binlog SessionStore ResidentJournal Csv WriteTxn FormulaPattern StructureBatch FormulaReplace DiffReaders SessionClaims
begin

text \<open>
  A model of the native core of \<open>agent-spreadsheet\<close> (\<open>src/crates/agent-spreadsheet/src\<close>), the server
  that lets an agent read and change spreadsheets under revisions, histories and staged changes.

  \<^bold>\<open>How the program is put together.\<close> A workbook is opened as a fork (a working copy on disk,
  \<open>fork.rs\<close>) or as a resident session (a workbook in memory with a journal of its commits,
  \<open>core/resident_storage.rs\<close>); older sessions keep an event log (\<open>core/events.rs\<close>,
  \<open>core/binlog.rs\<close>, \<open>core/session_store.rs\<close>). Changes go through one transaction
  (\<open>canonical_write.rs\<close>), which validates a request, runs its operations on a candidate, compares
  it with the original and commits it to a storage under the expected revision. The answer is a
  canonical outcome (\<open>canonical_outcome.rs\<close>) bound to the request.

  \<^bold>\<open>Theories and what they model.\<close>
  \<^item> \<open>Prelude\<close>: errors (\<open>Bail\<close> carries the text of \<open>anyhow::bail!\<close>, without the interpolated
    values), the result monad, 32 and 64 bit arithmetic with the wrap-around, saturation and
    checks written out over \<open>nat\<close>, text functions of the standard library.
  \<^item> \<open>BTree\<close>: ordered maps as sorted association lists. \<open>Json\<close>: JSON values, the canonical text
    of \<open>core/events.rs\<close> and the pruning of \<open>response_prune.rs\<close>.
  \<^item> \<open>Addresses\<close>: cell addresses, ranges and short workbook ids (\<open>utils.rs\<close>, \<open>diff/address.rs\<close>,
    \<open>core/write_planner.rs\<close>, the validators of \<open>canonical_write.rs\<close>).
  \<^item> \<open>ResidentTypes\<close>, \<open>CanonicalOutcome\<close>: the data of a commit and the validation of an outcome.
  \<^item> \<open>Ancestry\<close>, \<open>ResidentHistory\<close>: the parent graph of commits and the replay of a journal with
    undo, redo, checkout, branches, checkpoints and staged changes.
  \<^item> \<open>ResidentJournal\<close>: the journals a commit is appended to, in memory and in a file with a torn
    last line, as interpretations of one storage contract.
  \<^item> \<open>Events\<close>, \<open>Binlog\<close>, \<open>SessionStore\<close>: the older event log, its snapshots and branches and the
    session store over them.
  \<^item> \<open>Csv\<close>: the readers and writers of delimited text.
  \<^item> \<open>Steps\<close>, \<open>Forks\<close>: operations that can fail half way, files, and the forks with their
    checkpoints, staged changes, limits and registry.
  \<^item> \<open>WriteOps\<close>, \<open>WriteValidate\<close>, \<open>WriteTxn\<close>: the operations of a write, their validation, and the
    transaction with its two storages as interpretations of one contract.
  \<^item> \<open>RefShift\<close>, \<open>Diagnostics\<close>, \<open>FormulaRewrite\<close>, \<open>FormulaPattern\<close>: what the operations of
    \<open>tools/fork.rs\<close> do to references and formulas (moving a reference when rows or columns are inserted
    or deleted, its preview in \<open>tools/structure_impact.rs\<close>, renaming a sheet, shifting a formula copied
    to another cell with \<open>formula/pattern.rs\<close>) and the report of the formulas that do not parse
    (\<open>model/diagnostics.rs\<close>).
  \<^item> \<open>StructureOps\<close>, \<open>StructureBatch\<close>, \<open>TransformOps\<close>, \<open>FormulaReplace\<close>: the operations of
    \<open>tools/fork.rs\<close> on a workbook: rows, columns, merged cells, sheets and blocks of cells; clearing,
    filling, replacing and writing cells; the search and replace in formulas. \<open>NameOps\<close>: defined
    names (\<open>core/session.rs\<close>). \<open>WriteApply\<close>:
    \<open>apply_write_op_to_workbook\<close> of \<open>canonical_write.rs\<close>, which sends an operation of a request to them.
  \<^item> \<open>WorkbookDiff\<close>, \<open>DiffReaders\<close>: the comparison of two workbooks (\<open>diff/\<close>) and its readers.
  \<^item> \<open>ResidentDurable\<close>: a resident session, its recovery from the journal and its control operations
    (undo, redo, checkout, branches, checkpoints, receipts, revocations) in \<open>canonical_write.rs\<close> and
    \<open>recalc/resident.rs\<close>. \<open>ResidentPrepare\<close>, \<open>PrepareExact\<close>: the preparation of a write, on a shadow
    workbook with the touched cells or on the bytes of the workbook. \<open>SessionWrites\<close>,
    \<open>SessionExact\<close>, \<open>SessionClaims\<close>: publishing a prepared write, in memory or after its record is in
    the journal, staged changes, and what a client of a session can rely on. \<open>SessionRecalc\<close>:
    calculating the formulas of a session.

  \<^bold>\<open>State and operations.\<close> A struct is a record, an enum a datatype. A function with \<open>&mut self\<close>
  that can fail is a function from a state to a state and a result, so that what an error leaves
  behind is visible (theory \<open>Steps\<close>). Locks make the operations of a registry or a session atomic,
  so a run of the program is a sequence of operations; reachable states are inductive predicates.
  Random identifiers, clocks, SHA-256, the file system's path resolution, \<open>serde\<close> and the
  spreadsheet engine are arguments.

  \<^bold>\<open>Lemma groups.\<close> Each component has an invariant kept by every operation, the behaviour of its
  operations including their errors, and a specification: the abstract log and map of a journal,
  the ancestor relation of a history, the contract \<open>write_contract\<close> of a write. The locale
  \<open>commit_storage\<close> is the contract of a journal; the lemmas of the durable operations are proved in it
  and used at its interpretation \<open>native\<close>, the journal in a file. Cell operations are described by
  the effect on one cell (\<open>op_effect\<close>, \<open>cell_in\<close>) and a frame (\<open>frame_of\<close>); the chain from a request
  to the cells of a session runs through \<open>validate_request_bounds\<close>, \<open>prepare_common_exact\<close>,
  \<open>publish_exact\<close> and \<open>durable_exact\<close>. Triples (\<open>triple\<close>, \<open>keeps\<close>) carry the invariants of operations
  that fail half way.

  \<^bold>\<open>Parameters.\<close> Library code is an argument, with what the code relies on as hypotheses: the
  formula tokenizer, parser and printer (\<open>formula_lib\<close>, \<open>pattern_lib\<close>), the coordinate functions and
  the sheet operations of the spreadsheet library (\<open>coord_lib\<close>, \<open>engine_lib\<close>; \<open>new_sheet_law\<close>: a new
  sheet is empty), typed cell contents (\<open>prepare_lib\<close>; \<open>assignable\<close>: a content that was put in a cell
  is read back), \<open>serde\<close> (\<open>codec\<close>, \<open>journal_codec\<close>; \<open>line_codec_ok\<close>: a written line is read back and
  has no line break), SHA-256, the XML tokenizer, regular expressions and floating-point comparison.

  \<^bold>\<open>Bounds and termination.\<close> Every function is total but one: the search and replace of
  \<open>FormulaReplace\<close> can run forever and is a partial function, with the exact condition under which it
  returns. Walks over parent pointers carry the fuel \<open>Suc (length map)\<close>, which is enough because no
  walk repeats a node (\<open>Ancestry\<close>). Widths are those of the code (\<open>u32\<close>, \<open>u64\<close>, 64-bit \<open>usize\<close>).

  \<^bold>\<open>Not modelled.\<close> The command line and the MCP server (argument and transport glue), rendering,
  the spreadsheet file format and formula evaluation (library code), the read tools and styles
  (projections of the spreadsheet library without state of their own), native host functions and
  the JavaScript and WebAssembly bindings. Of the operations of a write, styles, column sizes,
  layouts, rules and appended or cloned rows are behind one parameter of
  \<open>WriteApply\<close>. The manifest names every part that is left out with the reason.
\<close>

end
